(* ===== verification/Prelude.thy ===== *)
theory Prelude
  imports Main "HOL-Library.Word"
begin

unbundle bit_operations_syntax

text \<open>
  Shared vocabulary of the development: the C types of the drive code and the operations of
  the C library it uses on byte buffers (\<open>memset\<close>, \<open>memcpy\<close>), with the lemmas about
  them that the component theories use by \<open>simp\<close>, and one arithmetic fact on prefix sums
  that every track and sector addressing scheme of the drive rests on.

  A buffer is a \<open>byte list\<close>. A read \<open>xs ! i\<close> outside the buffer is unspecified, as it
  is undefined in C; the component theories prove the accesses that matter to be in range.
\<close>

named_theorems buf_simps \<open>lengths and elements of buffers after a write\<close>
named_theorems geom_simps \<open>sector counts and offsets of the disk formats\<close>

type_synonym byte = "8 word"
type_synonym buffer = "byte list"

subsection \<open>Conversions between C integer types\<close>

text \<open>The value of an \<open>unsigned int\<close> expression, and its conversion to \<open>int\<close>.\<close>

definition c_uint :: "nat \<Rightarrow> nat" where
  "c_uint n = n mod 2 ^ 32"

definition c_int :: "nat \<Rightarrow> int" where
  "c_int n = (let m = c_uint n in if m < 2 ^ 31 then int m else int m - 2 ^ 32)"

text \<open>An \<open>int\<close> assigned to an \<open>unsigned int\<close>.\<close>

definition c_unsigned :: "int \<Rightarrow> nat" where
  "c_unsigned i = nat (i mod 2 ^ 32)"

lemma c_unsigned_nat [simp]: "n < 2 ^ 32 \<Longrightarrow> c_unsigned (int n) = n"
  by (simp add: c_unsigned_def)

lemma byte_less: "unat (c :: byte) < 256"
  using unsigned_less [of c] by simp

definition UINT32_MAX :: nat where
  "UINT32_MAX = 2 ^ 32 - 1"

lemma c_int_small: "n < 2 ^ 31 \<Longrightarrow> c_int n = int n"
  by (simp add: c_int_def c_uint_def)

lemma c_int_nonneg: "0 \<le> c_int n \<longleftrightarrow> c_uint n < 2 ^ 31"
proof -
  have "c_uint n < 2 ^ 32" by (simp add: c_uint_def)
  then show ?thesis by (auto simp: c_int_def Let_def)
qed

lemma c_int_lower: "- (2 ^ 31) \<le> c_int n"
  by (auto simp: c_int_def Let_def)

lemma c_int_upper: "c_int n < 2 ^ 31"
proof -
  have "c_uint n < 2 ^ 32" by (simp add: c_uint_def)
  then show ?thesis by (auto simp: c_int_def Let_def)
qed

subsection \<open>Writing into a buffer\<close>

definition write_at :: "'a list \<Rightarrow> nat \<Rightarrow> 'a list \<Rightarrow> 'a list" where
  "write_at xs off ys = take off xs @ ys @ drop (off + length ys) xs"

definition memset :: "'a list \<Rightarrow> nat \<Rightarrow> 'a \<Rightarrow> nat \<Rightarrow> 'a list" where
  "memset xs off v n = write_at xs off (replicate n v)"

definition slice :: "'a list \<Rightarrow> nat \<Rightarrow> nat \<Rightarrow> 'a list" where
  "slice xs off n = take n (drop off xs)"

lemma length_write_at [simp, buf_simps]:
  "off + length ys \<le> length xs \<Longrightarrow> length (write_at xs off ys) = length xs"
  by (simp add: write_at_def)

lemma nth_write_at:
  assumes "off + length ys \<le> length xs" and "i < length xs"
  shows "write_at xs off ys ! i =
    (if off \<le> i \<and> i < off + length ys then ys ! (i - off) else xs ! i)"
  using assms by (auto simp: write_at_def nth_append min_def)

lemma nth_write_at_other [buf_simps]:
  "off + length ys \<le> length xs \<Longrightarrow> i < length xs \<Longrightarrow> i < off \<or> off + length ys \<le> i \<Longrightarrow>
    write_at xs off ys ! i = xs ! i"
  by (auto simp: nth_write_at)

lemma length_memset [simp, buf_simps]:
  "off + n \<le> length xs \<Longrightarrow> length (memset xs off v n) = length xs"
  by (simp add: memset_def)

lemma nth_memset:
  "off + n \<le> length xs \<Longrightarrow> i < length xs \<Longrightarrow>
    memset xs off v n ! i = (if off \<le> i \<and> i < off + n then v else xs ! i)"
  by (auto simp: memset_def nth_write_at)

lemma length_slice [simp, buf_simps]:
  "off + n \<le> length xs \<Longrightarrow> length (slice xs off n) = n"
  by (simp add: slice_def)

lemma nth_slice [buf_simps]:
  "i < n \<Longrightarrow> off + n \<le> length xs \<Longrightarrow> slice xs off n ! i = xs ! (off + i)"
  by (simp add: slice_def)

lemma slice_write_at_same [simp]:
  "off + length ys \<le> length xs \<Longrightarrow> slice (write_at xs off ys) off (length ys) = ys"
  by (simp add: slice_def write_at_def)

lemma slice_write_at_other:
  assumes "off + length ys \<le> length xs"
    and "off' + n \<le> off \<or> off + length ys \<le> off'" and "off' + n \<le> length xs"
  shows "slice (write_at xs off ys) off' n = slice xs off' n"
  using assms by (intro nth_equalityI) (auto simp: nth_slice nth_write_at)

lemma write_at_append:
  assumes "off + length xs + length ys \<le> length f"
  shows "write_at (write_at f off xs) (off + length xs) ys = write_at f off (xs @ ys)"
  using assms by (simp add: write_at_def add.commute add.left_commute)

lemma write_at_slice [simp]:
  "off + n \<le> length xs \<Longrightarrow> write_at xs off (slice xs off n) = xs"
  by (simp add: write_at_def slice_def) (metis add.commute append_take_drop_id drop_drop)

subsection \<open>Prefix sums\<close>

text \<open>
  The loops \<open>for (i = 1; i < track; i++) sectors += f(i)\<close> of the addressing code.
\<close>

definition sum_from :: "(nat \<Rightarrow> nat) \<Rightarrow> nat \<Rightarrow> nat \<Rightarrow> nat" where
  "sum_from f n a = foldl (\<lambda>s i. s + f i) a [1..<n]"

lemma foldl_add_init: "foldl (\<lambda>s i. s + f i) (a::nat) xs = a + foldl (\<lambda>s i. s + f i) 0 xs"
proof (induction xs arbitrary: a)
  case Nil
  then show ?case by simp
next
  case (Cons x xs)
  show ?case
    using Cons.IH [of "a + f x"] Cons.IH [of "f x"] by simp
qed

lemma sum_from_init: "sum_from f n a = a + sum_from f n 0"
  unfolding sum_from_def by (rule foldl_add_init)

lemma sum_from_1 [simp]: "sum_from f 1 a = a" "sum_from f (Suc 0) a = a" "sum_from f 0 a = a"
  by (simp_all add: sum_from_def)

lemma sum_from_Suc: "1 \<le> n \<Longrightarrow> sum_from f (Suc n) a = sum_from f n a + f n"
  by (simp add: sum_from_def)

lemma sum_from_mono: "n \<le> m \<Longrightarrow> sum_from f n a \<le> sum_from f m a"
proof (induction m)
  case 0
  then show ?case by simp
next
  case (Suc m)
  show ?case
  proof (cases "n = Suc m \<or> m = 0")
    case True
    with Suc.prems show ?thesis by (cases n) auto
  next
    case False
    with Suc.prems have "n \<le> m" and "1 \<le> m" by auto
    with Suc.IH show ?thesis by (simp add: sum_from_Suc)
  qed
qed

lemma sum_from_step: "1 \<le> n \<Longrightarrow> n < m \<Longrightarrow> sum_from f n a + f n \<le> sum_from f m a"
  using sum_from_mono [of "Suc n" m f a] by (simp add: sum_from_Suc)

lemma sum_from_cong: "(\<And>i. 1 \<le> i \<Longrightarrow> i < n \<Longrightarrow> f i = g i) \<Longrightarrow> sum_from f n a = sum_from g n a"
  unfolding sum_from_def by (rule foldl_cong) auto

text \<open>Two sides of \<open>n\<close> tracks each, the second numbered on from the first.\<close>

lemma sum_from_two_sides:
  assumes g: "\<And>t. g t = f (if t > n then t - n else t)" and "1 \<le> t"
  shows "sum_from g t 0 =
    (if t > n then sum_from f (Suc n) 0 + sum_from f (t - n) 0 else sum_from f t 0)"
  using assms(2)
proof (induction t rule: dec_induct)
  case base
  then show ?case by (cases n) simp_all
next
  case (step m)
  consider "m < n" | "m = n" | "n < m" by linarith
  then show ?case
  proof cases
    case 1
    with step show ?thesis by (simp add: sum_from_Suc g)
  next
    case 2
    with step show ?thesis by (simp add: sum_from_Suc g)
  next
    case 3
    with step show ?thesis by (simp add: sum_from_Suc g Suc_diff_le)
  qed
qed

text \<open>
  Numbering the cells \<open>(t, s)\<close> with \<open>s < f t\<close> by \<open>sum_from f t 0 + s\<close> gives no two
  cells the same number, and every number below the total is the number of a cell.
\<close>

lemma prefix_sum_inj:
  assumes "1 \<le> t" "1 \<le> t'" and "s < f t" "s' < f t'"
    and eq: "sum_from f t a + s = sum_from f t' a + s'"
  shows "t = t' \<and> s = s'"
proof (rule ccontr)
  assume neg: "\<not> (t = t' \<and> s = s')"
  have "t \<noteq> t'" using neg eq by auto
  then consider "t < t'" | "t' < t" by linarith
  then show False
  proof cases
    case 1
    with assms(1) have "sum_from f t a + f t \<le> sum_from f t' a" by (rule sum_from_step)
    with assms eq show False by simp
  next
    case 2
    with assms(2) have "sum_from f t' a + f t' \<le> sum_from f t a" by (rule sum_from_step)
    with assms eq show False by simp
  qed
qed

lemma prefix_sum_surj:
  assumes "k < sum_from f (Suc n) 0"
  shows "\<exists>t s. 1 \<le> t \<and> t \<le> n \<and> s < f t \<and> sum_from f t 0 + s = k"
  using assms
proof (induction n)
  case 0
  then show ?case by simp
next
  case (Suc n)
  show ?case
  proof (cases "k < sum_from f (Suc n) 0")
    case True
    with Suc.IH show ?thesis by (meson le_SucI)
  next
    case False
    with Suc.prems have "k - sum_from f (Suc n) 0 < f (Suc n)"
      by (simp add: sum_from_Suc)
    with False show ?thesis
      by (intro exI [of _ "Suc n"] exI [of _ "k - sum_from f (Suc n) 0"]) simp
  qed
qed

end
