(* ===== verification/DiskImage.thy ===== *)
theory DiskImage
  imports Prelude
begin

text \<open>
  Disk images and their geometry (\<^verbatim>\<open>lib/vdrive/diskimage.c\<close>, \<^verbatim>\<open>diskimage.h\<close>,
  \<^verbatim>\<open>diskconstants.h\<close>, \<^verbatim>\<open>fsimage.h\<close>, \<^verbatim>\<open>fsimage-check.c\<close>): the image types and the record of
  an attached image, the speed zones with the sector counts, raw track sizes and gaps that
  hang on them, and the map from a track and sector to the number of a 256-byte block of the
  image file. The lemmas show that this map numbers the sectors without collision and
  without a hole.

  The build does not define \<^verbatim>\<open>HAVE_X64_IMAGE\<close>, so the X64 branches of the source are not
  compiled and have no counterpart here.
\<close>

subsection \<open>Types\<close>

datatype disk_image_type =
    G64 | G71 | P64 | D64 | D67 | D71 | D81 | D80 | D82 | TAP | D1M | D2M | D4M | DHD | D90
  | OTHER_TYPE nat

datatype disk_image_device = DEVICE_FS | DEVICE_REAL | DEVICE_RAW

text \<open>
  A file opened through \<^verbatim>\<open>archdep_fopen\<close> is a random access file, here its contents; \<open>None\<close>
  is the closed file. \<open>error_map\<close>, \<open>error_dirty\<close> and \<open>error_len\<close> are the members of
  \<^verbatim>\<open>error_info\<close>.
\<close>

record fsimage =
  fd :: "byte list option"
  fs_name :: string
  error_map :: "byte list option"
  error_dirty :: bool
  error_len :: nat

text \<open>
  Sector access to the GCR and P64 images (\<^verbatim>\<open>fsimage-gcr.c\<close>, \<^verbatim>\<open>fsimage-p64.c\<close>), which decode a
  raw track, is a parameter of the model: functions of the file contents, the track, the
  sector and the buffer. The flat images do not use it.
\<close>

record sector_codec =
  codec_read :: "byte list \<Rightarrow> nat \<Rightarrow> nat \<Rightarrow> buffer \<Rightarrow> int \<times> buffer"
  codec_write :: "byte list \<Rightarrow> nat \<Rightarrow> nat \<Rightarrow> buffer \<Rightarrow> int \<times> byte list"

text \<open>
  The members \<^verbatim>\<open>gcr\<close> and \<^verbatim>\<open>p64\<close> of the C structure are not part of the record:
  \<^verbatim>\<open>VDriveClass.cpp\<close> and \<^verbatim>\<open>vdrive-internal.c\<close> set \<^verbatim>\<open>gcr\<close> to NULL and nothing else in the
  program assigns it, so the branches under \<^verbatim>\<open>image->gcr != NULL\<close> are never taken.
\<close>

record disk_image =
  media :: "fsimage option"
  read_only :: nat
  device :: disk_image_device
  itype :: disk_image_type
  itracks :: nat
  isectors :: nat
  max_half_tracks :: nat
  image_id :: nat
  raw_codec :: sector_codec

definition no_codec :: sector_codec where
  "no_codec = \<lparr>codec_read = (\<lambda>f t s buf. (-1, buf)), codec_write = (\<lambda>f t s buf. (-1, f))\<rparr>"

record disk_addr =
  da_track :: nat
  da_sector :: nat

subsection \<open>Speed zones\<close>

definition zone :: "nat \<Rightarrow> nat \<Rightarrow> nat \<Rightarrow> nat \<Rightarrow> nat" where
  "zone a b c t = of_bool (t < a) + of_bool (t < b) + of_bool (t < c)"

definition disk_image_speed_map :: "disk_image_type \<Rightarrow> nat \<Rightarrow> nat" where
  "disk_image_speed_map format t =
    (case format of
       D67 \<Rightarrow> zone 31 25 18 t
     | D64 \<Rightarrow> zone 31 25 18 t
     | G64 \<Rightarrow> zone 31 25 18 t
     | P64 \<Rightarrow> zone 31 25 18 t
     | D80 \<Rightarrow> zone 65 54 40 t
     | D82 \<Rightarrow> zone 65 54 40 (if t > 77 then t - 77 else t)
     | D71 \<Rightarrow> zone 31 25 18 (if t > 35 then t - 35 else t)
     | G71 \<Rightarrow> zone 31 25 18 (if t > 42 then t - 42 else t)
     | _ \<Rightarrow> 0)"

definition sector_map_d64 :: "nat list" where
  "sector_map_d64 = [17, 18, 19, 21]"

definition sector_map_d67 :: "nat list" where
  "sector_map_d67 = [17, 18, 20, 21]"

definition sector_map_d80 :: "nat list" where
  "sector_map_d80 = [23, 25, 27, 29]"

definition disk_image_sector_per_track :: "disk_image_type \<Rightarrow> nat \<Rightarrow> nat" where
  "disk_image_sector_per_track format t =
    (if format \<in> {D64, G64, P64, D71, G71} then sector_map_d64 ! disk_image_speed_map format t
     else if format = D67 then sector_map_d67 ! disk_image_speed_map format t
     else if format \<in> {D80, D82} then sector_map_d80 ! disk_image_speed_map format t
     else 0)"

subsection \<open>Raw tracks\<close>

definition raw_track_size_d64 :: "nat list" where
  "raw_track_size_d64 = [6250, 6666, 7142, 7692]"

definition raw_track_size_d67 :: "nat list" where
  "raw_track_size_d67 = [6250, 6666, 7142, 7692]"

definition raw_track_size_d80 :: "nat list" where
  "raw_track_size_d80 = [9375, 10000, 10714, 11538]"

definition disk_image_raw_track_size :: "disk_image_type \<Rightarrow> nat \<Rightarrow> nat" where
  "disk_image_raw_track_size format t =
    (if format \<in> {D64, G64, P64, D71, G71} then raw_track_size_d64 ! disk_image_speed_map format t
     else if format = D67 then raw_track_size_d67 ! disk_image_speed_map format t
     else if format \<in> {D80, D82} then raw_track_size_d80 ! disk_image_speed_map format t
     else 1)"

definition gap_size_d64 :: "nat list" where
  "gap_size_d64 = [9, 12, 17, 8]"

definition gap_size_d67 :: "nat list" where
  "gap_size_d67 = [9, 12, 4, 8]"

definition disk_image_gap_size :: "disk_image_type \<Rightarrow> nat \<Rightarrow> nat" where
  "disk_image_gap_size format t =
    (if format \<in> {D64, G64, P64, D71, G71} then gap_size_d64 ! disk_image_speed_map format t
     else if format = D67 then gap_size_d67 ! disk_image_speed_map format t
     else if format \<in> {D80, D82} then 25
     else 1)"

definition disk_image_header_gap_size :: "disk_image_type \<Rightarrow> nat \<Rightarrow> nat" where
  "disk_image_header_gap_size format t =
    (if format \<in> {D64, G64, P64, D71, G71} then 9 else if format = D67 then 4 else 1)"

definition disk_image_sync_size :: "disk_image_type \<Rightarrow> nat \<Rightarrow> nat" where
  "disk_image_sync_size format t =
    (if format \<in> {D64, G64, P64, D71, G71} then 5 else if format = D67 then 5 else 1)"

subsection \<open>The number of a sector\<close>

definition FSIMAGE_BAD_TRKNUM :: int where "FSIMAGE_BAD_TRKNUM = -2"
definition FSIMAGE_BAD_SECNUM :: int where "FSIMAGE_BAD_SECNUM = -3"

text \<open>The loop \<open>for (i = 1; i < track; i++) sectors += disk_image_sector_per_track(format, i)\<close>.\<close>

definition sectors_below :: "disk_image_type \<Rightarrow> nat \<Rightarrow> nat \<Rightarrow> nat" where
  "sectors_below format t a = sum_from (disk_image_sector_per_track format) t a"

text \<open>The branch for the GCR and P64 images, and the one the three FD types share.\<close>

definition check_gcr :: "disk_image \<Rightarrow> nat \<Rightarrow> nat \<Rightarrow> int" where
  "check_gcr img t s =
    (if t > itracks img \<or> t > 42 then FSIMAGE_BAD_TRKNUM
     else if s \<ge> disk_image_sector_per_track D64 t then FSIMAGE_BAD_SECNUM
     else c_int (sectors_below D64 t 0 + s))"

definition check_fd :: "nat \<Rightarrow> nat \<Rightarrow> nat \<Rightarrow> nat \<Rightarrow> int" where
  "check_fd num_tracks sys_sectors t s =
    (if t > num_tracks then FSIMAGE_BAD_TRKNUM
     else if s > 255 \<or> (t = num_tracks \<and> s \<ge> sys_sectors) then FSIMAGE_BAD_SECNUM
     else c_int ((t - 1) * 256 + s))"

definition fsimage_check_sector :: "disk_image \<Rightarrow> nat \<Rightarrow> nat \<Rightarrow> int" where
  "fsimage_check_sector img t s =
    (if itype img \<noteq> D90 \<and> t < 1 then FSIMAGE_BAD_TRKNUM
     else case itype img of
       D64 \<Rightarrow>
         if t > 42 then FSIMAGE_BAD_TRKNUM
         else if s \<ge> disk_image_sector_per_track D64 t then FSIMAGE_BAD_SECNUM
         else c_int (sectors_below D64 t 0 + s)
     | D67 \<Rightarrow>
         if t > 35 then FSIMAGE_BAD_TRKNUM
         else if s \<ge> disk_image_sector_per_track D67 t then FSIMAGE_BAD_SECNUM
         else c_int (sectors_below D67 t 0 + s)
     | D71 \<Rightarrow>
         if t > 70 then FSIMAGE_BAD_TRKNUM
         else
           let (t', a) = (if t > 35 then (t - 35, 683) else (t, 0)) in
           if s \<ge> disk_image_sector_per_track D64 t' then FSIMAGE_BAD_SECNUM
           else c_int (sectors_below D64 t' a + s)
     | D81 \<Rightarrow>
         if t > 83 then FSIMAGE_BAD_TRKNUM
         else if s \<ge> 40 then FSIMAGE_BAD_SECNUM
         else c_int ((t - 1) * 40 + s)
     | D80 \<Rightarrow>
         if t > 77 then FSIMAGE_BAD_TRKNUM
         else if s \<ge> disk_image_sector_per_track D80 t then FSIMAGE_BAD_SECNUM
         else c_int (sectors_below D80 t 0 + s)
     | D82 \<Rightarrow>
         if t > 154 then FSIMAGE_BAD_TRKNUM
         else
           let (t', a) = (if t > 77 then (t - 77, 2083) else (t, 0)) in
           if s \<ge> disk_image_sector_per_track D80 t' then FSIMAGE_BAD_SECNUM
           else c_int (sectors_below D80 t' a + s)
     | G64 \<Rightarrow> check_gcr img t s
     | G71 \<Rightarrow> check_gcr img t s
     | P64 \<Rightarrow> check_gcr img t s
     | D1M \<Rightarrow> check_fd 13 168 t s
     | D2M \<Rightarrow> check_fd 26 80 t s
     | D4M \<Rightarrow> check_fd 51 160 t s
     | DHD \<Rightarrow>
         if t > 0xffff then FSIMAGE_BAD_TRKNUM
         else if s > 0xffff then FSIMAGE_BAD_SECNUM
         else c_int ((t - 1) * 65536 + s)
     | D90 \<Rightarrow>
         if t > itracks img then FSIMAGE_BAD_TRKNUM
         else if s \<ge> isectors img then FSIMAGE_BAD_SECNUM
         else c_int (t * (isectors img div 32 * 32) + s)
     | _ \<Rightarrow> -1)"

definition disk_image_check_sector :: "disk_image \<Rightarrow> nat \<Rightarrow> nat \<Rightarrow> int" where
  "disk_image_check_sector img t s =
    (if device img = DEVICE_FS then fsimage_check_sector img t s else 0)"

definition disk_image_type_name :: "disk_image \<Rightarrow> string option" where
  "disk_image_type_name img =
    (case itype img of
       D80 \<Rightarrow> Some ''D80'' | D82 \<Rightarrow> Some ''D82'' | D64 \<Rightarrow> Some ''D64'' | D67 \<Rightarrow> Some ''D67''
     | G64 \<Rightarrow> Some ''G64'' | P64 \<Rightarrow> Some ''P64'' | D71 \<Rightarrow> Some ''D71'' | G71 \<Rightarrow> Some ''G71''
     | D81 \<Rightarrow> Some ''D81'' | D1M \<Rightarrow> Some ''D1M'' | D2M \<Rightarrow> Some ''D2M'' | D4M \<Rightarrow> Some ''D4M''
     | DHD \<Rightarrow> Some ''DHD'' | D90 \<Rightarrow> Some ''D90'' | _ \<Rightarrow> None)"

subsection \<open>Lemmas on the geometry\<close>

lemmas geometry_defs = disk_image_sector_per_track_def disk_image_speed_map_def zone_def
  sector_map_d64_def sector_map_d67_def sector_map_d80_def

lemmas sector_code_defs = FSIMAGE_BAD_TRKNUM_def FSIMAGE_BAD_SECNUM_def

lemma sector_per_track_d64 [geom_simps]:
  "disk_image_sector_per_track D64 t =
    (if t < 18 then 21 else if t < 25 then 19 else if t < 31 then 18 else 17)"
  by (simp add: geometry_defs)

lemma sector_per_track_d67 [geom_simps]:
  "disk_image_sector_per_track D67 t =
    (if t < 18 then 21 else if t < 25 then 20 else if t < 31 then 18 else 17)"
  by (simp add: geometry_defs)

lemma sector_per_track_d71 [geom_simps]:
  "disk_image_sector_per_track D71 t =
    disk_image_sector_per_track D64 (if t > 35 then t - 35 else t)"
  by (simp add: geometry_defs)

lemma sector_per_track_d80 [geom_simps]:
  "disk_image_sector_per_track D80 t =
    (if t < 40 then 29 else if t < 54 then 27 else if t < 65 then 25 else 23)"
  by (simp add: geometry_defs)

lemma sector_per_track_d82:
  "disk_image_sector_per_track D82 t =
    disk_image_sector_per_track D80 (if t > 77 then t - 77 else t)"
  by (simp add: geometry_defs)

text \<open>The prefix sums in closed form, track by track.\<close>

lemma sectors_below_d64 [geom_simps]:
  assumes "1 \<le> t"
  shows "sectors_below D64 t 0 =
    (if t \<le> 18 then 21 * (t - 1) else if t \<le> 25 then 357 + 19 * (t - 18)
     else if t \<le> 31 then 490 + 18 * (t - 25) else 598 + 17 * (t - 31))"
  using assms unfolding sectors_below_def
proof (induction t rule: dec_induct)
  case base
  then show ?case by simp
next
  case (step n)
  then show ?case by (auto simp: sum_from_Suc sector_per_track_d64)
qed

lemma sectors_below_d67 [geom_simps]:
  assumes "1 \<le> t"
  shows "sectors_below D67 t 0 =
    (if t \<le> 18 then 21 * (t - 1) else if t \<le> 25 then 357 + 20 * (t - 18)
     else if t \<le> 31 then 497 + 18 * (t - 25) else 605 + 17 * (t - 31))"
  using assms unfolding sectors_below_def
proof (induction t rule: dec_induct)
  case base
  then show ?case by simp
next
  case (step n)
  then show ?case by (auto simp: sum_from_Suc sector_per_track_d67)
qed

lemma sectors_below_d80 [geom_simps]:
  assumes "1 \<le> t"
  shows "sectors_below D80 t 0 =
    (if t \<le> 40 then 29 * (t - 1) else if t \<le> 54 then 1131 + 27 * (t - 40)
     else if t \<le> 65 then 1509 + 25 * (t - 54) else 1784 + 23 * (t - 65))"
  using assms unfolding sectors_below_def
proof (induction t rule: dec_induct)
  case base
  then show ?case by simp
next
  case (step n)
  then show ?case by (auto simp: sum_from_Suc sector_per_track_d80)
qed

lemma sectors_below_init: "sectors_below f t a = a + sectors_below f t 0"
  unfolding sectors_below_def by (rule sum_from_init)

subsection \<open>The abstract geometry of an image\<close>

text \<open>
  What \<open>fsimage_check_sector\<close> promises, over one description of the image types: the first
  and the last track, the number of sectors on each track, and sectors numbered from 0 in
  track order.
\<close>

definition known_type :: "disk_image \<Rightarrow> bool" where
  "known_type img = (case itype img of TAP \<Rightarrow> False | OTHER_TYPE _ \<Rightarrow> False | _ \<Rightarrow> True)"

definition first_track :: "disk_image \<Rightarrow> nat" where
  "first_track img = (if itype img = D90 then 0 else 1)"

definition track_limit :: "disk_image \<Rightarrow> nat" where
  "track_limit img =
    (case itype img of
       D64 \<Rightarrow> 42 | D67 \<Rightarrow> 35 | D71 \<Rightarrow> 70 | D81 \<Rightarrow> 83 | D80 \<Rightarrow> 77 | D82 \<Rightarrow> 154
     | G64 \<Rightarrow> min (itracks img) 42 | G71 \<Rightarrow> min (itracks img) 42 | P64 \<Rightarrow> min (itracks img) 42
     | D1M \<Rightarrow> 13 | D2M \<Rightarrow> 26 | D4M \<Rightarrow> 51 | DHD \<Rightarrow> 65535 | D90 \<Rightarrow> itracks img | _ \<Rightarrow> 0)"

definition track_sectors :: "disk_image \<Rightarrow> nat \<Rightarrow> nat" where
  "track_sectors img =
    (case itype img of
       D64 \<Rightarrow> disk_image_sector_per_track D64
     | D67 \<Rightarrow> disk_image_sector_per_track D67
     | D71 \<Rightarrow> disk_image_sector_per_track D71
     | D80 \<Rightarrow> disk_image_sector_per_track D80
     | D82 \<Rightarrow> disk_image_sector_per_track D82
     | G64 \<Rightarrow> disk_image_sector_per_track D64
     | G71 \<Rightarrow> disk_image_sector_per_track D64
     | P64 \<Rightarrow> disk_image_sector_per_track D64
     | D81 \<Rightarrow> (\<lambda>_. 40)
     | D1M \<Rightarrow> (\<lambda>t. if t = 13 then 168 else 256)
     | D2M \<Rightarrow> (\<lambda>t. if t = 26 then 80 else 256)
     | D4M \<Rightarrow> (\<lambda>t. if t = 51 then 160 else 256)
     | DHD \<Rightarrow> (\<lambda>_. 65536)
     | D90 \<Rightarrow> (\<lambda>_. isectors img)
     | _ \<Rightarrow> (\<lambda>_. 0))"

definition block_of :: "disk_image \<Rightarrow> nat \<Rightarrow> nat \<Rightarrow> nat" where
  "block_of img t s = sum_from (track_sectors img) (Suc t - first_track img) 0 + s"

definition geometry_ok :: "disk_image \<Rightarrow> bool" where
  "geometry_ok img = (itype img = D90 \<longrightarrow>
     isectors img mod 32 = 0 \<and> Suc (itracks img) * isectors img < 2 ^ 32)"

lemma sum_from_const: "1 \<le> n \<Longrightarrow> sum_from (\<lambda>_. k) n 0 = (n - 1) * k"
proof (induction n rule: dec_induct)
  case base
  then show ?case by simp
next
  case (step n)
  then show ?case by (cases n) (auto simp: sum_from_Suc)
qed

lemma sum_from_all_but_last:
  assumes "1 \<le> n" "n \<le> m"
  shows "sum_from (\<lambda>t. if t = m then j else k) n 0 = (n - 1) * k"
proof -
  have "sum_from (\<lambda>t. if t = m then j else k) n 0 = sum_from (\<lambda>_. k) n 0"
    using assms by (intro sum_from_cong) auto
  with assms show ?thesis by (simp add: sum_from_const)
qed

lemma sum_from_last:
  "1 \<le> m \<Longrightarrow> sum_from (\<lambda>t. if t = m then j else k) (Suc m) 0 = (m - 1) * k + j"
  by (simp add: sum_from_Suc sum_from_all_but_last)

lemma sectors_below_d71:
  assumes "1 \<le> t"
  shows "sectors_below D71 t 0 =
    (if t > 35 then 683 + sectors_below D64 (t - 35) 0 else sectors_below D64 t 0)"
proof -
  have "sum_from (disk_image_sector_per_track D64) (Suc 35) 0 = 683"
    using sectors_below_d64 [of "Suc 35"] by (simp add: sectors_below_def)
  with sum_from_two_sides [where g = "disk_image_sector_per_track D71" and n = 35,
      OF sector_per_track_d71 assms]
  show ?thesis by (simp only: sectors_below_def)
qed

lemma sectors_below_d82:
  assumes "1 \<le> t"
  shows "sectors_below D82 t 0 =
    (if t > 77 then 2083 + sectors_below D80 (t - 77) 0 else sectors_below D80 t 0)"
proof -
  have "sum_from (disk_image_sector_per_track D80) (Suc 77) 0 = 2083"
    using sectors_below_d80 [of "Suc 77"] by (simp add: sectors_below_def)
  with sum_from_two_sides [where g = "disk_image_sector_per_track D82" and n = 77,
      OF sector_per_track_d82 assms]
  show ?thesis by (simp only: sectors_below_def)
qed

text \<open>
  The specification. For every image type \<open>fsimage_check_sector\<close> rejects a track outside the
  range, then a sector beyond the track, and otherwise gives the number of the block, as an
  \<open>int\<close>.
\<close>

lemma fsimage_check_sector_spec:
  assumes "known_type img" and "geometry_ok img"
  shows "fsimage_check_sector img t s =
    (if t < first_track img \<or> track_limit img < t then FSIMAGE_BAD_TRKNUM
     else if track_sectors img t \<le> s then FSIMAGE_BAD_SECNUM
     else c_int (block_of img t s))"
proof (cases "itype img = D90")
  case True
  with assms show ?thesis
    by (auto simp: fsimage_check_sector_def first_track_def track_limit_def track_sectors_def
        block_of_def geometry_ok_def sum_from_const)
next
  case False
  show ?thesis
  proof (cases "t < 1")
    case True
    with False show ?thesis by (simp add: fsimage_check_sector_def first_track_def)
  next
    case t: False
    note defs = fsimage_check_sector_def first_track_def track_limit_def track_sectors_def
      block_of_def check_gcr_def check_fd_def
    show ?thesis
      using False t assms(1)
      by (cases "itype img")
        (auto simp: defs known_type_def sectors_below_def [symmetric] sum_from_const
          sum_from_all_but_last sectors_below_d71 sectors_below_d82 sector_per_track_d71
          sector_per_track_d82 sectors_below_init [of _ _ 683] sectors_below_init [of _ _ 2083]
          Let_def)
  qed
qed

lemma check_sector_accepts:
  assumes "known_type img" and "geometry_ok img" and "0 \<le> fsimage_check_sector img t s"
  shows "first_track img \<le> t" and "t \<le> track_limit img" and "s < track_sectors img t"
    and "fsimage_check_sector img t s = c_int (block_of img t s)"
  using assms by (auto simp: fsimage_check_sector_spec sector_code_defs split: if_splits)

lemma block_of_inj:
  assumes "first_track img \<le> t" "first_track img \<le> t'"
    and "s < track_sectors img t" "s' < track_sectors img t'"
    and "block_of img t s = block_of img t' s'"
  shows "t = t' \<and> s = s'"
proof (cases "itype img = D90")
  case True
  then have "track_sectors img = (\<lambda>_. isectors img)" by (simp add: track_sectors_def)
  with True assms prefix_sum_inj [of "Suc t" "Suc t'" s "\<lambda>_. isectors img" s' 0]
  show ?thesis by (simp add: block_of_def first_track_def)
next
  case False
  with assms prefix_sum_inj [of t t' s "track_sectors img" s' 0]
  show ?thesis by (simp add: block_of_def first_track_def)
qed

text \<open>No block number of a known image type exceeds 32 bits.\<close>

lemma block_of_below_limit:
  assumes "first_track img \<le> t" "t \<le> n" "s < track_sectors img t"
  shows "block_of img t s < sum_from (track_sectors img) (Suc (Suc n) - first_track img) 0"
proof -
  let ?f = "track_sectors img"
  have "sum_from ?f (Suc (Suc t) - first_track img) 0 =
      sum_from ?f (Suc t - first_track img) 0 + (if itype img = D90 then ?f (Suc t) else ?f t)"
    using assms(1) by (auto simp: first_track_def sum_from_Suc)
  moreover have "?f (Suc t) = ?f t" if "itype img = D90"
    using that by (simp add: track_sectors_def)
  ultimately have "block_of img t s < sum_from ?f (Suc (Suc t) - first_track img) 0"
    using assms(3) by (auto simp: block_of_def)
  also have "\<dots> \<le> sum_from ?f (Suc (Suc n) - first_track img) 0"
    using assms(2) by (intro sum_from_mono) simp
  finally show ?thesis .
qed

lemma total_blocks:
  assumes "known_type img" and "geometry_ok img"
  shows "sum_from (track_sectors img) (Suc (Suc (track_limit img)) - first_track img) 0 < 2 ^ 32"
proof -
  have d64: "sectors_below D64 (Suc n) 0 \<le> 802" if "n \<le> 42" for n
    using that sectors_below_d64 [of "Suc n"] by (auto split: if_splits)
  show ?thesis
    using assms d64 [of "min (itracks img) 42"] sectors_below_d67 [of 36] sectors_below_d71 [of 71]
      sectors_below_d80 [of 78] sectors_below_d82 [of 155] sum_from_last [of 13 168 256]
      sum_from_last [of 26 80 256] sum_from_last [of 51 160 256]
    by (cases "itype img")
      (auto simp: track_sectors_def track_limit_def first_track_def known_type_def geometry_ok_def
        sum_from_const sectors_below_def [symmetric] geom_simps)
qed

lemma check_sector_value:
  assumes "known_type img" and "geometry_ok img" and "0 \<le> fsimage_check_sector img t s"
  shows "fsimage_check_sector img t s = int (block_of img t s)"
proof -
  note acc = check_sector_accepts [OF assms]
  have "block_of img t s < 2 ^ 32"
    using block_of_below_limit [OF acc(1,2,3)] total_blocks [OF assms(1,2)] by simp
  moreover have "c_uint (block_of img t s) < 2 ^ 31"
    using assms(3) by (simp only: acc(4) c_int_nonneg)
  ultimately show ?thesis
    by (simp only: acc(4)) (simp add: c_int_def c_uint_def)
qed

subsection \<open>Properties\<close>

text \<open>
  C1. A track and sector that \<open>fsimage_check_sector\<close> accepts is given the number of the block
  at its place in track order, and two different addresses of one image are never given the
  same block: no sector of an image overlays another.
\<close>

theorem check_sector_no_overlap:
  assumes "known_type img" and "geometry_ok img"
    and "0 \<le> fsimage_check_sector img t s" and "0 \<le> fsimage_check_sector img t' s'"
  shows "fsimage_check_sector img t s = int (block_of img t s) \<and>
    (fsimage_check_sector img t s = fsimage_check_sector img t' s' \<longrightarrow> t = t' \<and> s = s')"
proof -
  note acc = check_sector_accepts [OF assms(1,2,3)] and acc' = check_sector_accepts [OF assms(1,2,4)]
  have v: "fsimage_check_sector img t s = int (block_of img t s)"
    and v': "fsimage_check_sector img t' s' = int (block_of img t' s')"
    using assms by (auto intro: check_sector_value)
  show ?thesis
    using block_of_inj [OF acc(1) acc'(1) acc(3) acc'(3)] unfolding v v' by auto
qed

definition d64_image :: "nat \<Rightarrow> disk_image" where
  "d64_image n = \<lparr>media = None, read_only = 0, device = DEVICE_FS, itype = D64, itracks = n,
     isectors = 0, max_half_tracks = 84, image_id = UINT32_MAX, raw_codec = no_codec\<rparr>"

theorem check_sector_no_overlap_witness:
  "fsimage_check_sector (d64_image 35) 18 0 = int (block_of (d64_image 35) 18 0) \<and>
   fsimage_check_sector (d64_image 35) 18 0 \<noteq> fsimage_check_sector (d64_image 35) 18 1"
proof -
  have k: "known_type (d64_image 35)" "geometry_ok (d64_image 35)"
    by (simp_all add: known_type_def geometry_ok_def d64_image_def)
  have a: "0 \<le> fsimage_check_sector (d64_image 35) 18 0" "0 \<le> fsimage_check_sector (d64_image 35) 18 1"
    by (simp_all add: fsimage_check_sector_def d64_image_def geom_simps c_int_small)
  show ?thesis using check_sector_no_overlap [OF k a] by auto
qed

text \<open>
  The sectors of the tracks 1 to \<open>n\<close> of a D64 image fill the blocks from 0 on without a
  hole: every block number below the total is the number of an accepted address on one of
  these tracks. For 35 tracks the total is 683 blocks, the size of a standard D64 file.
\<close>

theorem d64_sectors_cover_file:
  assumes "itype img = D64" and "n \<le> 42" and "k < sectors_below D64 (Suc n) 0"
  shows "sectors_below D64 36 0 = 683 \<and>
    (\<exists>t s. 1 \<le> t \<and> t \<le> n \<and> fsimage_check_sector img t s = int k)"
proof -
  have f: "track_sectors img = disk_image_sector_per_track D64"
    using assms(1) by (simp add: track_sectors_def)
  obtain t s where ts: "1 \<le> t" "t \<le> n" "s < track_sectors img t" "sum_from (track_sectors img) t 0 + s = k"
    using prefix_sum_surj [of k "track_sectors img" n] assms(3) by (auto simp: f sectors_below_def)
  have img: "known_type img" "geometry_ok img" "first_track img = 1" "track_limit img = 42"
    using assms(1) by (simp_all add: known_type_def geometry_ok_def first_track_def track_limit_def)
  have blk: "block_of img t s = k"
    using ts by (simp add: block_of_def img)
  have "k < 2 ^ 31"
    using assms(2,3) sectors_below_d64 [of "Suc n"] by (simp split: if_splits)
  with ts assms(2) have "fsimage_check_sector img t s = int k"
    by (simp add: fsimage_check_sector_spec img blk c_int_small)
  with ts show ?thesis by (auto simp: geom_simps)
qed

theorem d64_sectors_cover_file_witness:
  "sectors_below D64 36 0 = 683 \<and>
    (\<exists>t s. 1 \<le> t \<and> t \<le> 35 \<and> fsimage_check_sector (d64_image 35) t s = int 682)"
proof -
  have "itype (d64_image 35) = D64" and "(35::nat) \<le> 42" and "(682::nat) < sectors_below D64 (Suc 35) 0"
    by (simp_all add: d64_image_def geom_simps)
  then show ?thesis by (rule d64_sectors_cover_file)
qed

end
