(* ===== verification/Cbmdos.thy ===== *)
theory Cbmdos
  imports Prelude
begin

text \<open>
  The CBM DOS vocabulary (\<^verbatim>\<open>lib/vdrive/cbmdos.h\<close>, \<^verbatim>\<open>cbmdos.c\<close>): error codes and their texts,
  the controller (FDC) codes and their translation, file types, and the comparison of a
  name pattern with the name field of a directory slot. Names are PETSCII bytes; \<open>0xA0\<close>
  (shift-space) pads a slot name to 16 bytes, \<open>0x2A\<close> is the star and \<open>0x3F\<close> the question
  mark.
\<close>

subsection \<open>Codes\<close>

abbreviation (input) "CBMDOS_IPE_OK \<equiv> 0 :: int"
abbreviation (input) "CBMDOS_IPE_DELETED \<equiv> 1 :: int"
abbreviation (input) "CBMDOS_IPE_READ_ERROR_BNF \<equiv> 20 :: int"
abbreviation (input) "CBMDOS_IPE_READ_ERROR_SYNC \<equiv> 21 :: int"
abbreviation (input) "CBMDOS_IPE_READ_ERROR_DATA \<equiv> 22 :: int"
abbreviation (input) "CBMDOS_IPE_READ_ERROR_CHK \<equiv> 23 :: int"
abbreviation (input) "CBMDOS_IPE_READ_ERROR_GCR \<equiv> 24 :: int"
abbreviation (input) "CBMDOS_IPE_WRITE_ERROR_VER \<equiv> 25 :: int"
abbreviation (input) "CBMDOS_IPE_WRITE_PROTECT_ON \<equiv> 26 :: int"
abbreviation (input) "CBMDOS_IPE_READ_ERROR_BCHK \<equiv> 27 :: int"
abbreviation (input) "CBMDOS_IPE_WRITE_ERROR_BIG \<equiv> 28 :: int"
abbreviation (input) "CBMDOS_IPE_DISK_ID_MISMATCH \<equiv> 29 :: int"
abbreviation (input) "CBMDOS_IPE_INVAL \<equiv> 31 :: int"
abbreviation (input) "CBMDOS_IPE_NO_NAME \<equiv> 34 :: int"
abbreviation (input) "CBMDOS_IPE_OVERFLOW \<equiv> 51 :: int"
abbreviation (input) "CBMDOS_IPE_NO_BLOCK \<equiv> 65 :: int"
abbreviation (input) "CBMDOS_IPE_ILLEGAL_TRACK_OR_SECTOR \<equiv> 66 :: int"
abbreviation (input) "CBMDOS_IPE_DOS_VERSION \<equiv> 73 :: int"
abbreviation (input) "CBMDOS_IPE_NO_RECORD \<equiv> 50 :: int"
abbreviation (input) "CBMDOS_IPE_NOT_WRITE \<equiv> 60 :: int"
abbreviation (input) "CBMDOS_IPE_NOT_FOUND \<equiv> 62 :: int"
abbreviation (input) "CBMDOS_IPE_FILE_EXISTS \<equiv> 63 :: int"
abbreviation (input) "CBMDOS_IPE_ILLEGAL_SYSTEM_T_OR_S \<equiv> 67 :: int"
abbreviation (input) "CBMDOS_IPE_NO_CHANNEL \<equiv> 70 :: int"
abbreviation (input) "CBMDOS_IPE_DISK_FULL \<equiv> 72 :: int"
abbreviation (input) "CBMDOS_IPE_NOT_READY \<equiv> 74 :: int"

abbreviation (input) "CBMDOS_FT_DEL \<equiv> 0 :: nat"
abbreviation (input) "CBMDOS_FT_SEQ \<equiv> 1 :: nat"
abbreviation (input) "CBMDOS_FT_PRG \<equiv> 2 :: nat"
abbreviation (input) "CBMDOS_FT_USR \<equiv> 3 :: nat"
abbreviation (input) "CBMDOS_FT_REL \<equiv> 4 :: nat"
abbreviation (input) "CBMDOS_FT_CBM \<equiv> 5 :: nat"
abbreviation (input) "CBMDOS_FT_DIR \<equiv> 6 :: nat"

abbreviation (input) "CBMDOS_FAM_READ \<equiv> 0 :: nat"
abbreviation (input) "CBMDOS_FAM_WRITE \<equiv> 1 :: nat"
abbreviation (input) "CBMDOS_FAM_APPEND \<equiv> 2 :: nat"
abbreviation (input) "CBMDOS_FAM_EOF \<equiv> 4 :: nat"

abbreviation (input) "CBMDOS_FDC_ERR_OK \<equiv> 1 :: nat"
abbreviation (input) "CBMDOS_FDC_ERR_HEADER \<equiv> 2 :: nat"
abbreviation (input) "CBMDOS_FDC_ERR_SYNC \<equiv> 3 :: nat"
abbreviation (input) "CBMDOS_FDC_ERR_NOBLOCK \<equiv> 4 :: nat"
abbreviation (input) "CBMDOS_FDC_ERR_DCHECK \<equiv> 5 :: nat"
abbreviation (input) "CBMDOS_FDC_ERR_VERIFY \<equiv> 7 :: nat"
abbreviation (input) "CBMDOS_FDC_ERR_WPROT \<equiv> 8 :: nat"
abbreviation (input) "CBMDOS_FDC_ERR_HCHECK \<equiv> 9 :: nat"
abbreviation (input) "CBMDOS_FDC_ERR_BLENGTH \<equiv> 10 :: nat"
abbreviation (input) "CBMDOS_FDC_ERR_ID \<equiv> 11 :: nat"
abbreviation (input) "CBMDOS_FDC_ERR_FSPEED \<equiv> 12 :: nat"
abbreviation (input) "CBMDOS_FDC_ERR_DRIVE \<equiv> 15 :: nat"
abbreviation (input) "CBMDOS_FDC_ERR_DECODE \<equiv> 16 :: nat"

definition cbmdos_error_messages :: "(nat \<times> string) list" where
  "cbmdos_error_messages =
    [(0, '' OK''), (1, ''FILES SCRATCHED''), (2, ''SELECTED PARTITION''), (3, ''UNIMPLEMENTED''),
     (20, ''READ ERROR''), (21, ''READ ERROR''), (22, ''READ ERROR''), (23, ''READ ERROR''),
     (24, ''READ ERROR''), (25, ''WRITE ERROR''), (26, ''WRITE PROTECT ON''), (27, ''READ ERROR''),
     (28, ''WRITE ERROR''), (29, ''DISK ID MISMATCH''), (30, ''SYNTAX ERROR''),
     (31, ''SYNTAX ERROR''), (32, ''SYNTAX ERROR''), (33, ''SYNTAX ERROR''), (34, ''SYNTAX ERROR''),
     (39, ''FILE NOT FOUND''), (50, ''RECORD NOT PRESENT''), (51, ''OVERFLOW IN RECORD''),
     (52, ''FILE TOO LARGE''), (60, ''WRITE FILE OPEN''), (61, ''FILE NOT OPEN''),
     (62, ''FILE NOT FOUND''), (63, ''FILE EXISTS''), (64, ''FILE TYPE MISMATCH''),
     (65, ''NO BLOCK''), (66, ''ILLEGAL TRACK OR SECTOR''), (67, ''ILLEGAL SYSTEM T OR S''),
     (70, ''NO CHANNEL''), (71, ''DIRECTORY ERROR''), (72, ''DISK FULL''),
     (73, ''VIRTUAL DRIVE EMULATION V3.5''), (74, ''DRIVE NOT READY''), (75, ''FORMAT ERROR''),
     (77, ''SELECTED PARTITION ILLEGAL''), (80, ''DIRECTORY NOT EMPTY''),
     (81, ''PERMISSION DENIED''), (99, ''M-E NOT SUPPORTED'')]"

text \<open>The table ends with the entry 255; reaching it, the search gives up.\<close>

fun errortext_search :: "(nat \<times> string) list \<Rightarrow> nat \<Rightarrow> string" where
  "errortext_search [] code = ''UNKNOWN ERROR NUMBER''"
| "errortext_search ((nr, text) # rest) code = (if nr = code then text else errortext_search rest code)"

definition cbmdos_errortext :: "nat \<Rightarrow> string" where
  "cbmdos_errortext code = errortext_search cbmdos_error_messages code"

definition cbmdos_ft :: "string list" where
  "cbmdos_ft = [''DEL'', ''SEQ'', ''PRG'', ''USR'', ''REL'', ''CBM'', ''DIR'', ''???'']"

definition cbmdos_filetype_get :: "nat \<Rightarrow> string" where
  "cbmdos_filetype_get filetype = cbmdos_ft ! filetype"

definition cbmdos_fdc_error_to_cbmdos_error :: "nat \<Rightarrow> int" where
  "cbmdos_fdc_error_to_cbmdos_error rf =
    (if rf = CBMDOS_FDC_ERR_OK then CBMDOS_IPE_OK
     else if rf = CBMDOS_FDC_ERR_HEADER then CBMDOS_IPE_READ_ERROR_BNF
     else if rf = CBMDOS_FDC_ERR_SYNC then CBMDOS_IPE_READ_ERROR_SYNC
     else if rf = CBMDOS_FDC_ERR_NOBLOCK then CBMDOS_IPE_READ_ERROR_DATA
     else if rf = CBMDOS_FDC_ERR_DCHECK then CBMDOS_IPE_READ_ERROR_CHK
     else if rf = CBMDOS_FDC_ERR_VERIFY then CBMDOS_IPE_WRITE_ERROR_VER
     else if rf = CBMDOS_FDC_ERR_WPROT then CBMDOS_IPE_WRITE_PROTECT_ON
     else if rf = CBMDOS_FDC_ERR_HCHECK then CBMDOS_IPE_READ_ERROR_BCHK
     else if rf = CBMDOS_FDC_ERR_BLENGTH then CBMDOS_IPE_WRITE_ERROR_BIG
     else if rf = CBMDOS_FDC_ERR_ID then CBMDOS_IPE_DISK_ID_MISMATCH
     else if rf = CBMDOS_FDC_ERR_DRIVE then CBMDOS_IPE_NOT_READY
     else if rf = CBMDOS_FDC_ERR_DECODE then CBMDOS_IPE_READ_ERROR_GCR
     else CBMDOS_IPE_NOT_READY)"

definition cbmdos_error_to_fdc_error :: "int \<Rightarrow> nat" where
  "cbmdos_error_to_fdc_error rf =
    (if rf = CBMDOS_IPE_OK then CBMDOS_FDC_ERR_OK
     else if rf = CBMDOS_IPE_READ_ERROR_BNF then CBMDOS_FDC_ERR_HEADER
     else if rf = CBMDOS_IPE_READ_ERROR_SYNC then CBMDOS_FDC_ERR_SYNC
     else if rf = CBMDOS_IPE_READ_ERROR_DATA then CBMDOS_FDC_ERR_NOBLOCK
     else if rf = CBMDOS_IPE_READ_ERROR_CHK then CBMDOS_FDC_ERR_DCHECK
     else if rf = CBMDOS_IPE_WRITE_ERROR_VER then CBMDOS_FDC_ERR_VERIFY
     else if rf = CBMDOS_IPE_WRITE_PROTECT_ON then CBMDOS_FDC_ERR_WPROT
     else if rf = CBMDOS_IPE_READ_ERROR_BCHK then CBMDOS_FDC_ERR_HCHECK
     else if rf = CBMDOS_IPE_WRITE_ERROR_BIG then CBMDOS_FDC_ERR_BLENGTH
     else if rf = CBMDOS_IPE_DISK_ID_MISMATCH then CBMDOS_FDC_ERR_ID
     else if rf = CBMDOS_IPE_NOT_READY then CBMDOS_FDC_ERR_DRIVE
     else if rf = CBMDOS_IPE_READ_ERROR_GCR then CBMDOS_FDC_ERR_DECODE
     else CBMDOS_FDC_ERR_DRIVE)"

subsection \<open>Name patterns\<close>

abbreviation (input) "CBMDOS_SLOT_NAME_LENGTH \<equiv> 16 :: nat"

fun cbmdos_parse_wildcard_check :: "buffer \<Rightarrow> nat \<Rightarrow> nat" where
  "cbmdos_parse_wildcard_check nm 0 = 0"
| "cbmdos_parse_wildcard_check [] (Suc len) = 0"
| "cbmdos_parse_wildcard_check (c # nm) (Suc len) =
    (if c = 0x2A \<or> c = 0x3F then 1 else cbmdos_parse_wildcard_check nm len)"

function wildcard_compare_loop :: "buffer \<Rightarrow> nat \<Rightarrow> buffer \<Rightarrow> nat \<Rightarrow> nat" where
  "wildcard_compare_loop pattern pattern_length dirname index =
    (if index < CBMDOS_SLOT_NAME_LENGTH then
       if index \<ge> pattern_length then of_bool (dirname ! index = 0xA0)
       else if pattern ! index = 0x2A then 1
       else if pattern ! index \<noteq> dirname ! index \<and> pattern ! index \<noteq> 0x3F then 0
       else if pattern ! index \<noteq> dirname ! index \<and> dirname ! index = 0xA0 then 0
       else wildcard_compare_loop pattern pattern_length dirname (Suc index)
     else 1)"
  by pat_completeness auto
termination
  by (relation "measure (\<lambda>(p, n, d, i). CBMDOS_SLOT_NAME_LENGTH - i)") auto

declare wildcard_compare_loop.simps [simp del]

definition cbmdos_parse_wildcard_compare :: "buffer \<Rightarrow> nat \<Rightarrow> buffer \<Rightarrow> nat" where
  "cbmdos_parse_wildcard_compare pattern pattern_length dirname =
    wildcard_compare_loop pattern pattern_length dirname 0"

definition cbmdos_dir_slot_create :: "buffer \<Rightarrow> nat \<Rightarrow> buffer" where
  "cbmdos_dir_slot_create nm len =
    (let len = (if len > CBMDOS_SLOT_NAME_LENGTH then CBMDOS_SLOT_NAME_LENGTH else len) in
     write_at (replicate CBMDOS_SLOT_NAME_LENGTH 0xA0) 0 (take len nm))"

subsection \<open>Lemmas\<close>

text \<open>What it is for position \<open>i\<close> of a pattern to fit the name.\<close>

definition char_fits :: "buffer \<Rightarrow> buffer \<Rightarrow> nat \<Rightarrow> bool" where
  "char_fits pattern dirname i =
    (pattern ! i = dirname ! i \<or> (pattern ! i = 0x3F \<and> dirname ! i \<noteq> 0xA0))"

text \<open>The length of the part of the pattern that is compared: up to a star, 16 at most.\<close>

definition fixed_part :: "buffer \<Rightarrow> nat" where
  "fixed_part pattern = min (length (takeWhile (\<lambda>c. c \<noteq> 0x2A) pattern)) CBMDOS_SLOT_NAME_LENGTH"

definition pattern_matches :: "buffer \<Rightarrow> buffer \<Rightarrow> bool" where
  "pattern_matches pattern dirname =
    ((\<forall>i \<in> {..<fixed_part pattern}. char_fits pattern dirname i) \<and>
     (fixed_part pattern = length pattern \<longrightarrow>
        length pattern = CBMDOS_SLOT_NAME_LENGTH \<or> dirname ! length pattern = 0xA0))"

lemma fixed_part_le: "fixed_part pattern \<le> length pattern" "fixed_part pattern \<le> 16"
  by (auto simp: fixed_part_def min_def intro: length_takeWhile_le le_trans)

lemma below_fixed_part: "i < fixed_part pattern \<Longrightarrow> pattern ! i \<noteq> 0x2A"
proof
  assume "i < fixed_part pattern" and star: "pattern ! i = 0x2A"
  then have i: "i < length (takeWhile (\<lambda>c. c \<noteq> 0x2A) pattern)"
    by (simp add: fixed_part_def)
  then have "takeWhile (\<lambda>c. c \<noteq> 0x2A) pattern ! i \<in> set (takeWhile (\<lambda>c. c \<noteq> 0x2A) pattern)"
    by (rule nth_mem)
  with i star show False by (auto simp: takeWhile_nth dest: set_takeWhileD)
qed

lemma at_fixed_part:
  assumes "fixed_part pattern < length pattern" "fixed_part pattern < 16"
  shows "pattern ! fixed_part pattern = 0x2A"
proof -
  have "fixed_part pattern = length (takeWhile (\<lambda>c. c \<noteq> 0x2A) pattern)"
    using assms(2) by (simp add: fixed_part_def min_def split: if_splits)
  with assms(1) nth_length_takeWhile [of "\<lambda>c. c \<noteq> 0x2A" pattern] show ?thesis by simp
qed

lemma wildcard_compare_loop_spec:
  assumes "index \<le> fixed_part pattern"
  shows "wildcard_compare_loop pattern (length pattern) dirname index =
    of_bool ((\<forall>i \<in> {index..<fixed_part pattern}. char_fits pattern dirname i) \<and>
      (fixed_part pattern = length pattern \<longrightarrow>
         length pattern = 16 \<or> dirname ! length pattern = 0xA0))"
  using assms
proof (induction rule: inc_induct)
  case base
  show ?case
    using fixed_part_le [of pattern] at_fixed_part [of pattern]
    by (subst wildcard_compare_loop.simps) auto
next
  case (step n)
  then have n: "n < 16" "n < length pattern" "pattern ! n \<noteq> 0x2A"
    using fixed_part_le [of pattern] below_fixed_part [of n pattern] by auto
  have split: "{n..<fixed_part pattern} = insert n {Suc n..<fixed_part pattern}"
    using step.hyps by auto
  show ?case
    using n step.IH
    by (subst wildcard_compare_loop.simps) (auto simp: split char_fits_def)
qed

lemma length_cbmdos_dir_slot_create [simp]:
  "length (cbmdos_dir_slot_create nm len) = CBMDOS_SLOT_NAME_LENGTH"
  by (simp add: cbmdos_dir_slot_create_def Let_def)

lemma nth_cbmdos_dir_slot_create:
  assumes "len \<le> length nm" and "i < 16"
  shows "cbmdos_dir_slot_create nm len ! i = (if i < len then nm ! i else 0xA0)"
  using assms by (auto simp: cbmdos_dir_slot_create_def Let_def nth_write_at)

subsection \<open>Properties\<close>

text \<open>
  C3. Comparing a pattern with the name field of a directory slot decides the declarative
  match: every position up to the first star (16 at most) holds the same byte, or a question
  mark over a byte that is not padding; and a pattern with no star that is shorter than 16
  is followed by padding in the name.
\<close>

theorem wildcard_compare_matches:
  "cbmdos_parse_wildcard_compare pattern (length pattern) dirname =
    of_bool (pattern_matches pattern dirname)"
  by (simp add: cbmdos_parse_wildcard_compare_def wildcard_compare_loop_spec pattern_matches_def
      atLeast0LessThan)

text \<open>
  C4. A plain name (1 to 16 bytes without a wildcard and without padding bytes) used as a
  pattern finds the slot created for another plain name exactly when the two names are
  equal.
\<close>

theorem plain_name_finds_only_itself:
  assumes "length a \<le> 16" "length b \<le> 16"
    and "0x2A \<notin> set a" "0x3F \<notin> set a" "0xA0 \<notin> set a" "0xA0 \<notin> set b"
  shows "cbmdos_parse_wildcard_compare a (length a) (cbmdos_dir_slot_create b (length b)) = 1 \<longleftrightarrow> a = b"
proof -
  have "takeWhile (\<lambda>c. c \<noteq> 0x2A) a = a"
    using assms(3) by (auto simp: takeWhile_eq_all_conv)
  then have "length (takeWhile (\<lambda>c. c \<noteq> 0x2A) a) = length a" by (rule arg_cong)
  with assms(1) have fp: "fixed_part a = length a"
    by (simp add: fixed_part_def)
  have slot: "cbmdos_dir_slot_create b (length b) ! i = (if i < length b then b ! i else 0xA0)"
    if "i < 16" for i
    using that by (simp add: nth_cbmdos_dir_slot_create)
  have fits: "char_fits a (cbmdos_dir_slot_create b (length b)) i \<longleftrightarrow> i < length b \<and> a ! i = b ! i"
    if i: "i < length a" for i
  proof -
    have "a ! i \<noteq> 0x3F" "a ! i \<noteq> 0xA0" using nth_mem [OF i] assms(4,5) by metis+
    with i assms(1) show ?thesis by (auto simp: char_fits_def slot)
  qed
  have end_fits: "length a = 16 \<or> cbmdos_dir_slot_create b (length b) ! length a = 0xA0
      \<longleftrightarrow> length b \<le> length a"
  proof -
    have "b ! length a \<noteq> 0xA0" if "length a < length b" using nth_mem [OF that] assms(6) by metis
    with assms(1,2) slot [of "length a"] show ?thesis by (cases "length a = 16") auto
  qed
  have "cbmdos_parse_wildcard_compare a (length a) (cbmdos_dir_slot_create b (length b)) =
      of_bool ((\<forall>i \<in> {0..<length a}. i < length b \<and> a ! i = b ! i) \<and> length b \<le> length a)"
    unfolding cbmdos_parse_wildcard_compare_def wildcard_compare_loop_spec [OF le0] fp
    using fits end_fits by simp
  also have "(\<forall>i \<in> {0..<length a}. i < length b \<and> a ! i = b ! i) \<and> length b \<le> length a \<longleftrightarrow> a = b"
  proof
    assume h: "(\<forall>i \<in> {0..<length a}. i < length b \<and> a ! i = b ! i) \<and> length b \<le> length a"
    then have "length a = length b"
      by (metis atLeast0LessThan le_antisym lessThan_iff linorder_not_le order_less_irrefl)
    with h show "a = b" by (intro nth_equalityI) auto
  qed simp
  finally show ?thesis by simp
qed

theorem plain_name_finds_only_itself_witness:
  "cbmdos_parse_wildcard_compare [0x48, 0x49] (length [0x48, 0x49 :: byte])
     (cbmdos_dir_slot_create [0x48, 0x49, 0x21] (length [0x48, 0x49, 0x21 :: byte])) = 1 \<longleftrightarrow>
   [0x48, 0x49] = [0x48, 0x49, 0x21 :: byte]"
  by (rule plain_name_finds_only_itself) simp_all

end
