(* ===== verification/SectorStore.thy ===== *)
theory SectorStore
  imports Prelude
begin

text \<open>
  The contract between a storage layer and its clients. A device \<open>'d\<close> that satisfies its
  invariant offers blocks \<open>'b\<close> under addresses \<open>'a\<close>: a block written to a valid address is
  what a later read of this address returns, with status 0, and no other address notices the
  write. The image files and the logical sectors of the drive both provide it; the lemmas
  below hold for every provider.
\<close>

locale sector_store =
  fixes invar :: "'d \<Rightarrow> bool"
    and valid :: "'d \<Rightarrow> 'a \<Rightarrow> bool"
    and block :: "'b \<Rightarrow> bool"
    and rd :: "'d \<Rightarrow> 'a \<Rightarrow> int \<times> 'b"
    and wr :: "'d \<Rightarrow> 'a \<Rightarrow> 'b \<Rightarrow> 'd"
  assumes write_invar: "invar d \<Longrightarrow> valid d a \<Longrightarrow> block b \<Longrightarrow> invar (wr d a b)"
    and write_valid: "invar d \<Longrightarrow> valid d a \<Longrightarrow> block b \<Longrightarrow> valid (wr d a b) a' = valid d a'"
    and read_write_same: "invar d \<Longrightarrow> valid d a \<Longrightarrow> block b \<Longrightarrow> rd (wr d a b) a = (0, b)"
    and read_write_other:
      "invar d \<Longrightarrow> valid d a \<Longrightarrow> block b \<Longrightarrow> valid d a' \<Longrightarrow> a' \<noteq> a \<Longrightarrow>
        rd (wr d a b) a' = rd d a'"
begin

lemmas store_simps = write_invar write_valid read_write_same read_write_other

lemma read_write:
  "invar d \<Longrightarrow> valid d a \<Longrightarrow> block b \<Longrightarrow> valid d a' \<Longrightarrow>
    rd (wr d a b) a' = (if a' = a then (0, b) else rd d a')"
  by (simp add: store_simps)

text \<open>Two writes to different addresses read back the same in either order.\<close>

lemma write_commute:
  assumes "invar d" "valid d a" "valid d b" "a \<noteq> b" "block x" "block y" "valid d c"
  shows "rd (wr (wr d a x) b y) c = rd (wr (wr d b y) a x) c"
  using assms by (auto simp: store_simps read_write)

text \<open>After a sequence of writes each address holds the block written to it last.\<close>

lemma read_writes:
  assumes "invar d" and "\<forall>w \<in> set ws. valid d (fst w) \<and> block (snd w)" and "valid d a"
  shows "invar (fold (\<lambda>(a, b) d. wr d a b) ws d) \<and>
    rd (fold (\<lambda>(a, b) d. wr d a b) ws d) a =
      (case map_of (rev ws) a of Some b \<Rightarrow> (0, b) | None \<Rightarrow> rd d a)"
  using assms
proof (induction ws arbitrary: d)
  case Nil
  then show ?case by simp
next
  case (Cons w ws)
  obtain p x where w: "w = (p, x)" by (cases w)
  from Cons.prems w have p: "valid d p" "block x" by auto
  have "\<forall>w \<in> set ws. valid (wr d p x) (fst w) \<and> block (snd w)"
    using Cons.prems p by (auto simp: write_valid)
  with Cons.IH [of "wr d p x"] Cons.prems p w show ?case
    by (auto simp: store_simps read_write map_add_def split: option.splits)
qed

end

end
