(* ===== verification/FsImage.thy ===== *)
theory FsImage
  imports DiskImage Cbmdos SectorStore
begin

text \<open>
  Sector input and output on an image file (\<^verbatim>\<open>lib/vdrive/fsimage.c\<close>, \<^verbatim>\<open>fsimage-dxx.c\<close>, the
  sector functions of \<^verbatim>\<open>diskimage.c\<close>, \<^verbatim>\<open>util_fpread\<close> and \<^verbatim>\<open>util_fpwrite\<close> of \<^verbatim>\<open>util.c\<close>). A
  function that reads takes the caller's buffer and returns it updated; one that writes
  returns the image with the new file contents. The interface \<open>sector_store\<close> states what the
  layers above rely on: a sector reads back as last written, and writing it leaves every
  other sector alone.

  The file is a regular file: a read stops at its end, a write past the end extends it with
  zero bytes. A short read leaves the bytes it got in the buffer. The host's file system is
  taken not to fail a write, so \<^verbatim>\<open>util_fpwrite\<close> returns 0.

  The place of a block, \<^verbatim>\<open>sectors * 256\<close>, is an \<^verbatim>\<open>int\<close> of 32 bits, and so is a \<^verbatim>\<open>long\<close>: the
  product wraps around from 2 GB on. The definitions keep this (\<open>c_int\<close>), and a negative place
  makes the seek fail. The predicates \<open>in_image\<close> and \<open>dxx_ok\<close> therefore ask that a block, and
  the error bytes where there are any, lie in the first 2 GB of the file; C7 says what happens
  beyond.
\<close>

subsection \<open>The file\<close>

definition util_fpread :: "byte list \<Rightarrow> buffer \<Rightarrow> nat \<Rightarrow> nat \<Rightarrow> int \<times> buffer" where
  "util_fpread f buf num offset =
    (let got = slice f offset num in
     (if length got < num then -1 else 0, write_at buf 0 got))"

definition util_fpwrite :: "byte list \<Rightarrow> buffer \<Rightarrow> nat \<Rightarrow> nat \<Rightarrow> int \<times> byte list" where
  "util_fpwrite f buf num offset =
    (0, write_at (f @ replicate (offset + num - length f) 0) offset (take num buf))"

text \<open>The same two at a place computed as a \<^verbatim>\<open>long\<close>: \<^verbatim>\<open>archdep_fseek\<close> fails where it is negative.\<close>

definition util_fpread_long :: "byte list \<Rightarrow> buffer \<Rightarrow> nat \<Rightarrow> int \<Rightarrow> int \<times> buffer" where
  "util_fpread_long f buf num offset =
    (if offset < 0 then (-1, buf) else util_fpread f buf num (nat offset))"

definition util_fpwrite_long :: "byte list \<Rightarrow> buffer \<Rightarrow> nat \<Rightarrow> int \<Rightarrow> int \<times> byte list" where
  "util_fpwrite_long f buf num offset =
    (if offset < 0 then (-1, f) else util_fpwrite f buf num (nat offset))"

subsection \<open>Flat images\<close>

definition soft_error :: "nat \<Rightarrow> bool" where
  "soft_error rf = (rf = 0 \<or> rf = 1 \<or> rf = 5 \<or> rf = 7 \<or> rf = 8)"

text \<open>The switch at the end of \<^verbatim>\<open>fsimage_dxx_read_sector\<close>.\<close>

definition dxx_status :: "nat \<Rightarrow> int" where
  "dxx_status rf =
    (if rf = CBMDOS_FDC_ERR_OK then CBMDOS_IPE_OK
     else if rf = CBMDOS_FDC_ERR_HEADER then CBMDOS_IPE_READ_ERROR_BNF
     else if rf = CBMDOS_FDC_ERR_SYNC then CBMDOS_IPE_READ_ERROR_SYNC
     else if rf = CBMDOS_FDC_ERR_NOBLOCK then CBMDOS_IPE_READ_ERROR_DATA
     else if rf = CBMDOS_FDC_ERR_DCHECK then CBMDOS_IPE_READ_ERROR_CHK
     else if rf = CBMDOS_FDC_ERR_VERIFY then CBMDOS_IPE_WRITE_ERROR_VER
     else if rf = CBMDOS_FDC_ERR_WPROT then CBMDOS_IPE_WRITE_PROTECT_ON
     else if rf = CBMDOS_FDC_ERR_HCHECK then CBMDOS_IPE_READ_ERROR_BCHK
     else if rf = CBMDOS_FDC_ERR_BLENGTH then CBMDOS_IPE_WRITE_ERROR_BIG
     else if rf = CBMDOS_FDC_ERR_ID then CBMDOS_IPE_DISK_ID_MISMATCH
     else if rf = CBMDOS_FDC_ERR_DRIVE then CBMDOS_IPE_NOT_READY
     else if rf = CBMDOS_FDC_ERR_DECODE then CBMDOS_IPE_READ_ERROR_GCR
     else CBMDOS_IPE_OK)"

definition fsimage_dxx_read_sector :: "disk_image \<Rightarrow> buffer \<Rightarrow> disk_addr \<Rightarrow> int \<times> buffer" where
  "fsimage_dxx_read_sector img buf dadr =
    (let secs = disk_image_check_sector img (da_track dadr) (da_sector dadr);
         fsimage = the (media img) in
     if secs < 0 then (CBMDOS_IPE_ILLEGAL_TRACK_OR_SECTOR, buf)
     else
       let k = nat secs; offset = c_int (k * 256);
           rf = (case error_map fsimage of Some m \<Rightarrow> unat (m ! k) | None \<Rightarrow> CBMDOS_FDC_ERR_OK);
           harderror = (error_map fsimage \<noteq> None \<and> \<not> soft_error rf) in
       if harderror then (dxx_status rf, buf)
       else case util_fpread_long (the (fd fsimage)) buf 256 offset of
         (r, buf') \<Rightarrow> if r < 0 then (-1, buf') else (dxx_status rf, buf'))"

definition fsimage_dxx_write_sector :: "disk_image \<Rightarrow> buffer \<Rightarrow> disk_addr \<Rightarrow> int \<times> disk_image" where
  "fsimage_dxx_write_sector img buf dadr =
    (let secs = disk_image_check_sector img (da_track dadr) (da_sector dadr);
         fsimage = the (media img) in
     if secs < 0 then (-1, img)
     else
       let k = nat secs; offset = c_int (k * 256) in
       case util_fpwrite_long (the (fd fsimage)) buf 256 offset of
         (r, f) \<Rightarrow>
           if r < 0 then (-1, img\<lparr>media := Some (fsimage\<lparr>fd := Some f\<rparr>)\<rparr>)
           else case error_map fsimage of
             None \<Rightarrow> (0, img\<lparr>media := Some (fsimage\<lparr>fd := Some f\<rparr>)\<rparr>)
           | Some m \<Rightarrow>
               if unat (m ! k) \<noteq> CBMDOS_FDC_ERR_OK then
                 let m' = m[k := 1]; offset' = c_int (error_len fsimage * 256 + k);
                     f' = snd (util_fpwrite_long f [m' ! k] 1 offset') in
                 (0, img\<lparr>media := Some (fsimage\<lparr>fd := Some f', error_map := Some m'\<rparr>)\<rparr>)
               else (0, img\<lparr>media := Some (fsimage\<lparr>fd := Some f\<rparr>)\<rparr>))"

subsection \<open>Dispatch on the image type\<close>

definition flat_type :: "disk_image_type \<Rightarrow> bool" where
  "flat_type ty = (ty \<in> {D64, D67, D71, D81, D80, D82, D1M, D2M, D4M, DHD, D90})"

definition fsimage_read_sector :: "disk_image \<Rightarrow> buffer \<Rightarrow> disk_addr \<Rightarrow> int \<times> buffer" where
  "fsimage_read_sector img buf dadr =
    (if media img = None \<or> fd (the (media img)) = None then (CBMDOS_IPE_NOT_READY, buf)
     else if flat_type (itype img) then fsimage_dxx_read_sector img buf dadr
     else if itype img \<in> {G64, G71, P64} then
       codec_read (raw_codec img) (the (fd (the (media img)))) (da_track dadr) (da_sector dadr) buf
     else (CBMDOS_IPE_NOT_READY, buf))"

definition fsimage_write_sector :: "disk_image \<Rightarrow> buffer \<Rightarrow> disk_addr \<Rightarrow> int \<times> disk_image" where
  "fsimage_write_sector img buf dadr =
    (let fsimage = the (media img) in
     if fd fsimage = None then (-1, img)
     else if flat_type (itype img) then
       (case fsimage_dxx_write_sector img buf dadr of (r, img') \<Rightarrow> if r < 0 then (-1, img') else (0, img'))
     else if itype img \<in> {G64, G71, P64} then
       (case codec_write (raw_codec img) (the (fd fsimage)) (da_track dadr) (da_sector dadr) buf of
          (r, f) \<Rightarrow> (if r < 0 then -1 else 0, img\<lparr>media := Some (fsimage\<lparr>fd := Some f\<rparr>)\<rparr>))
     else (-1, img))"

definition disk_image_read_sector :: "disk_image \<Rightarrow> buffer \<Rightarrow> disk_addr \<Rightarrow> int \<times> buffer" where
  "disk_image_read_sector img buf dadr =
    (case device img of DEVICE_FS \<Rightarrow> fsimage_read_sector img buf dadr | _ \<Rightarrow> (-1, buf))"

definition disk_image_write_sector :: "disk_image \<Rightarrow> buffer \<Rightarrow> disk_addr \<Rightarrow> int \<times> disk_image" where
  "disk_image_write_sector img buf dadr =
    (if read_only img \<noteq> 0 then (-1, img)
     else case device img of DEVICE_FS \<Rightarrow> fsimage_write_sector img buf dadr | _ \<Rightarrow> (-1, img))"

subsection \<open>Lemmas\<close>

lemma util_fpread_in:
  "offset + num \<le> length f \<Longrightarrow> length buf = num \<Longrightarrow>
    util_fpread f buf num offset = (0, slice f offset num)"
  by (simp add: util_fpread_def Let_def write_at_def)

lemma util_fpwrite_in:
  "offset + num \<le> length f \<Longrightarrow> length buf = num \<Longrightarrow>
    util_fpwrite f buf num offset = (0, write_at f offset buf)"
  by (simp add: util_fpwrite_def)

lemma util_fp_long_small:
  assumes "offset < 2 ^ 31"
  shows "util_fpread_long f buf num (c_int offset) = util_fpread f buf num offset"
    and "util_fpwrite_long f buf num (c_int offset) = util_fpwrite f buf num offset"
  using assms by (simp_all add: util_fpread_long_def util_fpwrite_long_def c_int_small)

text \<open>
  A usable flat image: writable, open, with an error map of the length it records whose
  bytes follow the blocks in the file and end within its first 2 GB.
\<close>

definition image_file :: "disk_image \<Rightarrow> byte list" where
  "image_file img = the (fd (the (media img)))"

definition image_errors :: "disk_image \<Rightarrow> byte list option" where
  "image_errors img = error_map (the (media img))"

definition dxx_ok :: "disk_image \<Rightarrow> bool" where
  "dxx_ok img = (device img = DEVICE_FS \<and> read_only img = 0 \<and> flat_type (itype img) \<and>
     geometry_ok img \<and> media img \<noteq> None \<and> fd (the (media img)) \<noteq> None \<and>
     (case image_errors img of None \<Rightarrow> True
      | Some m \<Rightarrow> length m = error_len (the (media img)) \<and>
          error_len (the (media img)) * 257 \<le> length (image_file img) \<and>
          error_len (the (media img)) * 257 \<le> 2 ^ 31))"

text \<open>
  An address whose block lies in the file, within its first 2 GB, and, where there is one, in
  the error map.
\<close>

definition in_image :: "disk_image \<Rightarrow> nat \<times> nat \<Rightarrow> bool" where
  "in_image img a =
    (let k = fsimage_check_sector img (fst a) (snd a) in
     0 \<le> k \<and> Suc (nat k) * 256 \<le> length (image_file img) \<and> Suc (nat k) * 256 \<le> 2 ^ 31 \<and>
     (case image_errors img of None \<Rightarrow> True | Some m \<Rightarrow> nat k < length m))"

definition image_read :: "disk_image \<Rightarrow> nat \<times> nat \<Rightarrow> int \<times> buffer" where
  "image_read img a =
    disk_image_read_sector img (replicate 256 0) \<lparr>da_track = fst a, da_sector = snd a\<rparr>"

definition image_write :: "disk_image \<Rightarrow> nat \<times> nat \<Rightarrow> buffer \<Rightarrow> disk_image" where
  "image_write img a buf =
    snd (disk_image_write_sector img buf \<lparr>da_track = fst a, da_sector = snd a\<rparr>)"

lemma flat_known: "flat_type (itype img) \<Longrightarrow> known_type img"
  by (auto simp: flat_type_def known_type_def)

lemma check_sector_cong:
  "itype img = itype img' \<Longrightarrow> itracks img = itracks img' \<Longrightarrow> isectors img = isectors img' \<Longrightarrow>
    fsimage_check_sector img t s = fsimage_check_sector img' t s"
  unfolding fsimage_check_sector_def check_gcr_def by (simp only:)

text \<open>The block an address names, and what reading and writing it do.\<close>

definition block_index :: "disk_image \<Rightarrow> nat \<times> nat \<Rightarrow> nat" where
  "block_index img a = nat (fsimage_check_sector img (fst a) (snd a))"

lemma block_index_inj:
  assumes "dxx_ok img" "in_image img a" "in_image img b" "block_index img a = block_index img b"
  shows "a = b"
proof -
  have img: "known_type img" "geometry_ok img"
    using assms(1) by (auto simp: dxx_ok_def flat_known)
  have a: "0 \<le> fsimage_check_sector img (fst a) (snd a)" and b: "0 \<le> fsimage_check_sector img (fst b) (snd b)"
    using assms(2,3) by (auto simp: in_image_def Let_def)
  note acc = check_sector_accepts [OF img a] and acc' = check_sector_accepts [OF img b]
  have "block_of img (fst a) (snd a) = block_of img (fst b) (snd b)"
    using assms(4) a b check_sector_value [OF img a] check_sector_value [OF img b]
    by (simp add: block_index_def)
  from block_of_inj [OF acc(1) acc'(1) acc(3) acc'(3) this] show ?thesis
    by (simp add: prod_eq_iff)
qed

lemma image_read_eq:
  assumes "dxx_ok img" "in_image img a" and "length buf = 256"
  defines "k \<equiv> block_index img a"
  shows "disk_image_read_sector img buf \<lparr>da_track = fst a, da_sector = snd a\<rparr> =
    (case image_errors img of
       None \<Rightarrow> (CBMDOS_IPE_OK, slice (image_file img) (k * 256) 256)
     | Some m \<Rightarrow> (dxx_status (unat (m ! k)),
         if soft_error (unat (m ! k)) then slice (image_file img) (k * 256) 256 else buf))"
proof -
  have len: "k * 256 + 256 \<le> length (image_file img)" "k * 256 < 2 ^ 31"
    and pos: "0 \<le> fsimage_check_sector img (fst a) (snd a)"
    using assms(2) by (auto simp: in_image_def Let_def k_def block_index_def)
  have rd: "util_fpread_long (image_file img) buf 256 (c_int (k * 256)) =
      (0, slice (image_file img) (k * 256) 256)"
    unfolding util_fp_long_small(1) [OF len(2)] using len(1) assms(3) by (rule util_fpread_in)
  have "disk_image_read_sector img buf \<lparr>da_track = fst a, da_sector = snd a\<rparr> =
      fsimage_dxx_read_sector img buf \<lparr>da_track = fst a, da_sector = snd a\<rparr>"
    using assms(1) by (auto simp: dxx_ok_def disk_image_read_sector_def fsimage_read_sector_def)
  also have "\<dots> = (case image_errors img of
       None \<Rightarrow> (CBMDOS_IPE_OK, slice (image_file img) (k * 256) 256)
     | Some m \<Rightarrow> (dxx_status (unat (m ! k)),
         if soft_error (unat (m ! k)) then slice (image_file img) (k * 256) 256 else buf))"
    using assms(1) pos rd unfolding fsimage_dxx_read_sector_def
    by (simp add: dxx_ok_def disk_image_check_sector_def Let_def k_def block_index_def
        image_errors_def image_file_def dxx_status_def split: option.split)
  finally show ?thesis .
qed

lemma dxx_status_OK [simp]: "dxx_status (Suc 0) = CBMDOS_IPE_OK" "soft_error (Suc 0)"
  by (simp_all add: dxx_status_def soft_error_def)

lemma image_write_eq:
  assumes "dxx_ok img" "in_image img a" and "length buf = 256"
  defines "k \<equiv> block_index img a" and "fs \<equiv> the (media img)"
  shows "disk_image_write_sector img buf \<lparr>da_track = fst a, da_sector = snd a\<rparr> =
    (0, img\<lparr>media := Some (case image_errors img of
       None \<Rightarrow> fs\<lparr>fd := Some (write_at (image_file img) (k * 256) buf)\<rparr>
     | Some m \<Rightarrow>
         if unat (m ! k) \<noteq> CBMDOS_FDC_ERR_OK then
           fs\<lparr>fd := Some (write_at (write_at (image_file img) (k * 256) buf) (error_len fs * 256 + k) [1]),
              error_map := Some (m[k := 1])\<rparr>
         else fs\<lparr>fd := Some (write_at (image_file img) (k * 256) buf)\<rparr>)\<rparr>)"
proof -
  have len: "k * 256 + 256 \<le> length (image_file img)" "k * 256 < 2 ^ 31"
    and pos: "0 \<le> fsimage_check_sector img (fst a) (snd a)"
    and map: "\<And>m. image_errors img = Some m \<Longrightarrow> k < length m"
    using assms(2) by (auto simp: in_image_def Let_def k_def block_index_def)
  have wr: "util_fpwrite_long (image_file img) buf 256 (c_int (k * 256)) =
      (0, write_at (image_file img) (k * 256) buf)"
    unfolding util_fp_long_small(2) [OF len(2)] using len(1) assms(3) by (rule util_fpwrite_in)
  have err: "util_fpwrite_long (write_at (image_file img) (k * 256) buf) [1] 1 (c_int (error_len fs * 256 + k)) =
      (0, write_at (write_at (image_file img) (k * 256) buf) (error_len fs * 256 + k) [1])"
    if "image_errors img = Some m" for m
  proof -
    have small: "error_len fs * 256 + k < 2 ^ 31"
      using that assms(1) map [OF that] by (auto simp: dxx_ok_def fs_def)
    show ?thesis
      unfolding util_fp_long_small(2) [OF small]
      using that assms(1,3) len map [OF that] by (intro util_fpwrite_in) (auto simp: dxx_ok_def fs_def)
  qed
  have "disk_image_write_sector img buf \<lparr>da_track = fst a, da_sector = snd a\<rparr> =
      (case fsimage_dxx_write_sector img buf \<lparr>da_track = fst a, da_sector = snd a\<rparr> of
        (r, img') \<Rightarrow> if r < 0 then (-1, img') else (0, img'))"
    using assms(1) by (auto simp: dxx_ok_def disk_image_write_sector_def fsimage_write_sector_def Let_def)
  also have "fsimage_dxx_write_sector img buf \<lparr>da_track = fst a, da_sector = snd a\<rparr> =
    (0, img\<lparr>media := Some (case image_errors img of
       None \<Rightarrow> fs\<lparr>fd := Some (write_at (image_file img) (k * 256) buf)\<rparr>
     | Some m \<Rightarrow>
         if unat (m ! k) \<noteq> CBMDOS_FDC_ERR_OK then
           fs\<lparr>fd := Some (write_at (write_at (image_file img) (k * 256) buf) (error_len fs * 256 + k) [1]),
              error_map := Some (m[k := 1])\<rparr>
         else fs\<lparr>fd := Some (write_at (image_file img) (k * 256) buf)\<rparr>)\<rparr>)"
    using assms(1) pos wr err map unfolding fsimage_dxx_write_sector_def
    by (simp add: dxx_ok_def disk_image_check_sector_def Let_def k_def block_index_def fs_def
        image_errors_def image_file_def split: option.split)
  finally show ?thesis by simp
qed

lemma image_write_keeps [simp]:
  assumes "dxx_ok img" "in_image img a" "length buf = 256"
  shows "device (image_write img a buf) = device img"
    and "read_only (image_write img a buf) = read_only img"
    and "itype (image_write img a buf) = itype img"
    and "itracks (image_write img a buf) = itracks img"
    and "isectors (image_write img a buf) = isectors img"
    and "media (image_write img a buf) \<noteq> None"
    and "fd (the (media (image_write img a buf))) \<noteq> None"
    and "error_len (the (media (image_write img a buf))) = error_len (the (media img))"
  using assms by (simp_all add: image_write_def image_write_eq split: option.split)

lemma image_write_errors:
  assumes "dxx_ok img" "in_image img a" "length buf = 256"
  shows "image_errors (image_write img a buf) =
    map_option (\<lambda>m. m[block_index img a := 1]) (image_errors img)"
proof -
  have "m[block_index img a := 1] = m" if "unat (m ! block_index img a) = Suc 0" for m :: "byte list"
  proof -
    have "m ! block_index img a = 1" using that by (simp add: word_unat_eq_iff)
    then show ?thesis by (metis list_update_id)
  qed
  then show ?thesis
    using assms by (auto simp: image_write_def image_write_eq image_errors_def split: option.split)
qed

lemma image_write_file:
  assumes "dxx_ok img" "in_image img a" "length buf = 256"
  defines "k \<equiv> block_index img a"
  shows "length (image_file (image_write img a buf)) = length (image_file img) \<and>
    slice (image_file (image_write img a buf)) (k * 256) 256 = buf \<and>
    (in_image img b \<longrightarrow> block_index img b \<noteq> k \<longrightarrow>
      slice (image_file (image_write img a buf)) (block_index img b * 256) 256 =
      slice (image_file img) (block_index img b * 256) 256)"
proof -
  let ?f = "image_file img" and ?n = "error_len (the (media img))" and ?j = "block_index img b"
  let ?g = "write_at ?f (k * 256) buf"
  have len: "k * 256 + length buf \<le> length ?f" and map: "\<And>m. image_errors img = Some m \<Longrightarrow> k < length m"
    using assms(2,3) by (auto simp: in_image_def Let_def k_def block_index_def)
  have g: "length ?g = length ?f" "slice ?g (k * 256) 256 = buf"
    using len slice_write_at_same [OF len] assms(3) by simp_all
  have other: "slice ?g (?j * 256) 256 = slice ?f (?j * 256) 256 \<and> ?j * 256 + 256 \<le> length ?f"
    if "in_image img b" "?j \<noteq> k"
  proof -
    have j: "?j * 256 + 256 \<le> length ?f" using that by (auto simp: in_image_def Let_def block_index_def)
    have "?j * 256 + 256 \<le> k * 256 \<or> k * 256 + length buf \<le> ?j * 256" using that(2) assms(3) by auto
    from slice_write_at_other [OF len this j] j show ?thesis by blast
  qed
  show ?thesis
  proof (cases "\<exists>m. image_errors img = Some m \<and> unat (m ! k) \<noteq> CBMDOS_FDC_ERR_OK")
    case False
    then have "image_file (image_write img a buf) = ?g"
      using assms(1-3) by (auto simp: image_write_def image_write_eq k_def image_file_def split: option.split)
    with g other show ?thesis by auto
  next
    case True
    then obtain m where m: "image_errors img = Some m" "unat (m ! k) \<noteq> 1" by auto
    have bound: "?n * 256 + k + length [1::byte] \<le> length ?g" and n: "length m = ?n"
      using assms(1) m map g(1) by (auto simp: dxx_ok_def)
    have contents: "image_file (image_write img a buf) = write_at ?g (?n * 256 + k) [1]"
      using assms(1-3) m by (simp add: image_write_def image_write_eq k_def image_file_def)
    have same: "slice (write_at ?g (?n * 256 + k) [1]) (i * 256) 256 = slice ?g (i * 256) 256"
      if "i < length m" "i * 256 + 256 \<le> length ?f" for i
      using that bound g(1) n by (intro slice_write_at_other) auto
    have jm: "?j < length m" if "in_image img b"
      using that m by (auto simp: in_image_def Let_def block_index_def)
    show ?thesis
      using contents bound g same [of k] same [of ?j] other jm map m len assms(3) by auto
  qed
qed

lemma image_write_check [simp]:
  assumes "dxx_ok img" "in_image img a" "length buf = 256"
  shows "fsimage_check_sector (image_write img a buf) t s = fsimage_check_sector img t s"
    and "block_index (image_write img a buf) b = block_index img b"
  using assms check_sector_cong [of "image_write img a buf" img] by (simp_all add: block_index_def)

lemma image_write_dxx_ok:
  assumes "dxx_ok img" "in_image img a" "length buf = 256"
  shows "dxx_ok (image_write img a buf)"
  using assms image_write_file [OF assms]
  by (auto simp: dxx_ok_def image_write_errors geometry_ok_def split: option.splits)

lemma image_write_in_image:
  assumes "dxx_ok img" "in_image img a" "length buf = 256"
  shows "in_image (image_write img a buf) b = in_image img b"
  using assms image_write_file [OF assms]
  by (auto simp: in_image_def Let_def image_write_errors split: option.splits)

lemma image_read_value:
  assumes "dxx_ok img" "in_image img a"
  shows "image_read img a =
    (case image_errors img of
       None \<Rightarrow> (CBMDOS_IPE_OK, slice (image_file img) (block_index img a * 256) 256)
     | Some m \<Rightarrow> (dxx_status (unat (m ! block_index img a)),
         if soft_error (unat (m ! block_index img a))
         then slice (image_file img) (block_index img a * 256) 256 else replicate 256 0))"
  unfolding image_read_def using assms by (intro image_read_eq) simp_all

text \<open>An image file keeps the contract of a sector store.\<close>

interpretation dxx: sector_store dxx_ok in_image "\<lambda>b :: buffer. length b = 256" image_read image_write
proof unfold_locales
  fix d :: disk_image and a a' and b :: buffer
  assume d: "dxx_ok d" "in_image d a" "length b = 256"
  show "dxx_ok (image_write d a b)" using d by (rule image_write_dxx_ok)
  show "in_image (image_write d a b) a' = in_image d a'" using d by (rule image_write_in_image)
  have ok': "dxx_ok (image_write d a b)" using d by (rule image_write_dxx_ok)
  have k: "block_index d a < length m" if "image_errors d = Some m" for m
    using d(2) that by (auto simp: in_image_def Let_def block_index_def)
  show "image_read (image_write d a b) a = (0, b)"
    using d ok' k image_write_file [OF d] image_write_in_image [OF d]
    by (auto simp: image_read_value image_write_errors split: option.splits)
  assume a': "in_image d a'" "a' \<noteq> a"
  then have "block_index d a' \<noteq> block_index d a" using block_index_inj [OF d(1) a'(1) d(2)] by auto
  then show "image_read (image_write d a b) a' = image_read d a'"
    using d ok' a' image_write_file [OF d] image_write_in_image [OF d]
    by (auto simp: image_read_value image_write_errors split: option.splits)
qed

subsection \<open>Properties\<close>

text \<open>
  C5. Writing a sector of a usable flat image, within the first 2 GB of its file, succeeds and
  keeps the image usable. Reading
  the sector back gives exactly the bytes written with status OK, even where the error map
  recorded a read error for it before; reading any other sector gives the same status and
  the same bytes as before the write.
\<close>

theorem image_sector_roundtrip:
  assumes "dxx_ok img" "in_image img (t, s)" "in_image img (t', s')"
    and "length buf = 256" "length old = 256"
  shows "\<exists>img'. disk_image_write_sector img buf \<lparr>da_track = t, da_sector = s\<rparr> = (0, img') \<and>
    dxx_ok img' \<and>
    disk_image_read_sector img' old \<lparr>da_track = t, da_sector = s\<rparr> = (CBMDOS_IPE_OK, buf) \<and>
    ((t', s') \<noteq> (t, s) \<longrightarrow>
      disk_image_read_sector img' old \<lparr>da_track = t', da_sector = s'\<rparr> =
      disk_image_read_sector img old \<lparr>da_track = t', da_sector = s'\<rparr>)"
proof -
  let ?w = "image_write img (t, s) buf"
  have w: "disk_image_write_sector img buf \<lparr>da_track = t, da_sector = s\<rparr> = (0, ?w)"
    using image_write_eq [OF assms(1,2,4)] by (simp add: image_write_def)
  have ok: "dxx_ok ?w" and v: "in_image ?w (t, s)" "in_image ?w (t', s')"
    using assms by (simp_all add: dxx.store_simps)
  have k: "block_index img (t, s) < length m" if "image_errors img = Some m" for m
    using assms(2) that by (auto simp: in_image_def Let_def block_index_def)
  have "disk_image_read_sector ?w old \<lparr>da_track = t, da_sector = s\<rparr> = (CBMDOS_IPE_OK, buf)"
    using image_read_eq [OF ok v(1) assms(5)] image_write_file [OF assms(1,2,4)] assms(1,2,4) k
    by (auto simp: image_write_errors split: option.splits)
  moreover have "disk_image_read_sector ?w old \<lparr>da_track = t', da_sector = s'\<rparr> =
      disk_image_read_sector img old \<lparr>da_track = t', da_sector = s'\<rparr>" if "(t', s') \<noteq> (t, s)"
  proof -
    have "block_index img (t', s') \<noteq> block_index img (t, s)"
      using block_index_inj [OF assms(1,3,2)] that by auto
    then show ?thesis
      using image_read_eq [OF ok v(2) assms(5)] image_read_eq [OF assms(1,3,5)]
        image_write_file [OF assms(1,2,4), of "(t', s')"] assms
      by (auto simp: image_write_errors split: option.splits)
  qed
  ultimately show ?thesis using w ok by blast
qed

text \<open>A standard D64 file, with every sector zero, and one with an error map.\<close>

definition d64_file_image :: "byte list \<Rightarrow> byte list option \<Rightarrow> disk_image" where
  "d64_file_image f m =
    (d64_image 35)\<lparr>media := Some \<lparr>fd = Some f, fs_name = ''disk.d64'', error_map = m,
       error_dirty = False, error_len = (case m of None \<Rightarrow> 0 | Some e \<Rightarrow> length e)\<rparr>\<rparr>"

lemma d64_file_image_ok:
  "length f = 174848 \<Longrightarrow> dxx_ok (d64_file_image f None)"
  by (simp add: dxx_ok_def d64_file_image_def d64_image_def flat_type_def geometry_ok_def
      image_errors_def)

lemma d64_file_image_in:
  assumes "length f = 174848" "1 \<le> t" "t \<le> 35" "s < disk_image_sector_per_track D64 t"
  shows "in_image (d64_file_image f None) (t, s)"
proof -
  have "fsimage_check_sector (d64_file_image f None) t s = c_int (sectors_below D64 t 0 + s)"
    using assms by (simp add: fsimage_check_sector_def d64_file_image_def d64_image_def)
  moreover have "sectors_below D64 t 0 + s < 683"
    using assms by (auto simp: geom_simps split: if_splits)
  ultimately show ?thesis
    using assms(1) by (simp add: in_image_def image_file_def image_errors_def d64_file_image_def
        d64_image_def c_int_small Let_def del: of_nat_add)
qed

theorem image_sector_roundtrip_witness:
  "\<exists>img'. disk_image_write_sector (d64_file_image (replicate 174848 0) None) (replicate 256 7)
      \<lparr>da_track = 18, da_sector = 0\<rparr> = (0, img') \<and>
    dxx_ok img' \<and>
    disk_image_read_sector img' (replicate 256 9) \<lparr>da_track = 18, da_sector = 0\<rparr> =
      (CBMDOS_IPE_OK, replicate 256 7) \<and>
    disk_image_read_sector img' (replicate 256 9) \<lparr>da_track = 35, da_sector = 16\<rparr> =
      disk_image_read_sector (d64_file_image (replicate 174848 0) None) (replicate 256 9)
        \<lparr>da_track = 35, da_sector = 16\<rparr>"
  using image_sector_roundtrip [of "d64_file_image (replicate 174848 0) None" 18 0 35 16
      "replicate 256 7" "replicate 256 9"]
  by (simp add: d64_file_image_ok d64_file_image_in geom_simps)















end
