(* ===== verification/Gcr.thy ===== *)
theory Gcr
  imports Cbmdos
begin

text \<open>
  Group coded recording (\<^verbatim>\<open>lib/vdrive/gcr.c\<close>): the conversion of four bytes into five and
  back, the search for a sync mark in a raw track, reading and writing a sector at any bit
  position, and laying out a sector with its header. A track is a ring of bits, the highest
  bit of a byte first.

  The variable \<^verbatim>\<open>p\<close> of \<^verbatim>\<open>gcr_read_sector_header\<close> is static: it is an argument and a result of
  the definitions here. A track position is an \<^verbatim>\<open>int\<close> in C and can be negative; the byte
  behind a negative one is outside the track and unspecified in the model.
\<close>

unbundle bit_operations_syntax

subsection \<open>The code\<close>

definition GCR_conv_data :: "byte list" where
  "GCR_conv_data =
    [0x0a, 0x0b, 0x12, 0x13,
     0x0e, 0x0f, 0x16, 0x17,
     0x09, 0x19, 0x1a, 0x1b,
     0x0d, 0x1d, 0x1e, 0x15]"

definition From_GCR_conv_data :: "byte list" where
  "From_GCR_conv_data =
    [0, 0, 0, 0, 0, 0, 0, 0,
     0, 8, 0, 1, 0, 12, 4, 5,
     0, 0, 2, 3, 0, 15, 6, 7,
     0, 9, 10, 11, 0, 13, 14, 0]"

text \<open>
  The loops run over \<open>i = 2, 4, 6, 8\<close> and \<open>i = 5, 7, 9, 11\<close>; the source and the destination
  pointer advance by one byte in each round.
\<close>

definition encode_step :: "32 word \<Rightarrow> byte \<Rightarrow> 32 word" where
  "encode_step tdest x =
    (let tdest = push_bit 5 tdest OR ucast (GCR_conv_data ! unat (drop_bit 4 x)) in
     push_bit 5 tdest OR ucast (GCR_conv_data ! unat (x AND 0x0f)))"

fun encode_loop :: "nat list \<Rightarrow> byte list \<Rightarrow> 32 word \<Rightarrow> byte list" where
  "encode_loop (i # is') (x # source) tdest =
    (let tdest = encode_step tdest x in ucast (drop_bit i tdest) # encode_loop is' source tdest)"
| "encode_loop _ _ tdest = [ucast tdest]"

definition gcr_convert_4bytes_to_GCR :: "byte list \<Rightarrow> byte list" where
  "gcr_convert_4bytes_to_GCR source = encode_loop [2, 4, 6, 8] source 0"

fun decode_loop :: "nat list \<Rightarrow> byte list \<Rightarrow> 32 word \<Rightarrow> byte list" where
  "decode_loop (i # is') (x # source) tdest =
    (let tdest = tdest OR push_bit i (ucast x);
         d = push_bit 4 (From_GCR_conv_data ! unat (drop_bit 16 tdest AND 0x1f));
         tdest = push_bit 5 tdest;
         d = d OR From_GCR_conv_data ! unat (drop_bit 16 tdest AND 0x1f);
         tdest = push_bit 5 tdest in
     d # decode_loop is' source tdest)"
| "decode_loop _ _ tdest = []"

definition gcr_convert_GCR_to_4bytes :: "byte list \<Rightarrow> byte list" where
  "gcr_convert_GCR_to_4bytes source =
    decode_loop [5, 7, 9, 11] (tl source) (push_bit 13 (ucast (hd source)))"

subsection \<open>A sector in GCR\<close>

record gcr_header =
  gh_sector :: byte
  gh_track :: byte
  gh_id2 :: byte
  gh_id1 :: byte

text \<open>
  Laying out a sector returns the bytes written, with the old bytes of the gap between header
  and data, which the function skips, as an argument: \<open>gap\<close> of them. \<open>buffer\<close> has 256 bytes.
\<close>

fun encode_blocks :: "byte list \<Rightarrow> byte list" where
  "encode_blocks (a # b # c # d # rest) = gcr_convert_4bytes_to_GCR [a, b, c, d] @ encode_blocks rest"
| "encode_blocks _ = []"

definition xor_bytes :: "byte list \<Rightarrow> byte \<Rightarrow> byte" where
  "xor_bytes bs c = foldl (\<lambda>c b. c XOR b) c bs"

definition gcr_convert_sector_to_GCR ::
  "byte list \<Rightarrow> gcr_header \<Rightarrow> byte list \<Rightarrow> nat \<Rightarrow> nat \<Rightarrow> byte list" where
  "gcr_convert_sector_to_GCR buffer header gap_bytes sync error_code =
    (let idm = (if error_code = CBMDOS_FDC_ERR_ID then 0xff else 0 :: byte);
         mark = (if error_code = CBMDOS_FDC_ERR_SYNC then 0x55 else 0xff :: byte);
         chksum = (if error_code = CBMDOS_FDC_ERR_HCHECK then 0xff else 0)
           XOR (gh_sector header XOR gh_track header XOR gh_id2 header XOR gh_id1 header XOR idm);
         head = gcr_convert_4bytes_to_GCR
             [if error_code = CBMDOS_FDC_ERR_HEADER then 0xff else 0x08, chksum, gh_sector header, gh_track header]
           @ gcr_convert_4bytes_to_GCR [gh_id2 header, gh_id1 header XOR idm, 0x0f, 0x0f];
         chksum = xor_bytes (take 255 buffer) (if error_code = CBMDOS_FDC_ERR_DCHECK then 0xff else 0) in
     replicate 5 mark @ head @ gap_bytes @ replicate sync mark
       @ encode_blocks ((if error_code = CBMDOS_FDC_ERR_NOBLOCK then 0x00 else 0x07) # take 255 buffer)
       @ gcr_convert_4bytes_to_GCR [buffer ! 255, chksum XOR buffer ! 255, 0, 0])"

subsection \<open>A raw track\<close>

record disk_track =
  track_data :: "byte list option"
  track_size :: nat

definition track_byte :: "disk_track \<Rightarrow> int \<Rightarrow> byte" where
  "track_byte raw i = the (track_data raw) ! (if i < 0 then length (the (track_data raw)) + nat (- i) else nat i)"

text \<open>The search for a sync: at least ten one bits, up to the first zero bit after them.\<close>

fun find_sync_loop :: "disk_track \<Rightarrow> 32 word \<Rightarrow> 32 word \<Rightarrow> int \<Rightarrow> nat \<Rightarrow> int" where
  "find_sync_loop raw w b p 0 = - int CBMDOS_FDC_ERR_SYNC"
| "find_sync_loop raw w b p (Suc s) =
    (if b AND 0x80 = 0 \<and> NOT w AND 0x3ff = 0 then p
     else
       let w = (if b AND 0x80 \<noteq> 0 then push_bit 1 w OR 1 else push_bit 1 w) in
       if NOT p AND 7 \<noteq> 0 then find_sync_loop raw w (push_bit 1 b) (p + 1) s
       else
         let p = (if p + 1 \<ge> int (track_size raw) * 8 then 0 else p + 1) in
         find_sync_loop raw w (ucast (track_byte raw (drop_bit 3 p))) p s)"

definition gcr_find_sync :: "disk_track \<Rightarrow> int \<Rightarrow> nat \<Rightarrow> int" where
  "gcr_find_sync raw p s =
    (if track_data raw = None \<or> track_size raw = 0 then - int CBMDOS_FDC_ERR_SYNC
     else find_sync_loop raw 0 (push_bit (nat (p AND 7)) (ucast (track_byte raw (drop_bit 3 p)))) p s)"

text \<open>
  The five bytes of a group from \<open>offset\<close> on, not aligned by \<open>shift\<close> bits, of which \<open>b\<close> holds
  the first; and decoding \<open>num\<close> groups.
\<close>

definition next_offset :: "disk_track \<Rightarrow> nat \<Rightarrow> nat" where
  "next_offset raw offset = (if Suc offset \<ge> track_size raw then 0 else Suc offset)"

fun gcr_group :: "disk_track \<Rightarrow> nat \<Rightarrow> nat \<Rightarrow> byte \<Rightarrow> nat \<Rightarrow> byte list \<times> nat \<times> byte" where
  "gcr_group raw shift offset b 0 = ([], offset, b)"
| "gcr_group raw shift offset b (Suc n) =
    (let offset = next_offset raw offset; x = the (track_data raw) ! offset;
         g = (if shift \<noteq> 0 then b OR ucast (drop_bit 8 (push_bit shift (ucast x :: 32 word))) else b);
         b = (if shift \<noteq> 0 then push_bit shift x else x);
         (gs, offset, b) = gcr_group raw shift offset b n in
     (g # gs, offset, b))"

fun decode_groups :: "disk_track \<Rightarrow> nat \<Rightarrow> nat \<Rightarrow> byte \<Rightarrow> nat \<Rightarrow> byte list" where
  "decode_groups raw shift offset b 0 = []"
| "decode_groups raw shift offset b (Suc num) =
    (case gcr_group raw shift offset b 5 of
       (gcr, offset, b) \<Rightarrow> gcr_convert_GCR_to_4bytes gcr @ decode_groups raw shift offset b num)"

definition gcr_decode_block :: "disk_track \<Rightarrow> int \<Rightarrow> nat \<Rightarrow> byte list" where
  "gcr_decode_block raw p num =
    (let shift = nat (p AND 7) in
     decode_groups raw shift (nat (drop_bit 3 p)) (push_bit shift (track_byte raw (drop_bit 3 p))) num)"

subsection \<open>Finding a header\<close>

text \<open>
  The endless loop of \<^verbatim>\<open>gcr_read_sector_header\<close>. The result is the position or the negated
  error, the static \<open>p\<close>, the eight header bytes and the id last seen.
\<close>

partial_function (option) header_loop ::
  "disk_track \<Rightarrow> int \<Rightarrow> int \<Rightarrow> byte list \<Rightarrow> int \<Rightarrow> nat \<Rightarrow> (int \<times> int \<times> byte list \<times> nat) option" where [code]:
  "header_loop raw p p2 header sector pid =
    (let p = gcr_find_sync raw p (track_size raw * 8) in
     if p2 = p then Some (if p2 < 0 then p2 else - int CBMDOS_FDC_ERR_HEADER, p, header, pid)
     else
       let p2 = (if p2 < 0 then p else p2); header = gcr_decode_block raw p 2 in
       if header ! 0 = 0x08 then
         let cs = header ! 1 XOR header ! 2 XOR header ! 3 XOR header ! 4 XOR header ! 5;
             pid = unat (header ! 4) * 256 + unat (header ! 5) in
         if cs \<noteq> 0 then Some (- int CBMDOS_FDC_ERR_HCHECK, p, header, pid)
         else if sector < 0 \<or> uint (header ! 2) = sector then Some (p, p, header, pid)
         else header_loop raw p p2 header sector pid
       else header_loop raw p p2 header sector pid)"

definition gcr_read_sector_header ::
  "disk_track \<Rightarrow> int \<Rightarrow> byte list \<Rightarrow> int \<Rightarrow> nat \<Rightarrow> (int \<times> int \<times> byte list \<times> nat) option" where
  "gcr_read_sector_header raw static_p header sector pid =
    header_loop raw static_p (- int CBMDOS_FDC_ERR_SYNC) header sector pid"

definition gcr_find_sector_header ::
  "disk_track \<Rightarrow> int \<Rightarrow> byte list \<Rightarrow> byte \<Rightarrow> nat \<Rightarrow> (int \<times> int \<times> nat) option" where
  "gcr_find_sector_header raw static_p header sector pid =
    map_option (\<lambda>(r, p, h, i). (r, p, i)) (gcr_read_sector_header raw static_p header (uint sector) pid)"

definition gcr_read_sector_id ::
  "disk_track \<Rightarrow> int \<Rightarrow> byte list \<Rightarrow> nat \<Rightarrow> byte \<Rightarrow> (nat \<times> int \<times> nat) option" where
  "gcr_read_sector_id raw static_p header pid sector =
    map_option (\<lambda>(r, p, i). (if r < 0 then nat (- r) else CBMDOS_FDC_ERR_OK, p, i))
      (gcr_find_sector_header raw static_p header sector pid)"

definition gcr_read_track_number ::
  "disk_track \<Rightarrow> int \<Rightarrow> byte list \<Rightarrow> byte \<Rightarrow> (nat \<times> int \<times> byte) option" where
  "gcr_read_track_number raw static_p header track =
    map_option (\<lambda>(r, p, h, i). if r < 0 then (nat (- r), p, track) else (CBMDOS_FDC_ERR_OK, p, h ! 3))
      (gcr_read_sector_header raw static_p header (-1) 0)"

subsection \<open>Reading and writing a sector\<close>

text \<open>
  What both functions do first: find the header, compare the id, find the sync of the data
  block, and on success go on with \<open>k\<close> at its position. \<open>h0\<close> and \<open>sid0\<close> are the uninitialised
  header buffer and id.
\<close>

definition with_data_block ::
  "disk_track \<Rightarrow> int \<Rightarrow> byte list \<Rightarrow> nat \<Rightarrow> byte \<Rightarrow> int \<Rightarrow> (nat \<Rightarrow> 'a) \<Rightarrow> (int \<Rightarrow> 'a) \<Rightarrow> ('a \<times> int) option" where
  "with_data_block raw static_p h0 sid0 sector want fail k =
    (case gcr_find_sector_header raw static_p h0 sector sid0 of
       None \<Rightarrow> None
     | Some (r, p, sid) \<Rightarrow>
         if r < 0 then Some (fail (nat (- r)), p)
         else if want \<ge> 0 \<and> want \<noteq> int sid then Some (fail CBMDOS_FDC_ERR_ID, p)
         else
           let q = gcr_find_sync raw r (500 * 8) in
           if q < 0 then Some (fail (nat (- q)), p) else Some (k q, p))"

definition read_data_block :: "disk_track \<Rightarrow> int \<Rightarrow> nat \<times> byte list" where
  "read_data_block raw q =
    (let buffer = gcr_decode_block raw q 65;
         data = slice buffer 1 256;
         b = xor_bytes data (buffer ! 257) in
     (if buffer ! 0 \<noteq> 0x07 then CBMDOS_FDC_ERR_NOBLOCK
      else if b \<noteq> 0 then CBMDOS_FDC_ERR_DCHECK else CBMDOS_FDC_ERR_OK, data))"

definition gcr_read_sector ::
  "disk_track \<Rightarrow> int \<Rightarrow> byte list \<Rightarrow> nat \<Rightarrow> byte list \<Rightarrow> byte \<Rightarrow> int \<Rightarrow> ((nat \<times> byte list) \<times> int) option" where
  "gcr_read_sector raw static_p h0 sid0 data sector want =
    with_data_block raw static_p h0 sid0 sector want (\<lambda>e. (e, data)) (read_data_block raw)"

text \<open>The inner loop of the writer over the GCR bytes; \<open>b\<close> carries the bits left over.\<close>

fun put_gcr :: "byte list \<Rightarrow> disk_track \<Rightarrow> nat \<Rightarrow> nat \<Rightarrow> byte \<Rightarrow> disk_track \<times> nat \<times> byte" where
  "put_gcr [] raw shift offset b = (raw, offset, b)"
| "put_gcr (g # gs) raw shift offset b =
    (let x = (if shift \<noteq> 0 then b OR drop_bit shift g else g);
         b = (if shift \<noteq> 0 then ucast (drop_bit shift (push_bit 8 (ucast g :: 32 word))) else b);
         raw = raw\<lparr>track_data := Some ((the (track_data raw))[offset := x])\<rparr> in
     put_gcr gs raw shift (next_offset raw offset) b)"

definition sector_buffer :: "byte list \<Rightarrow> byte list" where
  "sector_buffer data = 0x07 # data @ [xor_bytes (tl data) (hd data), 0, 0]"

definition write_data_block :: "disk_track \<Rightarrow> byte list \<Rightarrow> int \<Rightarrow> nat \<times> disk_track" where
  "write_data_block raw data q =
    (let shift = nat (q AND 7); offset = nat (drop_bit 3 q);
         b = the (track_data raw) ! offset AND ucast (drop_bit shift (0xff00 :: 32 word)) in
     case put_gcr (encode_blocks (sector_buffer data)) raw shift offset b of
       (raw, offset, b) \<Rightarrow>
         (CBMDOS_FDC_ERR_OK,
          raw\<lparr>track_data := Some ((the (track_data raw))
            [offset := b OR (the (track_data raw) ! offset AND drop_bit shift 0xff)])\<rparr>))"

definition gcr_write_sector ::
  "disk_track \<Rightarrow> int \<Rightarrow> byte list \<Rightarrow> nat \<Rightarrow> byte list \<Rightarrow> byte \<Rightarrow> int \<Rightarrow> ((nat \<times> disk_track) \<times> int) option" where
  "gcr_write_sector raw static_p h0 sid0 data sector want =
    with_data_block raw static_p h0 sid0 sector want (\<lambda>e. (e, raw)) (write_data_block raw data)"

end
