(* ===== verification/FsGcr.thy ===== *)
theory FsGcr
  imports FsImage Gcr
begin

text \<open>
  Image files of raw tracks (\<^verbatim>\<open>lib/vdrive/fsimage-gcr.c\<close>): a G64 or G71 file has a header with a
  table of the places of its half tracks, a table of their speeds, and the tracks, each after its
  length and padded to the maximal one. A sector is read and written in the decoded track.

  Two variables of the code are static and belong to the arguments and results here: the position
  in \<^verbatim>\<open>gcr.c\<close> at which the search for a header starts, and the half track
  \<^verbatim>\<open>fsimage_gcr_read_half_track\<close> has checked last. A \<^verbatim>\<open>long\<close> has 32 bits, as on the processor the
  program runs on. The members \<^verbatim>\<open>gcr\<close> of the image is null (theory \<^verbatim>\<open>DiskImage\<close>).
\<close>

subsection \<open>Numbers in files\<close>

definition util_le_buf_to_word :: "buffer \<Rightarrow> nat" where
  "util_le_buf_to_word buf = unat (buf ! 0) + 256 * unat (buf ! 1)"

definition util_le_buf_to_dword :: "buffer \<Rightarrow> nat" where
  "util_le_buf_to_dword buf =
    unat (buf ! 0) + 256 * unat (buf ! 1) + 65536 * unat (buf ! 2) + 16777216 * unat (buf ! 3)"

definition util_word_to_le_buf :: "nat \<Rightarrow> buffer" where
  "util_word_to_le_buf data = [of_nat data, of_nat (data div 256)]"

definition util_dword_to_le_buf :: "nat \<Rightarrow> buffer" where
  "util_dword_to_le_buf data =
    [of_nat data, of_nat (data div 256), of_nat (data div 65536), of_nat (data div 16777216)]"

lemma le_word_roundtrip: "n < 65536 \<Longrightarrow> util_le_buf_to_word (util_word_to_le_buf n) = n"
  by (simp add: util_le_buf_to_word_def util_word_to_le_buf_def unat_of_nat)

lemma le_dword_roundtrip:
  assumes "n < 2 ^ 32"
  shows "util_le_buf_to_dword (util_dword_to_le_buf n) = n"
proof -
  have "n div 16777216 < 256" using assms by (simp add: less_mult_imp_div_less)
  then have "util_le_buf_to_dword (util_dword_to_le_buf n) =
      n mod 256 + 256 * (n div 256 mod 256) + 65536 * (n div 65536 mod 256) + 16777216 * (n div 16777216)"
    by (simp add: util_le_buf_to_dword_def util_dword_to_le_buf_def unat_of_nat)
  moreover have "n div 65536 = n div 256 div 256" "n div 16777216 = n div 65536 div 256"
    by (simp_all add: div_mult2_eq [symmetric])
  ultimately show ?thesis
    using div_mult_mod_eq [of "n div 65536" 256] div_mult_mod_eq [of "n div 256" 256] div_mult_mod_eq [of n 256]
    by linarith
qed

lemma le_bounds: "util_le_buf_to_word buf < 65536" "util_le_buf_to_dword buf < 2 ^ 32"
proof -
  have "unat (b :: byte) < 256" for b using unsigned_less [of b] by simp
  from this [of "buf ! 0"] this [of "buf ! 1"] this [of "buf ! 2"] this [of "buf ! 3"]
  show "util_le_buf_to_word buf < 65536" "util_le_buf_to_dword buf < 2 ^ 32"
    by (simp_all add: util_le_buf_to_word_def util_le_buf_to_dword_def)
qed

subsection \<open>Half tracks\<close>

abbreviation (input) "MAX_GCR_TRACKS \<equiv> 168 :: nat"

definition gcr_image_header_expected_1541 :: buffer where
  "gcr_image_header_expected_1541 = [0x47, 0x43, 0x52, 0x2D, 0x31, 0x35, 0x34, 0x31, 0x00]"

definition gcr_image_header_expected_1571 :: buffer where
  "gcr_image_header_expected_1571 = [0x47, 0x43, 0x52, 0x2D, 0x31, 0x35, 0x37, 0x31, 0x00]"

text \<open>The place in the file of the table entry of a half track; the arithmetic is unsigned.\<close>

definition track_entry :: "nat \<Rightarrow> nat" where
  "track_entry half_track = c_unsigned (12 + (int half_track - 2) * 4)"

text \<open>The result is the entry, the maximal length of a track and the number of half tracks.\<close>

definition fsimage_gcr_seek_half_track :: "fsimage \<Rightarrow> nat \<Rightarrow> int \<times> nat \<times> nat" where
  "fsimage_gcr_seek_half_track fsimage half_track =
    (case fd fsimage of
       None \<Rightarrow> (-1, 0, 0)
     | Some f \<Rightarrow>
         (case util_fpread f (replicate 12 0) 12 0 of
            (r, buf) \<Rightarrow>
              if r < 0 then (-1, 0, 0)
              else if take 9 buf \<noteq> gcr_image_header_expected_1541 \<and> take 9 buf \<noteq> gcr_image_header_expected_1571 then (-1, 0, 0)
              else
                let num_half_tracks = unat (buf ! 9); max_track_length = util_le_buf_to_word (drop 10 buf) in
                if num_half_tracks > MAX_GCR_TRACKS then (-1, max_track_length, num_half_tracks)
                else case util_fpread f buf 4 (track_entry half_track) of
                  (r, buf) \<Rightarrow>
                    (if r < 0 then -1 else c_int (util_le_buf_to_dword buf), max_track_length, num_half_tracks)))"

record gcr_static =
  header_pos :: int
  current_half_track :: int

text \<open>The bytes of a half track at \<open>offset\<close>, or an empty track where the file has none; \<open>None\<close> on an error.\<close>

definition load_half_track :: "disk_image \<Rightarrow> nat \<Rightarrow> nat \<Rightarrow> nat \<Rightarrow> disk_track option" where
  "load_half_track img half_track offset max_track_length =
    (let f = the (fd (the (media img))) in
     if offset \<noteq> 0 then
       (case util_fpread f (replicate 4 0) 2 offset of
          (r, buf) \<Rightarrow>
            let track_len = util_le_buf_to_word buf in
            if r < 0 \<or> track_len < 1 \<or> track_len > max_track_length then None
            else if length (slice f (offset + 2) track_len) < track_len then None
            else Some \<lparr>track_data = Some (slice f (offset + 2) track_len), track_size = track_len\<rparr>)
     else
       let size = disk_image_raw_track_size (itype img) (half_track div 2) in
       Some \<lparr>track_data = Some (replicate size 0x55), track_size = size\<rparr>)"

text \<open>
  The loop reads a half track and compares the track number in its first header; on a mismatch
  it goes on to where it expects the track. \<open>h0\<close> is the uninitialised header.
\<close>

definition next_half_track :: "nat \<Rightarrow> nat \<Rightarrow> byte \<Rightarrow> nat" where
  "next_half_track rf half_track track =
    (if rf = CBMDOS_FDC_ERR_OK then c_unsigned (int half_track + (int half_track - 2 * uint track)) else half_track)"

abbreviation (input) "no_track \<equiv> \<lparr>track_data = None, track_size = 0\<rparr>"

partial_function (option) half_track_loop ::
  "byte list \<Rightarrow> disk_image \<Rightarrow> nat \<Rightarrow> gcr_static \<Rightarrow> nat \<Rightarrow> (int \<times> disk_track \<times> gcr_static) option" where [code]:
  "half_track_loop h0 img orig st half_track =
    (case fsimage_gcr_seek_half_track (the (media img)) half_track of
       (offset, max_track_length, num_half_tracks) \<Rightarrow>
         if offset < 0 then Some (-1, no_track, st)
         else case load_half_track img half_track (nat offset) max_track_length of
           None \<Rightarrow> Some (-1, no_track, st)
         | Some raw \<Rightarrow>
             if half_track = c_unsigned (current_half_track st) then Some (0, raw, st)
             else case gcr_read_track_number raw (header_pos st) h0 0 of
               None \<Rightarrow> None
             | Some (rf, p, track) \<Rightarrow>
                 let after = next_half_track rf half_track track in
                 if after \<noteq> half_track \<and> after \<noteq> orig then
                   half_track_loop h0 img orig (st\<lparr>header_pos := p\<rparr>) after
                 else Some (0, raw, st\<lparr>header_pos := p, current_half_track := int half_track\<rparr>))"

definition fsimage_gcr_read_half_track ::
  "byte list \<Rightarrow> disk_image \<Rightarrow> gcr_static \<Rightarrow> nat \<Rightarrow> (int \<times> disk_track \<times> gcr_static) option" where
  "fsimage_gcr_read_half_track h0 img st half_track = half_track_loop h0 img half_track st half_track"

definition fsimage_gcr_read_track ::
  "byte list \<Rightarrow> disk_image \<Rightarrow> gcr_static \<Rightarrow> nat \<Rightarrow> (int \<times> disk_track \<times> gcr_static) option" where
  "fsimage_gcr_read_track h0 img st track = fsimage_gcr_read_half_track h0 img st (c_uint (track * 2))"

text \<open>
  Writing a half track at its place, or behind the end of the file, where it gets an entry in
  both tables. \<open>store_half_track\<close> has the file operations; writing zero bytes of data counts as
  an error and ends them.
\<close>

definition store_half_track :: "byte list \<Rightarrow> disk_image_type \<Rightarrow> nat \<Rightarrow> nat \<Rightarrow> nat \<Rightarrow> nat \<Rightarrow> byte list \<Rightarrow> byte list" where
  "store_half_track f ty half_track place max_track_length num_half_tracks data =
    (let extend = (place = 0); offset = (if extend then length f else place); size = length data;
         f = snd (util_fpwrite f (util_word_to_le_buf (size mod 65536)) 2 offset) in
     if size = 0 then f
     else let
         f = snd (util_fpwrite f data size (offset + 2));
         gap = max_track_length - size;
         f = (if gap > 0 then snd (util_fpwrite f (replicate gap 0) gap (offset + 2 + size)) else f) in
     if extend then
       let f = snd (util_fpwrite f (util_dword_to_le_buf offset) 4 (track_entry half_track)) in
       snd (util_fpwrite f (util_dword_to_le_buf (disk_image_speed_map ty (half_track div 2))) 4
         (c_unsigned (12 + (int half_track - 2 + int num_half_tracks) * 4)))
     else f)"

definition fsimage_gcr_write_half_track :: "disk_image \<Rightarrow> nat \<Rightarrow> disk_track \<Rightarrow> int \<times> disk_image" where
  "fsimage_gcr_write_half_track img half_track raw =
    (let fsimage = the (media img) in
     case fsimage_gcr_seek_half_track fsimage half_track of
       (offset, max_track_length, num_half_tracks) \<Rightarrow>
         if offset < 0 then (-1, img)
         else if read_only img \<noteq> 0 then (-1, img)
         else if track_size raw > max_track_length then (-1, img)
         else case track_data raw of
           None \<Rightarrow> (0, img)
         | Some data \<Rightarrow>
             (if track_size raw = 0 then -1 else 0,
              img\<lparr>media := Some (fsimage\<lparr>fd := Some (store_half_track (the (fd fsimage)) (itype img) half_track
               (nat offset) max_track_length num_half_tracks (take (track_size raw) data))\<rparr>)\<rparr>))"

definition fsimage_gcr_write_track :: "disk_image \<Rightarrow> nat \<Rightarrow> disk_track \<Rightarrow> int \<times> disk_image" where
  "fsimage_gcr_write_track img track raw = fsimage_gcr_write_half_track img (c_uint (track * 2)) raw"

subsection \<open>Sectors\<close>

text \<open>\<open>sid0\<close> is the uninitialised id of \<^verbatim>\<open>gcr_read_sector\<close>.\<close>

definition fsimage_gcr_read_sector ::
  "byte list \<Rightarrow> nat \<Rightarrow> disk_image \<Rightarrow> gcr_static \<Rightarrow> buffer \<Rightarrow> disk_addr \<Rightarrow> (int \<times> buffer \<times> gcr_static) option" where
  "fsimage_gcr_read_sector h0 sid0 img st buf dadr =
    (if da_track dadr > itracks img then Some (-1, buf, st)
     else case fsimage_gcr_read_track h0 img st (da_track dadr) of
       None \<Rightarrow> None
     | Some (r, raw, st) \<Rightarrow>
         if r < 0 then Some (-1, buf, st)
         else if track_data raw = None then Some (CBMDOS_IPE_NOT_READY, buf, st)
         else case gcr_read_sector raw (header_pos st) h0 sid0 buf (of_nat (da_sector dadr)) (c_int (image_id img)) of
           None \<Rightarrow> None
         | Some ((rf, buf), p) \<Rightarrow>
             Some (if rf \<noteq> CBMDOS_FDC_ERR_OK then cbmdos_fdc_error_to_cbmdos_error rf else CBMDOS_IPE_OK,
               buf, st\<lparr>header_pos := p\<rparr>))"

definition fsimage_gcr_write_sector ::
  "byte list \<Rightarrow> nat \<Rightarrow> disk_image \<Rightarrow> gcr_static \<Rightarrow> buffer \<Rightarrow> disk_addr \<Rightarrow> (int \<times> disk_image \<times> gcr_static) option" where
  "fsimage_gcr_write_sector h0 sid0 img st buf dadr =
    (if da_track dadr > itracks img then Some (-1, img, st)
     else case fsimage_gcr_read_track h0 img st (da_track dadr) of
       None \<Rightarrow> None
     | Some (r, raw, st) \<Rightarrow>
         if r < 0 \<or> track_data raw = None then Some (-1, img, st)
         else case gcr_write_sector raw (header_pos st) h0 sid0 buf (of_nat (da_sector dadr)) (c_int (image_id img)) of
           None \<Rightarrow> None
         | Some ((rf, raw), p) \<Rightarrow>
             if rf \<noteq> CBMDOS_FDC_ERR_OK then Some (-1, img, st\<lparr>header_pos := p\<rparr>)
             else case fsimage_gcr_write_track img (da_track dadr) raw of
               (r, img) \<Rightarrow> Some (if r < 0 then -1 else 0, img, st\<lparr>header_pos := p\<rparr>))"

definition fsimage_gcr_read_disk_id ::
  "byte list \<Rightarrow> disk_image \<Rightarrow> gcr_static \<Rightarrow> nat \<Rightarrow> byte \<Rightarrow> nat \<Rightarrow> (int \<times> nat \<times> gcr_static) option" where
  "fsimage_gcr_read_disk_id h0 img st track sector id0 =
    (case fsimage_gcr_read_track h0 img st track of
       None \<Rightarrow> None
     | Some (r, raw, st) \<Rightarrow>
         if r < 0 \<or> track_data raw = None then Some (CBMDOS_IPE_NOT_READY, id0, st)
         else case gcr_read_sector_id raw (header_pos st) h0 id0 sector of
           None \<Rightarrow> None
         | Some (rf, p, pid) \<Rightarrow> Some (cbmdos_fdc_error_to_cbmdos_error rf, pid, st\<lparr>header_pos := p\<rparr>))"

end
