(* ===== verification/GcrBits.thy ===== *)
theory GcrBits
  imports Gcr
begin

text \<open>
  Group coded recording bit by bit. The conversion functions of \<open>Gcr\<close> are shown to map a
  sequence of nibbles to the concatenation of their five-bit codes and back, and the track
  functions to read, search and replace a stretch of the ring of bits.
\<close>

subsection \<open>Bits of bytes and codes\<close>

definition byte_bits :: "byte \<Rightarrow> bool list" where
  "byte_bits x = map (\<lambda>k. bit x (7 - k)) [0..<8]"

definition code_bits :: "nat \<Rightarrow> bool list" where
  "code_bits n = map (\<lambda>k. bit (GCR_conv_data ! n) (4 - k)) [0..<5]"

definition nibbles :: "byte \<Rightarrow> nat list" where
  "nibbles x = [unat (drop_bit 4 x), unat (x AND 0x0f)]"

lemma byte_bits_unfold:
  "byte_bits x = [bit x 7, bit x 6, bit x 5, bit x 4, bit x 3, bit x 2, bit x 1, bit x 0]"
  by (simp add: byte_bits_def upt_rec eval_nat_numeral)

lemma code_bits_unfold:
  "code_bits n = map (bit (GCR_conv_data ! n)) [4, 3, 2, 1, 0]"
  by (simp add: code_bits_def upt_rec eval_nat_numeral)

lemma length_byte_bits [simp]: "length (byte_bits x) = 8"
  by (simp add: byte_bits_def)

lemma length_code_bits [simp]: "length (code_bits n) = 5"
  by (simp add: code_bits_def)

lemma nibble_bounds [simp]: "unat (drop_bit 4 (x :: byte)) < 16" "unat (x AND 0x0f :: byte) < 16"
proof -
  have "unat x < 256" using unsigned_less [of x] by simp
  then show "unat (drop_bit 4 x) < 16" unfolding unat_drop_bit_eq by (simp add: drop_bit_eq_div)
  have "x AND 0x0f = take_bit 4 x" by (simp add: take_bit_eq_mask mask_numeral)
  then have "unat (x AND 0x0f) = take_bit 4 (unat x)" by (simp only: unsigned_take_bit_eq)
  then show "unat (x AND 0x0f) < 16" using take_bit_nat_less_exp [of 4 "unat x"] by simp
qed

lemma nibbles_byte: "push_bit 4 (drop_bit 4 x) OR x AND 0x0f = (x :: byte)"
proof -
  have "x AND 0x0f = take_bit 4 x" by (simp add: take_bit_eq_mask mask_numeral)
  moreover have "push_bit 4 (drop_bit 4 x) OR take_bit 4 x = x"
    by (rule bit_word_eqI) (auto simp: bit_simps)
  ultimately show ?thesis by simp
qed

text \<open>The table holds codes of five bits.\<close>

lemma less_16:
  "n < (16 :: nat) \<Longrightarrow> n \<in> {0, 1, 2, 3, 4, 5, 6, 7, 8, 9, 10, 11, 12, 13, 14, 15}"
  by (simp, arith)

lemma conv_small: "n < 16 \<Longrightarrow> 5 \<le> k \<Longrightarrow> \<not> bit (GCR_conv_data ! n) k"
proof -
  assume n: "n < 16" and k: "5 \<le> k"
  have "take_bit 5 (GCR_conv_data ! n) = GCR_conv_data ! n"
    using less_16 [OF n] by (auto simp: GCR_conv_data_def take_bit_numeral_numeral)
  then show "\<not> bit (GCR_conv_data ! n) k" using k by (metis bit_take_bit_iff not_less)
qed

lemma encode_step_bit:
  assumes "n < 32"
  shows "bit (encode_step t x) n \<longleftrightarrow>
    (if n < 5 then bit (GCR_conv_data ! unat (x AND 0x0f)) n
     else if n < 10 then bit (GCR_conv_data ! unat (drop_bit 4 x)) (n - 5)
     else bit t (n - 10))"
  using assms by (auto simp: encode_step_def Let_def bit_simps conv_small)

lemma encode_bits:
  assumes "length src = 4"
  shows "concat (map byte_bits (gcr_convert_4bytes_to_GCR src)) = concat (map code_bits (concat (map nibbles src)))"
proof -
  obtain a b c d where src: "src = [a, b, c, d]"
    using assms by (auto simp: length_Suc_conv numeral_eq_Suc)
  show ?thesis
    by (simp add: src gcr_convert_4bytes_to_GCR_def Let_def byte_bits_unfold code_bits_unfold nibbles_def
        bit_simps encode_step_bit)
qed

text \<open>Ten bits make a byte.\<close>

definition code_value :: "bool list \<Rightarrow> nat" where
  "code_value bs = foldl (\<lambda>a b. 2 * a + of_bool b) 0 bs"

definition bits_byte :: "bool list \<Rightarrow> byte" where
  "bits_byte bs = push_bit 4 (From_GCR_conv_data ! code_value (take 5 bs)) OR
    From_GCR_conv_data ! code_value (take 5 (drop 5 bs))"

fun decode_bits :: "nat \<Rightarrow> bool list \<Rightarrow> byte list" where
  "decode_bits 0 bs = []"
| "decode_bits (Suc n) bs = bits_byte (take 10 bs) # decode_bits n (drop 10 bs)"

lemma unat_and_31:
  "unat (w AND 0x1f :: 32 word) = code_value [bit w 4, bit w 3, bit w 2, bit w 1, bit w 0]"
proof -
  have "w AND 0x1f = take_bit 5 w" by (simp add: take_bit_eq_mask mask_numeral)
  also have "\<dots> = horner_sum of_bool 2 (map (bit w) [0..<5])" by (simp add: horner_sum_bit_eq_take_bit)
  also have "\<dots> = of_nat (code_value [bit w 4, bit w 3, bit w 2, bit w 1, bit w 0])"
    by (simp add: upt_rec code_value_def eval_nat_numeral)
  finally show ?thesis
    by (simp add: unat_of_nat code_value_def)
qed

lemma byte_no_bit [simp]: "8 \<le> n \<Longrightarrow> \<not> bit (x :: byte) n"
  using bit_imp_le_length [of x n] by auto

lemma decode_bits_4:
  "decode_bits 4 bs = [bits_byte (take 10 bs), bits_byte (take 10 (drop 10 bs)),
    bits_byte (take 10 (drop 20 bs)), bits_byte (take 10 (drop 30 bs))]"
proof -
  have "decode_bits 4 bs = decode_bits (Suc (Suc (Suc (Suc 0)))) bs" by (simp add: eval_nat_numeral)
  then show ?thesis by simp
qed

lemma decode_bits_eq:
  assumes "length gs = 5"
  shows "gcr_convert_GCR_to_4bytes gs = decode_bits 4 (concat (map byte_bits gs))"
proof -
  obtain a b c d e where gs: "gs = [a, b, c, d, e]"
    using assms by (auto simp: length_Suc_conv numeral_eq_Suc)
  show ?thesis
    by (simp add: gs gcr_convert_GCR_to_4bytes_def Let_def byte_bits_unfold bits_byte_def
        bit_simps unat_and_31 decode_bits_4)
qed

subsection \<open>The code decodes\<close>

lemma from_conv:
  assumes "n < 16"
  shows "From_GCR_conv_data ! code_value (code_bits n) = of_nat n"
proof -
  have "list_all (\<lambda>n. From_GCR_conv_data ! code_value (code_bits n) = of_nat n) [0..<16]" by code_simp
  with assms show ?thesis by (simp add: list_all_iff)
qed

lemma bits_byte_nibbles: "bits_byte (concat (map code_bits (nibbles x))) = x"
  by (simp add: bits_byte_def nibbles_def from_conv nibbles_byte)

lemma decode_bits_append:
  "length a = 10 \<Longrightarrow> decode_bits (Suc n) (a @ bs) = bits_byte a # decode_bits n bs"
  by simp

lemma length_nibble_codes [simp]: "length (concat (map code_bits (nibbles x))) = 10"
  by (simp add: nibbles_def)

definition gcr_bits :: "byte list \<Rightarrow> bool list" where
  "gcr_bits xs = concat (map (\<lambda>x. concat (map code_bits (nibbles x))) xs)"

lemma gcr_bits_simps [simp]:
  "gcr_bits [] = []" "gcr_bits (x # xs) = concat (map code_bits (nibbles x)) @ gcr_bits xs"
  "gcr_bits (xs @ ys) = gcr_bits xs @ gcr_bits ys" "length (gcr_bits xs) = 10 * length xs"
proof -
  show "length (gcr_bits xs) = 10 * length xs" by (induction xs) (simp_all add: gcr_bits_def)
qed (simp_all add: gcr_bits_def)

lemma decode_gcr_bits: "decode_bits (length xs) (gcr_bits xs @ rest) = xs"
proof (induction xs)
  case (Cons x xs)
  then show ?case
    using decode_bits_append [of "concat (map code_bits (nibbles x))" "length xs"] bits_byte_nibbles [of x]
    by simp
qed simp

lemma encode_bits_gcr: "length src = 4 \<Longrightarrow> concat (map byte_bits (gcr_convert_4bytes_to_GCR src)) = gcr_bits src"
  by (auto simp: encode_bits gcr_bits_def length_Suc_conv numeral_eq_Suc)

lemma length_encode [simp]: "length src = 4 \<Longrightarrow> length (gcr_convert_4bytes_to_GCR src) = 5"
  by (auto simp: length_Suc_conv numeral_eq_Suc gcr_convert_4bytes_to_GCR_def Let_def)

lemma encode_blocks_bits:
  assumes "length xs = 4 * n"
  shows "concat (map byte_bits (encode_blocks xs)) = gcr_bits xs" "length (encode_blocks xs) = 5 * n"
proof -
  have "concat (map byte_bits (encode_blocks xs)) = gcr_bits xs \<and> length (encode_blocks xs) = 5 * n"
    using assms
  proof (induction n arbitrary: xs)
    case (Suc n)
    then have "length xs = Suc (Suc (Suc (Suc (4 * n))))" by simp
    then obtain a b c d ys where xs: "xs = [a, b, c, d] @ ys" and "length ys = 4 * n"
      by (auto simp: length_Suc_conv)
    from Suc.IH [OF this(2)] have ys: "concat (map byte_bits (encode_blocks ys)) = gcr_bits ys"
      "length (encode_blocks ys) = 5 * n" by auto
    have "encode_blocks xs = gcr_convert_4bytes_to_GCR [a, b, c, d] @ encode_blocks ys" by (simp add: xs)
    then show ?case using encode_bits_gcr [of "[a, b, c, d]"] ys unfolding xs gcr_bits_simps(3) by simp
  qed simp
  then show "concat (map byte_bits (encode_blocks xs)) = gcr_bits xs" "length (encode_blocks xs) = 5 * n"
    by auto
qed

text \<open>
  No ten one bits in a row: \<open>short_runs c bs\<close> holds if, after \<open>c\<close> ones, no run of ones in
  \<open>bs\<close> reaches ten.
\<close>

fun short_runs :: "nat \<Rightarrow> bool list \<Rightarrow> bool" where
  "short_runs c [] = True"
| "short_runs c (b # bs) = (if b then c < 9 \<and> short_runs (Suc c) bs else short_runs 0 bs)"

lemma short_runs_code:
  assumes "n < 16" "c \<le> 4" "\<And>c. c \<le> 4 \<Longrightarrow> short_runs c rest"
  shows "short_runs c (code_bits n @ rest)"
  using less_16 [OF assms(1)] assms(2,3)
  by (auto simp: code_bits_unfold GCR_conv_data_def)

lemma short_runs_gcr: "c \<le> 4 \<Longrightarrow> short_runs c (gcr_bits xs)"
proof (induction xs arbitrary: c)
  case (Cons x xs)
  then show ?case by (simp add: nibbles_def) (intro short_runs_code; simp)
qed simp

end
