(* ===== verification/GcrTrack.thy ===== *)
theory GcrTrack
  imports GcrBits
begin

text \<open>
  A raw track as a ring of bits: what decoding a block reads, where the sync search stops and
  which bits writing a data block changes, at any bit position and across the end of the
  track; and that a sector written reads back.
\<close>

subsection \<open>The ring of bits\<close>

definition track_ok :: "disk_track \<Rightarrow> bool" where
  "track_ok raw = (track_data raw \<noteq> None \<and> length (the (track_data raw)) = track_size raw \<and> 0 < track_size raw)"

definition tbit :: "disk_track \<Rightarrow> nat \<Rightarrow> bool" where
  "tbit raw q = bit (the (track_data raw) ! (q div 8 mod track_size raw)) (7 - q mod 8)"

definition tbits :: "disk_track \<Rightarrow> nat \<Rightarrow> nat \<Rightarrow> bool list" where
  "tbits raw q n = map (\<lambda>k. tbit raw (q + k)) [0..<n]"

lemma tbits_simps [simp]:
  "length (tbits raw q n) = n" "tbits raw q 0 = []" "k < n \<Longrightarrow> tbits raw q n ! k = tbit raw (q + k)"
  by (simp_all add: tbits_def)

lemma tbits_add: "tbits raw q (m + n) = tbits raw q m @ tbits raw (q + m) n"
  by (rule nth_equalityI) (auto simp: nth_append algebra_simps)

lemma tbit_mod: "tbit raw (q mod (8 * track_size raw)) = tbit raw q"
proof -
  have "q mod (8 * track_size raw) div 8 = q div 8 mod track_size raw"
    by (simp add: mod_mult2_eq)
  moreover have "q mod (8 * track_size raw) mod 8 = q mod 8" by (simp add: mod_mult2_eq)
  ultimately show ?thesis by (simp add: tbit_def)
qed

lemma next_offset_mod: "offset < track_size raw \<Longrightarrow> next_offset raw offset = Suc offset mod track_size raw"
  by (cases "Suc offset = track_size raw") (auto simp: next_offset_def)

text \<open>One byte of a block, assembled from two bytes of the track.\<close>

lemma group_byte:
  assumes "sh < 8" "j < 8"
  shows "bit (if sh \<noteq> 0 then push_bit sh y OR ucast (drop_bit 8 (push_bit sh (ucast x :: 32 word))) else push_bit sh y :: byte) j
    \<longleftrightarrow> (if sh \<le> j then bit y (j - sh) else bit (x :: byte) (j + 8 - sh))"
  using assms by (auto simp: bit_simps add.commute)

lemma tbit_split:
  assumes "offset < track_size raw" "sh < 8" "k < 8"
  shows "tbit raw (8 * offset + sh + k) =
    (if sh + k < 8 then bit (the (track_data raw) ! offset) (7 - (sh + k))
     else bit (the (track_data raw) ! (Suc offset mod track_size raw)) (15 - (sh + k)))"
proof -
  have q: "(8 * offset + sh + k) div 8 = offset + (sh + k) div 8" "(8 * offset + sh + k) mod 8 = (sh + k) mod 8"
    using div_mult_self4 [of 8 offset "sh + k"] mod_mult_self4 [of 8 offset "sh + k"] by (simp_all add: ac_simps)
  show ?thesis
  proof (cases "sh + k < 8")
    case True
    with q assms show ?thesis by (simp add: tbit_def)
  next
    case False
    then have "(sh + k) div 8 = 1" "(sh + k) mod 8 = sh + k - 8"
      using assms by (simp_all add: div_nat_eqI le_mod_geq)
    with False q assms show ?thesis by (simp add: tbit_def)
  qed
qed

lemma gcr_group_bits:
  assumes "track_ok raw" "offset < track_size raw" "sh < 8"
    "gcr_group raw sh offset (push_bit sh (the (track_data raw) ! offset)) n = (gs, offset', b')"
  shows "offset' = (offset + n) mod track_size raw" "b' = push_bit sh (the (track_data raw) ! offset')"
    "length gs = n" "concat (map byte_bits gs) = tbits raw (8 * offset + sh) (8 * n)"
proof -
  have "offset' = (offset + n) mod track_size raw \<and> b' = push_bit sh (the (track_data raw) ! offset') \<and>
    length gs = n \<and> concat (map byte_bits gs) = tbits raw (8 * offset + sh) (8 * n)"
    using assms
  proof (induction n arbitrary: offset gs)
    case (Suc n)
    let ?d = "the (track_data raw)" and ?o = "Suc offset mod track_size raw"
    let ?g = "if sh \<noteq> 0 then push_bit sh (?d ! offset) OR ucast (drop_bit 8 (push_bit sh (ucast (?d ! ?o) :: 32 word)))
      else push_bit sh (?d ! offset)"
    have o: "?o < track_size raw" using Suc.prems(2) by simp
    obtain hs where hs: "gs = ?g # hs" "gcr_group raw sh ?o (push_bit sh (?d ! ?o)) n = (hs, offset', b')"
      using Suc.prems(2,4) by (auto simp: Let_def next_offset_mod split: prod.splits if_splits)
    note IH = Suc.IH [OF Suc.prems(1) o Suc.prems(3) hs(2)]
    have "byte_bits ?g = tbits raw (8 * offset + sh) 8"
    proof (rule nth_equalityI)
      fix k assume "k < length (byte_bits ?g)"
      then have k: "k < 8" by simp
      then have "byte_bits ?g ! k = bit ?g (7 - k)" by (simp add: byte_bits_def)
      also have "\<dots> = tbit raw (8 * offset + sh + k)"
        using k Suc.prems(2,3) unfolding group_byte [OF Suc.prems(3), of "7 - k"] tbit_split [OF Suc.prems(2,3) k]
        by (subst group_byte) (auto simp: algebra_simps)
      finally show "byte_bits ?g ! k = tbits raw (8 * offset + sh) 8 ! k" using k by (simp add: add.assoc)
    qed simp
    moreover have "tbits raw (8 * ?o + sh) (8 * n) = tbits raw (8 * offset + sh + 8) (8 * n)"
    proof -
      have "(8 * ?o + sh + k) mod (8 * track_size raw) = (8 * offset + sh + 8 + k) mod (8 * track_size raw)" for k
        by (metis add.commute add.left_commute mod_add_right_eq mult_Suc_right mult_mod_right)
      then have "tbit raw (8 * ?o + sh + k) = tbit raw (8 * offset + sh + 8 + k)" for k
        by (metis tbit_mod)
      then show ?thesis by (simp add: tbits_def)
    qed
    ultimately show ?case
      using IH hs tbits_add [of raw "8 * offset + sh" 8 "8 * n"] by (simp add: mod_simps)
  qed simp
  then show "offset' = (offset + n) mod track_size raw" "b' = push_bit sh (the (track_data raw) ! offset')"
    "length gs = n" "concat (map byte_bits gs) = tbits raw (8 * offset + sh) (8 * n)" by auto
qed

lemma tbits_cong: "q mod (8 * track_size raw) = q' mod (8 * track_size raw) \<Longrightarrow> tbits raw q n = tbits raw q' n"
proof -
  assume "q mod (8 * track_size raw) = q' mod (8 * track_size raw)"
  then have "(q + k) mod (8 * track_size raw) = (q' + k) mod (8 * track_size raw)" for k
    by (metis mod_add_left_eq)
  then have "tbit raw (q + k) = tbit raw (q' + k)" for k by (metis tbit_mod)
  then show ?thesis by (simp add: tbits_def)
qed

lemma decode_bits_add:
  "length bs = 10 * m \<Longrightarrow> decode_bits (m + n) (bs @ cs) = decode_bits m bs @ decode_bits n cs"
proof (induction m arbitrary: bs)
  case (Suc m)
  then have "length (take 10 bs) = 10" "length (drop 10 bs) = 10 * m" by simp_all
  with Suc.IH [of "drop 10 bs"] show ?case by simp
qed simp

lemma decode_groups_bits:
  assumes "track_ok raw" "offset < track_size raw" "sh < 8"
  shows "decode_groups raw sh offset (push_bit sh (the (track_data raw) ! offset)) num =
    decode_bits (4 * num) (tbits raw (8 * offset + sh) (40 * num))"
  using assms(2)
proof (induction num arbitrary: offset)
  case (Suc num)
  obtain gs off b where g: "gcr_group raw sh offset (push_bit sh (the (track_data raw) ! offset)) 5 = (gs, off, b)"
    using prod_cases3 by blast
  note f = gcr_group_bits [OF assms(1) Suc.prems assms(3) g]
  have off: "off < track_size raw" using f(1) Suc.prems by simp
  have "(8 * off + sh) mod (8 * track_size raw) = (8 * offset + sh + 40) mod (8 * track_size raw)"
  proof -
    have "8 * off = (8 * offset + 40) mod (8 * track_size raw)"
      using f(1) mult_mod_right [of 8 "offset + 5" "track_size raw"] by simp
    then show ?thesis by (simp add: mod_simps ac_simps)
  qed
  then have "tbits raw (8 * off + sh) (40 * num) = tbits raw (8 * offset + sh + 40) (40 * num)"
    by (rule tbits_cong)
  then show ?case
    using g f(2,3,4) Suc.IH [OF off] decode_bits_eq [of gs]
      decode_bits_add [of "tbits raw (8 * offset + sh) 40" 4 "4 * num" "tbits raw (8 * offset + sh + 40) (40 * num)"]
      tbits_add [of raw "8 * offset + sh" 40 "40 * num"]
    by simp
qed simp

lemma position_split:
  "nat (int q AND 7) = q mod 8" "nat (drop_bit 3 (int q)) = q div 8" "drop_bit 3 (int q) = int (q div 8)"
proof -
  have "int q AND 7 = take_bit 3 (int q)" by (simp add: take_bit_eq_mask mask_numeral)
  then show "nat (int q AND 7) = q mod 8" by (simp add: take_bit_eq_mod nat_mod_as_int)
  show "drop_bit 3 (int q) = int (q div 8)" by (simp add: drop_bit_eq_div zdiv_int)
  then show "nat (drop_bit 3 (int q)) = q div 8" by simp
qed

lemma track_byte_nat: "track_byte raw (int i) = the (track_data raw) ! i"
  by (simp add: track_byte_def)

lemma gcr_decode_block_bits:
  assumes "track_ok raw" "q < 8 * track_size raw"
  shows "gcr_decode_block raw (int q) num = decode_bits (4 * num) (tbits raw q (40 * num))"
proof -
  have "q div 8 < track_size raw" using assms(2) by (simp add: div_less_iff_less_mult mult.commute)
  from decode_groups_bits [OF assms(1) this, of "q mod 8" num] show ?thesis
    by (simp add: gcr_decode_block_def Let_def position_split track_byte_nat)
qed

subsection \<open>Finding a sync\<close>

text \<open>The search on a stream of bits \<open>f\<close>, after \<open>c\<close> ones, from bit \<open>k\<close> on and for \<open>s\<close> bits.\<close>

fun sync_scan :: "(nat \<Rightarrow> bool) \<Rightarrow> nat \<Rightarrow> nat \<Rightarrow> nat \<Rightarrow> nat option" where
  "sync_scan f c k 0 = None"
| "sync_scan f c k (Suc s) =
    (if f k then sync_scan f (Suc c) (Suc k) s
     else if c \<ge> 10 then Some k
     else sync_scan f 0 (Suc k) s)"

text \<open>The shift register of the code holds the last bits seen.\<close>

definition holds_ones :: "32 word \<Rightarrow> nat \<Rightarrow> bool" where
  "holds_ones w c = ((\<forall>j < 10. j < c \<longrightarrow> bit w j) \<and> (c < 10 \<longrightarrow> \<not> bit w c))"

lemma holds_ones_full: "holds_ones w c \<Longrightarrow> NOT w AND 0x3ff = 0 \<longleftrightarrow> 10 \<le> c"
proof -
  assume w: "holds_ones w c"
  have m: "(0x3ff :: 32 word) = mask 10" by (simp add: mask_numeral)
  have "NOT w AND 0x3ff = 0 \<longleftrightarrow> (\<forall>j < 10. bit w j)"
    unfolding m by (simp add: bit_eq_iff bit_simps) (meson less_trans numeral_less_iff semiring_norm(76,78,79,80,81))
  also have "\<dots> \<longleftrightarrow> 10 \<le> c" using w by (auto simp: holds_ones_def not_less)
  finally show ?thesis .
qed

lemma shifted_bit:
  "n < 32 \<Longrightarrow> bit (push_bit 1 w :: 32 word) n = (n \<noteq> 0 \<and> bit w (n - 1))"
  "n < 32 \<Longrightarrow> bit (push_bit 1 w OR 1 :: 32 word) n = (n = 0 \<or> bit w (n - 1))"
  unfolding bit_or_iff bit_push_bit_iff by (auto simp: bit_1_iff)

lemma holds_ones_step:
  assumes "holds_ones w c"
  shows "holds_ones (push_bit 1 w OR 1) (Suc c)" "holds_ones (push_bit 1 w) 0"
proof -
  show "holds_ones (push_bit 1 w) 0" using shifted_bit(1) [of 0 w] by (simp add: holds_ones_def)
  have "bit (push_bit 1 w OR 1) j" if "j < 10" "j < Suc c" for j
    using that assms shifted_bit(2) [of j w] by (cases j) (auto simp: holds_ones_def)
  moreover have "\<not> bit (push_bit 1 w OR 1) (Suc c)" if "Suc c < 10"
    using that assms shifted_bit(2) [of "Suc c" w] by (simp add: holds_ones_def)
  ultimately show "holds_ones (push_bit 1 w OR 1) (Suc c)" by (simp add: holds_ones_def)
qed

text \<open>The byte register of the code, shifted to the current bit.\<close>

lemma scan_register:
  assumes "q div 8 < track_size raw" "r = q mod 8"
  shows "push_bit r (ucast (the (track_data raw) ! (q div 8)) :: 32 word) AND 0x80 = 0 \<longleftrightarrow> \<not> tbit raw q"
proof -
  have r: "r < 8" using assms(2) by simp
  have "(0x80 :: 32 word) = push_bit 7 1" by simp
  then have "push_bit r (ucast x :: 32 word) AND 0x80 = 0 \<longleftrightarrow> \<not> bit x (7 - r)" for x :: byte
    using r bit_iff_and_push_bit_not_eq_0 [of "push_bit r (ucast x :: 32 word)" 7] by (auto simp: bit_simps)
  with assms show ?thesis by (simp add: tbit_def)
qed

lemma not_and_7: "NOT (int q) AND 7 \<noteq> 0 \<longleftrightarrow> q mod 8 \<noteq> 7"
proof -
  have m: "(7 :: int) = mask 3" by (simp add: mask_numeral)
  have "NOT (int q) AND 7 = take_bit 3 (NOT (int q))" unfolding m by (simp add: take_bit_eq_mask)
  also have "\<dots> = 7 - take_bit 3 (int q)"
    by (simp add: take_bit_not_eq_mask_diff mask_numeral)
  also have "\<dots> = int (7 - q mod 8)"
    by (simp add: take_bit_eq_mod of_nat_diff zmod_int)
  finally show ?thesis by auto
qed

lemma next_in_byte:
  "(q :: nat) mod 8 \<noteq> 7 \<Longrightarrow> Suc q mod 8 = Suc (q mod 8) \<and> Suc q div 8 = q div 8"
  "(q :: nat) mod 8 = 7 \<Longrightarrow> Suc q mod 8 = 0"
  by (simp_all add: mod_Suc div_Suc)

lemma find_sync_loop_step:
  fixes raw :: disk_track and q :: nat
  defines "reg \<equiv> \<lambda>q. push_bit (q mod 8) (ucast (the (track_data raw) ! (q div 8))) :: 32 word"
  defines "q' \<equiv> Suc q mod (8 * track_size raw)"
  assumes "track_ok raw" "q < 8 * track_size raw"
  shows "find_sync_loop raw w (reg q) (int q) (Suc s) =
    (if \<not> tbit raw q \<and> NOT w AND 0x3ff = 0 then int q
     else find_sync_loop raw (if tbit raw q then push_bit 1 w OR 1 else push_bit 1 w) (reg q') (int q') s)"
proof -
  have qd: "q div 8 < track_size raw" using assms(4) by (simp add: div_less_iff_less_mult mult.commute)
  have z: "reg q AND 0x80 = 0 \<longleftrightarrow> \<not> tbit raw q" unfolding reg_def using qd by (intro scan_register) simp_all
  show ?thesis
  proof (cases "q mod 8 = 7")
    case True
    have q': "(if int q + 1 \<ge> int (track_size raw) * 8 then 0 else int q + 1) = int q'"
      using assms(4) by (cases "Suc q = 8 * track_size raw") (auto simp: q'_def)
    have "reg q' = ucast (track_byte raw (drop_bit 3 (int q')))"
    proof -
      have "q' mod 8 = 0" using next_in_byte(2) [OF True] by (simp add: q'_def mod_mult2_eq)
      then show ?thesis by (simp add: reg_def position_split track_byte_nat)
    qed
    then show ?thesis using True z q' not_and_7 [of q] by (simp add: Let_def)
  next
    case False
    then have "Suc q < 8 * track_size raw" using assms(4) by (cases "Suc q = 8 * track_size raw") presburger+
    then have q': "q' = Suc q" by (simp add: q'_def)
    have "reg q' = push_bit 1 (reg q)"
      using next_in_byte(1) [OF False] by (simp add: reg_def q')
    then show ?thesis using False z q' not_and_7 [of q] by (simp add: Let_def ac_simps)
  qed
qed

lemma find_sync_loop_scan:
  assumes "track_ok raw" "(p + k) mod (8 * track_size raw) = q" "holds_ones w c"
  shows "find_sync_loop raw w (push_bit (q mod 8) (ucast (the (track_data raw) ! (q div 8)))) (int q) s =
    (case sync_scan (\<lambda>k. tbit raw (p + k)) c k s of
       None \<Rightarrow> - int CBMDOS_FDC_ERR_SYNC | Some k \<Rightarrow> int ((p + k) mod (8 * track_size raw)))"
  using assms(2,3)
proof (induction s arbitrary: q k w c)
  case (Suc s)
  have q: "q < 8 * track_size raw" using Suc.prems(1) assms(1) by (auto simp: track_ok_def)
  have t: "tbit raw q = tbit raw (p + k)" using Suc.prems(1) tbit_mod [of raw "p + k"] by simp
  have "(p + Suc k) mod (8 * track_size raw) = Suc q mod (8 * track_size raw)"
    using Suc.prems(1) by (metis add_Suc_right mod_Suc_eq)
  note IH = Suc.IH [OF this]
  show ?case
    unfolding find_sync_loop_step [OF assms(1) q] holds_ones_full [OF Suc.prems(2)] t
    using IH [OF holds_ones_step(1) [OF Suc.prems(2)]] IH [OF holds_ones_step(2) [OF Suc.prems(2)]] Suc.prems(1)
    by auto
qed simp

lemma gcr_find_sync_scan:
  assumes "track_ok raw" "q < 8 * track_size raw"
  shows "gcr_find_sync raw (int q) s =
    (case sync_scan (\<lambda>k. tbit raw (q + k)) 0 0 s of
       None \<Rightarrow> - int CBMDOS_FDC_ERR_SYNC | Some k \<Rightarrow> int ((q + k) mod (8 * track_size raw)))"
proof -
  have "holds_ones 0 0" by (simp add: holds_ones_def)
  from find_sync_loop_scan [OF assms(1) _ this, of q 0 q s] assms show ?thesis
    by (auto simp: gcr_find_sync_def track_ok_def position_split track_byte_nat)
qed

text \<open>What the search finds, and that it depends on the bits up to there only.\<close>

definition sync_end :: "(nat \<Rightarrow> bool) \<Rightarrow> nat \<Rightarrow> bool" where
  "sync_end f m = (\<not> f m \<and> 10 \<le> m \<and> (\<forall>j. m - 10 \<le> j \<and> j < m \<longrightarrow> f j))"

lemma sync_scan_found:
  assumes "sync_scan f c k s = Some m" "\<forall>j. k - c \<le> j \<and> j < k \<longrightarrow> f j" "c \<le> k"
  shows "k \<le> m \<and> m < k + s \<and> sync_end f m"
  using assms
proof (induction f c k s rule: sync_scan.induct)
  case (2 f c k s)
  show ?case
  proof (cases "f k")
    case True
    have ones: "\<forall>j. Suc k - Suc c \<le> j \<and> j < Suc k \<longrightarrow> f j" using 2(4) True by (auto simp: less_Suc_eq)
    have "sync_scan f (Suc c) (Suc k) s = Some m" using 2(3) True by simp
    from 2(1) [OF True this ones] 2(5) show ?thesis by simp
  next
    case False
    show ?thesis
    proof (cases "10 \<le> c")
      case True
      then have "m = k" using 2(3) False by simp
      moreover have "f j" if "k - 10 \<le> j" "j < k" for j using 2(4) that True diff_le_mono2 [OF True, of k] by simp
      ultimately show ?thesis using True False 2(5) by (simp add: sync_end_def)
    next
      case c: False
      have "sync_scan f 0 (Suc k) s = Some m" using 2(3) False c by simp
      moreover have "\<forall>j. Suc k - 0 \<le> j \<and> j < Suc k \<longrightarrow> f j" by auto
      ultimately show ?thesis using 2(2) [OF False c] by simp
    qed
  qed
qed simp

lemma sync_scan_cong:
  "(\<And>j. k \<le> j \<Longrightarrow> j < k + s \<Longrightarrow> f j = g j) \<Longrightarrow> sync_scan f c k s = sync_scan g c k s"
  by (induction f c k s rule: sync_scan.induct) auto

lemma sync_scan_prefix:
  assumes "sync_scan f c k s = Some m" "\<And>j. k \<le> j \<Longrightarrow> j \<le> m \<Longrightarrow> f j = g j"
  shows "sync_scan g c k s = Some m"
proof -
  have "k \<le> m" if "sync_scan f c k s = Some m" for c k s
    using that by (induction f c k s rule: sync_scan.induct) (auto split: if_splits)
  with assms show ?thesis
    by (induction f c k s rule: sync_scan.induct) (fastforce split: if_splits)+
qed

lemma sync_scan_complete:
  assumes "sync_end f m" "k \<le> m" "m < k + s" "c \<le> k" "\<forall>j. k - c \<le> j \<and> j < k \<longrightarrow> f j" "c < k \<longrightarrow> \<not> f (k - c - 1)"
  shows "\<exists>m' \<le> m. sync_scan f c k s = Some m'"
  using assms(2-)
proof (induction s arbitrary: c k)
  case (Suc s)
  show ?case
  proof (cases "f k")
    case True
    then have "k \<noteq> m" using assms(1) by (auto simp: sync_end_def)
    moreover have "\<forall>j. Suc k - Suc c \<le> j \<and> j < Suc k \<longrightarrow> f j" using Suc.prems(4) True by (auto simp: less_Suc_eq)
    ultimately show ?thesis using Suc.IH [of "Suc k" "Suc c"] Suc.prems True by simp
  next
    case False
    have "k \<noteq> m" if "c < 10"
    proof
      assume "k = m"
      then have "10 \<le> k" "f (k - c - 1)" using assms(1) that by (auto simp: sync_end_def)
      with Suc.prems(5) that show False by simp
    qed
    then show ?thesis using Suc.IH [of "Suc k" 0] Suc.prems False by (cases "10 \<le> c") auto
  qed
qed simp

subsection \<open>Writing a data block\<close>

definition low_bits :: "nat \<Rightarrow> byte \<Rightarrow> byte" where
  "low_bits sh g = ucast (drop_bit sh (push_bit 8 (ucast g :: 32 word)))"

definition carry :: "nat \<Rightarrow> byte \<Rightarrow> byte list \<Rightarrow> nat \<Rightarrow> byte" where
  "carry sh b gs i = (if sh = 0 \<or> i = 0 then b else low_bits sh (gs ! (i - 1)))"

definition out_byte :: "nat \<Rightarrow> byte \<Rightarrow> byte list \<Rightarrow> nat \<Rightarrow> byte" where
  "out_byte sh b gs i = (if sh \<noteq> 0 then carry sh b gs i OR drop_bit sh (gs ! i) else gs ! i)"

lemma carry_Cons: "carry sh b (g # gs) (Suc i) = carry sh (if sh \<noteq> 0 then low_bits sh g else b) gs i"
  by (cases i) (simp_all add: carry_def)

lemma out_byte_Cons: "out_byte sh b (g # gs) (Suc i) = out_byte sh (if sh \<noteq> 0 then low_bits sh g else b) gs i"
  by (simp add: out_byte_def carry_Cons)

lemma ring_index_inj:
  assumes "i < n" "j < n" "(offset + i) mod n = (offset + j) mod n"
  shows "i = (j :: nat)"
proof -
  have "i = j" if "i \<le> j" "j < n" "(offset + i) mod n = (offset + j) mod n" for i j
  proof -
    have "n dvd j - i" using that mod_eq_dvd_iff_nat [of "offset + i" "offset + j" n] by simp
    then have "j - i = 0" using that(2) by (meson less_imp_diff_less nat_dvd_not_less neq0_conv)
    with that(1) show ?thesis by simp
  qed
  from this [of i j] this [of j i] assms show ?thesis by (cases "i \<le> j") auto
qed

lemma put_gcr_bytes:
  assumes "track_ok raw" "offset < track_size raw" "length gs \<le> track_size raw"
    "put_gcr gs raw sh offset b = (raw', offset', b')"
  shows "track_ok raw' \<and> track_size raw' = track_size raw \<and> offset' = (offset + length gs) mod track_size raw \<and>
    b' = carry sh b gs (length gs) \<and>
    (\<forall>i < track_size raw. the (track_data raw') ! ((offset + i) mod track_size raw) =
      (if i < length gs then out_byte sh b gs i else the (track_data raw) ! ((offset + i) mod track_size raw)))"
  using assms
proof (induction gs arbitrary: raw offset b)
  case Nil
  then show ?case by (simp add: carry_def)
next
  case (Cons g gs)
  let ?n = "track_size raw" and ?x = "out_byte sh b (g # gs) 0" and ?b = "if sh \<noteq> 0 then low_bits sh g else b"
  let ?raw = "raw\<lparr>track_data := Some ((the (track_data raw))[offset := ?x])\<rparr>"
  let ?o = "Suc offset mod ?n"
  have ok: "track_ok ?raw" using Cons.prems(1) by (simp add: track_ok_def)
  have o: "?o < track_size ?raw" "length gs \<le> track_size ?raw" using Cons.prems(2,3) by auto
  have "put_gcr gs ?raw sh ?o ?b = (raw', offset', b')"
    using Cons.prems(2,4) next_offset_mod [of offset ?raw]
    by (simp add: Let_def out_byte_def carry_def low_bits_def split: if_splits)
  note IH = Cons.IH [OF ok o this]
  have IHb: "the (track_data raw') ! ((?o + i) mod ?n) = (if i < length gs then out_byte sh ?b gs i
      else the (track_data ?raw) ! ((?o + i) mod ?n))" if "i < ?n" for i
    using IH that by simp
  have "the (track_data raw') ! ((offset + i) mod ?n) =
      (if i < length (g # gs) then out_byte sh b (g # gs) i else the (track_data raw) ! ((offset + i) mod ?n))"
    if i: "i < ?n" for i
  proof (cases i)
    case 0
    have o1: "(?o + (?n - 1)) mod ?n = offset"
      using Cons.prems(2) by (cases "Suc offset = ?n") auto
    have "?n - 1 < ?n" "\<not> ?n - 1 < length gs" using Cons.prems(2,3) by auto
    with IHb [of "?n - 1", unfolded o1] show ?thesis using 0 Cons.prems(1,2) by (simp add: track_ok_def)
  next
    case (Suc j)
    have e: "(?o + j) mod ?n = (offset + i) mod ?n" by (simp add: Suc mod_simps)
    have "(offset + i) mod ?n \<noteq> (offset + 0) mod ?n" using ring_index_inj [of i ?n 0 offset] i Suc by auto
    then have "the (track_data ?raw) ! ((offset + i) mod ?n) = the (track_data raw) ! ((offset + i) mod ?n)"
      using Cons.prems(2) by simp
    with IHb [of j, unfolded e] i Suc show ?thesis by (auto simp: out_byte_Cons)
  qed
  with IH show ?case by (auto simp: carry_Cons mod_simps)
qed

lemma nth_byte_bits: "k < 8 \<Longrightarrow> byte_bits x ! k = bit x (7 - k)"
  by (simp add: byte_bits_def)

lemma nth_concat_bytes:
  "i < length gs \<Longrightarrow> r < 8 \<Longrightarrow> concat (map byte_bits gs) ! (8 * i + r) = bit (gs ! i) (7 - r)"
proof (induction gs arbitrary: i)
  case (Cons g gs)
  then show ?case by (cases i) (simp_all add: nth_append nth_byte_bits)
qed simp

lemma low_bits_bit: "sh < 8 \<Longrightarrow> j < 8 \<Longrightarrow> bit (low_bits sh g) j \<longleftrightarrow> 8 \<le> sh + j \<and> bit g (sh + j - 8)"
  by (auto simp: low_bits_def bit_simps)

text \<open>The bits of the output bytes, where the first carry holds its upper bits only.\<close>

definition top_bits :: "nat \<Rightarrow> byte \<Rightarrow> bool" where
  "top_bits sh b = (\<forall>j. j + sh < 8 \<longrightarrow> \<not> bit b j)"

lemma carry_top: "top_bits sh b \<Longrightarrow> top_bits sh (carry sh b gs i)"
  by (auto simp: top_bits_def carry_def low_bits_bit)

lemma carry_stream:
  assumes "r < sh" "sh < 8" "1 \<le> i" "i \<le> length gs"
  shows "bit (carry sh b gs i) (7 - r) = concat (map byte_bits gs) ! (8 * i + r - sh)"
proof -
  have "8 * i + r - sh = 8 * (i - 1) + (8 + r - sh)" using assms by (cases i) auto
  then have "concat (map byte_bits gs) ! (8 * i + r - sh) = bit (gs ! (i - 1)) (7 - (8 + r - sh))"
    using assms nth_concat_bytes [of "i - 1" gs "8 + r - sh"] by simp
  with assms show ?thesis by (auto simp: carry_def low_bits_bit)
qed

lemma out_stream:
  assumes "sh \<le> r" "r < 8" "i < length gs" "top_bits sh b"
  shows "bit (out_byte sh b gs i) (7 - r) = concat (map byte_bits gs) ! (8 * i + r - sh)"
proof -
  have "\<not> bit (carry sh b gs i) (7 - r)"
    using carry_top [OF assms(4), of gs i] assms(1,2) unfolding top_bits_def by auto
  moreover have "concat (map byte_bits gs) ! (8 * i + r - sh) = bit (gs ! i) (7 - (r - sh))"
    using assms nth_concat_bytes [of i gs "r - sh"] by simp
  moreover have "sh + (7 - r) = 7 - (r - sh)" using assms by simp
  ultimately show ?thesis using assms by (auto simp: out_byte_def bit_simps add.commute)
qed

lemma out_old:
  "r < sh \<Longrightarrow> sh < 8 \<Longrightarrow> bit (out_byte sh b gs i) (7 - r) = bit (carry sh b gs i) (7 - r)"
  by (auto simp: out_byte_def bit_simps)

text \<open>Bit \<open>k\<close> after position \<open>8 * offset + sh\<close> is bit \<open>r\<close> of byte \<open>i\<close> after \<open>offset\<close>.\<close>

lemma tbit_at:
  assumes "sh + k = 8 * i + r" "r < 8"
  shows "tbit raw (8 * offset + sh + k) = bit (the (track_data raw) ! ((offset + i) mod track_size raw)) (7 - r)"
proof -
  have q: "8 * offset + sh + k = 8 * (offset + i) + r" using assms(1) by simp
  have "(8 * (offset + i) + r) div 8 = offset + i" "(8 * (offset + i) + r) mod 8 = r"
    using assms(2) div_mult_self4 [of 8 "offset + i" r] mod_mult_self4 [of 8 "offset + i" r] by simp_all
  then show ?thesis unfolding tbit_def q by simp
qed

definition put_block_track :: "disk_track \<Rightarrow> byte list \<Rightarrow> nat \<Rightarrow> nat \<Rightarrow> disk_track" where
  "put_block_track raw gs sh offset =
    (case put_gcr gs raw sh offset (the (track_data raw) ! offset AND ucast (drop_bit sh (0xff00 :: 32 word))) of
       (raw, offset, b) \<Rightarrow>
         raw\<lparr>track_data := Some ((the (track_data raw))
            [offset := b OR (the (track_data raw) ! offset AND drop_bit sh 0xff)])\<rparr>)"

lemma masks:
  assumes "sh < 8" "j < 8"
  shows "bit (x AND ucast (drop_bit sh (0xff00 :: 32 word)) :: byte) j \<longleftrightarrow> bit x j \<and> 8 \<le> j + sh"
    and "bit (x AND drop_bit sh 0xff :: byte) j \<longleftrightarrow> bit x j \<and> j + sh < 8"
proof -
  have m: "(0xff00 :: 32 word) = push_bit 8 (mask 8)" "(0xff :: byte) = mask 8" by (simp_all add: mask_numeral)
  show "bit (x AND ucast (drop_bit sh (0xff00 :: 32 word)) :: byte) j \<longleftrightarrow> bit x j \<and> 8 \<le> j + sh"
    "bit (x AND drop_bit sh 0xff :: byte) j \<longleftrightarrow> bit x j \<and> j + sh < 8"
    unfolding m using assms by (auto simp: bit_simps)
qed

lemma put_block_bytes:
  fixes raw :: disk_track and gs :: "byte list" and sh offset i :: nat
  assumes "track_ok raw" "offset < track_size raw" "length gs < track_size raw"
  defines "raw' \<equiv> put_block_track raw gs sh offset" and
    "b \<equiv> the (track_data raw) ! offset AND ucast (drop_bit sh (0xff00 :: 32 word))"
  shows "track_ok raw'" "track_size raw' = track_size raw"
    and "i < track_size raw \<Longrightarrow> the (track_data raw') ! ((offset + i) mod track_size raw) =
      (if i < length gs then out_byte sh b gs i
       else if i = length gs then carry sh b gs i OR
         (the (track_data raw) ! ((offset + i) mod track_size raw) AND drop_bit sh 0xff)
       else the (track_data raw) ! ((offset + i) mod track_size raw))"
proof -
  obtain raw1 off1 b1 where put: "put_gcr gs raw sh offset b = (raw1, off1, b1)" using prod_cases3 by blast
  note P = put_gcr_bytes [OF assms(1,2) less_imp_le [OF assms(3)] put]
  let ?d1 = "the (track_data raw1)" and ?n = "track_size raw" and ?d = "the (track_data raw)"
  have raw': "raw' = raw1\<lparr>track_data := Some (?d1[off1 := b1 OR (?d1 ! off1 AND drop_bit sh 0xff)])\<rparr>"
    using put by (simp add: raw'_def put_block_track_def b_def)
  have off1: "off1 = (offset + length gs) mod ?n" "off1 < length ?d1" "b1 = carry sh b gs (length gs)"
    using P assms(2) by (auto simp: track_ok_def)
  show "track_ok raw'" "track_size raw' = ?n" using P by (simp_all add: raw' track_ok_def)
  assume i: "i < ?n"
  have "?d1 ! ((offset + i) mod ?n) = (if i < length gs then out_byte sh b gs i else ?d ! ((offset + i) mod ?n))"
    using P i by simp
  then show "the (track_data raw') ! ((offset + i) mod ?n) =
      (if i < length gs then out_byte sh b gs i
       else if i = length gs then carry sh b gs i OR (?d ! ((offset + i) mod ?n) AND drop_bit sh 0xff)
       else ?d ! ((offset + i) mod ?n))"
    using off1 ring_index_inj [OF i assms(3), of offset] by (auto simp: raw' nth_list_update)
qed

lemma put_block_bits:
  assumes "track_ok raw" "offset < track_size raw" "sh < 8" "length gs < track_size raw" "k < 8 * track_size raw"
  shows "tbit (put_block_track raw gs sh offset) (8 * offset + sh + k) =
      (if k < 8 * length gs then concat (map byte_bits gs) ! k else tbit raw (8 * offset + sh + k))"
proof -
  let ?n = "track_size raw" and ?m = "length gs" and ?d = "the (track_data raw)"
  let ?b = "?d ! offset AND ucast (drop_bit sh (0xff00 :: 32 word))"
  note P = put_block_bytes [OF assms(1,2,4), where sh = sh]
  have top: "top_bits sh ?b" using masks(1) [OF assms(3), of _ "?d ! offset"] by (auto simp: top_bits_def)
  have top': "top_bits sh (carry sh ?b gs i)" for i using top by (rule carry_top)
  define i r where "i = (sh + k) div 8" and "r = (sh + k) mod 8"
  have ir: "sh + k = 8 * i + r" "r < 8" by (simp_all add: i_def r_def)
  note at = tbit_at [OF ir] and mk = masks [OF assms(3), of "7 - r"]
  consider (wrap) "i = ?n" | (old) "i < ?n" "r < sh" "i = 0" | (new) "i < ?m" "sh \<le> r"
    | (carried) "1 \<le> i" "i \<le> ?m" "r < sh" | (last) "i = ?m" "sh \<le> r" | (rest) "?m < i" "i < ?n"
    using ir assms(3,5) by linarith
  then show ?thesis
  proof cases
    case wrap
    then have r: "r < sh" "\<not> k < 8 * ?m" using ir assms(3,4,5) by linarith+
    then have "bit (the (track_data (put_block_track raw gs sh offset)) ! offset) (7 - r) = bit (?d ! offset) (7 - r)"
      using P(3) [where i = 0] assms(2,3) mk by (auto simp: out_old carry_def bit_or_iff)
    then show ?thesis using r wrap assms(2) by (simp add: at P(2))
  next
    case old
    then show ?thesis using ir by linarith
  next
    case new
    then have k: "8 * i + r - sh = k" "k < 8 * ?m" "i < ?n" using ir assms(4) by linarith+
    then show ?thesis using P(3) [OF k(3)] new out_stream [OF new(2) ir(2) new(1) top] by (simp add: at P(2))
  next
    case carried
    then have k: "8 * i + r - sh = k" "k < 8 * ?m" "i < ?n" using ir assms(3,4) by linarith+
    then show ?thesis
      using P(3) [OF k(3)] carried out_old [OF carried(3) assms(3)] mk(2) assms(3)
        carry_stream [OF carried(3) assms(3) carried(1,2)]
      by (auto simp: at P(2) bit_or_iff)
  next
    case last
    then have k: "\<not> k < 8 * ?m" "i < ?n" using ir assms(4) by linarith+
    have "\<not> bit (carry sh ?b gs i) (7 - r)" using top' [of i] last ir(2) by (auto simp: top_bits_def)
    then show ?thesis using P(3) [OF k(2)] k last ir(2) mk(2) by (auto simp: at P(2) bit_or_iff)
  next
    case rest
    then have "\<not> k < 8 * ?m" using ir assms(3) by linarith
    with rest P(3) [OF rest(2)] show ?thesis by (simp add: at P(2))
  qed
qed

subsection \<open>A data block reads back\<close>

lemma xor_bytes_append: "xor_bytes (xs @ ys) c = xor_bytes ys (xor_bytes xs c)"
  by (simp add: xor_bytes_def)

lemma xor_bytes_shift: "xor_bytes xs (c XOR d) = c XOR xor_bytes xs d"
  by (induction xs arbitrary: d) (simp_all add: xor_bytes_def xor.assoc)

lemma xor_bytes_self: "xor_bytes xs (xor_bytes xs 0) = 0"
proof -
  have "xor_bytes xs (xor_bytes xs 0 XOR 0) = xor_bytes xs 0 XOR xor_bytes xs 0"
    by (rule xor_bytes_shift)
  then show ?thesis by simp
qed

lemma sector_checksum: "xs \<noteq> [] \<Longrightarrow> xor_bytes (tl xs) (hd xs) = xor_bytes xs 0"
  by (cases xs) (simp_all add: xor_bytes_def)

lemma sector_buffer_facts:
  assumes "length data = 256"
  shows "length (sector_buffer data) = 260" "slice (sector_buffer data) 1 256 = data"
    "sector_buffer data ! 0 = 0x07" "sector_buffer data ! 257 = xor_bytes data 0"
proof -
  have ne: "data \<noteq> []" using assms by auto
  show "length (sector_buffer data) = 260" "slice (sector_buffer data) 1 256 = data"
    "sector_buffer data ! 0 = 0x07" "sector_buffer data ! 257 = xor_bytes data 0"
    using assms by (simp_all add: sector_buffer_def slice_def sector_checksum [OF ne] nth_append)
qed

definition sector_bits :: "byte list \<Rightarrow> bool list" where
  "sector_bits data = gcr_bits (sector_buffer data)"

lemma length_sector_bits [simp]: "length data = 256 \<Longrightarrow> length (sector_bits data) = 2600"
  by (simp add: sector_bits_def sector_buffer_facts)

lemma encode_sector:
  assumes "length data = 256"
  shows "concat (map byte_bits (encode_blocks (sector_buffer data))) = sector_bits data"
    "length (encode_blocks (sector_buffer data)) = 325"
  using encode_blocks_bits [of "sector_buffer data" 65] sector_buffer_facts [OF assms] by (simp_all add: sector_bits_def)

text \<open>Writing a data block at \<open>q\<close> replaces the 2600 bits from \<open>q\<close> on and no others.\<close>

lemma write_data_block_bits:
  assumes "track_ok raw" "q < 8 * track_size raw" "length data = 256" "325 < track_size raw"
  shows "\<exists>raw'. write_data_block raw data (int q) = (CBMDOS_FDC_ERR_OK, raw') \<and> track_ok raw' \<and>
    track_size raw' = track_size raw \<and>
    (\<forall>k < 8 * track_size raw. tbit raw' (q + k) = (if k < 2600 then sector_bits data ! k else tbit raw (q + k)))"
proof -
  let ?raw = "put_block_track raw (encode_blocks (sector_buffer data)) (q mod 8) (q div 8)"
  have o: "q div 8 < track_size raw" using assms(2) by (simp add: div_less_iff_less_mult mult.commute)
  have "write_data_block raw data (int q) = (CBMDOS_FDC_ERR_OK, ?raw)"
    by (simp add: write_data_block_def put_block_track_def Let_def position_split case_prod_beta)
  moreover note put_block_bytes(1,2) [OF assms(1) o, of "encode_blocks (sector_buffer data)" "q mod 8"]
    put_block_bits [OF assms(1) o, of "q mod 8" "encode_blocks (sector_buffer data)"]
  ultimately show ?thesis using encode_sector [OF assms(3)] assms(4) by auto
qed

lemma read_data_block_bits:
  assumes "track_ok raw" "q < 8 * track_size raw" "length data = 256" "tbits raw q 2600 = sector_bits data"
  shows "read_data_block raw (int q) = (CBMDOS_FDC_ERR_OK, data)"
proof -
  have "gcr_decode_block raw (int q) 65 = sector_buffer data"
    using gcr_decode_block_bits [OF assms(1,2), of 65] assms(4) decode_gcr_bits [of "sector_buffer data" "[]"]
      sector_buffer_facts [OF assms(3)]
    by (simp add: sector_bits_def)
  then show ?thesis
    using sector_buffer_facts [OF assms(3)] xor_bytes_self by (simp add: read_data_block_def)
qed

end
