(* ===== verification/GcrSector.thy ===== *)
theory GcrSector
  imports GcrTrack
begin

text \<open>
  Whole sectors of a raw track. On a track with one intact header of a sector and no corrupt
  header, the header search ends at this header from whatever position it starts; a sector
  written is then found and read back, and the track keeps this form.
\<close>

subsection \<open>Syncs of the ring\<close>

abbreviation (input) "ring_size raw \<equiv> 8 * track_size raw"

definition ring_sync :: "disk_track \<Rightarrow> nat \<Rightarrow> bool" where
  "ring_sync raw y = (\<not> tbit raw y \<and> (\<forall>i < 10. tbit raw (y + (ring_size raw - 10) + i)))"

lemma tbit_cong: "x mod ring_size raw = y mod ring_size raw \<Longrightarrow> tbit raw x = tbit raw y"
  by (metis tbit_mod)

lemma tbit_add_ring [simp]: "tbit raw (x + ring_size raw) = tbit raw x"
  by (rule tbit_cong) simp

lemma ring_sync_cong: "x mod ring_size raw = y mod ring_size raw \<Longrightarrow> ring_sync raw x = ring_sync raw y"
proof -
  assume e: "x mod ring_size raw = y mod ring_size raw"
  have "tbit raw (x + k) = tbit raw (y + k)" for k
    by (rule tbit_cong) (metis e mod_add_left_eq)
  from this [of 0] this show ?thesis by (simp add: ring_sync_def add.assoc)
qed

lemma ring_sync_mod [simp]: "ring_sync raw (x mod ring_size raw) = ring_sync raw x"
  by (rule ring_sync_cong) simp

lemma ring_sync_offset:
  assumes "10 \<le> m" "10 \<le> ring_size raw"
  shows "sync_end (\<lambda>k. tbit raw (s + k)) m \<longleftrightarrow> ring_sync raw (s + m)"
proof -
  have "s + m + (ring_size raw - 10) + i = s + (m - 10 + i) + ring_size raw" for i using assms by simp
  then have *: "tbit raw (s + m + (ring_size raw - 10) + i) = tbit raw (s + (m - 10 + i))" for i
    by (metis tbit_add_ring)
  have "(\<forall>i < 10. tbit raw (s + (m - 10 + i))) \<longleftrightarrow> (\<forall>j. m - 10 \<le> j \<and> j < m \<longrightarrow> tbit raw (s + j))"
  proof
    assume L: "\<forall>i < 10. tbit raw (s + (m - 10 + i))"
    show "\<forall>j. m - 10 \<le> j \<and> j < m \<longrightarrow> tbit raw (s + j)"
    proof (intro allI impI)
      fix j assume j: "m - 10 \<le> j \<and> j < m"
      then have "j = m - 10 + (j - (m - 10))" "j - (m - 10) < 10" using assms(1) by linarith+
      with L show "tbit raw (s + j)" by metis
    qed
  next
    assume R: "\<forall>j. m - 10 \<le> j \<and> j < m \<longrightarrow> tbit raw (s + j)"
    show "\<forall>i < 10. tbit raw (s + (m - 10 + i))"
    proof (intro allI impI)
      fix i :: nat assume "i < 10"
      then have "m - 10 \<le> m - 10 + i \<and> m - 10 + i < m" using assms(1) by linarith
      with R show "tbit raw (s + (m - 10 + i))" by blast
    qed
  qed
  with * assms(1) show ?thesis by (simp add: sync_end_def ring_sync_def)
qed

text \<open>No sync ends within ten bits after a zero bit.\<close>

lemma ring_sync_apart:
  assumes "\<not> tbit raw s" "ring_sync raw (s + m)" "0 < m" "10 \<le> ring_size raw"
  shows "10 \<le> m \<or> ring_size raw \<le> m"
proof (rule ccontr)
  assume "\<not> (10 \<le> m \<or> ring_size raw \<le> m)"
  then have "m < 10" by simp
  then have "s + m + (ring_size raw - 10) + (10 - m) = s + ring_size raw" using assms(4) by simp
  moreover have "10 - m < 10" using assms(3) by simp
  then have "tbit raw (s + m + (ring_size raw - 10) + (10 - m))"
    using assms(2) unfolding ring_sync_def by blast
  ultimately show False using assms(1) by (metis tbit_add_ring)
qed

text \<open>The search from \<open>s\<close> over one turn, in terms of the ring.\<close>

lemma find_sync_ring:
  assumes "track_ok raw" "s < ring_size raw" "10 \<le> ring_size raw" "10 \<le> d" "d < n" "ring_sync raw (s + d)"
  shows "\<exists>m. 10 \<le> m \<and> m \<le> d \<and> ring_sync raw (s + m) \<and>
    gcr_find_sync raw (int s) n = int ((s + m) mod ring_size raw)"
proof -
  have "sync_end (\<lambda>k. tbit raw (s + k)) d" using assms by (simp add: ring_sync_offset)
  then obtain m where m: "m \<le> d" "sync_scan (\<lambda>k. tbit raw (s + k)) 0 0 n = Some m"
    using sync_scan_complete [of "\<lambda>k. tbit raw (s + k)" d 0 n 0] assms(5) by auto
  then have "sync_end (\<lambda>k. tbit raw (s + k)) m" using sync_scan_found [OF m(2)] by simp
  then have "10 \<le> m" "ring_sync raw (s + m)"
    using ring_sync_offset [of m raw s] assms(3) by (auto simp: sync_end_def)
  with m gcr_find_sync_scan [OF assms(1,2), of n] show ?thesis by auto
qed

subsection \<open>The header search\<close>

text \<open>
  A header the search stops at: one of the wanted sector, or a corrupt one. \<open>sector\<close> is
  negative for any sector.
\<close>

definition header_match :: "byte list \<Rightarrow> int \<Rightarrow> bool" where
  "header_match h sector = (h ! 0 = 0x08 \<and> h ! 1 XOR h ! 2 XOR h ! 3 XOR h ! 4 XOR h ! 5 = 0 \<and>
     (sector < 0 \<or> uint (h ! 2) = sector))"

definition header_stops :: "byte list \<Rightarrow> int \<Rightarrow> bool" where
  "header_stops h sector = (h ! 0 = 0x08 \<and>
     (h ! 1 XOR h ! 2 XOR h ! 3 XOR h ! 4 XOR h ! 5 \<noteq> 0 \<or> sector < 0 \<or> uint (h ! 2) = sector))"

definition header_id :: "byte list \<Rightarrow> nat" where
  "header_id h = unat (h ! 4) * 256 + unat (h ! 5)"

lemma header_loop_match:
  assumes "gcr_find_sync raw s (track_size raw * 8) = p" "p2 \<noteq> p" "header_match (gcr_decode_block raw p 2) sector"
  shows "header_loop raw s p2 h0 sector pid =
    Some (p, p, gcr_decode_block raw p 2, header_id (gcr_decode_block raw p 2))"
  using assms by (subst header_loop.simps) (auto simp: Let_def header_match_def header_id_def)

lemma header_loop_next:
  assumes "gcr_find_sync raw s (track_size raw * 8) = p" "p2 \<noteq> p" "\<not> header_stops (gcr_decode_block raw p 2) sector"
  shows "\<exists>h0' pid'. header_loop raw s p2 h0 sector pid = header_loop raw p (if p2 < 0 then p else p2) h0' sector pid'"
  using assms by (subst header_loop.simps) (auto simp: Let_def header_stops_def)

text \<open>
  The form of a track for the search: \<open>h\<close> is the place of the header, and no other sync of the
  ring is followed by a header the search would stop at.
\<close>

definition header_at :: "disk_track \<Rightarrow> int \<Rightarrow> nat \<Rightarrow> bool" where
  "header_at raw sector h = (track_ok raw \<and> 10 \<le> ring_size raw \<and> h < ring_size raw \<and> ring_sync raw h \<and>
     header_match (gcr_decode_block raw (int h) 2) sector \<and>
     (\<forall>s < ring_size raw. ring_sync raw s \<longrightarrow> s \<noteq> h \<longrightarrow> \<not> header_stops (gcr_decode_block raw (int s) 2) sector))"

text \<open>
  More generally, a track with a header at \<open>h\<close> and without corrupt headers; there may be other
  headers the search stops at.
\<close>

definition header_on :: "disk_track \<Rightarrow> int \<Rightarrow> nat \<Rightarrow> bool" where
  "header_on raw sector h = (track_ok raw \<and> 10 \<le> ring_size raw \<and> h < ring_size raw \<and> ring_sync raw h \<and>
     header_match (gcr_decode_block raw (int h) 2) sector \<and>
     (\<forall>s < ring_size raw. ring_sync raw s \<longrightarrow> header_stops (gcr_decode_block raw (int s) 2) sector \<longrightarrow>
        header_match (gcr_decode_block raw (int s) 2) sector))"

lemma header_at_on: "header_at raw sector h \<Longrightarrow> header_on raw sector h"
  unfolding header_at_def header_on_def by blast

text \<open>What a successful search returns, for the header at \<open>h\<close>.\<close>

abbreviation (input) found_header :: "disk_track \<Rightarrow> nat \<Rightarrow> (int \<times> int \<times> byte list \<times> nat) option" where
  "found_header raw h \<equiv> Some (int h, int h, gcr_decode_block raw (int h) 2, header_id (gcr_decode_block raw (int h) 2))"

definition header_found :: "disk_track \<Rightarrow> int \<Rightarrow> (int \<times> int \<times> byte list \<times> nat) option \<Rightarrow> bool" where
  "header_found raw sector r = (\<exists>h < ring_size raw. ring_sync raw h \<and> header_match (gcr_decode_block raw (int h) 2) sector \<and>
     r = found_header raw h)"

lemma header_match_stops: "header_match h sector \<Longrightarrow> header_stops h sector"
  by (auto simp: header_match_def header_stops_def)

lemma header_found_only:
  assumes "header_at raw sector h" "header_found raw sector r"
  shows "r = found_header raw h"
  using assms header_match_stops unfolding header_at_def header_found_def by blast

text \<open>The first sync behind a place is a header that matches, or the search goes on from there.\<close>

lemma header_loop_step:
  assumes "header_on raw sector h" "gcr_find_sync raw (int s) (track_size raw * 8) = int p" "p < ring_size raw" "ring_sync raw p" "p2 \<noteq> int p"
  shows "header_found raw sector (header_loop raw (int s) p2 h0 sector pid) \<or>
    p \<noteq> h \<and> (\<exists>h0' pid'. header_loop raw (int s) p2 h0 sector pid = header_loop raw (int p) (if p2 < 0 then int p else p2) h0' sector pid')"
proof (cases "header_match (gcr_decode_block raw (int p) 2) sector")
  case True
  then show ?thesis using header_loop_match [OF assms(2,5) True, of h0 pid] assms(3,4) unfolding header_found_def by blast
next
  case False
  then have "\<not> header_stops (gcr_decode_block raw (int p) 2) sector" "p \<noteq> h"
    using assms(1,3,4) unfolding header_on_def by blast+
  then show ?thesis using header_loop_next [OF assms(2,5)] by blast
qed

text \<open>From a sync other than \<open>h\<close> the search comes to \<open>h\<close>, unless it stops before; \<open>d\<close> is the distance.\<close>

lemma header_loop_reaches:
  assumes "header_on raw sector h" "s < ring_size raw" "\<not> tbit raw s" "0 < d" "d < ring_size raw"
    "(s + d) mod ring_size raw = h" "\<forall>j. 0 < j \<and> j \<le> d \<longrightarrow> p2 \<noteq> int ((s + j) mod ring_size raw)"
  shows "header_found raw sector (header_loop raw (int s) p2 h0 sector pid)"
  using assms(2-)
proof (induction d arbitrary: s p2 h0 pid rule: less_induct)
  case (less d)
  have H: "track_ok raw" "10 \<le> ring_size raw" "ring_sync raw h" using assms(1) by (simp_all add: header_on_def)
  have sync: "ring_sync raw (s + d)" using H(3) less.prems(5) by (metis ring_sync_mod)
  then have "10 \<le> d" using ring_sync_apart [OF less.prems(2) sync less.prems(3) H(2)] less.prems(4) by simp
  then obtain m where m: "10 \<le> m" "m \<le> d" "ring_sync raw (s + m)"
    "gcr_find_sync raw (int s) (ring_size raw) = int ((s + m) mod ring_size raw)"
    using find_sync_ring [OF H(1) less.prems(1) H(2) _ less.prems(4) sync] by blast
  let ?p = "(s + m) mod ring_size raw"
  have find: "gcr_find_sync raw (int s) (track_size raw * 8) = int ?p" using m(4) by (simp add: mult.commute)
  have p2: "p2 \<noteq> int ?p" using less.prems(6) m(1,2) by simp
  have p: "?p < ring_size raw" "ring_sync raw ?p" using H(2) m(3) by auto
  from header_loop_step [OF assms(1) find p p2, of h0 pid] show ?case
  proof
    assume "?p \<noteq> h \<and> (\<exists>h0' pid'. header_loop raw (int s) p2 h0 sector pid =
        header_loop raw (int ?p) (if p2 < 0 then int ?p else p2) h0' sector pid')"
    then obtain h0' pid' where ne: "?p \<noteq> h" and next': "header_loop raw (int s) p2 h0 sector pid =
        header_loop raw (int ?p) (if p2 < 0 then int ?p else p2) h0' sector pid'" by blast
    have md: "m \<noteq> d" using ne less.prems(5) by auto
    have shift: "(?p + j) mod ring_size raw = (s + (m + j)) mod ring_size raw" for j by (simp add: mod_simps add.assoc)
    have "(if p2 < 0 then int ?p else p2) \<noteq> int ((?p + j) mod ring_size raw)" if j: "0 < j" "j \<le> d - m" for j
    proof (cases "p2 < 0")
      case True
      have "(s + m) mod ring_size raw \<noteq> (s + (m + j)) mod ring_size raw"
      proof -
        have "m < ring_size raw" "m + j < ring_size raw" using j m(2) less.prems(4) by linarith+
        then show ?thesis using ring_index_inj [of m "ring_size raw" "m + j" s] j(1) by auto
      qed
      with True show ?thesis by (simp add: shift)
    next
      case False
      then show ?thesis using less.prems(6) j m(2) by (simp add: shift)
    qed
    moreover have "(?p + (d - m)) mod ring_size raw = h" unfolding shift using less.prems(5) m(2) by simp
    moreover have "\<not> tbit raw ?p" using m(3) by (simp add: ring_sync_def tbit_mod)
    ultimately show ?thesis
      unfolding next' using md m(1,2) less.prems(4) p by (intro less.IH [of "d - m"]) auto
  qed
qed

lemma ring_offset:
  assumes "s < n" "x < (n :: nat)"
  shows "\<exists>d < n. (s + d) mod n = x"
proof (cases "s \<le> x")
  case True
  then show ?thesis using assms by (intro exI [of _ "x - s"]) simp
next
  case False
  then show ?thesis using assms by (intro exI [of _ "x + n - s"]) (simp add: le_mod_geq)
qed

text \<open>From any position, if there is a second sync.\<close>

lemma some_header_search:
  assumes "header_on raw sector h" "s < ring_size raw" "q < ring_size raw" "ring_sync raw q" "q \<noteq> h"
  shows "header_found raw sector (gcr_read_sector_header raw (int s) h0 sector pid)"
proof -
  have H: "track_ok raw" "10 \<le> ring_size raw" "ring_sync raw h" "h < ring_size raw"
    using assms(1) by (simp_all add: header_on_def)
  obtain a b where ab: "a < ring_size raw" "(s + a) mod ring_size raw = h" "b < ring_size raw" "(s + b) mod ring_size raw = q"
    using ring_offset [OF assms(2) H(4)] ring_offset [OF assms(2,3)] by blast
  have sy: "ring_sync raw (s + a)" "ring_sync raw (s + b)" using ab H(3) assms(4) by (metis ring_sync_mod)+
  have "10 \<le> a \<or> 10 \<le> b"
  proof (rule ccontr)
    assume n: "\<not> (10 \<le> a \<or> 10 \<le> b)"
    have *: False if "x < y" "y < 10" "ring_sync raw (s + x)" "ring_sync raw (s + y)" for x y
      using ring_sync_apart [of raw "s + x" "y - x"] that H(2) by (auto simp: ring_sync_def)
    have "a \<noteq> b" using ab assms(5) by auto
    with n * [of a b] * [of b a] sy show False by linarith
  qed
  then obtain d where "10 \<le> d" "d < ring_size raw" "ring_sync raw (s + d)" using ab sy by blast
  then obtain m where m: "10 \<le> m" "m < ring_size raw" "ring_sync raw (s + m)"
    "gcr_find_sync raw (int s) (ring_size raw) = int ((s + m) mod ring_size raw)"
    using find_sync_ring [OF H(1) assms(2) H(2), of d "ring_size raw"] by auto
  let ?p = "(s + m) mod ring_size raw"
  have find: "gcr_find_sync raw (int s) (track_size raw * 8) = int ?p" using m(4) by (simp add: mult.commute)
  have p: "?p < ring_size raw" "ring_sync raw ?p" using H(2) m(3) by auto
  have p2: "- int CBMDOS_FDC_ERR_SYNC \<noteq> int ?p" by simp
  from header_loop_step [OF assms(1) find p p2, of h0 pid] show ?thesis
  proof
    assume "?p \<noteq> h \<and> (\<exists>h0' pid'. header_loop raw (int s) (- int CBMDOS_FDC_ERR_SYNC) h0 sector pid =
        header_loop raw (int ?p) (if - int CBMDOS_FDC_ERR_SYNC < 0 then int ?p else - int CBMDOS_FDC_ERR_SYNC) h0' sector pid')"
    then obtain h0' pid' where ne: "?p \<noteq> h" and
      next': "header_loop raw (int s) (- int CBMDOS_FDC_ERR_SYNC) h0 sector pid =
        header_loop raw (int ?p) (int ?p) h0' sector pid'" by auto
    obtain d where d: "d < ring_size raw" "(?p + d) mod ring_size raw = h" using ring_offset [OF p(1) H(4)] by blast
    have d0: "0 < d" using d ne p by (cases d) auto
    have "int ?p \<noteq> int ((?p + j) mod ring_size raw)" if "0 < j" "j \<le> d" for j
      using ring_index_inj [of 0 "ring_size raw" j ?p] that d(1) p by auto
    moreover have "\<not> tbit raw ?p" using m(3) by (simp add: ring_sync_def tbit_mod)
    ultimately show ?thesis
      unfolding gcr_read_sector_header_def next' using d d0 p assms(1) by (intro header_loop_reaches) auto
  qed (simp add: gcr_read_sector_header_def)
qed

lemma header_search:
  assumes "header_at raw sector h" "s < ring_size raw" "q < ring_size raw" "ring_sync raw q" "q \<noteq> h"
  shows "gcr_read_sector_header raw (int s) h0 sector pid = found_header raw h"
  by (rule header_found_only [OF assms(1) some_header_search [OF header_at_on [OF assms(1)] assms(2-5)]])

subsection \<open>Sectors of a track\<close>

text \<open>
  A track on which sector \<open>sector\<close> can be written: its header is at \<open>h\<close>, the sync of its data
  block ends \<open>m\<close> bits behind that, after the header, and the data block does not reach around
  to the sync before the header.
\<close>

definition sector_at :: "disk_track \<Rightarrow> byte \<Rightarrow> nat \<Rightarrow> nat \<Rightarrow> bool" where
  "sector_at raw sector h m = (header_at raw (uint sector) h \<and>
     sync_scan (\<lambda>k. tbit raw (h + k)) 0 0 (500 * 8) = Some m \<and> 80 \<le> m \<and> m + 2610 \<le> ring_size raw)"

lemma sector_at_sync:
  assumes "sector_at raw sector h m"
  shows "gcr_find_sync raw (int h) (500 * 8) = int ((h + m) mod ring_size raw)" "ring_sync raw (h + m)"
    "(h + m) mod ring_size raw \<noteq> h" "(h + m) mod ring_size raw < ring_size raw"
proof -
  have H: "track_ok raw" "h < ring_size raw" "m + 2610 \<le> ring_size raw" "80 \<le> m"
    "sync_scan (\<lambda>k. tbit raw (h + k)) 0 0 (500 * 8) = Some m"
    using assms by (auto simp: sector_at_def header_at_def)
  show "gcr_find_sync raw (int h) (500 * 8) = int ((h + m) mod ring_size raw)"
    using gcr_find_sync_scan [OF H(1,2), of "500 * 8"] H(5) by simp
  have "sync_end (\<lambda>k. tbit raw (h + k)) m" using sync_scan_found [OF H(5)] by simp
  then show "ring_sync raw (h + m)" using H(3,4) by (simp add: ring_sync_offset)
  show "(h + m) mod ring_size raw \<noteq> h"
    using ring_index_inj [of m "ring_size raw" 0 h] H by auto
  show "(h + m) mod ring_size raw < ring_size raw" using H(3) by simp
qed

lemma with_data_block_at:
  assumes "sector_at raw sector h m" "s < ring_size raw"
    "want < 0 \<or> want = int (header_id (gcr_decode_block raw (int h) 2))"
  shows "with_data_block raw (int s) h0 sid0 sector want fail k = Some (k (int ((h + m) mod ring_size raw)), int h)"
proof -
  note S = sector_at_sync [OF assms(1)]
  have "gcr_read_sector_header raw (int s) h0 (uint sector) sid0 =
    Some (int h, int h, gcr_decode_block raw (int h) 2, header_id (gcr_decode_block raw (int h) 2))"
    using S assms(1,2) by (intro header_search [of _ _ _ _ "(h + m) mod ring_size raw"]) (auto simp: sector_at_def)
  then show ?thesis
    using S(1) assms(3) by (auto simp: with_data_block_def gcr_find_sector_header_def Let_def)
qed

subsection \<open>No sync inside a data block\<close>

lemma short_runs_drop: "short_runs c bs \<Longrightarrow> \<exists>c'. short_runs c' (drop i bs)"
proof (induction bs arbitrary: c i)
  case (Cons b bs)
  then show ?case by (cases i) (auto split: if_splits)
qed auto

lemma short_runs_ones: "short_runs c bs \<Longrightarrow> n \<le> length bs \<Longrightarrow> \<forall>j < n. bs ! j \<Longrightarrow> n = 0 \<or> c + n < 10"
proof (induction bs arbitrary: c n)
  case (Cons b bs)
  show ?case
  proof (cases n)
    case (Suc k)
    then have b: "b" "\<forall>j < k. bs ! j" using Cons.prems(3) by (auto simp: nth_Cons split: nat.splits)
    with Cons.IH [of "Suc c" k] Cons.prems(1,2) Suc show ?thesis by auto
  qed simp
qed simp

lemma no_ten_ones:
  assumes "short_runs 0 bs" "i + 10 \<le> length bs"
  shows "\<exists>j < 10. \<not> bs ! (i + j)"
proof (rule ccontr)
  assume "\<not> (\<exists>j < 10. \<not> bs ! (i + j))"
  then have "\<forall>j < 10. drop i bs ! j" using assms(2) by simp
  moreover obtain c where "short_runs c (drop i bs)" using short_runs_drop [OF assms(1), of i] by blast
  moreover have "10 \<le> length (drop i bs)" using assms(2) by simp
  ultimately show False using short_runs_ones [of c "drop i bs" 10] by simp
qed

lemma code_ends: "code_bits 0 = [False, True, False, True, False]"
  by (simp add: code_bits_unfold GCR_conv_data_def)

lemma sector_bits_ends:
  assumes "length data = 256"
  shows "\<not> sector_bits data ! 0" "\<not> sector_bits data ! 2599" "short_runs 0 (sector_bits data)"
    "decode_bits 8 (take 80 (sector_bits data)) ! 0 = 0x07"
proof -
  define xs where "xs = data @ [xor_bytes (tl data) (hd data), 0 :: byte]"
  have sb: "sector_buffer data = 7 # xs @ [0]" "length xs = 258" using assms by (simp_all add: sector_buffer_def xs_def)
  have "unat (drop_bit 4 (7 :: byte)) = 0" "unat (0 :: byte) = 0" by simp_all
  then have n: "nibbles 7 = 0 # tl (nibbles 7)" "nibbles 0 = [0, 0]" by (simp_all add: nibbles_def)
  have "gcr_bits (7 # xs @ [0]) = code_bits 0 @ concat (map code_bits (tl (nibbles 7))) @ gcr_bits xs @ code_bits 0 @ code_bits 0"
    by (subst gcr_bits_simps(2), subst n(1)) (simp add: n(2))
  then have bits: "sector_bits data = code_bits 0 @ concat (map code_bits (tl (nibbles 7))) @ gcr_bits xs @ code_bits 0 @ code_bits 0"
    by (simp add: sector_bits_def sb)
  show "\<not> sector_bits data ! 0" unfolding bits by (simp add: code_ends)
  have "length (concat (map code_bits (tl (nibbles 7)))) = 5" by (simp add: nibbles_def)
  then have "sector_bits data ! 2599 = code_bits 0 ! 4" unfolding bits using sb(2) by (simp add: nth_append)
  then show "\<not> sector_bits data ! 2599" by (simp add: code_ends)
  show "short_runs 0 (sector_bits data)" unfolding sector_bits_def by (rule short_runs_gcr) simp
  have "sector_buffer data = take 8 (sector_buffer data) @ drop 8 (sector_buffer data)" by simp
  then have "sector_bits data = gcr_bits (take 8 (sector_buffer data)) @ gcr_bits (drop 8 (sector_buffer data))"
    unfolding sector_bits_def by (metis gcr_bits_simps(3))
  moreover have "length (take 8 (sector_buffer data)) = 8" using sb by simp
  ultimately have "decode_bits 8 (take 80 (sector_bits data)) = take 8 (sector_buffer data)"
    using decode_gcr_bits [of "take 8 (sector_buffer data)" "[]"] by simp
  then show "decode_bits 8 (take 80 (sector_bits data)) ! 0 = 0x07" by (simp add: sb)
qed

subsection \<open>A sector written\<close>

text \<open>The bits behind the header after a write.\<close>

definition rewritten :: "disk_track \<Rightarrow> disk_track \<Rightarrow> nat \<Rightarrow> nat \<Rightarrow> byte list \<Rightarrow> bool" where
  "rewritten raw raw' h m data = (track_ok raw' \<and> track_size raw' = track_size raw \<and>
     (\<forall>j < m. tbit raw' (h + j) = tbit raw (h + j)) \<and>
     (\<forall>j < 2600. tbit raw' (h + m + j) = sector_bits data ! j) \<and>
     (\<forall>j. m + 2600 \<le> j \<and> j < m + ring_size raw \<longrightarrow> tbit raw' (h + j) = tbit raw (h + j)))"

lemma write_rewrites:
  assumes "sector_at raw sector h m" "length data = 256"
  shows "\<exists>raw'. write_data_block raw data (int ((h + m) mod ring_size raw)) = (CBMDOS_FDC_ERR_OK, raw') \<and>
    rewritten raw raw' h m data"
proof -
  let ?N = "ring_size raw" let ?q = "(h + m) mod ?N"
  have H: "track_ok raw" "m + 2610 \<le> ?N" using assms(1) by (auto simp: sector_at_def header_at_def)
  obtain raw' where w: "write_data_block raw data (int ?q) = (CBMDOS_FDC_ERR_OK, raw')" "track_ok raw'"
    "track_size raw' = track_size raw"
    "\<forall>k < ?N. tbit raw' (?q + k) = (if k < 2600 then sector_bits data ! k else tbit raw (?q + k))"
    using write_data_block_bits [OF H(1) sector_at_sync(4) [OF assms(1)] assms(2)] H(2) by auto
  have cg: "(?q + k) mod ?N = (h + m + k) mod ?N" for k by (simp add: mod_simps)
  have "tbit raw' (?q + k) = tbit raw' (h + m + k)" "tbit raw (?q + k) = tbit raw (h + m + k)" for k
    using cg [of k] w(3) tbit_cong [of "?q + k" raw "h + m + k"] tbit_cong [of "?q + k" raw' "h + m + k"] by simp_all
  with w(4) have new: "tbit raw' (h + m + k) = (if k < 2600 then sector_bits data ! k else tbit raw (h + m + k))"
    if "k < ?N" for k using that by simp
  have late: "tbit raw' (h + j) = tbit raw (h + j)" if j: "m + 2600 \<le> j" "j < m + ?N" for j
  proof -
    have "j - m < ?N" "\<not> j - m < 2600" "h + m + (j - m) = h + j" using j by linarith+
    then show ?thesis using new [of "j - m"] by simp
  qed
  have "tbit raw' (h + j) = tbit raw (h + j)" if "j < m" for j
    using late [of "j + ?N"] that H(2) tbit_add_ring [of raw "h + j"] tbit_add_ring [of raw' "h + j"] w(3)
    by (simp add: add.assoc)
  then have "rewritten raw raw' h m data"
    unfolding rewritten_def using w(2,3) new late H(2) by auto
  with w(1) show ?thesis by blast
qed

lemma rewritten_syncs:
  assumes "sector_at raw sector h m" "rewritten raw raw' h m data" "length data = 256" "j < ring_size raw"
    "ring_sync raw' (h + j)"
  shows "j = m \<or> (j = 0 \<or> m + 2610 \<le> j) \<and> ring_sync raw (h + j)"
proof -
  let ?N = "ring_size raw"
  have H: "m + 2610 \<le> ?N" "80 \<le> m" "ring_sync raw h" "sync_scan (\<lambda>k. tbit raw (h + k)) 0 0 (500 * 8) = Some m"
    using assms(1) by (auto simp: sector_at_def header_at_def)
  have R: "track_size raw' = track_size raw" "\<And>j. j < m \<Longrightarrow> tbit raw' (h + j) = tbit raw (h + j)"
    "\<And>j. j < 2600 \<Longrightarrow> tbit raw' (h + m + j) = sector_bits data ! j"
    "\<And>j. m + 2600 \<le> j \<Longrightarrow> j < m + ?N \<Longrightarrow> tbit raw' (h + j) = tbit raw (h + j)"
    using assms(2) by (auto simp: rewritten_def)
  note ends = sector_bits_ends [OF assms(3)]
  have N: "10 \<le> ring_size raw'" "10 \<le> ring_size raw" using H(1) R(1) by simp_all
  have z: "\<not> tbit raw' (h + 0)" using R(2) [of 0] H(2,3) by (simp add: ring_sync_def)
  consider (zero) "j = 0" | (near) "0 < j" "j < 10" | (before) "10 \<le> j" "j < m" | (at) "j = m"
    | (inside) "m < j" "j < m + 2610" | (behind) "m + 2610 \<le> j" by linarith
  then show ?thesis
  proof cases
    case near
    then show ?thesis using ring_sync_apart [of raw' h j] z assms(4,5) N(1) R(1) by simp
  next
    case before
    have "sync_end (\<lambda>k. tbit raw' (h + k)) j" using before assms(5) N(1) by (simp add: ring_sync_offset)
    then have "sync_end (\<lambda>k. tbit raw (h + k)) j" using R(2) before by (simp add: sync_end_def)
    moreover have "j < 500 * 8" using sync_scan_found [OF H(4)] before by simp
    ultimately have "\<exists>m' \<le> j. sync_scan (\<lambda>k. tbit raw (h + k)) 0 0 (500 * 8) = Some m'"
      by (intro sync_scan_complete) auto
    with H(4) before show ?thesis by auto
  next
    case inside
    have "10 \<le> j" using inside H(2) by simp
    then have se: "sync_end (\<lambda>k. tbit raw' (h + k)) j" using assms(5) N(1) by (simp add: ring_sync_offset)
    have one: "sector_bits data ! k" if "k < 2600" "j - 10 \<le> m + k" "m + k < j" for k
      using se that R(3) [of k] unfolding sync_end_def by (auto simp: add.assoc)
    consider "j \<le> m + 10" | "m + 10 < j" "j \<le> m + 2600" | "m + 2600 < j" by linarith
    then show ?thesis
    proof cases
      case 1
      then show ?thesis using one [of 0] inside ends(1) by (auto simp: le_diff_conv)
    next
      case 2
      then have "j - 10 - m + 10 \<le> length (sector_bits data)" using assms(3) by simp
      then obtain i where i: "i < 10" "\<not> sector_bits data ! (j - 10 - m + i)"
        using no_ten_ones [OF ends(3)] by blast
      moreover have "j - 10 - m + i < 2600" "j - 10 \<le> m + (j - 10 - m + i)" "m + (j - 10 - m + i) < j"
        using i(1) 2 by linarith+
      ultimately show ?thesis using one by blast
    next
      case 3
      then show ?thesis using one [of 2599] inside ends(2) by (auto simp: le_diff_conv)
    qed
  next
    case behind
    have "10 \<le> j" using behind by simp
    then have "sync_end (\<lambda>k. tbit raw' (h + k)) j" using assms(5) N(1) by (simp add: ring_sync_offset)
    then have "sync_end (\<lambda>k. tbit raw (h + k)) j"
      using R(4) behind assms(4) unfolding sync_end_def by auto
    then show ?thesis using \<open>10 \<le> j\<close> N(2) behind by (simp add: ring_sync_offset)
  qed (use H(3) in auto)
qed

lemma rewritten_header:
  assumes "sector_at raw sector h m" "rewritten raw raw' h m data" "j = 0 \<or> m + 2610 \<le> j" "j < ring_size raw"
  shows "gcr_decode_block raw' (int ((h + j) mod ring_size raw)) 2 =
    gcr_decode_block raw (int ((h + j) mod ring_size raw)) 2"
proof -
  let ?N = "ring_size raw" let ?s = "(h + j) mod ?N"
  have H: "track_ok raw" "80 \<le> m" using assms(1) by (auto simp: sector_at_def header_at_def)
  have R: "track_ok raw'" "track_size raw' = track_size raw" "\<And>j. j < m \<Longrightarrow> tbit raw' (h + j) = tbit raw (h + j)"
    "\<And>j. m + 2600 \<le> j \<Longrightarrow> j < m + ?N \<Longrightarrow> tbit raw' (h + j) = tbit raw (h + j)"
    using assms(2) by (auto simp: rewritten_def)
  have s: "?s < ?N" using assms(4) by simp
  have "tbits raw' (h + j) 80 = tbits raw (h + j) 80"
    using R(3,4) assms(3,4) H(2) by (intro nth_equalityI) (auto simp: add.assoc)
  moreover have "tbits raw' ?s 80 = tbits raw' (h + j) 80" "tbits raw ?s 80 = tbits raw (h + j) 80"
    using tbits_cong [of ?s raw "h + j" 80] tbits_cong [of ?s raw' "h + j" 80] R(2) by simp_all
  ultimately show ?thesis
    using gcr_decode_block_bits [OF H(1) s, of 2] gcr_decode_block_bits [OF R(1), of ?s 2] s R(2) by simp
qed

text \<open>Each sync of the track is that of the data block, or one with the header it had before.\<close>

lemma rewritten_sync_header:
  assumes "sector_at raw sector h m" "rewritten raw raw' h m data" "length data = 256" "s < ring_size raw" "ring_sync raw' s"
  shows "gcr_decode_block raw' (int s) 2 ! 0 = 0x07 \<or>
    ring_sync raw s \<and> gcr_decode_block raw' (int s) 2 = gcr_decode_block raw (int s) 2"
proof -
  let ?N = "ring_size raw"
  have h: "h < ?N" using assms(1) by (simp add: sector_at_def header_at_def)
  have R: "track_ok raw'" "track_size raw' = track_size raw" "\<And>j. j < 2600 \<Longrightarrow> tbit raw' (h + m + j) = sector_bits data ! j"
    using assms(2) by (auto simp: rewritten_def)
  obtain j where j: "j < ?N" "(h + j) mod ?N = s" using ring_offset [OF h assms(4)] by blast
  then have "ring_sync raw' (h + j)" using assms(5) R(2) by (metis ring_sync_mod)
  from rewritten_syncs [OF assms(1-3) j(1) this] show ?thesis
  proof
    assume jm: "j = m"
    have "tbits raw' (h + m) 80 = take 80 (sector_bits data)"
      using R(3) assms(3) by (intro nth_equalityI) auto
    moreover have "tbits raw' s 80 = tbits raw' (h + m) 80"
      using tbits_cong [of s raw' "h + m" 80] j jm R(2) by auto
    ultimately have "gcr_decode_block raw' (int s) 2 ! 0 = 0x07"
      using gcr_decode_block_bits [OF R(1), of s 2] assms(4) R(2) sector_bits_ends(4) [OF assms(3)] by simp
    then show ?thesis by simp
  next
    assume r: "(j = 0 \<or> m + 2610 \<le> j) \<and> ring_sync raw (h + j)"
    then have "ring_sync raw s" using j(2) by (metis ring_sync_mod)
    then show ?thesis using rewritten_header [OF assms(1,2) _ j(1)] r j(2) by simp
  qed
qed

text \<open>The track keeps its form.\<close>

lemma rewritten_sector_at:
  assumes "sector_at raw sector h m" "rewritten raw raw' h m data" "length data = 256"
  shows "sector_at raw' sector h m"
    and "gcr_decode_block raw' (int h) 2 = gcr_decode_block raw (int h) 2"
proof -
  let ?N = "ring_size raw"
  have H: "track_ok raw" "h < ?N" "m + 2610 \<le> ?N" "80 \<le> m" "ring_sync raw h"
    "header_match (gcr_decode_block raw (int h) 2) (uint sector)"
    "\<And>s. s < ?N \<Longrightarrow> ring_sync raw s \<Longrightarrow> s \<noteq> h \<Longrightarrow> \<not> header_stops (gcr_decode_block raw (int s) 2) (uint sector)"
    "sync_scan (\<lambda>k. tbit raw (h + k)) 0 0 (500 * 8) = Some m"
    using assms(1) by (auto simp: sector_at_def header_at_def)
  have R: "track_ok raw'" "track_size raw' = track_size raw" "\<And>j. j < m \<Longrightarrow> tbit raw' (h + j) = tbit raw (h + j)"
    "\<And>j. j < 2600 \<Longrightarrow> tbit raw' (h + m + j) = sector_bits data ! j"
    "\<And>j. m + 2600 \<le> j \<Longrightarrow> j < m + ?N \<Longrightarrow> tbit raw' (h + j) = tbit raw (h + j)"
    using assms(2) by (auto simp: rewritten_def)
  note ends = sector_bits_ends [OF assms(3)]
  show dec: "gcr_decode_block raw' (int h) 2 = gcr_decode_block raw (int h) 2"
    using rewritten_header [OF assms(1,2), of 0] H(2) by simp
  have zero: "\<not> tbit raw (h + m)" using sync_scan_found [OF H(8)] by (simp add: sync_end_def)
  have scan: "sync_scan (\<lambda>k. tbit raw' (h + k)) 0 0 (500 * 8) = Some m"
  proof (rule sync_scan_prefix [OF H(8)])
    fix j assume "j \<le> m"
    then show "tbit raw (h + j) = tbit raw' (h + j)"
      using R(3) [of j] R(4) [of 0] zero ends(1) by (cases "j = m") auto
  qed
  have N: "10 \<le> ring_size raw'" "10 \<le> ?N" using H(3) R(2) by simp_all
  have "tbit raw' (h + (?N - 10 + i)) = tbit raw (h + (?N - 10 + i))" if "i < 10" for i
    using R(5) [of "?N - 10 + i"] that H(3) by simp
  then have hs: "ring_sync raw' h"
    using H(4,5) R(2) R(3) [of 0] by (simp add: ring_sync_def add.assoc)
  have "\<not> header_stops (gcr_decode_block raw' (int s) 2) (uint sector)"
    if s: "s < ?N" "ring_sync raw' s" "s \<noteq> h" for s
    using rewritten_sync_header [OF assms s(1,2)] H(7) [OF s(1) _ s(3)] by (auto simp: header_stops_def)
  with hs scan dec H(2-4,6) R(1,2) N show "sector_at raw' sector h m"
    by (simp add: sector_at_def header_at_def)
qed

lemma write_then_read:
  assumes "sector_at raw sector h m" "s < 8 * track_size raw" "s' < 8 * track_size raw" "length data = 256"
    "want < 0 \<or> want = int (header_id (gcr_decode_block raw (int h) 2))"
  shows "\<exists>raw'. gcr_write_sector raw (int s) h0 sid0 data sector want = Some ((CBMDOS_FDC_ERR_OK, raw'), int h) \<and>
    gcr_read_sector raw' (int s') h0' sid0' old sector want = Some ((CBMDOS_FDC_ERR_OK, data), int h) \<and>
    sector_at raw' sector h m \<and> rewritten raw raw' h m data \<and>
    gcr_decode_block raw' (int h) 2 = gcr_decode_block raw (int h) 2"
proof -
  obtain raw' where w: "write_data_block raw data (int ((h + m) mod ring_size raw)) = (CBMDOS_FDC_ERR_OK, raw')"
    "rewritten raw raw' h m data" using write_rewrites [OF assms(1,4)] by blast
  note S = rewritten_sector_at [OF assms(1) w(2) assms(4)]
  have R: "track_ok raw'" "track_size raw' = track_size raw" "\<And>j. j < 2600 \<Longrightarrow> tbit raw' (h + m + j) = sector_bits data ! j"
    using w(2) by (auto simp: rewritten_def)
  let ?q = "(h + m) mod ring_size raw'"
  have "tbits raw' (h + m) 2600 = sector_bits data"
    using R(3) assms(4) by (intro nth_equalityI) simp_all
  then have "tbits raw' ?q 2600 = sector_bits data" using tbits_cong [of ?q raw' "h + m" 2600] by simp
  then have "read_data_block raw' (int ?q) = (CBMDOS_FDC_ERR_OK, data)"
    using read_data_block_bits [OF R(1) sector_at_sync(4) [OF S(1)] assms(4)] by simp
  then have "gcr_read_sector raw' (int s') h0' sid0' old sector want = Some ((CBMDOS_FDC_ERR_OK, data), int h)"
    unfolding gcr_read_sector_def using assms(3,5) R(2) S(2) by (subst with_data_block_at [OF S(1)]) simp_all
  moreover have "gcr_write_sector raw (int s) h0 sid0 data sector want = Some ((CBMDOS_FDC_ERR_OK, raw'), int h)"
    unfolding gcr_write_sector_def using w(1) by (subst with_data_block_at [OF assms(1,2,5)]) simp
  ultimately show ?thesis using S w(2) by blast
qed

subsection \<open>Properties\<close>

text \<open>
  Group coded recording is lossless: five GCR bytes made from four bytes convert back to
  them.
\<close>

theorem gcr_codec_roundtrip:
  assumes "length xs = 4"
  shows "gcr_convert_GCR_to_4bytes (gcr_convert_4bytes_to_GCR xs) = xs"
  using decode_bits_eq [of "gcr_convert_4bytes_to_GCR xs"] encode_bits_gcr [OF assms] decode_gcr_bits [of xs "[]"] assms
  by simp

theorem gcr_codec_roundtrip_witness:
  "gcr_convert_GCR_to_4bytes (gcr_convert_4bytes_to_GCR [0x08, 0x2a, 0x00, 0xff]) = [0x08, 0x2a, 0x00, 0xff]"
  by (rule gcr_codec_roundtrip) simp

text \<open>
  Encoded data never looks like a sync: in the bits of any number of encoded groups of
  four bytes no ten one bits follow each other, which is what the sync search looks for.
\<close>

theorem gcr_data_no_sync:
  assumes "length xs = 4 * n" "i + 10 \<le> 8 * length (encode_blocks xs)"
  shows "\<exists>j < 10. \<not> concat (map byte_bits (encode_blocks xs)) ! (i + j)"
  using no_ten_ones [OF short_runs_gcr [of 0 xs], of i] encode_blocks_bits [OF assms(1)] assms by simp

theorem gcr_data_no_sync_witness:
  "\<exists>j < 10. \<not> concat (map byte_bits (encode_blocks [0xff, 0xff, 0xff, 0xff])) ! (7 + j)"
  by (rule gcr_data_no_sync [where n = 1]) (simp_all add: gcr_convert_4bytes_to_GCR_def Let_def)

text \<open>
  C24. Reading a sector of a raw track gives back what was written to it. The header is found
  from every position the search can start at, the write returns OK at any bit alignment and
  across the end of the track, the read returns OK and the data, and the track keeps its form,
  so that both can be repeated.
\<close>

theorem gcr_sector_roundtrip:
  assumes "sector_at raw sector h m" "s < 8 * track_size raw" "s' < 8 * track_size raw" "length data = 256"
    "want < 0 \<or> want = int (header_id (gcr_decode_block raw (int h) 2))"
  shows "\<exists>raw'. gcr_write_sector raw (int s) h0 sid0 data sector want = Some ((CBMDOS_FDC_ERR_OK, raw'), int h) \<and>
    gcr_read_sector raw' (int s') h0' sid0' old sector want = Some ((CBMDOS_FDC_ERR_OK, data), int h) \<and>
    sector_at raw' sector h m"
  using write_then_read [OF assms] by blast

text \<open>A formatted track with one sector, for the witness, and all syncs of a ring as a list.\<close>

fun all_syncs :: "bool list \<Rightarrow> nat \<Rightarrow> nat \<Rightarrow> nat list" where
  "all_syncs [] c k = []"
| "all_syncs (b # bs) c k =
    (if b then all_syncs bs (Suc c) (Suc k)
     else if c \<ge> 10 then k # all_syncs bs 0 (Suc k)
     else all_syncs bs 0 (Suc k))"

lemma all_syncs_complete:
  assumes "ring_sync raw s" "k \<le> s" "s < k + length bs" "\<forall>i < length bs. bs ! i = tbit raw (k + i)"
    "c < 10 \<longrightarrow> \<not> tbit raw (k + (ring_size raw - c - 1))" "10 \<le> ring_size raw"
  shows "s \<in> set (all_syncs bs c k)"
  using assms(2-5)
proof (induction bs arbitrary: c k)
  case (Cons b bs)
  have b: "b = tbit raw k" using Cons.prems(3) by force
  have tl: "\<forall>i < length bs. bs ! i = tbit raw (Suc k + i)" using Cons.prems(3) by force
  show ?case
  proof (cases b)
    case True
    then have "s \<noteq> k" using b assms(1) by (auto simp: ring_sync_def)
    moreover have "\<not> tbit raw (Suc k + (ring_size raw - Suc c - 1))" if "Suc c < 10"
      using Cons.prems(4) that assms(6) by (simp add: Suc_diff_Suc)
    ultimately show ?thesis using Cons.IH [of "Suc k" "Suc c"] Cons.prems(1,2) tl True by simp
  next
    case False
    have c: "10 \<le> c" if "s = k"
    proof (rule ccontr)
      assume n: "\<not> 10 \<le> c"
      then have "k + (ring_size raw - 10) + (9 - c) = k + (ring_size raw - c - 1)" using assms(6) by linarith
      moreover have "9 - c < 10" by simp
      ultimately have "tbit raw (k + (ring_size raw - c - 1))" using assms(1) that unfolding ring_sync_def by metis
      with Cons.prems(4) n show False by simp
    qed
    have "Suc k + (ring_size raw - 0 - 1) = k + ring_size raw" using assms(6) by simp
    then have "\<not> tbit raw (Suc k + (ring_size raw - 0 - 1))" using False b by (metis tbit_add_ring)
    then have "s \<in> set (all_syncs bs 0 (Suc k))" if "s \<noteq> k"
      using Cons.IH [of "Suc k" 0] Cons.prems(1,2) tl that by simp
    with c False show ?thesis by auto
  qed
qed simp

lemma all_syncs_gap:
  "c < 10 \<Longrightarrow> all_syncs (concat (map byte_bits (replicate n 0x55)) @ rest) c k =
    all_syncs rest (if n = 0 then c else 1) (k + 8 * n)"
proof (induction n arbitrary: c k)
  case (Suc n)
  then show ?case by (simp add: byte_bits_unfold eval_nat_numeral)
qed simp

definition one_sector_track :: disk_track where
  "one_sector_track =
    (let d = replicate 5 0xff @ gcr_convert_4bytes_to_GCR [0x08, 0x13, 0x00, 0x12] @
           gcr_convert_4bytes_to_GCR [0x30, 0x31, 0x0f, 0x0f] @ replicate 9 0x55 @ replicate 5 0xff @ replicate 330 0x55 in
     \<lparr>track_data = Some d, track_size = 359\<rparr>)"

lemma ring_syncs_bytes:
  assumes "track_ok raw" "10 \<le> ring_size raw" "\<not> bit (last (the (track_data raw))) 1" "ring_sync raw s" "s < ring_size raw"
  shows "s \<in> set (all_syncs (concat (map byte_bits (the (track_data raw)))) 1 0)"
proof (rule all_syncs_complete [OF assms(4)])
  let ?d = "the (track_data raw)"
  have d: "length ?d = track_size raw" "?d \<noteq> []" using assms(1) by (auto simp: track_ok_def)
  have len: "length (concat (map byte_bits xs)) = 8 * length xs" for xs by (induction xs) simp_all
  show "s < 0 + length (concat (map byte_bits ?d))" using assms(5) d by (simp add: len)
  show "\<forall>i < length (concat (map byte_bits ?d)). concat (map byte_bits ?d) ! i = tbit raw (0 + i)"
  proof (intro allI impI)
    fix i assume "i < length (concat (map byte_bits ?d))"
    then have "i div 8 < length ?d" by (simp add: len div_less_iff_less_mult mult.commute)
    from nth_concat_bytes [OF this, of "i mod 8"] this d(1) show "concat (map byte_bits ?d) ! i = tbit raw (0 + i)"
      by (simp add: tbit_def)
  qed
  have "8 * track_size raw - 2 = 8 * (track_size raw - 1) + 6" using d by (cases "track_size raw") auto
  then have q: "(8 * track_size raw - 2) div 8 = track_size raw - 1" "(8 * track_size raw - 2) mod 8 = 6" by simp_all
  have "\<not> tbit raw (8 * track_size raw - 2)"
    unfolding tbit_def q using assms(1,3) d by (simp add: last_conv_nth track_ok_def)
  then show "1 < 10 \<longrightarrow> \<not> tbit raw (0 + (ring_size raw - 1 - 1))" by (simp add: numeral_2_eq_2)
qed (use assms in auto)

lemma one_sector_bytes:
  "the (track_data one_sector_track) = replicate 5 0xff @ [82, 87, 53, 41, 114] @ [154, 166, 181, 85, 85] @ replicate 9 0x55 @ replicate 5 0xff @ replicate 330 0x55"
  "track_size one_sector_track = 359"
proof -
  have "gcr_convert_4bytes_to_GCR [0x08, 0x13, 0x00, 0x12] = [82, 87, 53, 41, 114]"
    "gcr_convert_4bytes_to_GCR [0x30, 0x31, 0x0f, 0x0f] = [154, 166, 181, 85, 85]" by code_simp+
  then show "the (track_data one_sector_track) = replicate 5 0xff @ [82, 87, 53, 41, 114] @ [154, 166, 181, 85, 85] @ replicate 9 0x55 @ replicate 5 0xff @ replicate 330 0x55"
    "track_size one_sector_track = 359" by (simp_all add: one_sector_track_def Let_def)
qed

lemma one_sector_ok: "track_ok one_sector_track" "\<not> bit (last (the (track_data one_sector_track))) 1"
  by (simp_all add: track_ok_def one_sector_bytes) (simp add: one_sector_track_def)

lemma all_syncs_ones:
  "all_syncs (concat (map byte_bits (replicate n 0xff)) @ rest) c k = all_syncs rest (c + 8 * n) (k + 8 * n)"
proof (induction n arbitrary: c k)
  case (Suc n)
  then show ?case by (simp add: byte_bits_unfold eval_nat_numeral)
qed simp

lemma all_syncs_gap_end:
  assumes "10 \<le> c" "0 < n"
  shows "all_syncs (concat (map byte_bits (replicate n 0x55))) c k = [k]"
proof -
  obtain n' where n': "n = Suc n'" using assms(2) by (cases n) auto
  have "all_syncs (concat (map byte_bits (replicate n' 0x55))) 1 k' = []" for k'
    using all_syncs_gap [of 1 n' "[]" k'] by simp
  then show ?thesis using assms(1) by (simp add: n' byte_bits_unfold)
qed

lemma one_sector_syncs:
  "all_syncs (concat (map byte_bits (the (track_data one_sector_track)))) 1 0 = [40, 232]"
  unfolding one_sector_bytes map_append concat_append
  by (simp add: all_syncs_gap all_syncs_ones all_syncs_gap_end byte_bits_unfold del: map_replicate)

lemma ff_bits:
  assumes "the (track_data raw) ! (j div 8 mod track_size raw) = 0xff"
  shows "tbit raw j"
proof -
  have ff: "(0xff :: byte) = mask 8" by (simp add: mask_numeral)
  have "bit (mask 8 :: byte) (7 - j mod 8)" unfolding bit_mask_iff by simp
  then show ?thesis unfolding tbit_def assms ff .
qed

lemma one_sector_sync_at: "ring_sync one_sector_track 40" "ring_sync one_sector_track 232"
proof -
  let ?t = one_sector_track
  have d: "the (track_data ?t) ! 3 = 0xff" "the (track_data ?t) ! 4 = 0xff" "the (track_data ?t) ! 5 = 82"
    "the (track_data ?t) ! 27 = 0xff" "the (track_data ?t) ! 28 = 0xff" "the (track_data ?t) ! 29 = 0x55"
    by (simp_all add: one_sector_bytes nth_append)
  have ones: "tbit ?t j" if "j div 8 \<in> {3, 4, 27, 28}" for j
    using that d by (intro ff_bits) (auto simp: one_sector_bytes(2))
  have "tbit ?t j" if "30 \<le> j" "j < 40" for j
  proof -
    have "3 \<le> j div 8" "j div 8 < 5" using that by (simp_all add: div_less_iff_less_mult less_eq_div_iff_mult_less_eq)
    then show ?thesis by (intro ones) auto
  qed
  moreover have "\<not> tbit ?t 40" using d by (simp add: tbit_def one_sector_bytes(2))
  ultimately have "sync_end (\<lambda>k. tbit ?t (0 + k)) 40" by (simp add: sync_end_def)
  then show "ring_sync ?t 40" using ring_sync_offset [of 40 ?t 0] by (simp add: one_sector_bytes(2))
  have "tbit ?t j" if "222 \<le> j" "j < 232" for j
  proof -
    have "27 \<le> j div 8" "j div 8 < 29" using that by (simp_all add: div_less_iff_less_mult less_eq_div_iff_mult_less_eq)
    then show ?thesis by (intro ones) auto
  qed
  moreover have "\<not> tbit ?t 232" using d by (simp add: tbit_def one_sector_bytes(2))
  ultimately have "sync_end (\<lambda>k. tbit ?t (0 + k)) 232" by (simp add: sync_end_def)
  then show "ring_sync ?t 232" using ring_sync_offset [of 232 ?t 0] by (simp add: one_sector_bytes(2))
qed

lemma one_sector_headers:
  "header_match (gcr_decode_block one_sector_track 40 2) 0" "\<not> header_stops (gcr_decode_block one_sector_track 232 2) 0"
  by code_simp+

lemma one_sector_only: "ring_sync one_sector_track s \<Longrightarrow> s < 2872 \<Longrightarrow> s = 40 \<or> s = 232"
  using ring_syncs_bytes [OF one_sector_ok(1) _ one_sector_ok(2), of s] one_sector_syncs by (simp add: one_sector_bytes(2))

lemma one_sector_at: "sector_at one_sector_track 0x00 40 192"
proof -
  let ?t = one_sector_track
  have N: "ring_size ?t = 2872" by (simp add: one_sector_bytes(2))
  have "sync_end (\<lambda>k. tbit ?t (40 + k)) 192"
    using one_sector_sync_at(2) N ring_sync_offset [of 192 ?t 40] by simp
  then obtain m where m: "m \<le> 192" "sync_scan (\<lambda>k. tbit ?t (40 + k)) 0 0 (500 * 8) = Some m"
    using sync_scan_complete [of "\<lambda>k. tbit ?t (40 + k)" 192 0 "500 * 8" 0] by auto
  then have "sync_end (\<lambda>k. tbit ?t (40 + k)) m" using sync_scan_found [OF m(2)] by simp
  then have "10 \<le> m" "ring_sync ?t (40 + m)" using N ring_sync_offset [of m ?t 40] by (auto simp: sync_end_def)
  then have "m = 192" using one_sector_only [of "40 + m"] m(1) by simp
  then have "sync_scan (\<lambda>k. tbit ?t (40 + k)) 0 0 (500 * 8) = Some 192" using m(2) by simp
  moreover have "\<not> header_stops (gcr_decode_block ?t (int s) 2) 0" if "ring_sync ?t s" "s < 2872" "s \<noteq> 40" for s
    using one_sector_only [OF that(1,2)] that(3) one_sector_headers(2) by auto
  then have "header_at ?t 0 40"
    unfolding header_at_def N using one_sector_ok(1) one_sector_sync_at(1) one_sector_headers(1) by simp
  ultimately show ?thesis unfolding sector_at_def N by simp
qed

theorem gcr_sector_roundtrip_witness:
  "\<exists>raw'. gcr_write_sector one_sector_track 0 [] 0 (replicate 256 0xa5) 0x00 (-1) = Some ((CBMDOS_FDC_ERR_OK, raw'), 40) \<and>
     gcr_read_sector raw' 1000 [] 0 [] 0x00 (-1) = Some ((CBMDOS_FDC_ERR_OK, replicate 256 0xa5), 40)"
  using gcr_sector_roundtrip [OF one_sector_at, of 0 1000 "replicate 256 0xa5" "-1" "[]" 0 "[]" 0 "[]"]
  by (auto simp: one_sector_bytes)

end
