(* ===== verification/FsGcrSector.thy ===== *)
theory FsGcrSector
  imports FsGcr GcrSector
begin

text \<open>
  Sectors of G64 and G71 files: the tables of the file lead to a track, the number in its headers
  confirms it, and a sector written is decoded, changed and stored in the place of the track, so
  that it reads back and every other track of the file stays as it is.
\<close>

subsection \<open>Tracks in a file\<close>

abbreviation (input) "gcr_half_tracks f \<equiv> unat (f ! 9 :: byte)"
abbreviation (input) "gcr_max_length f \<equiv> util_le_buf_to_word (slice f 10 2)"

text \<open>The file has track \<open>raw\<close> at \<open>offset\<close>, behind both tables and with room for a track of maximal length.\<close>

definition gcr_stored :: "byte list \<Rightarrow> nat \<Rightarrow> nat \<Rightarrow> disk_track \<Rightarrow> bool" where
  "gcr_stored f track offset raw =
    ((take 9 f = gcr_image_header_expected_1541 \<or> take 9 f = gcr_image_header_expected_1571) \<and>
     gcr_half_tracks f \<le> MAX_GCR_TRACKS \<and> 1 \<le> track \<and> 2 * track - 2 < gcr_half_tracks f \<and>
     util_le_buf_to_dword (slice f (track_entry (2 * track)) 4) = offset \<and>
     12 + 8 * gcr_half_tracks f \<le> offset \<and> offset < 2 ^ 31 \<and> offset + 2 + gcr_max_length f \<le> length f \<and>
     track_ok raw \<and> track_size raw \<le> gcr_max_length f \<and>
     util_le_buf_to_word (slice f offset 2) = track_size raw \<and>
     slice f (offset + 2) (track_size raw) = the (track_data raw))"

lemma gcr_storedD:
  assumes "gcr_stored f track offset raw"
  shows "take 9 f = gcr_image_header_expected_1541 \<or> take 9 f = gcr_image_header_expected_1571"
    "gcr_half_tracks f \<le> MAX_GCR_TRACKS" "1 \<le> track" "track \<le> 84" "track_entry (2 * track) = 4 + 8 * track"
    "track_entry (2 * track) + 4 \<le> offset" "12 \<le> offset" "offset < 2 ^ 31" "offset + 2 + gcr_max_length f \<le> length f"
    "util_le_buf_to_dword (slice f (track_entry (2 * track)) 4) = offset"
    "track_ok raw" "track_size raw \<le> gcr_max_length f" "0 < track_size raw"
    "util_le_buf_to_word (slice f offset 2) = track_size raw" "slice f (offset + 2) (track_size raw) = the (track_data raw)"
proof -
  show t84: "track \<le> 84" using assms unfolding gcr_stored_def by linarith
  have t: "1 \<le> track" using assms unfolding gcr_stored_def by blast
  have i: "12 + (int (2 * track) - 2) * 4 = int (4 + 8 * track)" by simp
  show e: "track_entry (2 * track) = 4 + 8 * track"
    unfolding track_entry_def i using t84 by (intro c_unsigned_nat) simp
  show "track_entry (2 * track) + 4 \<le> offset" using assms t unfolding e gcr_stored_def by linarith
  show "12 \<le> offset" using assms unfolding gcr_stored_def by linarith
  show "0 < track_size raw" using assms unfolding gcr_stored_def track_ok_def by blast
qed (use assms in \<open>unfold gcr_stored_def, blast+\<close>)

text \<open>Numbers are read from the front of a buffer.\<close>

lemma le_front:
  "2 \<le> length xs \<Longrightarrow> util_le_buf_to_word (xs @ ys) = util_le_buf_to_word xs"
  "4 \<le> length xs \<Longrightarrow> util_le_buf_to_dword (xs @ ys) = util_le_buf_to_dword xs"
  by (simp_all add: util_le_buf_to_word_def util_le_buf_to_dword_def nth_append) auto

lemma fpread_front:
  "offset + num \<le> length f \<Longrightarrow> num \<le> length buf \<Longrightarrow>
    util_fpread f buf num offset = (0, slice f offset num @ drop num buf)"
  by (simp add: util_fpread_def Let_def write_at_def)

lemma seek_stored:
  assumes "gcr_stored f track offset raw" "fd fs = Some f"
  shows "fsimage_gcr_seek_half_track fs (2 * track) = (int offset, gcr_max_length f, gcr_half_tracks f)"
proof -
  note S = gcr_storedD [OF assms(1)]
  have len: "12 \<le> length f" "track_entry (2 * track) + 4 \<le> length f" using S(6,7,9) by linarith+
  have r: "util_fpread f (replicate 12 0) 12 0 = (0, take 12 f)"
    using fpread_front [of 0 12 f "replicate 12 0"] len by (simp add: slice_def)
  have r4: "util_fpread f (take 12 f) 4 (track_entry (2 * track)) =
      (0, slice f (track_entry (2 * track)) 4 @ drop 4 (take 12 f))"
    using len by (intro fpread_front) simp_all
  have "drop 10 (take 12 f) = slice f 10 2" "take 9 (take 12 f) = take 9 f" "take 12 f ! 9 = f ! 9"
    by (simp_all add: slice_def drop_take)
  moreover have "util_le_buf_to_dword (slice f (track_entry (2 * track)) 4 @ drop 4 (take 12 f)) = offset"
    using S(10) len by (simp add: le_front)
  moreover have "c_int offset = int offset" using S(8) by (simp add: c_int_def c_uint_def)
  ultimately show ?thesis
    using S(1,2) r r4 assms(2) by (auto simp: fsimage_gcr_seek_half_track_def Let_def)
qed

lemma load_stored:
  assumes "gcr_stored f track offset raw" "media img = Some fs" "fd fs = Some f"
  shows "load_half_track img (2 * track) offset (gcr_max_length f) = Some raw"
proof -
  note S = gcr_storedD [OF assms(1)]
  have len: "offset + 2 \<le> length f" "offset + 2 + track_size raw \<le> length f" using S(9,12) by linarith+
  have r: "util_fpread f (replicate 4 0) 2 offset = (0, slice f offset 2 @ replicate 2 0)"
    using fpread_front [of offset 2 f "replicate 4 0"] len by simp
  have "util_le_buf_to_word (slice f offset 2 @ replicate 2 0) = track_size raw"
    using S(14) len by (simp add: le_front)
  moreover have "raw = \<lparr>track_data = Some (the (track_data raw)), track_size = track_size raw\<rparr>"
    using S(11) by (cases raw) (auto simp: track_ok_def)
  ultimately show ?thesis
    using S(7,11-13,15) len(2) assms(2,3) r by (simp add: load_half_track_def Let_def track_ok_def)
qed

subsection \<open>The number of a track\<close>

text \<open>All headers of the track are intact and have its number.\<close>

definition numbered :: "disk_track \<Rightarrow> byte \<Rightarrow> bool" where
  "numbered raw t = (\<forall>s < ring_size raw. ring_sync raw s \<longrightarrow>
     (let h = gcr_decode_block raw (int s) 2 in header_stops h (-1) \<longrightarrow> header_match h (-1) \<and> h ! 3 = t))"

lemma track_number:
  assumes "sector_at raw sector h m" "numbered raw t" "s < ring_size raw"
  shows "\<exists>p < ring_size raw. gcr_read_track_number raw (int s) h0 old = Some (CBMDOS_FDC_ERR_OK, int p, t)"
proof -
  note S = sector_at_sync [OF assms(1)]
  have "header_on raw (-1) h"
    using assms(1,2) unfolding sector_at_def header_at_def header_on_def numbered_def Let_def
    by (auto simp: header_match_def header_stops_def)
  from some_header_search [OF this assms(3) S(4) _ S(3)] S(2)
  have "header_found raw (-1) (gcr_read_sector_header raw (int s) h0 (-1) 0)" by simp
  then obtain p where p: "p < ring_size raw" "ring_sync raw p" "header_match (gcr_decode_block raw (int p) 2) (-1)"
    "gcr_read_sector_header raw (int s) h0 (-1) 0 = found_header raw p" unfolding header_found_def by blast
  then have "gcr_decode_block raw (int p) 2 ! 3 = t"
    using assms(2) header_match_stops unfolding numbered_def Let_def by blast
  with p show ?thesis by (auto simp: gcr_read_track_number_def)
qed

lemma numbered_rewritten:
  assumes "sector_at raw sector h m" "rewritten raw raw' h m data" "length data = 256" "numbered raw t"
  shows "numbered raw' t"
proof -
  have sz: "track_size raw' = track_size raw" using assms(2) by (simp add: rewritten_def)
  show ?thesis
    unfolding numbered_def sz Let_def
  proof (intro allI impI)
    fix s assume s: "s < ring_size raw" "ring_sync raw' s" "header_stops (gcr_decode_block raw' (int s) 2) (-1)"
    have "gcr_decode_block raw' (int s) 2 ! 0 \<noteq> 0x07" using s(3) by (auto simp: header_stops_def)
    then have "ring_sync raw s" "gcr_decode_block raw' (int s) 2 = gcr_decode_block raw (int s) 2"
      using rewritten_sync_header [OF assms(1-3) s(1,2)] by blast+
    with s(1,3) assms(4)
    show "header_match (gcr_decode_block raw' (int s) 2) (-1) \<and> gcr_decode_block raw' (int s) 2 ! 3 = t"
      unfolding numbered_def Let_def by simp
  qed
qed

text \<open>Reading the track succeeds at once; the search position stays on the track.\<close>

lemma read_stored_track:
  assumes "gcr_stored f track offset raw" "media img = Some fs" "fd fs = Some f" "sector_at raw sector h m"
    "numbered raw (of_nat track)" "header_pos st = int s" "s < ring_size raw"
  shows "\<exists>st' s'. fsimage_gcr_read_track h0 img st track = Some (0, raw, st') \<and> header_pos st' = int s' \<and> s' < ring_size raw"
proof -
  note S = gcr_storedD [OF assms(1)]
  have c: "c_uint (track * 2) = 2 * track" using S(4) by (simp add: c_uint_def mult.commute)
  obtain p where p: "p < ring_size raw" "gcr_read_track_number raw (int s) h0 0 = Some (CBMDOS_FDC_ERR_OK, int p, of_nat track)"
    using track_number [OF assms(4,5,7)] by blast
  have "uint (of_nat track :: byte) = int track" using S(4) by (simp add: uint_nat unat_of_nat)
  then have n: "next_half_track CBMDOS_FDC_ERR_OK (2 * track) (of_nat track) = 2 * track"
    using S(4) by (simp add: next_half_track_def c_unsigned_def)
  show ?thesis
    unfolding fsimage_gcr_read_track_def fsimage_gcr_read_half_track_def c
    using seek_stored [OF assms(1,3)] load_stored [OF assms(1-3)] p n assms(2,6,7)
    by (subst half_track_loop.simps) (auto simp: Let_def)
qed

subsection \<open>Storing a track\<close>

lemma fpwrite_in:
  "offset + length xs \<le> length f \<Longrightarrow> snd (util_fpwrite f xs (length xs) offset) = write_at f offset xs"
  by (simp add: util_fpwrite_in)

text \<open>The three writes fill the place of the track.\<close>

lemma store_in_place:
  assumes "place \<noteq> 0" "d \<noteq> []" "length d \<le> mx" "place + 2 + mx \<le> length f"
  shows "store_half_track f ty half_track place mx n d =
    write_at f place (util_word_to_le_buf (length d mod 65536) @ d @ replicate (mx - length d) 0)"
proof -
  let ?w = "util_word_to_le_buf (length d mod 65536)"
  have w: "length ?w = 2" by (simp add: util_word_to_le_buf_def)
  have f1: "snd (util_fpwrite f ?w 2 place) = write_at f place ?w"
    using fpwrite_in [of place ?w f] assms(4) w by simp
  have f2: "snd (util_fpwrite (write_at f place ?w) d (length d) (place + 2)) = write_at f place (?w @ d)"
    using fpwrite_in [of "place + 2" d "write_at f place ?w"] write_at_append [of place ?w d f] assms(3,4) w by simp
  have f3: "snd (util_fpwrite (write_at f place (?w @ d)) (replicate (mx - length d) 0) (mx - length d) (place + 2 + length d)) =
      write_at f place (?w @ d @ replicate (mx - length d) 0)"
    using fpwrite_in [of "place + 2 + length d" "replicate (mx - length d) 0" "write_at f place (?w @ d)"]
      write_at_append [of place "?w @ d" "replicate (mx - length d) 0" f] assms(3,4) w
    by (simp add: add.assoc)
  show ?thesis
    unfolding store_half_track_def Let_def using assms(1-3) f1 f2 f3 by auto
qed

text \<open>A write into the place of one track, as seen by the header, the tables and any track.\<close>

lemma stored_frame:
  assumes "gcr_stored f track2 offset2 raw2" "12 + 8 * gcr_half_tracks f \<le> offset" "offset + length ys \<le> length f"
    "offset2 + 2 + track_size raw2 \<le> offset \<or> offset + length ys \<le> offset2"
  shows "gcr_stored (write_at f offset ys) track2 offset2 raw2"
proof -
  note S = gcr_storedD [OF assms(1)]
  let ?g = "write_at f offset ys"
  have same: "slice ?g x n = slice f x n" if "x + n \<le> offset \<or> offset + length ys \<le> x" "x + n \<le> length f" for x n
    using slice_write_at_other [OF assms(3) that] .
  have h: "take 9 ?g = take 9 f" "?g ! 9 = f ! 9" using assms(2) assms(3) by (simp_all add: write_at_def nth_append)
  have "2 * track2 - 2 < gcr_half_tracks f" using assms(1) unfolding gcr_stored_def by blast
  then have "track_entry (2 * track2) + 4 \<le> offset" using assms(2) S(3,5) by linarith
  then have e: "slice ?g (track_entry (2 * track2)) 4 = slice f (track_entry (2 * track2)) 4" "slice ?g 10 2 = slice f 10 2"
    using assms(2,3) by (intro same; linarith)+
  have t: "slice ?g offset2 2 = slice f offset2 2" "slice ?g (offset2 + 2) (track_size raw2) = slice f (offset2 + 2) (track_size raw2)"
    using assms(4) S(9,12) by (intro same; linarith)+
  have "length ?g = length f" using assms(3) by simp
  with assms(1) show ?thesis unfolding gcr_stored_def h e t by simp
qed

lemma slice_write_at_part:
  assumes "off + length (xs @ ys @ zs) \<le> length f"
  shows "slice (write_at f off (xs @ ys @ zs)) (off + length xs) (length ys) = ys"
  using assms by (simp add: slice_def write_at_def)

lemma stored_in_place:
  assumes "gcr_stored f track offset raw" "track_ok raw'" "track_size raw' = track_size raw" "track_data raw' = Some d"
  shows "gcr_stored (write_at f offset (util_word_to_le_buf (length d mod 65536) @ d @
    replicate (gcr_max_length f - length d) 0)) track offset raw'" (is "gcr_stored (write_at f offset ?ys) _ _ _")
proof -
  note S = gcr_storedD [OF assms(1)]
  let ?g = "write_at f offset ?ys" let ?w = "util_word_to_le_buf (length d mod 65536)"
  have d: "length d = track_size raw" using assms(2-4) by (simp add: track_ok_def)
  have w: "length ?w = 2" by (simp add: util_word_to_le_buf_def)
  have fit: "offset + length ?ys \<le> length f" using S(9,12) d w by simp
  have same: "slice ?g x n = slice f x n" if "x + n \<le> offset" for x n
    using slice_write_at_other [OF fit, of x n] that fit by simp
  have h: "take 9 ?g = take 9 f" "?g ! 9 = f ! 9" using S(7,9) by (simp_all add: write_at_def nth_append)
  have e: "slice ?g (track_entry (2 * track)) 4 = slice f (track_entry (2 * track)) 4" "slice ?g 10 2 = slice f 10 2"
    using S(6,7) by (intro same; simp)+
  have "slice ?g offset 2 = ?w"
    using slice_write_at_part [of offset "[]" ?w "d @ replicate (gcr_max_length f - length d) 0" f] fit w by simp
  moreover have "length d < 65536" using S(12) d le_bounds(1) [of "slice f 10 2"] by linarith
  ultimately have "util_le_buf_to_word (slice ?g offset 2) = length d" by (simp add: le_word_roundtrip)
  moreover have "slice ?g (offset + 2) (length d) = d"
    using slice_write_at_part [of offset ?w d "replicate (gcr_max_length f - length d) 0" f] fit w by simp
  moreover have "length ?g = length f" using fit by simp
  ultimately show ?thesis using assms d unfolding gcr_stored_def h e by simp
qed

lemma write_stored_track:
  assumes "gcr_stored f track offset raw" "media img = Some fs" "fd fs = Some f" "read_only img = 0"
    "track_ok raw'" "track_size raw' = track_size raw"
  shows "\<exists>g. fsimage_gcr_write_track img track raw' = (0, img\<lparr>media := Some (fs\<lparr>fd := Some g\<rparr>)\<rparr>) \<and>
    gcr_stored g track offset raw' \<and>
    (\<forall>track2 offset2 raw2. gcr_stored f track2 offset2 raw2 \<longrightarrow>
       offset2 + 2 + track_size raw2 \<le> offset \<or> offset + 2 + gcr_max_length f \<le> offset2 \<longrightarrow>
       gcr_stored g track2 offset2 raw2)"
proof -
  note S = gcr_storedD [OF assms(1)]
  obtain d where d: "track_data raw' = Some d" "length d = track_size raw" using assms(5,6) by (auto simp: track_ok_def)
  let ?ys = "util_word_to_le_buf (length d mod 65536) @ d @ replicate (gcr_max_length f - length d) 0"
  let ?g = "write_at f offset ?ys"
  have len: "length ?ys = 2 + gcr_max_length f" using S(12) d(2) by (simp add: util_word_to_le_buf_def)
  have g: "store_half_track f (itype img) (2 * track) offset (gcr_max_length f) n d = ?g" for n
    using S(7,9,12,13) d(2) by (intro store_in_place) auto
  have tabs: "12 + 8 * gcr_half_tracks f \<le> offset" using assms(1) unfolding gcr_stored_def by blast
  have c: "c_uint (track * 2) = 2 * track" using S(4) by (simp add: c_uint_def mult.commute)
  have "fsimage_gcr_write_track img track raw' = (0, img\<lparr>media := Some (fs\<lparr>fd := Some ?g\<rparr>)\<rparr>)"
    unfolding fsimage_gcr_write_track_def fsimage_gcr_write_half_track_def c
    using seek_stored [OF assms(1,3)] assms(2-4,6) S(12,13) d g by (simp add: Let_def)
  moreover have "gcr_stored ?g track2 offset2 raw2"
    if "gcr_stored f track2 offset2 raw2" "offset2 + 2 + track_size raw2 \<le> offset \<or> offset + 2 + gcr_max_length f \<le> offset2"
    for track2 offset2 raw2
    using stored_frame [OF that(1) tabs, of ?ys] that(2) S(9) len by simp
  moreover have "gcr_stored ?g track offset raw'"
    by (rule stored_in_place [OF assms(1,5,6) d(1)])
  ultimately show ?thesis by blast
qed

subsection \<open>Properties\<close>

text \<open>
  C22. A sector written to a G64 or G71 file reads back. The table of the file leads to the track
  and its headers have its number; then the write finds the sector, returns OK and stores the
  track in its place, the read after it returns OK and the data, wherever the search for the
  header starts and whatever half track was checked last. The file keeps its form, so that both
  can be repeated, and every other track stored elsewhere in the file is as it was.
\<close>

theorem gcr_image_sector_roundtrip:
  assumes "media img = Some fs" "fd fs = Some f" "read_only img = 0" "track \<le> itracks img"
    "gcr_stored f track offset raw" "sector_at raw (of_nat sector) h m" "numbered raw (of_nat track)"
    "c_int (image_id img) < 0 \<or> c_int (image_id img) = int (header_id (gcr_decode_block raw (int h) 2))"
    "header_pos st = int s" "s < 8 * track_size raw" "length data = 256"
  shows "\<exists>g raw' st' st''.
    fsimage_gcr_write_sector h0 sid0 img st data \<lparr>da_track = track, da_sector = sector\<rparr> =
      Some (0, img\<lparr>media := Some (fs\<lparr>fd := Some g\<rparr>)\<rparr>, st') \<and>
    fsimage_gcr_read_sector h0' sid0' (img\<lparr>media := Some (fs\<lparr>fd := Some g\<rparr>)\<rparr>) st' old
      \<lparr>da_track = track, da_sector = sector\<rparr> = Some (CBMDOS_IPE_OK, data, st'') \<and>
    gcr_stored g track offset raw' \<and> sector_at raw' (of_nat sector) h m \<and> numbered raw' (of_nat track) \<and>
    (\<forall>track2 offset2 raw2. gcr_stored f track2 offset2 raw2 \<longrightarrow>
       offset2 + 2 + track_size raw2 \<le> offset \<or> offset + 2 + util_le_buf_to_word (slice f 10 2) \<le> offset2 \<longrightarrow>
       gcr_stored g track2 offset2 raw2)"
proof -
  let ?id = "c_int (image_id img)"
  obtain st1 s1 where r1: "fsimage_gcr_read_track h0 img st track = Some (0, raw, st1)" "header_pos st1 = int s1"
    "s1 < ring_size raw" using read_stored_track [OF assms(5,1,2,6,7,9,10)] by blast
  obtain raw' where w: "gcr_write_sector raw (int s1) h0 sid0 data (of_nat sector) ?id = Some ((CBMDOS_FDC_ERR_OK, raw'), int h)"
    "sector_at raw' (of_nat sector) h m" "rewritten raw raw' h m data"
    "gcr_decode_block raw' (int h) 2 = gcr_decode_block raw (int h) 2"
    using write_then_read [OF assms(6) r1(3) r1(3) assms(11,8)] by blast
  have raw': "track_ok raw'" "track_size raw' = track_size raw" using w(3) by (auto simp: rewritten_def)
  obtain g where g: "fsimage_gcr_write_track img track raw' = (0, img\<lparr>media := Some (fs\<lparr>fd := Some g\<rparr>)\<rparr>)"
    "gcr_stored g track offset raw'"
    "\<forall>track2 offset2 raw2. gcr_stored f track2 offset2 raw2 \<longrightarrow>
       offset2 + 2 + track_size raw2 \<le> offset \<or> offset + 2 + gcr_max_length f \<le> offset2 \<longrightarrow> gcr_stored g track2 offset2 raw2"
    using write_stored_track [OF assms(5,1-3) raw'] by blast
  let ?img = "img\<lparr>media := Some (fs\<lparr>fd := Some g\<rparr>)\<rparr>" let ?st = "st1\<lparr>header_pos := int h\<rparr>"
  have num: "numbered raw' (of_nat track)" by (rule numbered_rewritten [OF assms(6) w(3) assms(11,7)])
  have h: "h < ring_size raw'" using w(2) by (simp add: sector_at_def header_at_def)
  obtain st2 s2 where r2: "fsimage_gcr_read_track h0' ?img ?st track = Some (0, raw', st2)" "header_pos st2 = int s2"
    "s2 < ring_size raw'" using read_stored_track [OF g(2) _ _ w(2) num _ h, of ?img "fs\<lparr>fd := Some g\<rparr>" ?st h0'] by auto
  have "gcr_read_sector raw' (int s2) h0' sid0' old (of_nat sector) ?id = Some ((CBMDOS_FDC_ERR_OK, data), int h)"
    using write_then_read [OF assms(6) r1(3) _ assms(11,8), of s2 h0 sid0 h0' sid0' old] r2(3) raw'(2) w(1) by auto
  then have "fsimage_gcr_read_sector h0' sid0' ?img ?st old \<lparr>da_track = track, da_sector = sector\<rparr> =
      Some (CBMDOS_IPE_OK, data, st2\<lparr>header_pos := int h\<rparr>)"
    using r2(1,2) assms(4) raw'(1) by (simp add: fsimage_gcr_read_sector_def track_ok_def)
  moreover have "fsimage_gcr_write_sector h0 sid0 img st data \<lparr>da_track = track, da_sector = sector\<rparr> = Some (0, ?img, ?st)"
    using r1(1,2) w(1) g(1) assms(4) gcr_storedD(11) [OF assms(5)] by (simp add: fsimage_gcr_write_sector_def track_ok_def)
  ultimately show ?thesis using g(2,3) w(2) num by blast
qed

text \<open>A file with one track, track 18, for the witness.\<close>

definition one_track_file :: "byte list" where
  "one_track_file = gcr_image_header_expected_1541 @ [35, 0x90, 0x01] @ replicate 136 0 @ [0x24, 0x01, 0x00, 0x00] @
     replicate 140 0 @ [0x67, 0x01] @ the (track_data one_sector_track) @ replicate 41 0"

lemma one_track_stored: "gcr_stored one_track_file 18 292 one_sector_track"
proof -
  let ?f = one_track_file let ?d = "the (track_data one_sector_track)"
  have d: "length ?d = 359" by (simp add: one_sector_bytes(1))
  have e: "track_entry (2 * 18) = 148" by (simp add: track_entry_def c_unsigned_def)
  have t: "take 9 ?f = gcr_image_header_expected_1541" "?f ! 9 = 35" "length ?f = 694"
    by (simp_all add: one_track_file_def gcr_image_header_expected_1541_def d)
  have s: "slice ?f 10 2 = [0x90, 0x01]" "slice ?f 148 4 = [0x24, 0x01, 0x00, 0x00]" "slice ?f 292 2 = [0x67, 0x01]"
    "slice ?f 294 359 = ?d"
    by (simp_all add: one_track_file_def gcr_image_header_expected_1541_def slice_def d)
  show ?thesis
    unfolding gcr_stored_def e s t
    using one_sector_ok(1) one_sector_bytes(2) s(4) by (simp add: util_le_buf_to_word_def util_le_buf_to_dword_def)
qed

lemma one_sector_numbered: "numbered one_sector_track 0x12"
proof -
  have "header_match (gcr_decode_block one_sector_track 40 2) (-1)" "gcr_decode_block one_sector_track 40 2 ! 3 = 0x12"
    "\<not> header_stops (gcr_decode_block one_sector_track 232 2) (-1)" by code_simp+
  then show ?thesis
    unfolding numbered_def Let_def by (auto simp: one_sector_bytes(2) dest!: one_sector_only)
qed

definition one_track_image :: disk_image where
  "one_track_image = (d64_image 35)\<lparr>itype := G64, media := Some \<lparr>fd = Some one_track_file, fs_name = ''a.g64'',
     error_map = None, error_dirty = False, error_len = 0\<rparr>\<rparr>"

theorem gcr_image_sector_roundtrip_witness:
  "\<exists>img' st' st''.
    fsimage_gcr_write_sector [] 0 one_track_image \<lparr>header_pos = 0, current_half_track = -1\<rparr> (replicate 256 0xa5)
      \<lparr>da_track = 18, da_sector = 0\<rparr> = Some (0, img', st') \<and>
    fsimage_gcr_read_sector [] 0 img' st' [] \<lparr>da_track = 18, da_sector = 0\<rparr> = Some (CBMDOS_IPE_OK, replicate 256 0xa5, st'')"
proof -
  let ?fs = "the (media one_track_image)"
  have A: "media one_track_image = Some ?fs" "fd ?fs = Some one_track_file" "read_only one_track_image = 0"
    "18 \<le> itracks one_track_image"
    "c_int (image_id one_track_image) < 0 \<or> c_int (image_id one_track_image) = int (header_id (gcr_decode_block one_sector_track (int 40) 2))"
    by (simp_all add: one_track_image_def d64_image_def c_int_def c_uint_def UINT32_MAX_def)
  have B: "sector_at one_sector_track (of_nat 0) 40 192" "numbered one_sector_track (of_nat 18)"
    using one_sector_at one_sector_numbered by simp_all
  have C: "header_pos \<lparr>header_pos = 0, current_half_track = -1\<rparr> = int 0" "0 < 8 * track_size one_sector_track"
    "length (replicate 256 (0xa5 :: byte)) = 256" by (simp_all add: one_sector_bytes(2))
  show ?thesis
    using gcr_image_sector_roundtrip [OF A(1-4) one_track_stored B A(5) C, of "[]" 0 "[]" 0 "[]"] by blast
qed

end
