(* ===== verification/Vdrive.thy ===== *)
theory Vdrive
  imports FsImage
begin

text \<open>
  The state of a drive and its logical sectors (\<^verbatim>\<open>lib/vdrive/vdrive.h\<close>, \<^verbatim>\<open>vdrive.c\<close>): the
  record of a drive with its channels, the sectors per track of each disk format, the disk
  geometry, and the translation of a logical sector of the current partition into a sector
  of the image file, on which reading and writing a logical sector rest.

  The images a drive knows live in a heap, \<open>disk_heap\<close>; the pointers \<^verbatim>\<open>image\<close> and
  \<^verbatim>\<open>images[]\<close> of the C structure are indices into it, so that the current image and the
  attached one can be the same object. An array index of type \<^verbatim>\<open>int\<close> goes through \<open>ix\<close>: a
  negative index lies outside every array, where reading is unspecified and writing has no
  effect in the model; in C both are undefined.
\<close>

subsection \<open>Types\<close>

datatype image_format =
    FORMAT_1541 | FORMAT_1571 | FORMAT_1581 | FORMAT_8050 | FORMAT_8250 | FORMAT_2040
  | FORMAT_NP | FORMAT_SYS | FORMAT_9000 | FORMAT_NONE

datatype buffer_mode =
    BUFFER_NOT_IN_USE | BUFFER_DIRECTORY_READ | BUFFER_SEQUENTIAL | BUFFER_MEMORY_BUFFER
  | BUFFER_RELATIVE | BUFFER_COMMAND_CHANNEL | BUFFER_PARTITION_READ | BUFFER_DIRECTORY_MORE_READ

text \<open>
  A channel's buffer is allocated memory of its own, or a page of the drive's RAM. The members
  of a channel that only relative files use (side sectors and the second buffer) are left out.
  A search context holds the directory sector it stands on; its pointer to the drive is the
  drive it is used with, which the functions on it take as an argument.
\<close>

datatype channel_buffer = BUF_NULL | BUF_RAM nat | BUF_HEAP buffer

record vdrive_dir_context =
  dbuffer :: buffer
  find_length :: int
  find_nslot :: buffer
  find_type :: nat
  dslot :: nat
  dtrack :: nat
  dsector :: nat
  time_low :: nat
  time_high :: nat

text \<open>What a channel keeps for a relative file; a null pointer is the empty list.\<close>

record rel_file =
  side_sector :: buffer
  side_sector_track :: "byte list"
  side_sector_sector :: "byte list"
  super_side_sector :: buffer
  super_side_sector_track :: byte
  super_side_sector_sector :: byte
  buffer_next :: buffer
  track_next :: nat
  sector_next :: nat
  record_max :: nat
  record_next :: nat
  side_sector_needsupdate :: "byte list"
  super_side_sector_needsupdate :: nat

record bufferinfo =
  mode :: buffer_mode
  readmode :: nat
  buffer_ptr :: channel_buffer
  bslot :: "buffer option"
  bufnum :: int
  bufptr :: nat
  btrack :: nat
  bsector :: nat
  buf_length :: nat
  brecord :: nat
  bpartition :: nat
  partstart :: nat
  partend :: nat
  bsmall :: int
  timemode :: int
  dir :: vdrive_dir_context
  rel :: rel_file
  needsupdate :: nat

record vdrive =
  unit_no :: nat
  disk_heap :: "disk_image list"
  images :: "nat option list"
  image_ptr :: "nat option"
  image_mode :: int
  image_format :: image_format
  Bam_Track :: nat
  Bam_Sector :: nat
  bam_name :: nat
  bam_id :: nat
  bam_state :: "int list"
  bam_tracks :: "int list"
  bam_sectors :: "int list"
  Header_Track :: nat
  Header_Sector :: nat
  Dir_Track :: nat
  Dir_Sector :: nat
  num_tracks :: nat
  Part_Start :: nat
  Part_End :: nat
  current_offset :: nat
  sys_offset :: nat
  current_part :: int
  selected_part :: int
  default_part :: int
  ptype :: "nat list"
  poffset :: "nat list"
  psize :: "nat list"
  cheadertrack :: "nat list"
  cheadersector :: "nat list"
  cdirtrack :: "nat list"
  cdirsector :: "nat list"
  cpartstart :: "nat list"
  cpartend :: "nat list"
  d90toggle :: nat
  haspt :: bool
  dir_part :: int
  dir_count :: int
  last_code :: int
  mem_buf_next_byte_override :: int
  bam_size :: nat
  bam :: "byte list option"
  buffers :: "bufferinfo list"
  ram :: "byte list"
  last_read :: "nat \<times> nat \<times> buffer"

abbreviation (input) "VDRIVE_BAM_MAX_STATES \<equiv> 33 :: nat"
abbreviation (input) "DRIVE_RAMSIZE \<equiv> 0x800 :: nat"

definition ix :: "int \<Rightarrow> nat" where
  "ix i = (if i < 0 then nat (2 ^ 32 + i) else nat i)"

definition cur_image :: "vdrive \<Rightarrow> disk_image" where
  "cur_image v = disk_heap v ! the (image_ptr v)"

definition set_cur_image :: "disk_image \<Rightarrow> vdrive \<Rightarrow> vdrive" where
  "set_cur_image img v = v\<lparr>disk_heap := (disk_heap v)[the (image_ptr v) := img]\<rparr>"

definition VDRIVE_IS_HD :: "vdrive \<Rightarrow> bool" where
  "VDRIVE_IS_HD v = (image_ptr v \<noteq> None \<and> itype (cur_image v) = DHD)"

definition VDRIVE_IS_FD :: "vdrive \<Rightarrow> bool" where
  "VDRIVE_IS_FD v = (image_ptr v \<noteq> None \<and> itype (cur_image v) \<in> {D1M, D2M, D4M})"

definition VDRIVE_IS_1541 :: "vdrive \<Rightarrow> bool" where
  "VDRIVE_IS_1541 v = (image_ptr v \<noteq> None \<and> itype (cur_image v) \<in> {D64, G64})"

definition VDRIVE_IS_READONLY :: "vdrive \<Rightarrow> bool" where
  "VDRIVE_IS_READONLY v = (image_mode v > 0)"

subsection \<open>Sectors per track\<close>

definition vdrive_get_max_sectors :: "vdrive \<Rightarrow> nat \<Rightarrow> int" where
  "vdrive_get_max_sectors v t =
    (case image_format v of
       FORMAT_1541 \<Rightarrow> int (disk_image_sector_per_track D64 t)
     | FORMAT_2040 \<Rightarrow> int (disk_image_sector_per_track D67 t)
     | FORMAT_1571 \<Rightarrow> int (disk_image_sector_per_track D71 t)
     | FORMAT_8050 \<Rightarrow> int (disk_image_sector_per_track D80 t)
     | FORMAT_1581 \<Rightarrow> 40
     | FORMAT_8250 \<Rightarrow>
         if t \<le> 77 then int (disk_image_sector_per_track D80 t)
         else int (disk_image_sector_per_track D80 (t - 77))
     | FORMAT_NP \<Rightarrow> 256
     | FORMAT_9000 \<Rightarrow> int (isectors (cur_image v))
     | _ \<Rightarrow> -1)"

definition vdrive_get_max_sectors_per_head :: "vdrive \<Rightarrow> nat \<Rightarrow> int" where
  "vdrive_get_max_sectors_per_head v t =
    (if image_format v = FORMAT_9000 then 32 else vdrive_get_max_sectors v t)"

subsection \<open>Logical to physical sectors\<close>

definition tosec4171 :: "int list" where
  "tosec4171 =
    [-1,
     0, 21, 42, 63, 84, 105, 126, 147, 168, 189,
     210, 231, 252, 273, 294, 315, 336, 357, 376, 395,
     414, 433, 452, 471, 490, 508, 526, 544, 562, 580,
     598, 615, 632, 649, 666,
     683, 704, 725, 746, 767, 788, 809, 830, 851, 872,
     893, 914, 935, 956, 977, 998, 1019, 1040, 1059, 1078,
     1097, 1116, 1135, 1154, 1173, 1191, 1209, 1227, 1245, 1263,
     1281, 1298, 1315, 1332, 1349]"

definition max4171 :: "int list" where
  "max4171 =
    [-1,
     21, 21, 21, 21, 21, 21, 21, 21, 21, 21,
     21, 21, 21, 21, 21, 21, 21, 19, 19, 19,
     19, 19, 19, 19, 18, 18, 18, 18, 18, 18,
     17, 17, 17, 17, 17,
     21, 21, 21, 21, 21, 21, 21, 21, 21, 21,
     21, 21, 21, 21, 21, 21, 21, 19, 19, 19,
     19, 19, 19, 19, 18, 18, 18, 18, 18, 18,
     17, 17, 17, 17, 17]"

text \<open>
  The first switch of \<^verbatim>\<open>vdrive_log_to_phy\<close>: the offset of a sector in the partition, in
  blocks of 256 bytes; and the branch the three FD types share for the system partition.
\<close>

definition sys_fd_offset :: "nat \<Rightarrow> nat \<Rightarrow> nat \<Rightarrow> nat option" where
  "sys_fd_offset limit t s =
    (if t = 0 \<and> s > 7 then None else if s \<ge> limit then None else Some (t * 8 + s))"

definition partition_offset :: "vdrive \<Rightarrow> nat \<Rightarrow> nat \<Rightarrow> nat option" where
  "partition_offset v t s =
    (if image_format v \<noteq> FORMAT_SYS \<and> t < 1 then None
     else case image_format v of
       FORMAT_1541 \<Rightarrow>
         if t > 35 then None else if int s \<ge> max4171 ! t then None
         else Some (nat (tosec4171 ! t) + s)
     | FORMAT_1571 \<Rightarrow>
         if t > 70 then None else if int s \<ge> max4171 ! t then None
         else Some (nat (tosec4171 ! t) + s)
     | FORMAT_1581 \<Rightarrow>
         if t > 80 then None else if s \<ge> 40 then None
         else Some ((t - 1) * 40 + s)
     | FORMAT_NP \<Rightarrow>
         if t > num_tracks v then None else if s > 255 then None
         else Some ((t - 1) * 256 + s)
     | FORMAT_SYS \<Rightarrow>
         if t > 1 then None
         else (case itype (cur_image v) of
             DHD \<Rightarrow> if s > 255 then None else Some (t * 256 + s)
           | D1M \<Rightarrow> sys_fd_offset 32 t s
           | D2M \<Rightarrow> sys_fd_offset 72 t s
           | D4M \<Rightarrow> sys_fd_offset 152 t s
           | _ \<Rightarrow> None)
     | _ \<Rightarrow> None)"

definition vdrive_log_to_phy :: "vdrive \<Rightarrow> nat \<Rightarrow> nat \<Rightarrow> disk_addr option" where
  "vdrive_log_to_phy v t s =
    (if current_offset v = UINT32_MAX \<or> image_ptr v = None then None
     else if haspt v then
       (case partition_offset v t s of
          None \<Rightarrow> None
        | Some offset \<Rightarrow>
            if VDRIVE_IS_HD v then
              let t' = current_offset v div 2 ^ 15 + 1;
                  s' = (current_offset v * 2) mod 65536 + offset in
              if s' \<ge> 65536 then Some \<lparr>da_track = t' + 1, da_sector = s' mod 65536\<rparr>
              else Some \<lparr>da_track = t', da_sector = s'\<rparr>
            else
              let offset' = c_uint (offset + current_offset v * 2) in
              Some \<lparr>da_track = offset' div 256 + 1, da_sector = offset' mod 256\<rparr>)
     else if itype (cur_image v) = G71 then
       if t > 70 then None
       else Some \<lparr>da_track = (if t > 35 then t + 7 else t), da_sector = s\<rparr>
     else Some \<lparr>da_track = t, da_sector = s\<rparr>)"

subsection \<open>Logical sector access\<close>

text \<open>The update of \<open>image_mode\<close> that opens both functions.\<close>

definition update_image_mode :: "vdrive \<Rightarrow> vdrive" where
  "update_image_mode v =
    (if image_ptr v \<noteq> None then v\<lparr>image_mode := int (read_only (cur_image v))\<rparr> else v)"

definition vdrive_read_sector :: "vdrive \<Rightarrow> buffer \<Rightarrow> nat \<Rightarrow> nat \<Rightarrow> int \<times> vdrive \<times> buffer" where
  "vdrive_read_sector v buf t s =
    (let v = update_image_mode v in
     if image_mode v < 0 then (CBMDOS_IPE_NOT_READY, v, buf)
     else case vdrive_log_to_phy v t s of
       None \<Rightarrow> (CBMDOS_IPE_NOT_READY, v, buf)
     | Some dadr \<Rightarrow>
         (case disk_image_read_sector (cur_image v) buf dadr of (ret, buf') \<Rightarrow> (ret, v, buf')))"

definition vdrive_write_sector :: "vdrive \<Rightarrow> buffer \<Rightarrow> nat \<Rightarrow> nat \<Rightarrow> int \<times> vdrive" where
  "vdrive_write_sector v buf t s =
    (let v = update_image_mode v in
     if image_mode v > 0 then (CBMDOS_IPE_WRITE_PROTECT_ON, v)
     else if image_mode v < 0 then (CBMDOS_IPE_NOT_READY, v)
     else case vdrive_log_to_phy v t s of
       None \<Rightarrow> (CBMDOS_IPE_NOT_READY, v)
     | Some dadr \<Rightarrow>
         if VDRIVE_IS_1541 v \<and> bam v \<noteq> None \<and> bam_size v > 2 \<and> the (bam v) ! 2 \<noteq> 0x41
         then (CBMDOS_IPE_DOS_VERSION, v)
         else (case disk_image_write_sector (cur_image v) buf dadr of
           (ret, img) \<Rightarrow> (ret, set_cur_image img v)))"

definition vdrive_read_sector_physical :: "vdrive \<Rightarrow> buffer \<Rightarrow> nat \<Rightarrow> nat \<Rightarrow> int \<times> buffer" where
  "vdrive_read_sector_physical v buf t s =
    disk_image_read_sector (cur_image v) buf \<lparr>da_track = t, da_sector = s\<rparr>"

definition vdrive_write_sector_physical :: "vdrive \<Rightarrow> buffer \<Rightarrow> nat \<Rightarrow> nat \<Rightarrow> int \<times> vdrive" where
  "vdrive_write_sector_physical v buf t s =
    (case disk_image_write_sector (cur_image v) buf \<lparr>da_track = t, da_sector = s\<rparr> of
       (ret, img) \<Rightarrow> (ret, set_cur_image img v))"

subsection \<open>Disk geometry\<close>

text \<open>The assignments of one case of the switch in \<^verbatim>\<open>vdrive_set_disk_geometry\<close>.\<close>

definition place_bam ::
  "nat \<times> nat \<Rightarrow> nat \<times> nat \<Rightarrow> nat \<Rightarrow> nat \<Rightarrow> nat \<times> nat \<Rightarrow> vdrive \<Rightarrow> vdrive" where
  "place_bam bm hp name_pos id_pos dr v =
    v\<lparr>Bam_Track := fst bm, Bam_Sector := snd bm, Header_Track := fst hp, Header_Sector := snd hp,
      bam_name := name_pos, bam_id := id_pos, Dir_Track := fst dr, Dir_Sector := snd dr\<rparr>"

text \<open>
  The D9090 and D9060 keep the places of BAM, header and directory in track 0, sector 0;
  \<open>tmp\<close> is the uninitialised buffer of the C function.
\<close>

definition geometry_9000 :: "byte list \<Rightarrow> vdrive \<Rightarrow> vdrive" where
  "geometry_9000 tmp v =
    (let i = num_tracks v div 2;
         (_, v, tmp) = vdrive_read_sector v tmp 0 0;
         b = (\<lambda>k. unat (tmp ! k));
         v = place_bam (b 8, b 9) (b 6, b 7) 6 24 (b 4, b 5) v;
         v = (if Dir_Track v \<noteq> i \<or> Header_Track v \<noteq> i \<or> Bam_Track v \<noteq> 1 \<or> Dir_Sector v \<noteq> 10 \<or>
                Header_Sector v \<noteq> 20
              then v\<lparr>Bam_Track := 1, Bam_Sector := 0, Header_Track := i, Header_Sector := 20,
                Dir_Track := i, Dir_Sector := 10\<rparr>
              else v) in
     v\<lparr>Part_Start := 0\<rparr>)"

definition format_geometry :: "byte list \<Rightarrow> vdrive \<Rightarrow> vdrive" where
  "format_geometry tmp v =
    (case image_format v of
       FORMAT_1541 \<Rightarrow> place_bam (18, 0) (18, 0) 144 162 (18, 1) v
     | FORMAT_2040 \<Rightarrow> place_bam (18, 0) (18, 0) 144 162 (18, 1) v
     | FORMAT_1571 \<Rightarrow> place_bam (18, 0) (18, 0) 144 162 (18, 1) v
     | FORMAT_1581 \<Rightarrow> place_bam (40, 0) (40, 0) 4 22 (40, 3) v
     | FORMAT_8050 \<Rightarrow> place_bam (38, 0) (39, 0) 6 24 (39, 1) v
     | FORMAT_8250 \<Rightarrow> place_bam (38, 0) (39, 0) 6 24 (39, 1) v
     | FORMAT_NP \<Rightarrow> place_bam (1, 1) (1, 1) 4 22 (1, 34) v
     | FORMAT_SYS \<Rightarrow> place_bam (0, 0) (0, 0) 0 0 (1, 0) v
     | FORMAT_9000 \<Rightarrow> geometry_9000 tmp v
     | FORMAT_NONE \<Rightarrow> v)"

definition vdrive_set_disk_geometry :: "byte list \<Rightarrow> vdrive \<Rightarrow> vdrive" where
  "vdrive_set_disk_geometry tmp v =
    (let v = format_geometry tmp (v\<lparr>Part_Start := 1\<rparr>);
         v = v\<lparr>Part_End := num_tracks v\<rparr>;
         p = ix (current_part v) in
     if cheadertrack v ! p = 0 then
       v\<lparr>cheadertrack := (cheadertrack v)[p := Header_Track v],
         cheadersector := (cheadersector v)[p := Header_Sector v],
         cdirtrack := (cdirtrack v)[p := Dir_Track v],
         cdirsector := (cdirsector v)[p := Dir_Sector v],
         cpartstart := (cpartstart v)[p := 1],
         cpartend := (cpartend v)[p := num_tracks v]\<rparr>
     else
       let v = v\<lparr>Header_Track := cheadertrack v ! p, Header_Sector := cheadersector v ! p,
                 Dir_Track := cdirtrack v ! p, Dir_Sector := cdirsector v ! p,
                 Part_Start := cpartstart v ! p, Part_End := cpartend v ! p\<rparr> in
       if image_format v = FORMAT_1581
       then v\<lparr>Bam_Track := Header_Track v, Bam_Sector := Header_Sector v\<rparr> else v)"

subsection \<open>Channel buffers\<close>

definition vdrive_alloc_buffer :: "bufferinfo \<Rightarrow> int \<Rightarrow> buffer_mode \<Rightarrow> bufferinfo" where
  "vdrive_alloc_buffer p num md =
    (let p = (if num \<ge> 0 \<and> num < 5 \<and> 0x300 + 256 * nat num < DRIVE_RAMSIZE
              then p\<lparr>buffer_ptr := BUF_RAM (0x300 + 256 * nat num)\<rparr>
              else case buffer_ptr p of
                BUF_HEAP b \<Rightarrow> p
              | _ \<Rightarrow> p\<lparr>buffer_ptr := BUF_HEAP (replicate 256 0)\<rparr>) in
     p\<lparr>mode := md, bufnum := num\<rparr>)"

definition vdrive_free_buffer :: "bufferinfo \<Rightarrow> bufferinfo" where
  "vdrive_free_buffer p = p\<lparr>mode := BUFFER_NOT_IN_USE\<rparr>"

text \<open>The bytes behind a channel's buffer, and storing a prefix of them.\<close>

definition buffer_contents :: "vdrive \<Rightarrow> bufferinfo \<Rightarrow> buffer" where
  "buffer_contents v p =
    (case buffer_ptr p of BUF_HEAP b \<Rightarrow> b | BUF_RAM off \<Rightarrow> slice (ram v) off 256 | BUF_NULL \<Rightarrow> [])"

definition buffer_store :: "vdrive \<Rightarrow> nat \<Rightarrow> buffer \<Rightarrow> vdrive" where
  "buffer_store v ch bytes =
    (case buffer_ptr (buffers v ! ch) of
       BUF_HEAP b \<Rightarrow>
         v\<lparr>buffers := (buffers v)[ch := (buffers v ! ch)\<lparr>buffer_ptr := BUF_HEAP (write_at b 0 bytes)\<rparr>]\<rparr>
     | BUF_RAM off \<Rightarrow> v\<lparr>ram := write_at (ram v) off bytes\<rparr>
     | BUF_NULL \<Rightarrow> v)"

text \<open>
  The last sector read from a file, which the drive library keeps in static variables of
  \<^verbatim>\<open>vdrive.c\<close>; it is a member of the state here.
\<close>

definition vdrive_get_last_read :: "vdrive \<Rightarrow> nat \<times> nat \<times> buffer" where
  "vdrive_get_last_read v = last_read v"

definition vdrive_set_last_read :: "vdrive \<Rightarrow> nat \<Rightarrow> nat \<Rightarrow> buffer \<Rightarrow> vdrive" where
  "vdrive_set_last_read v t s buf = v\<lparr>last_read := (t, s, take 256 buf)\<rparr>"

subsection \<open>The error channel\<close>

text \<open>
  \<^verbatim>\<open>vdrive_command_set_error\<close> of \<^verbatim>\<open>vdrive-command.c\<close> formats the status with
  \<^verbatim>\<open>sprintf("%02d,%s,%02u,%02u\015")\<close> into the buffer of channel 15.
\<close>

fun decimal :: "nat \<Rightarrow> string" where
  "decimal n = (if n < 10 then [char_of (48 + n)] else decimal (n div 10) @ [char_of (48 + n mod 10)])"

declare decimal.simps [simp del]

definition two_digits :: "nat \<Rightarrow> string" where
  "two_digits n = (if n < 10 then ''0'' @ decimal n else decimal n)"

definition status_line :: "nat \<Rightarrow> nat \<Rightarrow> nat \<Rightarrow> string" where
  "status_line code t s =
    two_digits code @ '','' @ cbmdos_errortext code @ '','' @ two_digits t @ '','' @ two_digits s @
    [CHR 0x0D]"

definition vdrive_command_set_error :: "vdrive \<Rightarrow> int \<Rightarrow> nat \<Rightarrow> nat \<Rightarrow> int \<times> vdrive" where
  "vdrive_command_set_error v code t s =
    (let v = v\<lparr>last_code := code\<rparr>;
         msg = map of_char (status_line (nat code) t s) :: byte list;
         v = buffer_store v 15 (msg @ [0]);
         p = buffers v ! 15 in
     (code, v\<lparr>buffers := (buffers v)[15 := p\<lparr>buf_length := length msg - 1, bufptr := 0, readmode := CBMDOS_FAM_READ\<rparr>]\<rparr>))"

definition vdrive_device_setup :: "vdrive \<Rightarrow> nat \<Rightarrow> vdrive" where
  "vdrive_device_setup v u =
    (let v = v\<lparr>unit_no := u, current_offset := 0, sys_offset := UINT32_MAX, image_format := FORMAT_NONE,
           image_ptr := None, image_mode := -1, current_part := -1, images := (images v)[0 := None],
           buffers := map (\<lambda>(i, p). if i < 15 then p\<lparr>mode := BUFFER_NOT_IN_USE, buffer_ptr := BUF_NULL\<rparr> else p)
             (enumerate 0 (buffers v))\<rparr>;
         v = v\<lparr>buffers := (buffers v)[15 := vdrive_alloc_buffer (buffers v ! 15) (-1) BUFFER_COMMAND_CHANNEL]\<rparr>;
         v = snd (vdrive_command_set_error v CBMDOS_IPE_DOS_VERSION 0 0) in
     v\<lparr>d90toggle := 0, dir_part := 0, last_code := CBMDOS_IPE_OK, mem_buf_next_byte_override := -1\<rparr>)"

subsection \<open>Lemmas on the lookup tables\<close>

lemma tables_4171:
  "map (\<lambda>t. (tosec4171 ! t, max4171 ! t)) [1..<71] =
   map (\<lambda>t. (int (sectors_below D71 t 0), int (disk_image_sector_per_track D71 t))) [1..<71]"
  by (simp add: upt_rec tosec4171_def max4171_def sectors_below_d71 geom_simps)

lemma table_entry:
  assumes "1 \<le> t" "t \<le> 70"
  shows "tosec4171 ! t = int (sectors_below D71 t 0)"
    and "max4171 ! t = int (disk_image_sector_per_track D71 t)"
  using arg_cong [where f = "\<lambda>l. l ! (t - 1)", OF tables_4171] assms by simp_all

subsection \<open>Lemmas on the translation\<close>

text \<open>The number of blocks a partition of each format spans.\<close>

definition partition_blocks :: "vdrive \<Rightarrow> nat" where
  "partition_blocks v =
    (case image_format v of
       FORMAT_1541 \<Rightarrow> 683 | FORMAT_1571 \<Rightarrow> 1366 | FORMAT_1581 \<Rightarrow> 3200
     | FORMAT_NP \<Rightarrow> 256 * num_tracks v
     | FORMAT_SYS \<Rightarrow> (case itype (cur_image v) of DHD \<Rightarrow> 512 | D1M \<Rightarrow> 40 | D2M \<Rightarrow> 80 | D4M \<Rightarrow> 160 | _ \<Rightarrow> 0)
     | _ \<Rightarrow> 0)"

lemma prefix_bound_4171:
  assumes "1 \<le> t" "t \<le> n" "n \<le> 70" "s < disk_image_sector_per_track D71 t"
  shows "sectors_below D71 t 0 + s < sectors_below D71 (Suc n) 0"
  using assms sum_from_step [of t "Suc n" "disk_image_sector_per_track D71" 0]
  by (simp add: sectors_below_def)

lemma partition_offset_table:
  assumes "image_format v \<in> {FORMAT_1541, FORMAT_1571}" "partition_offset v t s = Some k"
  shows "1 \<le> t" "t \<le> (if image_format v = FORMAT_1541 then 35 else 70)"
    and "s < disk_image_sector_per_track D71 t" "k = sectors_below D71 t 0 + s"
  using assms table_entry [of t]
  by (auto simp: partition_offset_def split: if_splits)

lemma linear_bound:
  assumes "1 \<le> (t::nat)" "t \<le> n" "s < w"
  shows "(t - 1) * w + s < w * n"
proof -
  have "(t - 1) * w + w \<le> n * w"
    using assms mult_le_mono1 [of t n w] by (simp add: diff_mult_distrib)
  with assms show ?thesis by (simp add: mult.commute)
qed

lemma linear_inj:
  assumes "1 \<le> (t::nat)" "1 \<le> t'" "s < w" "s' < w" "(t - 1) * w + s = (t' - 1) * w + s'"
  shows "t = t' \<and> s = s'"
  using assms prefix_sum_inj [of t t' s "\<lambda>_. w" s' 0] by (simp add: sum_from_const)

lemma partition_offset_bound:
  assumes "partition_offset v t s = Some k"
  shows "k < partition_blocks v"
proof (cases "image_format v \<in> {FORMAT_1541, FORMAT_1571}")
  case True
  note at = partition_offset_table [OF True assms]
  have "sectors_below D71 (Suc 35) 0 = 683" "sectors_below D71 (Suc 70) 0 = 1366"
    by (simp_all add: sectors_below_d71 geom_simps)
  with True at prefix_bound_4171 [of t 35 s] prefix_bound_4171 [of t 70 s] show ?thesis
    by (auto simp: partition_blocks_def)
next
  case False
  with assms linear_bound [of t 80 s 40] linear_bound [of t "num_tracks v" s 256] show ?thesis
    by (auto simp: partition_offset_def partition_blocks_def sys_fd_offset_def
        split: image_format.splits disk_image_type.splits if_splits)
qed

lemma sys_offset_inj:
  assumes "image_format v = FORMAT_SYS" "partition_offset v t s = Some k" "partition_offset v t' s' = Some k"
  shows "t = t' \<and> s = s'"
proof (cases "itype (cur_image v) = DHD")
  case True
  then have "s < 256" "s' < 256" "t * 256 + s = k" "t' * 256 + s' = k"
    using assms by (auto simp: partition_offset_def split: if_splits)
  then show ?thesis using linear_inj [of "Suc t" "Suc t'" s 256 s'] by simp
next
  case False
  then obtain n where "sys_fd_offset n t s = Some k" "sys_fd_offset n t' s' = Some k" "t \<le> 1" "t' \<le> 1"
    using assms by (cases "itype (cur_image v)") (auto simp: partition_offset_def split: if_splits)
  then show ?thesis by (auto simp: sys_fd_offset_def le_Suc_eq split: if_splits)
qed

lemma partition_offset_inj:
  assumes "partition_offset v t s = Some k" "partition_offset v t' s' = Some k"
  shows "t = t' \<and> s = s'"
proof -
  consider (table) "image_format v \<in> {FORMAT_1541, FORMAT_1571}" | (d81) "image_format v = FORMAT_1581"
    | (np) "image_format v = FORMAT_NP" | (sys) "image_format v = FORMAT_SYS"
    using assms(1) by (cases "image_format v") (auto simp: partition_offset_def split: if_splits)
  then show ?thesis
  proof cases
    case table
    note at = partition_offset_table [OF table assms(1)] and at' = partition_offset_table [OF table assms(2)]
    show ?thesis
      using at at' prefix_sum_inj [of t t' s "disk_image_sector_per_track D71" s' 0]
      by (simp add: sectors_below_def)
  next
    case d81
    with assms have "1 \<le> t" "1 \<le> t'" "s < 40" "s' < 40" "(t - 1) * 40 + s = (t' - 1) * 40 + s'"
      by (auto simp: partition_offset_def split: if_splits)
    then show ?thesis by (rule linear_inj)
  next
    case np
    with assms have "1 \<le> t" "1 \<le> t'" "s < 256" "s' < 256" "(t - 1) * 256 + s = (t' - 1) * 256 + s'"
      by (auto simp: partition_offset_def split: if_splits)
    then show ?thesis by (rule linear_inj)
  next
    case sys
    then show ?thesis using assms by (rule sys_offset_inj)
  qed
qed

text \<open>The number of the block a physical address of a partitioned disk names.\<close>

definition disk_block :: "vdrive \<Rightarrow> disk_addr \<Rightarrow> nat" where
  "disk_block v a = (da_track a - 1) * (if VDRIVE_IS_HD v then 65536 else 256) + da_sector a"

text \<open>What the partition table can hold: 24-bit offsets, and native partitions of up to 255 tracks.\<close>

definition partition_ok :: "vdrive \<Rightarrow> bool" where
  "partition_ok v = (haspt v \<longrightarrow> current_offset v < 2 ^ 24 \<and> num_tracks v \<le> 255)"

lemma partition_blocks_le: "num_tracks v \<le> 255 \<Longrightarrow> partition_blocks v \<le> 65536"
  by (auto simp: partition_blocks_def split: image_format.split disk_image_type.split)

lemma hd_address:
  fixes co k :: nat
  assumes "k \<le> 65536"
  shows "(let t' = co div 2 ^ 15 + 1; s' = (co * 2) mod 65536 + k in
      if s' \<ge> 65536 then t' * 65536 + s' mod 65536 else (t' - 1) * 65536 + s') = 2 * co + k"
proof -
  have q: "co * 2 div 65536 = co div 2 ^ 15"
    using div_mult2_eq [of "co * 2" 2 "2 ^ 15"] by simp
  have e: "co div 2 ^ 15 * 65536 + (co * 2) mod 65536 = co * 2"
    using div_mult_mod_eq [of "co * 2" 65536] by (simp add: q)
  have m: "((co * 2) mod 65536 + k) mod 65536 = (co * 2) mod 65536 + k - 65536"
    if "65536 \<le> (co * 2) mod 65536 + k"
  proof -
    have "(co * 2) mod 65536 + k - 65536 < 65536"
      using assms mod_less_divisor [of 65536 "co * 2"] by linarith
    then show ?thesis using that by (subst le_mod_geq) simp_all
  qed
  show ?thesis using e m by (auto simp: Let_def)
qed

lemma log_to_phy_block:
  assumes "haspt v" "partition_ok v" "vdrive_log_to_phy v t s = Some a"
  shows "\<exists>k. partition_offset v t s = Some k \<and> disk_block v a = 2 * current_offset v + k \<and>
    1 \<le> da_track a \<and> da_sector a < (if VDRIVE_IS_HD v then 65536 else 256)"
proof -
  from assms obtain k where k: "partition_offset v t s = Some k"
    by (auto simp: vdrive_log_to_phy_def split: if_splits option.splits)
  have nt: "num_tracks v \<le> 255" and co: "current_offset v < 2 ^ 24"
    using assms by (auto simp: partition_ok_def)
  have le: "k \<le> 65536"
    using partition_offset_bound [OF k] partition_blocks_le [OF nt] by simp
  have "disk_block v a = 2 * current_offset v + k \<and>
    1 \<le> da_track a \<and> da_sector a < (if VDRIVE_IS_HD v then 65536 else 256)"
  proof (cases "VDRIVE_IS_HD v")
    case True
    with assms k hd_address [OF le, of "current_offset v"] show ?thesis
      by (auto simp: vdrive_log_to_phy_def disk_block_def Let_def split: if_splits)
  next
    case False
    have "c_uint (k + current_offset v * 2) = k + current_offset v * 2"
      using le co by (simp add: c_uint_def)
    with assms k False show ?thesis
      by (auto simp: vdrive_log_to_phy_def disk_block_def Let_def split: if_splits)
  qed
  with k show ?thesis by blast
qed

lemma log_to_phy_inj:
  assumes "partition_ok v" "vdrive_log_to_phy v t s = Some a" "vdrive_log_to_phy v t' s' = Some a"
  shows "t = t' \<and> s = s'"
proof (cases "haspt v")
  case True
  obtain k where k: "partition_offset v t s = Some k" "disk_block v a = 2 * current_offset v + k"
    using log_to_phy_block [OF True assms(1,2)] by auto
  obtain k' where k': "partition_offset v t' s' = Some k'" "disk_block v a = 2 * current_offset v + k'"
    using log_to_phy_block [OF True assms(1,3)] by auto
  from k k' have "k' = k" by simp
  with k(1) k'(1) show ?thesis using partition_offset_inj [of v t s k t' s'] by simp
next
  case False
  with assms(2,3) show ?thesis by (auto simp: vdrive_log_to_phy_def split: if_splits)
qed

subsection \<open>Logical sectors as a sector store\<close>

text \<open>
  A drive with a usable flat image in it whose DOS version byte, if it is a 1541, permits
  writing. A logical sector is valid if its translation lies in the image.
\<close>

definition dos_version_ok :: "vdrive \<Rightarrow> bool" where
  "dos_version_ok v =
    (\<not> (VDRIVE_IS_1541 v \<and> bam v \<noteq> None \<and> bam_size v > 2 \<and> the (bam v) ! 2 \<noteq> 0x41))"

definition drive_ok :: "vdrive \<Rightarrow> bool" where
  "drive_ok v = (image_ptr v \<noteq> None \<and> the (image_ptr v) < length (disk_heap v) \<and>
     dxx_ok (cur_image v) \<and> partition_ok v \<and> dos_version_ok v)"

definition addr_pair :: "disk_addr \<Rightarrow> nat \<times> nat" where
  "addr_pair a = (da_track a, da_sector a)"

definition logical_valid :: "vdrive \<Rightarrow> nat \<times> nat \<Rightarrow> bool" where
  "logical_valid v ts =
    (case vdrive_log_to_phy v (fst ts) (snd ts) of
       None \<Rightarrow> False | Some a \<Rightarrow> in_image (cur_image v) (addr_pair a))"

definition logical_read :: "vdrive \<Rightarrow> nat \<times> nat \<Rightarrow> int \<times> buffer" where
  "logical_read v ts =
    (case vdrive_read_sector v (replicate 256 0) (fst ts) (snd ts) of (r, _, b) \<Rightarrow> (r, b))"

definition logical_write :: "vdrive \<Rightarrow> nat \<times> nat \<Rightarrow> buffer \<Rightarrow> vdrive" where
  "logical_write v ts b = snd (vdrive_write_sector v b (fst ts) (snd ts))"

lemma update_image_mode_simps [simp]:
  "disk_heap (update_image_mode v) = disk_heap v" "image_ptr (update_image_mode v) = image_ptr v"
  "haspt (update_image_mode v) = haspt v" "num_tracks (update_image_mode v) = num_tracks v"
  "current_offset (update_image_mode v) = current_offset v"
  "image_format (update_image_mode v) = image_format v"
  "bam (update_image_mode v) = bam v" "bam_size (update_image_mode v) = bam_size v"
  "bam_state (update_image_mode v) = bam_state v" "bam_tracks (update_image_mode v) = bam_tracks v"
  "bam_sectors (update_image_mode v) = bam_sectors v"
  "cur_image (update_image_mode v) = cur_image v"
  by (simp_all add: update_image_mode_def cur_image_def)

lemma log_to_phy_cong:
  assumes "image_ptr v = image_ptr w" "haspt v = haspt w" "num_tracks v = num_tracks w"
    "current_offset v = current_offset w" "image_format v = image_format w"
    "itype (cur_image v) = itype (cur_image w)"
  shows "vdrive_log_to_phy v = vdrive_log_to_phy w"
  unfolding vdrive_log_to_phy_def [abs_def] partition_offset_def VDRIVE_IS_HD_def assms ..

lemma update_image_mode_log [simp]:
  "vdrive_log_to_phy (update_image_mode v) = vdrive_log_to_phy v"
  by (rule log_to_phy_cong) simp_all

lemma set_cur_image_simps [simp]:
  "image_ptr (set_cur_image i v) = image_ptr v" "haspt (set_cur_image i v) = haspt v"
  "num_tracks (set_cur_image i v) = num_tracks v" "bam (set_cur_image i v) = bam v"
  "current_offset (set_cur_image i v) = current_offset v" "bam_size (set_cur_image i v) = bam_size v"
  "image_format (set_cur_image i v) = image_format v" "bam_state (set_cur_image i v) = bam_state v"
  "bam_tracks (set_cur_image i v) = bam_tracks v" "bam_sectors (set_cur_image i v) = bam_sectors v"
  "length (disk_heap (set_cur_image i v)) = length (disk_heap v)"
  "the (image_ptr v) < length (disk_heap v) \<Longrightarrow> cur_image (set_cur_image i v) = i"
  by (simp_all add: set_cur_image_def cur_image_def)

text \<open>On a usable drive both functions reach the image.\<close>

lemma read_sector_eq:
  assumes "drive_ok v" "vdrive_log_to_phy v t s = Some a"
  shows "vdrive_read_sector v buf t s =
    (fst (disk_image_read_sector (cur_image v) buf a), update_image_mode v,
     snd (disk_image_read_sector (cur_image v) buf a))"
proof -
  have "image_mode (update_image_mode v) = 0"
    using assms(1) by (simp add: drive_ok_def update_image_mode_def dxx_ok_def)
  with assms(2) show ?thesis
    by (simp add: vdrive_read_sector_def Let_def split: prod.split)
qed

lemma write_sector_eq:
  assumes "drive_ok v" "vdrive_log_to_phy v t s = Some a"
  shows "vdrive_write_sector v buf t s =
    (fst (disk_image_write_sector (cur_image v) buf a),
     set_cur_image (snd (disk_image_write_sector (cur_image v) buf a)) (update_image_mode v))"
proof -
  have "image_mode (update_image_mode v) = 0"
    using assms(1) by (simp add: drive_ok_def update_image_mode_def dxx_ok_def)
  moreover have "\<not> (VDRIVE_IS_1541 (update_image_mode v) \<and> bam v \<noteq> None \<and> bam_size v > 2 \<and>
      the (bam v) ! 2 \<noteq> 0x41)"
    using assms(1) by (auto simp: drive_ok_def dos_version_ok_def VDRIVE_IS_1541_def)
  ultimately show ?thesis
    using assms(2) unfolding vdrive_write_sector_def by (auto simp: Let_def split: prod.split)
qed

lemma logical_write_eq:
  assumes "drive_ok v" "vdrive_log_to_phy v t s = Some a"
  shows "logical_write v (t, s) b =
    set_cur_image (image_write (cur_image v) (addr_pair a) b) (update_image_mode v)"
  using write_sector_eq [OF assms] by (cases a) (simp add: logical_write_def image_write_def addr_pair_def)

lemma logical_read_eq:
  assumes "drive_ok v" "vdrive_log_to_phy v t s = Some a"
  shows "logical_read v (t, s) = image_read (cur_image v) (addr_pair a)"
  using read_sector_eq [OF assms] by (cases a) (simp add: logical_read_def image_read_def addr_pair_def)

lemma logical_write_keeps:
  assumes "drive_ok v" "vdrive_log_to_phy v t s = Some a" "in_image (cur_image v) (addr_pair a)"
    "length b = 256"
  shows "cur_image (logical_write v (t, s) b) = image_write (cur_image v) (addr_pair a) b"
    and "vdrive_log_to_phy (logical_write v (t, s) b) = vdrive_log_to_phy v"
    and "drive_ok (logical_write v (t, s) b)"
proof -
  have lt: "the (image_ptr v) < length (disk_heap v)" and dx: "dxx_ok (cur_image v)"
    using assms(1) by (auto simp: drive_ok_def)
  show cur: "cur_image (logical_write v (t, s) b) = image_write (cur_image v) (addr_pair a) b"
    using lt by (simp add: logical_write_eq [OF assms(1,2)])
  have ty: "itype (cur_image (logical_write v (t, s) b)) = itype (cur_image v)"
    unfolding cur using dx assms(3,4) by simp
  show "vdrive_log_to_phy (logical_write v (t, s) b) = vdrive_log_to_phy v"
    using ty by (intro log_to_phy_cong) (simp_all add: logical_write_eq [OF assms(1,2)])
  show "drive_ok (logical_write v (t, s) b)"
    using assms(1) ty cur dxx.write_invar [OF dx assms(3,4)]
    by (auto simp: drive_ok_def partition_ok_def dos_version_ok_def VDRIVE_IS_1541_def
        logical_write_eq [OF assms(1,2)])
qed

interpretation logical: sector_store drive_ok logical_valid "\<lambda>b :: buffer. length b = 256"
  logical_read logical_write
proof unfold_locales
  fix v :: vdrive and ts ts' :: "nat \<times> nat" and b :: buffer
  assume ok: "drive_ok v" and valid: "logical_valid v ts" and b: "length b = 256"
  obtain t s t' s' where ts: "ts = (t, s)" "ts' = (t', s')" by (cases ts, cases ts')
  obtain a where a: "vdrive_log_to_phy v t s = Some a" "in_image (cur_image v) (addr_pair a)"
    using valid ts by (auto simp: logical_valid_def split: option.splits)
  have dx: "dxx_ok (cur_image v)" using ok by (simp add: drive_ok_def)
  note keep = logical_write_keeps [OF ok a b]
  show ok': "drive_ok (logical_write v ts b)" using keep(3) ts by simp
  show "logical_valid (logical_write v ts b) ts' = logical_valid v ts'"
    using keep dx a b ts by (simp add: logical_valid_def dxx.write_valid split: option.split)
  show "logical_read (logical_write v ts b) ts = (0, b)"
    using logical_read_eq [of "logical_write v (t, s) b" t s a] keep dx a b ts
    by (simp add: dxx.read_write_same)
  assume "logical_valid v ts'" and ne: "ts' \<noteq> ts"
  then obtain a' where a': "vdrive_log_to_phy v t' s' = Some a'" "in_image (cur_image v) (addr_pair a')"
    using ts by (auto simp: logical_valid_def split: option.splits)
  have "a' \<noteq> a"
    using log_to_phy_inj [of v t s a t' s'] a(1) a'(1) ne ts ok by (auto simp: drive_ok_def)
  then have "addr_pair a' \<noteq> addr_pair a" by (cases a; cases a') (auto simp: addr_pair_def)
  then show "logical_read (logical_write v ts b) ts' = logical_read v ts'"
    using logical_read_eq [of "logical_write v (t, s) b" t' s' a'] logical_read_eq [OF ok a'(1)]
      keep dx a a' b ts
    by (simp add: dxx.read_write_other)
qed

subsection \<open>Properties\<close>

text \<open>
  The tables \<^verbatim>\<open>tosec4171\<close> and \<^verbatim>\<open>max4171\<close> of the partition code hold, for the tracks 1 to
  70, exactly the block number of the first sector of the track and the number of its
  sectors according to the image geometry.
\<close>

theorem lookup_tables_agree:
  "map (\<lambda>t. (tosec4171 ! t, max4171 ! t)) [1..<71] =
   map (\<lambda>t. (int (sectors_below D71 t 0), int (disk_image_sector_per_track D71 t))) [1..<71] \<and>
   length tosec4171 = 71 \<and> length max4171 = 71"
  using tables_4171 by (simp add: tosec4171_def max4171_def)

text \<open>
  C9. A logical sector of a CMD partition is placed inside the partition: the block its
  physical address names is the partition's start (its offset counts blocks of 512 bytes)
  plus the sector's offset, which is below the size of the partition. No two logical sectors
  get the same physical address.
\<close>

theorem partition_sector_placed:
  assumes "haspt v" "partition_ok v" "vdrive_log_to_phy v t s = Some a"
    "vdrive_log_to_phy v t' s' = Some a'"
  shows "2 * current_offset v \<le> disk_block v a \<and>
    disk_block v a < 2 * current_offset v + partition_blocks v \<and>
    partition_offset v t s = Some (disk_block v a - 2 * current_offset v) \<and>
    (a = a' \<longrightarrow> t = t' \<and> s = s')"
proof -
  obtain k where k: "partition_offset v t s = Some k" "disk_block v a = 2 * current_offset v + k"
    using log_to_phy_block [OF assms(1,2,3)] by auto
  show ?thesis
    using k partition_offset_bound [OF k(1)] log_to_phy_inj [OF assms(2,3)] assms(4) by auto
qed

text \<open>A drive with a blank image, for the witnesses.\<close>

definition blank_drive :: "image_format \<Rightarrow> disk_image \<Rightarrow> nat \<Rightarrow> vdrive" where
  "blank_drive fmt img n =
    \<lparr>unit_no = 8, disk_heap = [img], images = [Some 0, None], image_ptr = Some 0, image_mode = 0,
     image_format = fmt, Bam_Track = 18, Bam_Sector = 0, bam_name = 144, bam_id = 162,
     bam_state = replicate 33 (-1), bam_tracks = replicate 33 (-1), bam_sectors = replicate 33 (-1),
     Header_Track = 18, Header_Sector = 0, Dir_Track = 18, Dir_Sector = 1, num_tracks = n,
     Part_Start = 1, Part_End = n, current_offset = 0, sys_offset = UINT32_MAX, current_part = 0,
     selected_part = 0, default_part = 0, ptype = replicate 256 0, poffset = replicate 256 0,
     psize = replicate 256 0, cheadertrack = replicate 256 0, cheadersector = replicate 256 0,
     cdirtrack = replicate 256 0, cdirsector = replicate 256 0, cpartstart = replicate 256 0,
     cpartend = replicate 256 0, d90toggle = 0, haspt = False, dir_part = 0, dir_count = 0,
     last_code = 0, mem_buf_next_byte_override = -1, bam_size = 256, bam = None,
     buffers = replicate 16 \<lparr>mode = BUFFER_NOT_IN_USE, readmode = 0, buffer_ptr = BUF_NULL,
       bslot = None, bufnum = -1, bufptr = 0, btrack = 0, bsector = 0, buf_length = 0, brecord = 0, bpartition = 0,
       partstart = 0, partend = 0, bsmall = 0, timemode = 0,
       dir = \<lparr>dbuffer = replicate 256 0, find_length = 0, find_nslot = replicate 16 0, find_type = 0, dslot = 0,
         dtrack = 0, dsector = 0, time_low = 0, time_high = 0\<rparr>,
       rel = \<lparr>side_sector = [], side_sector_track = [], side_sector_sector = [], super_side_sector = [],
         super_side_sector_track = 0, super_side_sector_sector = 0, buffer_next = [], track_next = 0, sector_next = 0,
         record_max = 0, record_next = 0, side_sector_needsupdate = [], super_side_sector_needsupdate = 0\<rparr>,
       needsupdate = 0\<rparr>,
     ram = replicate 2048 0, last_read = (0, 0, replicate 256 0)\<rparr>"

theorem partition_sector_placed_witness:
  "2 * 0x8001 \<le> disk_block ((blank_drive FORMAT_1571 ((d64_image 0)\<lparr>itype := DHD\<rparr>) 70)
     \<lparr>haspt := True, current_offset := 0x8001\<rparr>) \<lparr>da_track = 2, da_sector = 685\<rparr>"
proof -
  let ?v = "(blank_drive FORMAT_1571 ((d64_image 0)\<lparr>itype := DHD\<rparr>) 70)
    \<lparr>haspt := True, current_offset := 0x8001\<rparr>"
  have "vdrive_log_to_phy ?v 36 0 = Some \<lparr>da_track = 2, da_sector = 685\<rparr>"
    by (simp add: vdrive_log_to_phy_def partition_offset_def blank_drive_def UINT32_MAX_def
        VDRIVE_IS_HD_def cur_image_def tosec4171_def max4171_def)
  then show ?thesis
    using partition_sector_placed [of ?v 36 0 _ 36 0]
    by (simp add: partition_ok_def blank_drive_def)
qed

text \<open>
  C10. A logical sector of a drive with a usable image reads back as written, with status OK,
  and no other logical sector changes. This holds for every disk format, partitioned or not, and
  for the sectors whose block lies in the first 2 GB of the image file: beyond, as on a large CMD
  hard disk, the offsets of the image layer overflow (C7).
\<close>

theorem logical_sector_roundtrip:
  assumes "drive_ok v" "logical_valid v (t, s)" "logical_valid v (t', s')" "length b = 256"
  shows "\<exists>w. vdrive_write_sector v b t s = (0, w) \<and> drive_ok w \<and>
    logical_read w (t, s) = (CBMDOS_IPE_OK, b) \<and>
    ((t', s') \<noteq> (t, s) \<longrightarrow> logical_read w (t', s') = logical_read v (t', s'))"
proof -
  obtain a where a: "vdrive_log_to_phy v t s = Some a" "in_image (cur_image v) (addr_pair a)"
    using assms(2) by (auto simp: logical_valid_def split: option.splits)
  have "fst (disk_image_write_sector (cur_image v) b a) = 0"
    using image_write_eq [OF _ a(2) assms(4)] assms(1)
    by (cases a) (simp add: drive_ok_def addr_pair_def)
  then have "vdrive_write_sector v b t s = (0, logical_write v (t, s) b)"
    using write_sector_eq [OF assms(1) a(1)] by (simp add: logical_write_def)
  then show ?thesis
    using assms by (auto simp: logical.store_simps)
qed

lemma blank_drive_ok:
  assumes "length f = 174848"
  shows "drive_ok (blank_drive FORMAT_1541 (d64_file_image f None) 35)"
    and "1 \<le> t \<Longrightarrow> t \<le> 35 \<Longrightarrow> s < disk_image_sector_per_track D64 t \<Longrightarrow>
      logical_valid (blank_drive FORMAT_1541 (d64_file_image f None) 35) (t, s)"
proof -
  let ?v = "blank_drive FORMAT_1541 (d64_file_image f None) 35"
  have img: "cur_image ?v = d64_file_image f None" by (simp add: cur_image_def blank_drive_def)
  have "itype (d64_file_image f None) = D64" by (simp add: d64_file_image_def d64_image_def)
  then have phy: "vdrive_log_to_phy ?v t s = Some \<lparr>da_track = t, da_sector = s\<rparr>" for t s
    by (simp add: vdrive_log_to_phy_def img) (simp add: blank_drive_def UINT32_MAX_def)
  show "drive_ok ?v"
    using d64_file_image_ok [OF assms] img
    by (simp add: drive_ok_def partition_ok_def dos_version_ok_def) (simp add: blank_drive_def)
  show "1 \<le> t \<Longrightarrow> t \<le> 35 \<Longrightarrow> s < disk_image_sector_per_track D64 t \<Longrightarrow> logical_valid ?v (t, s)"
    using d64_file_image_in [OF assms, of t s] by (simp add: logical_valid_def phy img addr_pair_def)
qed

theorem logical_sector_roundtrip_witness:
  "\<exists>w. vdrive_write_sector (blank_drive FORMAT_1541 (d64_file_image (replicate 174848 0) None) 35)
      (replicate 256 7) 17 3 = (0, w) \<and> drive_ok w \<and>
    logical_read w (17, 3) = (CBMDOS_IPE_OK, replicate 256 7) \<and>
    logical_read w (18, 0) =
      logical_read (blank_drive FORMAT_1541 (d64_file_image (replicate 174848 0) None) 35) (18, 0)"
  using logical_sector_roundtrip [of "blank_drive FORMAT_1541 (d64_file_image (replicate 174848 0) None) 35"
      17 3 18 0 "replicate 256 7"]
  by (simp add: blank_drive_ok geom_simps)

text \<open>
  C11. The refusals of the logical sector functions. \<open>in_partition\<close> says which addresses a
  partition has: the tracks and sectors of a 1541, 1571 or 1581 disk, 256 sectors on each track
  of a native partition, and the two tracks of the system partition. A disk without partitions
  leaves the address to the image, except that a G71 ends with track 70, and a drive that is in
  no partition has none. An address outside is error 74 on reading and on writing (26 on a write-protected image); the
  caller's buffer and every image are untouched. An address inside reaches the image: reading
  gives what the image gives at the physical address, and writing does what the image does,
  unless the image is write-protected, error 26, or a 1541 whose BAM does not carry the DOS
  version byte 0x41, error 73. With no disk both are error 74.
\<close>

definition in_partition :: "vdrive \<Rightarrow> nat \<Rightarrow> nat \<Rightarrow> bool" where
  "in_partition v t s =
    (case image_format v of
       FORMAT_1541 \<Rightarrow> 1 \<le> t \<and> t \<le> 35 \<and> s < disk_image_sector_per_track D64 t
     | FORMAT_1571 \<Rightarrow> 1 \<le> t \<and> t \<le> 70 \<and> s < disk_image_sector_per_track D71 t
     | FORMAT_1581 \<Rightarrow> 1 \<le> t \<and> t \<le> 80 \<and> s < 40
     | FORMAT_NP \<Rightarrow> 1 \<le> t \<and> t \<le> num_tracks v \<and> s < 256
     | FORMAT_SYS \<Rightarrow> t \<le> 1 \<and>
         (case itype (cur_image v) of
            DHD \<Rightarrow> s < 256
          | D1M \<Rightarrow> s < (if t = 0 then 8 else 32)
          | D2M \<Rightarrow> s < (if t = 0 then 8 else 72)
          | D4M \<Rightarrow> s < (if t = 0 then 8 else 152)
          | _ \<Rightarrow> False)
     | _ \<Rightarrow> False)"

definition addressable :: "vdrive \<Rightarrow> nat \<Rightarrow> nat \<Rightarrow> bool" where
  "addressable v t s = (current_offset v \<noteq> UINT32_MAX \<and>
     (if haspt v then in_partition v t s else itype (cur_image v) = G71 \<longrightarrow> t \<le> 70))"

lemma partition_offset_iff: "partition_offset v t s = None \<longleftrightarrow> \<not> in_partition v t s"
proof -
  consider "image_format v = FORMAT_1541" | "image_format v = FORMAT_1571" | "image_format v = FORMAT_SYS"
    | "image_format v \<notin> {FORMAT_1541, FORMAT_1571, FORMAT_SYS}" by blast
  then show ?thesis
  proof cases
    case 3
    then show ?thesis
      by (cases "itype (cur_image v)") (auto simp: partition_offset_def in_partition_def sys_fd_offset_def)
  next
    case 4
    then show ?thesis by (cases "image_format v") (auto simp: partition_offset_def in_partition_def)
  qed (use table_entry(2) [of t] sector_per_track_d71 [of t] in \<open>auto simp: partition_offset_def in_partition_def\<close>)
qed

lemma log_to_phy_iff: "image_ptr v \<noteq> None \<Longrightarrow> vdrive_log_to_phy v t s = None \<longleftrightarrow> \<not> addressable v t s"
  by (auto simp: vdrive_log_to_phy_def addressable_def Let_def partition_offset_iff [symmetric] split: option.split)

theorem logical_sector_refusals:
  assumes "image_ptr v \<noteq> None" and "image_ptr e = None" "image_mode e < 0"
  defines "w \<equiv> v\<lparr>image_mode := int (read_only (cur_image v))\<rparr>" and "protected \<equiv> read_only (cur_image v) \<noteq> 0"
  shows "(\<not> addressable v t s \<longrightarrow>
      vdrive_read_sector v buf t s = (74, w, buf) \<and>
      vdrive_write_sector v buf t s = (if protected then 26 else 74, w)) \<and>
    (addressable v t s \<longrightarrow> (\<exists>a. vdrive_log_to_phy v t s = Some a \<and>
      vdrive_read_sector v buf t s =
        (case disk_image_read_sector (cur_image v) buf a of (r, buf') \<Rightarrow> (r, w, buf')) \<and>
      vdrive_write_sector v buf t s =
        (if protected then (26, w)
         else if VDRIVE_IS_1541 v \<and> bam v \<noteq> None \<and> bam_size v > 2 \<and> the (bam v) ! 2 \<noteq> 0x41 then (73, w)
         else (case disk_image_write_sector (cur_image v) buf a of (r, img) \<Rightarrow> (r, set_cur_image img w))))) \<and>
    vdrive_read_sector e buf t s = (74, e, buf) \<and> vdrive_write_sector e buf t s = (74, e)"
proof -
  have m: "update_image_mode v = w" "update_image_mode e = e"
    using assms(1,2) by (simp_all add: update_image_mode_def w_def)
  have keeps: "vdrive_log_to_phy w = vdrive_log_to_phy v" "cur_image w = cur_image v" "VDRIVE_IS_1541 w = VDRIVE_IS_1541 v"
    "bam w = bam v" "bam_size w = bam_size v" "image_mode w = int (read_only (cur_image v))"
    using update_image_mode_log [of v] update_image_mode_simps [of v] m(1)
    by (simp_all add: w_def VDRIVE_IS_1541_def)
  have "vdrive_read_sector e buf t s = (74, e, buf) \<and> vdrive_write_sector e buf t s = (74, e)"
    using assms(3) by (simp add: vdrive_read_sector_def vdrive_write_sector_def m Let_def)
  moreover have "vdrive_read_sector v buf t s = (74, w, buf) \<and> vdrive_write_sector v buf t s = (if protected then 26 else 74, w)"
    if "\<not> addressable v t s"
    using that log_to_phy_iff [OF assms(1), of t s]
    by (simp add: vdrive_read_sector_def vdrive_write_sector_def m keeps protected_def)
  moreover have "\<exists>a. vdrive_log_to_phy v t s = Some a \<and>
      vdrive_read_sector v buf t s =
        (case disk_image_read_sector (cur_image v) buf a of (r, buf') \<Rightarrow> (r, w, buf')) \<and>
      vdrive_write_sector v buf t s =
        (if protected then (26, w)
         else if VDRIVE_IS_1541 v \<and> bam v \<noteq> None \<and> bam_size v > 2 \<and> the (bam v) ! 2 \<noteq> 0x41 then (73, w)
         else (case disk_image_write_sector (cur_image v) buf a of (r, img) \<Rightarrow> (r, set_cur_image img w)))"
    if "addressable v t s"
  proof -
    obtain a where a: "vdrive_log_to_phy v t s = Some a"
      using \<open>addressable v t s\<close> log_to_phy_iff [OF assms(1), of t s] by auto
    then show ?thesis
      by (intro exI [of _ a]) (auto simp: vdrive_read_sector_def vdrive_write_sector_def m keeps protected_def Let_def)
  qed
  ultimately show ?thesis by blast
qed

text \<open>A 1541 partition of a CMD disk, and a 1541 disk whose BAM is in memory; both images have no file.\<close>

definition part_1541 :: "nat \<Rightarrow> vdrive" where
  "part_1541 ro = (blank_drive FORMAT_1541 ((d64_image 0)\<lparr>itype := D2M, read_only := ro\<rparr>) 35)\<lparr>haspt := True\<rparr>"

definition foreign_1541 :: vdrive where
  "foreign_1541 = (blank_drive FORMAT_1541 (d64_image 35) 35)\<lparr>bam := Some [18, 1, 0x40]\<rparr>"

theorem logical_sector_refusals_witness:
  "(\<exists>w. vdrive_read_sector (part_1541 0) [9] 18 19 = (74, w, [9])) \<and>
   fst (vdrive_write_sector (part_1541 0) [9] 18 19) = 74 \<and>
   fst (vdrive_write_sector (part_1541 1) [9] 18 18) = 26 \<and>
   fst (vdrive_write_sector foreign_1541 [9] 18 18) = 73 \<and>
   fst (vdrive_write_sector (foreign_1541\<lparr>image_ptr := None, image_mode := -1\<rparr>) [9] 18 18) = 74"
proof -
  let ?e = "foreign_1541\<lparr>image_ptr := None, image_mode := -1\<rparr>"
  have p: "image_ptr (part_1541 r) \<noteq> None" "read_only (cur_image (part_1541 r)) = r"
    "addressable (part_1541 r) 18 s \<longleftrightarrow> s < 19" for r s
    by (simp_all add: part_1541_def blank_drive_def cur_image_def d64_image_def addressable_def
        in_partition_def UINT32_MAX_def geom_simps)
  have f: "image_ptr foreign_1541 \<noteq> None" "read_only (cur_image foreign_1541) = 0" "addressable foreign_1541 18 18"
    "VDRIVE_IS_1541 foreign_1541" "bam foreign_1541 = Some [18, 1, 0x40]" "bam_size foreign_1541 = 256"
    by (simp_all add: foreign_1541_def blank_drive_def cur_image_def d64_image_def addressable_def
        VDRIVE_IS_1541_def UINT32_MAX_def)
  have e: "image_ptr ?e = None" "image_mode ?e < 0" by simp_all
  have "(\<exists>w. vdrive_read_sector (part_1541 0) [9] 18 19 = (74, w, [9])) \<and> fst (vdrive_write_sector (part_1541 0) [9] 18 19) = 74"
    using logical_sector_refusals [OF p(1) e, of 0 18 19 "[9]"] p(2,3) by simp
  moreover have "fst (vdrive_write_sector (part_1541 1) [9] 18 18) = 26"
    using logical_sector_refusals [OF p(1) e, of 1 18 18 "[9]"] p(2,3) by auto
  moreover have "fst (vdrive_write_sector foreign_1541 [9] 18 18) = 73 \<and> fst (vdrive_write_sector ?e [9] 18 18) = 74"
    using logical_sector_refusals [OF f(1) e, of 18 18 "[9]"] f(2-) by auto
  ultimately show ?thesis by blast
qed

end
