(* ===== verification/Bam.thy ===== *)
theory Bam
  imports Vdrive
begin

text \<open>
  The block availability map (\<^verbatim>\<open>lib/vdrive/vdrive-bam.c\<close>): loading and storing its blocks,
  the place of a track's entry in each disk format, allocating and freeing a sector, and
  the searches for a free sector. A pointer into the BAM, \<^verbatim>\<open>bamp\<close>, is an offset into \<open>bam\<close>;
  NULL is \<open>None\<close>. In an entry a count of free sectors is followed by one bit per sector,
  set if the sector is free.

  The buffers the C functions leave uninitialised are arguments: \<open>junk\<close> is the content of
  freshly allocated memory, \<open>tmp\<close> that of a local array.
\<close>

subsection \<open>Loading BAM blocks\<close>

definition bam_byte :: "vdrive \<Rightarrow> nat \<Rightarrow> byte" where
  "bam_byte v i = the (bam v) ! i"

definition bam_put :: "nat \<Rightarrow> byte \<Rightarrow> vdrive \<Rightarrow> vdrive" where
  "bam_put i x v = v\<lparr>bam := Some ((the (bam v))[i := x])\<rparr>"

definition bam_mark :: "nat \<Rightarrow> int \<Rightarrow> vdrive \<Rightarrow> vdrive" where
  "bam_mark p st v = v\<lparr>bam_state := (bam_state v)[p := st]\<rparr>"

text \<open>The loops that give the three BAM blocks of a 1581 partition their places.\<close>

definition place_1581 :: "vdrive \<Rightarrow> vdrive" where
  "place_1581 v =
    foldl (\<lambda>v i. v\<lparr>bam_tracks := (bam_tracks v)[i := int (Bam_Track v)],
                   bam_sectors := (bam_sectors v)[i := int (Bam_Sector v + i)]\<rparr>) v [0..<3]"

text \<open>The part of \<^verbatim>\<open>vdrive_bam_read_bam_block\<close> from the switch on, entered with \<open>err\<close>.\<close>

definition load_bam_block :: "vdrive \<Rightarrow> nat \<Rightarrow> int \<Rightarrow> int \<times> vdrive" where
  "load_bam_block v blk err =
    (let v = (if image_format v = FORMAT_1581 then place_1581 v else v);
         (err, v) =
           (if image_format v \<in> {FORMAT_SYS, FORMAT_NONE} then (err, v)
            else if bam_tracks v ! blk \<ge> 0 then
              (case vdrive_read_sector v (slice (the (bam v)) (blk * 256) 256)
                   (c_unsigned (bam_tracks v ! blk)) (c_unsigned (bam_sectors v ! blk)) of
                 (r, v, buf) \<Rightarrow>
                   let v = v\<lparr>bam := Some (write_at (the (bam v)) (blk * 256) buf)\<rparr>;
                       v = (if image_format v = FORMAT_1541
                            then v\<lparr>ram := write_at (ram v) 0x700 (take 256 (the (bam v)))\<rparr> else v) in
                   (r, v))
            else (err, v));
         v = (if err = 0 then bam_mark blk 0 v else v) in
     (if err < 0 then CBMDOS_IPE_NOT_READY else err, v))"

text \<open>
  The blocks of a D9090 BAM are found by following links; \<open>read_bam_links\<close> is the loop of
  the C function with \<open>i = j + 2\<close>, and its first result is set when the function returns
  from inside the loop.
\<close>

function vdrive_bam_read_bam_block :: "vdrive \<Rightarrow> nat \<Rightarrow> int \<times> vdrive"
  and read_bam_links :: "vdrive \<Rightarrow> nat \<Rightarrow> nat \<Rightarrow> int \<Rightarrow> bool \<times> int \<times> vdrive" where
  "vdrive_bam_read_bam_block v blk =
    (if blk \<ge> VDRIVE_BAM_MAX_STATES then (-1, v)
     else if bam_state v ! blk \<ge> 0 then (CBMDOS_IPE_OK, v)
     else if image_format v = FORMAT_9000 then
       (case read_bam_links v 0 blk (-1) of
          (stop, err, v) \<Rightarrow> if stop then (err, v) else load_bam_block v blk err)
     else load_bam_block v blk (-1))"
| "read_bam_links v j blk err =
    (if j + 2 \<le> blk then
       if bam_tracks v ! (j + 2) < 0 then
         (case vdrive_bam_read_bam_block v (j + 1) of
            (err, v) \<Rightarrow>
              if err < 0 then (True, CBMDOS_IPE_NOT_READY, v)
              else if err > 0 then (True, err, v)
              else read_bam_links
                (v\<lparr>bam_tracks := (bam_tracks v)[j + 2 := uint (bam_byte v ((j + 1) * 256))],
                   bam_sectors := (bam_sectors v)[j + 2 := uint (bam_byte v ((j + 1) * 256 + 1))]\<rparr>)
                (j + 1) blk err)
       else read_bam_links v (j + 1) blk err
     else (False, err, v))"
  by pat_completeness auto
termination
  by (relation "measures [\<lambda>x. case x of Inl (v, b) \<Rightarrow> b | Inr (v, j, b, e) \<Rightarrow> b,
       \<lambda>x. case x of Inl (v, b) \<Rightarrow> Suc (Suc b) | Inr (v, j, b, e) \<Rightarrow> Suc b - j]") auto

declare vdrive_bam_read_bam_block.simps [simp del] read_bam_links.simps [simp del]

subsection \<open>Format constants\<close>

definition vdrive_calculate_disk_half :: "vdrive \<Rightarrow> int" where
  "vdrive_calculate_disk_half v =
    (case image_format v of
       FORMAT_1541 \<Rightarrow> 17 + 5 | FORMAT_2040 \<Rightarrow> 17 + 5
     | FORMAT_1571 \<Rightarrow> 17 + 35
     | FORMAT_1581 \<Rightarrow> 40
     | FORMAT_8050 \<Rightarrow> 39
     | FORMAT_8250 \<Rightarrow> 39 + 78
     | FORMAT_NP \<Rightarrow> int (num_tracks v) - 1
     | FORMAT_9000 \<Rightarrow> int (num_tracks v) - 1
     | _ \<Rightarrow> -1)"

definition vdrive_bam_get_interleave :: "vdrive \<Rightarrow> nat" where
  "vdrive_bam_get_interleave v =
    (case image_format v of
       FORMAT_1541 \<Rightarrow> if haspt v then 1 else 10
     | FORMAT_1571 \<Rightarrow> if haspt v then 1 else 6
     | FORMAT_2040 \<Rightarrow> 10
     | FORMAT_1581 \<Rightarrow> 1
     | FORMAT_8050 \<Rightarrow> 6
     | FORMAT_8250 \<Rightarrow> 5
     | FORMAT_NP \<Rightarrow> 1
     | FORMAT_9000 \<Rightarrow> 10
     | _ \<Rightarrow> 10)"

subsection \<open>Bits of an entry\<close>

definition vdrive_bam_set :: "vdrive \<Rightarrow> nat \<Rightarrow> nat \<Rightarrow> vdrive" where
  "vdrive_bam_set v bamp s =
    (let t = bamp + 1 + s div 8; p = t div 256;
         v = snd (vdrive_bam_read_bam_block v p);
         v = bam_put t (bam_byte v t OR push_bit (s mod 8) 1) v in
     bam_mark p 1 v)"

definition vdrive_bam_clr :: "vdrive \<Rightarrow> nat \<Rightarrow> nat \<Rightarrow> vdrive" where
  "vdrive_bam_clr v bamp s =
    (let t = bamp + 1 + s div 8; p = t div 256;
         v = snd (vdrive_bam_read_bam_block v p);
         v = bam_put t (bam_byte v t AND NOT (push_bit (s mod 8) 1)) v in
     bam_mark p 1 v)"

definition vdrive_bam_isset :: "vdrive \<Rightarrow> nat \<Rightarrow> nat \<Rightarrow> byte \<times> vdrive" where
  "vdrive_bam_isset v bamp s =
    (let t = bamp + 1 + s div 8; p = t div 256;
         v = snd (vdrive_bam_read_bam_block v p) in
     (bam_byte v t AND push_bit (s mod 8) 1, v))"

subsection \<open>The entry of a track\<close>

text \<open>The loops over the BAM blocks of the 8050 and 8250, and of the D9090.\<close>

function entry_search_8050 :: "vdrive \<Rightarrow> nat \<Rightarrow> nat \<Rightarrow> nat option \<times> vdrive" where
  "entry_search_8050 v t i =
    (if i < 5 then
       if bam_tracks v ! i > 0 then
         (case vdrive_bam_read_bam_block v i of
            (err, v) \<Rightarrow>
              if err \<noteq> 0 then (None, v)
              else if t \<ge> unat (bam_byte v (i * 0x100 + 4)) \<and> t < unat (bam_byte v (i * 0x100 + 5))
              then (Some (i * 0x100 + 6 + 5 * (t - unat (bam_byte v (i * 0x100 + 4)))), v)
              else entry_search_8050 v t (Suc i))
       else entry_search_8050 v t (Suc i)
     else (None, v))"
  by pat_completeness auto
termination
  by (relation "measure (\<lambda>(v, t, i). 5 - i)") auto

function entry_search_9000 :: "vdrive \<Rightarrow> nat \<Rightarrow> nat \<Rightarrow> nat \<Rightarrow> nat \<Rightarrow> nat option \<times> vdrive" where
  "entry_search_9000 v t g n i =
    (if i < n then
       (case vdrive_bam_read_bam_block v i of
          (err, v) \<Rightarrow>
            if err \<noteq> 0 then (None, v)
            else if t \<ge> unat (bam_byte v (i * 0x100 + 4)) \<and> t < unat (bam_byte v (i * 0x100 + 5))
            then (Some (i * 0x100 + 16 + 5 * ((t - unat (bam_byte v (i * 0x100 + 4)))
                    * (isectors (cur_image v) div 32) + g)), v)
            else entry_search_9000 v t g n (Suc i))
     else (None, v))"
  by pat_completeness auto
termination
  by (relation "measure (\<lambda>(v, t, g, n, i). n - i)") auto

declare entry_search_8050.simps [simp del] entry_search_9000.simps [simp del]

definition vdrive_bam_get_track_entry :: "vdrive \<Rightarrow> nat \<Rightarrow> nat \<Rightarrow> nat option \<times> vdrive" where
  "vdrive_bam_get_track_entry v t s =
    (if t = 0 \<and> image_format v \<noteq> FORMAT_9000 then (None, v)
     else case image_format v of
       FORMAT_1541 \<Rightarrow> (Some (if t \<le> 35 then 4 + 4 * (t - 1) else 172 + 4 * (t - 35 - 1)), v)
     | FORMAT_2040 \<Rightarrow> (Some (if t \<le> 35 then 4 + 4 * (t - 1) else 172 + 4 * (t - 35 - 1)), v)
     | FORMAT_1571 \<Rightarrow> (Some (if t \<le> 35 then 4 + 4 * (t - 1) else 0x100 + 3 * (t - 35 - 1) - 1), v)
     | FORMAT_1581 \<Rightarrow>
         (Some (if t \<le> 40 then 0x100 + 16 + 6 * (t - 1) else 0x200 + 16 + 6 * (t - 40 - 1)), v)
     | FORMAT_8050 \<Rightarrow> entry_search_8050 v t 1
     | FORMAT_8250 \<Rightarrow> entry_search_8050 v t 1
     | FORMAT_NP \<Rightarrow> (Some (0x100 + 32 + 32 * (t - 1) - 1), v)
     | FORMAT_9000 \<Rightarrow> entry_search_9000 v t (s div 32) (bam_size v div 256) 1
     | _ \<Rightarrow> (None, v))"

definition vdrive_bam_sector_free :: "vdrive \<Rightarrow> nat \<Rightarrow> nat \<Rightarrow> int \<Rightarrow> vdrive" where
  "vdrive_bam_sector_free v bamp t add =
    (let p = bamp div 256 in
     if image_format v \<in> {FORMAT_1541, FORMAT_2040, FORMAT_1581, FORMAT_8050, FORMAT_8250, FORMAT_9000}
     then
       let v = snd (vdrive_bam_read_bam_block v p);
           v = bam_put bamp (bam_byte v bamp + word_of_int add) v in
       bam_mark p 1 v
     else if image_format v = FORMAT_1571 then
       let v = snd (vdrive_bam_read_bam_block v p);
           v = bam_mark p 1 v in
       if t \<le> 35 then bam_put bamp (bam_byte v bamp + word_of_int add) v
       else
         let c = 221 + t - 35 - 1;
             v = snd (vdrive_bam_read_bam_block v (c div 256));
             v = bam_put c (bam_byte v c + word_of_int add) v in
         bam_mark (c div 256) 1 v
     else v)"

subsection \<open>Allocating and freeing a sector\<close>

text \<open>
  The native partitions number the bits of a byte from the top, and a D9090 entry covers 32
  sectors of a track.
\<close>

definition np_sector :: "vdrive \<Rightarrow> nat \<Rightarrow> nat" where
  "np_sector v s = (if image_format v = FORMAT_NP then s XOR 7 else s)"

definition entry_sector :: "vdrive \<Rightarrow> nat \<Rightarrow> nat" where
  "entry_sector v s = (if image_format v = FORMAT_9000 then s AND 31 else s)"

definition vdrive_bam_allocate_sector :: "vdrive \<Rightarrow> nat \<Rightarrow> nat \<Rightarrow> nat \<times> vdrive" where
  "vdrive_bam_allocate_sector v t s =
    (if t > 70 \<and> image_format v = FORMAT_1571 then (0, v)
     else
       let s = np_sector v s;
           (bamp, v) = vdrive_bam_get_track_entry v t s;
           s = entry_sector v s in
       case bamp of
         None \<Rightarrow> (0, v)
       | Some bamp \<Rightarrow>
           (case vdrive_bam_isset v bamp s of
              (b, v) \<Rightarrow>
                if b \<noteq> 0 then (1, vdrive_bam_sector_free (vdrive_bam_clr v bamp s) bamp t (-1))
                else (0, v)))"

definition vdrive_bam_free_sector :: "vdrive \<Rightarrow> nat \<Rightarrow> nat \<Rightarrow> nat \<times> vdrive" where
  "vdrive_bam_free_sector v t s =
    (if t > 70 \<and> image_format v = FORMAT_1571 then (0, v)
     else
       let s = np_sector v s;
           (bamp, v) = vdrive_bam_get_track_entry v t s;
           s = entry_sector v s in
       case bamp of
         None \<Rightarrow> (0, v)
       | Some bamp \<Rightarrow>
           (case vdrive_bam_isset v bamp s of
              (b, v) \<Rightarrow>
                if b = 0 then (1, vdrive_bam_sector_free (vdrive_bam_set v bamp s) bamp t 1)
                else (0, v)))"

definition vdrive_bam_is_sector_allocated :: "vdrive \<Rightarrow> nat \<Rightarrow> nat \<Rightarrow> int \<times> vdrive" where
  "vdrive_bam_is_sector_allocated v t s =
    (if t > 70 \<and> image_format v = FORMAT_1571 then (-1, v)
     else
       let s = np_sector v s;
           (bamp, v) = vdrive_bam_get_track_entry v t s;
           s = entry_sector v s in
       case bamp of
         None \<Rightarrow> (0, v)
       | Some bamp \<Rightarrow>
           (case vdrive_bam_isset v bamp s of (b, v) \<Rightarrow> (if b = 0 then 1 else 0, v)))"

subsection \<open>Searching for a free sector\<close>

text \<open>
  The two loops of \<^verbatim>\<open>vdrive_bam_alloc_worker\<close>: \<open>worker_scan\<close> tries the sectors of one group,
  at most \<open>n\<close> of them, wrapping around at \<open>mx\<close>; \<open>worker_groups\<close> goes through the groups.
  A group size of 0 would divide by zero in C before the loop; no format has it.
\<close>

fun worker_scan :: "vdrive \<Rightarrow> nat \<Rightarrow> nat \<Rightarrow> nat \<Rightarrow> nat \<Rightarrow> nat \<Rightarrow> nat option \<times> nat \<times> vdrive" where
  "worker_scan v t mx h s 0 = (None, s, v)"
| "worker_scan v t mx h s (Suc n) =
    (case vdrive_bam_allocate_sector v t (s + h) of
       (r, v) \<Rightarrow>
         if r \<noteq> 0 then (Some (s + h), s, v)
         else worker_scan v t mx h (if Suc s \<ge> mx then 0 else Suc s) n)"

function worker_groups ::
  "vdrive \<Rightarrow> nat \<Rightarrow> nat \<Rightarrow> nat \<Rightarrow> nat \<Rightarrow> nat \<Rightarrow> nat \<Rightarrow> nat option \<times> vdrive" where
  "worker_groups v t mx mx_all h s h2 =
    (if h2 < mx_all \<and> 0 < mx then
       (case worker_scan v t mx h s mx of
          (Some found, s, v) \<Rightarrow> (Some found, v)
        | (None, s, v) \<Rightarrow>
            worker_groups v t mx mx_all (if h + mx \<ge> mx_all then 0 else h + mx) s (h2 + mx))
     else (None, v))"
  by pat_completeness auto
termination
  by (relation "measure (\<lambda>(v, t, mx, mx_all, h, s, h2). mx_all - h2)") auto

declare worker_groups.simps [simp del]

definition vdrive_bam_alloc_worker :: "vdrive \<Rightarrow> nat \<Rightarrow> nat \<Rightarrow> int \<times> vdrive \<times> nat" where
  "vdrive_bam_alloc_worker v t s =
    (let mx = c_unsigned (vdrive_get_max_sectors_per_head v t);
         mx_all = c_unsigned (vdrive_get_max_sectors v t) in
     case worker_groups v t mx mx_all (s div mx * mx) (s mod mx) 0 of
       (Some found, v) \<Rightarrow> (0, v, found)
     | (None, v) \<Rightarrow> (-1, v, s))"

definition vdrive_bam_alloc_add_interleave :: "vdrive \<Rightarrow> nat \<Rightarrow> nat \<Rightarrow> nat \<Rightarrow> nat" where
  "vdrive_bam_alloc_add_interleave v t sec il =
    (let mx = c_unsigned (vdrive_get_max_sectors_per_head v t);
         mx_all = c_unsigned (vdrive_get_max_sectors v t);
         (s, h) = (if sec \<ge> mx_all then (sec, 0) else (sec mod mx, sec div mx * mx));
         s = s + il;
         s = (if s \<ge> mx then (if s - mx \<noteq> 0 then s - mx - 1 else 0) else s) in
     s + h)"

fun vdrive_bam_alloc_down :: "vdrive \<Rightarrow> nat \<Rightarrow> nat \<Rightarrow> nat \<Rightarrow> int \<times> vdrive \<times> nat \<times> nat" where
  "vdrive_bam_alloc_down v 0 sec il = (-1, v, 0, sec)"
| "vdrive_bam_alloc_down v (Suc n) sec il =
    (case vdrive_bam_alloc_worker v (Suc n) (vdrive_bam_alloc_add_interleave v (Suc n) sec il) of
       (r, v, s) \<Rightarrow>
         if r = 0 then (0, v, Suc n, s)
         else vdrive_bam_alloc_down v n sec il)"

text \<open>
  The loop of \<^verbatim>\<open>vdrive_bam_alloc_up\<close> over the tracks \<open>t\<close> to \<^verbatim>\<open>num_tracks\<close>, \<open>n\<close> of them. On
  failure the caller's track and sector are unchanged; the results are used on success only.
\<close>

fun alloc_up_loop :: "vdrive \<Rightarrow> nat \<Rightarrow> nat \<Rightarrow> nat \<Rightarrow> nat \<Rightarrow> int \<times> vdrive \<times> nat \<times> nat" where
  "alloc_up_loop v t sec il 0 = (-1, v, t, sec)"
| "alloc_up_loop v t sec il (Suc n) =
    (case vdrive_bam_alloc_worker v t (vdrive_bam_alloc_add_interleave v t sec il) of
       (r, v, s) \<Rightarrow>
         if r = 0 then (0, v, t, s)
         else alloc_up_loop v (Suc t) sec il n)"

definition vdrive_bam_alloc_up :: "vdrive \<Rightarrow> nat \<Rightarrow> nat \<Rightarrow> nat \<Rightarrow> int \<times> vdrive \<times> nat \<times> nat" where
  "vdrive_bam_alloc_up v t sec il = alloc_up_loop v t sec il (Suc (num_tracks v) - t)"

definition vdrive_bam_alloc_next_free_sector_reset :: "vdrive \<Rightarrow> nat \<Rightarrow> nat \<Rightarrow> nat \<Rightarrow> nat" where
  "vdrive_bam_alloc_next_free_sector_reset v t sec il =
    (let s = vdrive_bam_alloc_add_interleave v t sec il;
         mx = c_unsigned (vdrive_get_max_sectors_per_head v t) in
     s div mx * mx)"

text \<open>
  The loop for the native partitions, at most \<open>n\<close> steps, and the three passes up and down
  for the other formats. Both return the track and the sector found.
\<close>

fun np_scan :: "vdrive \<Rightarrow> nat \<Rightarrow> nat \<Rightarrow> nat \<Rightarrow> nat \<Rightarrow> (nat \<times> nat) option \<times> vdrive" where
  "np_scan v mx t s 0 = (None, v)"
| "np_scan v mx t s (Suc n) =
    (let s = Suc s;
         (t, s) = (if s \<ge> mx then (if Suc t > num_tracks v then 1 else Suc t, 0) else (t, s));
         s = (if t = 1 \<and> s < 64 then 64 else s) in
     case vdrive_bam_allocate_sector v t s of
       (r, v) \<Rightarrow> if r \<noteq> 0 then (Some (t, s), v) else np_scan v mx t s n)"

fun pass_loop :: "vdrive \<Rightarrow> nat \<Rightarrow> nat \<Rightarrow> nat \<Rightarrow> nat \<Rightarrow> nat \<Rightarrow> (nat \<times> nat) option \<times> vdrive" where
  "pass_loop v split t s il 0 = (None, v)"
| "pass_loop v split t s il (Suc n) =
    (if t > 0 \<and> t < split then
       (case vdrive_bam_alloc_down v t s il of
          (r, v, t', s') \<Rightarrow>
            if r = 0 then (Some (t', s'), v)
            else
              let t = split + 1; s = vdrive_bam_alloc_next_free_sector_reset v t s il in
              pass_loop v split t s il n)
     else if t \<ge> split then
       (case vdrive_bam_alloc_up v t s il of
          (r, v, t', s') \<Rightarrow>
            if r = 0 then (Some (t', s'), v)
            else
              let t = split - 1; s = vdrive_bam_alloc_next_free_sector_reset v t s il in
              pass_loop v split t s il n)
     else pass_loop v split t s il n)"

definition vdrive_bam_alloc_next_free_sector_interleave ::
  "vdrive \<Rightarrow> nat \<Rightarrow> nat \<Rightarrow> nat \<Rightarrow> int \<times> vdrive \<times> nat \<times> nat" where
  "vdrive_bam_alloc_next_free_sector_interleave v t sec il =
    (if t = Dir_Track v \<and> image_format v \<notin> {FORMAT_9000, FORMAT_NP} then (-1, v, t, sec)
     else if image_format v = FORMAT_NP then
       let s0 = (if t = Dir_Track v \<and> sec < 63 then 63 else sec);
           mx = c_unsigned (vdrive_get_max_sectors_per_head v t) in
       (case np_scan v mx t s0 (mx * num_tracks v) of
          (Some (t', s'), v) \<Rightarrow> (0, v, t', s')
        | (None, v) \<Rightarrow> (-1, v, t, sec))
     else
       let s = vdrive_bam_alloc_add_interleave v t sec il in
       case vdrive_bam_alloc_worker v t s of
         (r, v, s') \<Rightarrow>
           if r = 0 then (0, v, t, s')
           else case pass_loop v (Dir_Track v) t sec il 3 of
             (Some (t', s'), v) \<Rightarrow> (0, v, t', s')
           | (None, v) \<Rightarrow>
               if image_format v = FORMAT_9000 then
                 (case vdrive_bam_alloc_worker v (Dir_Track v) 10 of
                    (r, v, s') \<Rightarrow> if r = 0 then (0, v, Dir_Track v, s') else (-1, v, t, sec))
               else (-1, v, t, sec))"

definition vdrive_bam_alloc_next_free_sector :: "vdrive \<Rightarrow> nat \<Rightarrow> nat \<Rightarrow> int \<times> vdrive \<times> nat \<times> nat" where
  "vdrive_bam_alloc_next_free_sector v t sec =
    vdrive_bam_alloc_next_free_sector_interleave v t sec (vdrive_bam_get_interleave v)"

text \<open>
  The butterfly search of \<^verbatim>\<open>vdrive_bam_alloc_first_free_sector\<close>: distances \<open>d\<close> from the
  directory track on both sides, \<open>n\<close> of them. Its number of rounds is the disk half plus
  one; for the formats without one (-1) the C loop would not end, and it is not called.
\<close>

fun butterfly :: "vdrive \<Rightarrow> nat \<Rightarrow> nat \<Rightarrow> (nat \<times> nat) option \<times> vdrive" where
  "butterfly v d 0 = (None, v)"
| "butterfly v d (Suc n) =
    (let (r1, v, s1) =
           (if d \<noteq> 0 \<and> int (Dir_Track v) - int d \<ge> 1
            then vdrive_bam_alloc_worker v (Dir_Track v - d) 0 else (-1, v, 0)) in
     if r1 = 0 then (Some (Dir_Track v - d, s1), v)
     else
       let (r2, v, s2) =
             (if Dir_Track v + d \<le> num_tracks v \<and> d \<noteq> 0
              then vdrive_bam_alloc_worker v (Dir_Track v + d) 0 else (-1, v, 0)) in
       if r2 = 0 then (Some (Dir_Track v + d, s2), v)
       else butterfly v (Suc d) n)"

definition vdrive_bam_alloc_first_free_sector :: "vdrive \<Rightarrow> nat \<Rightarrow> nat \<Rightarrow> int \<times> vdrive \<times> nat \<times> nat" where
  "vdrive_bam_alloc_first_free_sector v t sec =
    (if image_format v = FORMAT_9000 then
       let v = v\<lparr>d90toggle := d90toggle v XOR 1\<rparr>;
           t0 = (if d90toggle v \<noteq> 0 then Dir_Track v + 1 else Dir_Track v - 1) in
       (case vdrive_bam_alloc_next_free_sector v t0 0 of
          (r, v, t', s') \<Rightarrow> if r = 0 then (0, v, t', s') else (-1, v, t, sec))
     else if image_format v = FORMAT_NP then
       (case vdrive_bam_alloc_next_free_sector v (Dir_Track v) (Dir_Sector v) of
          (r, v, t', s') \<Rightarrow> if r = 0 then (0, v, t', s') else (-1, v, t, sec))
     else
       (case butterfly v 0 (Suc (c_unsigned (vdrive_calculate_disk_half v))) of
          (Some (t', s'), v) \<Rightarrow> (0, v, t', s')
        | (None, v) \<Rightarrow> (-1, v, t, sec)))"

subsection \<open>Following a chain of sectors\<close>

text \<open>
  The loops may follow any links the disk holds, so they are partial functions: \<open>None\<close> would
  mean that the loop does not end. \<open>tmp\<close> is the local sector buffer.
\<close>

partial_function (option) allocate_chain_to ::
  "nat \<Rightarrow> vdrive \<Rightarrow> buffer \<Rightarrow> nat \<Rightarrow> nat \<Rightarrow> (int \<times> vdrive) option" where [code]:
  "allocate_chain_to stop v tmp t s =
    (if t = stop then Some (CBMDOS_IPE_OK, v)
     else if disk_image_check_sector (cur_image v) t s < 0 then
       Some (CBMDOS_IPE_ILLEGAL_TRACK_OR_SECTOR,
         snd (vdrive_command_set_error v CBMDOS_IPE_ILLEGAL_TRACK_OR_SECTOR t s))
     else case vdrive_bam_allocate_sector v t s of
       (r, v) \<Rightarrow>
         if r = 0 then
           Some (CBMDOS_IPE_NO_BLOCK, snd (vdrive_command_set_error v CBMDOS_IPE_NO_BLOCK t s))
         else case vdrive_read_sector v tmp t s of
           (rc, v, tmp) \<Rightarrow>
             if rc > 0 then Some (rc, v)
             else if rc < 0 then Some (CBMDOS_IPE_NOT_READY, v)
             else allocate_chain_to stop v tmp (unat (tmp ! 0)) (unat (tmp ! 1)))"

definition vdrive_bam_allocate_chain :: "vdrive \<Rightarrow> buffer \<Rightarrow> nat \<Rightarrow> nat \<Rightarrow> (int \<times> vdrive) option" where
  "vdrive_bam_allocate_chain v tmp t s = allocate_chain_to 0 v tmp t s"

definition vdrive_bam_allocate_chain_255 :: "vdrive \<Rightarrow> buffer \<Rightarrow> nat \<Rightarrow> nat \<Rightarrow> (int \<times> vdrive) option" where
  "vdrive_bam_allocate_chain_255 v tmp t s = allocate_chain_to 255 v tmp t s"

subsection \<open>Loading and storing the whole BAM\<close>

text \<open>The loop over the blocks \<open>i\<close> to \<open>i + n - 1\<close>, left at the first error.\<close>

fun read_bam_loop :: "vdrive \<Rightarrow> nat \<Rightarrow> nat \<Rightarrow> int \<Rightarrow> int \<times> vdrive" where
  "read_bam_loop v i 0 err = (err, v)"
| "read_bam_loop v i (Suc n) err =
    (case vdrive_bam_read_bam_block v i of
       (err, v) \<Rightarrow> if err \<noteq> 0 then (err, v) else read_bam_loop v (Suc i) n err)"

definition vdrive_bam_read_bam :: "vdrive \<Rightarrow> int \<times> vdrive" where
  "vdrive_bam_read_bam v =
    (let (err, v) =
       (case image_format v of
          FORMAT_SYS \<Rightarrow> (0, v)
        | FORMAT_NONE \<Rightarrow> (-1, v)
        | _ \<Rightarrow> read_bam_loop v 0 (bam_size v div 256) (-1)) in
     (if err < 0 then CBMDOS_IPE_NOT_READY else err, v))"

fun write_bam_loop :: "vdrive \<Rightarrow> nat \<Rightarrow> nat \<Rightarrow> int \<Rightarrow> int \<times> vdrive" where
  "write_bam_loop v i 0 err = (err, v)"
| "write_bam_loop v i (Suc n) err =
    (if bam_state v ! i > 0 then
       (case vdrive_write_sector v (slice (the (bam v)) (i * 256) 256)
            (c_unsigned (bam_tracks v ! i)) (c_unsigned (bam_sectors v ! i)) of
          (err, v) \<Rightarrow>
            if err \<noteq> 0 then (err, v) else write_bam_loop (bam_mark i 0 v) (Suc i) n err)
     else write_bam_loop v (Suc i) n err)"

definition vdrive_bam_write_bam :: "vdrive \<Rightarrow> int \<times> vdrive" where
  "vdrive_bam_write_bam v =
    (if bam v = None then (-1, v)
     else
       let v = (if image_format v = FORMAT_1581 then place_1581 v else v) in
       if image_format v \<in> {FORMAT_SYS, FORMAT_NONE} then (CBMDOS_IPE_OK, v)
       else write_bam_loop v 0 (bam_size v div 256) CBMDOS_IPE_OK)"

definition vdrive_bam_int_get_disk_id :: "vdrive \<Rightarrow> byte list \<times> vdrive" where
  "vdrive_bam_int_get_disk_id v =
    (let v = snd (vdrive_bam_read_bam_block v (bam_id v div 256)) in
     (slice (the (bam v)) (bam_id v) 2, v))"

subsection \<open>Setting up and clearing the BAM\<close>

text \<open>The places of the BAM blocks on disk, as assignments to \<^verbatim>\<open>bam_tracks\<close> and \<^verbatim>\<open>bam_sectors\<close>.\<close>

definition put_block :: "nat \<Rightarrow> int \<times> int \<Rightarrow> vdrive \<Rightarrow> vdrive" where
  "put_block i ts v =
    v\<lparr>bam_tracks := (bam_tracks v)[i := fst ts], bam_sectors := (bam_sectors v)[i := snd ts]\<rparr>"

definition locate_bam :: "vdrive \<Rightarrow> vdrive" where
  "locate_bam v =
    (case image_format v of
       FORMAT_1571 \<Rightarrow> put_block 0 (18, 0) (put_block 1 (18 + int (num_tracks v) div 2, 0) v)
     | FORMAT_1541 \<Rightarrow> put_block 0 (18, 0) v
     | FORMAT_2040 \<Rightarrow> put_block 0 (18, 0) v
     | FORMAT_8250 \<Rightarrow>
         put_block 2 (38, 3) (put_block 1 (38, 0) (put_block 0 (39, 0)
           (put_block 4 (38, 9) (put_block 3 (38, 6) v))))
     | FORMAT_8050 \<Rightarrow> put_block 2 (38, 3) (put_block 1 (38, 0) (put_block 0 (39, 0) v))
     | FORMAT_NP \<Rightarrow> foldl (\<lambda>v i. put_block i (1, 1 + int i) v) v [0..<33]
     | FORMAT_9000 \<Rightarrow>
         put_block 1 (int (Bam_Track v), int (Bam_Sector v))
           (put_block 0 (int (Header_Track v), int (Header_Sector v)) v)
     | _ \<Rightarrow> v)"

definition vdrive_bam_setup_bam :: "(nat \<Rightarrow> byte) \<Rightarrow> vdrive \<Rightarrow> vdrive" where
  "vdrive_bam_setup_bam junk v =
    (let v = v\<lparr>bam := (if bam_size v \<noteq> 0 then Some (map junk [0..<bam_size v]) else None),
               bam_state := replicate VDRIVE_BAM_MAX_STATES (-1),
               bam_tracks := replicate VDRIVE_BAM_MAX_STATES (-1),
               bam_sectors := replicate VDRIVE_BAM_MAX_STATES (-1)\<rparr>;
         v = locate_bam v in
     if VDRIVE_IS_1541 v then
       (case vdrive_bam_int_get_disk_id v of
          (id2, v) \<Rightarrow>
            v\<lparr>ram := (ram v)[0x12 := id2 ! 0, 0x16 := id2 ! 0, 0x13 := id2 ! 1, 0x17 := id2 ! 1]\<rparr>)
     else v)"

definition bam_fill :: "nat \<Rightarrow> byte \<Rightarrow> nat \<Rightarrow> vdrive \<Rightarrow> vdrive" where
  "bam_fill off x n v = v\<lparr>bam := Some (memset (the (bam v)) off x n)\<rparr>"

definition vdrive_bam_clear_all :: "vdrive \<Rightarrow> vdrive" where
  "vdrive_bam_clear_all v =
    (let v = snd (vdrive_bam_read_bam v) in
     case image_format v of
       FORMAT_1541 \<Rightarrow> bam_mark 0 1 (bam_fill 4 0 (4 * 35) (bam_fill 172 0 (4 * 5) v))
     | FORMAT_2040 \<Rightarrow> bam_mark 0 1 (bam_fill 4 0 (4 * 35) v)
     | FORMAT_1571 \<Rightarrow>
         bam_mark 1 1 (bam_fill 0x100 0 105 (bam_mark 0 1 (bam_fill 221 0 35 (bam_fill 4 0 140 v))))
     | FORMAT_1581 \<Rightarrow>
         bam_mark 2 1 (bam_fill (0x200 + 16) 0 240 (bam_mark 1 1 (bam_fill (0x100 + 16) 0 240 v)))
     | FORMAT_8250 \<Rightarrow>
         bam_mark 2 1 (bam_fill (0x200 + 6) 0 250 (bam_mark 1 1 (bam_fill (0x100 + 6) 0 250
           (bam_mark 4 1 (bam_fill (0x400 + 6) 0 250 (bam_mark 3 1 (bam_fill (0x300 + 6) 0 250 v)))))))
     | FORMAT_8050 \<Rightarrow>
         bam_mark 2 1 (bam_fill (0x200 + 6) 0 250 (bam_mark 1 1 (bam_fill (0x100 + 6) 0 250 v)))
     | FORMAT_NP \<Rightarrow>
         foldl (\<lambda>v i. bam_mark i 1 v) (bam_fill (0x100 + 32) 255 (255 * 32) v) [1..<33]
     | FORMAT_9000 \<Rightarrow>
         foldl (\<lambda>v i. bam_mark i 1 (bam_fill (i * 0x100 + 16) 0 240 v)) v
           [1..<(bam_size v + 255) div 256]
     | _ \<Rightarrow> v)"

subsection \<open>Counting free blocks\<close>

text \<open>The table \<^verbatim>\<open>bitcount\<close>: eight times the lowest bit is added and shifted out.\<close>

definition bitcount :: "nat \<Rightarrow> nat" where
  "bitcount t = fst (foldl (\<lambda>(c, b) _. (c + b mod 2, b div 2)) (0, t) [0..<8])"

fun count_groups :: "vdrive \<Rightarrow> nat \<Rightarrow> nat list \<Rightarrow> nat \<Rightarrow> nat \<times> vdrive" where
  "count_groups v t [] blocks = (blocks, v)"
| "count_groups v t (s # ss) blocks =
    (case vdrive_bam_get_track_entry v t s of
       (bamp, v) \<Rightarrow>
         count_groups v t ss (case bamp of None \<Rightarrow> blocks | Some e \<Rightarrow> blocks + unat (bam_byte v e)))"

definition count_track :: "vdrive \<Rightarrow> nat \<Rightarrow> nat \<Rightarrow> nat \<times> vdrive" where
  "count_track v t blocks =
    (if image_format v \<in> {FORMAT_2040, FORMAT_1541, FORMAT_1581, FORMAT_8050, FORMAT_8250} then
       if t \<noteq> Dir_Track v then count_groups v t [0] blocks else (blocks, v)
     else if image_format v = FORMAT_1571 then
       if t \<noteq> Dir_Track v \<and> t \<noteq> Dir_Track v + 35 then
         if t \<le> 35 then count_groups v t [0] blocks
         else (blocks + unat (bam_byte v (221 + t - 35 - 1)), v)
       else (blocks, v)
     else if image_format v = FORMAT_NP then
       let a = 32 + 256 + 32 * (t - 1) in
       (foldl (\<lambda>b s. b + bitcount (unat (bam_byte v (a + s)))) blocks
          [(if t = Bam_Track v then 8 else 0)..<32], v)
     else if image_format v = FORMAT_9000 then
       count_groups v t (map (\<lambda>i. i * 32) [0..<(isectors (cur_image v) + 31) div 32]) blocks
     else (blocks, v))"

definition vdrive_bam_free_block_count :: "vdrive \<Rightarrow> nat \<times> vdrive" where
  "vdrive_bam_free_block_count v =
    (case vdrive_bam_read_bam v of
       (err, v) \<Rightarrow>
         if err \<noteq> 0 then (0, v)
         else foldl (\<lambda>(b, v) t. count_track v t b) (0, v) [1..<Suc (num_tracks v)])"

definition vdrive_bam_isgeos :: "vdrive \<Rightarrow> nat" where
  "vdrive_bam_isgeos v =
    (if image_format v \<in> {FORMAT_1541, FORMAT_1571, FORMAT_1581, FORMAT_NP} \<and>
        (\<forall>i \<in> set [0..<15]. [0x47, 0x45, 0x4f, 0x53, 0x20, 0x66, 0x6f, 0x72, 0x6d, 0x61, 0x74, 0x20,
           0x56, 0x31, 0x2e :: byte] ! i = bam_byte v (0xad + i))
     then 1 else 0)"

subsection \<open>Creating an empty BAM\<close>

definition mystrncpy :: "nat \<Rightarrow> byte list \<Rightarrow> nat \<Rightarrow> vdrive \<Rightarrow> vdrive" where
  "mystrncpy off s n v =
    v\<lparr>bam := Some (write_at (the (bam v)) off (take n (takeWhile (\<lambda>c. c \<noteq> 0) s)))\<rparr>"

definition bam_puts :: "(nat \<times> byte) list \<Rightarrow> vdrive \<Rightarrow> vdrive" where
  "bam_puts xs v = foldl (\<lambda>v (i, x). bam_put i x v) v xs"

definition bam_marks :: "nat list \<Rightarrow> vdrive \<Rightarrow> vdrive" where
  "bam_marks ps v = foldl (\<lambda>v p. bam_mark p 1 v) v ps"

text \<open>The name and the id, padded with shift-space.\<close>

definition bam_title :: "nat \<Rightarrow> byte list \<Rightarrow> byte list \<Rightarrow> vdrive \<Rightarrow> vdrive" where
  "bam_title n nm id2 v =
    mystrncpy (bam_id v) id2 2 (mystrncpy (bam_name v) nm 16 (bam_fill (bam_name v) 0xa0 n v))"

text \<open>The loop that links the bitmap blocks of a D9090 and gives each its range of tracks.\<close>

fun link_9000 :: "vdrive \<Rightarrow> nat \<Rightarrow> nat \<Rightarrow> nat \<Rightarrow> nat \<Rightarrow> nat \<Rightarrow> nat list \<Rightarrow> vdrive" where
  "link_9000 v td t tb tp sp [] = v"
| "link_9000 v td t tb tp sp (k # ks) =
    (let i = k * 0x100; tn = t + td in
     if i + 0x100 \<ge> bam_size v then
       let v = bam_puts [(i, 255), (i + 1, 255), (i + 4, of_nat tb), (i + 5, of_nat (num_tracks v + 1)),
                         (i + 2, of_nat tp), (i + 3, of_nat sp)] v;
           v = put_block k (int t, 0) v in
       link_9000 (bam_mark k 1 v) td tn (tb + td) t 0 ks
     else
       let tn = (if tn > num_tracks v then num_tracks v else tn);
           v = bam_puts [(i, of_nat tn), (i + 1, 0), (i + 4, of_nat tb), (i + 5, of_nat (tb + td)),
                         (i + 2, of_nat tp), (i + 3, of_nat sp)] v;
           v = put_block k (int t, 0) v in
       link_9000 (bam_mark k 1 v) td tn (tb + td) t 0 ks)"

definition create_9000 :: "byte list \<Rightarrow> byte list \<Rightarrow> vdrive \<Rightarrow> vdrive" where
  "create_9000 nm id2 v =
    (let d = num_tracks v div 2;
         tmp = (replicate 256 0)[1 := 1, 3 := 0xff, 4 := of_nat d, 5 := 10, 6 := of_nat d, 7 := 20,
                  8 := 1, 10 := id2 ! 0, 11 := id2 ! 1];
         v = snd (vdrive_write_sector v tmp 0 0);
         v = v\<lparr>Bam_Track := unat (tmp ! 8), Bam_Sector := unat (tmp ! 9), Header_Track := unat (tmp ! 6),
               Header_Sector := unat (tmp ! 7), Dir_Track := unat (tmp ! 4), Dir_Sector := unat (tmp ! 5)\<rparr>;
         v = snd (vdrive_write_sector v (replicate 256 0xff) 0 1);
         v = bam_puts [(0, of_nat (Dir_Track v)), (1, of_nat (Dir_Sector v))] v;
         v = bam_title 27 nm id2 v;
         v = bam_puts [(27, 51), (28, 65)] v in
     link_9000 v (240 div (isectors (cur_image v) div 32) div 5) 1 0 255 255
       [1..<(bam_size v + 255) div 256])"

definition create_8050 :: "byte list \<Rightarrow> byte list \<Rightarrow> vdrive \<Rightarrow> vdrive" where
  "create_8050 nm id2 v =
    (let v = bam_puts [(0, 38), (1, 0), (2, 67)] v;
         v = bam_title 27 nm id2 v;
         v = bam_puts [(27, 50), (28, 67), (0x100, 38), (0x100 + 1, 3), (0x100 + 2, 67), (0x100 + 4, 1),
                       (0x100 + 5, 51)] v;
         v = bam_marks [1, 2] v in
     if image_format v = FORMAT_8050 then
       bam_puts [(0x200, 39), (0x200 + 1, 1), (0x200 + 2, 67), (0x200 + 4, 51), (0x200 + 5, 78)] v
     else
       bam_marks [3, 4]
         (bam_puts [(0x200, 38), (0x200 + 1, 6), (0x200 + 2, 67), (0x200 + 4, 51), (0x200 + 5, 101),
                    (0x300, 38), (0x300 + 1, 9), (0x300 + 2, 67), (0x300 + 4, 101), (0x300 + 5, 151),
                    (0x400, 39), (0x400 + 1, 1), (0x400 + 2, 67), (0x400 + 4, 151), (0x400 + 5, 155)] v))"

definition vdrive_bam_create_empty_bam ::
  "(nat \<Rightarrow> byte) \<Rightarrow> vdrive \<Rightarrow> byte list \<Rightarrow> byte list \<Rightarrow> vdrive" where
  "vdrive_bam_create_empty_bam junk v nm id2 =
    (let v = vdrive_bam_setup_bam junk v;
         v = bam_fill 0 0 (bam_size v) v;
         v = bam_mark 0 1 v;
         v = (if image_format v \<notin> {FORMAT_8050, FORMAT_8250, FORMAT_9000} then
                let v = bam_puts [(0, of_nat (Dir_Track v)), (1, of_nat (Dir_Sector v)), (2, 65)] v;
                    v = (if image_format v = FORMAT_1571 then bam_put 3 0x80 v else v) in
                bam_title (if image_format v \<in> {FORMAT_1581, FORMAT_NP} then 25 else 27) nm id2 v
              else v) in
     case image_format v of
       FORMAT_2040 \<Rightarrow> bam_puts [(2, 1), (0xa4, 0x20), (0xa5, 0x20)] v
     | FORMAT_1541 \<Rightarrow> bam_puts [(165, 50), (166, 65)] v
     | FORMAT_1571 \<Rightarrow> bam_puts [(165, 50), (166, 65)] v
     | FORMAT_1581 \<Rightarrow>
         bam_marks [1, 2]
           (bam_puts [(2, 68), (0x100, of_nat (Bam_Track v)), (0x100 + 1, 2), (0x200, 0),
                      (0x200 + 1, 0xff), (25, 51), (26, 68), (0x100 + 2, 68), (0x100 + 3, 0xbb),
                      (0x100 + 4, id2 ! 0), (0x100 + 5, id2 ! 1), (0x100 + 6, 0xc0),
                      (0x200 + 2, 68), (0x200 + 3, 0xbb), (0x200 + 4, id2 ! 0), (0x200 + 5, id2 ! 1),
                      (0x200 + 6, 0xc0)] v)
     | FORMAT_8050 \<Rightarrow> create_8050 nm id2 v
     | FORMAT_8250 \<Rightarrow> create_8050 nm id2 v
     | FORMAT_NP \<Rightarrow>
         bam_mark 1 1
           (bam_puts [(2, 72), (25, 49), (26, 72), (0x20, of_nat (Bam_Track v)),
                      (0x21, of_nat (Bam_Sector v)), (0x100 + 2, 72), (0x100 + 3, NOT 72),
                      (0x100 + 4, id2 ! 0), (0x100 + 5, id2 ! 1), (0x100 + 6, 0xc0),
                      (0x100 + 8, of_nat (num_tracks v))] v)
     | FORMAT_9000 \<Rightarrow> create_9000 nm id2 v
     | _ \<Rightarrow> v)"

end
