(* ===== verification/AllocationMap.thy ===== *)
theory AllocationMap
  imports Prelude
begin

text \<open>
  The contract of an allocation map: each valid address is free or in use, allocating an
  address succeeds exactly if it is free and makes it used, releasing it the other way round,
  and no other address changes. The block availability map of the drive provides it. What is
  proved here once, for every provider: an address cannot be allocated twice, releasing undoes
  allocating, the number of free addresses, and what a search through a list of candidate
  addresses finds.
\<close>

text \<open>Trying the addresses of a list in order until one can be allocated.\<close>

fun try_all :: "('d \<Rightarrow> 'a \<Rightarrow> nat \<times> 'd) \<Rightarrow> 'd \<Rightarrow> 'a list \<Rightarrow> 'a option \<times> 'd" where
  "try_all alloc d [] = (None, d)"
| "try_all alloc d (a # as) =
    (case alloc d a of (r, d) \<Rightarrow> if r \<noteq> 0 then (Some a, d) else try_all alloc d as)"

lemma try_all_append:
  "try_all alloc d (as @ bs) =
    (case try_all alloc d as of (None, d) \<Rightarrow> try_all alloc d bs | (Some a, d) \<Rightarrow> (Some a, d))"
  by (induction as arbitrary: d) (auto split: prod.split)

locale allocation_map =
  fixes invar :: "'d \<Rightarrow> bool"
    and valid :: "'d \<Rightarrow> 'a \<Rightarrow> bool"
    and is_free :: "'d \<Rightarrow> 'a \<Rightarrow> bool"
    and alloc :: "'d \<Rightarrow> 'a \<Rightarrow> nat \<times> 'd"
    and release :: "'d \<Rightarrow> 'a \<Rightarrow> nat \<times> 'd"
  assumes alloc_result: "invar d \<Longrightarrow> valid d a \<Longrightarrow> fst (alloc d a) = of_bool (is_free d a)"
    and alloc_invar: "invar d \<Longrightarrow> valid d a \<Longrightarrow> invar (snd (alloc d a))"
    and alloc_valid: "invar d \<Longrightarrow> valid d a \<Longrightarrow> valid (snd (alloc d a)) b = valid d b"
    and alloc_free:
      "invar d \<Longrightarrow> valid d a \<Longrightarrow> valid d b \<Longrightarrow> is_free (snd (alloc d a)) b \<longleftrightarrow> is_free d b \<and> b \<noteq> a"
    and release_result: "invar d \<Longrightarrow> valid d a \<Longrightarrow> fst (release d a) = of_bool (\<not> is_free d a)"
    and release_invar: "invar d \<Longrightarrow> valid d a \<Longrightarrow> invar (snd (release d a))"
    and release_valid: "invar d \<Longrightarrow> valid d a \<Longrightarrow> valid (snd (release d a)) b = valid d b"
    and release_free:
      "invar d \<Longrightarrow> valid d a \<Longrightarrow> valid d b \<Longrightarrow> is_free (snd (release d a)) b \<longleftrightarrow> is_free d b \<or> b = a"
begin

lemmas alloc_simps = alloc_result alloc_invar alloc_valid alloc_free
lemmas release_simps = release_result release_invar release_valid release_free

lemma alloc_once:
  assumes "invar d" "valid d a"
  shows "fst (alloc (snd (alloc d a)) a) = 0"
  using assms by (simp add: alloc_simps)

lemma release_alloc:
  assumes "invar d" "valid d a" "valid d b" "is_free d a"
  shows "fst (release (snd (alloc d a)) a) = 1"
    and "is_free (snd (release (snd (alloc d a)) a)) b = is_free d b"
  using assms by (auto simp: alloc_simps release_simps)

text \<open>The number of free addresses in a finite set of valid ones.\<close>

definition free_count :: "'d \<Rightarrow> 'a set \<Rightarrow> nat" where
  "free_count d A = card {a \<in> A. is_free d a}"

lemma alloc_free_count:
  assumes "invar d" "finite A" "\<And>x. x \<in> A \<Longrightarrow> valid d x" "a \<in> A" "is_free d a"
  shows "Suc (free_count (snd (alloc d a)) A) = free_count d A"
proof -
  have "{x \<in> A. is_free (snd (alloc d a)) x} = {x \<in> A. is_free d x} - {a}"
    using assms by (auto simp: alloc_simps)
  moreover have "a \<in> {x \<in> A. is_free d x}" "finite {x \<in> A. is_free d x}" using assms by auto
  ultimately show ?thesis
    unfolding free_count_def using card_Suc_Diff1 by metis
qed

text \<open>A search takes the first free candidate and nothing else.\<close>

lemma try_all_finds:
  assumes "invar d" "\<And>a. a \<in> set as \<Longrightarrow> valid d a"
  shows "fst (try_all alloc d as) = List.find (is_free d) as"
    and "invar (snd (try_all alloc d as))"
    and "valid (snd (try_all alloc d as)) b = valid d b"
    and "valid d b \<Longrightarrow> is_free (snd (try_all alloc d as)) b \<longleftrightarrow>
      is_free d b \<and> fst (try_all alloc d as) \<noteq> Some b"
proof -
  have "fst (try_all alloc d as) = List.find (is_free d) as \<and> invar (snd (try_all alloc d as)) \<and>
    valid (snd (try_all alloc d as)) b = valid d b \<and>
    (valid d b \<longrightarrow> is_free (snd (try_all alloc d as)) b \<longleftrightarrow>
      is_free d b \<and> fst (try_all alloc d as) \<noteq> Some b)"
    using assms
  proof (induction as arbitrary: d)
    case Nil
    then show ?case by simp
  next
    case (Cons a as)
    obtain r d' where rd: "alloc d a = (r, d')" by (cases "alloc d a")
    have a: "valid d a" and va: "\<And>x. x \<in> set as \<Longrightarrow> valid d x" using Cons.prems(2) by auto
    have d': "invar d'" "\<And>x. valid d' x = valid d x" "r = of_bool (is_free d a)"
      "\<And>x. valid d x \<Longrightarrow> is_free d' x \<longleftrightarrow> is_free d x \<and> x \<noteq> a"
      using alloc_simps [OF Cons.prems(1) a] rd by auto
    have same: "List.find (is_free d') as = List.find (is_free d) as" if "\<not> is_free d a"
      using d'(4) va that by (intro find_cong) auto
    show ?case
    proof (cases "is_free d a")
      case True
      then show ?thesis using rd d' by auto
    next
      case False
      then have "try_all alloc d (a # as) = try_all alloc d' as" using rd d'(3) by simp
      then show ?thesis
        using Cons.IH [OF d'(1)] va d' same False by auto
    qed
  qed
  then show "fst (try_all alloc d as) = List.find (is_free d) as"
    "invar (snd (try_all alloc d as))" "valid (snd (try_all alloc d as)) b = valid d b"
    "valid d b \<Longrightarrow> is_free (snd (try_all alloc d as)) b \<longleftrightarrow>
      is_free d b \<and> fst (try_all alloc d as) \<noteq> Some b"
    by auto
qed

lemma try_all_None:
  assumes "invar d" "\<And>a. a \<in> set as \<Longrightarrow> valid d a"
  shows "fst (try_all alloc d as) = None \<longleftrightarrow> (\<forall>a \<in> set as. \<not> is_free d a)"
  using try_all_finds(1) [OF assms] by (auto simp: find_None_iff)

lemma try_all_Some:
  assumes "invar d" "\<And>a. a \<in> set as \<Longrightarrow> valid d a" "fst (try_all alloc d as) = Some a"
  shows "a \<in> set as" "is_free d a"
  using try_all_finds(1) [OF assms(1,2)] assms(3) by (auto simp: find_Some_iff)

end

end
