(* ===== verification/BamMap.thy ===== *)
theory BamMap
  imports Bam AllocationMap
begin

text \<open>
  The BAM as an allocation map. For each disk format with a fixed layout (all but the
  D9090) the place of a sector's bit is given in closed form and shown to be where the code
  looks, no two sectors share a bit, and the free counts lie outside the bits; so allocating
  and freeing a sector keep the contract of \<open>allocation_map\<close>. The searches for a free sector
  are shown to be searches through explicit lists of candidates.
\<close>

named_theorems bam_simps \<open>selectors of a drive after a change of the BAM\<close>

subsection \<open>A loaded BAM\<close>

definition bam_loaded :: "vdrive \<Rightarrow> bool" where
  "bam_loaded v = (bam v \<noteq> None \<and> length (the (bam v)) = bam_size v \<and> bam_size v mod 256 = 0 \<and>
     bam_size v \<le> 33 * 256 \<and> length (bam_state v) = 33 \<and>
     (\<forall>i < bam_size v div 256. 0 \<le> bam_state v ! i))"

lemma bam_put_simps [simp, bam_simps]:
  "bam_size (bam_put i x v) = bam_size v" "bam_state (bam_put i x v) = bam_state v"
  "image_format (bam_put i x v) = image_format v" "bam_tracks (bam_put i x v) = bam_tracks v"
  "num_tracks (bam_put i x v) = num_tracks v" "Dir_Track (bam_put i x v) = Dir_Track v"
  "length (the (bam (bam_put i x v))) = length (the (bam v))" "bam (bam_put i x v) \<noteq> None"
  by (simp_all add: bam_put_def)

lemma bam_mark_simps [simp, bam_simps]:
  "bam_size (bam_mark p st v) = bam_size v" "bam (bam_mark p st v) = bam v"
  "image_format (bam_mark p st v) = image_format v" "bam_tracks (bam_mark p st v) = bam_tracks v"
  "num_tracks (bam_mark p st v) = num_tracks v" "Dir_Track (bam_mark p st v) = Dir_Track v"
  "bam_byte (bam_mark p st v) i = bam_byte v i"
  by (simp_all add: bam_mark_def bam_byte_def)

lemma bam_byte_put [simp]:
  "i < length (the (bam v)) \<Longrightarrow> bam_byte (bam_put i x v) j = (if j = i then x else bam_byte v j)"
  by (simp add: bam_byte_def bam_put_def nth_list_update)

lemma bam_loaded_put [simp]: "bam_loaded v \<Longrightarrow> bam_loaded (bam_put i x v)"
  by (simp add: bam_loaded_def)

lemma bam_loaded_mark [simp]:
  assumes "bam_loaded v" "0 \<le> st"
  shows "bam_loaded (bam_mark p st v)"
proof -
  have "0 \<le> (bam_state v)[p := st] ! i" if "0 \<le> bam_state v ! i" for i
    using that assms(2) by (cases "p < length (bam_state v)") (auto simp: nth_list_update list_update_beyond)
  then show ?thesis using assms by (simp add: bam_loaded_def) (simp add: bam_mark_def)
qed

lemma read_bam_block_loaded:
  assumes "bam_loaded v" "i < bam_size v div 256"
  shows "vdrive_bam_read_bam_block v i = (CBMDOS_IPE_OK, v)"
proof -
  have "bam_size v div 256 \<le> 33" using assms(1) by (auto simp: bam_loaded_def)
  with assms show ?thesis by (subst vdrive_bam_read_bam_block.simps) (auto simp: bam_loaded_def)
qed

lemma read_bam_block_at:
  assumes "bam_loaded v" "q < bam_size v"
  shows "vdrive_bam_read_bam_block v (q div 256) = (CBMDOS_IPE_OK, v)"
  using assms by (intro read_bam_block_loaded) (auto simp: bam_loaded_def less_mult_imp_div_less)

text \<open>A drive that differs from another one in the BAM and its state only.\<close>

definition same_drive :: "vdrive \<Rightarrow> vdrive \<Rightarrow> bool" where
  "same_drive v w \<longleftrightarrow> w\<lparr>bam := bam v, bam_state := bam_state v\<rparr> = v"

lemma same_drive_refl [simp]: "same_drive v v"
  by (simp add: same_drive_def)

lemma same_drive_put [simp]: "same_drive v (bam_put i x w) = same_drive v w"
  by (simp add: same_drive_def bam_put_def)

lemma same_drive_mark [simp]: "same_drive v (bam_mark p st w) = same_drive v w"
  by (simp add: same_drive_def bam_mark_def)

lemma same_drive_trans:
  assumes "same_drive u v" "same_drive v w"
  shows "same_drive u w"
proof -
  have "w\<lparr>bam := bam u, bam_state := bam_state u\<rparr> =
      (w\<lparr>bam := bam v, bam_state := bam_state v\<rparr>)\<lparr>bam := bam u, bam_state := bam_state u\<rparr>" by simp
  also have "\<dots> = u" using assms by (simp add: same_drive_def)
  finally show ?thesis by (simp add: same_drive_def)
qed

lemma same_drive_keeps:
  assumes "same_drive v w"
  shows "image_format w = image_format v" "bam_size w = bam_size v" "bam_tracks w = bam_tracks v"
    "num_tracks w = num_tracks v" "Dir_Track w = Dir_Track v" "disk_heap w = disk_heap v"
    "image_ptr w = image_ptr v" "haspt w = haspt v" "current_offset w = current_offset v"
    "bam_sectors w = bam_sectors v" "cur_image w = cur_image v"
    "vdrive_get_max_sectors w = vdrive_get_max_sectors v"
    "vdrive_get_max_sectors_per_head w = vdrive_get_max_sectors_per_head v"
    "vdrive_bam_alloc_add_interleave w = vdrive_bam_alloc_add_interleave v"
    "vdrive_log_to_phy w = vdrive_log_to_phy v"
proof -
  have e: "w\<lparr>bam := bam v, bam_state := bam_state v\<rparr> = v" using assms by (simp add: same_drive_def)
  show k: "image_format w = image_format v" "bam_size w = bam_size v" "bam_tracks w = bam_tracks v"
    "num_tracks w = num_tracks v" "Dir_Track w = Dir_Track v" "disk_heap w = disk_heap v"
    "image_ptr w = image_ptr v" "haspt w = haspt v" "current_offset w = current_offset v"
    "bam_sectors w = bam_sectors v"
    by (subst e [symmetric], simp)+
  show c: "cur_image w = cur_image v" by (simp add: cur_image_def k)
  show m: "vdrive_get_max_sectors w = vdrive_get_max_sectors v"
    unfolding vdrive_get_max_sectors_def [abs_def] k c ..
  show h: "vdrive_get_max_sectors_per_head w = vdrive_get_max_sectors_per_head v"
    unfolding vdrive_get_max_sectors_per_head_def [abs_def] m k ..
  show "vdrive_bam_alloc_add_interleave w = vdrive_bam_alloc_add_interleave v"
    unfolding vdrive_bam_alloc_add_interleave_def [abs_def] m h ..
  show "vdrive_log_to_phy w = vdrive_log_to_phy v"
    by (rule log_to_phy_cong) (simp_all add: k c)
qed

subsection \<open>The layout of the formats\<close>

definition fixed_layout :: "image_format \<Rightarrow> bool" where
  "fixed_layout fmt = (fmt \<in> {FORMAT_1541, FORMAT_2040, FORMAT_1571, FORMAT_1581, FORMAT_8050,
     FORMAT_8250, FORMAT_NP})"

text \<open>The last track with an entry, the sectors an entry has bits for, and the size of the BAM.\<close>

definition entry_tracks :: "image_format \<Rightarrow> nat" where
  "entry_tracks fmt =
    (case fmt of FORMAT_1541 \<Rightarrow> 42 | FORMAT_2040 \<Rightarrow> 42 | FORMAT_1571 \<Rightarrow> 70 | FORMAT_1581 \<Rightarrow> 80
     | FORMAT_8050 \<Rightarrow> 77 | FORMAT_8250 \<Rightarrow> 154 | FORMAT_NP \<Rightarrow> 255 | _ \<Rightarrow> 0)"

definition entry_bits :: "image_format \<Rightarrow> nat" where
  "entry_bits fmt =
    (case fmt of FORMAT_1581 \<Rightarrow> 40 | FORMAT_8050 \<Rightarrow> 32 | FORMAT_8250 \<Rightarrow> 32 | FORMAT_NP \<Rightarrow> 256 | _ \<Rightarrow> 24)"

definition layout_size :: "image_format \<Rightarrow> nat" where
  "layout_size fmt =
    (case fmt of FORMAT_1541 \<Rightarrow> 256 | FORMAT_2040 \<Rightarrow> 256 | FORMAT_1571 \<Rightarrow> 512 | FORMAT_1581 \<Rightarrow> 768
     | FORMAT_8050 \<Rightarrow> 768 | FORMAT_8250 \<Rightarrow> 1280 | FORMAT_NP \<Rightarrow> 8448 | _ \<Rightarrow> 0)"

text \<open>The offset of a track's entry.\<close>

definition entry_at :: "image_format \<Rightarrow> nat \<Rightarrow> nat" where
  "entry_at fmt t =
    (case fmt of
       FORMAT_1571 \<Rightarrow> if t \<le> 35 then 4 * t else 255 + 3 * (t - 36)
     | FORMAT_1581 \<Rightarrow> if t \<le> 40 then 272 + 6 * (t - 1) else 528 + 6 * (t - 41)
     | FORMAT_8050 \<Rightarrow> if t \<le> 50 then 262 + 5 * (t - 1) else 518 + 5 * (t - 51)
     | FORMAT_8250 \<Rightarrow>
         if t \<le> 50 then 262 + 5 * (t - 1) else if t \<le> 100 then 518 + 5 * (t - 51)
         else if t \<le> 150 then 774 + 5 * (t - 101) else 1030 + 5 * (t - 151)
     | FORMAT_NP \<Rightarrow> 287 + 32 * (t - 1)
     | _ \<Rightarrow> if t \<le> 35 then 4 * t else 172 + 4 * (t - 36))"

text \<open>The position of the count of free sectors, and of a sector's bit.\<close>

definition count_at :: "image_format \<Rightarrow> nat \<Rightarrow> nat option" where
  "count_at fmt t =
    (if fmt = FORMAT_NP then None
     else if fmt = FORMAT_1571 \<and> t > 35 then Some (221 + (t - 36))
     else Some (entry_at fmt t))"

definition bit_index :: "image_format \<Rightarrow> nat \<Rightarrow> nat" where
  "bit_index fmt s = (if fmt = FORMAT_NP then s XOR 7 else s)"

definition byte_at :: "image_format \<Rightarrow> nat \<Rightarrow> nat \<Rightarrow> nat" where
  "byte_at fmt t s = entry_at fmt t + 1 + bit_index fmt s div 8"

text \<open>The track ranges that the bitmap blocks of an 8050 or 8250 disk carry.\<close>

definition block_ranges :: "image_format \<Rightarrow> (nat \<times> nat \<times> nat) list" where
  "block_ranges fmt =
    (case fmt of
       FORMAT_8050 \<Rightarrow> [(1, 1, 51), (2, 51, 78)]
     | FORMAT_8250 \<Rightarrow> [(1, 1, 51), (2, 51, 101), (3, 101, 151), (4, 151, 155)]
     | _ \<Rightarrow> [])"

definition bam_headers_ok :: "vdrive \<Rightarrow> bool" where
  "bam_headers_ok v = list_all (\<lambda>(i, lo, hi). 0 < bam_tracks v ! i \<and>
     bam_byte v (i * 256 + 4) = of_nat lo \<and> bam_byte v (i * 256 + 5) = of_nat hi)
     (block_ranges (image_format v))"

definition bam_ok :: "vdrive \<Rightarrow> bool" where
  "bam_ok v = (bam_loaded v \<and> fixed_layout (image_format v) \<and>
     bam_size v = layout_size (image_format v) \<and> bam_headers_ok v)"

definition bam_addr :: "vdrive \<Rightarrow> nat \<times> nat \<Rightarrow> bool" where
  "bam_addr v ts = (1 \<le> fst ts \<and> fst ts \<le> entry_tracks (image_format v) \<and>
     snd ts < entry_bits (image_format v))"

definition sector_is_free :: "vdrive \<Rightarrow> nat \<times> nat \<Rightarrow> bool" where
  "sector_is_free v ts = bit (bam_byte v (byte_at (image_format v) (fst ts) (snd ts)))
     (bit_index (image_format v) (snd ts) mod 8)"

lemmas layout_defs = fixed_layout_def entry_tracks_def entry_bits_def layout_size_def entry_at_def

text \<open>Reversing the bits of a byte keeps a sector in its byte and loses nothing.\<close>

lemma xor7_div: "(s XOR 7) div 8 = (s :: nat) div 8"
proof -
  have "drop_bit 3 (s XOR 7) = drop_bit 3 s XOR drop_bit 3 (7 :: nat)" by (rule drop_bit_xor)
  then show ?thesis by (simp add: drop_bit_eq_div)
qed

lemma xor7_inj: "(s XOR 7 = s' XOR 7) = ((s :: nat) = s')"
  by (metis xor.assoc xor_self_eq xor.right_neutral)

lemma bit_index_div [simp]: "bit_index fmt s div 8 = s div 8"
  by (simp add: bit_index_def xor7_div)

lemma bit_index_inj: "s div 8 = s' div 8 \<Longrightarrow> bit_index fmt s mod 8 = bit_index fmt s' mod 8 \<Longrightarrow> s = s'"
proof -
  assume "s div 8 = s' div 8" "bit_index fmt s mod 8 = bit_index fmt s' mod 8"
  then have "bit_index fmt s = bit_index fmt s'"
    using div_mult_mod_eq [of "bit_index fmt s" 8] div_mult_mod_eq [of "bit_index fmt s'" 8] by simp
  then show ?thesis by (simp add: bit_index_def xor7_inj split: if_splits)
qed

text \<open>No two sectors share a byte unless they are on the same track and in the same group of 8.\<close>

lemma byte_at_inj:
  assumes "fixed_layout fmt" "1 \<le> t" "t \<le> entry_tracks fmt" "1 \<le> t'" "t' \<le> entry_tracks fmt"
    "s < entry_bits fmt" "s' < entry_bits fmt" "byte_at fmt t s = byte_at fmt t' s'"
  shows "t = t' \<and> s div 8 = s' div 8"
proof -
  define q q' where "q = s div 8" and "q' = s' div 8"
  have q: "q < entry_bits fmt div 8" "q' < entry_bits fmt div 8"
    using assms(1,6,7) unfolding q_def q'_def by (auto simp: layout_defs)
  have eq: "entry_at fmt t + q = entry_at fmt t' + q'" using assms(8) by (simp add: byte_at_def q_def q'_def)
  have "t = t'"
    using assms(1-5) q eq
    by (cases fmt) (auto simp: layout_defs split: if_splits)
  then show ?thesis using eq by (simp add: q_def q'_def)
qed

lemma byte_at_bound:
  assumes "fixed_layout fmt" "1 \<le> t" "t \<le> entry_tracks fmt" "s < entry_bits fmt"
  shows "byte_at fmt t s < layout_size fmt"
proof -
  have "s div 8 < entry_bits fmt div 8" using assms(1,4) by (auto simp: layout_defs)
  then show ?thesis
    using assms(1-3) by (cases fmt) (auto simp: byte_at_def layout_defs split: if_splits)
qed

lemma entry_at_bound:
  assumes "fixed_layout fmt" "1 \<le> t" "t \<le> entry_tracks fmt"
  shows "entry_at fmt t < layout_size fmt"
  using assms by (cases fmt) (auto simp: layout_defs split: if_splits)

lemma count_at_bound:
  assumes "fixed_layout fmt" "1 \<le> t" "t \<le> entry_tracks fmt" "count_at fmt t = Some c"
  shows "c < layout_size fmt"
  using assms entry_at_bound [OF assms(1-3)]
  by (auto simp: count_at_def layout_defs split: if_splits)

text \<open>The counts lie between the bits, and neither touches the track ranges of a block.\<close>

lemma count_not_bits:
  assumes "fixed_layout fmt" "1 \<le> t" "t \<le> entry_tracks fmt" "count_at fmt t = Some c"
    and "1 \<le> t'" "t' \<le> entry_tracks fmt" "s < entry_bits fmt"
  shows "c \<noteq> byte_at fmt t' s"
proof -
  define q where "q = s div 8"
  have q: "q < entry_bits fmt div 8" using assms(1,7) unfolding q_def by (auto simp: layout_defs)
  have "c \<noteq> entry_at fmt t' + 1 + q"
    using assms(1-6) q
    by (cases fmt; cases "t \<le> t'") (auto simp: layout_defs count_at_def split: if_splits)
  then show ?thesis by (simp add: byte_at_def q_def)
qed

lemma entry_band:
  assumes "fmt = FORMAT_8050 \<or> fmt = FORMAT_8250" "1 \<le> t" "t \<le> entry_tracks fmt"
  shows "\<exists>k. 256 * k + 6 \<le> entry_at fmt t \<and> entry_at fmt t + 4 < 256 * k + 256"
proof -
  consider "t \<le> 50" | "50 < t" "t \<le> 100" | "100 < t" "t \<le> 150" | "150 < t" "t \<le> 154"
    using assms by (fastforce simp: entry_tracks_def)
  then show ?thesis
  proof cases
    case 1
    with assms have "entry_at fmt t = 262 + 5 * (t - 1)" by (auto simp: entry_at_def)
    with 1 assms(2) show ?thesis by (intro exI [of _ 1]) simp
  next
    case 2
    with assms have "entry_at fmt t = 518 + 5 * (t - 51)" by (auto simp: entry_at_def)
    with 2 show ?thesis by (intro exI [of _ 2]) simp
  next
    case 3
    with assms have "entry_at fmt t = 774 + 5 * (t - 101)" by (auto simp: entry_at_def entry_tracks_def)
    with 3 show ?thesis by (intro exI [of _ 3]) simp
  next
    case 4
    with assms have "entry_at fmt t = 1030 + 5 * (t - 151)" by (auto simp: entry_at_def entry_tracks_def)
    with 4 show ?thesis by (intro exI [of _ 4]) simp
  qed
qed

lemma above_headers:
  assumes "fmt = FORMAT_8050 \<or> fmt = FORMAT_8250" "1 \<le> t" "t \<le> entry_tracks fmt"
    and "entry_at fmt t \<le> p" "p \<le> entry_at fmt t + 4"
  shows "p \<noteq> i * 256 + 4 \<and> p \<noteq> i * 256 + 5"
proof -
  obtain k where "256 * k + 6 \<le> entry_at fmt t" "entry_at fmt t + 4 < 256 * k + 256"
    using entry_band [OF assms(1-3)] by blast
  with assms(4,5) have k: "256 * k + 6 \<le> p" "p < 256 * k + 256" by linarith+
  then have "p div 256 = k" by (intro div_nat_eqI) auto
  moreover have "(i * 256 + 4) div 256 = i" "(i * 256 + 5) div 256 = i" by simp_all
  ultimately show ?thesis using k by (cases "i = k") auto
qed

subsection \<open>The code finds the entry\<close>

lemma entry_search_step:
  assumes "bam_loaded v" "i < bam_size v div 256" "i < 5" "0 < bam_tracks v ! i"
    "bam_byte v (i * 256 + 4) = of_nat lo" "bam_byte v (i * 256 + 5) = of_nat hi" "lo < 256" "hi < 256"
  shows "entry_search_8050 v t i =
    (if lo \<le> t \<and> t < hi then (Some (i * 256 + 6 + 5 * (t - lo)), v)
     else entry_search_8050 v t (Suc i))"
proof -
  have "unat (of_nat lo :: byte) = lo" "unat (of_nat hi :: byte) = hi"
    using assms(7,8) by (simp_all add: unat_of_nat)
  then show ?thesis
    using assms(3-6) read_bam_block_loaded [OF assms(1,2)]
    by (subst entry_search_8050.simps) (simp add: mult.commute)
qed

lemma get_track_entry_ok:
  assumes "bam_ok v" "1 \<le> t" "t \<le> entry_tracks (image_format v)"
  shows "vdrive_bam_get_track_entry v t s = (Some (entry_at (image_format v) t), v)"
proof -
  have ld: "bam_loaded v" and fx: "fixed_layout (image_format v)"
    and sz: "bam_size v = layout_size (image_format v)" and hd: "bam_headers_ok v"
    using assms(1) by (auto simp: bam_ok_def)
  consider "image_format v = FORMAT_8050" | "image_format v = FORMAT_8250"
    | "image_format v \<notin> {FORMAT_8050, FORMAT_8250}" by blast
  then show ?thesis
  proof cases
    case 1
    then have r: "bam_tracks v ! 1 > 0" "bam_byte v (1 * 256 + 4) = of_nat 1"
      "bam_byte v (1 * 256 + 5) = of_nat 51" "bam_tracks v ! 2 > 0"
      "bam_byte v (2 * 256 + 4) = of_nat 51" "bam_byte v (2 * 256 + 5) = of_nat 78"
      using hd by (simp_all add: bam_headers_ok_def block_ranges_def)
    have s1: "entry_search_8050 v t 1 = (if 1 \<le> t \<and> t < 51 then (Some (1 * 256 + 6 + 5 * (t - 1)), v)
        else entry_search_8050 v t (Suc 1))"
      using ld sz 1 r(1-3) by (intro entry_search_step) (simp_all add: layout_size_def)
    have s2: "entry_search_8050 v t 2 = (if 51 \<le> t \<and> t < 78 then (Some (2 * 256 + 6 + 5 * (t - 51)), v)
        else entry_search_8050 v t (Suc 2))"
      using ld sz 1 r(4-6) by (intro entry_search_step) (simp_all add: layout_size_def)
    show ?thesis
      using 1 assms(2,3) s1 s2
      by (simp add: vdrive_bam_get_track_entry_def entry_at_def entry_tracks_def numeral_2_eq_2)
  next
    case 2
    then have r: "bam_tracks v ! 1 > 0" "bam_byte v (1 * 256 + 4) = of_nat 1"
      "bam_byte v (1 * 256 + 5) = of_nat 51" "bam_tracks v ! 2 > 0"
      "bam_byte v (2 * 256 + 4) = of_nat 51" "bam_byte v (2 * 256 + 5) = of_nat 101"
      "bam_tracks v ! 3 > 0" "bam_byte v (3 * 256 + 4) = of_nat 101"
      "bam_byte v (3 * 256 + 5) = of_nat 151" "bam_tracks v ! 4 > 0"
      "bam_byte v (4 * 256 + 4) = of_nat 151" "bam_byte v (4 * 256 + 5) = of_nat 155"
      using hd by (simp_all add: bam_headers_ok_def block_ranges_def)
    have s1: "entry_search_8050 v t 1 = (if 1 \<le> t \<and> t < 51 then (Some (1 * 256 + 6 + 5 * (t - 1)), v)
        else entry_search_8050 v t (Suc 1))"
      using ld sz 2 r(1-3) by (intro entry_search_step) (simp_all add: layout_size_def)
    have s2: "entry_search_8050 v t 2 = (if 51 \<le> t \<and> t < 101 then (Some (2 * 256 + 6 + 5 * (t - 51)), v)
        else entry_search_8050 v t (Suc 2))"
      using ld sz 2 r(4-6) by (intro entry_search_step) (simp_all add: layout_size_def)
    have s3: "entry_search_8050 v t 3 = (if 101 \<le> t \<and> t < 151 then (Some (3 * 256 + 6 + 5 * (t - 101)), v)
        else entry_search_8050 v t (Suc 3))"
      using ld sz 2 r(7-9) by (intro entry_search_step) (simp_all add: layout_size_def)
    have s4: "entry_search_8050 v t 4 = (if 151 \<le> t \<and> t < 155 then (Some (4 * 256 + 6 + 5 * (t - 151)), v)
        else entry_search_8050 v t (Suc 4))"
      using ld sz 2 r(10-12) by (intro entry_search_step) (simp_all add: layout_size_def)
    have n: "Suc 1 = 2" "Suc 2 = 3" "Suc 3 = 4" by simp_all
    show ?thesis
      using 2 assms(2,3) s1 s2 s3 s4 unfolding n
      by (simp add: vdrive_bam_get_track_entry_def entry_at_def entry_tracks_def)
  next
    case 3
    with fx assms(2,3) show ?thesis
      by (cases "image_format v")
        (auto simp: vdrive_bam_get_track_entry_def entry_at_def fixed_layout_def)
  qed
qed

subsection \<open>What allocating and freeing do to the bytes\<close>

lemma sector_free_effect:
  fixes w :: vdrive and t :: nat and add :: int
  assumes "bam_loaded w" "fixed_layout (image_format w)" "bam_size w = layout_size (image_format w)"
    "1 \<le> t" "t \<le> entry_tracks (image_format w)"
  defines "w' \<equiv> vdrive_bam_sector_free w (entry_at (image_format w) t) t add"
  shows "bam_loaded w' \<and> same_drive w w' \<and>
    (\<forall>j. bam_byte w' j =
      (if count_at (image_format w) t = Some j then bam_byte w j + word_of_int add else bam_byte w j))"
proof -
  let ?e = "entry_at (image_format w) t"
  have len: "length (the (bam w)) = bam_size w" using assms(1) by (simp add: bam_loaded_def)
  have e: "?e < bam_size w" using entry_at_bound assms by simp
  have rd: "vdrive_bam_read_bam_block w (?e div 256) = (CBMDOS_IPE_OK, w)"
    using assms(1) e by (rule read_bam_block_at)
  consider (np) "image_format w = FORMAT_NP"
    | (side2) "image_format w = FORMAT_1571" "t > 35"
    | (rest) "image_format w \<noteq> FORMAT_NP" "\<not> (image_format w = FORMAT_1571 \<and> t > 35)" by blast
  then show ?thesis
  proof cases
    case np
    then show ?thesis using assms(1) by (simp add: w'_def vdrive_bam_sector_free_def count_at_def)
  next
    case side2
    let ?c = "221 + t - 35 - 1"
    have c: "?c < bam_size w" and "t \<le> 70"
      using side2 assms(3,5) by (auto simp: layout_size_def entry_tracks_def)
    have "vdrive_bam_read_bam_block (bam_mark (?e div 256) 1 w) (?c div 256) =
        (CBMDOS_IPE_OK, bam_mark (?e div 256) 1 w)"
      using assms(1) c by (intro read_bam_block_at) simp_all
    then have "w' = bam_mark (?c div 256) 1
        (bam_put ?c (bam_byte w ?c + word_of_int add) (bam_mark (?e div 256) 1 w))"
      using side2 rd by (simp add: w'_def vdrive_bam_sector_free_def Let_def)
    then show ?thesis
      using assms(1) side2 c len by (simp add: count_at_def)
  next
    case rest
    have cnt: "count_at (image_format w) t = Some ?e" using rest by (auto simp: count_at_def)
    have "w' = bam_mark (?e div 256) 1 (bam_put ?e (bam_byte w ?e + word_of_int add) w) \<or>
      w' = bam_put ?e (bam_byte w ?e + word_of_int add) (bam_mark (?e div 256) 1 w)"
      using rest assms(2) rd
      by (cases "image_format w = FORMAT_1571")
        (auto simp: w'_def vdrive_bam_sector_free_def Let_def fixed_layout_def)
    then show ?thesis
      using assms(1) e len cnt by (elim disjE) simp_all
  qed
qed

text \<open>The drive after a bit has been changed to \<open>x\<close> and the count adjusted.\<close>

lemma bit_change_effect:
  fixes v :: vdrive and t s :: nat and x :: byte and add :: int
  assumes "bam_ok v" "bam_addr v (t, s)"
  defines "q \<equiv> byte_at (image_format v) t s"
  defines "w \<equiv> vdrive_bam_sector_free (bam_mark (q div 256) 1 (bam_put q x v)) (entry_at (image_format v) t) t add"
  shows "bam_ok w" "same_drive v w"
    and "bam_byte w j = (if j = q then x else if count_at (image_format v) t = Some j
      then bam_byte v j + word_of_int add else bam_byte v j)"
proof -
  let ?f = "image_format v" and ?u = "bam_mark (q div 256) 1 (bam_put q x v)"
  have v: "bam_loaded v" "fixed_layout ?f" "bam_size v = layout_size ?f" "bam_headers_ok v"
    and t: "1 \<le> t" "t \<le> entry_tracks ?f" "s < entry_bits ?f"
    using assms(1,2) by (auto simp: bam_ok_def bam_addr_def)
  have q: "q < length (the (bam v))"
    using byte_at_bound [OF v(2) t] v(1,3) by (simp add: q_def bam_loaded_def)
  have u: "bam_loaded ?u" "image_format ?u = ?f" "bam_size ?u = bam_size v" using v by simp_all
  note eff = sector_free_effect [of ?u t add, unfolded u(2,3), OF u(1) v(2,3) t(1,2), folded w_def]
  have cq: "count_at ?f t \<noteq> Some q"
    using count_not_bits [OF v(2) t(1,2) _ t] unfolding q_def by blast
  show w: "bam_byte w j = (if j = q then x else if count_at ?f t = Some j
      then bam_byte v j + word_of_int add else bam_byte v j)" for j
    using eff q cq by simp
  show sd: "same_drive v w"
    using eff same_drive_trans [of v ?u w] by simp
  note k = same_drive_keeps [OF sd]
  have "bam_byte w (i * 256 + 4) = bam_byte v (i * 256 + 4) \<and> bam_byte w (i * 256 + 5) = bam_byte v (i * 256 + 5)"
    if "?f = FORMAT_8050 \<or> ?f = FORMAT_8250" for i
  proof -
    have "s div 8 < 4" using t(3) that by (auto simp: entry_bits_def)
    then have "entry_at ?f t \<le> q" "q \<le> entry_at ?f t + 4" by (simp_all add: q_def byte_at_def)
    moreover have "count_at ?f t = Some (entry_at ?f t)" using that by (auto simp: count_at_def)
    ultimately show ?thesis
      using above_headers [OF that t(1,2), of q i] above_headers [OF that t(1,2), of "entry_at ?f t" i]
      by (simp add: w)
  qed
  then have "bam_headers_ok w"
    using v(4) unfolding bam_headers_ok_def k by (cases ?f) (simp_all add: block_ranges_def)
  then show "bam_ok w" using eff v by (simp add: bam_ok_def k)
qed

lemma isset_ok:
  assumes "bam_ok v" "bam_addr v (t, s)"
  shows "vdrive_bam_isset v (entry_at (image_format v) t) (bit_index (image_format v) s) =
    (bam_byte v (byte_at (image_format v) t s) AND push_bit (bit_index (image_format v) s mod 8) 1, v)"
    and "byte_at (image_format v) t s < bam_size v"
proof -
  show b: "byte_at (image_format v) t s < bam_size v"
    using byte_at_bound assms by (simp add: bam_ok_def bam_addr_def)
  show "vdrive_bam_isset v (entry_at (image_format v) t) (bit_index (image_format v) s) =
    (bam_byte v (byte_at (image_format v) t s) AND push_bit (bit_index (image_format v) s mod 8) 1, v)"
    using read_bam_block_at [OF _ b] assms(1)
    by (simp add: vdrive_bam_isset_def Let_def bam_ok_def byte_at_def)
qed

declare push_bit_of_1 [simp del]

lemma bit_clear_byte: "k < 8 \<Longrightarrow> bit (x AND NOT (push_bit i 1) :: byte) k \<longleftrightarrow> bit x k \<and> k \<noteq> i"
  by (auto simp: bit_simps)

lemma bit_set_byte: "k < 8 \<Longrightarrow> bit (x OR push_bit i 1 :: byte) k \<longleftrightarrow> bit x k \<or> k = i"
  by (auto simp: bit_simps)

definition changed_bit :: "vdrive \<Rightarrow> nat \<Rightarrow> nat \<Rightarrow> byte \<Rightarrow> int \<Rightarrow> vdrive" where
  "changed_bit v t s x add =
    vdrive_bam_sector_free
      (bam_mark (byte_at (image_format v) t s div 256) 1 (bam_put (byte_at (image_format v) t s) x v))
      (entry_at (image_format v) t) t add"

lemmas changed_bit_effect = bit_change_effect [folded changed_bit_def]

lemma addr_entry:
  assumes "bam_ok v" "bam_addr v (t, s)"
  shows "vdrive_bam_get_track_entry v t s' = (Some (entry_at (image_format v) t), v)"
    and "\<not> (t > 70 \<and> image_format v = FORMAT_1571)"
    and "np_sector v s = bit_index (image_format v) s" "entry_sector v s' = s'"
  using assms
  by (auto simp: get_track_entry_ok bam_addr_def entry_tracks_def np_sector_def bit_index_def
      entry_sector_def bam_ok_def fixed_layout_def)

lemma allocate_sector_ok:
  assumes "bam_ok v" "bam_addr v (t, s)"
  defines "q \<equiv> byte_at (image_format v) t s" and "i \<equiv> bit_index (image_format v) s mod 8"
  shows "vdrive_bam_allocate_sector v t s =
    (if sector_is_free v (t, s)
     then (1, changed_bit v t s (bam_byte v q AND NOT (push_bit i 1)) (-1)) else (0, v))"
proof -
  note ae = addr_entry [OF assms(1,2)] and iss = isset_ok [OF assms(1,2)]
  have fr: "sector_is_free v (t, s) \<longleftrightarrow> bam_byte v q AND push_bit i 1 \<noteq> 0"
    by (simp add: sector_is_free_def q_def i_def bit_iff_and_push_bit_not_eq_0)
  have "vdrive_bam_read_bam_block v (q div 256) = (CBMDOS_IPE_OK, v)"
    using read_bam_block_at [OF _ iss(2)] assms(1) by (simp add: q_def bam_ok_def)
  then have "vdrive_bam_clr v (entry_at (image_format v) t) (bit_index (image_format v) s) =
      bam_mark (q div 256) 1 (bam_put q (bam_byte v q AND NOT (push_bit i 1)) v)"
    by (simp add: vdrive_bam_clr_def Let_def q_def i_def byte_at_def)
  then show ?thesis
    using ae iss(1) fr unfolding vdrive_bam_allocate_sector_def
    by (auto simp: Let_def changed_bit_def q_def i_def)
qed

lemma free_sector_ok:
  assumes "bam_ok v" "bam_addr v (t, s)"
  defines "q \<equiv> byte_at (image_format v) t s" and "i \<equiv> bit_index (image_format v) s mod 8"
  shows "vdrive_bam_free_sector v t s =
    (if sector_is_free v (t, s) then (0, v)
     else (1, changed_bit v t s (bam_byte v q OR push_bit i 1) 1))"
proof -
  note ae = addr_entry [OF assms(1,2)] and iss = isset_ok [OF assms(1,2)]
  have fr: "sector_is_free v (t, s) \<longleftrightarrow> bam_byte v q AND push_bit i 1 \<noteq> 0"
    by (simp add: sector_is_free_def q_def i_def bit_iff_and_push_bit_not_eq_0)
  have "vdrive_bam_read_bam_block v (q div 256) = (CBMDOS_IPE_OK, v)"
    using read_bam_block_at [OF _ iss(2)] assms(1) by (simp add: q_def bam_ok_def)
  then have "vdrive_bam_set v (entry_at (image_format v) t) (bit_index (image_format v) s) =
      bam_mark (q div 256) 1 (bam_put q (bam_byte v q OR push_bit i 1) v)"
    by (simp add: vdrive_bam_set_def Let_def q_def i_def byte_at_def)
  then show ?thesis
    using ae iss(1) fr unfolding vdrive_bam_free_sector_def
    by (auto simp: Let_def changed_bit_def q_def i_def)
qed

lemma is_sector_allocated_ok:
  assumes "bam_ok v" "bam_addr v (t, s)"
  shows "vdrive_bam_is_sector_allocated v t s = (if sector_is_free v (t, s) then 0 else 1, v)"
  using addr_entry [OF assms] isset_ok(1) [OF assms]
  unfolding vdrive_bam_is_sector_allocated_def
  by (simp add: Let_def sector_is_free_def bit_iff_and_push_bit_not_eq_0)

lemma changed_bit_free:
  assumes "bam_ok v" "bam_addr v (t, s)" "bam_addr v (t', s')"
    and x: "\<And>k. k < 8 \<Longrightarrow> k \<noteq> bit_index (image_format v) s mod 8 \<Longrightarrow>
      bit x k = bit (bam_byte v (byte_at (image_format v) t s)) k"
  shows "sector_is_free (changed_bit v t s x add) (t', s') \<longleftrightarrow>
    (if (t', s') = (t, s) then bit x (bit_index (image_format v) s mod 8) else sector_is_free v (t', s'))"
proof -
  let ?f = "image_format v"
  note eff = changed_bit_effect [OF assms(1,2), where x = x and add = add]
  have fx: "fixed_layout ?f" using assms(1) by (simp add: bam_ok_def)
  have a: "1 \<le> t" "t \<le> entry_tracks ?f" "s < entry_bits ?f"
    and a': "1 \<le> t'" "t' \<le> entry_tracks ?f" "s' < entry_bits ?f"
    using assms(2,3) by (auto simp: bam_addr_def)
  have f: "image_format (changed_bit v t s x add) = ?f" by (rule same_drive_keeps [OF eff(2)])
  have c: "count_at ?f t \<noteq> Some (byte_at ?f t' s')"
    using count_not_bits [OF fx a(1,2) _ a'] by blast
  show ?thesis
  proof (cases "byte_at ?f t' s' = byte_at ?f t s")
    case True
    then have same: "t' = t" "s' div 8 = s div 8"
      using byte_at_inj [OF fx a'(1,2) a(1,2) a'(3) a(3)] by auto
    show ?thesis
    proof (cases "s' = s")
      case True
      then show ?thesis using same by (simp add: sector_is_free_def f eff(3))
    next
      case False
      then have "bit_index ?f s' mod 8 \<noteq> bit_index ?f s mod 8" using bit_index_inj same(2) by blast
      then show ?thesis using True same False x [of "bit_index ?f s' mod 8"]
        by (simp add: sector_is_free_def f eff(3))
    qed
  next
    case False
    then show ?thesis using c by (auto simp: sector_is_free_def f eff(3))
  qed
qed

lemma clear_bit_free:
  assumes "bam_ok v" "bam_addr v (t, s)" "bam_addr v (t', s')"
  shows "sector_is_free (changed_bit v t s (bam_byte v (byte_at (image_format v) t s) AND
      NOT (push_bit (bit_index (image_format v) s mod 8) 1)) add) (t', s') \<longleftrightarrow>
    sector_is_free v (t', s') \<and> (t', s') \<noteq> (t, s)"
  by (subst changed_bit_free [OF assms]) (simp_all add: bit_clear_byte)

lemma set_bit_free:
  assumes "bam_ok v" "bam_addr v (t, s)" "bam_addr v (t', s')"
  shows "sector_is_free (changed_bit v t s (bam_byte v (byte_at (image_format v) t s) OR
      push_bit (bit_index (image_format v) s mod 8) 1) add) (t', s') \<longleftrightarrow>
    sector_is_free v (t', s') \<or> (t', s') = (t, s)"
  by (subst changed_bit_free [OF assms]) (auto simp: bit_set_byte)

definition bam_alloc :: "vdrive \<Rightarrow> nat \<times> nat \<Rightarrow> nat \<times> vdrive" where
  "bam_alloc v ts = vdrive_bam_allocate_sector v (fst ts) (snd ts)"

definition bam_release :: "vdrive \<Rightarrow> nat \<times> nat \<Rightarrow> nat \<times> vdrive" where
  "bam_release v ts = vdrive_bam_free_sector v (fst ts) (snd ts)"

lemma bam_addr_same: "same_drive v w \<Longrightarrow> bam_addr w = bam_addr v"
  by (intro ext) (simp add: bam_addr_def same_drive_keeps)

text \<open>The BAM of a drive keeps the contract.\<close>

interpretation bam: allocation_map bam_ok bam_addr sector_is_free bam_alloc bam_release
proof unfold_locales
  fix v :: vdrive and a b :: "nat \<times> nat"
  assume ok: "bam_ok v" and a: "bam_addr v a"
  obtain t s t' s' where ts: "a = (t, s)" "b = (t', s')" by (cases a, cases b)
  let ?f = "image_format v"
  note al = allocate_sector_ok [OF ok a [unfolded ts]] and fr = free_sector_ok [OF ok a [unfolded ts]]
  note eff = changed_bit_effect [OF ok a [unfolded ts]]
  show "fst (bam_alloc v a) = of_bool (sector_is_free v a)"
    using al ts by (simp add: bam_alloc_def)
  show "bam_ok (snd (bam_alloc v a))"
    using al ts ok eff(1) by (simp add: bam_alloc_def)
  show "bam_addr (snd (bam_alloc v a)) b = bam_addr v b"
    using al ts bam_addr_same [OF eff(2)] by (simp add: bam_alloc_def)
  show "fst (bam_release v a) = of_bool (\<not> sector_is_free v a)"
    using fr ts by (simp add: bam_release_def)
  show "bam_ok (snd (bam_release v a))"
    using fr ts ok eff(1) by (simp add: bam_release_def)
  show "bam_addr (snd (bam_release v a)) b = bam_addr v b"
    using fr ts bam_addr_same [OF eff(2)] by (simp add: bam_release_def)
  assume b: "bam_addr v b"
  show "sector_is_free (snd (bam_alloc v a)) b \<longleftrightarrow> sector_is_free v b \<and> b \<noteq> a"
    using al ts clear_bit_free [OF ok a [unfolded ts] b [unfolded ts]] by (auto simp: bam_alloc_def)
  show "sector_is_free (snd (bam_release v a)) b \<longleftrightarrow> sector_is_free v b \<or> b = a"
    using fr ts set_bit_free [OF ok a [unfolded ts] b [unfolded ts]] by (auto simp: bam_release_def)
qed

lemma bam_alloc_same: "bam_ok v \<Longrightarrow> bam_addr v a \<Longrightarrow> same_drive v (snd (bam_alloc v a))"
  by (cases a) (simp add: bam_alloc_def allocate_sector_ok changed_bit_effect)

subsection \<open>The counts of free sectors\<close>

text \<open>Every count equals the number of free bits of its track.\<close>

definition free_on_track :: "vdrive \<Rightarrow> nat \<Rightarrow> nat" where
  "free_on_track v t = card {s. s < entry_bits (image_format v) \<and> sector_is_free v (t, s)}"

definition counts_ok :: "vdrive \<Rightarrow> bool" where
  "counts_ok v = (\<forall>t c. 1 \<le> t \<longrightarrow> t \<le> entry_tracks (image_format v) \<longrightarrow>
     count_at (image_format v) t = Some c \<longrightarrow> unat (bam_byte v c) = free_on_track v t)"

lemma entry_at_inj:
  assumes "fixed_layout fmt" "1 \<le> t" "t < t'" "t' \<le> entry_tracks fmt"
  shows "entry_at fmt t < entry_at fmt t' \<or> fmt \<in> {FORMAT_1571, FORMAT_NP}"
  using assms by (cases fmt) (auto simp: layout_defs split: if_splits)

lemma count_at_inj:
  assumes "fixed_layout fmt" "1 \<le> t" "t \<le> entry_tracks fmt" "1 \<le> t'" "t' \<le> entry_tracks fmt"
    "count_at fmt t = Some c" "count_at fmt t' = Some c"
  shows "t = t'"
proof (cases "fmt = FORMAT_1571")
  case True
  then show ?thesis using assms by (auto simp: count_at_def entry_at_def entry_tracks_def split: if_splits)
next
  case False
  then have np: "fmt \<noteq> FORMAT_NP" and "entry_at fmt t = entry_at fmt t'"
    using assms(6,7) by (auto simp: count_at_def split: if_splits)
  then show ?thesis
    using False entry_at_inj [OF assms(1,2) _ assms(5)] entry_at_inj [OF assms(1,4) _ assms(3)]
    by (metis insertE less_irrefl linorder_neqE_nat singletonD)
qed

lemma unat_byte_dec: "0 < unat x \<Longrightarrow> unat (x + word_of_int (-1) :: byte) = unat x - 1"
proof -
  assume "0 < unat x"
  then have "1 \<le> x" by (simp add: word_le_nat_alt)
  then show ?thesis by (simp add: unat_sub)
qed

lemma unat_byte_inc: "unat x < 255 \<Longrightarrow> unat (x + word_of_int 1 :: byte) = unat x + 1"
  by (simp add: unat_plus_if')

lemma changed_bit_counts:
  assumes "bam_ok v" "bam_addr v (t, s)" "counts_ok v"
    and w: "w = changed_bit v t s x add"
    and same: "\<And>t' s'. bam_addr v (t', s') \<Longrightarrow> t' \<noteq> t \<Longrightarrow> sector_is_free w (t', s') = sector_is_free v (t', s')"
    and this_track: "\<And>c. count_at (image_format v) t = Some c \<Longrightarrow> unat (bam_byte v c) = free_on_track v t \<Longrightarrow>
      unat (bam_byte v c + word_of_int add) = free_on_track w t"
  shows "counts_ok w"
proof -
  let ?f = "image_format v"
  note eff = changed_bit_effect [OF assms(1,2), where x = x and add = add, folded w]
  have f: "image_format w = ?f" by (rule same_drive_keeps [OF eff(2)])
  have fx: "fixed_layout ?f" using assms(1) by (simp add: bam_ok_def)
  have a: "1 \<le> t" "t \<le> entry_tracks ?f" "s < entry_bits ?f" using assms(2) by (auto simp: bam_addr_def)
  show ?thesis
    unfolding counts_ok_def f
  proof (intro allI impI)
    fix u c assume u: "1 \<le> u" "u \<le> entry_tracks ?f" "count_at ?f u = Some c"
    have cb: "c \<noteq> byte_at ?f t s" using count_not_bits [OF fx u a] .
    have before: "unat (bam_byte v c) = free_on_track v u" using assms(3) u by (simp add: counts_ok_def)
    show "unat (bam_byte w c) = free_on_track w u"
    proof (cases "u = t")
      case True
      then show ?thesis using eff(3) [of c] cb u before this_track by simp
    next
      case False
      then have "count_at ?f t \<noteq> Some c" using count_at_inj [OF fx a(1,2) u(1,2)] u(3) by blast
      moreover have "free_on_track w u = free_on_track v u"
        using same [of u] False u unfolding free_on_track_def f
        by (intro arg_cong [where f = card]) (auto simp: bam_addr_def)
      ultimately show ?thesis using eff(3) [of c] cb before by simp
    qed
  qed
qed

lemma free_on_track_le: "free_on_track v t \<le> entry_bits (image_format v)"
  unfolding free_on_track_def
  using card_mono [of "{..<entry_bits (image_format v)}"
      "{s. s < entry_bits (image_format v) \<and> sector_is_free v (t, s)}"] by auto

lemma free_on_track_remove:
  assumes "image_format w = image_format v" "s < entry_bits (image_format v)" "sector_is_free v (t, s)"
    "\<And>s'. s' < entry_bits (image_format v) \<Longrightarrow> sector_is_free w (t, s') = (sector_is_free v (t, s') \<and> s' \<noteq> s)"
  shows "Suc (free_on_track w t) = free_on_track v t"
proof -
  let ?V = "{s'. s' < entry_bits (image_format v) \<and> sector_is_free v (t, s')}"
  have "{s'. s' < entry_bits (image_format v) \<and> sector_is_free w (t, s')} = ?V - {s}"
    using assms(4) by auto
  moreover have "s \<in> ?V" "finite ?V" using assms by auto
  ultimately show ?thesis unfolding free_on_track_def assms(1) using card_Suc_Diff1 by metis
qed

lemma allocate_counts:
  assumes "bam_ok v" "bam_addr v (t, s)" "counts_ok v"
  shows "counts_ok (snd (vdrive_bam_allocate_sector v t s))"
proof (cases "sector_is_free v (t, s)")
  case False
  then show ?thesis using assms allocate_sector_ok [OF assms(1,2)] by simp
next
  case True
  define w where "w = snd (vdrive_bam_allocate_sector v t s)"
  have w: "w = changed_bit v t s (bam_byte v (byte_at (image_format v) t s) AND
      NOT (push_bit (bit_index (image_format v) s mod 8) 1)) (-1)"
    using allocate_sector_ok [OF assms(1,2)] True by (simp add: w_def)
  have fr: "sector_is_free w (t', s') = (sector_is_free v (t', s') \<and> (t', s') \<noteq> (t, s))"
    if "bam_addr v (t', s')" for t' s'
    unfolding w by (rule clear_bit_free [OF assms(1,2) that])
  have a: "1 \<le> t" "t \<le> entry_tracks (image_format v)" "s < entry_bits (image_format v)"
    using assms(2) by (auto simp: bam_addr_def)
  have "image_format w = image_format v"
    using changed_bit_effect(2) [OF assms(1,2)] unfolding w by (rule same_drive_keeps)
  then have "Suc (free_on_track w t) = free_on_track v t"
    using a True fr by (intro free_on_track_remove) (auto simp: bam_addr_def)
  then have "counts_ok w"
    using fr unat_byte_dec by (intro changed_bit_counts [OF assms w]) auto
  then show ?thesis by (simp add: w_def)
qed

lemma free_counts:
  assumes "bam_ok v" "bam_addr v (t, s)" "counts_ok v"
  shows "counts_ok (snd (vdrive_bam_free_sector v t s))"
proof (cases "sector_is_free v (t, s)")
  case True
  then show ?thesis using assms free_sector_ok [OF assms(1,2)] by simp
next
  case False
  define w where "w = snd (vdrive_bam_free_sector v t s)"
  have w: "w = changed_bit v t s (bam_byte v (byte_at (image_format v) t s) OR
      push_bit (bit_index (image_format v) s mod 8) 1) 1"
    using free_sector_ok [OF assms(1,2)] False by (simp add: w_def)
  have fr: "sector_is_free w (t', s') = (sector_is_free v (t', s') \<or> (t', s') = (t, s))"
    if "bam_addr v (t', s')" for t' s'
    unfolding w by (rule set_bit_free [OF assms(1,2) that])
  have a: "1 \<le> t" "t \<le> entry_tracks (image_format v)" "s < entry_bits (image_format v)"
    using assms(2) by (auto simp: bam_addr_def)
  have f: "image_format w = image_format v"
    using changed_bit_effect(2) [OF assms(1,2)] unfolding w by (rule same_drive_keeps)
  have "Suc (free_on_track v t) = free_on_track w t"
    using a False fr f by (intro free_on_track_remove) (auto simp: bam_addr_def)
  moreover have "count_at (image_format v) t = Some c \<Longrightarrow> free_on_track v t < 255" for c
    using free_on_track_le [of v t] by (auto simp: count_at_def entry_bits_def split: image_format.splits if_splits)
  ultimately have "counts_ok w"
    using fr unat_byte_inc by (intro changed_bit_counts [OF assms w]) auto
  then show ?thesis by (simp add: w_def)
qed

subsection \<open>Properties\<close>

text \<open>
  C12. On a disk whose BAM is loaded, allocating a sector succeeds exactly if
  \<^verbatim>\<open>vdrive_bam_is_sector_allocated\<close> says it is not allocated, and afterwards exactly this
  sector has become allocated; freeing it succeeds exactly if it is allocated, and afterwards
  exactly this sector has become unallocated. The BAM stays well-formed. This holds for all
  disk formats but the D9090.
\<close>

theorem sector_allocation:
  assumes "bam_ok v" "bam_addr v (t, s)" "bam_addr v (t', s')"
  shows "fst (vdrive_bam_allocate_sector v t s) = (if fst (vdrive_bam_is_sector_allocated v t s) = 1 then 0 else 1) \<and>
    bam_ok (snd (vdrive_bam_allocate_sector v t s)) \<and>
    (fst (vdrive_bam_is_sector_allocated (snd (vdrive_bam_allocate_sector v t s)) t' s') = 1 \<longleftrightarrow>
      fst (vdrive_bam_is_sector_allocated v t' s') = 1 \<or> (t', s') = (t, s)) \<and>
    fst (vdrive_bam_free_sector v t s) = (if fst (vdrive_bam_is_sector_allocated v t s) = 1 then 1 else 0) \<and>
    bam_ok (snd (vdrive_bam_free_sector v t s)) \<and>
    (fst (vdrive_bam_is_sector_allocated (snd (vdrive_bam_free_sector v t s)) t' s') = 1 \<longleftrightarrow>
      fst (vdrive_bam_is_sector_allocated v t' s') = 1 \<and> (t', s') \<noteq> (t, s))"
proof -
  note al = bam.alloc_simps [OF assms(1,2), unfolded bam_alloc_def fst_conv snd_conv]
  note fr = bam.release_simps [OF assms(1,2), unfolded bam_release_def fst_conv snd_conv]
  have o: "bam_addr (snd (vdrive_bam_allocate_sector v t s)) (t', s')"
    "bam_addr (snd (vdrive_bam_free_sector v t s)) (t', s')"
    using al(3) fr(3) assms(3) by auto
  show ?thesis
    using al(1,2) al(4) [OF assms(3)] fr(1,2) fr(4) [OF assms(3)]
      is_sector_allocated_ok [OF assms(1,2)] is_sector_allocated_ok [OF assms(1,3)]
      is_sector_allocated_ok [OF al(2) o(1)] is_sector_allocated_ok [OF fr(2) o(2)]
    by auto
qed

text \<open>A drive with a D64 image and a loaded BAM of the given bytes, for the witnesses.\<close>

definition loaded_1541 :: "byte list \<Rightarrow> vdrive" where
  "loaded_1541 b = (blank_drive FORMAT_1541 (d64_image 35) 35)
     \<lparr>bam := Some b, bam_state := replicate 33 0\<rparr>"

lemma loaded_1541_ok: "length b = 256 \<Longrightarrow> bam_ok (loaded_1541 b)"
  by (simp add: bam_ok_def bam_loaded_def bam_headers_ok_def loaded_1541_def blank_drive_def
      fixed_layout_def layout_size_def block_ranges_def)

lemma loaded_1541_simps:
  "image_format (loaded_1541 b) = FORMAT_1541" "num_tracks (loaded_1541 b) = 35"
  "Dir_Track (loaded_1541 b) = 18" "bam_byte (loaded_1541 b) i = b ! i"
  by (simp_all add: loaded_1541_def blank_drive_def bam_byte_def)

theorem sector_allocation_witness:
  "fst (vdrive_bam_allocate_sector (loaded_1541 (replicate 256 255)) 1 0) =
     (if fst (vdrive_bam_is_sector_allocated (loaded_1541 (replicate 256 255)) 1 0) = 1 then 0 else 1) \<and>
   (fst (vdrive_bam_is_sector_allocated
      (snd (vdrive_bam_allocate_sector (loaded_1541 (replicate 256 255)) 1 0)) 1 0) = 1)"
  using sector_allocation [of "loaded_1541 (replicate 256 255)" 1 0 1 0]
  by (simp add: loaded_1541_ok bam_addr_def loaded_1541_simps entry_tracks_def entry_bits_def)

text \<open>
  C13. If every count of free sectors in the BAM equals the number of free bits of its track,
  then it still does after any sector has been allocated or freed: the counts never drift
  and never wrap around.
\<close>

theorem bam_counts_invariant:
  assumes "bam_ok v" "bam_addr v (t, s)" "counts_ok v"
  shows "counts_ok (snd (vdrive_bam_allocate_sector v t s)) \<and>
    counts_ok (snd (vdrive_bam_free_sector v t s))"
  using allocate_counts [OF assms] free_counts [OF assms] by simp

lemma counts_ok_empty: "counts_ok (loaded_1541 (replicate 256 0))"
proof -
  have "\<not> sector_is_free (loaded_1541 (replicate 256 0)) (t, s)" if "1 \<le> t" "t \<le> 42" "s < 24" for t s
    using byte_at_bound [of FORMAT_1541 t s] that
    by (simp add: sector_is_free_def loaded_1541_simps fixed_layout_def entry_tracks_def entry_bits_def
        layout_size_def)
  then have "{s. s < 24 \<and> sector_is_free (loaded_1541 (replicate 256 0)) (t, s)} = {}" if "1 \<le> t" "t \<le> 42" for t
    using that by auto
  then show ?thesis
    using count_at_bound [of FORMAT_1541]
    by (auto simp: counts_ok_def free_on_track_def loaded_1541_simps entry_tracks_def entry_bits_def
        fixed_layout_def layout_size_def)
qed

theorem bam_counts_invariant_witness:
  "counts_ok (snd (vdrive_bam_allocate_sector (loaded_1541 (replicate 256 0)) 17 3)) \<and>
   counts_ok (snd (vdrive_bam_free_sector (loaded_1541 (replicate 256 0)) 17 3))"
  by (rule bam_counts_invariant)
    (simp_all add: loaded_1541_ok counts_ok_empty bam_addr_def loaded_1541_simps entry_tracks_def
      entry_bits_def)

text \<open>
  C14. The BAM of a 1581 disk is 768 bytes long and has entries for 80 tracks, but the code
  computes an entry for the tracks 81 to 83, which image files may have and which the drive
  then counts among its tracks: the entry of track 81 begins right behind the BAM.
\<close>

theorem bam_1581_overrun:
  assumes "image_format v = FORMAT_1581" "bam_size v = 0x300" "81 \<le> t"
  shows "\<exists>e. vdrive_bam_get_track_entry v t s = (Some e, v) \<and> bam_size v \<le> e"
  using assms by (auto simp: vdrive_bam_get_track_entry_def)

theorem bam_1581_overrun_witness:
  "\<exists>e. vdrive_bam_get_track_entry ((blank_drive FORMAT_1581 ((d64_image 81)\<lparr>itype := D81\<rparr>) 81)\<lparr>bam_size := 0x300\<rparr>) 81 0 =
      (Some e, (blank_drive FORMAT_1581 ((d64_image 81)\<lparr>itype := D81\<rparr>) 81)\<lparr>bam_size := 0x300\<rparr>) \<and>
    bam_size ((blank_drive FORMAT_1581 ((d64_image 81)\<lparr>itype := D81\<rparr>) 81)\<lparr>bam_size := 0x300\<rparr>) \<le> e"
  by (rule bam_1581_overrun) (simp_all add: blank_drive_def)

end
