(* ===== verification/BamSearch.thy ===== *)
theory BamSearch
  imports BamMap
begin

text \<open>
  The searches for a free sector (\<^verbatim>\<open>vdrive_bam_alloc_worker\<close>, \<^verbatim>\<open>_down\<close>, \<^verbatim>\<open>_up\<close>,
  \<^verbatim>\<open>_first_free_sector\<close>, \<^verbatim>\<open>_next_free_sector\<close>) on the disk formats other than the D9090.
  Each is shown to try the sectors of an explicit list in order and to allocate the first
  free one; from the lists follow what the searches find and when they report a full disk.
\<close>

subsection \<open>Sectors per track\<close>

definition cbm_format :: "image_format \<Rightarrow> bool" where
  "cbm_format fmt = (fixed_layout fmt \<and> fmt \<noteq> FORMAT_NP)"

definition sectors_on :: "vdrive \<Rightarrow> nat \<Rightarrow> nat" where
  "sectors_on v t = c_unsigned (vdrive_get_max_sectors v t)"

text \<open>The largest number of sectors on any track of a format.\<close>

definition widest :: "image_format \<Rightarrow> nat" where
  "widest fmt = (case fmt of FORMAT_1581 \<Rightarrow> 40 | FORMAT_8050 \<Rightarrow> 29 | FORMAT_8250 \<Rightarrow> 29 | FORMAT_NP \<Rightarrow> 256 | _ \<Rightarrow> 21)"

lemma sectors_on_bounds:
  assumes "fixed_layout (image_format v)"
  shows "0 < sectors_on v t" "sectors_on v t \<le> widest (image_format v)"
    and "widest (image_format v) \<le> entry_bits (image_format v)"
    and "cbm_format (image_format v) \<Longrightarrow> widest (image_format v) + 9 \<le> 2 * sectors_on v t"
  using assms
  by (cases "image_format v";
      force simp: sectors_on_def vdrive_get_max_sectors_def fixed_layout_def widest_def entry_bits_def
        cbm_format_def c_unsigned_def sector_per_track_d71 geom_simps)+

lemma sectors_on_head:
  "fixed_layout (image_format v) \<Longrightarrow> c_unsigned (vdrive_get_max_sectors_per_head v t) = sectors_on v t"
  by (auto simp: sectors_on_def vdrive_get_max_sectors_per_head_def fixed_layout_def)

subsection \<open>Failed attempts change nothing\<close>

lemma try_all_fails:
  assumes "bam_ok v" "\<And>a. a \<in> set as \<Longrightarrow> bam_addr v a" "fst (try_all bam_alloc v as) = None"
  shows "try_all bam_alloc v as = (None, v)"
  using assms(2,3)
proof (induction as)
  case Nil
  then show ?case by simp
next
  case (Cons a as)
  obtain t s where a: "a = (t, s)" by (cases a)
  have ad: "bam_addr v (t, s)" using Cons.prems(1) a by simp
  have "\<not> sector_is_free v (t, s)"
    using Cons.prems(2) a allocate_sector_ok [OF assms(1) ad] by (auto simp: bam_alloc_def)
  then have "bam_alloc v a = (0, v)"
    using allocate_sector_ok [OF assms(1) ad] a by (simp add: bam_alloc_def)
  then show ?case using Cons by simp
qed

lemma try_all_same:
  assumes "bam_ok v" "\<And>a. a \<in> set as \<Longrightarrow> bam_addr v a"
  shows "same_drive v (snd (try_all bam_alloc v as))"
  using assms
proof (induction as arbitrary: v)
  case Nil
  then show ?case by simp
next
  case (Cons a as)
  obtain r w where rw: "bam_alloc v a = (r, w)" by (cases "bam_alloc v a")
  have a: "bam_addr v a" using Cons.prems(2) by simp
  have w: "same_drive v w" "bam_ok w" "\<And>x. bam_addr w x = bam_addr v x"
    using bam_alloc_same [OF Cons.prems(1) a] bam.alloc_simps [OF Cons.prems(1) a] rw by auto
  then have "same_drive w (snd (try_all bam_alloc w as))"
    using Cons.prems(2) by (intro Cons.IH) auto
  then show ?case using rw w(1) same_drive_trans by auto
qed

text \<open>The result of a search as the functions of the code report it.\<close>

definition found :: "(nat \<times> nat) option \<times> vdrive \<Rightarrow> nat \<Rightarrow> nat \<Rightarrow> int \<times> vdrive \<times> nat \<times> nat" where
  "found r t s = (case r of (Some (t', s'), v) \<Rightarrow> (0, v, t', s') | (None, v) \<Rightarrow> (-1, v, t, s))"

subsection \<open>One track\<close>

definition track_list :: "vdrive \<Rightarrow> nat \<Rightarrow> nat \<Rightarrow> (nat \<times> nat) list" where
  "track_list v t s = map (\<lambda>k. (t, (s + k) mod sectors_on v t)) [0..<sectors_on v t]"

lemma rotation_set:
  assumes "0 < (m::nat)"
  shows "(\<lambda>k. (s + k) mod m) ` {..<m} = {..<m}"
proof -
  have "\<exists>k < m. (s + k) mod m = x" if x: "x < m" for x
  proof (intro exI conjI)
    let ?k = "(x + (m - s mod m)) mod m"
    show "?k < m" using assms by simp
    have "(s + ?k) mod m = (s mod m + (x + (m - s mod m))) mod m"
      by (simp add: mod_simps)
    also have "s mod m + (x + (m - s mod m)) = x + m" using mod_less_divisor [OF assms, of s] by linarith
    finally show "(s + ?k) mod m = x" using x by simp
  qed
  then show ?thesis using assms by (auto simp: image_iff)
qed

lemma set_track_list:
  "0 < sectors_on v t \<Longrightarrow> set (track_list v t s) = {t} \<times> {..<sectors_on v t}"
  unfolding track_list_def using rotation_set [of "sectors_on v t" s]
  by (auto simp: image_iff atLeast0LessThan)

lemma track_list_valid:
  assumes "bam_ok v" "1 \<le> t" "t \<le> entry_tracks (image_format v)" "a \<in> set (track_list v t s)"
  shows "bam_addr v a"
proof -
  have fx: "fixed_layout (image_format v)" using assms(1) by (simp add: bam_ok_def)
  note b = sectors_on_bounds [OF fx]
  show ?thesis using assms(2-4) b(1,2) [of t] b(3) by (auto simp: set_track_list bam_addr_def)
qed

lemma worker_scan_try_all:
  assumes "0 < mx" "s < mx"
  shows "worker_scan v t mx 0 s n =
    (case try_all bam_alloc v (map (\<lambda>k. (t, (s + k) mod mx)) [0..<n]) of
       (Some a, w) \<Rightarrow> (Some (snd a), snd a, w)
     | (None, w) \<Rightarrow> (None, (s + n) mod mx, w))"
  using assms(2)
proof (induction n arbitrary: v s)
  case 0
  then show ?case by simp
next
  case (Suc n)
  define s1 where "s1 = (if Suc s \<ge> mx then 0 else Suc s)"
  have s1: "s1 = Suc s mod mx" "s1 < mx"
    using Suc.prems assms(1) unfolding s1_def by (cases "mx = Suc s"; simp)+
  have l: "map (\<lambda>k. (t, (s + k) mod mx)) [0..<Suc n] = (t, s) # map (\<lambda>k. (t, (s1 + k) mod mx)) [0..<n]"
  proof -
    have "[0..<Suc n] = 0 # map Suc [0..<n]" by (simp add: map_Suc_upt upt_conv_Cons del: upt_Suc)
    then show ?thesis unfolding s1(1) using Suc.prems by (simp add: mod_simps o_def del: upt_Suc)
  qed
  have e: "(s1 + n) mod mx = (s + Suc n) mod mx" unfolding s1(1) by (simp add: mod_simps)
  obtain r w where rw: "vdrive_bam_allocate_sector v t s = (r, w)" by fastforce
  show ?case
    using Suc.IH [OF s1(2), of w] rw unfolding l e s1_def [symmetric]
    by (simp add: bam_alloc_def s1_def [symmetric])
qed

lemma worker_try_all:
  assumes "fixed_layout (image_format v)" "s < sectors_on v t"
  shows "vdrive_bam_alloc_worker v t s =
    (case try_all bam_alloc v (track_list v t s) of
       (Some a, w) \<Rightarrow> (0, w, snd a) | (None, w) \<Rightarrow> (-1, w, s))"
proof -
  let ?m = "sectors_on v t"
  have g2: "worker_groups w t ?m ?m h r ?m = (None, w)" for w h r
    by (subst worker_groups.simps) simp
  have "worker_groups v t ?m ?m 0 s 0 =
      (case try_all bam_alloc v (track_list v t s) of (Some a, w) \<Rightarrow> (Some (snd a), w) | (None, w) \<Rightarrow> (None, w))"
    using assms(2) g2
    by (subst worker_groups.simps)
      (simp add: worker_scan_try_all track_list_def split: prod.split option.split)
  with assms show ?thesis
    by (simp add: vdrive_bam_alloc_worker_def sectors_on_head sectors_on_def [symmetric] Let_def
        split: prod.split option.split)
qed

subsection \<open>Up and down from a track\<close>

text \<open>
  With an interleave of at most 10 and a sector number that some track of the disk has, the
  sector to start from exists on the track.
\<close>

lemma add_interleave_bound:
  assumes "cbm_format (image_format v)" "sec < widest (image_format v)" "il \<le> 10"
  shows "vdrive_bam_alloc_add_interleave v t sec il < sectors_on v t"
proof -
  have fx: "fixed_layout (image_format v)" using assms(1) by (simp add: cbm_format_def)
  note b = sectors_on_bounds(1) [OF fx, of t] sectors_on_bounds(4) [OF fx assms(1), of t]
  let ?m = "sectors_on v t"
  have "vdrive_bam_alloc_add_interleave v t sec il =
      (if sec + il \<ge> ?m then if sec + il - ?m \<noteq> 0 then sec + il - ?m - 1 else 0 else sec + il)"
    by (simp add: vdrive_bam_alloc_add_interleave_def Let_def sectors_on_head [OF fx]
        sectors_on_def [symmetric])
  then show ?thesis using b assms(2,3) by auto
qed

definition from_track :: "vdrive \<Rightarrow> nat \<Rightarrow> nat \<Rightarrow> nat \<Rightarrow> (nat \<times> nat) list" where
  "from_track v sec il t = track_list v t (vdrive_bam_alloc_add_interleave v t sec il)"

definition tracks_list :: "vdrive \<Rightarrow> nat \<Rightarrow> nat \<Rightarrow> nat list \<Rightarrow> (nat \<times> nat) list" where
  "tracks_list v sec il ts = concat (map (from_track v sec il) ts)"

text \<open>The state in which a search on a CBM format runs.\<close>

definition searchable :: "vdrive \<Rightarrow> bool" where
  "searchable v = (bam_ok v \<and> cbm_format (image_format v) \<and> num_tracks v \<le> entry_tracks (image_format v))"

lemma searchable_simps:
  "searchable v \<Longrightarrow> bam_ok v" "searchable v \<Longrightarrow> fixed_layout (image_format v)"
  "searchable v \<Longrightarrow> cbm_format (image_format v)" "searchable v \<Longrightarrow> 0 < sectors_on v t"
  by (auto simp: searchable_def cbm_format_def intro: sectors_on_bounds)

lemma set_tracks_list:
  assumes "searchable v"
  shows "set (tracks_list v sec il ts) = {(t, s). t \<in> set ts \<and> s < sectors_on v t}"
  using set_track_list [OF searchable_simps(4) [OF assms]]
  by (auto simp: tracks_list_def from_track_def)

lemma tracks_list_valid:
  assumes "searchable v" "\<And>t. t \<in> set ts \<Longrightarrow> 1 \<le> t \<and> t \<le> entry_tracks (image_format v)"
    "a \<in> set (tracks_list v sec il ts)"
  shows "bam_addr v a"
proof -
  obtain t where t: "t \<in> set ts" "a \<in> set (from_track v sec il t)"
    using assms(3) by (auto simp: tracks_list_def)
  then show ?thesis
    using track_list_valid [OF searchable_simps(1) [OF assms(1)], of t a] assms(2) [OF t(1)]
    by (simp add: from_track_def)
qed

lemma worker_from_track:
  assumes "searchable v" "sec < widest (image_format v)" "il \<le> 10"
    "1 \<le> t" "t \<le> entry_tracks (image_format v)"
  shows "vdrive_bam_alloc_worker v t (vdrive_bam_alloc_add_interleave v t sec il) =
    (case try_all bam_alloc v (from_track v sec il t) of
       (Some a, w) \<Rightarrow> (0, w, snd a)
     | (None, w) \<Rightarrow> (-1, v, vdrive_bam_alloc_add_interleave v t sec il))"
proof -
  have v: "bam_ok v" "fixed_layout (image_format v)" "cbm_format (image_format v)"
    using assms(1) by (auto dest: searchable_simps)
  have "try_all bam_alloc v (from_track v sec il t) = (None, v)"
    if "fst (try_all bam_alloc v (from_track v sec il t)) = None"
    using try_all_fails [OF v(1) _ that] track_list_valid [OF v(1) assms(4,5)]
    by (auto simp: from_track_def)
  then show ?thesis
    using worker_try_all [OF v(2) add_interleave_bound [OF v(3) assms(2,3)]]
    by (auto simp: from_track_def split: prod.splits option.splits)
qed

lemma track_of_found:
  assumes "bam_ok v" "\<And>a. a \<in> set as \<Longrightarrow> bam_addr v a" "try_all bam_alloc v as = (Some a, w)"
  shows "a \<in> set as"
  using bam.try_all_Some(1) [OF assms(1,2)] assms(3) by simp

lemma fst_from_track: "a \<in> set (from_track v sec il t) \<Longrightarrow> fst a = t"
  by (auto simp: from_track_def track_list_def)

lemma track_step:
  assumes "searchable v" "sec < widest (image_format v)" "il \<le> 10" "1 \<le> t"
    "t \<le> entry_tracks (image_format v)"
    and "rest v = found (try_all bam_alloc v (tracks_list v sec il ts)) t0 sec"
  shows "(case vdrive_bam_alloc_worker v t (vdrive_bam_alloc_add_interleave v t sec il) of
      (r, w, s) \<Rightarrow> if r = 0 then (0, w, t, s) else rest w) =
    found (try_all bam_alloc v (tracks_list v sec il (t # ts))) t0 sec"
proof (cases "try_all bam_alloc v (from_track v sec il t)")
  case (Pair r w)
  have v: "bam_ok v" using assms(1) by (auto dest: searchable_simps)
  have valid: "bam_addr v a" if "a \<in> set (from_track v sec il t)" for a
    using track_list_valid [OF v assms(4,5)] that by (simp add: from_track_def)
  show ?thesis
  proof (cases r)
    case None
    then have "try_all bam_alloc v (from_track v sec il t) = (None, v)"
      using Pair by (intro try_all_fails [OF v valid]) simp_all
    then have "w = v" using Pair by simp
    then show ?thesis
      using Pair None assms(6) worker_from_track [OF assms(1-5)]
      by (simp add: tracks_list_def try_all_append)
  next
    case (Some a)
    then have "fst a = t" using track_of_found [OF v valid] Pair fst_from_track by blast
    then show ?thesis
      using Pair Some worker_from_track [OF assms(1-5)]
      by (cases a) (simp add: tracks_list_def try_all_append found_def)
  qed
qed

lemma alloc_down_try_all:
  assumes "searchable v" "sec < widest (image_format v)" "il \<le> 10" "n \<le> entry_tracks (image_format v)"
  shows "vdrive_bam_alloc_down v n sec il =
    found (try_all bam_alloc v (tracks_list v sec il (rev [1..<Suc n]))) 0 sec"
  using assms(4)
proof (induction n)
  case 0
  then show ?case by (simp add: tracks_list_def found_def)
next
  case (Suc n)
  have "rev [1..<Suc (Suc n)] = Suc n # rev [1..<Suc n]" by simp
  then show ?case
    using track_step [OF assms(1-3), of "Suc n" "\<lambda>w. vdrive_bam_alloc_down w n sec il" _ 0] Suc by simp
qed

lemma alloc_up_loop_try_all:
  assumes "searchable v" "sec < widest (image_format v)" "il \<le> 10" "1 \<le> t"
    "t + n \<le> Suc (entry_tracks (image_format v))"
  shows "\<exists>t0. alloc_up_loop v t sec il n =
    found (try_all bam_alloc v (tracks_list v sec il [t..<t + n])) t0 sec"
  using assms(4,5)
proof (induction n arbitrary: t)
  case 0
  then show ?case by (auto simp: tracks_list_def found_def)
next
  case (Suc n)
  have l: "[t..<t + Suc n] = t # [Suc t..<Suc t + n]" by (simp add: upt_conv_Cons)
  obtain t0 where "alloc_up_loop v (Suc t) sec il n =
      found (try_all bam_alloc v (tracks_list v sec il [Suc t..<Suc t + n])) t0 sec"
    using Suc.IH [of "Suc t"] Suc.prems by auto
  then show ?case
    using track_step [OF assms(1-3), of t "\<lambda>w. alloc_up_loop w (Suc t) sec il n" _ t0] Suc.prems
    unfolding l by auto
qed

lemma alloc_up_try_all:
  assumes "searchable v" "sec < widest (image_format v)" "il \<le> 10" "1 \<le> t"
  shows "\<exists>t0. vdrive_bam_alloc_up v t sec il =
    found (try_all bam_alloc v (tracks_list v sec il [t..<Suc (num_tracks v)])) t0 sec"
proof (cases "t \<le> Suc (num_tracks v)")
  case True
  then show ?thesis
    using alloc_up_loop_try_all [OF assms, of "Suc (num_tracks v) - t"] assms(1)
    by (auto simp: vdrive_bam_alloc_up_def searchable_def)
next
  case False
  then show ?thesis by (auto simp: vdrive_bam_alloc_up_def tracks_list_def found_def)
qed

subsection \<open>The next sector of a file\<close>

fun pass_list :: "vdrive \<Rightarrow> nat \<Rightarrow> nat \<Rightarrow> nat \<Rightarrow> nat \<Rightarrow> nat \<Rightarrow> (nat \<times> nat) list" where
  "pass_list v split t s il 0 = []"
| "pass_list v split t s il (Suc n) =
    (if 0 < t \<and> t < split then tracks_list v s il (rev [1..<Suc t]) @ pass_list v split (split + 1) 0 il n
     else if split \<le> t then
       tracks_list v s il [t..<Suc (num_tracks v)] @ pass_list v split (split - 1) 0 il n
     else pass_list v split t s il n)"

lemma reset_zero:
  assumes "searchable v" "sec < widest (image_format v)" "il \<le> 10"
  shows "vdrive_bam_alloc_next_free_sector_reset v t sec il = 0"
  using add_interleave_bound [OF searchable_simps(3) [OF assms(1)] assms(2,3), of t]
  by (simp add: vdrive_bam_alloc_next_free_sector_reset_def Let_def
      sectors_on_head [OF searchable_simps(2) [OF assms(1)]])

lemma found_continue:
  assumes "bam_ok v" "\<And>a. a \<in> set as \<Longrightarrow> bam_addr v a" "rest v = try_all bam_alloc v bs"
  shows "(case found (try_all bam_alloc v as) t0 s0 of
      (r, w, t', s') \<Rightarrow> if r = 0 then (Some (t', s'), w) else rest w) = try_all bam_alloc v (as @ bs)"
proof (cases "try_all bam_alloc v as")
  case (Pair r w)
  show ?thesis
  proof (cases r)
    case None
    then have "try_all bam_alloc v as = (None, v)"
      using Pair by (intro try_all_fails [OF assms(1,2)]) simp_all
    then show ?thesis using assms(3) by (simp add: found_def try_all_append)
  next
    case (Some a)
    then show ?thesis using Pair by (cases a) (simp add: found_def try_all_append)
  qed
qed

lemma up_tracks_valid:
  "searchable v \<Longrightarrow> 1 \<le> t \<Longrightarrow> a \<in> set (tracks_list v s il [t..<Suc (num_tracks v)]) \<Longrightarrow> bam_addr v a"
  by (rule tracks_list_valid) (auto simp: searchable_def)

lemma down_tracks_valid:
  "searchable v \<Longrightarrow> t \<le> entry_tracks (image_format v) \<Longrightarrow>
    a \<in> set (tracks_list v s il (rev [1..<Suc t])) \<Longrightarrow> bam_addr v a"
  by (rule tracks_list_valid) auto

lemma pass_loop_try_all:
  assumes "searchable v" "il \<le> 10" "1 \<le> split" "split \<le> entry_tracks (image_format v)"
    "s < widest (image_format v)"
  shows "pass_loop v split t s il n = try_all bam_alloc v (pass_list v split t s il n)"
  using assms(5)
proof (induction n arbitrary: t s)
  case 0
  then show ?case by simp
next
  case (Suc n)
  note ok = searchable_simps(1) [OF assms(1)]
  have z: "0 < widest (image_format v)" using Suc.prems by simp
  note rz = reset_zero [OF assms(1) Suc.prems assms(2)]
  consider (down) "0 < t" "t < split" | (up) "split \<le> t" | (zero) "t = 0" "split \<noteq> 0" using assms(3) by linarith
  then show ?case
  proof cases
    case down
    let ?as = "tracks_list v s il (rev [1..<Suc t])"
    let ?rest = "\<lambda>w. pass_loop w split (split + 1)
      (vdrive_bam_alloc_next_free_sector_reset w (split + 1) s il) il n"
    have t: "t \<le> entry_tracks (image_format v)" using down assms(4) by simp
    have "?rest v = try_all bam_alloc v (pass_list v split (split + 1) 0 il n)"
      using Suc.IH [OF z] rz by simp
    moreover have "bam_addr v a" if "a \<in> set ?as" for a
      by (rule down_tracks_valid [OF assms(1) t that])
    ultimately have "(case found (try_all bam_alloc v ?as) 0 s of
      (r, w, t', s') \<Rightarrow> if r = 0 then (Some (t', s'), w) else ?rest w) =
        try_all bam_alloc v (?as @ pass_list v split (split + 1) 0 il n)"
      using found_continue [of v ?as ?rest, OF ok] by blast
    then show ?thesis
      using down alloc_down_try_all [OF assms(1) Suc.prems assms(2) t]
      by (simp only: pass_loop.simps pass_list.simps Let_def if_True simp_thms)
  next
    case up
    let ?as = "tracks_list v s il [t..<Suc (num_tracks v)]"
    let ?rest = "\<lambda>w. pass_loop w split (split - 1)
      (vdrive_bam_alloc_next_free_sector_reset w (split - 1) s il) il n"
    have t: "1 \<le> t" using up assms(3) by simp
    have "?rest v = try_all bam_alloc v (pass_list v split (split - 1) 0 il n)"
      using Suc.IH [OF z] rz by simp
    moreover have "bam_addr v a" if "a \<in> set ?as" for a
      by (rule up_tracks_valid [OF assms(1) t that])
    ultimately have fc: "(case found (try_all bam_alloc v ?as) t0 s of
      (r, w, t', s') \<Rightarrow> if r = 0 then (Some (t', s'), w) else ?rest w) =
        try_all bam_alloc v (?as @ pass_list v split (split - 1) 0 il n)" for t0
      using found_continue [of v ?as ?rest, OF ok] by blast
    obtain t0 where "vdrive_bam_alloc_up v t s il = found (try_all bam_alloc v ?as) t0 s"
      using alloc_up_try_all [OF assms(1) Suc.prems assms(2) t] by blast
    moreover have "\<not> (0 < t \<and> t < split)" using up by simp
    ultimately show ?thesis
      using up fc [of t0] by (simp only: pass_loop.simps pass_list.simps Let_def if_True if_False simp_thms)
  next
    case zero
    then show ?thesis using Suc.IH [OF Suc.prems] by simp
  qed
qed

definition next_list :: "vdrive \<Rightarrow> nat \<Rightarrow> nat \<Rightarrow> nat \<Rightarrow> (nat \<times> nat) list" where
  "next_list v t s il = from_track v s il t @ pass_list v (Dir_Track v) t s il 3"

lemma set_next_list:
  assumes "searchable v" "2 \<le> Dir_Track v" "Dir_Track v \<le> num_tracks v" "1 \<le> t" "t \<le> num_tracks v"
    "t \<noteq> Dir_Track v"
  shows "set (next_list v t s il) =
    {(t', s'). 1 \<le> t' \<and> t' \<le> num_tracks v \<and> t' \<noteq> Dir_Track v \<and> s' < sectors_on v t'}"
proof (cases "t < Dir_Track v")
  case True
  then show ?thesis
    using assms set_track_list [OF searchable_simps(4) [OF assms(1)], of t]
    by (simp add: next_list_def numeral_3_eq_3 set_tracks_list from_track_def) fastforce
next
  case False
  then show ?thesis
    using assms set_track_list [OF searchable_simps(4) [OF assms(1)], of t]
    by (simp add: next_list_def numeral_3_eq_3 set_tracks_list from_track_def) fastforce
qed

lemma next_list_valid:
  assumes "searchable v" "2 \<le> Dir_Track v" "Dir_Track v \<le> num_tracks v" "1 \<le> t" "t \<le> num_tracks v"
    "t \<noteq> Dir_Track v" "a \<in> set (next_list v t s il)"
  shows "bam_addr v a"
proof -
  have "sectors_on v x \<le> entry_bits (image_format v)" for x
    using sectors_on_bounds(2,3) [OF searchable_simps(2) [OF assms(1)]] le_trans by blast
  then show ?thesis
    using assms by (auto simp: set_next_list bam_addr_def searchable_def intro: less_le_trans)
qed

lemma alloc_next_try_all:
  assumes "searchable v" "2 \<le> Dir_Track v" "Dir_Track v \<le> num_tracks v" "1 \<le> t" "t \<le> num_tracks v"
    "t \<noteq> Dir_Track v" "s < widest (image_format v)" "il \<le> 10"
  shows "vdrive_bam_alloc_next_free_sector_interleave v t s il =
    found (try_all bam_alloc v (next_list v t s il)) t s"
proof -
  have ok: "bam_ok v" and et: "num_tracks v \<le> entry_tracks (image_format v)"
    and nf: "image_format v \<noteq> FORMAT_9000" "image_format v \<noteq> FORMAT_NP"
    using assms(1) by (auto simp: searchable_def cbm_format_def fixed_layout_def)
  have te: "t \<le> entry_tracks (image_format v)" and de: "Dir_Track v \<le> entry_tracks (image_format v)"
    using assms(3,5) et by auto
  have valid: "bam_addr v a" if "a \<in> set (from_track v s il t)" for a
    using track_list_valid [OF ok assms(4) te] that by (simp add: from_track_def)
  have pl: "pass_loop v (Dir_Track v) t s il 3 = try_all bam_alloc v (pass_list v (Dir_Track v) t s il 3)"
    using assms de by (intro pass_loop_try_all) simp_all
  note w = worker_from_track [OF assms(1,7,8,4) te]
  show ?thesis
  proof (cases "try_all bam_alloc v (from_track v s il t)")
    case (Pair r x)
    show ?thesis
    proof (cases r)
      case None
      then have "try_all bam_alloc v (from_track v s il t) = (None, v)"
        using Pair by (intro try_all_fails [OF ok valid]) simp_all
      then show ?thesis
      proof (cases "try_all bam_alloc v (pass_list v (Dir_Track v) t s il 3)")
        case res: (Pair r2 x2)
        have "x2 = v" if "r2 = None"
        proof -
          have "try_all bam_alloc v (next_list v t s il) = (None, v)"
            using res that \<open>try_all bam_alloc v (from_track v s il t) = (None, v)\<close>
            by (intro try_all_fails [OF ok next_list_valid [OF assms(1-6)]])
              (simp_all add: next_list_def try_all_append)
          then show ?thesis using res \<open>try_all bam_alloc v (from_track v s il t) = (None, v)\<close>
            by (simp add: next_list_def try_all_append)
        qed
        then show ?thesis
          using res w nf pl assms(6) \<open>try_all bam_alloc v (from_track v s il t) = (None, v)\<close>
          by (auto simp: vdrive_bam_alloc_next_free_sector_interleave_def Let_def next_list_def
              try_all_append found_def split: option.split)
      qed
    next
      case (Some a)
      then have "fst a = t" using track_of_found [OF ok valid] Pair fst_from_track by blast
      then show ?thesis
        using Pair Some w nf assms(6)
        by (cases a) (simp add: vdrive_bam_alloc_next_free_sector_interleave_def Let_def next_list_def
            try_all_append found_def)
    qed
  qed
qed

subsection \<open>The first sector of a file\<close>

definition at_distance :: "vdrive \<Rightarrow> nat \<Rightarrow> (nat \<times> nat) list" where
  "at_distance v d =
    (if d \<noteq> 0 \<and> d < Dir_Track v then track_list v (Dir_Track v - d) 0 else []) @
    (if d \<noteq> 0 \<and> Dir_Track v + d \<le> num_tracks v then track_list v (Dir_Track v + d) 0 else [])"

definition butterfly_list :: "vdrive \<Rightarrow> nat \<Rightarrow> nat \<Rightarrow> (nat \<times> nat) list" where
  "butterfly_list v d n = concat (map (at_distance v) [d..<d + n])"

lemma at_distance_valid:
  assumes "searchable v" "Dir_Track v \<le> num_tracks v" "a \<in> set (at_distance v d)"
  shows "bam_addr v a"
proof -
  have ok: "bam_ok v" and et: "num_tracks v \<le> entry_tracks (image_format v)"
    using assms(1) by (auto simp: searchable_def)
  show ?thesis
    using assms(2,3) et track_list_valid [OF ok, of "Dir_Track v - d" a 0]
      track_list_valid [OF ok, of "Dir_Track v + d" a 0]
    by (auto simp: at_distance_def split: if_splits)
qed

lemma worker_first:
  assumes "searchable v" "1 \<le> t" "t \<le> entry_tracks (image_format v)"
  shows "vdrive_bam_alloc_worker v t 0 =
    (case try_all bam_alloc v (track_list v t 0) of (Some a, w) \<Rightarrow> (0, w, snd a) | (None, w) \<Rightarrow> (-1, v, 0))"
    and "try_all bam_alloc v (track_list v t 0) = (Some a, w) \<Longrightarrow> fst a = t"
    and "try_all bam_alloc v (track_list v t 0) = (None, w) \<Longrightarrow> w = v"
proof -
  have ok: "bam_ok v" using assms(1) by (simp add: searchable_def)
  have fails: "try_all bam_alloc v (track_list v t 0) = (None, v)"
    if "fst (try_all bam_alloc v (track_list v t 0)) = None"
    using that by (intro try_all_fails [OF ok track_list_valid [OF ok assms(2,3)]]) simp_all
  then show "vdrive_bam_alloc_worker v t 0 =
    (case try_all bam_alloc v (track_list v t 0) of (Some a, w) \<Rightarrow> (0, w, snd a) | (None, w) \<Rightarrow> (-1, v, 0))"
    using worker_try_all [OF searchable_simps(2) [OF assms(1)] searchable_simps(4) [OF assms(1)]]
    by (auto split: prod.splits option.splits)
  show "try_all bam_alloc v (track_list v t 0) = (None, w) \<Longrightarrow> w = v" using fails by simp
  show "try_all bam_alloc v (track_list v t 0) = (Some a, w) \<Longrightarrow> fst a = t"
  proof -
    assume h: "try_all bam_alloc v (track_list v t 0) = (Some a, w)"
    have "a \<in> set (track_list v t 0)"
      by (rule track_of_found [OF ok _ h]) (rule track_list_valid [OF ok assms(2,3)])
    then show "fst a = t" by (auto simp: track_list_def)
  qed
qed

lemma butterfly_try_all:
  assumes "searchable v" "Dir_Track v \<le> num_tracks v"
  shows "butterfly v d n = try_all bam_alloc v (butterfly_list v d n)"
proof (induction n arbitrary: d)
  case 0
  then show ?case by (simp add: butterfly_list_def)
next
  case (Suc n)
  have et: "num_tracks v \<le> entry_tracks (image_format v)" using assms(1) by (simp add: searchable_def)
  have cond: "(int (Dir_Track v) - int d \<ge> 1) = (d < Dir_Track v)" by linarith
  let ?lo = "if d \<noteq> 0 \<and> d < Dir_Track v then track_list v (Dir_Track v - d) 0 else []"
  let ?hi = "if d \<noteq> 0 \<and> Dir_Track v + d \<le> num_tracks v then track_list v (Dir_Track v + d) 0 else []"
  have l: "butterfly_list v d (Suc n) = ?lo @ ?hi @ butterfly_list v (Suc d) n"
    by (simp add: butterfly_list_def at_distance_def upt_conv_Cons del: upt_Suc)
  have lo: "(if d \<noteq> 0 \<and> d < Dir_Track v then vdrive_bam_alloc_worker v (Dir_Track v - d) 0 else (-1, v, 0)) =
      (case try_all bam_alloc v ?lo of (Some a, w) \<Rightarrow> (0, w, snd a) | (None, w) \<Rightarrow> (-1, v, 0))"
    using worker_first(1) [OF assms(1), of "Dir_Track v - d"] assms(2) et by auto
  have hi: "(if Dir_Track v + d \<le> num_tracks v \<and> d \<noteq> 0
        then vdrive_bam_alloc_worker v (Dir_Track v + d) 0 else (-1, v, 0)) =
      (case try_all bam_alloc v ?hi of (Some a, w) \<Rightarrow> (0, w, snd a) | (None, w) \<Rightarrow> (-1, v, 0))"
    using worker_first(1) [OF assms(1), of "Dir_Track v + d"] et by auto
  have lo_found: "try_all bam_alloc v ?lo = (Some a, w) \<Longrightarrow> fst a = Dir_Track v - d \<and> Dir_Track w = Dir_Track v"
    and hi_found: "try_all bam_alloc v ?hi = (Some b, w) \<Longrightarrow> fst b = Dir_Track v + d \<and> Dir_Track w = Dir_Track v"
    and lo_none: "try_all bam_alloc v ?lo = (None, w) \<Longrightarrow> w = v"
    and hi_none: "try_all bam_alloc v ?hi = (None, w) \<Longrightarrow> w = v" for a b w
  proof -
    have dt: "Dir_Track w = Dir_Track v" if "try_all bam_alloc v as = (x, w)" "set as \<subseteq> set (at_distance v d)"
      for as x w
    proof -
      have "same_drive v (snd (try_all bam_alloc v as))"
        using that(2) at_distance_valid [OF assms] searchable_simps(1) [OF assms(1)]
        by (intro try_all_same) auto
      with that(1) show ?thesis by (simp add: same_drive_keeps(5))
    qed
    show "try_all bam_alloc v ?lo = (Some a, w) \<Longrightarrow> fst a = Dir_Track v - d \<and> Dir_Track w = Dir_Track v"
      using worker_first(2) [OF assms(1), of "Dir_Track v - d" a w] dt [of ?lo "Some a" w] assms(2) et
      by (auto simp: at_distance_def split: if_splits)
    show "try_all bam_alloc v ?hi = (Some b, w) \<Longrightarrow> fst b = Dir_Track v + d \<and> Dir_Track w = Dir_Track v"
      using worker_first(2) [OF assms(1), of "Dir_Track v + d" b w] dt [of ?hi "Some b" w] et
      by (auto simp: at_distance_def split: if_splits)
    show "try_all bam_alloc v ?lo = (None, w) \<Longrightarrow> w = v"
      using worker_first(3) [OF assms(1), of "Dir_Track v - d" w] assms(2) et by (auto split: if_splits)
    show "try_all bam_alloc v ?hi = (None, w) \<Longrightarrow> w = v"
      using worker_first(3) [OF assms(1), of "Dir_Track v + d" w] et by (auto split: if_splits)
  qed
  show ?case
  proof (cases "try_all bam_alloc v ?lo")
    case p1: (Pair r1 w1)
    show ?thesis
    proof (cases r1)
      case (Some a)
      then show ?thesis using p1 lo lo_found [of a w1] unfolding l
        by (cases a) (simp add: cond try_all_append)
    next
      case n1: None
      then have w1: "w1 = v" using p1 lo_none by simp
      show ?thesis
      proof (cases "try_all bam_alloc v ?hi")
        case p2: (Pair r2 w2)
        show ?thesis
        proof (cases r2)
          case (Some b)
          then show ?thesis using p1 n1 w1 p2 lo hi hi_found [of b w2] unfolding l
            by (cases b) (simp add: cond try_all_append)
        next
          case None
          then show ?thesis using p1 n1 w1 p2 lo hi hi_none [of w2] Suc.IH unfolding l
            by (simp add: cond try_all_append)
        qed
      qed
    qed
  qed
qed

definition first_list :: "vdrive \<Rightarrow> (nat \<times> nat) list" where
  "first_list v = butterfly_list v 0 (Suc (c_unsigned (vdrive_calculate_disk_half v)))"

lemma first_list_valid:
  assumes "searchable v" "Dir_Track v \<le> num_tracks v" "a \<in> set (first_list v)"
  shows "bam_addr v a"
proof -
  obtain d where "a \<in> set (at_distance v d)"
    using assms(3) by (auto simp: first_list_def butterfly_list_def simp del: upt_Suc)
  then show ?thesis by (rule at_distance_valid [OF assms(1,2)])
qed

lemma set_first_list:
  assumes "searchable v" "1 \<le> Dir_Track v" "Dir_Track v \<le> num_tracks v"
  defines "h \<equiv> c_unsigned (vdrive_calculate_disk_half v)"
  shows "set (first_list v) = {(t, s). 1 \<le> t \<and> t \<le> num_tracks v \<and> t \<noteq> Dir_Track v \<and>
    t \<le> Dir_Track v + h \<and> Dir_Track v \<le> t + h \<and> s < sectors_on v t}"
proof -
  have "set (at_distance v d) = {(t, s). 1 \<le> t \<and> t \<le> num_tracks v \<and> t \<noteq> Dir_Track v \<and>
      (d \<le> Dir_Track v \<and> t = Dir_Track v - d \<or> t = Dir_Track v + d) \<and> s < sectors_on v t}" for d
    using set_track_list [OF searchable_simps(4) [OF assms(1)]] assms(2,3)
    by (auto simp: at_distance_def)
  then have "set (first_list v) = (\<Union>d \<in> {0..<Suc h}. {(t, s). 1 \<le> t \<and> t \<le> num_tracks v \<and> t \<noteq> Dir_Track v \<and>
      (d \<le> Dir_Track v \<and> t = Dir_Track v - d \<or> t = Dir_Track v + d) \<and> s < sectors_on v t})"
    by (simp add: first_list_def butterfly_list_def h_def del: upt_Suc)
  also have "\<dots> = {(t, s). 1 \<le> t \<and> t \<le> num_tracks v \<and> t \<noteq> Dir_Track v \<and>
    t \<le> Dir_Track v + h \<and> Dir_Track v \<le> t + h \<and> s < sectors_on v t}"
  proof -
    have "(\<exists>d \<in> {0..<Suc h}. d \<le> Dir_Track v \<and> t = Dir_Track v - d \<or> t = Dir_Track v + d) \<longleftrightarrow>
        t \<le> Dir_Track v + h \<and> Dir_Track v \<le> t + h" for t
    proof
      assume "t \<le> Dir_Track v + h \<and> Dir_Track v \<le> t + h"
      then show "\<exists>d \<in> {0..<Suc h}. d \<le> Dir_Track v \<and> t = Dir_Track v - d \<or> t = Dir_Track v + d"
        by (intro bexI [of _ "if t \<le> Dir_Track v then Dir_Track v - t else t - Dir_Track v"]) auto
    qed auto
    then show ?thesis by auto
  qed
  finally show ?thesis .
qed

lemma alloc_first_try_all:
  assumes "searchable v" "Dir_Track v \<le> num_tracks v"
  shows "vdrive_bam_alloc_first_free_sector v t s = found (try_all bam_alloc v (first_list v)) t s"
proof -
  have nf: "image_format v \<noteq> FORMAT_9000" "image_format v \<noteq> FORMAT_NP"
    using assms(1) by (auto simp: searchable_def cbm_format_def fixed_layout_def)
  then show ?thesis
    using butterfly_try_all [OF assms]
    by (simp add: vdrive_bam_alloc_first_free_sector_def first_list_def found_def del: butterfly.simps)
qed

text \<open>What a search that tries a list of valid sectors has done to the disk.\<close>

definition search_result :: "vdrive \<Rightarrow> (nat \<times> nat) set \<Rightarrow> int \<times> vdrive \<times> nat \<times> nat \<Rightarrow> nat \<times> nat \<Rightarrow> bool" where
  "search_result v A r ts =
    (case r of (ret, w, t', s') \<Rightarrow>
       if \<exists>a \<in> A. sector_is_free v a then
         ret = 0 \<and> (t', s') \<in> A \<and> sector_is_free v (t', s') \<and> bam_ok w \<and> same_drive v w \<and>
         (\<forall>b. bam_addr v b \<longrightarrow> sector_is_free w b = (sector_is_free v b \<and> b \<noteq> (t', s')))
       else r = (-1, v, ts))"

lemma found_search_result:
  assumes "bam_ok v" "\<And>a. a \<in> set as \<Longrightarrow> bam_addr v a"
  shows "search_result v (set as) (found (try_all bam_alloc v as) t s) (t, s)"
proof (cases "try_all bam_alloc v as")
  case (Pair r w)
  show ?thesis
  proof (cases r)
    case None
    then have "try_all bam_alloc v as = (None, v)"
      using Pair by (intro try_all_fails [OF assms]) simp_all
    moreover have "\<not> (\<exists>a \<in> set as. sector_is_free v a)"
      using bam.try_all_None [of v as] assms calculation by auto
    ultimately show ?thesis by (simp add: search_result_def found_def)
  next
    case (Some a)
    then have "a \<in> set as" "sector_is_free v a"
      using bam.try_all_Some [of v as a] assms Pair by auto
    moreover have "bam_ok w" "same_drive v w"
      "\<And>b. bam_addr v b \<Longrightarrow> sector_is_free w b = (sector_is_free v b \<and> b \<noteq> a)"
      using bam.try_all_finds(2,4) [of v as] try_all_same [of v as] assms Pair Some by auto
    ultimately show ?thesis using Pair Some by (cases a) (auto simp: search_result_def found_def)
  qed
qed

subsection \<open>Chains of sectors\<close>

text \<open>The image types whose sectors all have a bit in the BAM of the format.\<close>

definition chain_image :: "vdrive \<Rightarrow> bool" where
  "chain_image v = (device (cur_image v) = DEVICE_FS \<and>
     (itype (cur_image v), image_format v) \<in> {(D64, FORMAT_1541), (D67, FORMAT_2040), (D71, FORMAT_1571),
       (D80, FORMAT_8050), (D82, FORMAT_8250)})"

lemma checked_sector_addr:
  assumes "chain_image v" "\<not> disk_image_check_sector (cur_image v) t s < 0"
  shows "bam_addr v (t, s)"
proof -
  let ?i = "cur_image v"
  have k: "known_type ?i" "geometry_ok ?i" and c: "0 \<le> fsimage_check_sector ?i t s"
    using assms by (auto simp: chain_image_def known_type_def geometry_ok_def disk_image_check_sector_def)
  note acc = check_sector_accepts [OF k c]
  have "track_sectors ?i t \<le> entry_bits (image_format v)"
    using assms(1) sector_per_track_d71 [of t] sector_per_track_d82 [of t]
    by (auto simp: chain_image_def track_sectors_def entry_bits_def geom_simps)
  with acc assms(1) show ?thesis
    by (auto simp: chain_image_def bam_addr_def first_track_def track_limit_def entry_tracks_def)
qed

lemma read_sector_drive: "fst (snd (vdrive_read_sector v buf t s)) = update_image_mode v"
  by (simp add: vdrive_read_sector_def Let_def split: option.split prod.split)

lemma update_image_mode_bam [simp]:
  "bam_ok (update_image_mode v) = bam_ok v" "sector_is_free (update_image_mode v) = sector_is_free v"
  "chain_image (update_image_mode v) = chain_image v" "bam_addr (update_image_mode v) = bam_addr v"
proof -
  have b: "bam_byte (update_image_mode v) = bam_byte v"
    by (intro ext) (simp add: bam_byte_def)
  show "bam_ok (update_image_mode v) = bam_ok v"
    by (simp add: bam_ok_def bam_loaded_def bam_headers_ok_def b)
  show "sector_is_free (update_image_mode v) = sector_is_free v"
    by (intro ext) (simp add: sector_is_free_def b)
  show "chain_image (update_image_mode v) = chain_image v" by (simp add: chain_image_def)
  show "bam_addr (update_image_mode v) = bam_addr v" by (intro ext) (simp add: bam_addr_def)
qed

definition addr_set :: "image_format \<Rightarrow> (nat \<times> nat) set" where
  "addr_set fmt = {1..entry_tracks fmt} \<times> {..<entry_bits fmt}"

lemma addr_set: "bam_addr v a \<longleftrightarrow> a \<in> addr_set (image_format v)" "finite (addr_set fmt)"
  by (cases a) (auto simp: addr_set_def bam_addr_def)

lemma allocate_chain_returns:
  assumes "bam_ok v" "chain_image v"
  shows "\<exists>r. allocate_chain_to stop v tmp t s = Some r"
  using assms
proof (induction "bam.free_count v (addr_set (image_format v))" arbitrary: v tmp t s rule: less_induct)
  case less
  let ?A = "addr_set (image_format v)"
  show ?case
  proof (cases "t = stop \<or> disk_image_check_sector (cur_image v) t s < 0 \<or> \<not> sector_is_free v (t, s)")
    case True
    have "fst (vdrive_bam_allocate_sector v t s) = 0"
      if "\<not> disk_image_check_sector (cur_image v) t s < 0" "\<not> sector_is_free v (t, s)"
      using allocate_sector_ok [OF less.prems(1) checked_sector_addr [OF less.prems(2) that(1)]] that(2) by simp
    with True show ?thesis
      by (subst allocate_chain_to.simps) (auto split: prod.splits)
  next
    case False
    then have a: "bam_addr v (t, s)" and fr: "sector_is_free v (t, s)"
      using checked_sector_addr [OF less.prems(2)] by auto
    define w where "w = snd (vdrive_bam_allocate_sector v t s)"
    have al: "vdrive_bam_allocate_sector v t s = (1, w)"
      using allocate_sector_ok [OF less.prems(1) a] fr by (simp add: w_def)
    have w: "bam_ok w" "same_drive v w"
      using bam.alloc_invar [OF less.prems(1) a] bam_alloc_same [OF less.prems(1) a]
      by (simp_all add: bam_alloc_def w_def)
    have f: "image_format w = image_format v" "chain_image w"
      using less.prems(2) same_drive_keeps [OF w(2)] by (simp_all add: chain_image_def)
    have "Suc (bam.free_count w ?A) = bam.free_count v ?A"
      using bam.alloc_free_count [OF less.prems(1) addr_set(2), of "image_format v" "(t, s)"] a fr
      by (simp add: addr_set(1) bam_alloc_def w_def)
    moreover have "bam.free_count (update_image_mode w) ?A = bam.free_count w ?A"
      by (simp add: bam.free_count_def)
    ultimately have next_ok: "\<exists>r. allocate_chain_to stop (update_image_mode w) tmp' t' s' = Some r" for tmp' t' s'
      using w f by (intro less.hyps) simp_all
    show ?thesis
    proof (cases "vdrive_read_sector w tmp t s")
      case (fields rc w' tmp')
      then have "w' = update_image_mode w" using read_sector_drive [of w tmp t s] by simp
      then show ?thesis using False al fields next_ok by (subst allocate_chain_to.simps) auto
    qed
  qed
qed

subsection \<open>Properties\<close>

text \<open>
  C15. The search for the first sector of a file (all formats but the native partitions and
  the D9090). If a sector is free on any track other than the directory track whose distance
  to it is at most the disk half, the search succeeds, returns such a sector, and allocates
  exactly this one; otherwise it fails and leaves the drive and the caller's track and sector
  as they were. The directory track is never given to a file.
\<close>

theorem first_sector_search:
  assumes "searchable v" "1 \<le> Dir_Track v" "Dir_Track v \<le> num_tracks v"
  shows "search_result v
    {(t, s). 1 \<le> t \<and> t \<le> num_tracks v \<and> t \<noteq> Dir_Track v \<and>
       t \<le> Dir_Track v + c_unsigned (vdrive_calculate_disk_half v) \<and>
       Dir_Track v \<le> t + c_unsigned (vdrive_calculate_disk_half v) \<and>
       s < c_unsigned (vdrive_get_max_sectors v t)}
    (vdrive_bam_alloc_first_free_sector v t0 s0) (t0, s0)"
proof -
  have "bam_addr v a" if "a \<in> set (first_list v)" for a
    by (rule first_list_valid [OF assms(1,3) that])
  from found_search_result [OF searchable_simps(1) [OF assms(1)] this, where as = "first_list v"]
  show ?thesis
    unfolding alloc_first_try_all [OF assms(1,3)] set_first_list [OF assms] sectors_on_def by blast
qed

lemma loaded_1541_searchable: "length b = 256 \<Longrightarrow> searchable (loaded_1541 b)"
  by (simp add: searchable_def loaded_1541_ok cbm_format_def loaded_1541_simps fixed_layout_def
      entry_tracks_def)

theorem first_sector_search_witness:
  "search_result (loaded_1541 (replicate 256 255))
    {(t, s). 1 \<le> t \<and> t \<le> 35 \<and> t \<noteq> 18 \<and>
       t \<le> 18 + c_unsigned (vdrive_calculate_disk_half (loaded_1541 (replicate 256 255))) \<and>
       18 \<le> t + c_unsigned (vdrive_calculate_disk_half (loaded_1541 (replicate 256 255))) \<and>
       s < c_unsigned (vdrive_get_max_sectors (loaded_1541 (replicate 256 255)) t)}
    (vdrive_bam_alloc_first_free_sector (loaded_1541 (replicate 256 255)) 0 0) (0, 0)"
  using first_sector_search [of "loaded_1541 (replicate 256 255)"]
  by (simp add: loaded_1541_searchable loaded_1541_simps)

text \<open>
  C16. The search for the next sector of a file from a sector on track \<open>t\<close> that is not the
  directory track, on a disk (same formats) whose directory is not on track 1, where only a
  sub-partition of a 1581 disk can put it. It succeeds exactly if some sector on some track of the
  disk other than the directory track is free, wherever that track lies, and then allocates
  exactly the sector it returns: a full disk is reported only when the disk is full.
\<close>

theorem next_sector_search:
  assumes "searchable v" "2 \<le> Dir_Track v" "Dir_Track v \<le> num_tracks v"
    and "1 \<le> t" "t \<le> num_tracks v" "t \<noteq> Dir_Track v" "s < widest (image_format v)"
  shows "search_result v
    {(t', s'). 1 \<le> t' \<and> t' \<le> num_tracks v \<and> t' \<noteq> Dir_Track v \<and>
       s' < c_unsigned (vdrive_get_max_sectors v t')}
    (vdrive_bam_alloc_next_free_sector v t s) (t, s)"
proof -
  have il: "vdrive_bam_get_interleave v \<le> 10"
    by (simp add: vdrive_bam_get_interleave_def split: image_format.split)
  let ?as = "next_list v t s (vdrive_bam_get_interleave v)"
  have "bam_addr v a" if "a \<in> set ?as" for a
    by (rule next_list_valid [OF assms(1-6) that])
  from found_search_result [OF searchable_simps(1) [OF assms(1)] this, where as = ?as]
  show ?thesis
    unfolding vdrive_bam_alloc_next_free_sector_def alloc_next_try_all [OF assms il]
      set_next_list [OF assms(1-6)] sectors_on_def by blast
qed

theorem next_sector_search_witness:
  "search_result (loaded_1541 (replicate 256 255))
    {(t', s'). 1 \<le> t' \<and> t' \<le> 35 \<and> t' \<noteq> 18 \<and>
       s' < c_unsigned (vdrive_get_max_sectors (loaded_1541 (replicate 256 255)) t')}
    (vdrive_bam_alloc_next_free_sector (loaded_1541 (replicate 256 255)) 17 20) (17, 20)"
  using next_sector_search [of "loaded_1541 (replicate 256 255)" 17 20]
  by (simp add: loaded_1541_searchable loaded_1541_simps widest_def)

text \<open>
  C17. Following a chain of sector links to allocate it always ends on an image of type D64, D67,
  D71, D80 or D82 used in its own format, with success or with an error code, whatever the links
  on the disk are (also if they form a cycle), because a sector that is already allocated stops
  it. The other types are not covered: their images have sectors without a bit in the BAM, which
  never count as allocated. The disk of the witness has free sectors all linked to 17/17.
\<close>

theorem chain_allocation_returns:
  assumes "bam_ok v" "chain_image v"
  shows "\<exists>rc w. vdrive_bam_allocate_chain v tmp t s = Some (rc, w)"
  using allocate_chain_returns [OF assms, of 0 tmp t s] by (auto simp: vdrive_bam_allocate_chain_def)

definition cyclic_1541 :: vdrive where
  "cyclic_1541 = (loaded_1541 ((replicate 256 255)[2 := 0x41]))
    \<lparr>disk_heap := [d64_file_image (replicate 174848 17) None]\<rparr>"

theorem chain_allocation_returns_witness:
  "sector_is_free cyclic_1541 (17, 17) \<and> logical_read cyclic_1541 (17, 17) = (0, replicate 256 17) \<and>
   (\<exists>rc w. vdrive_bam_allocate_chain cyclic_1541 (replicate 256 0) 17 17 = Some (rc, w))"
proof -
  have ok: "bam_ok cyclic_1541" and ch: "chain_image cyclic_1541"
    by (simp_all add: bam_ok_def bam_loaded_def bam_headers_ok_def chain_image_def cyclic_1541_def loaded_1541_def
        blank_drive_def fixed_layout_def layout_size_def block_ranges_def cur_image_def d64_file_image_def d64_image_def)
  have fr: "sector_is_free cyclic_1541 (17, 17)"
    by (simp add: sector_is_free_def cyclic_1541_def loaded_1541_def blank_drive_def layout_defs bam_byte_def
        byte_at_def bit_index_def)
  have "logical_read cyclic_1541 (17, 17) = (0, replicate 256 17)"
  proof -
    have c: "cur_image cyclic_1541 = d64_file_image (replicate 174848 17) None"
      by (simp add: cur_image_def cyclic_1541_def loaded_1541_def blank_drive_def)
    have phy: "vdrive_log_to_phy cyclic_1541 17 17 = Some \<lparr>da_track = 17, da_sector = 17\<rparr>"
      by (simp add: vdrive_log_to_phy_def c) (simp add: cyclic_1541_def loaded_1541_def blank_drive_def
          UINT32_MAX_def d64_file_image_def d64_image_def)
    have img: "dxx_ok (d64_file_image (replicate 174848 17) None)"
      "in_image (d64_file_image (replicate 174848 17) None) (17, 17)"
      by (intro d64_file_image_ok d64_file_image_in; simp add: geom_simps)+
    have "drive_ok cyclic_1541"
      using img(1) c by (simp add: drive_ok_def partition_ok_def dos_version_ok_def)
        (simp add: cyclic_1541_def loaded_1541_def blank_drive_def)
    moreover have "block_index (d64_file_image (replicate 174848 17) None) (17, 17) = 353"
      by (simp add: block_index_def fsimage_check_sector_def d64_file_image_def d64_image_def geom_simps c_int_small)
    moreover have "image_errors (d64_file_image f None) = None" "image_file (d64_file_image f None) = f" for f
      by (simp_all add: image_errors_def image_file_def d64_file_image_def)
    ultimately show ?thesis
      using logical_read_eq [OF _ phy] image_read_value [OF img] c by (simp add: addr_pair_def slice_def)
  qed
  then show ?thesis using fr chain_allocation_returns [OF ok ch] by blast
qed

end
