(* ===== verification/Partition.thy ===== *)
theory Partition
  imports BamSearch
begin

text \<open>
  Partitions and images of a drive (the rest of \<^verbatim>\<open>lib/vdrive/vdrive.c\<close>): finding the system
  partition of a CMD disk, reading and writing its partition table, changing and switching
  the current partition, and attaching an image. As elsewhere, \<open>buf\<close> and \<open>tmp\<close> are the
  uninitialised local buffers of the C functions and \<open>junk\<close> the content of allocated memory.

  Packing the partitions and detaching an image are in the theories \<^verbatim>\<open>CommandPart\<close> and \<^verbatim>\<open>VdriveInternal\<close>.
\<close>

subsection \<open>Three-byte numbers\<close>

definition vdrive_buf3_to_word :: "byte list \<Rightarrow> nat \<Rightarrow> nat" where
  "vdrive_buf3_to_word buf i = unat (buf ! i) * 65536 + unat (buf ! (i + 1)) * 256 + unat (buf ! (i + 2))"

definition vdrive_word_to_buf3 :: "byte list \<Rightarrow> nat \<Rightarrow> nat \<Rightarrow> byte list" where
  "vdrive_word_to_buf3 buf i val =
    buf[i := of_nat (val div 65536), i + 1 := of_nat (val div 256), i + 2 := of_nat val]"

subsection \<open>The system partition\<close>

definition hdmagic :: "byte list" where
  "hdmagic = [0x43, 0x4d, 0x44, 0x20, 0x48, 0x44, 0x20, 0x20, 0x8d, 0x03, 0x88, 0x8e, 0x02, 0x88, 0xea, 0x60]"

definition fdmagic :: "byte list" where
  "fdmagic = [0x43, 0x4d, 0x44, 0x20, 0x46, 0x44, 0x20, 0x53, 0x45, 0x52, 0x49, 0x45, 0x53, 0x20, 0x20, 0x20]"

text \<open>The loop over the first places of a hard disk image, from \<open>i\<close> on, \<open>n\<close> of them.\<close>

fun find_sys_hd :: "vdrive \<Rightarrow> buffer \<Rightarrow> nat \<Rightarrow> nat \<Rightarrow> int \<times> vdrive" where
  "find_sys_hd v buf i 0 = (-1, v)"
| "find_sys_hd v buf i (Suc n) =
    (let v = v\<lparr>current_offset := i * 128\<rparr> in
     case vdrive_read_sector v buf 0 5 of
       (ret, v, buf) \<Rightarrow>
         if ret \<noteq> 0 then (ret, v)
         else if slice buf 0xf0 16 = hdmagic
         then (ret, v\<lparr>sys_offset := current_offset v, default_part := uint (buf ! 0xe2)\<rparr>)
         else find_sys_hd v buf (Suc i) n)"

definition find_sys_fd :: "vdrive \<Rightarrow> buffer \<Rightarrow> int \<times> vdrive" where
  "find_sys_fd v buf =
    (case vdrive_read_sector v buf 0 5 of
       (ret, v, buf) \<Rightarrow>
         if ret \<noteq> 0 then (ret, v)
         else if slice buf 0xf0 16 = fdmagic
         then (ret, v\<lparr>sys_offset := current_offset v, default_part := uint (buf ! 0xe2)\<rparr>)
         else (-1, v))"

definition vdrive_find_sys :: "vdrive \<Rightarrow> buffer \<Rightarrow> int \<times> vdrive" where
  "vdrive_find_sys v buf =
    (let v = v\<lparr>image_ptr := images v ! 0, sys_offset := UINT32_MAX\<rparr>;
         old_co = current_offset v;
         old_if = image_format v;
         v = v\<lparr>current_offset := 0, image_format := FORMAT_SYS\<rparr>;
         (ret, v) =
           (case itype (cur_image v) of
              D1M \<Rightarrow> find_sys_fd (v\<lparr>current_offset := 0x640\<rparr>) buf
            | D2M \<Rightarrow> find_sys_fd (v\<lparr>current_offset := 0xc80\<rparr>) buf
            | D4M \<Rightarrow> find_sys_fd (v\<lparr>current_offset := 0x1900\<rparr>) buf
            | DHD \<Rightarrow> find_sys_hd v buf 0 9
            | _ \<Rightarrow> (-1, v)) in
     (ret, v\<lparr>current_offset := old_co, image_format := old_if\<rparr>))"

subsection \<open>The partition table\<close>

definition max_part :: "vdrive \<Rightarrow> nat" where
  "max_part v = (if VDRIVE_IS_HD v then 254 else 31)"

text \<open>
  Entry \<open>i\<close> of the table is at byte \<open>(i * 32) mod 256\<close> of sector \<open>i * 32 div 256\<close> of the system
  partition's track 1; \<open>olds\<close> is the sector in \<open>buf\<close>, -1 for none.
\<close>

definition set_partition :: "nat \<Rightarrow> nat \<Rightarrow> buffer \<Rightarrow> nat \<Rightarrow> vdrive \<Rightarrow> vdrive" where
  "set_partition i k buf j v =
    (let v = v\<lparr>ptype := (ptype v)[k := unat (buf ! (j + 2))],
               poffset := (poffset v)[k := vdrive_buf3_to_word buf (j + 0x15)],
               psize := (psize v)[k := vdrive_buf3_to_word buf (j + 0x1d)],
               cheadertrack := (cheadertrack v)[k := 0]\<rparr> in
     if i = 0 then v\<lparr>poffset := (poffset v)[k := sys_offset v]\<rparr> else v)"

fun read_parts :: "vdrive \<Rightarrow> buffer \<Rightarrow> int \<Rightarrow> nat \<Rightarrow> nat \<Rightarrow> int \<times> vdrive" where
  "read_parts v buf olds i 0 = (CBMDOS_IPE_OK, v)"
| "read_parts v buf olds i (Suc n) =
    (let s = i * 32 div 256; j = (i * 32) mod 256;
         (ret, v, buf) = (if int s \<noteq> olds then vdrive_read_sector v buf 1 s else (CBMDOS_IPE_OK, v, buf)) in
     if ret = 0 then
       read_parts (set_partition i (if i = 0 then 255 else i) buf j v) buf (int s) (Suc i) n
     else (ret, v\<lparr>sys_offset := UINT32_MAX\<rparr>))"

definition forget_parts :: "vdrive \<Rightarrow> vdrive" where
  "forget_parts v =
    foldl (\<lambda>v i. v\<lparr>ptype := (ptype v)[i := 0], poffset := (poffset v)[i := 0], psize := (psize v)[i := 0],
                   cheadertrack := (cheadertrack v)[i := 0]\<rparr>) v [0..<255]"

definition vdrive_read_partition_table :: "vdrive \<Rightarrow> buffer \<Rightarrow> int \<times> vdrive" where
  "vdrive_read_partition_table v buf =
    (if \<not> haspt v then (-1, v\<lparr>sys_offset := UINT32_MAX\<rparr>)
     else
       let (ret, v) = (if sys_offset v = UINT32_MAX then vdrive_find_sys v buf else (CBMDOS_IPE_OK, v)) in
       if ret \<noteq> 0 then (ret, forget_parts v)
       else
         let old_co = current_offset v; old_if = image_format v;
             v = v\<lparr>current_offset := sys_offset v, image_format := FORMAT_SYS\<rparr>;
             (ret, v) = read_parts v buf (-1) 0 (Suc (max_part v));
             v = v\<lparr>ptype := (ptype v)[0 := 0], poffset := (poffset v)[0 := UINT32_MAX],
                   psize := (psize v)[0 := UINT32_MAX]\<rparr> in
         (ret, v\<lparr>current_offset := old_co, image_format := old_if\<rparr>))"

definition put_partition :: "vdrive \<Rightarrow> nat \<Rightarrow> nat \<Rightarrow> buffer \<Rightarrow> buffer" where
  "put_partition v i j buf =
    vdrive_word_to_buf3
      (vdrive_word_to_buf3 (buf[j + 2 := of_nat (ptype v ! i)]) (j + 0x15) (poffset v ! i))
      (j + 0x1d) (psize v ! i)"

fun write_parts :: "vdrive \<Rightarrow> buffer \<Rightarrow> int \<Rightarrow> nat \<Rightarrow> nat \<Rightarrow> int \<times> int \<times> vdrive \<times> buffer" where
  "write_parts v buf olds i 0 = (CBMDOS_IPE_OK, olds, v, buf)"
| "write_parts v buf olds i (Suc n) =
    (let s = i * 32 div 256; j = (i * 32) mod 256;
         (ret, v) = (if int s \<noteq> olds \<and> olds \<ge> 0 then vdrive_write_sector v buf 1 (nat olds) else (CBMDOS_IPE_OK, v));
         (ret, v, buf) = (if int s \<noteq> olds \<and> ret = 0 then vdrive_read_sector v buf 1 s else (ret, v, buf)) in
     if ret = 0 then
       write_parts v (if i = 0 then buf else put_partition v i j buf) (int s) (Suc i) n
     else (ret, olds, v\<lparr>sys_offset := UINT32_MAX\<rparr>, buf))"

definition vdrive_write_partition_table :: "vdrive \<Rightarrow> buffer \<Rightarrow> int \<times> vdrive" where
  "vdrive_write_partition_table v buf =
    (if \<not> haspt v then (-1, v\<lparr>sys_offset := UINT32_MAX\<rparr>)
     else if sys_offset v = UINT32_MAX then (-1, v)
     else
       let old_co = current_offset v; old_if = image_format v;
           v = v\<lparr>current_offset := sys_offset v, image_format := FORMAT_SYS\<rparr>;
           (ret, olds, v, buf) = write_parts v buf (-1) 0 (Suc (max_part v));
           (ret, v) = (if olds \<ge> 0 \<and> ret = 0 then vdrive_write_sector v buf 1 (nat olds) else (ret, v)) in
       (ret, v\<lparr>current_offset := old_co, image_format := old_if\<rparr>))"

subsection \<open>Changing the current partition\<close>

definition vdrive_realpart :: "vdrive \<Rightarrow> int \<Rightarrow> int" where
  "vdrive_realpart v part =
    (if \<not> haspt v then (if part \<ge> 1 then 0 else part)
     else if part \<noteq> 0 then part
     else selected_part v)"

definition part_format :: "nat \<Rightarrow> image_format \<times> nat \<times> nat" where
  "part_format ty =
    [(FORMAT_NONE, 0, 0), (FORMAT_NP, 255, 0x2100), (FORMAT_1541, 35, 0x100), (FORMAT_1571, 70, 0x200),
     (FORMAT_1581, 80, 0x300)] ! ty"

text \<open>The two ways a partition is set: from the table, or from the images of the unit's drives.\<close>

definition change_table_part :: "vdrive \<Rightarrow> int \<Rightarrow> int \<times> vdrive" where
  "change_table_part v part =
    (let p = ix part; ty = ptype v ! p in
     if (ty > 4 \<and> ty < 255) \<or> ty = 0 then (CBMDOS_IPE_NOT_READY, v)
     else if ty \<le> 4 then
       (case part_format ty of (fmt, tr, bs) \<Rightarrow>
          (CBMDOS_IPE_OK,
           v\<lparr>current_part := part, bam_size := bs,
             num_tracks := (if ty = 1 then psize v ! p div 128 else tr),
             image_mode := int (read_only (cur_image v)),
             current_offset := poffset v ! p, image_format := fmt\<rparr>))
     else if part = 255 \<and> ty = 255 then
       (CBMDOS_IPE_OK,
        v\<lparr>current_part := part, bam_size := 0, num_tracks := 1,
          current_offset := poffset v ! p, image_format := FORMAT_SYS\<rparr>)
     else (CBMDOS_IPE_NOT_READY, v))"

definition change_image_part :: "vdrive \<Rightarrow> int \<Rightarrow> int \<times> vdrive" where
  "change_image_part v part =
    (case images v ! nat part of
       Some i \<Rightarrow>
         let v = v\<lparr>image_ptr := Some i, current_offset := 0, current_part := part\<rparr> in
         (CBMDOS_IPE_OK, v\<lparr>image_mode := int (read_only (cur_image v))\<rparr>)
     | None \<Rightarrow> (CBMDOS_IPE_NOT_READY, v))"

definition vdrive_change_part :: "vdrive \<Rightarrow> buffer \<Rightarrow> int \<Rightarrow> int \<times> vdrive" where
  "vdrive_change_part v buf part =
    (if part < 0 \<or> (haspt v \<and> part > 255) \<or> (\<not> haspt v \<and> part \<ge> 1) then (CBMDOS_IPE_NOT_READY, v)
     else
       let part = (if part = 0 \<and> haspt v then selected_part v else part);
           (ret, v) = (if haspt v \<and> sys_offset v = UINT32_MAX then vdrive_read_partition_table v buf
                       else (CBMDOS_IPE_OK, v)) in
       if ret \<noteq> 0 then (ret, v)
       else if haspt v then change_table_part v part
       else change_image_part v part)"

definition vdrive_ispartvalid :: "vdrive \<Rightarrow> buffer \<Rightarrow> int \<Rightarrow> nat \<times> vdrive" where
  "vdrive_ispartvalid v buf part =
    (if part < 0 \<or> (haspt v \<and> part > 255) \<or> (\<not> haspt v \<and> part \<ge> 1) then (0, v)
     else if \<not> haspt v then (of_bool (images v ! nat part \<noteq> None), v)
     else
       let (ret, v) = (if sys_offset v = UINT32_MAX then vdrive_read_partition_table v buf
                       else (CBMDOS_IPE_OK, v)) in
       if ret \<noteq> 0 then (0, v)
       else
         let part = (if part = 0 then selected_part v else part); ty = ptype v ! ix part in
         if (ty > 4 \<and> ty < 255) \<or> ty = 0 then (0, v)
         else if ty \<le> 4 then (1, v)
         else if ty = 255 then (1, v)
         else (0, v))"

text \<open>Flushing the BAM and setting the drive up for the current partition.\<close>

definition enter_part :: "(nat \<Rightarrow> byte) \<Rightarrow> buffer \<Rightarrow> vdrive \<Rightarrow> vdrive" where
  "enter_part junk tmp v = vdrive_bam_setup_bam junk (vdrive_set_disk_geometry tmp v)"

definition vdrive_switch :: "(nat \<Rightarrow> byte) \<Rightarrow> buffer \<Rightarrow> vdrive \<Rightarrow> int \<Rightarrow> int \<times> vdrive" where
  "vdrive_switch junk tmp v part =
    (if part < 0 then (CBMDOS_IPE_NOT_READY, v)
     else
       let part = vdrive_realpart v part;
           (ret, v) =
             (if part \<noteq> current_part v then
                (case vdrive_change_part (snd (vdrive_bam_write_bam v)) tmp part of
                   (ret, v) \<Rightarrow>
                     if ret = 0 then (ret, enter_part junk tmp v)
                     else
                       let v = (if haspt v then v\<lparr>image_format := FORMAT_NONE, num_tracks := 0, bam_size := 0\<rparr>
                                else v) in
                       (ret, v\<lparr>current_offset := UINT32_MAX, current_part := -1\<rparr>))
              else (CBMDOS_IPE_OK, v));
           p = ix (current_part v);
           v = (if image_format v = FORMAT_1581 \<and>
                  (Part_Start v \<noteq> cpartstart v ! p \<or> Part_End v \<noteq> cpartend v ! p)
                then enter_part junk tmp (snd (vdrive_bam_write_bam v)) else v) in
       (ret, v))"

definition vdrive_ext_read_sector ::
  "(nat \<Rightarrow> byte) \<Rightarrow> buffer \<Rightarrow> vdrive \<Rightarrow> int \<Rightarrow> buffer \<Rightarrow> nat \<Rightarrow> nat \<Rightarrow> int \<times> vdrive \<times> buffer" where
  "vdrive_ext_read_sector junk tmp v drive buf t s =
    (case vdrive_switch junk tmp v drive of
       (ret, v) \<Rightarrow> if ret \<noteq> 0 then (CBMDOS_IPE_NOT_READY, v, buf) else vdrive_read_sector v buf t s)"

definition vdrive_ext_write_sector ::
  "(nat \<Rightarrow> byte) \<Rightarrow> buffer \<Rightarrow> vdrive \<Rightarrow> int \<Rightarrow> buffer \<Rightarrow> nat \<Rightarrow> nat \<Rightarrow> int \<times> vdrive" where
  "vdrive_ext_write_sector junk tmp v drive buf t s =
    (case vdrive_switch junk tmp v drive of
       (ret, v) \<Rightarrow> if ret \<noteq> 0 then (CBMDOS_IPE_NOT_READY, v) else vdrive_write_sector v buf t s)"

subsection \<open>Attaching an image\<close>

definition vdrive_reset_last_track_sector :: "vdrive \<Rightarrow> vdrive" where
  "vdrive_reset_last_track_sector v =
    (if VDRIVE_IS_1541 v then v\<lparr>ram := (ram v)[0x7E := 0, 0x26F := 0]\<rparr> else v)"

text \<open>
  The switch over the image type: the drive with format, number of tracks and BAM size set,
  and whether the image has a partition table; \<open>None\<close> for a type that cannot be attached.
\<close>

definition set_format :: "image_format \<Rightarrow> nat \<Rightarrow> nat \<Rightarrow> vdrive \<Rightarrow> vdrive" where
  "set_format fmt tr bs v = v\<lparr>image_format := fmt, num_tracks := tr, bam_size := bs, current_offset := 0\<rparr>"

definition attach_format :: "disk_image \<Rightarrow> vdrive \<Rightarrow> (vdrive \<times> bool) option" where
  "attach_format img v =
    (case itype img of
       D64 \<Rightarrow> Some (set_format FORMAT_1541 (if itracks img > 35 then 40 else 35) 0x100 v, False)
     | D67 \<Rightarrow> Some (set_format FORMAT_2040 (itracks img) 0x100 v, False)
     | D71 \<Rightarrow> Some (set_format FORMAT_1571 70 0x200 v, False)
     | D81 \<Rightarrow> Some (set_format FORMAT_1581 (itracks img) 0x300 v, False)
     | D80 \<Rightarrow> Some (set_format FORMAT_8050 (itracks img) 0x300 v, False)
     | D82 \<Rightarrow> Some (set_format FORMAT_8250 (itracks img) 0x500 v, False)
     | G64 \<Rightarrow> Some (set_format FORMAT_1541 (if itracks img > 35 then 40 else 35) 0x100 v, False)
     | G71 \<Rightarrow> Some (set_format FORMAT_1571 70 0x200 v, False)
     | P64 \<Rightarrow>
         if itracks img > 42 then Some (set_format FORMAT_1571 70 0x200 v, False)
         else Some (set_format FORMAT_1541 35 0x100 v, False)
     | D1M \<Rightarrow> Some (v, True)
     | D2M \<Rightarrow> Some (v, True)
     | D4M \<Rightarrow> Some (v, True)
     | DHD \<Rightarrow> Some (v, True)
     | D90 \<Rightarrow>
         let n = c_uint ((itracks img + 1) * isectors img * 5) in
         Some (set_format FORMAT_9000 (itracks img)
           ((n div (32 * 240) + 1 + (if n mod (32 * 240) \<noteq> 0 then 1 else 0)) * 0x100) v, False)
     | _ \<Rightarrow> None)"

definition clear_dirs :: "vdrive \<Rightarrow> vdrive" where
  "clear_dirs v = v\<lparr>cheadertrack := replicate 256 0, cheadersector := replicate 256 0,
     cdirtrack := replicate 256 0, cdirsector := replicate 256 0,
     cpartstart := replicate 256 0, cpartend := replicate 256 0\<rparr>"

text \<open>The image is the object \<open>i\<close> of the heap; \<open>None\<close> is a null pointer.\<close>

definition vdrive_attach_image ::
  "(nat \<Rightarrow> byte) \<Rightarrow> buffer \<Rightarrow> nat option \<Rightarrow> nat \<Rightarrow> nat \<Rightarrow> vdrive \<Rightarrow> int \<times> vdrive" where
  "vdrive_attach_image junk tmp img u drive v =
    (case img of
       None \<Rightarrow> (-1, v)
     | Some i \<Rightarrow>
         if drive \<ge> 1 then (-1, v)
         else if unit_no v \<noteq> u then (-1, v)
         else case attach_format (disk_heap v ! i) v of
           None \<Rightarrow> (-1, v\<lparr>current_offset := UINT32_MAX\<rparr>)
         | Some (v, pt) \<Rightarrow>
             let v = snd (vdrive_bam_write_bam v);
                 v = v\<lparr>images := (images v)[drive := Some i], haspt := pt\<rparr>;
                 (bad, v, part) =
                   (if pt then
                      let v = v\<lparr>current_offset := UINT32_MAX, sys_offset := UINT32_MAX\<rparr>;
                          (ret, v) = vdrive_read_partition_table v tmp in
                      if ret \<noteq> 0 then
                        if VDRIVE_IS_HD v then (True, v\<lparr>current_offset := UINT32_MAX\<rparr>, 0)
                        else (False, v\<lparr>current_offset := UINT32_MAX, default_part := 1\<rparr>, 1)
                      else (False, v, default_part v)
                    else (False, v, int drive)) in
             if bad then
               (-1, v\<lparr>images := (images v)[drive := None], image_mode := -1, haspt := False, current_part := -1\<rparr>)
             else
               let v = (clear_dirs v)\<lparr>current_part := -1\<rparr>;
                   (ret, v) = vdrive_switch junk tmp v part;
                   v = v\<lparr>selected_part := (if ret \<noteq> 0 then part else current_part v)\<rparr> in
               (0, vdrive_reset_last_track_sector v))"

subsection \<open>What stays the same\<close>

text \<open>
  The operations on sectors and on the BAM leave the shape of a drive alone: its format and
  size, its images and their types. \<open>same_shape\<close> is reflexive and transitive, and each
  operation keeps it.
\<close>

definition same_shape :: "vdrive \<Rightarrow> vdrive \<Rightarrow> bool" where
  "same_shape v w = (image_format w = image_format v \<and> num_tracks w = num_tracks v \<and>
     bam_size w = bam_size v \<and> haspt w = haspt v \<and> image_ptr w = image_ptr v \<and> images w = images v \<and>
     current_part w = current_part v \<and> current_offset w = current_offset v \<and>
     sys_offset w = sys_offset v \<and> ptype w = ptype v \<and> poffset w = poffset v \<and> psize w = psize v \<and>
     selected_part w = selected_part v \<and> default_part w = default_part v \<and> unit_no w = unit_no v \<and>
     map itype (disk_heap w) = map itype (disk_heap v))"

lemma same_shape_refl [simp]: "same_shape v v"
  by (simp add: same_shape_def)

lemma same_shape_trans: "same_shape u v \<Longrightarrow> same_shape v w \<Longrightarrow> same_shape u w"
  by (simp add: same_shape_def)

lemma write_keeps_type: "itype (snd (disk_image_write_sector img buf a)) = itype img"
  by (simp add: disk_image_write_sector_def fsimage_write_sector_def fsimage_dxx_write_sector_def Let_def
      split: prod.split option.split disk_image_device.split)

lemma shape_update_mode [simp]: "same_shape v (update_image_mode v)"
  by (simp add: same_shape_def update_image_mode_def)

lemma shape_set_image:
  assumes "itype img = itype (cur_image v)"
  shows "same_shape v (set_cur_image img v)"
proof -
  have "map itype ((disk_heap v)[the (image_ptr v) := img]) = map itype (disk_heap v)"
    using assms by (cases "the (image_ptr v) < length (disk_heap v)")
      (simp_all add: map_update cur_image_def list_update_beyond list_update_same_conv)
  then show ?thesis by (simp add: same_shape_def set_cur_image_def)
qed

lemma shape_read_sector [simp]: "same_shape v (fst (snd (vdrive_read_sector v buf t s)))"
  by (simp add: vdrive_read_sector_def Let_def split: option.split prod.split)

lemma shape_write_sector [simp]: "same_shape v (snd (vdrive_write_sector v buf t s))"
proof -
  have "same_shape v (set_cur_image (snd (disk_image_write_sector (cur_image v) buf a)) (update_image_mode v))" for a
    using shape_set_image [of "snd (disk_image_write_sector (cur_image v) buf a)" "update_image_mode v"]
      same_shape_trans [OF shape_update_mode] by (simp add: write_keeps_type)
  then show ?thesis
    unfolding vdrive_write_sector_def Let_def by (simp add: case_prod_beta split: option.split)
qed

lemma shape_bam [simp]:
  "same_shape v (v\<lparr>bam := b\<rparr>)" "same_shape v (v\<lparr>ram := r\<rparr>)" "same_shape v (bam_mark p st v)"
  "same_shape v (v\<lparr>bam_tracks := bt, bam_sectors := bs\<rparr>)" "same_shape v (bam_put i x v)"
  "same_shape v (put_block i ts v)" "same_shape v (place_bam p1 p2 n1 n2 p3 v)"
  by (simp_all add: same_shape_def bam_mark_def bam_put_def put_block_def place_bam_def)

lemma shape_foldl:
  "(\<And>v x. same_shape v (f v x)) \<Longrightarrow> same_shape v (foldl f v xs)"
  by (induction xs arbitrary: v) (auto intro: same_shape_trans)

lemma shape_place_1581 [simp]: "same_shape v (place_1581 v)"
  unfolding place_1581_def by (rule shape_foldl) simp

lemma shape_load_block [simp]: "same_shape v (snd (load_bam_block v blk err))"
proof -
  let ?v = "if image_format v = FORMAT_1581 then place_1581 v else v"
  let ?r = "vdrive_read_sector ?v (slice (the (bam ?v)) (blk * 256) 256)
    (c_unsigned (bam_tracks ?v ! blk)) (c_unsigned (bam_sectors ?v ! blk))"
  let ?w = "fst (snd ?r)\<lparr>bam := Some (write_at (the (bam (fst (snd ?r)))) (blk * 256) (snd (snd ?r)))\<rparr>"
  have v: "same_shape v ?v" by simp
  have w: "same_shape v ?w" by (rule same_shape_trans [OF v same_shape_trans]) (rule shape_read_sector, rule shape_bam)
  have "same_shape v (?w\<lparr>ram := r\<rparr>)" for r by (rule same_shape_trans [OF w]) simp
  then have "same_shape v (bam_mark blk 0 ?v)" "same_shape v (bam_mark blk 0 ?w)"
    "same_shape v (bam_mark blk 0 (?w\<lparr>ram := r\<rparr>))" "same_shape v (?w\<lparr>ram := r\<rparr>)" for r
    using v w by (auto intro: same_shape_trans [OF _ shape_bam(3)])
  with v w show ?thesis
    unfolding load_bam_block_def Let_def case_prod_beta by (simp only: fst_conv snd_conv split: if_split) auto
qed

lemma shape_read_block [simp]: "same_shape v (snd (vdrive_bam_read_bam_block v blk))"
  and shape_read_links: "same_shape v (snd (snd (read_bam_links v j blk err)))"
proof (induction v blk and v j blk err rule: vdrive_bam_read_bam_block_read_bam_links.induct)
  case (1 v blk)
  then show ?case
    by (subst vdrive_bam_read_bam_block.simps)
      (auto simp: case_prod_beta intro: same_shape_trans [OF _ shape_load_block])
next
  case (2 v j blk err)
  obtain e w where w: "vdrive_bam_read_bam_block v (j + 1) = (e, w)" by fastforce
  let ?w = "w\<lparr>bam_tracks := (bam_tracks w)[j + 2 := uint (bam_byte w ((j + 1) * 256))],
    bam_sectors := (bam_sectors w)[j + 2 := uint (bam_byte w ((j + 1) * 256 + 1))]\<rparr>"
  have "same_shape v w" "same_shape v ?w" if "j + 2 \<le> blk" "bam_tracks v ! (j + 2) < 0"
    using 2(1) [OF that] same_shape_trans [OF _ shape_bam(4)] by (auto simp: w [simplified])
  then show ?case
    using 2(2) [OF _ _ w [symmetric]] 2(3)
    by (subst read_bam_links.simps) (auto simp: w [simplified] intro: same_shape_trans)
qed

lemma shape_write_loop [simp]: "same_shape v (snd (write_bam_loop v i n err))"
proof (induction n arbitrary: v i err)
  case (Suc n)
  let ?w = "\<lambda>v. snd (vdrive_write_sector v (slice (the (bam v)) (i * 256) 256)
    (c_unsigned (bam_tracks v ! i)) (c_unsigned (bam_sectors v ! i)))"
  have "same_shape v (snd (write_bam_loop (bam_mark i 0 (?w v)) (Suc i) n 0))"
    by (rule same_shape_trans [OF same_shape_trans [OF shape_write_sector shape_bam(3)] Suc])
  with Suc show ?case by (simp add: case_prod_beta)
qed simp

lemma shape_write_bam [simp]: "same_shape v (snd (vdrive_bam_write_bam v))"
  unfolding vdrive_bam_write_bam_def Let_def
  by (simp add: same_shape_trans [OF shape_place_1581 shape_write_loop])

lemma shape_locate [simp]: "same_shape v (locate_bam v)"
proof -
  have "same_shape v (foldl (\<lambda>v i. put_block i (1, 1 + int i) v) v [0..<33])"
    by (rule shape_foldl) simp
  then show ?thesis
    unfolding locate_bam_def
    by (simp add: same_shape_def put_block_def split: image_format.split)
qed

lemma shape_setup_bam: "same_shape v (vdrive_bam_setup_bam junk v)"
proof -
  let ?v = "v\<lparr>bam := (if bam_size v \<noteq> 0 then Some (map junk [0..<bam_size v]) else None),
    bam_state := replicate VDRIVE_BAM_MAX_STATES (-1), bam_tracks := replicate VDRIVE_BAM_MAX_STATES (-1),
    bam_sectors := replicate VDRIVE_BAM_MAX_STATES (-1)\<rparr>"
  have v: "same_shape v (locate_bam ?v)"
    by (rule same_shape_trans [OF _ shape_locate]) (simp add: same_shape_def)
  have "same_shape v (w\<lparr>ram := r\<rparr>)" if "w = snd (vdrive_bam_int_get_disk_id (locate_bam ?v))" for w r
    unfolding that vdrive_bam_int_get_disk_id_def Let_def snd_conv
    by (rule same_shape_trans [OF same_shape_trans [OF v shape_read_block] shape_bam(2)])
  with v show ?thesis
    unfolding vdrive_bam_setup_bam_def Let_def case_prod_beta by simp
qed

lemma shape_geometry: "same_shape v (vdrive_set_disk_geometry tmp v)"
proof -
  have "same_shape v (geometry_9000 tmp v)" for v
    using shape_read_sector [of v tmp 0 0]
    by (simp add: geometry_9000_def Let_def case_prod_beta same_shape_def place_bam_def)
  then have "same_shape (v\<lparr>Part_Start := 1\<rparr>) (format_geometry tmp (v\<lparr>Part_Start := 1\<rparr>))"
    by (simp add: format_geometry_def split: image_format.split)
  then show ?thesis
    by (simp add: vdrive_set_disk_geometry_def Let_def same_shape_def)
qed

lemma shape_enter_part: "same_shape v (enter_part junk tmp v)"
  unfolding enter_part_def by (rule same_shape_trans [OF shape_geometry shape_setup_bam])

subsection \<open>Reading the table\<close>

text \<open>
  Looking for the system partition and reading the table keep the partition that is current,
  and whether there is a table.
\<close>

definition same_part :: "vdrive \<Rightarrow> vdrive \<Rightarrow> bool" where
  "same_part v w = (haspt w = haspt v \<and> images w = images v \<and> current_part w = current_part v \<and>
     current_offset w = current_offset v \<and> image_format w = image_format v \<and>
     selected_part w = selected_part v \<and> num_tracks w = num_tracks v \<and> bam_size w = bam_size v \<and>
     disk_heap w = disk_heap v)"

lemma read_sector_state: "\<exists>m. fst (snd (vdrive_read_sector v buf t s)) = v\<lparr>image_mode := m\<rparr>"
proof -
  have "\<exists>m. update_image_mode v = v\<lparr>image_mode := m\<rparr>"
    by (cases "image_ptr v = None") (auto simp: update_image_mode_def intro: exI [of _ "image_mode v"])
  then show ?thesis
    by (auto simp: vdrive_read_sector_def Let_def case_prod_beta split: option.split)
qed

lemma same_part_trans: "same_part u v \<Longrightarrow> same_part v w \<Longrightarrow> same_part u w"
  by (simp add: same_part_def)

lemma part_find_sys_hd:
  "same_part (v\<lparr>current_offset := co\<rparr>) ((snd (find_sys_hd v buf i n))\<lparr>current_offset := co\<rparr>)"
proof (induction n arbitrary: v buf i)
  case (Suc n)
  obtain m r b where "vdrive_read_sector (v\<lparr>current_offset := i * 128\<rparr>) buf 0 5 =
      (r, v\<lparr>current_offset := i * 128, image_mode := m\<rparr>, b)"
    using read_sector_state [of "v\<lparr>current_offset := i * 128\<rparr>" buf 0 5] by (metis prod.collapse)
  with Suc [of "v\<lparr>current_offset := i * 128, image_mode := m\<rparr>" b "Suc i"] show ?case
    by (simp add: Let_def same_part_def)
qed (simp add: same_part_def)

lemma part_find_sys: "same_part v (snd (vdrive_find_sys v buf))"
proof -
  let ?v = "v\<lparr>image_ptr := images v ! 0, sys_offset := UINT32_MAX, current_offset := 0, image_format := FORMAT_SYS\<rparr>"
  have "same_part (v\<lparr>current_offset := co\<rparr>) ((snd (find_sys_fd v buf))\<lparr>current_offset := co\<rparr>)" for v co
    using read_sector_state [of v buf 0 5]
    by (auto simp: find_sys_fd_def case_prod_beta same_part_def)
  then have fd: "same_part (v\<lparr>current_offset := co, image_format := f\<rparr>)
      ((snd (find_sys_fd (?v\<lparr>current_offset := o'\<rparr>) buf))\<lparr>current_offset := co, image_format := f\<rparr>)" for o' co f
    by (fastforce simp: same_part_def)
  have hdk: "same_part (v\<lparr>current_offset := co, image_format := f\<rparr>)
      ((snd (find_sys_hd ?v buf 0 9))\<lparr>current_offset := co, image_format := f\<rparr>)" for co f
    using part_find_sys_hd [where v = ?v and co = co] by (simp add: same_part_def)
  show ?thesis
    using fd [where co = "current_offset v" and f = "image_format v"]
      hdk [where co = "current_offset v" and f = "image_format v"]
    unfolding vdrive_find_sys_def Let_def case_prod_beta
    by (simp split: disk_image_type.split) (simp add: same_part_def)
qed

lemma part_read_parts: "same_part v (snd (read_parts v buf olds i n))"
proof (induction n arbitrary: v buf olds i)
  case (Suc n)
  let ?s = "i * 32 div 256" and ?k = "if i = 0 then 255 else i" and ?j = "(i * 32) mod 256"
  obtain m r b where read: "(if int ?s \<noteq> olds then vdrive_read_sector v buf 1 ?s else (CBMDOS_IPE_OK, v, buf)) =
      (r, v\<lparr>image_mode := m\<rparr>, b)"
  proof (cases "int ?s = olds")
    case True
    then show ?thesis using that [of CBMDOS_IPE_OK "image_mode v" buf] by simp
  next
    case False
    then show ?thesis using that read_sector_state [of v buf 1 ?s] by (metis prod.collapse)
  qed
  have "same_part v (set_partition i ?k b ?j (v\<lparr>image_mode := m\<rparr>))"
    by (simp add: set_partition_def same_part_def Let_def)
  then have "same_part v (snd (read_parts v buf olds i (Suc n)))" if "r = 0"
    using read same_part_trans [OF _ Suc [of "set_partition i ?k b ?j (v\<lparr>image_mode := m\<rparr>)" b "int ?s" "Suc i"]] that
    by (simp only: read_parts.simps Let_def prod.case simp_thms if_True)
  moreover have "same_part v (snd (read_parts v buf olds i (Suc n)))" if "r \<noteq> 0"
    using read that by (simp only: read_parts.simps Let_def prod.case if_False) (simp add: same_part_def)
  ultimately show ?case by blast
qed (simp add: same_part_def)

lemma part_read_table: "same_part v (snd (vdrive_read_partition_table v buf))"
proof -
  have fg: "same_part v (forget_parts v)" for v
  proof -
    have "same_part v (foldl (\<lambda>v i. v\<lparr>ptype := (ptype v)[i := 0], poffset := (poffset v)[i := 0],
      psize := (psize v)[i := 0], cheadertrack := (cheadertrack v)[i := 0]\<rparr>) v xs)" for xs
      by (induction xs arbitrary: v) (simp_all add: same_part_def)
    then show ?thesis by (simp add: forget_parts_def)
  qed
  have rp: "same_part v ((snd (read_parts (v\<lparr>current_offset := o', image_format := f\<rparr>) buf (-1) 0 n))
      \<lparr>ptype := p1, poffset := p2, psize := p3, current_offset := current_offset v, image_format := image_format v\<rparr>)"
    for v o' f n p1 p2 p3
    using part_read_parts [of "v\<lparr>current_offset := o', image_format := f\<rparr>" buf "-1" 0 n]
    by (simp add: same_part_def)
  have fs: "same_part v (snd (if sys_offset v = UINT32_MAX then vdrive_find_sys v buf else (CBMDOS_IPE_OK, v)))"
    using part_find_sys [of v buf] by (simp add: same_part_def)
  obtain r u where u: "(if sys_offset v = UINT32_MAX then vdrive_find_sys v buf else (CBMDOS_IPE_OK, v)) = (r, u)"
    by fastforce
  have "same_part v (forget_parts u)" "same_part v (v\<lparr>sys_offset := UINT32_MAX\<rparr>)"
    using same_part_trans [OF fs fg] u by (simp_all add: same_part_def)
  moreover note same_part_trans [OF fs [unfolded u snd_conv] rp]
  ultimately show ?thesis
    unfolding vdrive_read_partition_table_def Let_def case_prod_beta u fst_conv snd_conv
    by (simp add: same_part_trans del: read_parts.simps)
qed

subsection \<open>Switching\<close>

text \<open>The drive as the partition table describes partition \<open>p\<close>.\<close>

definition part_entered :: "vdrive \<Rightarrow> int \<Rightarrow> bool" where
  "part_entered w p =
    (let ty = ptype w ! ix p in
     current_part w = p \<and> current_offset w = poffset w ! ix p \<and>
     ((ty = 1 \<and> image_format w = FORMAT_NP \<and> num_tracks w = psize w ! ix p div 128 \<and> bam_size w = 33 * 256) \<or>
      (ty = 2 \<and> image_format w = FORMAT_1541 \<and> num_tracks w = 35 \<and> bam_size w = 256) \<or>
      (ty = 3 \<and> image_format w = FORMAT_1571 \<and> num_tracks w = 70 \<and> bam_size w = 512) \<or>
      (ty = 4 \<and> image_format w = FORMAT_1581 \<and> num_tracks w = 80 \<and> bam_size w = 768) \<or>
      (ty = 255 \<and> p = 255 \<and> image_format w = FORMAT_SYS \<and> num_tracks w = 1 \<and> bam_size w = 0)))"

text \<open>Whether the table has a partition of number \<open>p\<close> that can be entered.\<close>

definition part_known :: "vdrive \<Rightarrow> int \<Rightarrow> bool" where
  "part_known v p =
    (0 \<le> p \<and> p \<le> 255 \<and> (ptype v ! nat p \<in> {1, 2, 3, 4} \<or> p = 255 \<and> ptype v ! 255 = 255))"

lemma part_entered_same: "same_shape v w \<Longrightarrow> part_entered w p = part_entered v p"
  by (simp add: part_entered_def same_shape_def)

lemma change_table_part_ok:
  assumes "fst (change_table_part v p) = 0"
  shows "ptype v ! ix p \<in> {1, 2, 3, 4} \<or> (ptype v ! ix p = 255 \<and> p = 255)"
proof -
  have "(1 \<le> ptype v ! ix p \<and> ptype v ! ix p \<le> 4) \<or> (ptype v ! ix p = 255 \<and> p = 255)"
    using assms unfolding change_table_part_def Let_def by (simp add: case_prod_beta split: if_splits)
  then show ?thesis by auto
qed

lemma change_table_part_enters:
  assumes "fst (change_table_part v p) = 0"
  shows "part_entered (snd (change_table_part v p)) p"
proof -
  consider "ptype v ! ix p = 1" | "ptype v ! ix p = 2" | "ptype v ! ix p = 3" | "ptype v ! ix p = 4"
    | "ptype v ! ix p = 255" "p = 255"
    using change_table_part_ok [OF assms] by auto
  then show ?thesis
    by cases (simp_all add: change_table_part_def part_entered_def part_format_def Let_def)
qed

lemma change_table_part_iff:
  "fst (change_table_part v p) = 0 \<longleftrightarrow> ptype v ! ix p \<in> {1, 2, 3, 4} \<or> (ptype v ! ix p = 255 \<and> p = 255)"
proof
  assume "ptype v ! ix p \<in> {1, 2, 3, 4} \<or> (ptype v ! ix p = 255 \<and> p = 255)"
  then show "fst (change_table_part v p) = 0" by (auto simp: change_table_part_def part_format_def Let_def)
qed (rule change_table_part_ok)

lemma change_table_part_tables:
  "ptype (snd (change_table_part v p)) = ptype v" "poffset (snd (change_table_part v p)) = poffset v"
  "psize (snd (change_table_part v p)) = psize v"
  unfolding change_table_part_def Let_def by (simp_all add: case_prod_beta)

lemma change_table_part_haspt [simp]: "haspt (snd (change_table_part v p)) = haspt v"
  unfolding change_table_part_def Let_def by (simp add: case_prod_beta)

lemma change_part_enters:
  assumes "haspt v"
  shows "haspt (snd (vdrive_change_part v buf part))"
    and "fst (vdrive_change_part v buf part) = 0 \<Longrightarrow>
      part_entered (snd (vdrive_change_part v buf part)) (if part = 0 then selected_part v else part)"
proof -
  obtain r u where u: "(if haspt v \<and> sys_offset v = UINT32_MAX then vdrive_read_partition_table v buf
      else (CBMDOS_IPE_OK, v)) = (r, u)" by fastforce
  have hu: "haspt u"
    using part_read_table [of v buf] u assms(1) by (auto simp: same_part_def split: if_splits)
  let ?p = "if part = 0 then selected_part v else part"
  have eq: "vdrive_change_part v buf part =
    (if part < 0 \<or> part > 255 then (CBMDOS_IPE_NOT_READY, v) else if r \<noteq> 0 then (r, u)
     else change_table_part u ?p)"
    unfolding vdrive_change_part_def Let_def u by (simp add: assms hu)
  show "haspt (snd (vdrive_change_part v buf part))"
    by (simp add: eq assms hu)
  show "fst (vdrive_change_part v buf part) = 0 \<Longrightarrow> part_entered (snd (vdrive_change_part v buf part)) ?p"
    using change_table_part_enters [of u ?p] by (simp add: eq split: if_splits)
qed

text \<open>With the partition table in memory it decides, and is kept.\<close>

lemma change_part_known:
  assumes "haspt v" "sys_offset v \<noteq> UINT32_MAX" "part \<noteq> 0 \<or> selected_part v = 0"
  shows "fst (vdrive_change_part v buf part) = 0 \<longleftrightarrow> part_known v part"
    and "ptype (snd (vdrive_change_part v buf part)) = ptype v"
    and "poffset (snd (vdrive_change_part v buf part)) = poffset v"
    and "psize (snd (vdrive_change_part v buf part)) = psize v"
proof -
  have eq: "vdrive_change_part v buf part =
    (if part < 0 \<or> part > 255 then (CBMDOS_IPE_NOT_READY, v) else change_table_part v part)"
    using assms by (auto simp: vdrive_change_part_def Let_def)
  show "fst (vdrive_change_part v buf part) = 0 \<longleftrightarrow> part_known v part"
    using change_table_part_iff [of v part] by (auto simp: eq part_known_def ix_def)
  show "ptype (snd (vdrive_change_part v buf part)) = ptype v"
    "poffset (snd (vdrive_change_part v buf part)) = poffset v"
    "psize (snd (vdrive_change_part v buf part)) = psize v"
    by (simp_all add: eq change_table_part_tables)
qed

text \<open>A switch is a change of the partition, if there is one, and setting the drive up for it.\<close>

definition leave_part :: "vdrive \<Rightarrow> vdrive" where
  "leave_part v = v\<lparr>image_format := FORMAT_NONE, num_tracks := 0, bam_size := 0,
     current_offset := UINT32_MAX, current_part := -1\<rparr>"

lemma switch_cases:
  assumes "haspt v" "0 \<le> part" "vdrive_switch junk tmp v part = (ret, w)"
  shows "ret \<noteq> 0 \<Longrightarrow> \<exists>u. haspt u \<and> w = leave_part u"
    and "ret = 0 \<Longrightarrow> haspt w \<and> current_part w = vdrive_realpart v part"
    and "ret = 0 \<Longrightarrow> vdrive_realpart v part \<noteq> current_part v \<Longrightarrow> part_entered w (vdrive_realpart v part)"
    and "sys_offset v \<noteq> UINT32_MAX \<Longrightarrow> vdrive_realpart v part \<noteq> current_part v \<Longrightarrow>
      (ret = 0 \<longleftrightarrow> part_known v (vdrive_realpart v part)) \<and>
      ptype w = ptype v \<and> poffset w = poffset v \<and> psize w = psize v"
proof -
  let ?p = "vdrive_realpart v part"
  obtain r u where u: "vdrive_change_part (snd (vdrive_bam_write_bam v)) tmp ?p = (r, u)" by fastforce
  have wb: "same_shape v (snd (vdrive_bam_write_bam v))" by simp
  have p: "(if ?p = 0 then selected_part v else ?p) = ?p"
    using assms(1) by (simp add: vdrive_realpart_def)
  have hu: "haspt u" and en: "r = 0 \<Longrightarrow> part_entered u ?p"
    using change_part_enters [of "snd (vdrive_bam_write_bam v)" tmp ?p] wb assms(1) p
    by (simp_all add: u same_shape_def split: if_splits)
  define x where "x = (if ?p \<noteq> current_part v then
      (if r = 0 then (r, enter_part junk tmp u) else (r, leave_part u)) else (CBMDOS_IPE_OK, v))"
  have ret: "ret = fst x" and w: "w = snd x \<or> w = enter_part junk tmp (snd (vdrive_bam_write_bam (snd x))) \<and>
      image_format (snd x) = FORMAT_1581"
    using assms(2,3) hu by (auto simp: vdrive_switch_def Let_def u x_def leave_part_def split: if_splits)
  have sh: "same_shape (snd x) w"
    using w same_shape_trans [OF shape_write_bam shape_enter_part] by auto
  show "ret \<noteq> 0 \<Longrightarrow> \<exists>u. haspt u \<and> w = leave_part u"
    using w ret hu by (auto simp: x_def leave_part_def split: if_splits)
  show en': "ret = 0 \<Longrightarrow> ?p \<noteq> current_part v \<Longrightarrow> part_entered w ?p"
    using sh en shape_enter_part [of u junk tmp] ret
    by (simp add: x_def part_entered_same split: if_splits)
  show "ret = 0 \<Longrightarrow> haspt w \<and> current_part w = ?p"
    using sh ret hu en' assms(1) shape_enter_part [of u junk tmp]
    by (auto simp: x_def same_shape_def part_entered_def Let_def split: if_splits)
  show "(ret = 0 \<longleftrightarrow> part_known v ?p) \<and> ptype w = ptype v \<and> poffset w = poffset v \<and> psize w = psize v"
    if "sys_offset v \<noteq> UINT32_MAX" "?p \<noteq> current_part v"
  proof -
    let ?b = "snd (vdrive_bam_write_bam v)"
    have "haspt ?b" "sys_offset ?b \<noteq> UINT32_MAX" "?p \<noteq> 0 \<or> selected_part ?b = 0"
      using wb that(1) assms(1) by (auto simp: same_shape_def vdrive_realpart_def)
    note k = change_part_known [OF this, of tmp, unfolded u fst_conv snd_conv]
    have "part_known ?b ?p = part_known v ?p" "ptype ?b = ptype v" "poffset ?b = poffset v" "psize ?b = psize v"
      using wb by (simp_all add: same_shape_def part_known_def)
    then show ?thesis
      using k sh ret that(2) shape_enter_part [of u junk tmp]
      by (simp add: x_def same_shape_def leave_part_def split: if_splits)
  qed
qed

subsection \<open>Attaching\<close>

text \<open>The format an image type is attached as: the image format, its tracks and the size of its BAM.\<close>

definition flat_format :: "disk_image \<Rightarrow> (image_format \<times> nat \<times> nat) option" where
  "flat_format img =
    (case itype img of
       D64 \<Rightarrow> Some (FORMAT_1541, if itracks img > 35 then 40 else 35, 256)
     | G64 \<Rightarrow> Some (FORMAT_1541, if itracks img > 35 then 40 else 35, 256)
     | P64 \<Rightarrow> Some (if itracks img > 42 then (FORMAT_1571, 70, 512) else (FORMAT_1541, 35, 256))
     | D67 \<Rightarrow> Some (FORMAT_2040, itracks img, 256)
     | D71 \<Rightarrow> Some (FORMAT_1571, 70, 512)
     | G71 \<Rightarrow> Some (FORMAT_1571, 70, 512)
     | D81 \<Rightarrow> Some (FORMAT_1581, itracks img, 768)
     | D80 \<Rightarrow> Some (FORMAT_8050, itracks img, 768)
     | D82 \<Rightarrow> Some (FORMAT_8250, itracks img, 1280)
     | _ \<Rightarrow> None)"

lemma attach_format_flat:
  "flat_format img = Some (fmt, tr, bs) \<Longrightarrow> attach_format img v = Some (set_format fmt tr bs v, False)"
  by (auto simp: flat_format_def attach_format_def split: disk_image_type.splits if_splits)

lemma flat_format_layout:
  "flat_format img = Some (fmt, tr, bs) \<Longrightarrow> fixed_layout fmt \<and> bs = layout_size fmt"
  by (auto simp: flat_format_def layout_defs split: disk_image_type.splits if_splits)

text \<open>A switch to drive 0 of a unit without partition table.\<close>

lemma switch_flat:
  assumes "\<not> haspt v" "images v ! 0 = Some i" "current_part v = -1"
  shows "\<exists>w. vdrive_switch junk tmp v 0 = (0, w) \<and>
    same_shape (v\<lparr>image_ptr := Some i, current_offset := 0, current_part := 0\<rparr>) w"
proof -
  let ?b = "snd (vdrive_bam_write_bam v)"
  let ?u = "?b\<lparr>image_ptr := Some i, current_offset := 0, current_part := 0\<rparr>"
  let ?u' = "?u\<lparr>image_mode := int (read_only (cur_image ?u))\<rparr>"
  let ?x = "enter_part junk tmp ?u'"
  have wb: "same_shape v ?b" by simp
  have "same_shape (v\<lparr>image_ptr := Some i, current_offset := 0, current_part := 0\<rparr>) ?u'"
    using wb by (simp add: same_shape_def)
  note sh = same_shape_trans [OF this shape_enter_part, of junk tmp]
  have "vdrive_change_part ?b tmp 0 = (0, ?u')"
    using wb assms(1,2) by (simp add: vdrive_change_part_def change_image_part_def same_shape_def Let_def)
  then have "vdrive_switch junk tmp v 0 = (0, if image_format ?x = FORMAT_1581 \<and>
      (Part_Start ?x \<noteq> cpartstart ?x ! ix (current_part ?x) \<or> Part_End ?x \<noteq> cpartend ?x ! ix (current_part ?x))
      then enter_part junk tmp (snd (vdrive_bam_write_bam ?x)) else ?x)"
    using assms(1,3) by (simp add: vdrive_switch_def vdrive_realpart_def Let_def)
  then show ?thesis
    using sh same_shape_trans [OF sh same_shape_trans [OF shape_write_bam shape_enter_part]] by auto
qed

lemma attach_flat:
  assumes "flat_format (disk_heap v ! i) = Some (fmt, tr, bs)" "unit_no v = u" "images v \<noteq> []"
  shows "\<exists>w. vdrive_attach_image junk tmp (Some i) u 0 v = (0, w) \<and>
    image_format w = fmt \<and> num_tracks w = tr \<and> bam_size w = bs \<and> \<not> haspt w \<and> image_ptr w = Some i \<and>
    images w ! 0 = Some i \<and> current_part w = 0 \<and> selected_part w = 0 \<and> current_offset w = 0 \<and>
    map itype (disk_heap w) = map itype (disk_heap v)"
proof -
  let ?b = "snd (vdrive_bam_write_bam (set_format fmt tr bs v))"
  let ?c = "(clear_dirs (?b\<lparr>images := (images ?b)[0 := Some i], haspt := False\<rparr>))\<lparr>current_part := -1\<rparr>"
  have b: "same_shape (set_format fmt tr bs v) ?b" by simp
  obtain w where w: "vdrive_switch junk tmp ?c 0 = (0, w)"
    "same_shape (?c\<lparr>image_ptr := Some i, current_offset := 0, current_part := 0\<rparr>) w"
    using switch_flat [of ?c i junk tmp] b assms(3)
    by (auto simp: clear_dirs_def same_shape_def set_format_def)
  have "vdrive_attach_image junk tmp (Some i) u 0 v =
      (0, vdrive_reset_last_track_sector (w\<lparr>selected_part := current_part w\<rparr>))"
    using w(1) assms by (simp add: vdrive_attach_image_def attach_format_flat Let_def)
  moreover have "same_shape x (vdrive_reset_last_track_sector x)" for x
    by (simp add: vdrive_reset_last_track_sector_def)
  from this [of "w\<lparr>selected_part := current_part w\<rparr>"] w(2) b
  have "let x = vdrive_reset_last_track_sector (w\<lparr>selected_part := current_part w\<rparr>) in
    image_format x = fmt \<and> num_tracks x = tr \<and> bam_size x = bs \<and> \<not> haspt x \<and> image_ptr x = Some i \<and>
    images x ! 0 = Some i \<and> current_part x = 0 \<and> selected_part x = 0 \<and> current_offset x = 0 \<and>
    map itype (disk_heap x) = map itype (disk_heap v)"
    using assms(3) by (simp add: same_shape_def set_format_def clear_dirs_def)
  ultimately show ?thesis by (auto simp: Let_def)
qed

subsection \<open>Properties\<close>

text \<open>
  C18. Switching the partition of a CMD disk either succeeds, and the drive is then the
  partition the number stands for: its offset is that of the partition table, and the type in
  the table decides the rest, 1 for a native partition of the tracks its size gives, 2 for a
  1541 of 35 tracks, 3 for a 1571 of 70, 4 for a 1581 of 80 and 255 for the system partition,
  each with the BAM size of its format. Or it fails, and the drive is then in no partition: no
  logical sector has a physical address, reading returns 74 with the buffer untouched, and
  writing leaves every image as it is. With the table in memory, entering another partition
  succeeds exactly if the table has a partition of such a type under the number, and the table
  is kept.
\<close>

theorem partition_switch:
  assumes "haspt v" "0 \<le> part" "vdrive_switch junk tmp v part = (ret, w)"
  shows "(ret = 0 \<longrightarrow> haspt w \<and> current_part w = vdrive_realpart v part \<and>
      (vdrive_realpart v part \<noteq> current_part v \<longrightarrow> part_entered w (vdrive_realpart v part))) \<and>
    (sys_offset v \<noteq> UINT32_MAX \<and> vdrive_realpart v part \<noteq> current_part v \<longrightarrow>
      (ret = 0 \<longleftrightarrow> part_known v (vdrive_realpart v part)) \<and>
      ptype w = ptype v \<and> poffset w = poffset v \<and> psize w = psize v) \<and>
    (ret \<noteq> 0 \<longrightarrow> current_part w = -1 \<and> vdrive_log_to_phy w t s = None \<and>
      (\<exists>w'. vdrive_read_sector w buf t s = (CBMDOS_IPE_NOT_READY, w', buf)) \<and>
      disk_heap (snd (vdrive_write_sector w buf t s)) = disk_heap w)"
proof -
  have "vdrive_log_to_phy (leave_part u) t s = None" for u
    by (simp add: vdrive_log_to_phy_def leave_part_def)
  then have "vdrive_log_to_phy w t s = None" "current_part w = -1" if "ret \<noteq> 0"
    using switch_cases(1) [OF assms that] by (auto simp: leave_part_def)
  then show ?thesis
    using switch_cases(2-4) [OF assms]
    by (auto simp: vdrive_read_sector_def vdrive_write_sector_def Let_def)
qed

text \<open>
  A CMD drive for the witness. Its table has a 1541, a 1571 and a native partition under the
  numbers 1 to 3.
\<close>

definition cmd_drive :: vdrive where
  "cmd_drive = (blank_drive FORMAT_SYS ((d64_image 0)\<lparr>itype := D2M\<rparr>) 1)
    \<lparr>haspt := True, sys_offset := 0xc80, current_part := 255, ptype := (replicate 256 0)[1 := 2, 2 := 3, 3 := 1],
     poffset := (replicate 256 0)[1 := 40, 2 := 400, 3 := 1200], psize := (replicate 256 0)[3 := 256]\<rparr>"

theorem partition_switch_witness:
  "\<exists>w1 w2 w3 r w. vdrive_switch (\<lambda>_. 0) [] cmd_drive 1 = (0, w1) \<and> image_format w1 = FORMAT_1541 \<and>
     num_tracks w1 = 35 \<and> bam_size w1 = 256 \<and> current_offset w1 = 40 \<and>
   vdrive_switch (\<lambda>_. 0) [] cmd_drive 2 = (0, w2) \<and> image_format w2 = FORMAT_1571 \<and>
     num_tracks w2 = 70 \<and> bam_size w2 = 512 \<and> current_offset w2 = 400 \<and>
   vdrive_switch (\<lambda>_. 0) [] cmd_drive 3 = (0, w3) \<and> image_format w3 = FORMAT_NP \<and>
     num_tracks w3 = 2 \<and> bam_size w3 = 8448 \<and> current_offset w3 = 1200 \<and>
   vdrive_switch (\<lambda>_. 0) [] cmd_drive 9 = (r, w) \<and> r \<noteq> 0 \<and> vdrive_log_to_phy w 18 0 = None \<and>
     (\<exists>w'. vdrive_read_sector w [1, 2] 18 0 = (CBMDOS_IPE_NOT_READY, w', [1, 2]))"
proof -
  have c: "haspt cmd_drive" "sys_offset cmd_drive \<noteq> UINT32_MAX" "current_part cmd_drive = 255"
    "ptype cmd_drive = (replicate 256 0)[1 := 2, 2 := 3, 3 := 1]"
    "poffset cmd_drive = (replicate 256 0)[1 := 40, 2 := 400, 3 := 1200]" "psize cmd_drive = (replicate 256 0)[3 := 256]"
    by (simp_all add: cmd_drive_def UINT32_MAX_def)
  have p: "vdrive_realpart cmd_drive n = n" if "n \<noteq> 0" for n using that c(1) by (simp add: vdrive_realpart_def)
  have sw: "\<exists>r w. vdrive_switch (\<lambda>_. 0) [] cmd_drive n = (r, w) \<and> (r = 0 \<longleftrightarrow> part_known cmd_drive n) \<and>
      (r = 0 \<longrightarrow> part_entered w n \<and> ptype w = ptype cmd_drive \<and> poffset w = poffset cmd_drive \<and> psize w = psize cmd_drive) \<and>
      (r \<noteq> 0 \<longrightarrow> vdrive_log_to_phy w 18 0 = None \<and>
        (\<exists>w'. vdrive_read_sector w [1, 2] 18 0 = (CBMDOS_IPE_NOT_READY, w', [1, 2])))" if "0 < n" "n < 255" for n
  proof -
    obtain r w where "vdrive_switch (\<lambda>_. 0) [] cmd_drive n = (r, w)" by fastforce
    with partition_switch [OF c(1) _ this, of 18 0 "[1, 2]"] that c(2,3) p [of n] show ?thesis
      by (intro exI [of _ r] exI [of _ w]) simp
  qed
  have k: "part_known cmd_drive 1" "part_known cmd_drive 2" "part_known cmd_drive 3" "\<not> part_known cmd_drive 9"
    by (simp_all add: part_known_def c nth_list_update)
  obtain w1 where "vdrive_switch (\<lambda>_. 0) [] cmd_drive 1 = (0, w1)" "image_format w1 = FORMAT_1541"
    "num_tracks w1 = 35" "bam_size w1 = 256" "current_offset w1 = 40"
    using sw [of 1] k(1) by (auto simp: part_entered_def c ix_def nth_list_update)
  moreover obtain w2 where "vdrive_switch (\<lambda>_. 0) [] cmd_drive 2 = (0, w2)" "image_format w2 = FORMAT_1571"
    "num_tracks w2 = 70" "bam_size w2 = 512" "current_offset w2 = 400"
    using sw [of 2] k(2) by (auto simp: part_entered_def c ix_def nth_list_update)
  moreover obtain w3 where "vdrive_switch (\<lambda>_. 0) [] cmd_drive 3 = (0, w3)" "image_format w3 = FORMAT_NP"
    "num_tracks w3 = 2" "bam_size w3 = 8448" "current_offset w3 = 1200"
    using sw [of 3] k(3) by (auto simp: part_entered_def c ix_def nth_list_update)
  moreover obtain r w where "vdrive_switch (\<lambda>_. 0) [] cmd_drive 9 = (r, w)" "r \<noteq> 0"
    "vdrive_log_to_phy w 18 0 = None" "\<exists>w'. vdrive_read_sector w [1, 2] 18 0 = (CBMDOS_IPE_NOT_READY, w', [1, 2])"
    using sw [of 9] k(4) by auto
  ultimately show ?thesis by blast
qed

text \<open>
  C19. Attaching a disk image without partition table to the unit it is meant for succeeds
  whatever was attached before: the image becomes the current one, in the format of its
  type, with a BAM of the size the layout of that format needs.
\<close>

theorem attach_flat_image:
  assumes "flat_format (disk_heap v ! i) = Some (fmt, tr, bs)" "unit_no v = u" "images v \<noteq> []"
  shows "\<exists>w. vdrive_attach_image junk tmp (Some i) u 0 v = (0, w) \<and> image_format w = fmt \<and>
    num_tracks w = tr \<and> bam_size w = layout_size fmt \<and> \<not> haspt w \<and> image_ptr w = Some i \<and>
    current_part w = 0 \<and> selected_part w = 0 \<and> current_offset w = 0 \<and>
    vdrive_ispartvalid w buf 0 = (1, w)"
proof -
  obtain w where w: "vdrive_attach_image junk tmp (Some i) u 0 v = (0, w)" "image_format w = fmt"
    "num_tracks w = tr" "bam_size w = bs" "\<not> haspt w" "image_ptr w = Some i" "images w ! 0 = Some i"
    "current_part w = 0" "selected_part w = 0" "current_offset w = 0"
    using attach_flat [OF assms] by blast
  then have "vdrive_ispartvalid w buf 0 = (1, w)" by (simp add: vdrive_ispartvalid_def)
  with w flat_format_layout [OF assms(1)] show ?thesis by auto
qed

theorem attach_flat_image_witness:
  "\<exists>w. vdrive_attach_image (\<lambda>_. 0) [] (Some 0) 8 0 (blank_drive FORMAT_NONE (d64_image 40) 0) = (0, w) \<and>
     image_format w = FORMAT_1541 \<and> num_tracks w = 40 \<and> bam_size w = 256"
proof -
  let ?v = "blank_drive FORMAT_NONE (d64_image 40) 0"
  have "flat_format (disk_heap ?v ! 0) = Some (FORMAT_1541, 40, 256)" "unit_no ?v = 8" "images ?v \<noteq> []"
    by (simp_all add: blank_drive_def d64_image_def flat_format_def)
  from attach_flat_image [OF this, of "\<lambda>_. 0" "[]" "[]"] show ?thesis by (auto simp: layout_size_def)
qed

end
