(* ===== verification/BamStore.thy ===== *)
theory BamStore
  imports BamMap
begin

text \<open>
  The BAM in memory and the BAM on disk. A block of the BAM is dirty if its \<^verbatim>\<open>bam_state\<close> is
  positive, clean if it is zero, and not loaded if it is negative. Allocating and freeing
  keep clean blocks equal to their sectors; flushing writes the dirty ones, after which
  setting the BAM up again and reading it gives the same bytes.
\<close>

subsection \<open>Reading into any buffer\<close>

text \<open>
  An error map whose entries are codes the drive knows: a sector it gives as readable is
  then read into the buffer.
\<close>

definition errors_known :: "disk_image \<Rightarrow> bool" where
  "errors_known img = (case image_errors img of None \<Rightarrow> True
     | Some m \<Rightarrow> list_all (\<lambda>e. dxx_status (unat e) = 0 \<longrightarrow> soft_error (unat e)) m)"

lemma errors_known_write:
  assumes "dxx_ok img" "in_image img a" "length b = 256" "errors_known img"
  shows "errors_known (image_write img a b)"
proof -
  have "list_all P (m[k := x])" if "list_all P m" "P x" for P :: "byte \<Rightarrow> bool" and m k x
    using that set_update_subset_insert [of m k x] by (auto simp: list_all_iff)
  then show ?thesis
    using assms image_write_errors [OF assms(1-3)]
    by (auto simp: errors_known_def split: option.splits)
qed

text \<open>What reading needs of a drive: the image is there and can be read.\<close>

definition same_disk :: "vdrive \<Rightarrow> vdrive \<Rightarrow> bool" where
  "same_disk v w = (image_ptr w = image_ptr v \<and> disk_heap w = disk_heap v \<and> haspt w = haspt v \<and>
     num_tracks w = num_tracks v \<and> current_offset w = current_offset v \<and> image_format w = image_format v)"

lemma same_disk_phy: "same_disk v w \<Longrightarrow> vdrive_log_to_phy w = vdrive_log_to_phy v"
  by (rule log_to_phy_cong) (simp_all add: same_disk_def cur_image_def)

lemma read_any_buffer:
  assumes "drive_ok v" "errors_known (cur_image v)" "logical_valid v (t, s)"
    "logical_read v (t, s) = (0, b)" "same_disk v w" "length buf = 256"
  shows "vdrive_read_sector w buf t s = (0, update_image_mode w, b)"
proof -
  obtain a where a: "vdrive_log_to_phy v t s = Some a" "in_image (cur_image v) (addr_pair a)"
    using assms(3) by (auto simp: logical_valid_def split: option.splits)
  have dx: "dxx_ok (cur_image v)" and ptr: "image_ptr v \<noteq> None"
    using assms(1) by (simp_all add: drive_ok_def)
  have a': "a = \<lparr>da_track = fst (addr_pair a), da_sector = snd (addr_pair a)\<rparr>"
    by (cases a) (simp add: addr_pair_def)
  have cur: "cur_image w = cur_image v" using assms(5) by (simp add: same_disk_def cur_image_def)
  have m: "m ! block_index (cur_image v) (addr_pair a) \<in> set m" if "image_errors (cur_image v) = Some m" for m
    using a(2) that by (auto simp: in_image_def Let_def block_index_def)
  have "image_read (cur_image v) (addr_pair a) = (0, b)"
    using assms(4) logical_read_eq [OF assms(1) a(1)] by simp
  then have rd: "disk_image_read_sector (cur_image v) buf a = (0, b)"
    using image_read_value [OF dx a(2)] image_read_eq [OF dx a(2) assms(6)] assms(2) m a'
    by (auto simp: errors_known_def list_all_iff split: option.splits if_splits)
  have "image_mode (update_image_mode w) = 0"
    using dx ptr assms(5) cur by (simp add: update_image_mode_def dxx_ok_def same_disk_def)
  then show ?thesis
    using rd a(1) cur same_disk_phy [OF assms(5)] by (simp add: vdrive_read_sector_def Let_def)
qed

subsection \<open>Where the blocks live\<close>

definition bam_home :: "vdrive \<Rightarrow> nat \<Rightarrow> nat \<times> nat" where
  "bam_home v i =
    (case image_format v of
       FORMAT_1571 \<Rightarrow> (if i = 0 then 18 else 18 + num_tracks v div 2, 0)
     | FORMAT_1581 \<Rightarrow> (Bam_Track v, Bam_Sector v + i)
     | FORMAT_8050 \<Rightarrow> [(39, 0), (38, 0), (38, 3)] ! i
     | FORMAT_8250 \<Rightarrow> [(39, 0), (38, 0), (38, 3), (38, 6), (38, 9)] ! i
     | FORMAT_NP \<Rightarrow> (1, 1 + i)
     | _ \<Rightarrow> (18, 0))"

definition bam_blocks :: "vdrive \<Rightarrow> nat" where
  "bam_blocks v = bam_size v div 256"

definition bam_block :: "vdrive \<Rightarrow> nat \<Rightarrow> buffer" where
  "bam_block v i = slice (the (bam v)) (i * 256) 256"

text \<open>The recorded places are the homes; those of a 1581 disk are recomputed on every access.\<close>

definition bam_located :: "vdrive \<Rightarrow> bool" where
  "bam_located v = (length (bam_tracks v) = 33 \<and> length (bam_sectors v) = 33 \<and>
     length (bam_state v) = 33 \<and> bam v \<noteq> None \<and> length (the (bam v)) = bam_size v \<and>
     fixed_layout (image_format v) \<and> bam_size v = layout_size (image_format v) \<and>
     (\<forall>i < bam_blocks v. fst (bam_home v i) < 2 ^ 32 \<and> snd (bam_home v i) < 2 ^ 32) \<and>
     (image_format v \<noteq> FORMAT_1581 \<longrightarrow>
       (\<forall>i < bam_blocks v. (bam_tracks v ! i, bam_sectors v ! i) =
          (int (fst (bam_home v i)), int (snd (bam_home v i))))))"

text \<open>The same homes: what the places of the blocks depend on.\<close>

definition same_homes :: "vdrive \<Rightarrow> vdrive \<Rightarrow> bool" where
  "same_homes v w = (image_format w = image_format v \<and> num_tracks w = num_tracks v \<and>
     bam_size w = bam_size v \<and> Bam_Track w = Bam_Track v \<and> Bam_Sector w = Bam_Sector v \<and>
     bam_id w = bam_id v)"

lemma same_homes_home: "same_homes v w \<Longrightarrow> bam_home w i = bam_home v i"
  by (cases "image_format v") (simp_all add: bam_home_def same_homes_def)

lemma same_homes_blocks: "same_homes v w \<Longrightarrow> bam_blocks w = bam_blocks v"
  by (simp add: same_homes_def bam_blocks_def)

lemma blocks_size: "bam_located v \<Longrightarrow> bam_size v = bam_blocks v * 256"
  and blocks_le: "bam_located v \<Longrightarrow> bam_blocks v \<le> 33"
proof -
  assume "bam_located v"
  then have "bam_size v = layout_size (image_format v)" by (simp add: bam_located_def)
  then show "bam_size v = bam_blocks v * 256" "bam_blocks v \<le> 33"
    by (cases "image_format v"; simp add: layout_size_def bam_blocks_def)+
qed

lemma blocks_pos: "bam_located v \<Longrightarrow> bam_blocks v \<noteq> 0"
proof -
  assume "bam_located v"
  then have "fixed_layout (image_format v)" "bam_size v = layout_size (image_format v)"
    by (simp_all add: bam_located_def)
  then show ?thesis by (cases "image_format v") (simp_all add: layout_defs bam_blocks_def)
qed

lemma block_bound: "bam_located v \<Longrightarrow> i < bam_blocks v \<Longrightarrow> i * 256 + 256 \<le> length (the (bam v))"
proof -
  assume "bam_located v" and i: "i < bam_blocks v"
  then have "length (the (bam v)) = bam_blocks v * 256"
    using blocks_size [of v] unfolding bam_located_def by metis
  with i show ?thesis by simp
qed

lemma length_bam_block: "bam_located v \<Longrightarrow> i < bam_blocks v \<Longrightarrow> length (bam_block v i) = 256"
  using block_bound [of v i] by (simp add: bam_block_def)

definition placed :: "vdrive \<Rightarrow> vdrive" where
  "placed v = (if image_format v = FORMAT_1581 then place_1581 v else v)"

lemma placed_simps [simp]:
  "image_format (placed v) = image_format v" "bam (placed v) = bam v" "bam_size (placed v) = bam_size v"
  "bam_state (placed v) = bam_state v" "num_tracks (placed v) = num_tracks v"
  "Bam_Track (placed v) = Bam_Track v" "Bam_Sector (placed v) = Bam_Sector v"
  "image_ptr (placed v) = image_ptr v" "disk_heap (placed v) = disk_heap v" "haspt (placed v) = haspt v"
  "current_offset (placed v) = current_offset v" "image_mode (placed v) = image_mode v" "ram (placed v) = ram v"
  "bam_id (placed v) = bam_id v"
  "length (bam_tracks (placed v)) = length (bam_tracks v)"
  "length (bam_sectors (placed v)) = length (bam_sectors v)"
  by (simp_all add: placed_def place_1581_def upt_rec)

lemma placed_home:
  assumes "bam_located v" "i < bam_blocks v"
  shows "bam_tracks (placed v) ! i = int (fst (bam_home v i))"
    and "bam_sectors (placed v) ! i = int (snd (bam_home v i))"
proof -
  have "bam_tracks (placed v) ! i = int (fst (bam_home v i)) \<and>
      bam_sectors (placed v) ! i = int (snd (bam_home v i))"
  proof (cases "image_format v = FORMAT_1581")
    case True
    then have "i = 0 \<or> i = 1 \<or> i = 2" "length (bam_tracks v) = 33" "length (bam_sectors v) = 33"
      using assms by (auto simp: bam_located_def bam_blocks_def layout_size_def)
    with True show ?thesis by (auto simp: placed_def place_1581_def bam_home_def upt_rec numeral_2_eq_2)
  next
    case False
    with assms show ?thesis by (simp add: placed_def bam_located_def)
  qed
  then show "bam_tracks (placed v) ! i = int (fst (bam_home v i))"
    "bam_sectors (placed v) ! i = int (snd (bam_home v i))" by auto
qed

lemma placed_located [simp]: "bam_located v \<Longrightarrow> bam_located (placed v)"
  using placed_home [of v] same_homes_home [of v "placed v"]
  by (simp add: bam_located_def bam_blocks_def same_homes_def)

text \<open>Setting the BAM up puts every block at its home.\<close>

lemma foldl_put_block:
  "i < n \<Longrightarrow> n \<le> length (bam_tracks v) \<Longrightarrow> n \<le> length (bam_sectors v) \<Longrightarrow>
    bam_tracks (foldl (\<lambda>v i. put_block i (1, 1 + int i) v) v [0..<n]) ! i = 1 \<and>
    bam_sectors (foldl (\<lambda>v i. put_block i (1, 1 + int i) v) v [0..<n]) ! i = 1 + int i"
  and foldl_put_block_length:
  "length (bam_tracks (foldl (\<lambda>v i. put_block i (1, 1 + int i) v) v [0..<n])) = length (bam_tracks v) \<and>
   length (bam_sectors (foldl (\<lambda>v i. put_block i (1, 1 + int i) v) v [0..<n])) = length (bam_sectors v)"
proof -
  show len: "length (bam_tracks (foldl (\<lambda>v i. put_block i (1, 1 + int i) v) v [0..<n])) = length (bam_tracks v) \<and>
   length (bam_sectors (foldl (\<lambda>v i. put_block i (1, 1 + int i) v) v [0..<n])) = length (bam_sectors v)" for n
    by (induction n) (simp_all add: put_block_def)
  show "i < n \<Longrightarrow> n \<le> length (bam_tracks v) \<Longrightarrow> n \<le> length (bam_sectors v) \<Longrightarrow>
    bam_tracks (foldl (\<lambda>v i. put_block i (1, 1 + int i) v) v [0..<n]) ! i = 1 \<and>
    bam_sectors (foldl (\<lambda>v i. put_block i (1, 1 + int i) v) v [0..<n]) ! i = 1 + int i"
    using len by (induction n) (auto simp: put_block_def nth_list_update less_Suc_eq)
qed

definition fresh_bam :: "(nat \<Rightarrow> byte) \<Rightarrow> vdrive \<Rightarrow> vdrive" where
  "fresh_bam junk v = locate_bam (v\<lparr>bam := (if bam_size v \<noteq> 0 then Some (map junk [0..<bam_size v]) else None),
     bam_state := replicate 33 (-1), bam_tracks := replicate 33 (-1), bam_sectors := replicate 33 (-1)\<rparr>)"

lemma locate_bam_simps [simp]:
  "image_format (locate_bam v) = image_format v" "bam (locate_bam v) = bam v" "bam_size (locate_bam v) = bam_size v"
  "bam_state (locate_bam v) = bam_state v" "num_tracks (locate_bam v) = num_tracks v"
  "Bam_Track (locate_bam v) = Bam_Track v" "Bam_Sector (locate_bam v) = Bam_Sector v"
  "image_ptr (locate_bam v) = image_ptr v" "disk_heap (locate_bam v) = disk_heap v" "haspt (locate_bam v) = haspt v"
  "current_offset (locate_bam v) = current_offset v" "bam_id (locate_bam v) = bam_id v"
  "length (bam_tracks (locate_bam v)) = length (bam_tracks v)"
  "length (bam_sectors (locate_bam v)) = length (bam_sectors v)"
proof -
  have "\<exists>ts ss. foldl (\<lambda>v i. put_block i (1, 1 + int i) v) v [0..<n] = v\<lparr>bam_tracks := ts, bam_sectors := ss\<rparr>" for n
  proof (induction n)
    case 0
    show ?case by (intro exI [of _ "bam_tracks v"] exI [of _ "bam_sectors v"]) simp
  next
    case (Suc n)
    then show ?case by (auto simp: put_block_def) blast
  qed
  then obtain ts ss where "foldl (\<lambda>v i. put_block i (1, 1 + int i) v) v [0..<33] = v\<lparr>bam_tracks := ts, bam_sectors := ss\<rparr>"
    by blast
  moreover from this foldl_put_block_length [of v 33] have "length ts = length (bam_tracks v)" "length ss = length (bam_sectors v)"
    by simp_all
  ultimately show "image_format (locate_bam v) = image_format v" "bam (locate_bam v) = bam v" "bam_size (locate_bam v) = bam_size v"
    "bam_state (locate_bam v) = bam_state v" "num_tracks (locate_bam v) = num_tracks v"
    "Bam_Track (locate_bam v) = Bam_Track v" "Bam_Sector (locate_bam v) = Bam_Sector v"
    "image_ptr (locate_bam v) = image_ptr v" "disk_heap (locate_bam v) = disk_heap v" "haspt (locate_bam v) = haspt v"
    "current_offset (locate_bam v) = current_offset v" "bam_id (locate_bam v) = bam_id v"
    "length (bam_tracks (locate_bam v)) = length (bam_tracks v)"
    "length (bam_sectors (locate_bam v)) = length (bam_sectors v)"
    by (simp_all add: locate_bam_def put_block_def split: image_format.split)
qed

lemma locate_bam_home:
  assumes "fixed_layout (image_format v)" "image_format v \<noteq> FORMAT_1581" "i < layout_size (image_format v) div 256"
    "length (bam_tracks v) = 33" "length (bam_sectors v) = 33"
  shows "bam_tracks (locate_bam v) ! i = int (fst (bam_home v i)) \<and>
    bam_sectors (locate_bam v) ! i = int (snd (bam_home v i))"
proof (cases "image_format v = FORMAT_NP")
  case True
  then show ?thesis
    using assms foldl_put_block [of i 33 v] by (simp add: locate_bam_def bam_home_def layout_size_def)
next
  case False
  have "i = 0 \<or> i = 1 \<or> i = 2 \<or> i = 3 \<or> i = 4"
    using assms(1,3) False by (cases "image_format v") (auto simp: layout_size_def fixed_layout_def)
  then show ?thesis
    using assms False
    by (cases "image_format v"; elim disjE)
      (simp_all add: locate_bam_def put_block_def bam_home_def layout_size_def fixed_layout_def)
qed

lemma fresh_bam_located:
  assumes "bam_located v"
  shows "bam_located (fresh_bam junk v)"
proof -
  let ?v = "v\<lparr>bam := (if bam_size v \<noteq> 0 then Some (map junk [0..<bam_size v]) else None),
     bam_state := replicate 33 (-1), bam_tracks := replicate 33 (-1), bam_sectors := replicate 33 (-1)\<rparr>"
  have v: "fixed_layout (image_format v)" "bam_size v = layout_size (image_format v)"
    "\<forall>i < bam_blocks v. fst (bam_home v i) < 2 ^ 32 \<and> snd (bam_home v i) < 2 ^ 32"
    using assms unfolding bam_located_def by blast+
  have sz: "layout_size (image_format v) \<noteq> 0" using v(1) by (auto simp: layout_defs)
  have hm: "bam_home ?v i = bam_home v i" "bam_home (locate_bam ?v) i = bam_home v i" for i
    using same_homes_home [of v ?v i] same_homes_home [of v "locate_bam ?v" i] by (simp_all add: same_homes_def)
  have "bam_tracks (locate_bam ?v) ! i = int (fst (bam_home v i)) \<and>
      bam_sectors (locate_bam ?v) ! i = int (snd (bam_home v i))"
    if "image_format v \<noteq> FORMAT_1581" "i < layout_size (image_format v) div 256" for i
    using locate_bam_home [of ?v i] that v(1) hm(1) by simp
  then show ?thesis
    unfolding bam_located_def fresh_bam_def hm
    using v sz by (simp add: bam_blocks_def)
qed

subsection \<open>Flushing\<close>

text \<open>A drive whose BAM belongs to its disk: located, with valid homes that are all different.\<close>

definition bam_attached :: "vdrive \<Rightarrow> bool" where
  "bam_attached v = (drive_ok v \<and> errors_known (cur_image v) \<and> bam_located v \<and>
     inj_on (bam_home v) {..<bam_blocks v} \<and> (\<forall>i < bam_blocks v. logical_valid v (bam_home v i)))"

text \<open>Every clean block equals its sector.\<close>

definition bam_synced :: "vdrive \<Rightarrow> bool" where
  "bam_synced v = (\<forall>i < bam_blocks v. bam_state v ! i = 0 \<longrightarrow>
     logical_read v (bam_home v i) = (0, bam_block v i))"

lemma write_sector_ok:
  assumes "drive_ok v" "logical_valid v (t, s)" "length b = 256"
  shows "vdrive_write_sector v b t s = (0, logical_write v (t, s) b)"
proof -
  obtain a where a: "vdrive_log_to_phy v t s = Some a" "in_image (cur_image v) (addr_pair a)"
    using assms(2) by (auto simp: logical_valid_def split: option.splits)
  have "fst (disk_image_write_sector (cur_image v) b a) = 0"
    using image_write_eq [OF _ a(2) assms(3)] assms(1)
    by (cases a) (simp add: drive_ok_def addr_pair_def)
  then show ?thesis using write_sector_eq [OF assms(1) a(1)] by (simp add: logical_write_def)
qed

lemma logical_write_simps:
  assumes "drive_ok v" "logical_valid v ts" "length b = 256"
  shows "bam (logical_write v ts b) = bam v" "bam_state (logical_write v ts b) = bam_state v"
    "bam_tracks (logical_write v ts b) = bam_tracks v" "bam_sectors (logical_write v ts b) = bam_sectors v"
    "same_homes v (logical_write v ts b)"
    "errors_known (cur_image v) \<Longrightarrow> errors_known (cur_image (logical_write v ts b))"
proof -
  obtain t s a where ts: "ts = (t, s)" and a: "vdrive_log_to_phy v t s = Some a" "in_image (cur_image v) (addr_pair a)"
    using assms(2) by (cases ts) (auto simp: logical_valid_def split: option.splits)
  note w = logical_write_eq [OF assms(1) a(1), of b]
  show "bam (logical_write v ts b) = bam v" "bam_state (logical_write v ts b) = bam_state v"
    "bam_tracks (logical_write v ts b) = bam_tracks v" "bam_sectors (logical_write v ts b) = bam_sectors v"
    by (simp_all add: ts w)
  have "Bam_Track (set_cur_image i x) = Bam_Track x" "Bam_Sector (set_cur_image i x) = Bam_Sector x"
    "bam_id (set_cur_image i x) = bam_id x" for i x
    by (simp_all add: set_cur_image_def)
  then show "same_homes v (logical_write v ts b)"
    by (simp add: ts w same_homes_def update_image_mode_def)
  show "errors_known (cur_image v) \<Longrightarrow> errors_known (cur_image (logical_write v ts b))"
    using errors_known_write [OF _ a(2) assms(3)] logical_write_keeps(1) [OF assms(1) a assms(3)] assms(1) ts
    by (simp add: drive_ok_def)
qed

lemma located_same_homes:
  assumes "bam_located v" "same_homes v w" "bam w \<noteq> None" "length (the (bam w)) = length (the (bam v))"
    "length (bam_state w) = 33" "bam_tracks w = bam_tracks v" "bam_sectors w = bam_sectors v"
  shows "bam_located w"
proof -
  have "image_format w = image_format v" "bam_size w = bam_size v" "bam_blocks w = bam_blocks v"
    using assms(2) by (simp_all add: same_homes_def bam_blocks_def)
  then show ?thesis
    using assms(1,3-7) unfolding bam_located_def same_homes_home [OF assms(2)] by simp
qed

lemma same_disk_read:
  assumes "same_disk v w" "image_mode w = image_mode v"
  shows "logical_read w = logical_read v" "logical_valid w = logical_valid v" "cur_image w = cur_image v"
proof -
  show cur: "cur_image w = cur_image v" using assms(1) by (simp add: cur_image_def same_disk_def)
  show "logical_valid w = logical_valid v"
    unfolding logical_valid_def [abs_def] cur same_disk_phy [OF assms(1)] ..
  have "image_mode (update_image_mode w) = image_mode (update_image_mode v)"
    using assms cur by (simp add: update_image_mode_def same_disk_def)
  then show "logical_read w = logical_read v"
    unfolding logical_read_def [abs_def] vdrive_read_sector_def Let_def update_image_mode_simps
      update_image_mode_log cur same_disk_phy [OF assms(1)]
    by (intro ext) (simp add: case_prod_beta split: option.split)
qed

lemma drive_ok_mark [simp]:
  "drive_ok (bam_mark i x v) = drive_ok v" "logical_read (bam_mark i x v) = logical_read v"
  "logical_valid (bam_mark i x v) = logical_valid v" "cur_image (bam_mark i x v) = cur_image v"
proof -
  have sd: "same_disk v (bam_mark i x v)" "image_mode (bam_mark i x v) = image_mode v"
    by (simp_all add: same_disk_def bam_mark_def)
  note rd = same_disk_read [OF sd]
  show "logical_read (bam_mark i x v) = logical_read v" "logical_valid (bam_mark i x v) = logical_valid v"
    "cur_image (bam_mark i x v) = cur_image v" by (simp_all add: rd)
  show "drive_ok (bam_mark i x v) = drive_ok v"
    by (simp add: drive_ok_def rd) (simp add: bam_mark_def partition_ok_def dos_version_ok_def VDRIVE_IS_1541_def cur_image_def)
qed

text \<open>One dirty block written and marked clean.\<close>

lemma flush_block:
  assumes "bam_attached v" "i < bam_blocks v"
  defines "w \<equiv> bam_mark i 0 (logical_write v (bam_home v i) (bam_block v i))"
  shows "bam_attached w" "same_homes v w" "bam w = bam v" "bam_state w = (bam_state v)[i := 0]"
    "bam_tracks w = bam_tracks v" "bam_sectors w = bam_sectors v" "logical_valid w = logical_valid v"
    and "logical_valid v a \<Longrightarrow> logical_read w a = (if a = bam_home v i then (0, bam_block v i) else logical_read v a)"
proof -
  let ?u = "logical_write v (bam_home v i) (bam_block v i)"
  have ok: "drive_ok v" "errors_known (cur_image v)" "bam_located v" "inj_on (bam_home v) {..<bam_blocks v}"
    and val: "\<And>j. j < bam_blocks v \<Longrightarrow> logical_valid v (bam_home v j)"
    using assms(1) by (auto simp: bam_attached_def)
  have len: "length (bam_block v i) = 256" using ok(3) assms(2) by (rule length_bam_block)
  note s = logical_write_simps [OF ok(1) val [OF assms(2)] len]
  show b: "bam w = bam v" "bam_state w = (bam_state v)[i := 0]" "bam_tracks w = bam_tracks v"
    "bam_sectors w = bam_sectors v"
    by (simp_all add: w_def s) (simp_all add: bam_mark_def s)
  show h: "same_homes v w" using s(5) by (simp add: w_def same_homes_def bam_mark_def)
  show lv: "logical_valid w = logical_valid v"
    using ok(1) val [OF assms(2)] len by (intro ext) (simp add: w_def logical.write_valid)
  have loc: "bam_located w"
    using ok(3) by (intro located_same_homes [OF ok(3) h]) (simp_all add: b bam_located_def)
  have "bam_blocks w = bam_blocks v" using h by (simp add: same_homes_def bam_blocks_def)
  with loc show "bam_attached w"
    unfolding bam_attached_def lv same_homes_home [OF h]
    using ok val len assms(2) s(6) by (simp add: w_def logical.write_invar)
  show "logical_valid v a \<Longrightarrow> logical_read w a = (if a = bam_home v i then (0, bam_block v i) else logical_read v a)"
    using ok(1) val [OF assms(2)] len by (simp add: w_def logical.read_write)
qed

lemma same_homes_trans: "same_homes u v \<Longrightarrow> same_homes v w \<Longrightarrow> same_homes u w"
  by (simp add: same_homes_def)

definition flushed :: "nat \<Rightarrow> vdrive \<Rightarrow> vdrive \<Rightarrow> bool" where
  "flushed i v w = (bam_attached w \<and> same_homes v w \<and> bam w = bam v \<and> bam_synced w \<and>
     (\<forall>j < i. bam_state w ! j = bam_state v ! j) \<and>
     (\<forall>j < bam_blocks v. i \<le> j \<longrightarrow> bam_state w ! j = 0) \<and> logical_valid w = logical_valid v \<and>
     (\<forall>a. logical_valid v a \<longrightarrow> a \<notin> bam_home v ` {..<bam_blocks v} \<longrightarrow> logical_read w a = logical_read v a))"

definition at_home :: "vdrive \<Rightarrow> bool" where
  "at_home v = (\<forall>i < bam_blocks v. c_unsigned (bam_tracks v ! i) = fst (bam_home v i) \<and>
     c_unsigned (bam_sectors v ! i) = snd (bam_home v i))"

lemma flush_block_synced:
  assumes "bam_attached v" "bam_synced v" "i < bam_blocks v"
  shows "bam_synced (bam_mark i 0 (logical_write v (bam_home v i) (bam_block v i)))" (is "bam_synced ?w")
proof -
  note f = flush_block [OF assms(1,3)]
  have bl: "bam_blocks ?w = bam_blocks v" using f(2) by (rule same_homes_blocks)
  have len: "length (bam_state v) = 33" "bam_blocks v \<le> 33"
    using assms(1) blocks_le by (auto simp: bam_attached_def bam_located_def)
  have blk: "bam_block ?w j = bam_block v j" for j using f(3) by (simp add: bam_block_def)
  have "bam_home v j = bam_home v i \<longleftrightarrow> j = i" "logical_valid v (bam_home v j)" if "j < bam_blocks v" for j
    using assms(1,3) that by (auto simp: bam_attached_def inj_on_def)
  then show ?thesis
    using assms(2,3) len f(8) unfolding bam_synced_def bl blk same_homes_home [OF f(2)]
    by (auto simp: f(4) nth_list_update)
qed

lemma flush_step:
  assumes "bam_attached v" "i < bam_blocks v"
    "flushed (Suc i) (bam_mark i 0 (logical_write v (bam_home v i) (bam_block v i))) x"
  shows "flushed i v x"
proof -
  let ?w = "bam_mark i 0 (logical_write v (bam_home v i) (bam_block v i))"
  note f = flush_block [OF assms(1,2)]
  have bl: "bam_blocks ?w = bam_blocks v" using f(2) by (rule same_homes_blocks)
  have "length (bam_state v) = 33" "bam_blocks v \<le> 33"
    using assms(1) blocks_le by (auto simp: bam_attached_def bam_located_def)
  then have "bam_state ?w ! i = 0" using f(4) assms(2) by simp
  then show ?thesis
    using assms(2,3) f same_homes_trans [OF f(2)]
    by (auto simp: flushed_def bl same_homes_home [OF f(2)] Suc_le_eq dest: le_imp_less_or_eq)
qed

lemma write_loop_flushes:
  assumes "bam_attached v" "at_home v" "bam_synced v" "i + n = bam_blocks v"
    "\<forall>j < bam_blocks v. 0 \<le> bam_state v ! j"
  shows "\<exists>w. write_bam_loop v i n 0 = (0, w) \<and> flushed i v w"
  using assms
proof (induction n arbitrary: v i)
  case 0
  then show ?case by (simp add: flushed_def same_homes_def)
next
  case (Suc n)
  have i: "i < bam_blocks v" using Suc.prems(4) by simp
  have at: "c_unsigned (bam_tracks v ! i) = fst (bam_home v i)" "c_unsigned (bam_sectors v ! i) = snd (bam_home v i)"
    using Suc.prems(2) i by (auto simp: at_home_def)
  have len: "bam_blocks v \<le> length (bam_state v)"
    using Suc.prems(1) blocks_le by (auto simp: bam_attached_def bam_located_def)
  show ?case
  proof (cases "bam_state v ! i > 0")
    case True
    let ?w = "bam_mark i 0 (logical_write v (bam_home v i) (bam_block v i))"
    note f = flush_block [OF Suc.prems(1) i]
    have bl: "bam_blocks ?w = bam_blocks v" using f(2) by (rule same_homes_blocks)
    have "vdrive_write_sector v (bam_block v i) (fst (bam_home v i)) (snd (bam_home v i)) =
        (0, logical_write v (bam_home v i) (bam_block v i))"
      using Suc.prems(1) i write_sector_ok [of v _ _ "bam_block v i"] length_bam_block [of v i]
      by (auto simp: bam_attached_def)
    then have "write_bam_loop v i (Suc n) 0 = write_bam_loop ?w (Suc i) n 0"
      using True at by (simp add: bam_block_def)
    moreover have "at_home ?w"
      using Suc.prems(2) unfolding at_home_def bl same_homes_home [OF f(2)] f(5,6) .
    moreover have "\<forall>j < bam_blocks ?w. 0 \<le> bam_state ?w ! j"
      using Suc.prems(5) i bl f(4) len by (auto simp: nth_list_update)
    ultimately show ?thesis
      using Suc.IH [of ?w "Suc i"] f(1) flush_step [OF Suc.prems(1) i] Suc.prems(4) bl
        flush_block_synced [OF Suc.prems(1,3) i] by force
  next
    case False
    then have "bam_state v ! i = 0" using Suc.prems(5) i by force
    with False Suc.IH [of v "Suc i"] Suc.prems show ?thesis
      by (auto simp: flushed_def less_Suc_eq Suc_le_eq dest!: le_imp_less_or_eq)
  qed
qed

lemma placed_same: "same_homes v (placed v)" "same_disk v (placed v)" "same_disk (placed v) v"
  by (simp_all add: same_homes_def same_disk_def)

lemma placed_attached:
  assumes "bam_attached v"
  shows "bam_attached (placed v)" "at_home (placed v)" "bam_synced (placed v) = bam_synced v"
proof -
  note rd = same_disk_read [OF placed_same(2) placed_simps(12)] and hm = same_homes_home [OF placed_same(1)]
  have bl: "bam_blocks (placed v) = bam_blocks v" "bam_block (placed v) i = bam_block v i" for i
    by (simp_all add: bam_blocks_def bam_block_def)
  have "dos_version_ok (placed v) = dos_version_ok v" "partition_ok (placed v) = partition_ok v"
    by (simp_all add: dos_version_ok_def partition_ok_def VDRIVE_IS_1541_def rd)
  then show "bam_attached (placed v)"
    using assms unfolding bam_attached_def hm rd bl drive_ok_def by simp
  show "bam_synced (placed v) = bam_synced v"
    unfolding bam_synced_def hm rd bl placed_simps ..
  have loc: "bam_located v" using assms by (simp add: bam_attached_def)
  have "\<forall>i < bam_blocks v. fst (bam_home v i) < 2 ^ 32 \<and> snd (bam_home v i) < 2 ^ 32"
    using loc unfolding bam_located_def by blast
  then show "at_home (placed v)"
    unfolding at_home_def hm bl using placed_home [OF loc] by simp
qed

text \<open>Flushing the whole BAM.\<close>

lemma write_bam_flushes:
  assumes "bam_attached v" "bam_synced v" "\<forall>j < bam_blocks v. 0 \<le> bam_state v ! j"
  shows "\<exists>w. vdrive_bam_write_bam v = (0, w) \<and> flushed 0 v w"
proof -
  let ?v = "placed v"
  have bl: "bam_blocks ?v = bam_blocks v" by (simp add: bam_blocks_def)
  have "\<exists>w. write_bam_loop ?v 0 (bam_blocks v) 0 = (0, w) \<and> flushed 0 ?v w"
    using write_loop_flushes [of ?v 0 "bam_blocks v"] placed_attached [OF assms(1)] assms(2,3) bl by simp
  moreover have "flushed 0 ?v = flushed 0 v"
    using same_disk_read [OF placed_same(2) placed_simps(12)] same_homes_home [OF placed_same(1)] bl
    by (intro ext) (simp add: flushed_def same_homes_def)
  moreover have "vdrive_bam_write_bam v = write_bam_loop ?v 0 (bam_blocks v) 0"
  proof -
    have "fixed_layout (image_format v)" "bam v \<noteq> None"
      using assms(1) by (simp_all add: bam_attached_def bam_located_def)
    then show ?thesis
      unfolding vdrive_bam_write_bam_def placed_def [symmetric]
      by (auto simp: bam_blocks_def fixed_layout_def Let_def)
  qed
  ultimately show ?thesis by simp
qed

subsection \<open>Reloading\<close>

text \<open>A drive that sees the disk of \<open>v\<close> and has every block it has loaded as in \<open>v\<close>.\<close>

definition reloading :: "vdrive \<Rightarrow> vdrive \<Rightarrow> bool" where
  "reloading v u = (same_disk v u \<and> same_homes v u \<and> bam_located u \<and>
     (\<forall>i < bam_blocks v. 0 \<le> bam_state u ! i \<longrightarrow> bam_block u i = bam_block v i))"

lemma reload_block:
  fixes v u :: vdrive and i :: nat and r :: "byte list"
  assumes "reloading v u" "i < bam_blocks v" "length (bam_block v i) = 256"
  defines "w \<equiv> bam_mark i 0 ((update_image_mode (placed u))
    \<lparr>bam := Some (write_at (the (bam u)) (i * 256) (bam_block v i)), ram := r\<rparr>)"
  shows "reloading v w" "bam_state w = (bam_state u)[i := 0]" "bam_id w = bam_id u"
proof -
  have u: "same_disk v u" "same_homes v u" "bam_located u" using assms(1) by (simp_all add: reloading_def)
  have bl: "bam_blocks u = bam_blocks v" using u(2) by (rule same_homes_blocks)
  show st: "bam_state w = (bam_state u)[i := 0]" and "bam_id w = bam_id u"
    by (simp_all add: w_def bam_mark_def update_image_mode_def)
  have sh: "same_homes (placed u) w" "same_homes v w" "same_disk v w"
    using u by (simp_all add: w_def same_homes_def same_disk_def bam_mark_def update_image_mode_def)
  have bnd: "i * 256 + 256 \<le> length (the (bam u))" using block_bound [OF u(3), of i] assms(2) bl by simp
  have len: "length (bam_state u) = 33" "bam_blocks v \<le> 33"
    using u(3) blocks_le [OF u(3)] bl by (simp_all add: bam_located_def)
  have loc: "bam_located w"
    using len bnd assms(3) u(3)
    by (intro located_same_homes [OF _ sh(1)]) (simp_all add: st, simp_all add: w_def bam_mark_def)
  have "bam_block w j = (if j = i then bam_block v i else bam_block u j)" if "j < bam_blocks v" for j
  proof (cases "j = i")
    case True
    then show ?thesis
      using bnd assms(3) slice_write_at_same [of "i * 256" "bam_block v i" "the (bam u)"]
      by (simp add: w_def bam_block_def)
  next
    case False
    then have "i * 256 + 256 \<le> j * 256 \<or> j * 256 + 256 \<le> i * 256" by arith
    then show ?thesis
      using False bnd assms(3) block_bound [OF u(3), of j] that bl
        slice_write_at_other [of "i * 256" "bam_block v i" "the (bam u)" "j * 256" 256]
      by (auto simp: w_def bam_block_def)
  qed
  then show "reloading v w"
    using sh loc assms(1,2) len by (auto simp: reloading_def st nth_list_update)
qed

lemma load_block_reloading:
  assumes "bam_attached v" "reloading v u" "i < bam_blocks v"
    "logical_read v (bam_home v i) = (0, bam_block v i)"
  shows "\<exists>w. load_bam_block u i e = (0, w) \<and> reloading v w \<and> bam_state w = (bam_state u)[i := 0] \<and>
    bam_id w = bam_id u"
proof -
  let ?b = "bam_block v i" and ?u = "placed u"
  let ?w = "\<lambda>r. (update_image_mode ?u)\<lparr>bam := Some (write_at (the (bam u)) (i * 256) ?b), ram := r\<rparr>"
  have u: "same_disk v u" "same_homes v u" "bam_located u" using assms(2) by (simp_all add: reloading_def)
  have bl: "bam_blocks u = bam_blocks v" using u(2) by (rule same_homes_blocks)
  have len: "length ?b = 256" using assms(1,3) by (auto simp: bam_attached_def length_bam_block)
  have fmt: "image_format u \<notin> {FORMAT_SYS, FORMAT_NONE}"
    using u(3) by (auto simp: bam_located_def fixed_layout_def)
  have lt: "fst (bam_home v i) < 2 ^ 32" "snd (bam_home v i) < 2 ^ 32"
    using assms(1,3) unfolding bam_attached_def bam_located_def by blast+
  have "vdrive_read_sector ?u (bam_block u i) (fst (bam_home v i)) (snd (bam_home v i)) =
      (0, update_image_mode ?u, ?b)"
    using assms(1,3,4) u bl by (intro read_any_buffer [of v])
      (auto simp: bam_attached_def same_disk_def length_bam_block)
  then have "load_bam_block u i e = (0, bam_mark i 0 (?w (if image_format u = FORMAT_1541
      then write_at (ram (update_image_mode ?u)) 0x700 (take 256 (write_at (the (bam u)) (i * 256) ?b))
      else ram (update_image_mode ?u))))"
    using fmt placed_home [OF u(3), of i] assms(3) lt
    unfolding load_bam_block_def placed_def [symmetric]
    by (simp add: bl same_homes_home [OF u(2)] bam_block_def Let_def)
  then show ?thesis using reload_block [OF assms(2,3) len] by blast
qed

text \<open>Reading all blocks gives back the whole BAM.\<close>

lemma read_block_reloading:
  assumes "bam_attached v" "reloading v u" "i < bam_blocks v"
    "logical_read v (bam_home v i) = (0, bam_block v i)"
  shows "\<exists>w. vdrive_bam_read_bam_block u i = (0, w) \<and> reloading v w \<and> 0 \<le> bam_state w ! i \<and>
    (\<forall>j < 33. 0 \<le> bam_state u ! j \<longrightarrow> 0 \<le> bam_state w ! j) \<and> bam_id w = bam_id u"
proof -
  have u: "bam_located u" "same_homes v u" using assms(2) by (simp_all add: reloading_def)
  have i: "i < 33" "length (bam_state u) = 33"
    using blocks_le [OF u(1)] same_homes_blocks [OF u(2)] assms(3) u(1) by (simp_all add: bam_located_def)
  have fmt: "image_format u \<noteq> FORMAT_9000" using u(1) by (auto simp: bam_located_def fixed_layout_def)
  show ?thesis
  proof (cases "0 \<le> bam_state u ! i")
    case True
    then show ?thesis using i assms(2) by (subst vdrive_bam_read_bam_block.simps) simp
  next
    case False
    obtain w where w: "load_bam_block u i (-1) = (0, w)" "reloading v w" "bam_state w = (bam_state u)[i := 0]"
      "bam_id w = bam_id u"
      using load_block_reloading [OF assms] by blast
    have "vdrive_bam_read_bam_block u i = (0, w)"
      using False i fmt w(1) by (subst vdrive_bam_read_bam_block.simps) simp
    with w i show ?thesis by (auto simp: nth_list_update)
  qed
qed

lemma read_loop_reloading:
  assumes "bam_attached v" "reloading v u" "i + n = bam_blocks v"
    "\<forall>j < bam_blocks v. logical_read v (bam_home v j) = (0, bam_block v j)" "\<forall>j < i. 0 \<le> bam_state u ! j"
  shows "\<exists>w. fst (read_bam_loop u i n e) = (if n = 0 then e else 0) \<and> snd (read_bam_loop u i n e) = w \<and>
    reloading v w \<and> (\<forall>j < bam_blocks v. 0 \<le> bam_state w ! j)"
  using assms(2,3,5)
proof (induction n arbitrary: u i e)
  case (Suc n)
  obtain w where w: "vdrive_bam_read_bam_block u i = (0, w)" "reloading v w" "0 \<le> bam_state w ! i"
    "\<forall>j < 33. 0 \<le> bam_state u ! j \<longrightarrow> 0 \<le> bam_state w ! j"
    using read_block_reloading [OF assms(1) Suc.prems(1), of i] assms(4) Suc.prems(2) by auto
  have "bam_blocks v \<le> 33" using assms(1) blocks_le by (simp add: bam_attached_def)
  then have "\<forall>j < Suc i. 0 \<le> bam_state w ! j" using w Suc.prems(2,3) by (auto simp: less_Suc_eq)
  with Suc.IH [of w "Suc i" 0] Suc.prems(2) w show ?case by simp
qed simp

lemma slices_eq:
  assumes "length xs = k * 256" "length ys = k * 256" "\<And>j. j < k \<Longrightarrow> slice xs (j * 256) 256 = slice ys (j * 256) 256"
  shows "xs = ys"
proof (rule nth_equalityI)
  fix i assume i: "i < length xs"
  then have j: "i div 256 < k" using assms(1) by (simp add: less_mult_imp_div_less)
  then have "i div 256 * 256 + 256 \<le> k * 256" by simp
  then have "slice xs (i div 256 * 256) 256 ! (i mod 256) = xs ! i"
    "slice ys (i div 256 * 256) 256 ! (i mod 256) = ys ! i"
    using assms(1,2) by (simp_all add: nth_slice)
  with assms(3) [OF j] show "xs ! i = ys ! i" by simp
qed (simp add: assms)

lemma reloading_all:
  assumes "bam_attached v" "reloading v u" "\<forall>j < bam_blocks v. 0 \<le> bam_state u ! j"
  shows "bam u = bam v"
proof -
  have v: "bam_located v" and u: "bam_located u" "same_homes v u"
    using assms(1,2) by (simp_all add: bam_attached_def reloading_def)
  have "the (bam u) = the (bam v)"
  proof (rule slices_eq [where k = "bam_blocks v"])
    show "length (the (bam u)) = bam_blocks v * 256" "length (the (bam v)) = bam_blocks v * 256"
      using u(1) v blocks_size [OF u(1)] blocks_size [OF v] same_homes_blocks [OF u(2)]
      unfolding bam_located_def by metis+
    show "slice (the (bam u)) (j * 256) 256 = slice (the (bam v)) (j * 256) 256" if "j < bam_blocks v" for j
      using assms(2,3) that by (simp add: reloading_def bam_block_def)
  qed
  moreover have "bam u \<noteq> None" "bam v \<noteq> None" using u(1) v by (simp_all add: bam_located_def)
  ultimately show ?thesis by auto
qed

lemma setup_reloading:
  assumes "bam_attached v" "bam_id v < bam_size v"
    "\<forall>j < bam_blocks v. logical_read v (bam_home v j) = (0, bam_block v j)"
  shows "reloading v (vdrive_bam_setup_bam junk v)"
proof -
  let ?u = "fresh_bam junk v" and ?i = "bam_id v div 256"
  have loc: "bam_located v" using assms(1) by (simp add: bam_attached_def)
  have st: "bam_state ?u = replicate 33 (-1)" and bid: "bam_id ?u = bam_id v"
    by (simp_all add: fresh_bam_def)
  have "\<not> 0 \<le> bam_state ?u ! i" if "i < bam_blocks v" for i
    using that blocks_le [OF loc] by (simp add: st)
  then have u: "reloading v ?u"
    using fresh_bam_located [OF loc, of junk]
    by (auto simp: reloading_def) (auto simp: fresh_bam_def same_disk_def same_homes_def)
  have "?i < bam_blocks v"
    using assms(2) blocks_size [OF loc] by (simp add: less_mult_imp_div_less)
  then obtain w where w: "vdrive_bam_read_bam_block ?u ?i = (0, w)" "reloading v w"
    using read_block_reloading [OF assms(1) u] assms(3) by blast
  have lw: "bam_located w" using w(2) by (simp add: reloading_def)
  have "bam_located (w\<lparr>ram := r\<rparr>)" for r
    using lw by (intro located_same_homes [OF lw]) (simp_all add: same_homes_def, simp_all add: bam_located_def)
  then have "reloading v (w\<lparr>ram := r\<rparr>)" for r
    using w(2) by (simp add: reloading_def same_disk_def same_homes_def bam_block_def)
  with u w(1) show ?thesis
    unfolding vdrive_bam_setup_bam_def fresh_bam_def [symmetric] Let_def vdrive_bam_int_get_disk_id_def
    by (simp add: fresh_bam_def [symmetric] bid)
qed

subsection \<open>Allocating marks what it changes\<close>

text \<open>The blocks of a drive after a change: a block still clean was clean before.\<close>

definition marks :: "vdrive \<Rightarrow> vdrive \<Rightarrow> nat set \<Rightarrow> bool" where
  "marks v w ps = (length (bam_state w) = length (bam_state v) \<and>
     (\<forall>j < length (bam_state v). bam_state w ! j = (if j \<in> ps then 1 else bam_state v ! j)))"

lemma marks_mark: "marks v w ps \<Longrightarrow> marks v (bam_mark p 1 w) (insert p ps)"
  by (cases "p < length (bam_state w)") (auto simp: marks_def bam_mark_def nth_list_update list_update_beyond)

lemma marks_put [simp]: "marks v (bam_put i x w) ps = marks v w ps"
  by (simp add: marks_def)

lemma marks_refl: "marks v v {}"
  by (simp add: marks_def)

lemma sector_free_marks:
  assumes "bam_loaded w" "fixed_layout (image_format w)" "bam_size w = layout_size (image_format w)"
    "1 \<le> t" "t \<le> entry_tracks (image_format w)" "marks v w ps"
  shows "\<exists>qs. marks v (vdrive_bam_sector_free w (entry_at (image_format w) t) t add) (ps \<union> qs) \<and>
    (\<forall>c. count_at (image_format w) t = Some c \<longrightarrow> c div 256 \<in> qs)"
proof -
  let ?e = "entry_at (image_format w) t" and ?c = "221 + t - 35 - 1"
  have e: "?e < bam_size w" using entry_at_bound assms by simp
  note rd = read_bam_block_at [OF assms(1) e]
  consider (np) "image_format w = FORMAT_NP" | (side2) "image_format w = FORMAT_1571" "t > 35"
    | (side1) "image_format w = FORMAT_1571" "t \<le> 35"
    | (rest) "image_format w \<notin> {FORMAT_NP, FORMAT_1571}" by (cases "t \<le> 35") auto
  then show ?thesis
  proof cases
    case np
    then show ?thesis
      using assms(6) by (auto simp: vdrive_bam_sector_free_def count_at_def Let_def intro: exI [of _ "{}"])
  next
    case side2
    then have "?c < bam_size w" using assms(3,5) by (auto simp: layout_size_def entry_tracks_def)
    then have "vdrive_bam_read_bam_block (bam_mark (?e div 256) 1 w) (?c div 256) =
        (CBMDOS_IPE_OK, bam_mark (?e div 256) 1 w)"
      using assms(1) by (intro read_bam_block_at) simp_all
    then have "vdrive_bam_sector_free w ?e t add = bam_mark (?c div 256) 1
        (bam_put ?c (bam_byte w ?c + word_of_int add) (bam_mark (?e div 256) 1 w))"
      using side2 rd by (simp add: vdrive_bam_sector_free_def Let_def)
    moreover have "count_at (image_format w) t = Some ?c" using side2 by (simp add: count_at_def)
    ultimately show ?thesis
      using marks_mark [OF marks_mark [OF assms(6)], of "?c div 256" "?e div 256"]
      by (intro exI [of _ "{?c div 256, ?e div 256}"]) (simp add: insert_commute marks_def bam_mark_def)
  next
    case side1
    then have "vdrive_bam_sector_free w ?e t add =
        bam_put ?e (bam_byte w ?e + word_of_int add) (bam_mark (?e div 256) 1 w)"
      "count_at (image_format w) t = Some ?e"
      using rd by (simp_all add: vdrive_bam_sector_free_def Let_def count_at_def)
    then show ?thesis using marks_mark [OF assms(6), of "?e div 256"] by (intro exI [of _ "{?e div 256}"]) simp
  next
    case rest
    then have "vdrive_bam_sector_free w ?e t add =
        bam_mark (?e div 256) 1 (bam_put ?e (bam_byte w ?e + word_of_int add) w)"
      "count_at (image_format w) t = Some ?e"
      using rd assms(2) by (auto simp: vdrive_bam_sector_free_def Let_def count_at_def fixed_layout_def)
    then show ?thesis
      using marks_mark [of v "bam_put ?e (bam_byte w ?e + word_of_int add) w" ps "?e div 256"] assms(6)
      by (intro exI [of _ "{?e div 256}"]) simp
  qed
qed

lemma changed_bit_marks:
  assumes "bam_ok v" "bam_addr v (t, s)"
  shows "\<exists>qs. marks v (changed_bit v t s x add) qs \<and> (\<forall>j. j div 256 \<notin> qs \<longrightarrow>
    bam_byte (changed_bit v t s x add) j = bam_byte v j)"
proof -
  let ?f = "image_format v" and ?q = "byte_at (image_format v) t s"
  let ?u = "bam_mark (?q div 256) 1 (bam_put ?q x v)"
  have v: "bam_loaded v" "fixed_layout ?f" "bam_size v = layout_size ?f" and t: "1 \<le> t" "t \<le> entry_tracks ?f"
    using assms by (auto simp: bam_ok_def bam_addr_def)
  have "marks v ?u {?q div 256}" using marks_mark [of v "bam_put ?q x v" "{}"] marks_refl by simp
  then obtain qs where qs: "marks v (changed_bit v t s x add) ({?q div 256} \<union> qs)"
    "\<forall>c. count_at ?f t = Some c \<longrightarrow> c div 256 \<in> qs"
    using sector_free_marks [of ?u t v "{?q div 256}" add] v t by (auto simp: changed_bit_def)
  then show ?thesis
    using changed_bit_effect(3) [OF assms, of x add] by (intro exI [of _ "{?q div 256} \<union> qs"]) auto
qed

lemma same_drive_disk:
  assumes "same_drive v w"
  shows "same_disk v w" "image_mode w = image_mode v" "same_homes v w"
proof -
  have "w\<lparr>bam := bam v, bam_state := bam_state v\<rparr> = v" using assms by (simp add: same_drive_def)
  then have "image_mode (w\<lparr>bam := bam v, bam_state := bam_state v\<rparr>) = image_mode v"
    "Bam_Track (w\<lparr>bam := bam v, bam_state := bam_state v\<rparr>) = Bam_Track v"
    "Bam_Sector (w\<lparr>bam := bam v, bam_state := bam_state v\<rparr>) = Bam_Sector v"
    "bam_id (w\<lparr>bam := bam v, bam_state := bam_state v\<rparr>) = bam_id v" by simp_all
  then show "same_disk v w" "image_mode w = image_mode v" "same_homes v w"
    using same_drive_keeps [OF assms] by (simp_all add: same_disk_def same_homes_def)
qed

text \<open>No format keeps a bit or a count in the DOS version byte.\<close>

lemma version_byte_kept:
  assumes "bam_ok v" "bam_addr v (t, s)"
  shows "bam_byte (changed_bit v t s x add) 2 = bam_byte v 2"
proof -
  have "4 \<le> entry_at (image_format v) t"
    using assms by (cases "image_format v") (auto simp: entry_at_def bam_addr_def)
  then have "byte_at (image_format v) t s \<noteq> 2" "count_at (image_format v) t \<noteq> Some 2"
    by (auto simp: byte_at_def count_at_def)
  then show ?thesis using changed_bit_effect(3) [OF assms, of x add 2] by simp
qed

lemma changed_bit_synced:
  fixes v :: vdrive and t s :: nat and x :: byte and add :: int
  assumes "bam_ok v" "bam_addr v (t, s)" "bam_attached v" "bam_synced v"
  defines "w \<equiv> changed_bit v t s x add"
  shows "bam_attached w" "bam_synced w"
proof -
  note eff = changed_bit_effect [OF assms(1,2), of x add, folded w_def]
  note sd = same_drive_disk [OF eff(2)] and keep = same_drive_keeps [OF eff(2)]
  note rd = same_disk_read [OF sd(1,2)] and hm = same_homes_home [OF sd(3)] and bl = same_homes_blocks [OF sd(3)]
  obtain qs where qs: "marks v w qs" "\<forall>j. j div 256 \<notin> qs \<longrightarrow> bam_byte w j = bam_byte v j"
    using changed_bit_marks [OF assms(1,2), of x add] w_def by blast
  have loc: "bam_located v" using assms(3) by (simp add: bam_attached_def)
  have wl: "bam_loaded w" using eff(1) by (simp add: bam_ok_def)
  have len: "length (the (bam w)) = length (the (bam v))" "bam w \<noteq> None"
    using wl loc keep by (simp_all add: bam_loaded_def bam_located_def)
  have locw: "bam_located w"
    using wl by (intro located_same_homes [OF loc sd(3)]) (simp_all add: len keep bam_loaded_def)
  have "dos_version_ok w = dos_version_ok v"
    using version_byte_kept [OF assms(1,2), of x add] len loc
    by (simp add: dos_version_ok_def VDRIVE_IS_1541_def keep w_def [symmetric] bam_byte_def bam_located_def)
  then have "drive_ok w = drive_ok v"
    using sd(1) by (simp add: drive_ok_def rd partition_ok_def same_disk_def)
  then show "bam_attached w"
    using assms(3) locw unfolding bam_attached_def rd hm bl by simp
  have "bam_block w i = bam_block v i" if i: "i < bam_blocks v" "i \<notin> qs" for i
  proof (rule nth_equalityI)
    fix k assume "k < length (bam_block w i)"
    then have k: "k < 256" using length_bam_block [OF locw] i bl by simp
    then have "bam_byte w (i * 256 + k) = bam_byte v (i * 256 + k)" using qs(2) i(2) by simp
    then show "bam_block w i ! k = bam_block v i ! k"
      using k block_bound [OF loc i(1)] block_bound [OF locw, of i] i(1) bl
      by (simp add: bam_block_def nth_slice bam_byte_def)
  qed (use length_bam_block [OF locw] length_bam_block [OF loc] i bl in simp)
  moreover have "i \<notin> qs \<and> bam_state v ! i = 0" if "i < bam_blocks v" "bam_state w ! i = 0" for i
    using qs(1) that blocks_le [OF loc] loc by (auto simp: marks_def bam_located_def split: if_splits)
  ultimately show "bam_synced w"
    using assms(4) unfolding bam_synced_def bl hm rd by simp
qed

subsection \<open>Properties\<close>

text \<open>
  C20. The BAM survives a flush and a reload. If every clean block of the BAM equals its
  sector, flushing succeeds and puts every block on disk, changing no other sector; setting
  the BAM up again, whatever the new memory holds, and reading it gives the same bytes. This
  is what leaving a partition and coming back relies on. The sectors of the BAM, and the other
  sectors spoken of, lie in the first 2 GB of the image file.
\<close>

theorem bam_flush_reload:
  assumes "bam_attached v" "bam_synced v" "\<forall>j < bam_blocks v. 0 \<le> bam_state v ! j" "bam_id v < bam_size v"
  shows "\<exists>w u. vdrive_bam_write_bam v = (CBMDOS_IPE_OK, w) \<and>
    vdrive_bam_read_bam (vdrive_bam_setup_bam junk w) = (CBMDOS_IPE_OK, u) \<and> bam u = bam v \<and>
    (\<forall>j < bam_blocks v. logical_read w (bam_home v j) = (CBMDOS_IPE_OK, bam_block v j)) \<and>
    (\<forall>a. logical_valid v a \<longrightarrow> a \<notin> bam_home v ` {..<bam_blocks v} \<longrightarrow> logical_read w a = logical_read v a)"
proof -
  obtain w where w: "vdrive_bam_write_bam v = (0, w)" "flushed 0 v w"
    using write_bam_flushes [OF assms(1-3)] by blast
  have f: "bam_attached w" "same_homes v w" "bam w = bam v" "bam_synced w"
    "\<forall>j < bam_blocks v. bam_state w ! j = 0" using w(2) by (simp_all add: flushed_def)
  note bl = same_homes_blocks [OF f(2)] and hm = same_homes_home [OF f(2)]
  have blk: "bam_block w j = bam_block v j" for j by (simp add: bam_block_def f(3))
  have disk: "\<forall>j < bam_blocks w. logical_read w (bam_home w j) = (0, bam_block w j)"
    using f(4,5) bl by (simp add: bam_synced_def)
  let ?u = "vdrive_bam_setup_bam junk w"
  have ru: "reloading w ?u"
    using setup_reloading [OF f(1) _ disk] assms(4) f(2) by (simp add: same_homes_def)
  have loc: "bam_located w" using f(1) by (simp add: bam_attached_def)
  have fmt: "fixed_layout (image_format ?u)" "bam_size ?u div 256 = bam_blocks w" "bam_blocks w \<noteq> 0"
    using ru same_homes_blocks [of w ?u] blocks_pos [OF loc]
    by (simp_all add: reloading_def bam_blocks_def bam_located_def)
  obtain u where u: "read_bam_loop ?u 0 (bam_blocks w) (-1) = (0, u)" "reloading w u"
    "\<forall>j < bam_blocks w. 0 \<le> bam_state u ! j"
    using read_loop_reloading [OF f(1) ru _ disk, of 0 "bam_blocks w" "-1"] fmt(3) by (auto simp: prod_eq_iff)
  have "vdrive_bam_read_bam ?u = (0, u)"
    using u(1) fmt by (auto simp: vdrive_bam_read_bam_def fixed_layout_def)
  then show ?thesis
    using w disk bl hm blk reloading_all [OF f(1) u(2,3)] f(3) by (auto simp: flushed_def)
qed

text \<open>A 1541 drive with a dirty BAM, for the witnesses.\<close>

definition dirty_1541 :: "byte list \<Rightarrow> vdrive" where
  "dirty_1541 b = (blank_drive FORMAT_1541 (d64_file_image (replicate 174848 0) None) 35)
    \<lparr>bam := Some b, bam_state := 1 # replicate 32 (-1), bam_tracks := 18 # replicate 32 (-1),
     bam_sectors := 0 # replicate 32 (-1)\<rparr>"

lemma dirty_1541_simps:
  "image_format (dirty_1541 b) = FORMAT_1541" "bam (dirty_1541 b) = Some b" "bam_size (dirty_1541 b) = 256"
  "bam_blocks (dirty_1541 b) = 1" "bam_home (dirty_1541 b) i = (18, 0)" "bam_id (dirty_1541 b) = 162"
  "bam_state (dirty_1541 b) = 1 # replicate 32 (-1)"
  by (simp_all add: dirty_1541_def blank_drive_def bam_blocks_def bam_home_def)

lemma dirty_1541_attached:
  assumes "length b = 256" "b ! 2 = 0x41"
  shows "bam_attached (dirty_1541 b)" "bam_synced (dirty_1541 b)"
proof -
  let ?d = "blank_drive FORMAT_1541 (d64_file_image (replicate 174848 0) None) 35"
  have sd: "same_disk ?d (dirty_1541 b)" "image_mode (dirty_1541 b) = image_mode ?d"
    by (simp_all add: dirty_1541_def same_disk_def)
  note rd = same_disk_read [OF sd]
  have ok: "drive_ok ?d" "logical_valid ?d (18, 0)"
    using blank_drive_ok [of "replicate 174848 0"] by (simp_all add: geom_simps)
  have "dos_version_ok (dirty_1541 b)" using assms(2) by (simp add: dos_version_ok_def dirty_1541_simps)
  then have "drive_ok (dirty_1541 b)"
    using ok(1) sd unfolding drive_ok_def rd by (simp add: partition_ok_def same_disk_def)
  moreover have "errors_known (cur_image (dirty_1541 b))"
    unfolding rd by (simp add: cur_image_def blank_drive_def errors_known_def image_errors_def d64_file_image_def)
  moreover have "bam_located (dirty_1541 b)"
    using assms(1) unfolding bam_located_def dirty_1541_simps
    by (simp add: layout_defs) (simp add: dirty_1541_def)
  ultimately show "bam_attached (dirty_1541 b)"
    using ok(2) unfolding bam_attached_def rd dirty_1541_simps by (simp add: inj_on_def)
  show "bam_synced (dirty_1541 b)" by (simp add: bam_synced_def dirty_1541_simps)
qed

theorem bam_flush_reload_witness:
  "\<exists>w u. vdrive_bam_write_bam (dirty_1541 (replicate 256 0x41)) = (CBMDOS_IPE_OK, w) \<and>
     vdrive_bam_read_bam (vdrive_bam_setup_bam (\<lambda>i. of_nat i) w) = (CBMDOS_IPE_OK, u) \<and>
     bam u = Some (replicate 256 0x41) \<and>
     logical_read w (18, 0) = (CBMDOS_IPE_OK, bam_block (dirty_1541 (replicate 256 0x41)) 0)"
  using bam_flush_reload [of "dirty_1541 (replicate 256 0x41)" "\<lambda>i. of_nat i"]
    dirty_1541_attached [of "replicate 256 0x41"]
  by (auto simp: dirty_1541_simps)

text \<open>
  C21. Allocating and freeing a sector keep the BAM in step with the disk: a block whose bytes
  change is marked dirty, so that every block still marked clean equals its sector. Together
  with C20 no allocation is lost on a flush.
\<close>

theorem allocation_keeps_sync:
  assumes "bam_ok v" "bam_addr v (t, s)" "bam_attached v" "bam_synced v"
  shows "bam_attached (snd (vdrive_bam_allocate_sector v t s)) \<and> bam_synced (snd (vdrive_bam_allocate_sector v t s)) \<and>
    bam_attached (snd (vdrive_bam_free_sector v t s)) \<and> bam_synced (snd (vdrive_bam_free_sector v t s))"
  using allocate_sector_ok [OF assms(1,2)] free_sector_ok [OF assms(1,2)] changed_bit_synced [OF assms] assms(3,4)
  by simp

theorem allocation_keeps_sync_witness:
  "bam_synced (snd (vdrive_bam_allocate_sector (dirty_1541 (replicate 256 0x41)) 17 6))"
  using allocation_keeps_sync [of "dirty_1541 (replicate 256 0x41)" 17 6]
    dirty_1541_attached [of "replicate 256 0x41"]
  by (simp add: bam_ok_def bam_loaded_def bam_addr_def bam_headers_ok_def block_ranges_def layout_defs dirty_1541_simps)

end
