(* ===== verification/CbmdosParse.thy ===== *)
theory CbmdosParse
  imports Cbmdos
begin

text \<open>
  Parsing of file names and commands (\<^verbatim>\<open>cbmdos_command_parse\<close> and
  \<^verbatim>\<open>cbmdos_command_parse_plus\<close> of \<^verbatim>\<open>lib/vdrive/cbmdos.c\<close>).

  A pointer into the input is an index; \<open>limit\<close> is the index behind the last character. The
  code looks at the character behind the input, too: the buffers of the model hold that
  character, which is the terminating zero of the drive's strings. A dereferenced null pointer
  makes the parser return \<open>None\<close>.
\<close>

subsection \<open>State of the parsers\<close>

record cbmdos_cmd_parse =
  cmd :: "buffer option"
  cmdlength :: nat
  parsecmd :: "buffer option"
  cp_secondary :: nat
  parselength :: nat
  cp_readmode :: nat
  cp_filetype :: nat
  cp_recordlength :: nat
  cp_drive :: int
  atsign :: nat

record cbmdos_cmd_parse_plus =
  full :: "buffer option"
  fulllength :: nat
  secondary :: nat
  pmode :: int
  drive :: int
  command :: "buffer option"
  commandlength :: nat
  abbrv :: "buffer option"
  abbrvlength :: nat
  path :: "buffer option"
  pathlength :: nat
  pfile :: "buffer option"
  filelength :: nat
  pmore :: "buffer option"
  morelength :: nat
  preadmode :: nat
  filetype :: nat
  recordlength :: nat
  colon :: nat

text \<open>A character constant as a byte.\<close>

abbreviation (input) "asc c \<equiv> of_char c :: byte"

definition memchr :: "buffer \<Rightarrow> nat \<Rightarrow> byte \<Rightarrow> nat \<Rightarrow> nat option" where
  "memchr xs p c n = find (\<lambda>j. xs ! j = c) [p..<p + n]"

definition is_digit :: "byte \<Rightarrow> bool" where
  "is_digit b = (b \<ge> 0x30 \<and> b \<le> 0x39)"

text \<open>\<^verbatim>\<open>while (p < limit && P(*p)) p++;\<close>\<close>

function skip_while :: "(byte \<Rightarrow> bool) \<Rightarrow> buffer \<Rightarrow> nat \<Rightarrow> nat \<Rightarrow> nat" where
  "skip_while P xs limit p = (if p < limit \<and> P (xs ! p) then skip_while P xs limit (Suc p) else p)"
  by auto
termination by (relation "measure (\<lambda>(P, xs, limit, p). limit - p)") auto

declare skip_while.simps [simp del]

lemma skip_while_pos: "p \<le> skip_while P xs limit p"
  by (induction P xs limit p rule: skip_while.induct) (subst skip_while.simps, auto)

text \<open>\<^verbatim>\<open>x = lib_calloc(1, n + 1); memcpy(x, p, n); x[n] = 0;\<close>\<close>

definition copy_string :: "buffer \<Rightarrow> nat \<Rightarrow> nat \<Rightarrow> buffer" where
  "copy_string xs p n = slice xs p n @ [0]"

subsection \<open>The plain parser\<close>

text \<open>Where the pattern begins; the drive number and the counted zero byte are stored on the way.\<close>

definition pattern_start :: "buffer \<Rightarrow> cbmdos_cmd_parse \<Rightarrow> nat \<times> cbmdos_cmd_parse" where
  "pattern_start xs c =
    (if xs ! 0 = asc CHR ''$'' then
       if cmdlength c > 1 then
         let p = 1;
             (p, c) = (if xs ! p = asc CHR ''0'' \<or> xs ! p = asc CHR ''1''
                       then (p + 1, c\<lparr>cp_drive := uint (xs ! p) - 0x30\<rparr>) else (p, c)) in
         if xs ! p = asc CHR '':'' then
           let p = p + 1 in
           if xs ! p = 0 then (p, c\<lparr>cmdlength := cmdlength c + 1\<rparr>) else (p, c)
         else (p, c)
       else (1, c)
     else case memchr xs 0 (asc CHR '':'') (cmdlength c) of
       Some p \<Rightarrow>
         if p = 0 then (p + 1, c)
         else if xs ! (p - 1) = asc CHR ''0'' \<or> xs ! (p - 1) = asc CHR ''1''
         then (p + 1, c\<lparr>cp_drive := uint (xs ! (p - 1)) - 0x30\<rparr>)
         else (p + 1, c)
     | None \<Rightarrow> (0, c))"

function copy_pattern :: "buffer \<Rightarrow> nat \<Rightarrow> int \<Rightarrow> buffer \<Rightarrow> nat \<times> int \<times> buffer" where
  "copy_pattern xs p cmdlen acc =
    (if xs ! p = asc CHR '','' then (p, cmdlen, acc)
     else if cmdlen > 0 then copy_pattern xs (Suc p) (cmdlen - 1) (acc @ [xs ! p])
     else (p, cmdlen - 1, acc))"
  by auto
termination by (relation "measure (\<lambda>(xs, p, n, acc). nat n)") auto

declare copy_pattern.simps [simp del]

text \<open>The switch on the letter of a type or mode; the status is OK if the loop goes on.\<close>

definition option_letter ::
  "buffer \<Rightarrow> nat \<Rightarrow> int \<Rightarrow> cbmdos_cmd_parse \<Rightarrow> int \<times> int \<times> cbmdos_cmd_parse" where
  "option_letter xs p cmdlen c =
    (let l = xs ! p in
     if l = asc CHR ''S'' then (CBMDOS_IPE_OK, cmdlen, c\<lparr>cp_filetype := CBMDOS_FT_SEQ\<rparr>)
     else if l = asc CHR ''P'' then (CBMDOS_IPE_OK, cmdlen, c\<lparr>cp_filetype := CBMDOS_FT_PRG\<rparr>)
     else if l = asc CHR ''U'' then (CBMDOS_IPE_OK, cmdlen, c\<lparr>cp_filetype := CBMDOS_FT_USR\<rparr>)
     else if l = asc CHR ''L'' OR 0x80 \<or> l = asc CHR ''L'' then
       (case memchr xs (p + 1) (asc CHR '','') (nat cmdlen) of
          Some comma \<Rightarrow>
            if p + nat cmdlen > comma + 1 then
              let c = c\<lparr>cp_recordlength := unat (xs ! (comma + 1))\<rparr> in
              if cp_recordlength c < 2 \<or> cp_recordlength c > 254 then (CBMDOS_IPE_OVERFLOW, cmdlen, c)
              else (CBMDOS_IPE_OK, 0, c\<lparr>cp_filetype := CBMDOS_FT_REL\<rparr>)
            else (CBMDOS_IPE_OK, cmdlen, c\<lparr>cp_filetype := CBMDOS_FT_REL\<rparr>)
        | None \<Rightarrow> (CBMDOS_IPE_OK, cmdlen, c\<lparr>cp_filetype := CBMDOS_FT_REL\<rparr>))
     else if l = asc CHR ''R'' then (CBMDOS_IPE_OK, cmdlen, c\<lparr>cp_readmode := CBMDOS_FAM_READ\<rparr>)
     else if l = asc CHR ''W'' then (CBMDOS_IPE_OK, cmdlen, c\<lparr>cp_readmode := CBMDOS_FAM_WRITE\<rparr>)
     else if l = asc CHR ''A'' then (CBMDOS_IPE_OK, cmdlen, c\<lparr>cp_readmode := CBMDOS_FAM_APPEND\<rparr>)
     else if cp_readmode c \<noteq> CBMDOS_FAM_READ \<and> cp_readmode c \<noteq> CBMDOS_FAM_WRITE
     then (CBMDOS_IPE_INVAL, cmdlen, c)
     else (CBMDOS_IPE_OK, cmdlen, c))"

lemma option_letter_length: "option_letter xs p n c = (r, n', c') \<Longrightarrow> 0 \<le> n \<Longrightarrow> n' \<le> n"
  by (auto simp: option_letter_def Let_def split: if_splits option.splits)

lemma memchr_Some:
  "memchr xs p c n = Some q \<Longrightarrow> p \<le> q \<and> q < p + n \<and> xs ! q = c"
  by (auto simp: memchr_def find_Some_iff)

function option_loop :: "buffer \<Rightarrow> nat \<Rightarrow> int \<Rightarrow> cbmdos_cmd_parse \<Rightarrow> int \<times> cbmdos_cmd_parse" where
  "option_loop xs p cmdlen c =
    (if cmdlen > 0 then
       let cmdlen = cmdlen - 1; p = Suc p in
       if cmdlen = 0 then (CBMDOS_IPE_INVAL, c)
       else case option_letter xs p cmdlen c of
         (ret, cmdlen, c) \<Rightarrow>
           if ret \<noteq> CBMDOS_IPE_OK then (ret, c)
           else case memchr xs p (asc CHR '','') (nat cmdlen) of
             Some q \<Rightarrow> option_loop xs q (cmdlen - (int q - int p)) c
           | None \<Rightarrow> (CBMDOS_IPE_OK, c)
     else (CBMDOS_IPE_OK, c))"
  by auto
termination
  by (relation "measure (\<lambda>(xs, p, n, c). nat n)") (auto dest!: option_letter_length [OF sym] memchr_Some)

declare option_loop.simps [simp del]

definition cbmdos_command_parse :: "cbmdos_cmd_parse \<Rightarrow> int \<times> cbmdos_cmd_parse" where
  "cbmdos_command_parse c =
    (let c = c\<lparr>atsign := 0, parsecmd := None, cp_recordlength := 0,
               cp_readmode := (if cp_secondary c = 1 then CBMDOS_FAM_WRITE else CBMDOS_FAM_READ)\<rparr> in
     if cmd c = None \<or> cmdlength c = 0 then (CBMDOS_IPE_NO_NAME, c)
     else
       let xs = the (cmd c);
           (p, c) = pattern_start xs c;
           cmdlen = int (cmdlength c) - int p;
           (p', cmdlen', parsed) = copy_pattern xs p cmdlen [];
           c = c\<lparr>parselength := length parsed,
                 parsecmd := Some (parsed @ replicate (nat (cmdlen + 2) - length parsed) 0),
                 cp_filetype := (if cp_secondary c < 2 then CBMDOS_FT_PRG else 0)\<rparr>;
           (ret, c) = option_loop xs p' cmdlen' c in
       if ret \<noteq> CBMDOS_IPE_OK then (ret, c)
       else
         let c = (if cp_secondary c = 0 then c\<lparr>cp_readmode := CBMDOS_FAM_READ\<rparr> else c);
             c = (if cp_secondary c = 1 then c\<lparr>cp_readmode := CBMDOS_FAM_WRITE\<rparr> else c) in
         (CBMDOS_IPE_OK, c))"

subsection \<open>The extended parser: file names\<close>

text \<open>
  The command in front of the drive number, if the input has a colon that is not its first
  character, or begins with a special character. The result is the position behind it and the
  position of the colon, which is the end of the input for a mere \<open>$n\<close>.
\<close>

definition file_command ::
  "buffer \<Rightarrow> nat \<Rightarrow> nat option \<Rightarrow> bool \<Rightarrow> cbmdos_cmd_parse_plus \<Rightarrow> nat \<times> nat option \<times> cbmdos_cmd_parse_plus" where
  "file_command xs limit p2 special c =
    (if xs ! 0 \<noteq> asc CHR ''/'' \<and> \<not> is_digit (xs ! 0) then
       let (p, p2) =
         (if special then
            if xs ! 0 = asc CHR ''#'' \<and> 1 < limit \<and> is_digit (xs ! 1) then (2, p2)
            else if xs ! 0 = asc CHR ''$'' \<and> 2 < limit \<and> xs ! 1 = asc CHR ''='' \<and>
              (xs ! 2 = asc CHR ''P'' \<or> xs ! 2 = asc CHR ''T'') then (3, p2)
            else if p2 = None \<and> xs ! 0 = asc CHR ''$'' \<and> 1 < limit \<and> is_digit (xs ! 1) then (1, Some limit)
            else (1, p2)
          else (skip_while (\<lambda>b. \<not> is_digit b) xs (the p2 + 1) 0, p2)) in
       (p, p2, c\<lparr>commandlength := p, command := Some (copy_string xs 0 p)\<rparr>)
     else (0, p2, c))"

text \<open>The digits of a drive or partition number; a digit that would take it to 256 is skipped.\<close>

function drive_digits :: "buffer \<Rightarrow> nat \<Rightarrow> nat \<Rightarrow> int \<Rightarrow> nat \<times> int" where
  "drive_digits xs p2 p d =
    (if p < p2 \<and> is_digit (xs ! p) then
       let i = d * 10 + (uint (xs ! p) - 0x30) in
       drive_digits xs p2 (Suc p) (if i < 256 then i else d)
     else (p, d))"
  by auto
termination by (relation "measure (\<lambda>(xs, p2, p, d). p2 - p)") auto

declare drive_digits.simps [simp del]

text \<open>What is left in front of the colon is the path.\<close>

definition take_path :: "buffer \<Rightarrow> nat \<Rightarrow> nat \<Rightarrow> cbmdos_cmd_parse_plus \<Rightarrow> nat \<times> cbmdos_cmd_parse_plus" where
  "take_path xs p2 p c =
    (if p < p2 then (p2, c\<lparr>pathlength := p2 - p, path := Some (copy_string xs p (p2 - p))\<rparr>) else (p, c))"

definition file_drive_path :: "buffer \<Rightarrow> nat \<Rightarrow> nat \<Rightarrow> nat \<Rightarrow> cbmdos_cmd_parse_plus \<Rightarrow> nat \<times> cbmdos_cmd_parse_plus" where
  "file_drive_path xs limit p2 p c =
    (let blank = (\<lambda>b. b = asc CHR '' '');
         p = skip_while blank xs limit p;
         (p, c) = (if p < p2 \<and> (xs ! p \<ge> 0x30 \<or> xs ! p \<le> 0x39)
                   then (case drive_digits xs p2 p 0 of (p, d) \<Rightarrow> (p, c\<lparr>drive := d\<rparr>)) else (p, c));
         p = skip_while blank xs limit p in
     take_path xs p2 p c)"

text \<open>
  One letter behind a comma. The result is the position of the last character used, and a
  status that is OK if the loop goes on.
\<close>

definition type_letter :: "buffer \<Rightarrow> nat \<Rightarrow> nat \<Rightarrow> cbmdos_cmd_parse_plus \<Rightarrow> int \<times> nat \<times> cbmdos_cmd_parse_plus" where
  "type_letter xs limit p c =
    (let l = xs ! p in
     if l = asc CHR ''S'' then (CBMDOS_IPE_OK, p, c\<lparr>filetype := CBMDOS_FT_SEQ\<rparr>)
     else if l = asc CHR ''P'' then (CBMDOS_IPE_OK, p, c\<lparr>filetype := CBMDOS_FT_PRG\<rparr>)
     else if l = asc CHR ''U'' then (CBMDOS_IPE_OK, p, c\<lparr>filetype := CBMDOS_FT_USR\<rparr>)
     else if l = asc CHR ''L'' OR 0x80 \<or> l = asc CHR ''L'' then
       if p + 2 < limit \<and> xs ! (p + 1) = asc CHR '','' then
         let c = c\<lparr>recordlength := unat (xs ! (p + 2))\<rparr> in
         if recordlength c < 2 \<or> recordlength c > 254 then (CBMDOS_IPE_OVERFLOW, p, c)
         else (CBMDOS_IPE_OK, p + 2, c\<lparr>filetype := CBMDOS_FT_REL\<rparr>)
       else (CBMDOS_IPE_OVERFLOW, p, c)
     else if l = asc CHR ''R'' then (CBMDOS_IPE_OK, p, c\<lparr>preadmode := CBMDOS_FAM_READ\<rparr>)
     else if l = asc CHR ''W'' then (CBMDOS_IPE_OK, p, c\<lparr>preadmode := CBMDOS_FAM_WRITE\<rparr>)
     else if l = asc CHR ''A'' then (CBMDOS_IPE_OK, p, c\<lparr>preadmode := CBMDOS_FAM_APPEND\<rparr>)
     else (CBMDOS_IPE_OK, p, c))"

lemma type_letter_pos: "type_letter xs limit p c = (r, p', c') \<Longrightarrow> p \<le> p'"
  by (auto simp: type_letter_def Let_def split: if_splits)

text \<open>
  If the input ends with a comma, the code searches for the next comma from behind the end of
  the input with a negative length. Whatever that search finds lies behind the input, so the
  loop ends.
\<close>

function type_loop :: "buffer \<Rightarrow> nat \<Rightarrow> nat \<Rightarrow> cbmdos_cmd_parse_plus \<Rightarrow> int \<times> cbmdos_cmd_parse_plus" where
  "type_loop xs limit p c =
    (if p < limit then
       (case type_letter xs limit (Suc p) c of
          (ret, p', c) \<Rightarrow>
            if ret \<noteq> CBMDOS_IPE_OK then (ret, c)
            else if Suc p' > limit then (CBMDOS_IPE_OK, c)
            else case memchr xs (Suc p') (asc CHR '','') (limit - Suc p') of
              None \<Rightarrow> (CBMDOS_IPE_OK, c)
            | Some q \<Rightarrow> type_loop xs limit q c)
     else (CBMDOS_IPE_OK, c))"
  by auto
termination
  by (relation "measure (\<lambda>(xs, limit, p, c). limit - p)") (auto dest!: type_letter_pos [OF sym] memchr_Some)

declare type_loop.simps [simp del]

definition parse_file_mode :: "buffer \<Rightarrow> cbmdos_cmd_parse_plus \<Rightarrow> int \<times> cbmdos_cmd_parse_plus" where
  "parse_file_mode xs c =
    (let limit = fulllength c;
         c = (if pmode c = 0 then c\<lparr>drive := 0\<rparr> else c);
         p2 = memchr xs 0 (asc CHR '':'') limit;
         c = (if p2 \<noteq> None then c\<lparr>colon := 1\<rparr> else c);
         special = (xs ! 0 = asc CHR ''$'' \<or> xs ! 0 = asc CHR ''#'' \<or> (p2 \<noteq> None \<and> xs ! 0 = asc CHR ''@''));
         (p, c) =
           (if (p2 \<noteq> None \<and> p2 \<noteq> Some 0) \<or> special then
              (case file_command xs limit p2 special c of
                 (p, None, c) \<Rightarrow> (p, c)
               | (p, Some p2, c) \<Rightarrow> file_drive_path xs limit p2 p c)
            else (0, c));
         p = (if xs ! p = asc CHR '':'' then Suc p else p);
         comma = memchr xs p (asc CHR '','') (limit - p);
         end = (case comma of
            None \<Rightarrow> limit
          | Some q \<Rightarrow> if command c \<noteq> None \<and> the (command c) ! 0 = asc CHR ''$'' then limit else q);
         c = c\<lparr>filelength := end - p, pfile := Some (copy_string xs p (end - p)),
               filetype := (if secondary c < 2 then CBMDOS_FT_PRG else 0)\<rparr> in
     if comma = None then (CBMDOS_IPE_OK, c)
     else case type_loop xs limit end c of
       (ret, c) \<Rightarrow>
         if ret \<noteq> CBMDOS_IPE_OK then (ret, c)
         else
           let c = (if secondary c = 0 then c\<lparr>preadmode := CBMDOS_FAM_READ\<rparr> else c);
               c = (if secondary c = 1 then c\<lparr>preadmode := CBMDOS_FAM_WRITE\<rparr> else c) in
           (CBMDOS_IPE_OK, c))"

subsection \<open>The extended parser: commands\<close>

definition is_letter :: "byte \<Rightarrow> bool" where
  "is_letter b = ((b \<ge> asc CHR ''A'' \<and> b \<le> asc CHR ''Z'') \<or>
     (b \<ge> asc CHR ''A'' OR 0x80 \<and> b \<le> asc CHR ''Z'' OR 0x80))"

text \<open>The characters that end the command word, for the \<open>U\<close> commands and for the others.\<close>

definition word_delimiter :: "bool \<Rightarrow> byte \<Rightarrow> bool" where
  "word_delimiter special b =
    (b = asc CHR '':'' \<or> b = asc CHR '' '' \<or> b = 29 \<or> (special \<and> (b = asc CHR '','' \<or> b = asc CHR '';'')) \<or>
     (\<not> special \<and> (b = asc CHR ''/'' \<or> is_digit b)))"

text \<open>
  The command word and its abbreviation: of a word of letters only the first is kept. \<open>None\<close>
  stands for the command \<open>C{shift-P}\<close>, which is copied without further parsing.
\<close>

function command_word :: "buffer \<Rightarrow> nat \<Rightarrow> bool \<Rightarrow> nat \<Rightarrow> buffer \<Rightarrow> (nat \<times> buffer) option" where
  "command_word xs limit special p temp =
    (if p < limit then
       let temp = temp @ [xs ! p]; p = Suc p in
       if p \<ge> limit then Some (p, temp)
       else if xs ! 0 < asc CHR ''A'' then Some (p, temp)
       else if xs ! 0 = asc CHR ''C'' \<and> (xs ! p = asc CHR ''P'' \<or> xs ! p = asc CHR ''D'') then Some (Suc p, temp)
       else if xs ! 0 = asc CHR ''C'' \<and> xs ! p = asc CHR ''P'' OR 0x80 then None
       else if xs ! 0 = asc CHR ''M'' \<and> xs ! p = asc CHR ''D'' then Some (Suc p, temp)
       else
         let p = (if special then p else skip_while is_letter xs limit p) in
         if p \<ge> limit then Some (p, temp)
         else if word_delimiter special (xs ! p) then Some (p, temp)
         else
           let temp = temp @ [xs ! p]; p = Suc p in
           if p \<ge> limit then Some (p, temp)
           else if word_delimiter special (xs ! p) then Some (p, temp)
           else command_word xs limit special p temp
     else Some (p, temp))"
  by auto
termination
proof (relation "measure (\<lambda>(xs, limit, special, p, temp). limit - p)", goal_cases)
  case (2 xs limit special p temp temp1 p1 p2 temp2 p3)
  have "p1 \<le> p2" using 2 skip_while_pos by simp
  then show ?case using 2 by simp
qed simp

declare command_word.simps [simp del]

text \<open>The arguments: drive, path, file name up to a comma or an equal sign, and the rest.\<close>

definition parse_arguments ::
  "buffer \<Rightarrow> nat option \<Rightarrow> bool \<Rightarrow> nat \<Rightarrow> cbmdos_cmd_parse_plus \<Rightarrow> (int \<times> cbmdos_cmd_parse_plus) option" where
  "parse_arguments xs p2 special p c =
    (let limit = fulllength c;
         p = skip_while (\<lambda>b. b = asc CHR '' '' \<or> b = 29) xs limit p;
         (p, c) = (case p2 of
            Some p2 \<Rightarrow>
              if p < p2 \<and> (xs ! p \<ge> 0x30 \<or> xs ! p \<le> 0x39)
              then (case drive_digits xs p2 p (drive c) of (p, d) \<Rightarrow> (p, c\<lparr>drive := d\<rparr>)) else (p, c)
          | None \<Rightarrow> (p, c));
         p = skip_while (\<lambda>b. b = asc CHR '' '') xs limit p;
         (p, c) = (case p2 of Some p2 \<Rightarrow> take_path xs p2 p c | None \<Rightarrow> (p, c));
         p1 = (if xs ! p = asc CHR '':'' then Suc p else p);
         equals = memchr xs p1 (asc CHR ''='') (limit - p1) in
     if \<not> special \<and> command c = None then None
     else
       let end = (if \<not> special \<and> the (command c) ! 0 \<noteq> asc CHR ''B'' then
              (case (equals, memchr xs p1 (asc CHR '','') (limit - p1)) of
                 (Some e, Some q) \<Rightarrow> if q < e then q else e
               | (Some e, None) \<Rightarrow> e
               | (None, Some q) \<Rightarrow> q
               | (None, None) \<Rightarrow> limit)
            else case equals of Some e \<Rightarrow> e | None \<Rightarrow> limit);
           c = c\<lparr>filelength := end - p1, pfile := Some (copy_string xs p1 (end - p1))\<rparr>;
           c = (if end < limit
                then c\<lparr>morelength := limit - end, pmore := Some (copy_string xs end (limit - end))\<rparr> else c) in
       Some (CBMDOS_IPE_OK, c))"

text \<open>The code of a \<open>U\<close> command may be a control character instead of a digit.\<close>

definition u_digit :: "nat \<Rightarrow> buffer \<Rightarrow> buffer" where
  "u_digit n w = (if n > 1 \<and> w ! 0 = asc CHR ''U'' \<and> w ! 1 \<ge> 0x01 \<and> w ! 1 \<le> 0x09
     then w[1 := w ! 1 + 0x30] else w)"

definition raw_command :: "buffer \<Rightarrow> nat \<Rightarrow> bool" where
  "raw_command xs limit =
    ((xs ! 0 = asc CHR ''U'' \<and>
        \<not> (xs ! 1 = asc CHR ''1'' \<or> xs ! 1 = 0x01 \<or> xs ! 1 = asc CHR ''A'' \<or>
           xs ! 1 = asc CHR ''2'' \<or> xs ! 1 = 0x02 \<or> xs ! 1 = asc CHR ''B'')) \<or>
     (xs ! 0 = asc CHR ''M'' \<and> xs ! 1 \<noteq> asc CHR ''D'') \<or> xs ! 0 = asc CHR ''P'')"

definition parse_command_mode :: "buffer \<Rightarrow> cbmdos_cmd_parse_plus \<Rightarrow> (int \<times> cbmdos_cmd_parse_plus) option" where
  "parse_command_mode xs c =
    (let limit = fulllength c; c = c\<lparr>drive := 0\<rparr> in
     if (xs ! 0 = asc CHR ''U'' \<or> xs ! 0 = asc CHR ''M'') \<and> \<not> 1 < limit then Some (CBMDOS_IPE_INVAL, c)
     else if raw_command xs limit then
       Some (CBMDOS_IPE_OK, c\<lparr>commandlength := limit, command := Some (slice xs 0 limit)\<rparr>)
     else
       let p2 = memchr xs 0 (asc CHR '':'') limit;
           c = (if p2 \<noteq> None then c\<lparr>colon := 1\<rparr> else c);
           special = (xs ! 0 = asc CHR ''U'') in
       if \<not> is_digit (xs ! 0) then
         (case command_word xs limit special 0 [] of
            None \<Rightarrow> Some (CBMDOS_IPE_OK, c\<lparr>commandlength := 3, command := Some (slice xs 0 3)\<rparr>)
          | Some (p, temp) \<Rightarrow>
              let c = c\<lparr>commandlength := p, command := Some (u_digit p (copy_string xs 0 p)),
                        abbrvlength := length temp, abbrv := Some (temp @ [0])\<rparr>;
                  p = (if special \<and> (xs ! p = asc CHR '','' \<or> xs ! p = asc CHR '';'') then Suc p else p) in
              if p \<ge> limit then Some (CBMDOS_IPE_OK, c) else parse_arguments xs p2 special p c)
       else parse_arguments xs p2 special 0 c)"

definition cbmdos_command_parse_plus :: "cbmdos_cmd_parse_plus \<Rightarrow> (int \<times> cbmdos_cmd_parse_plus) option" where
  "cbmdos_command_parse_plus c =
    (let c = c\<lparr>command := None, commandlength := 0, abbrv := None, abbrvlength := 0, path := None, pathlength := 0,
               pfile := None, filelength := 0, pmore := None, morelength := 0, recordlength := 0, filetype := 0,
               preadmode := (if secondary c = 1 then CBMDOS_FAM_WRITE else CBMDOS_FAM_READ), colon := 0\<rparr> in
     if full c = None \<or> fulllength c = 0 then Some (CBMDOS_IPE_NO_NAME, c)
     else if pmode c = 0 \<or> pmode c = 2 then Some (parse_file_mode (the (full c)) c)
     else if pmode c = 1 then parse_command_mode (the (full c)) c
     else Some (CBMDOS_IPE_OK, c))"

subsection \<open>Lemmas\<close>

lemma memchr_first:
  assumes "c \<notin> set a" "length a < n"
  shows "memchr (pre @ a @ c # rest) (length pre) c n = Some (length pre + length a)"
proof -
  have "find (\<lambda>j. (pre @ a @ c # rest) ! j = c) [length pre..<length pre + n] = Some (length pre + length a)"
    unfolding find_Some_iff
    using assms by (intro exI [of _ "length a"]) (auto simp: nth_append)
  then show ?thesis by (simp add: memchr_def)
qed

lemma memchr_0 [simp]: "memchr xs p c 0 = None"
  by (simp add: memchr_def)

text \<open>The number a string of digits stands for.\<close>

definition digits_value :: "int \<Rightarrow> buffer \<Rightarrow> int" where
  "digits_value = foldl (\<lambda>d b. d * 10 + (uint b - 0x30))"

lemma is_digit_uint: "is_digit b \<Longrightarrow> 0x30 \<le> uint b"
  by (auto simp: is_digit_def word_le_def)

lemma digits_value_mono: "list_all is_digit ds \<Longrightarrow> 0 \<le> d \<Longrightarrow> d \<le> digits_value d ds"
proof (induction ds arbitrary: d)
  case (Cons b ds)
  then have "d \<le> d * 10 + (uint b - 0x30)" "0 \<le> d * 10 + (uint b - 0x30)" using is_digit_uint [of b] by auto
  with Cons.IH [of "d * 10 + (uint b - 0x30)"] Cons.prems show ?case by (simp add: digits_value_def)
qed (simp add: digits_value_def)

lemma drive_digits_value:
  assumes "list_all is_digit ds" "0 \<le> d" "digits_value d ds < 256"
  shows "drive_digits (pre @ ds @ rest) (length pre + length ds) (length pre) d = (length pre + length ds, digits_value d ds)"
  using assms
proof (induction ds arbitrary: pre d)
  case Nil
  then show ?case by (simp add: drive_digits.simps digits_value_def)
next
  case (Cons b ds)
  let ?d = "d * 10 + (uint b - 0x30)"
  have d: "0 \<le> ?d" "digits_value d (b # ds) = digits_value ?d ds"
    using Cons.prems is_digit_uint [of b] by (auto simp: digits_value_def)
  then have "?d < 256" using digits_value_mono [of ds ?d] Cons.prems by auto
  moreover have "drive_digits ((pre @ [b]) @ ds @ rest) (length (pre @ [b]) + length ds) (length (pre @ [b])) ?d =
      (length (pre @ [b]) + length ds, digits_value ?d ds)"
    using Cons.IH [of ?d "pre @ [b]"] Cons.prems d by auto
  ultimately show ?case
    using Cons.prems(1) d(2) by (subst drive_digits.simps) (simp add: nth_append Let_def)
qed

text \<open>The type and mode letters of the drive's manual.\<close>

definition type_of_letter :: "byte \<Rightarrow> nat option" where
  "type_of_letter l = map_of [(asc CHR ''S'', CBMDOS_FT_SEQ), (asc CHR ''P'', CBMDOS_FT_PRG), (asc CHR ''U'', CBMDOS_FT_USR)] l"

definition mode_of_letter :: "byte \<Rightarrow> nat option" where
  "mode_of_letter l = map_of [(asc CHR ''R'', CBMDOS_FAM_READ), (asc CHR ''W'', CBMDOS_FAM_WRITE), (asc CHR ''A'', CBMDOS_FAM_APPEND)] l"

lemma type_letter_type:
  "type_of_letter (xs ! p) = Some ty \<Longrightarrow> type_letter xs limit p c = (CBMDOS_IPE_OK, p, c\<lparr>filetype := ty\<rparr>)"
  by (simp add: type_of_letter_def split: if_split_asm; hypsubst?; simp add: type_letter_def)

lemma type_letter_mode:
  "mode_of_letter (xs ! p) = Some md \<Longrightarrow> type_letter xs limit p c = (CBMDOS_IPE_OK, p, c\<lparr>preadmode := md\<rparr>)"
  by (simp add: mode_of_letter_def split: if_split_asm; hypsubst?; simp add: type_letter_def)

lemma type_loop_type_mode:
  assumes xs: "xs = pre @ [asc CHR '','', ty, asc CHR '','', md, 0]"
    and "type_of_letter ty = Some t" "mode_of_letter md = Some m"
  shows "type_loop xs (length pre + 4) (length pre) c = (CBMDOS_IPE_OK, c\<lparr>filetype := t, preadmode := m\<rparr>)"
proof -
  let ?n = "length pre"
  have "xs ! (?n + 1) = ty" "xs ! (?n + 3) = md"
    by (simp_all add: xs nth_append)
  then have ty: "type_letter xs l (?n + 1) c' = (CBMDOS_IPE_OK, ?n + 1, c'\<lparr>filetype := t\<rparr>)"
    and md: "type_letter xs l (?n + 3) c' = (CBMDOS_IPE_OK, ?n + 3, c'\<lparr>preadmode := m\<rparr>)" for l c'
    using assms(2,3) type_letter_type [of xs "?n + 1"] type_letter_mode [of xs "?n + 3"] by simp_all
  have q: "memchr xs (?n + 2) (asc CHR '','') 2 = Some (?n + 2)"
    using memchr_first [of "asc CHR '',''" "[]" 2 "pre @ [asc CHR '','', ty]" "[md, 0]"] by (simp add: xs)
  have S: "Suc ?n = ?n + 1" "Suc (?n + 1) = ?n + 2" "Suc (?n + 2) = ?n + 3" "Suc (?n + 3) = ?n + 4" by simp_all
  have "type_loop xs (?n + 4) (?n + 2) c' = (CBMDOS_IPE_OK, c'\<lparr>preadmode := m\<rparr>)" for c'
    by (subst type_loop.simps) (simp only: S md, simp)
  then show ?thesis
    using q by (subst type_loop.simps) (simp only: S ty, simp)
qed

lemma skip_while_stop: "p < limit \<longrightarrow> \<not> P (xs ! p) \<Longrightarrow> skip_while P xs limit p = p"
  by (subst skip_while.simps) auto

lemma file_drive_path_digits:
  assumes "ds \<noteq> []" "list_all is_digit ds" "digits_value 0 ds < 256" "length ds < limit"
  shows "file_drive_path (ds @ asc CHR '':'' # rest) limit (length ds) 0 c = (length ds, c\<lparr>drive := digits_value 0 ds\<rparr>)"
proof -
  let ?xs = "ds @ asc CHR '':'' # rest"
  have "is_digit (?xs ! 0)" using assms(1,2) by (cases ds) auto
  then have "?xs ! 0 \<noteq> asc CHR '' ''" by (auto simp: is_digit_def)
  moreover have "?xs ! 0 \<ge> 0x30" using \<open>is_digit (?xs ! 0)\<close> by (simp add: is_digit_def)
  moreover have "?xs ! length ds \<noteq> asc CHR '' ''" by simp
  moreover have "drive_digits ?xs (length ds) 0 0 = (length ds, digits_value 0 ds)"
    using drive_digits_value [of ds 0 "[]" "asc CHR '':'' # rest"] assms by simp
  ultimately show ?thesis
    using assms(1) by (simp add: file_drive_path_def skip_while_stop take_path_def Let_def)
qed

lemma parse_file_name_result:
  assumes "ds \<noteq> []" "list_all is_digit ds" "digits_value 0 ds < 256" "asc CHR '','' \<notin> set name"
    and "type_of_letter ty = Some t" "mode_of_letter md = Some m"
    and "full c = Some (ds @ [asc CHR '':''] @ name @ [asc CHR '','', ty, asc CHR '','', md, 0])"
    and "fulllength c = length ds + length name + 5" "pmode c = 2" "2 \<le> secondary c"
  shows "\<exists>c'. cbmdos_command_parse_plus c = Some (CBMDOS_IPE_OK, c') \<and> drive c' = digits_value 0 ds \<and>
    pfile c' = Some (name @ [0]) \<and> filelength c' = length name \<and> filetype c' = t \<and> preadmode c' = m \<and>
    command c' = None \<and> path c' = None \<and>
    commandlength c' = 0 \<and> recordlength c' = 0"
proof -
  let ?t = "[asc CHR '','', ty, asc CHR '','', md, 0]"
  define xs where "xs = ds @ asc CHR '':'' # name @ ?t"
  define k n l where "k = length ds" and "n = Suc (length ds + length name)" and "l = length ds + length name + 5"
  note kn = k_def n_def l_def
  obtain d0 ds' where ds: "ds = d0 # ds'" "is_digit d0" using assms(1,2) by (cases ds) auto
  have "asc CHR '':'' \<notin> set ds" using assms(2) by (auto simp: list_all_iff is_digit_def)
  then have colon: "memchr xs 0 (asc CHR '':'') l = Some k"
    using memchr_first [of "asc CHR '':''" ds l "[]" "name @ ?t"] by (simp add: xs_def kn)
  have first: "xs ! 0 = d0" by (simp add: xs_def ds)
  have special: "d0 \<noteq> asc CHR ''$''" "d0 \<noteq> asc CHR ''#''" "d0 \<noteq> asc CHR ''@''" "d0 \<noteq> asc CHR ''/''"
    using ds(2) by (auto simp: is_digit_def)
  have cmd: "file_command xs l p2 sp c' = (0, p2, c')" for l p2 sp c'
    using ds(2) by (simp add: file_command_def first)
  have drv: "file_drive_path xs l k 0 c' = (k, c'\<lparr>drive := digits_value 0 ds\<rparr>)" for c'
    using file_drive_path_digits [OF assms(1-3), of l "name @ ?t"] by (simp add: xs_def kn)
  have comma: "memchr xs (Suc k) (asc CHR '','') (l - Suc k) = Some n"
    using memchr_first [of "asc CHR '',''" name "length name + 4" "ds @ [asc CHR '':'']"] assms(4)
    by (simp add: xs_def kn add.commute [of 4])
  have at: "xs ! k = asc CHR '':''" by (simp add: xs_def kn)
  have name: "copy_string xs (Suc k) (length name) = name @ [0]" "n - Suc k = length name"
    by (simp_all add: xs_def copy_string_def slice_def kn)
  have "l = length (ds @ asc CHR '':'' # name) + 4" "n = length (ds @ asc CHR '':'' # name)" by (simp_all add: kn)
  then have loop: "type_loop xs l n c' = (CBMDOS_IPE_OK, c'\<lparr>filetype := t, preadmode := m\<rparr>)" for c'
    using type_loop_type_mode [of xs "ds @ asc CHR '':'' # name" ty md] assms(5,6) by (simp only:) (simp add: xs_def)
  have xs: "full c = Some xs" "fulllength c = l" "k \<noteq> 0" "l \<noteq> 0" using assms(1,7,8) by (simp_all add: xs_def kn)
  show ?thesis
    unfolding cbmdos_command_parse_plus_def parse_file_mode_def Let_def
    using assms(9,10) special
    by (simp add: xs colon first cmd drv at comma name loop del: of_char_Char)
qed

subsection \<open>Properties\<close>

text \<open>
  C25. Opening \<open>d:name,type,mode\<close> with a secondary address from 2 on gives the drive or
  partition number, the name as it stands, the file type and the access mode, whatever
  characters but a comma the name holds: further colons belong to the name.
\<close>

theorem parse_file_name:
  assumes "ds \<noteq> []" "list_all is_digit ds" "digits_value 0 ds < 256" "asc CHR '','' \<notin> set name"
    and "type_of_letter ty = Some t" "mode_of_letter md = Some m"
    and "full c = Some (ds @ [asc CHR '':''] @ name @ [asc CHR '','', ty, asc CHR '','', md, 0])"
    and "fulllength c = length ds + length name + 5" "pmode c = 2" "2 \<le> secondary c"
  shows "\<exists>c'. cbmdos_command_parse_plus c = Some (CBMDOS_IPE_OK, c') \<and> drive c' = digits_value 0 ds \<and>
    pfile c' = Some (name @ [0]) \<and> filelength c' = length name \<and> filetype c' = t \<and> preadmode c' = m \<and>
    command c' = None \<and> path c' = None"
  using parse_file_name_result [OF assms] by blast

theorem parse_file_name_witness:
  "\<exists>c'. cbmdos_command_parse_plus
      \<lparr>full = Some (map of_char ''1:A:B,S,W'' @ [0]), fulllength = 9, secondary = 2, pmode = 2, drive = -1,
       command = None, commandlength = 0, abbrv = None, abbrvlength = 0, path = None, pathlength = 0,
       pfile = None, filelength = 0, pmore = None, morelength = 0, preadmode = 0, filetype = 0,
       recordlength = 0, colon = 0\<rparr> = Some (CBMDOS_IPE_OK, c') \<and>
     drive c' = 1 \<and> pfile c' = Some (map of_char ''A:B'' @ [0]) \<and> filelength c' = 3 \<and>
     filetype c' = CBMDOS_FT_SEQ \<and> preadmode c' = CBMDOS_FAM_WRITE \<and> command c' = None \<and> path c' = None"
proof -
  let ?c = "\<lparr>full = Some (map of_char ''1:A:B,S,W'' @ [0]), fulllength = 9, secondary = 2, pmode = 2, drive = -1,
       command = None, commandlength = 0, abbrv = None, abbrvlength = 0, path = None, pathlength = 0,
       pfile = None, filelength = 0, pmore = None, morelength = 0, preadmode = 0, filetype = 0,
       recordlength = 0, colon = 0\<rparr>"
  have "digits_value 0 (map of_char ''1'') = 1" by (simp add: digits_value_def)
  moreover have "\<exists>c'. cbmdos_command_parse_plus ?c = Some (CBMDOS_IPE_OK, c') \<and>
      drive c' = digits_value 0 (map of_char ''1'') \<and>
      pfile c' = Some (map of_char ''A:B'' @ [0]) \<and> filelength c' = length (map of_char ''A:B'' :: buffer) \<and>
      filetype c' = CBMDOS_FT_SEQ \<and> preadmode c' = CBMDOS_FAM_WRITE \<and> command c' = None \<and> path c' = None"
    by (rule parse_file_name [where ty = "asc CHR ''S''" and md = "asc CHR ''W''"])
      (simp_all add: is_digit_def digits_value_def type_of_letter_def mode_of_letter_def)
  ultimately show ?thesis by (simp add: numeral_3_eq_3)
qed

text \<open>
  C26. A command string makes the parser follow a null pointer exactly if it begins with a
  digit: the code then looks at the first character of a command word that was never stored.
  Every other input is parsed or refused.
\<close>

theorem parse_null_command:
  "cbmdos_command_parse_plus c = None \<longleftrightarrow>
    pmode c = 1 \<and> (\<exists>xs. full c = Some xs \<and> is_digit (xs ! 0)) \<and> fulllength c \<noteq> 0"
proof -
  have args: "parse_arguments xs p2 sp p c = None \<longleftrightarrow> \<not> sp \<and> command c = None" for xs p2 sp p c
    by (auto simp: parse_arguments_def take_path_def Let_def split: option.splits prod.splits if_splits)
  have digit: "\<not> raw_command xs l" "xs ! 0 \<noteq> asc CHR ''U''" "xs ! 0 \<noteq> asc CHR ''M''" if "is_digit (xs ! 0)" for xs l
    using that by (auto simp: raw_command_def is_digit_def)
  have "parse_command_mode xs c = None \<longleftrightarrow> is_digit (xs ! 0)" if "command c = None" for xs c
    using digit [of xs] that unfolding parse_command_mode_def
    by (auto simp: args Let_def simp del: of_char_Char not_None_eq split: option.split)
  then show ?thesis
    by (auto simp: cbmdos_command_parse_plus_def Let_def)
qed

end
