(* ===== verification/Dir.thy ===== *)
theory Dir
  imports Partition BamStore CbmdosParse
begin

text \<open>
  The directory (\<^verbatim>\<open>lib/vdrive/vdrive-dir.c\<close>): matching of slots, the search through the chain
  of directory sectors and its extension by a new sector, scratching, and the directory and
  partition listings. A slot has 32 bytes, a sector eight slots.

  The code follows links it reads from the disk, so the loops are partial functions: \<open>None\<close> is a
  loop that does not end. A search returns the slot it found, or the null pointer as \<open>None\<close>; the
  slot is a copy (the code returns a static buffer, or the directory sector itself).
\<close>

subsection \<open>Slots\<close>

abbreviation (input) "SLOT_TYPE_OFFSET \<equiv> 2 :: nat"
abbreviation (input) "SLOT_FIRST_TRACK \<equiv> 3 :: nat"
abbreviation (input) "SLOT_FIRST_SECTOR \<equiv> 4 :: nat"
abbreviation (input) "SLOT_NAME_OFFSET \<equiv> 5 :: nat"
abbreviation (input) "SLOT_SIDE_TRACK \<equiv> 21 :: nat"
abbreviation (input) "SLOT_SIDE_SECTOR \<equiv> 22 :: nat"
abbreviation (input) "SLOT_RECORD_LENGTH \<equiv> 23 :: nat"
abbreviation (input) "SLOT_GEOS_YEAR \<equiv> 25 :: nat"
abbreviation (input) "SLOT_GEOS_MONTH \<equiv> 26 :: nat"
abbreviation (input) "SLOT_GEOS_DATE \<equiv> 27 :: nat"
abbreviation (input) "SLOT_GEOS_HOUR \<equiv> 28 :: nat"
abbreviation (input) "SLOT_GEOS_MINUTE \<equiv> 29 :: nat"
abbreviation (input) "SLOT_REPLACE_TRACK \<equiv> 28 :: nat"
abbreviation (input) "SLOT_REPLACE_SECTOR \<equiv> 29 :: nat"
abbreviation (input) "SLOT_NR_BLOCKS \<equiv> 30 :: nat"

definition vdrive_dir_get_interleave :: "image_format \<Rightarrow> nat" where
  "vdrive_dir_get_interleave ty = (if ty \<in> {FORMAT_1581, FORMAT_NP} then 1 else 3)"

definition vdrive_dir_name_match :: "buffer \<Rightarrow> buffer \<Rightarrow> int \<Rightarrow> nat \<Rightarrow> nat" where
  "vdrive_dir_name_match slot nslot len ty =
    (if len < 0 then (if slot ! SLOT_TYPE_OFFSET \<noteq> 0 then 0 else 1)
     else if slot ! SLOT_TYPE_OFFSET = 0 then 0
     else if ty \<noteq> CBMDOS_FT_DEL \<and> ty \<noteq> unat (slot ! SLOT_TYPE_OFFSET AND 0x07) then 0
     else cbmdos_parse_wildcard_compare nslot (nat len) (drop SLOT_NAME_OFFSET slot))"

definition date_to_int :: "nat \<Rightarrow> nat \<Rightarrow> nat \<Rightarrow> nat \<Rightarrow> nat \<Rightarrow> nat" where
  "date_to_int year month day hour minute =
    (let a = year;
         a = push_bit 4 a OR month;
         a = push_bit 5 a OR day;
         a = push_bit 5 a OR hour in
     push_bit 6 a OR minute)"

definition slot_date :: "buffer \<Rightarrow> nat" where
  "slot_date slot = date_to_int (unat (slot ! SLOT_GEOS_YEAR)) (unat (slot ! SLOT_GEOS_MONTH))
     (unat (slot ! SLOT_GEOS_DATE)) (unat (slot ! SLOT_GEOS_HOUR)) (unat (slot ! SLOT_GEOS_MINUTE))"

definition cur_slot :: "vdrive_dir_context \<Rightarrow> buffer" where
  "cur_slot d = slice (dbuffer d) (dslot d * 32) 32"

definition slot_matches :: "vdrive_dir_context \<Rightarrow> bool" where
  "slot_matches d =
    (vdrive_dir_name_match (cur_slot d) (find_nslot d) (find_length d) (find_type d) \<noteq> 0 \<and>
     slot_date (cur_slot d) \<ge> time_low d \<and> slot_date (cur_slot d) \<le> time_high d)"

subsection \<open>Freeing a chain\<close>

partial_function (option) vdrive_dir_free_chain :: "vdrive \<Rightarrow> buffer \<Rightarrow> nat \<Rightarrow> nat \<Rightarrow> vdrive option" where [code]:
  "vdrive_dir_free_chain v buf t s =
    (if t = 0 then Some v
     else if disk_image_check_sector (cur_image v) t s < 0 then Some v
     else case vdrive_bam_free_sector v t s of
       (r, v) \<Rightarrow>
         if r = 0 then Some v
         else case vdrive_read_sector (snd (vdrive_bam_free_sector v t s)) buf t s of
           (_, v, buf) \<Rightarrow> vdrive_dir_free_chain v buf (unat (buf ! 0)) (unat (buf ! 1)))"

subsection \<open>Searching\<close>

definition vdrive_dir_find_first_slot ::
  "vdrive \<Rightarrow> buffer \<Rightarrow> int \<Rightarrow> nat \<Rightarrow> vdrive_dir_context \<Rightarrow> vdrive \<times> vdrive_dir_context" where
  "vdrive_dir_find_first_slot v name len ty d =
    (let d = (if len > 0 then d\<lparr>find_nslot := cbmdos_dir_slot_create name (nat len)\<rparr> else d);
         d = d\<lparr>find_length := len, find_type := ty, dtrack := Header_Track v, dsector := Header_Sector v,
               dslot := 7, time_low := 0, time_high := 0xffffffff\<rparr> in
     case vdrive_read_sector v (dbuffer d) (dtrack d) (dsector d) of
       (_, v, b) \<Rightarrow>
         let b = (if image_format v \<noteq> FORMAT_NP
                  then b[0 := of_nat (Dir_Track v), 1 := of_nat (Dir_Sector v)] else b) in
         (v, d\<lparr>dbuffer := b\<rparr>))"

text \<open>
  One step of the search: to the next slot, and from slot 8 to the first slot of the next
  sector. \<open>ADVANCE_END\<close> is the end of the chain, \<open>ADVANCE_ERROR\<close> an unreadable sector.
\<close>

datatype advance = ADVANCE_OK | ADVANCE_END | ADVANCE_ERROR

definition advance_slot :: "vdrive \<Rightarrow> vdrive_dir_context \<Rightarrow> advance \<times> vdrive \<times> vdrive_dir_context" where
  "advance_slot v d =
    (let d = d\<lparr>dslot := dslot d + 1\<rparr> in
     if dslot d \<ge> 8 then
       if dbuffer d ! 0 = 0 then (ADVANCE_END, v, d)
       else
         let d = d\<lparr>dslot := 0, dtrack := unat (dbuffer d ! 0), dsector := unat (dbuffer d ! 1)\<rparr> in
         case vdrive_read_sector v (dbuffer d) (dtrack d) (dsector d) of
           (status, v, b) \<Rightarrow> (if status \<noteq> 0 then ADVANCE_ERROR else ADVANCE_OK, v, d\<lparr>dbuffer := b\<rparr>)
     else (ADVANCE_OK, v, d))"

datatype slot_outcome = SEARCH_FOUND | SEARCH_NULL | SEARCH_END

partial_function (option) slot_search ::
  "(vdrive_dir_context \<Rightarrow> bool) \<Rightarrow> vdrive \<Rightarrow> vdrive_dir_context \<Rightarrow> int \<Rightarrow>
    (slot_outcome \<times> vdrive \<times> vdrive_dir_context) option" where [code]:
  "slot_search fits v d max_slots =
    (case advance_slot v d of
       (r, v, d) \<Rightarrow>
         if r = ADVANCE_END then Some (SEARCH_END, v, d)
         else if r = ADVANCE_ERROR then Some (SEARCH_NULL, v, d)
         else if fits d then Some (SEARCH_FOUND, v, d)
         else if max_slots > 0 \<and> max_slots - 1 = 0 then Some (SEARCH_NULL, v, d)
         else slot_search fits v d (if max_slots > 0 then max_slots - 1 else max_slots))"

subsection \<open>Extending the directory\<close>

definition find_next_directory_sector ::
  "vdrive \<Rightarrow> vdrive_dir_context \<Rightarrow> nat \<Rightarrow> nat \<Rightarrow> bool \<times> vdrive \<times> vdrive_dir_context" where
  "find_next_directory_sector v d t s =
    (case vdrive_bam_allocate_sector v t s of
       (r, v) \<Rightarrow>
         if r \<noteq> 0 then
           let b = (dbuffer d)[0 := of_nat t, 1 := of_nat s];
               (_, v) = vdrive_write_sector v b (dtrack d) (dsector d) in
           (True, v, d\<lparr>dslot := 0, dbuffer := (replicate 256 0)[1 := 0xff], dtrack := t, dsector := s\<rparr>)
         else (False, v, d))"

fun extend_scan ::
  "vdrive \<Rightarrow> vdrive_dir_context \<Rightarrow> nat \<Rightarrow> nat \<Rightarrow> nat \<Rightarrow> nat \<Rightarrow> bool \<times> nat \<times> vdrive \<times> vdrive_dir_context" where
  "extend_scan v d mx h s 0 = (False, s, v, d)"
| "extend_scan v d mx h s (Suc n) =
    (case find_next_directory_sector v d (dtrack d) (s + h) of
       (r, v, d) \<Rightarrow>
         if r then (True, s, v, d) else extend_scan v d mx h (if Suc s \<ge> mx then 0 else Suc s) n)"

function extend_groups ::
  "vdrive \<Rightarrow> vdrive_dir_context \<Rightarrow> nat \<Rightarrow> nat \<Rightarrow> nat \<Rightarrow> nat \<Rightarrow> nat \<Rightarrow> bool \<times> vdrive \<times> vdrive_dir_context" where
  "extend_groups v d mx mx_all h s h2 =
    (if h2 < mx_all \<and> 0 < mx then
       (case extend_scan v d mx h s mx of
          (r, s, v, d) \<Rightarrow>
            if r then (True, v, d)
            else extend_groups v d mx mx_all (if h + mx \<ge> mx_all then 0 else h + mx) s (h2 + mx))
     else (False, v, d))"
  by pat_completeness auto
termination by (relation "measure (\<lambda>(v, d, mx, mx_all, h, s, h2). mx_all - h2)") auto

declare extend_groups.simps [simp del]

text \<open>
  A subdirectory of a native partition keeps its block count in its entry in the parent, which
  the header sector points to. The result tells whether that entry was updated.
\<close>

definition count_parent :: "vdrive \<Rightarrow> buffer \<Rightarrow> bool \<times> vdrive" where
  "count_parent v tmp =
    (case vdrive_read_sector v tmp (Header_Track v) (Header_Sector v) of
       (st, v, tmp) \<Rightarrow>
         if st \<noteq> 0 then (False, v)
         else
           let t = unat (tmp ! 0x24); s = unat (tmp ! 0x25); j = unat (tmp ! 0x26) + SLOT_NR_BLOCKS - 2 in
           case vdrive_read_sector v tmp t s of
             (st, v, tmp) \<Rightarrow>
               if st \<noteq> 0 then (False, v)
               else
                 let c = unat (tmp ! j) + 256 * unat (tmp ! (j + 1)) + 1;
                     tmp = tmp[j := of_nat (c mod 256), j + 1 := of_nat (c div 256)] in
                 case vdrive_write_sector v tmp t s of (st, v) \<Rightarrow> (st = 0, v))"

definition extend_directory ::
  "vdrive \<Rightarrow> buffer \<Rightarrow> vdrive_dir_context \<Rightarrow> bool \<times> vdrive \<times> vdrive_dir_context" where
  "extend_directory v tmp d =
    (let mx = c_unsigned (vdrive_get_max_sectors_per_head v (dtrack d));
         mx_all = c_unsigned (vdrive_get_max_sectors v (dtrack d));
         h = dsector d div mx * mx;
         s = dsector d mod mx + vdrive_dir_get_interleave (image_format v);
         s = (if s \<ge> mx then (if s - mx \<noteq> 0 then s - mx - 1 else 0) else s) in
     case extend_groups v d mx mx_all h s 0 of
       (True, v, d) \<Rightarrow> (True, v, d)
     | (False, v, d) \<Rightarrow>
         if image_format v \<in> {FORMAT_NP, FORMAT_9000} then
           (case vdrive_bam_alloc_next_free_sector_interleave v (dtrack d) (dsector d)
                   (vdrive_dir_get_interleave (image_format v)) of
              (r, v, t, s) \<Rightarrow>
                if r \<noteq> 0 then (False, v, d)
                else case find_next_directory_sector (snd (vdrive_bam_free_sector v t s)) d t s of
                  (False, v, d) \<Rightarrow> (False, v, d)
                | (True, v, d) \<Rightarrow>
                    if image_format v = FORMAT_9000 \<or> (Header_Track v = 1 \<and> Header_Sector v = 1)
                    then (True, v, d)
                    else case count_parent v tmp of (r, v) \<Rightarrow> (r, v, d))
         else (False, v, d))"

definition vdrive_dir_find_next_slot_limited ::
  "vdrive \<Rightarrow> buffer \<Rightarrow> vdrive_dir_context \<Rightarrow> int \<Rightarrow> (buffer option \<times> vdrive \<times> vdrive_dir_context) option" where
  "vdrive_dir_find_next_slot_limited v tmp d max_slots =
    (case slot_search slot_matches v d max_slots of
       None \<Rightarrow> None
     | Some (SEARCH_FOUND, v, d) \<Rightarrow> Some (Some (cur_slot d), v, d)
     | Some (SEARCH_NULL, v, d) \<Rightarrow> Some (None, v, d)
     | Some (SEARCH_END, v, d) \<Rightarrow>
         if find_length d < 0 then
           (case extend_directory v tmp d of
              (r, v, d) \<Rightarrow> Some (if r then Some (dbuffer d) else None, v, d))
         else Some (None, v, d))"

definition vdrive_dir_find_next_slot ::
  "vdrive \<Rightarrow> buffer \<Rightarrow> vdrive_dir_context \<Rightarrow> (buffer option \<times> vdrive \<times> vdrive_dir_context) option" where
  "vdrive_dir_find_next_slot v tmp d = vdrive_dir_find_next_slot_limited v tmp d (-1)"

subsection \<open>Channels\<close>

text \<open>
  The channel \<open>ch\<close> of a drive, an update of it, and the contents of its buffer.
\<close>

abbreviation chan :: "vdrive \<Rightarrow> nat \<Rightarrow> bufferinfo" where
  "chan v ch \<equiv> buffers v ! ch"

definition upd_chan :: "nat \<Rightarrow> (bufferinfo \<Rightarrow> bufferinfo) \<Rightarrow> vdrive \<Rightarrow> vdrive" where
  "upd_chan ch f v = v\<lparr>buffers := (buffers v)[ch := f (buffers v ! ch)]\<rparr>"

definition chan_buf :: "vdrive \<Rightarrow> nat \<Rightarrow> buffer" where
  "chan_buf v ch = buffer_contents v (chan v ch)"

abbreviation (input) set_dir :: "nat \<Rightarrow> vdrive_dir_context \<Rightarrow> vdrive \<Rightarrow> vdrive" where
  "set_dir ch d v \<equiv> upd_chan ch (\<lambda>p. p\<lparr>dir := d\<rparr>) v"

text \<open>
  Before it uses a file, the drive switches to the partition of the channel, and on a 1581 to
  the channel's range of tracks (\<^verbatim>\<open>vdrive-iec.c\<close>).
\<close>

definition vdrive_iec_switch :: "(nat \<Rightarrow> byte) \<Rightarrow> buffer \<Rightarrow> vdrive \<Rightarrow> nat \<Rightarrow> int \<times> vdrive" where
  "vdrive_iec_switch junk tmp v ch =
    (case vdrive_switch junk tmp v (c_int (bpartition (chan v ch))) of
       (status, v) \<Rightarrow>
         let p = chan v ch in
         if status = 0 \<and> image_format v = FORMAT_1581 \<and> (Part_Start v \<noteq> partstart p \<or> Part_End v \<noteq> partend p) then
           let v = snd (vdrive_bam_write_bam v);
               v = v\<lparr>Header_Track := partstart p, Header_Sector := 0, Bam_Track := partstart p, Bam_Sector := 0,
                     Dir_Track := partstart p, Dir_Sector := 3, Part_Start := partstart p, Part_End := partend p\<rparr> in
           (status, vdrive_bam_setup_bam junk v)
         else (status, v))"

subsection \<open>Creating and removing slots\<close>

definition vdrive_dir_create_slot :: "vdrive \<Rightarrow> nat \<Rightarrow> buffer \<Rightarrow> nat \<Rightarrow> nat \<Rightarrow> vdrive" where
  "vdrive_dir_create_slot v ch realname reallength ftype =
    (let slot = memset (replicate 32 0) SLOT_NAME_OFFSET 0xa0 16;
         slot = write_at slot SLOT_NAME_OFFSET (take reallength realname);
         slot = slot[SLOT_TYPE_OFFSET := of_nat ftype] in
     upd_chan ch (\<lambda>p. (vdrive_alloc_buffer (p\<lparr>bslot := Some slot\<rparr>) (-1) BUFFER_SEQUENTIAL)\<lparr>bufptr := 2\<rparr>) v)"

text \<open>Scratching the side sectors of a relative file (\<^verbatim>\<open>vdrive-rel.c\<close>).\<close>

definition vdrive_rel_has_super :: "vdrive \<Rightarrow> nat" where
  "vdrive_rel_has_super v = (if image_format v \<in> {FORMAT_1581, FORMAT_8250, FORMAT_9000, FORMAT_NP} then 1 else 0)"

primrec scratch_groups :: "vdrive \<Rightarrow> buffer \<Rightarrow> buffer \<Rightarrow> nat list \<Rightarrow> vdrive option" where
  "scratch_groups v buf tmp [] = Some v"
| "scratch_groups v buf tmp (i # is') =
    (case vdrive_dir_free_chain v buf (unat (tmp ! (3 + i * 2))) (unat (tmp ! (3 + 1 + i * 2))) of
       None \<Rightarrow> None | Some v \<Rightarrow> scratch_groups v buf tmp is')"

definition vdrive_rel_scratch :: "vdrive \<Rightarrow> buffer \<Rightarrow> buffer \<Rightarrow> nat \<Rightarrow> nat \<Rightarrow> vdrive option" where
  "vdrive_rel_scratch v buf tmp t s =
    (if vdrive_rel_has_super v \<noteq> 0 then
       (case vdrive_read_sector v tmp t s of
          (st, v, tmp) \<Rightarrow>
            if st \<noteq> 0 then Some v
            else if tmp ! 2 \<noteq> 0xfe then Some v
            else scratch_groups v buf tmp [0..<126])
     else vdrive_dir_free_chain v buf t s)"

definition vdrive_dir_remove_slot ::
  "vdrive \<Rightarrow> buffer \<Rightarrow> buffer \<Rightarrow> vdrive_dir_context \<Rightarrow> (vdrive \<times> vdrive_dir_context) option" where
  "vdrive_dir_remove_slot v buf tmp d =
    (let slot = dslot d * 32; at = (\<lambda>i. unat (dbuffer d ! (slot + i))) in
     case vdrive_dir_free_chain v buf (at SLOT_FIRST_TRACK) (at SLOT_FIRST_SECTOR) of
       None \<Rightarrow> None
     | Some v \<Rightarrow>
         (case vdrive_rel_scratch v buf tmp (at SLOT_SIDE_TRACK) (at SLOT_SIDE_SECTOR) of
            None \<Rightarrow> None
          | Some v \<Rightarrow>
              let v = snd (vdrive_bam_write_bam v);
                  d = d\<lparr>dbuffer := (dbuffer d)[slot + SLOT_TYPE_OFFSET := 0]\<rparr> in
              Some (snd (vdrive_write_sector v (dbuffer d) (dtrack d) (dsector d)), d)))"

definition vdrive_dir_no_a0_pads :: "buffer \<Rightarrow> buffer" where
  "vdrive_dir_no_a0_pads xs = map (\<lambda>b. if b = 0xa0 then 0x20 else b) xs"

text \<open>The last equal sign of a name that is not its first character, or its first character.\<close>

fun last_equal_sign :: "buffer \<Rightarrow> nat \<Rightarrow> nat" where
  "last_equal_sign name 0 = 0"
| "last_equal_sign name (Suc p) =
    (if name ! Suc p \<noteq> asc CHR ''='' then last_equal_sign name p else Suc p)"

definition type_char :: "byte \<Rightarrow> nat option" where
  "type_char b =
    (if b = asc CHR ''S'' then Some CBMDOS_FT_SEQ
     else if b = asc CHR ''P'' then Some CBMDOS_FT_PRG
     else if b = asc CHR ''U'' then Some CBMDOS_FT_USR
     else if b = asc CHR ''R'' then Some CBMDOS_FT_REL
     else if b = asc CHR ''C'' then Some CBMDOS_FT_CBM
     else if b = asc CHR ''D'' then Some CBMDOS_FT_DIR
     else None)"

definition vdrive_dir_filetype :: "buffer \<Rightarrow> nat \<Rightarrow> nat" where
  "vdrive_dir_filetype name len =
    (let p = last_equal_sign name (len - 1) in
     if name ! p = asc CHR ''='' then
       (case type_char (name ! (p + 1)) of Some ty \<Rightarrow> ty | None \<Rightarrow> CBMDOS_FT_DEL)
     else CBMDOS_FT_DEL)"

subsection \<open>Directory listings\<close>

text \<open>A date \<open>MM/DD/YY HH:MM xM\<close> at position \<open>p\<close>; \<open>def\<close> if it has another form.\<close>

definition two_digit_value :: "buffer \<Rightarrow> nat \<Rightarrow> nat" where
  "two_digit_value xs p = (unat (xs ! p) - 0x30) * 10 + (unat (xs ! (p + 1)) - 0x30)"

definition asciidate_to_int :: "buffer \<Rightarrow> nat \<Rightarrow> nat \<Rightarrow> nat" where
  "asciidate_to_int xs p def =
    (let at = (\<lambda>i. xs ! (p + i)) in
     if at 2 \<noteq> asc CHR ''/'' \<or> at 5 \<noteq> asc CHR ''/'' \<or> at 8 \<noteq> asc CHR '' '' \<or> at 14 \<noteq> asc CHR '' '' \<or>
        at 16 \<noteq> asc CHR ''M'' \<or> (at 11 \<noteq> asc CHR '':'' \<and> at 11 \<noteq> asc CHR ''.'') \<or>
        (at 15 \<noteq> asc CHR ''A'' \<and> at 15 \<noteq> asc CHR ''P'') then def
     else if \<not> list_all (\<lambda>i. is_digit (at i)) [0, 1, 3, 4, 6, 7, 9, 10, 12, 13] then def
     else
       let month = two_digit_value xs p; day = two_digit_value xs (p + 3); year = two_digit_value xs (p + 6);
           hour = two_digit_value xs (p + 9); minute = two_digit_value xs (p + 12); ap = (at 15 = asc CHR ''P'') in
       if month > 12 \<or> day > 31 \<or> hour > 12 \<or> minute > 59 then def
       else
         let hour = (if hour = 12 \<and> \<not> ap then 0 else if hour > 0 \<and> ap then hour + 12 else hour) in
         date_to_int year month day hour minute)"

text \<open>
  The options behind the equal sign of a listing's name: file types, the time format and the
  date limits. The code reads them from memory it has just freed; the model reads the name.
\<close>

function list_options :: "buffer \<Rightarrow> nat \<Rightarrow> nat \<Rightarrow> nat \<Rightarrow> bufferinfo \<Rightarrow> nat \<times> bufferinfo" where
  "list_options name limit c ty p =
    (if c < limit then
       let b = name ! c in
       if b = asc CHR '','' \<or> b = asc CHR ''='' then list_options name limit (Suc c) ty p
       else if b = asc CHR ''L'' then list_options name limit (Suc c) ty (p\<lparr>timemode := 2\<rparr>)
       else if b = asc CHR ''N'' then list_options name limit (Suc c) ty (p\<lparr>timemode := 0\<rparr>)
       else if type_char b \<noteq> None then list_options name limit (Suc c) (the (type_char b)) p
       else if b = asc CHR ''>'' \<or> b = asc CHR ''<'' then
         let p = (if c + 17 < limit then
                    if b = asc CHR ''>'' then p\<lparr>dir := (dir p)\<lparr>time_low := asciidate_to_int name (c + 1) 0\<rparr>\<rparr>
                    else p\<lparr>dir := (dir p)\<lparr>time_high := asciidate_to_int name (c + 1) 0xffffffff\<rparr>\<rparr>
                  else p);
             c = (case memchr name c (asc CHR '','') (limit - c) of Some q \<Rightarrow> q | None \<Rightarrow> limit) in
         list_options name limit (Suc c) ty p
       else list_options name limit (Suc c) ty p
     else (ty, p))"
  by pat_completeness auto
termination
proof (relation "measure (\<lambda>(name, limit, c, ty, p). limit - c)", goal_cases)
  case (6 name limit c ty p b p' c')
  then have "c \<le> c'" by (auto dest!: memchr_Some split: option.splits)
  then show ?case using 6 by simp
qed auto

declare list_options.simps [simp del]

definition list_header :: "vdrive \<Rightarrow> nat \<Rightarrow> vdrive \<times> vdrive_dir_context" where
  "list_header v ch =
    (let d = (dir (chan v ch))\<lparr>dtrack := Header_Track v, dsector := Header_Sector v, dslot := 7\<rparr> in
     case vdrive_read_sector v (dbuffer d) (dtrack d) (dsector d) of
       (_, v, b) \<Rightarrow>
         let b = (if image_format v \<noteq> FORMAT_NP
                  then b[0 := of_nat (Dir_Track v), 1 := of_nat (Dir_Sector v)] else b) in
         (v, d\<lparr>dbuffer := b\<rparr>))"

text \<open>The name and the type of a listing, and the search they start.\<close>

definition list_start :: "vdrive \<Rightarrow> cbmdos_cmd_parse_plus \<Rightarrow> nat \<Rightarrow> vdrive" where
  "list_start v cp ch =
    (let (name, len) =
       (if pfile cp \<noteq> None \<and> filelength cp > 0 then (the (pfile cp), filelength cp)
        else if colon cp \<noteq> 0 then ([0], 1)
        else ([asc CHR ''*'', 0], 1));
         c = memchr name 0 (asc CHR ''='') len;
         newlen = (case c of Some q \<Rightarrow> q | None \<Rightarrow> len);
         (v, d) = vdrive_dir_find_first_slot v name (int newlen) CBMDOS_FT_DEL (dir (chan v ch));
         v = set_dir ch d v;
         (ty, p) = (case c of Some q \<Rightarrow> list_options name len q CBMDOS_FT_DEL (chan v ch)
                    | None \<Rightarrow> (CBMDOS_FT_DEL, chan v ch)) in
     upd_chan ch (\<lambda>_. p\<lparr>dir := (dir p)\<lparr>find_type := ty\<rparr>\<rparr>) v)"

definition vdrive_dir_first_directory :: "vdrive \<Rightarrow> cbmdos_cmd_parse_plus option \<Rightarrow> nat \<Rightarrow> int \<times> vdrive" where
  "vdrive_dir_first_directory v cp ch =
    (let sm = (bsmall (chan v ch) \<noteq> 0);
         v = (if \<not> sm then list_start v (the cp) ch
              else (case list_header v ch of (v, d) \<Rightarrow> set_dir ch d v));
         b = dbuffer (dir (chan v ch));
         line = (if sm then [] else [1, 8]) @ [1, 1, of_int (current_part v), 0, 0x12, asc CHR 0x22] @
           vdrive_dir_no_a0_pads (slice b (bam_name v) 16) @ [asc CHR 0x22, asc CHR '' ''] @
           vdrive_dir_no_a0_pads (slice b (bam_id v) 5) @ (if sm then [asc CHR '' '', asc CHR '' ''] else []) @ [0];
         v = buffer_store v ch line;
         v = upd_chan ch (\<lambda>p. p\<lparr>bufptr := length line, bsmall := 1\<rparr>) v in
     (int (length line) - 1, v))"

text \<open>
  One entry of a listing at position \<open>k\<close> of the buffer: the block count, the name in quotes,
  and the type. The second component is the position of the name, from which the type's
  position is counted.
\<close>

definition put_name :: "buffer \<Rightarrow> nat \<Rightarrow> buffer \<Rightarrow> nat \<Rightarrow> buffer \<Rightarrow> buffer \<times> nat" where
  "put_name b k count blocks name =
    (let b = write_at b k ([1, 1] @ count @ replicate 27 0x20 @ [0]);
         q = k + 5 + (if blocks < 10 then 1 else 0) + (if blocks < 100 then 1 else 0);
         i = length (takeWhile (\<lambda>c. c \<noteq> 0xa0) name);
         b = write_at b q (asc CHR 0x22 # vdrive_dir_no_a0_pads name) in
     (b[q + 1 + i := asc CHR 0x22], q + 1))"

definition slot_name :: "buffer \<Rightarrow> buffer" where
  "slot_name slot = slice slot SLOT_NAME_OFFSET 16"

definition put_slot :: "buffer \<Rightarrow> nat \<Rightarrow> buffer \<Rightarrow> buffer \<times> nat" where
  "put_slot b k slot =
    (let lo = slot ! SLOT_NR_BLOCKS; hi = slot ! (SLOT_NR_BLOCKS + 1);
         (b, l) = put_name b k [lo, hi] (unat lo + unat hi * 256) (slot_name slot) in
     (b[l + 17 := if bit (slot ! SLOT_TYPE_OFFSET) 7 then asc CHR '' '' else asc CHR ''*''], l))"

definition type_text :: "buffer \<Rightarrow> buffer" where
  "type_text slot = map of_char (cbmdos_filetype_get (unat (slot ! SLOT_TYPE_OFFSET AND 0x07)))"

definition put_type :: "buffer \<Rightarrow> nat \<Rightarrow> buffer \<Rightarrow> buffer" where
  "put_type b l slot =
    (write_at b (l + 18) (type_text slot))[l + 21 := if bit (slot ! SLOT_TYPE_OFFSET) 6 then asc CHR ''<'' else asc CHR '' '']"

text \<open>The entry with its time, padded with ones to 41 or 63 bytes and a zero.\<close>

definition put_time :: "buffer \<Rightarrow> nat \<Rightarrow> nat \<Rightarrow> buffer \<Rightarrow> int \<Rightarrow> buffer \<times> nat" where
  "put_time b k l slot md =
    (let at = (\<lambda>i. unat (slot ! i));
         h = at SLOT_GEOS_HOUR;
         (hour, ap) = (if h = 0 then (12, ''A'') else if h = 12 then (h, ''P'') else if h > 12 then (h - 12, ''P'') else (h, ''A''));
         txt = (\<lambda>s. map of_char s @ [0] :: buffer);
         (b, q, limit) =
           (if md = 1 then
              (write_at (b[l + 18 := hd (type_text slot)]) (l + 19)
                (txt ('' '' @ two_digits (at SLOT_GEOS_MONTH) @ ''/'' @ two_digits (at SLOT_GEOS_DATE) @ '' '' @
                  two_digits hour @ ''.'' @ two_digits (at SLOT_GEOS_MINUTE) @ '' '' @ ap)), l + 33, k + 41)
            else
              (write_at (put_type b l slot) (l + 22)
                (txt (''  '' @ two_digits (at SLOT_GEOS_MONTH) @ ''/'' @ two_digits (at SLOT_GEOS_DATE) @ ''/'' @
                  two_digits (at SLOT_GEOS_YEAR mod 100) @ ''   '' @ two_digits hour @ ''.'' @
                  two_digits (at SLOT_GEOS_MINUTE) @ '' '' @ ap @ ''M'')), l + 43, k + 63));
         b = memset b q 1 (limit - q);
         q = max q limit in
     (b[q := 0], q - k))"

text \<open>
  The loop that fills the buffer with entries. It returns the length of the buffer's contents,
  or \<open>None\<close> at the end of the directory.
\<close>

partial_function (option) list_entries :: "buffer \<Rightarrow> bool \<Rightarrow> nat \<Rightarrow> vdrive \<Rightarrow> (int option \<times> vdrive) option" where [code]:
  "list_entries tmp wild ch v =
    (case vdrive_dir_find_next_slot v tmp (dir (chan v ch)) of
       None \<Rightarrow> None
     | Some (res, v, d) \<Rightarrow>
         (case res of
            None \<Rightarrow> Some (None, set_dir ch d v)
          | Some slot \<Rightarrow>
              let d = (if wild then d else d\<lparr>dslot := 8, dbuffer := (dbuffer d)[0 := 0]\<rparr>);
                  v = set_dir ch d v;
                  p = chan v ch; k = bufptr p in
              if slot ! SLOT_TYPE_OFFSET \<noteq> 0 then
                let (b, l) = put_slot (chan_buf v ch) k slot in
                if timemode p \<noteq> 0 then
                  let (b, n) = put_time b k l slot (timemode p) in
                  Some (Some (int n), upd_chan ch (\<lambda>p. p\<lparr>bsmall := 1\<rparr>) (buffer_store v ch b))
                else
                  let v = buffer_store v ch (put_type b l slot);
                      v = upd_chan ch (\<lambda>p. p\<lparr>bufptr := (k + 32) mod 256\<rparr>) v in
                  if (k + 32) mod 256 = 0 then Some (Some 0, v) else list_entries tmp wild ch v
              else list_entries tmp wild ch v))"

text \<open>The last line. With one drive only, the next drive of a list of all drives is drive 0.\<close>

definition list_free_blocks :: "(nat \<Rightarrow> byte) \<Rightarrow> buffer \<Rightarrow> nat \<Rightarrow> vdrive \<Rightarrow> int \<times> vdrive" where
  "list_free_blocks junk tmp ch v =
    (let v = v\<lparr>dir_count := dir_count v - 1\<rparr>;
         (blocks, v) = vdrive_bam_free_block_count v;
         k = bufptr (chan v ch);
         line = [1, 1, of_nat blocks, of_nat (blocks div 256)] @ map of_char ''BLOCKS FREE.'' @ replicate 15 0x20;
         v = buffer_store v ch (write_at (chan_buf v ch) k line);
         v = (if dir_count v \<noteq> 0 then
                let part = bpartition (chan v ch);
                    v = upd_chan ch (\<lambda>p. p\<lparr>bpartition := 0\<rparr>) v;
                    (st, v) = vdrive_iec_switch junk tmp v ch;
                    v = (if st \<noteq> 0 then v\<lparr>dir_count := 0\<rparr> else v);
                    v = upd_chan ch (\<lambda>p. p\<lparr>bpartition := part\<rparr>) v in
                snd (vdrive_iec_switch junk tmp v ch)
              else v);
         v = (if dir_count v \<noteq> 0
              then (upd_chan ch (\<lambda>p. p\<lparr>bsmall := 1, mode := BUFFER_DIRECTORY_MORE_READ\<rparr>) v)\<lparr>dir_part := 0\<rparr>
              else buffer_store v ch ((chan_buf v ch)[k + 29 := 0, k + 30 := 0]));
         v = buffer_store v ch ((chan_buf v ch)[k + 31 := 0]) in
     (int k + 31, v))"

definition vdrive_dir_next_directory ::
  "(nat \<Rightarrow> byte) \<Rightarrow> buffer \<Rightarrow> vdrive \<Rightarrow> nat \<Rightarrow> (int \<times> vdrive) option" where
  "vdrive_dir_next_directory junk tmp v ch =
    (let d = dir (chan v ch);
         wild = (cbmdos_parse_wildcard_check (find_nslot d) (nat (find_length d)) \<noteq> 0);
         v = upd_chan ch (\<lambda>p. p\<lparr>bsmall := 0\<rparr>) v in
     case list_entries tmp wild ch v of
       None \<Rightarrow> None
     | Some (Some n, v) \<Rightarrow> Some (n, v)
     | Some (None, v) \<Rightarrow> Some (list_free_blocks junk tmp ch v))"

subsection \<open>The clock\<close>

text \<open>The time the host reports (\<^verbatim>\<open>archdep_get_time\<close>) is an argument.\<close>

record archdep_tm =
  tm_wday :: int
  tm_year :: int
  tm_mon :: int
  tm_mday :: int
  tm_hour :: int
  tm_min :: int
  tm_sec :: int

definition vdrive_dir_updatetime :: "archdep_tm \<Rightarrow> buffer \<Rightarrow> buffer" where
  "vdrive_dir_updatetime ts slot =
    slot[SLOT_GEOS_YEAR := of_int (tm_year ts mod 100), SLOT_GEOS_MONTH := of_int (tm_mon ts + 1),
         SLOT_GEOS_DATE := of_int (tm_mday ts), SLOT_GEOS_HOUR := of_int (tm_hour ts),
         SLOT_GEOS_MINUTE := of_int (tm_min ts)]"

subsection \<open>Partition listings\<close>

definition vdrive_dir_part_find_first_slot ::
  "buffer \<Rightarrow> int \<Rightarrow> nat \<Rightarrow> vdrive_dir_context \<Rightarrow> vdrive_dir_context" where
  "vdrive_dir_part_find_first_slot name len ty d =
    (let d = (if len > 0 then d\<lparr>find_nslot := cbmdos_dir_slot_create name (nat len)\<rparr> else d) in
     d\<lparr>find_length := len, find_type := ty, dtrack := 1, dsector := 0, dslot := 7,
       dbuffer := (dbuffer d)[0 := 1, 1 := 0]\<rparr>)"

definition vdrive_dir_part_name_match :: "buffer \<Rightarrow> buffer \<Rightarrow> int \<Rightarrow> nat \<Rightarrow> nat" where
  "vdrive_dir_part_name_match slot nslot len ty =
    (if slot ! 2 = 0 then 0
     else if ty \<noteq> 0 \<and> ty \<noteq> unat (slot ! 2) then 0
     else cbmdos_parse_wildcard_compare nslot (nat len) (drop 5 slot))"

definition part_slot_matches :: "vdrive_dir_context \<Rightarrow> bool" where
  "part_slot_matches d = (vdrive_dir_part_name_match (cur_slot d) (find_nslot d) (find_length d) (find_type d) \<noteq> 0)"

definition vdrive_dir_part_find_next_slot ::
  "vdrive \<Rightarrow> vdrive_dir_context \<Rightarrow> (buffer option \<times> vdrive \<times> vdrive_dir_context) option" where
  "vdrive_dir_part_find_next_slot v d =
    (case slot_search part_slot_matches v d (-1) of
       None \<Rightarrow> None
     | Some (r, v, d) \<Rightarrow> Some (if r = SEARCH_FOUND then Some (cur_slot d) else None, v, d))"

definition ptypes :: "string list" where
  "ptypes = [''SYS'', ''NAT'', ''41 '', ''71 '', ''81 '', ''C81'', ''PRN'', ''FOR'']"

partial_function (option) list_parts :: "nat \<Rightarrow> vdrive \<Rightarrow> (int option \<times> vdrive) option" where [code]:
  "list_parts ch v =
    (case vdrive_dir_part_find_next_slot v (dir (chan v ch)) of
       None \<Rightarrow> None
     | Some (res, v, d) \<Rightarrow>
         (case res of
            None \<Rightarrow> Some (None, set_dir ch d v)
          | Some slot \<Rightarrow>
              let v = set_dir ch d v; k = bufptr (chan v ch) in
              if slot ! 2 \<noteq> 0 then
                let blocks = push_bit 3 (dsector d) OR dslot d;
                    (b, l) = put_name (chan_buf v ch) k [of_nat blocks, 0] blocks (slot_name slot);
                    i = unat (slot ! SLOT_TYPE_OFFSET);
                    i = (if i = 255 then 0 else i);
                    v = buffer_store v ch (write_at b (l + 18) (map of_char (ptypes ! i)));
                    v = upd_chan ch (\<lambda>p. p\<lparr>bufptr := (k + 32) mod 256\<rparr>) v in
                if (k + 32) mod 256 = 0 then Some (Some 0, v) else list_parts ch v
              else list_parts ch v))"

definition vdrive_dir_part_next_directory :: "vdrive \<Rightarrow> nat \<Rightarrow> (int \<times> vdrive) option" where
  "vdrive_dir_part_next_directory v ch =
    (case list_parts ch v of
       None \<Rightarrow> None
     | Some (Some n, v) \<Rightarrow> Some (n, v)
     | Some (None, v) \<Rightarrow>
         let k = bufptr (chan v ch) in
         Some (int k + 3, buffer_store v ch (write_at (chan_buf v ch) k [0, 0, 0])))"

definition part_type_char :: "byte \<Rightarrow> nat" where
  "part_type_char b =
    (if b = asc CHR ''N'' then 1 else if b = asc CHR ''4'' then 2 else if b = asc CHR ''7'' then 3
     else if b = asc CHR ''8'' then 4 else if b = asc CHR ''C'' then 5 else 0)"

definition vdrive_dir_part_first_directory :: "vdrive \<Rightarrow> buffer \<Rightarrow> nat \<Rightarrow> nat \<Rightarrow> (int \<times> vdrive) option" where
  "vdrive_dir_part_first_directory v name len ch =
    (let (name, len) = (if len < 1 then ([asc CHR ''*'', 0], 1) else (name, len));
         c = memchr name 0 (asc CHR ''='') len;
         ty = (case c of Some q \<Rightarrow> if q + 1 < len then part_type_char (name ! (q + 1)) else 0 | None \<Rightarrow> 0);
         len = (case c of Some q \<Rightarrow> q | None \<Rightarrow> len);
         v = upd_chan ch (\<lambda>p. p\<lparr>dir := vdrive_dir_part_find_first_slot name (int len) ty (dir p)\<rparr>) v;
         nm = (if VDRIVE_IS_HD v then ''HD'' else ''FD'');
         line = [1, 4, 1, 1, 255, 0, 0x12, asc CHR 0x22] @
           vdrive_dir_no_a0_pads (map of_char (''CMD '' @ nm @ ''          '')) @ [asc CHR 0x22, asc CHR '' ''] @
           vdrive_dir_no_a0_pads (map of_char (nm @ '' 1H'')) @ [0];
         v = upd_chan ch (\<lambda>p. p\<lparr>bufptr := 32\<rparr>) (buffer_store v ch line) in
     vdrive_dir_part_next_directory v ch)"

end
