(* ===== verification/DirSearch.thy ===== *)
theory DirSearch
  imports Dir
begin

text \<open>
  Chains of sectors on a disk, and what the directory code does with them: the search visits
  the slots of the directory in order and finds the first that fits; freeing a file's chain
  frees exactly its sectors and always ends; the search does not, on a directory whose links
  form a cycle, unless it is limited.
\<close>

subsection \<open>Reading on a mounted disk\<close>

text \<open>A usable drive whose access mode is up to date: reading does not change it.\<close>

definition mounted :: "vdrive \<Rightarrow> bool" where
  "mounted v = (drive_ok v \<and> errors_known (cur_image v) \<and> image_mode v = 0)"

lemma mounted_update [simp]: "mounted v \<Longrightarrow> update_image_mode v = v"
  by (cases v) (simp add: mounted_def update_image_mode_def drive_ok_def dxx_ok_def)

text \<open>The sector at an address holds these bytes and is readable.\<close>

definition holds :: "vdrive \<Rightarrow> nat \<times> nat \<Rightarrow> buffer \<Rightarrow> bool" where
  "holds v a b = (logical_valid v a \<and> logical_read v a = (0, b) \<and> length b = 256)"

lemma holds_read:
  "mounted v \<Longrightarrow> holds v (t, s) b \<Longrightarrow> length buf = 256 \<Longrightarrow> vdrive_read_sector v buf t s = (0, v, b)"
  using read_any_buffer [of v t s b v buf] by (simp add: mounted_def holds_def same_disk_def)

lemma holds_same_drive:
  assumes "same_drive v w"
  shows "holds w = holds v"
  using same_disk_read [OF same_drive_disk(1,2) [OF assms]] by (intro ext) (simp add: holds_def)

text \<open>Writing a sector of a mounted disk changes the contents of the disk only.\<close>

lemma mounted_write:
  assumes "mounted v" "logical_valid v (t, s)" "length b = 256"
  obtains h where "vdrive_write_sector v b t s = (0, v\<lparr>disk_heap := h\<rparr>)" "logical_write v (t, s) b = v\<lparr>disk_heap := h\<rparr>"
    "mounted (v\<lparr>disk_heap := h\<rparr>)" "logical_valid (v\<lparr>disk_heap := h\<rparr>) = logical_valid v"
    "\<And>a x. holds (v\<lparr>disk_heap := h\<rparr>) a x = (if a = (t, s) then x = b else holds v a x)"
    "itype (cur_image (v\<lparr>disk_heap := h\<rparr>)) = itype (cur_image v)"
proof -
  have ok: "drive_ok v" using assms(1) by (simp add: mounted_def)
  obtain a where a: "vdrive_log_to_phy v t s = Some a" "in_image (cur_image v) (addr_pair a)"
    using assms(2) by (auto simp: logical_valid_def split: option.splits)
  define w where "w = logical_write v (t, s) b"
  have w: "w = v\<lparr>disk_heap := disk_heap w\<rparr>"
    unfolding w_def logical_write_eq [OF ok a(1)] mounted_update [OF assms(1)] by (simp add: set_cur_image_def)
  have valid: "logical_valid w = logical_valid v"
    using logical.write_valid [OF ok assms(2,3)] by (intro ext) (simp add: w_def)
  have "mounted w"
    using assms(1) logical.write_invar [OF ok assms(2,3)] logical_write_simps(6) [OF ok assms(2,3)] w
    unfolding mounted_def w_def [symmetric] by (metis vdrive.select_convs(5) vdrive.surjective vdrive.update_convs(2))
  moreover have "holds w a x = (if a = (t, s) then x = b else holds v a x)" for a x
    using assms(2,3) valid logical.read_write [OF ok assms(2,3), of a] by (auto simp: holds_def w_def)
  moreover have "vdrive_write_sector v b t s = (0, w)"
    using write_sector_ok [OF ok assms(2,3)] by (simp add: w_def)
  moreover have "itype (cur_image w) = itype (cur_image v)"
    using logical_write_keeps(1) [OF ok a assms(3)] a(2) assms(3) ok by (simp add: w_def drive_ok_def)
  ultimately show ?thesis
    using that [of "disk_heap w"] valid w w_def by metis
qed

subsection \<open>Chains\<close>

abbreviation (input) link :: "buffer \<Rightarrow> nat \<times> nat" where
  "link b \<equiv> (unat (b ! 0), unat (b ! 1))"

text \<open>The sectors a chain of links leads to; track 0 ends it.\<close>

fun chained :: "vdrive \<Rightarrow> nat \<times> nat \<Rightarrow> ((nat \<times> nat) \<times> buffer) list \<Rightarrow> bool" where
  "chained v a [] = (fst a = 0)"
| "chained v a ((a', b) # cs) = (a' = a \<and> fst a \<noteq> 0 \<and> holds v a b \<and> chained v (link b) cs)"

lemma chained_same_drive: "same_drive v w \<Longrightarrow> chained w a cs = chained v a cs"
  by (induction v a cs rule: chained.induct) (simp_all add: holds_same_drive)

text \<open>A chain that ends is unique, and its sectors are all different.\<close>

lemma chained_unique: "chained v a cs \<Longrightarrow> chained v a ds \<Longrightarrow> cs = ds"
proof (induction v a cs arbitrary: ds rule: chained.induct)
  case (1 v a)
  then show ?case by (cases ds) auto
next
  case (2 v a a' b cs)
  then obtain d ds' where ds: "ds = d # ds'" by (cases ds) auto
  obtain b' where d: "d = (a, b')" "holds v a b'" "chained v (link b') ds'"
    using "2.prems"(2) ds by (cases d) auto
  have "b' = b" using d(2) "2.prems"(1) by (simp add: holds_def)
  then show ?case using "2.IH" [of ds'] "2.prems"(1) d ds by simp
qed

lemma chained_suffix: "chained v p (xs @ (a, b) # ys) \<Longrightarrow> chained v a ((a, b) # ys)"
  by (induction xs arbitrary: p) auto

lemma chained_distinct: "chained v a cs \<Longrightarrow> distinct (map fst cs)"
proof (induction v a cs rule: chained.induct)
  case (2 v a a' b cs)
  have "a \<notin> fst ` set cs"
  proof
    assume "a \<in> fst ` set cs"
    then obtain xs b' ys where cs: "cs = xs @ (a, b') # ys" by (metis imageE prod.collapse split_list)
    then have "chained v a ((a, b') # ys)" using chained_suffix "2.prems" by (metis chained.simps(2))
    then have "(a, b') # ys = (a, b) # cs" using chained_unique "2.prems" by (metis chained.simps(2))
    then show False using cs by simp
  qed
  then show ?case using 2 by simp
qed simp

subsection \<open>The slots of a directory\<close>

text \<open>The search contexts at the slots behind the one a context stands on.\<close>

definition slots_of :: "vdrive_dir_context \<Rightarrow> (nat \<times> nat) \<times> buffer \<Rightarrow> vdrive_dir_context list" where
  "slots_of d c = map (\<lambda>i. d\<lparr>dbuffer := snd c, dslot := i, dtrack := fst (fst c), dsector := snd (fst c)\<rparr>) [0..<8]"

definition visits :: "vdrive_dir_context \<Rightarrow> ((nat \<times> nat) \<times> buffer) list \<Rightarrow> vdrive_dir_context list" where
  "visits d cs = map (\<lambda>i. d\<lparr>dslot := i\<rparr>) [Suc (dslot d)..<8] @ concat (map (slots_of d) cs)"

definition at_end :: "vdrive_dir_context \<Rightarrow> ((nat \<times> nat) \<times> buffer) list \<Rightarrow> vdrive_dir_context" where
  "at_end d cs = (if cs = [] then d\<lparr>dslot := Suc (max 7 (dslot d))\<rparr>
     else d\<lparr>dbuffer := snd (last cs), dslot := 8, dtrack := fst (fst (last cs)), dsector := snd (fst (last cs))\<rparr>)"

lemma slots_of_moved [simp]:
  "slots_of (d\<lparr>dslot := i\<rparr>) = slots_of d"
  "slots_of (d\<lparr>dbuffer := b, dslot := i, dtrack := t, dsector := s\<rparr>) = slots_of d"
  by (simp_all add: slots_of_def fun_eq_iff)

lemma visits_in_sector:
  assumes "Suc (dslot d) < 8"
  shows "visits d cs = d\<lparr>dslot := Suc (dslot d)\<rparr> # visits (d\<lparr>dslot := Suc (dslot d)\<rparr>) cs"
    "at_end (d\<lparr>dslot := Suc (dslot d)\<rparr>) cs = at_end d cs"
  using assms by (simp_all add: visits_def upt_conv_Cons at_end_def max_def)

lemma visits_next_sector:
  assumes "\<not> Suc (dslot d) < 8"
  shows "visits d (((t, s), b) # cs) =
      d\<lparr>dbuffer := b, dslot := 0, dtrack := t, dsector := s\<rparr> #
      visits (d\<lparr>dbuffer := b, dslot := 0, dtrack := t, dsector := s\<rparr>) cs"
    "at_end (d\<lparr>dbuffer := b, dslot := 0, dtrack := t, dsector := s\<rparr>) cs = at_end d (((t, s), b) # cs)"
  using assms by (simp_all add: visits_def upt_conv_Cons at_end_def) (simp add: slots_of_def upt_conv_Cons)

lemma slot_search_visits:
  assumes "mounted v" "length (dbuffer d) = 256" "chained v (link (dbuffer d)) cs" "n \<le> 0"
  shows "slot_search fits v d n =
    (case find fits (visits d cs) of
       Some d' \<Rightarrow> Some (SEARCH_FOUND, v, d') | None \<Rightarrow> Some (SEARCH_END, v, at_end d cs))"
  using assms
proof (induction "length (visits d cs)" arbitrary: d cs)
  case 0
  then have e: "cs = []" "\<not> Suc (dslot d) < 8"
    by (cases cs; auto simp: visits_def slots_of_def)+
  then have "advance_slot v d = (ADVANCE_END, v, d\<lparr>dslot := Suc (dslot d)\<rparr>)"
    using "0.prems" by (simp add: advance_slot_def unat_eq_0)
  then show ?case using e by (subst slot_search.simps) (simp add: visits_def at_end_def max_def)
next
  case (Suc k)
  show ?case
  proof (cases "Suc (dslot d) < 8")
    case True
    let ?d = "d\<lparr>dslot := Suc (dslot d)\<rparr>"
    have "advance_slot v d = (ADVANCE_OK, v, ?d)" using True by (simp add: advance_slot_def)
    moreover have "slot_search fits v ?d n = (case find fits (visits ?d cs) of
       Some d' \<Rightarrow> Some (SEARCH_FOUND, v, d') | None \<Rightarrow> Some (SEARCH_END, v, at_end ?d cs))"
      using Suc.prems Suc.hyps(2) visits_in_sector(1) [OF True, of cs] by (intro Suc.hyps(1)) simp_all
    ultimately show ?thesis
      using Suc.prems(4) visits_in_sector [OF True, of cs] by (subst slot_search.simps) (simp split: option.split)
  next
    case False
    then obtain t s b cs' where cs: "cs = ((t, s), b) # cs'"
      using Suc.hyps(2) by (cases cs) (auto simp: visits_def)
    let ?d = "d\<lparr>dbuffer := b, dslot := 0, dtrack := t, dsector := s\<rparr>"
    have c: "(t, s) = link (dbuffer d)" "t \<noteq> 0" "holds v (t, s) b" "chained v (link b) cs'"
      using Suc.prems(3) by (auto simp: cs)
    have rd: "vdrive_read_sector v (dbuffer d) t s = (0, v, b)"
      using holds_read [OF Suc.prems(1) c(3) Suc.prems(2)] .
    then have "advance_slot v d = (ADVANCE_OK, v, ?d)"
      using False c(1,2) by (auto simp: advance_slot_def unat_eq_0)
    moreover have "slot_search fits v ?d n = (case find fits (visits ?d cs') of
       Some d' \<Rightarrow> Some (SEARCH_FOUND, v, d') | None \<Rightarrow> Some (SEARCH_END, v, at_end ?d cs'))"
      using Suc.prems c Suc.hyps(2) visits_next_sector(1) [OF False, of t s b cs'] cs
      by (intro Suc.hyps(1)) (simp_all add: holds_def)
    ultimately show ?thesis
      using Suc.prems(4) visits_next_sector [OF False, where t = t and s = s and b = b and cs = cs'] cs
      by (subst slot_search.simps) (simp split: option.split)
  qed
qed

text \<open>The slots of a directory in their order on disk.\<close>

definition directory_slots :: "((nat \<times> nat) \<times> buffer) list \<Rightarrow> buffer list" where
  "directory_slots cs = concat (map (\<lambda>c. map (\<lambda>i. slice (snd c) (i * 32) 32) [0..<8]) cs)"

lemma visits_slots: "dslot d = 7 \<Longrightarrow> map cur_slot (visits d cs) = directory_slots cs"
  by (simp add: visits_def directory_slots_def slots_of_def cur_slot_def map_concat comp_def)

lemma visits_keep:
  "d' \<in> set (visits d cs) \<Longrightarrow> find_nslot d' = find_nslot d \<and> find_length d' = find_length d \<and>
    find_type d' = find_type d \<and> time_low d' = time_low d \<and> time_high d' = time_high d"
  by (auto simp: visits_def slots_of_def)

lemma find_map: "find P (map f xs) = map_option f (find (\<lambda>x. P (f x)) xs)"
  by (induction xs) simp_all

lemma or_nat_bound: "a < 2 ^ n \<Longrightarrow> b < 2 ^ n \<Longrightarrow> (a OR b :: nat) < 2 ^ n"
  unfolding take_bit_nat_eq_self_iff [symmetric] by (simp add: take_bit_or)

lemma date_bound:
  assumes "year < 256" "month < 256" "day < 256" "hour < 256" "minute < 256"
  shows "date_to_int year month day hour minute < 2 ^ 28"
proof -
  have "push_bit 4 year OR month < 2 ^ 12" using assms by (intro or_nat_bound) (simp_all add: push_bit_eq_mult)
  then have "push_bit 5 (push_bit 4 year OR month) OR day < 2 ^ 17"
    using assms by (intro or_nat_bound) (simp_all add: push_bit_eq_mult)
  then have "push_bit 5 (push_bit 5 (push_bit 4 year OR month) OR day) OR hour < 2 ^ 22"
    using assms by (intro or_nat_bound) (simp_all add: push_bit_eq_mult)
  then show ?thesis
    unfolding date_to_int_def Let_def using assms by (intro or_nat_bound) (simp_all add: push_bit_eq_mult)
qed

lemma slot_date_bound: "slot_date slot \<le> 0xffffffff"
proof -
  have "unat (b :: byte) < 256" for b using unsigned_less [of b] by simp
  then have "slot_date slot < 2 ^ 28" unfolding slot_date_def by (intro date_bound) simp_all
  then show ?thesis by simp
qed

text \<open>Whether a slot is one the search looks for.\<close>

definition slot_fits :: "buffer \<Rightarrow> nat \<Rightarrow> nat \<Rightarrow> buffer \<Rightarrow> bool" where
  "slot_fits name len ty slot = (vdrive_dir_name_match slot (cbmdos_dir_slot_create name len) (int len) ty \<noteq> 0)"

lemma first_slot_context:
  assumes "mounted v" "image_format v \<noteq> FORMAT_NP" "holds v (Header_Track v, Header_Sector v) hb"
    "length (dbuffer d) = 256"
  obtains d1 where "vdrive_dir_find_first_slot v name len ty d = (v, d1)"
    "dbuffer d1 = hb[0 := of_nat (Dir_Track v), 1 := of_nat (Dir_Sector v)]" "dslot d1 = 7"
    "find_length d1 = len" "find_type d1 = ty" "time_low d1 = 0" "time_high d1 = 0xffffffff"
    "find_nslot d1 = (if len > 0 then cbmdos_dir_slot_create name (nat len) else find_nslot d)"
proof -
  have "vdrive_read_sector v (dbuffer d) (Header_Track v) (Header_Sector v) = (0, v, hb)"
    using holds_read [OF assms(1,3,4)] .
  then show ?thesis
    using assms(2) by (intro that [of "snd (vdrive_dir_find_first_slot v name len ty d)"])
      (simp_all add: vdrive_dir_find_first_slot_def Let_def)
qed

lemma search_by_name:
  assumes "mounted v" "chained v (link (dbuffer d)) cs" "length (dbuffer d) = 256" "dslot d = 7"
    "find_nslot d = cbmdos_dir_slot_create name len" "find_length d = int len" "find_type d = ty"
    "time_low d = 0" "time_high d = 0xffffffff"
  shows "\<exists>d'. vdrive_dir_find_next_slot v tmp d = Some (find (slot_fits name len ty) (directory_slots cs), v, d')"
proof -
  let ?P = "slot_fits name len ty"
  have "slot_matches d' = ?P (cur_slot d')" if "d' \<in> set (visits d cs)" for d'
    using visits_keep [OF that] assms(5-9) slot_date_bound by (simp add: slot_matches_def slot_fits_def)
  then have f: "find slot_matches (visits d cs) = find (\<lambda>d'. ?P (cur_slot d')) (visits d cs)"
    by (intro find_cong refl) simp
  have s: "find ?P (directory_slots cs) = map_option cur_slot (find (\<lambda>d'. ?P (cur_slot d')) (visits d cs))"
    unfolding visits_slots [OF assms(4), symmetric] by (rule find_map)
  have "find_length (at_end d cs) = int len" using assms(6) by (simp add: at_end_def)
  then show ?thesis
    unfolding vdrive_dir_find_next_slot_def vdrive_dir_find_next_slot_limited_def s f [symmetric]
    using slot_search_visits [OF assms(1,3,2), of "-1" slot_matches] by (simp split: option.split)
qed

subsection \<open>Limited and endless searches\<close>

lemma limited_search_ends:
  "0 < n \<Longrightarrow> \<exists>r. slot_search fits v d n = Some r"
proof (induction "nat n" arbitrary: v d n)
  case (Suc k)
  have "\<exists>r. slot_search fits v' d' (n - 1) = Some r" if "n \<noteq> 1" for v' d'
    using Suc.hyps(2) Suc.prems that by (intro Suc.hyps(1)) auto
  then show ?case using Suc.prems by (subst slot_search.simps) (auto split: prod.split)
qed simp

text \<open>A set of contexts the search never leaves.\<close>

lemma search_trapped:
  assumes step: "\<And>d. I d \<Longrightarrow> \<exists>d'. advance_slot v d = (ADVANCE_OK, v, d') \<and> \<not> fits d' \<and> I d'"
    and "I d" "n \<le> 0"
  shows "slot_search fits v d n = None"
proof -
  have "\<not> (fits' = fits \<and> v' = v \<and> I d' \<and> n' \<le> 0)" if "slot_search fits' v' d' n' = Some r" for fits' v' d' n' r
  proof (rule slot_search.raw_induct [where P = "\<lambda>fits' v' d' n' r. \<not> (fits' = fits \<and> v' = v \<and> I d' \<and> n' \<le> 0)", OF _ that])
    fix f fits' v' d' and n' :: int and r
    assume IH: "\<And>fits' v' d' n' r. f fits' v' d' n' = Some r \<Longrightarrow> \<not> (fits' = fits \<and> v' = v \<and> I d' \<and> n' \<le> 0)"
      and body: "(case advance_slot v' d' of (r, v, d) \<Rightarrow>
        if r = ADVANCE_END then Some (SEARCH_END, v, d)
        else if r = ADVANCE_ERROR then Some (SEARCH_NULL, v, d)
        else if fits' d then Some (SEARCH_FOUND, v, d)
        else if 0 < n' \<and> n' - 1 = 0 then Some (SEARCH_NULL, v, d)
        else f fits' v d (if 0 < n' then n' - 1 else n')) = Some r"
    show "\<not> (fits' = fits \<and> v' = v \<and> I d' \<and> n' \<le> 0)"
      using step [of d'] body IH by fastforce
  qed
  then show ?thesis using assms(2,3) by (cases "slot_search fits v d n") auto
qed

text \<open>A directory sector that is linked to itself.\<close>

lemma self_linked_search:
  assumes "mounted v" "holds v (t, s) b" "link b = (t, s)" "t \<noteq> 0"
    "\<forall>i < 8. \<not> fits (d\<lparr>dbuffer := b, dslot := i, dtrack := t, dsector := s\<rparr>)"
    "length (dbuffer d) = 256" "link (dbuffer d) = (t, s)" "dslot d = 7" "n \<le> 0"
  shows "slot_search fits v d n = None"
proof -
  let ?at = "\<lambda>i. d\<lparr>dbuffer := b, dslot := i, dtrack := t, dsector := s\<rparr>"
  define I where "I d' = (d' = d \<or> (\<exists>i < 8. d' = ?at i))" for d'
  have in_I: "I (?at i)" if "i < 8" for i unfolding I_def using that by blast
  have next_sector: "advance_slot v d' = (ADVANCE_OK, v, d'\<lparr>dbuffer := b, dslot := 0, dtrack := t, dsector := s\<rparr>)"
    if "dslot d' = 7" "link (dbuffer d') = (t, s)" "length (dbuffer d') = 256" for d'
    using that assms(4) holds_read [OF assms(1,2) that(3)] by (auto simp: advance_slot_def unat_eq_0 Let_def)
  have "\<exists>d''. advance_slot v d' = (ADVANCE_OK, v, d'') \<and> \<not> fits d'' \<and> I d''" if I: "I d'" for d'
  proof (cases "dslot d' = 7")
    case True
    then have l: "link (dbuffer d') = (t, s)" "length (dbuffer d') = 256"
      "d'\<lparr>dbuffer := b, dslot := 0, dtrack := t, dsector := s\<rparr> = ?at 0"
      using I assms(2,3,6,7) by (auto simp: I_def holds_def)
    show ?thesis
      using next_sector [OF True l(1,2)] assms(5) in_I [of 0] unfolding l(3) by simp
  next
    case False
    then obtain i where i: "i < 8" "d' = ?at i" using I assms(8) by (auto simp: I_def)
    then have "i < 7" using False by simp
    then have "advance_slot v d' = (ADVANCE_OK, v, ?at (Suc i))" "Suc i < 8" using i by (simp_all add: advance_slot_def)
    then show ?thesis using assms(5) in_I [of "Suc i"] by blast
  qed
  then show ?thesis by (rule search_trapped [of I]) (simp_all add: I_def assms(9))
qed

subsection \<open>Freeing a chain\<close>

lemma valid_checked:
  assumes "chain_image v" "\<not> haspt v" "logical_valid v (t, s)"
  shows "\<not> disk_image_check_sector (cur_image v) t s < 0"
  using assms by (auto simp: logical_valid_def vdrive_log_to_phy_def chain_image_def in_image_def addr_pair_def
      disk_image_check_sector_def Let_def split: if_splits)

lemma free_twice:
  assumes "bam_ok v" "bam_addr v (t, s)" "\<not> sector_is_free v (t, s)"
  obtains w where "vdrive_bam_free_sector v t s = (1, w)" "vdrive_bam_free_sector w t s = (0, w)"
    "bam_ok w" "same_drive v w" "\<And>a. bam_addr v a \<Longrightarrow> sector_is_free w a = (sector_is_free v a \<or> a = (t, s))"
proof -
  define w where "w = snd (vdrive_bam_free_sector v t s)"
  have w: "w = snd (bam_release v (t, s))" by (simp add: w_def bam_release_def)
  have 1: "vdrive_bam_free_sector v t s = (1, w)"
    using bam.release_result [OF assms(1,2)] assms(3) by (simp add: w_def bam_release_def prod_eq_iff)
  have ok: "bam_ok w" unfolding w by (rule bam.release_invar [OF assms(1,2)])
  have same: "same_drive v w"
    using free_sector_ok [OF assms(1,2)] changed_bit_effect(2) [OF assms(1,2)] by (simp add: w_def)
  have free: "sector_is_free w a = (sector_is_free v a \<or> a = (t, s))" if "bam_addr v a" for a
    unfolding w by (rule bam.release_free [OF assms(1,2) that])
  have "bam_addr w (t, s)" using bam_addr_same [OF same] assms(2) by simp
  then have "vdrive_bam_free_sector w t s = (0, w)"
    using free_sector_ok [OF ok] free [OF assms(2)] by simp
  then show ?thesis using that 1 ok same free by blast
qed

lemma free_chain_ends:
  assumes "bam_ok v" "chain_image v"
  shows "\<exists>w. vdrive_dir_free_chain v buf t s = Some w"
  using assms
proof (induction "card {a \<in> addr_set (image_format v). \<not> sector_is_free v a}" arbitrary: v buf t s rule: less_induct)
  case less
  show ?case
  proof (cases "t = 0 \<or> disk_image_check_sector (cur_image v) t s < 0 \<or> sector_is_free v (t, s)")
    case True
    have "fst (vdrive_bam_free_sector v t s) = 0"
      if "\<not> disk_image_check_sector (cur_image v) t s < 0" "sector_is_free v (t, s)"
      using free_sector_ok [OF less.prems(1) checked_sector_addr [OF less.prems(2) that(1)]] that(2) by simp
    with True show ?thesis by (subst vdrive_dir_free_chain.simps) (auto split: prod.splits)
  next
    case False
    then have a: "bam_addr v (t, s)" using checked_sector_addr [OF less.prems(2)] by auto
    obtain w where w: "vdrive_bam_free_sector v t s = (1, w)" "vdrive_bam_free_sector w t s = (0, w)"
      "bam_ok w" "same_drive v w" "\<And>a. bam_addr v a \<Longrightarrow> sector_is_free w a = (sector_is_free v a \<or> a = (t, s))"
      using free_twice [OF less.prems(1) a] False by blast
    let ?A = "addr_set (image_format v)"
    have f: "image_format w = image_format v" "chain_image w"
      using less.prems(2) same_drive_keeps [OF w(4)] by (simp_all add: chain_image_def)
    have "{x \<in> ?A. \<not> sector_is_free w x} = {x \<in> ?A. \<not> sector_is_free v x} - {(t, s)}"
      using w(5) by (auto simp: addr_set(1))
    moreover have "(t, s) \<in> {x \<in> ?A. \<not> sector_is_free v x}" using a False by (simp add: addr_set(1))
    ultimately have "card {x \<in> ?A. \<not> sector_is_free w x} < card {x \<in> ?A. \<not> sector_is_free v x}"
      using addr_set(2) [of "image_format v"] by (intro psubset_card_mono) auto
    then have "\<exists>w'. vdrive_dir_free_chain (update_image_mode w) buf' t' s' = Some w'" for buf' t' s'
      using w(3) f by (intro less.hyps) simp_all
    then show ?thesis
      using False w(1,2) read_sector_drive [of w buf t s]
      by (subst vdrive_dir_free_chain.simps) (auto split: prod.splits)
  qed
qed

lemma free_chain_effect:
  assumes "bam_ok w" "same_drive v w" "mounted v" "chain_image v" "\<not> haspt v"
    "chained v (t, s) cs" "distinct (map fst cs)" "\<forall>c \<in> set cs. \<not> sector_is_free w (fst c)" "length buf = 256"
  shows "\<exists>u. vdrive_dir_free_chain w buf t s = Some u \<and> bam_ok u \<and> same_drive v u \<and>
    (\<forall>a. bam_addr v a \<longrightarrow> sector_is_free u a = (sector_is_free w a \<or> a \<in> fst ` set cs))"
  using assms
proof (induction cs arbitrary: w t s buf)
  case Nil
  then show ?case by (subst vdrive_dir_free_chain.simps) simp
next
  case (Cons c cs)
  obtain b where c: "c = ((t, s), b)" "t \<noteq> 0" "holds v (t, s) b" "chained v (link b) cs"
    using Cons.prems(6) by (cases c) auto
  note keep = same_drive_keeps [OF Cons.prems(2)] and sd = same_drive_disk [OF Cons.prems(2)]
  have chk: "\<not> disk_image_check_sector (cur_image w) t s < 0"
    using valid_checked [OF Cons.prems(4,5)] c(3) keep by (simp add: holds_def)
  then have a: "bam_addr w (t, s)"
    using checked_sector_addr [OF Cons.prems(4)] keep bam_addr_same [OF Cons.prems(2)] by simp
  have all: "\<not> sector_is_free w (t, s)" using Cons.prems(8) c(1) by simp
  obtain u where u: "vdrive_bam_free_sector w t s = (1, u)" "vdrive_bam_free_sector u t s = (0, u)"
    "bam_ok u" "same_drive w u" "\<And>a. bam_addr w a \<Longrightarrow> sector_is_free u a = (sector_is_free w a \<or> a = (t, s))"
    using free_twice [OF Cons.prems(1) a all] by blast
  have su: "same_drive v u" using same_drive_trans [OF Cons.prems(2) u(4)] .
  have um: "update_image_mode u = u"
    using Cons.prems(3) same_drive_disk [OF su] by (cases u) (auto simp: mounted_def update_image_mode_def
        drive_ok_def dxx_ok_def same_disk_def cur_image_def)
  have rd: "vdrive_read_sector u buf t s = (0, u, b)"
    using read_any_buffer [of v t s b u buf] same_drive_disk(1) [OF su] Cons.prems(3,9) c(3) um
    by (simp add: mounted_def holds_def)
  have valid: "bam_addr v (fst x)" if "x \<in> set cs" for x
  proof -
    have "\<exists>b. holds v (fst x) b" if "chained v p xs" "x \<in> set xs" for p xs
      using that by (induction v p xs rule: chained.induct) auto
    then have "logical_valid v (fst x)" using c(4) that by (auto simp: holds_def)
    then show ?thesis
      using checked_sector_addr [OF Cons.prems(4) valid_checked [OF Cons.prems(4,5)]] by (cases "fst x") auto
  qed
  have "\<not> sector_is_free u (fst x)" if "x \<in> set cs" for x
  proof -
    have "fst x \<noteq> (t, s)" "\<not> sector_is_free w (fst x)" using Cons.prems(7,8) c(1) that by (auto simp: rev_image_eqI)
    then show ?thesis using u(5) [of "fst x"] valid [OF that] bam_addr_same [OF Cons.prems(2)] by simp
  qed
  then obtain u' where u': "vdrive_dir_free_chain u b (unat (b ! 0)) (unat (b ! 1)) = Some u'" "bam_ok u'" "same_drive v u'"
    "\<forall>a. bam_addr v a \<longrightarrow> sector_is_free u' a = (sector_is_free u a \<or> a \<in> fst ` set cs)"
    using Cons.IH [of u "unat (b ! 0)" "unat (b ! 1)" b] Cons.prems u(3) su c(3,4) by (auto simp: holds_def)
  have "vdrive_dir_free_chain w buf t s = Some u'"
    using c(2) chk u(1,2) rd u'(1) by (subst vdrive_dir_free_chain.simps) simp
  then show ?case
    using u' u(5) bam_addr_same [OF Cons.prems(2)] c(1) by auto
qed

subsection \<open>A disk for the witnesses\<close>

text \<open>A formatted 1541 disk with every sector allocated, after some sectors were written.\<close>

definition full_bam :: buffer where
  "full_bam = (replicate 256 0)[2 := 0x41]"

definition disk_1541 :: "((nat \<times> nat) \<times> buffer) list \<Rightarrow> vdrive" where
  "disk_1541 ws = fold (\<lambda>(a, b) v. logical_write v a b) ws (dirty_1541 full_bam)"

definition sectors_1541 :: "((nat \<times> nat) \<times> buffer) list \<Rightarrow> bool" where
  "sectors_1541 = list_all (\<lambda>((t, s), b). 1 \<le> t \<and> t \<le> 35 \<and> s < 17 \<and> length b = 256)"

lemma dirty_full_valid:
  assumes "1 \<le> t" "t \<le> 35" "s < 17"
  shows "logical_valid (dirty_1541 full_bam) (t, s)"
proof -
  let ?d = "blank_drive FORMAT_1541 (d64_file_image (replicate 174848 0) None) 35"
  have sd: "same_disk ?d (dirty_1541 full_bam)" "image_mode (dirty_1541 full_bam) = image_mode ?d"
    by (simp_all add: dirty_1541_def same_disk_def)
  show ?thesis
    unfolding same_disk_read(2) [OF sd] using blank_drive_ok(2) [of "replicate 174848 0" t s] assms
    by (simp add: geom_simps)
qed

lemma dirty_full_mounted: "mounted (dirty_1541 full_bam)"
proof -
  have "length full_bam = 256" "full_bam ! 2 = 0x41" by (simp_all add: full_bam_def)
  then show ?thesis
    using dirty_1541_attached [of full_bam] unfolding mounted_def bam_attached_def
    by (simp add: dirty_1541_def blank_drive_def)
qed

lemma disk_1541_heap:
  assumes "sectors_1541 ws"
  shows "\<exists>h. disk_1541 ws = (dirty_1541 full_bam)\<lparr>disk_heap := h\<rparr> \<and> mounted (disk_1541 ws) \<and>
    logical_valid (disk_1541 ws) = logical_valid (dirty_1541 full_bam) \<and> itype (cur_image (disk_1541 ws)) = D64"
  using assms
proof (induction ws rule: rev_induct)
  case Nil
  then show ?case
    using dirty_full_mounted by (intro exI [of _ "disk_heap (dirty_1541 full_bam)"])
      (simp add: disk_1541_def, simp add: dirty_1541_def blank_drive_def cur_image_def d64_file_image_def d64_image_def)
next
  case (snoc w ws)
  obtain t s b where w: "w = ((t, s), b)" by (metis prod.collapse)
  with snoc.prems have b: "logical_valid (dirty_1541 full_bam) (t, s)" "length b = 256" "sectors_1541 ws"
    using dirty_full_valid by (auto simp: sectors_1541_def)
  with snoc.IH obtain h where h: "disk_1541 ws = (dirty_1541 full_bam)\<lparr>disk_heap := h\<rparr>" "mounted (disk_1541 ws)"
    "logical_valid (disk_1541 ws) = logical_valid (dirty_1541 full_bam)" "itype (cur_image (disk_1541 ws)) = D64" by blast
  obtain h' where h': "logical_write (disk_1541 ws) (t, s) b = (disk_1541 ws)\<lparr>disk_heap := h'\<rparr>"
    "mounted ((disk_1541 ws)\<lparr>disk_heap := h'\<rparr>)" "logical_valid ((disk_1541 ws)\<lparr>disk_heap := h'\<rparr>) = logical_valid (disk_1541 ws)"
    "itype (cur_image ((disk_1541 ws)\<lparr>disk_heap := h'\<rparr>)) = D64"
    using mounted_write [OF h(2) _ b(2), of t s] b(1) h(3,4) by metis
  have "disk_1541 (ws @ [w]) = (disk_1541 ws)\<lparr>disk_heap := h'\<rparr>" using h'(1) by (simp add: disk_1541_def w)
  then show ?case using h h' by (intro exI [of _ h']) simp
qed

lemma disk_1541_simps:
  assumes "sectors_1541 ws"
  shows "mounted (disk_1541 ws)" "image_format (disk_1541 ws) = FORMAT_1541" "Dir_Track (disk_1541 ws) = 18"
    "Dir_Sector (disk_1541 ws) = 1" "Header_Track (disk_1541 ws) = 18" "Header_Sector (disk_1541 ws) = 0"
    "\<not> haspt (disk_1541 ws)" "bam (disk_1541 ws) = Some full_bam" "bam_state (disk_1541 ws) = 1 # replicate 32 (-1)"
    "bam_size (disk_1541 ws) = 256" "num_tracks (disk_1541 ws) = 35"
  using disk_1541_heap [OF assms] by (auto simp: dirty_1541_def blank_drive_def)

lemma disk_1541_holds:
  assumes "sectors_1541 ws" "map_of (rev ws) a = Some b"
  shows "holds (disk_1541 ws) a b"
proof -
  have v: "\<forall>w \<in> set ws. logical_valid (dirty_1541 full_bam) (fst w) \<and> length (snd w) = 256"
    using assms(1) dirty_full_valid by (force simp: sectors_1541_def list_all_iff)
  have "(a, b) \<in> set ws" using map_of_SomeD [OF assms(2)] by simp
  then have "logical_valid (dirty_1541 full_bam) a" "length b = 256" using v by auto
  moreover have "drive_ok (dirty_1541 full_bam)" using dirty_full_mounted by (simp add: mounted_def)
  ultimately show ?thesis
    using logical.read_writes [OF _ v, of a] disk_1541_heap [OF assms(1)] assms(2)
    by (auto simp: holds_def disk_1541_def)
qed

lemma disk_1541_bam:
  assumes "sectors_1541 ws"
  shows "bam_ok (disk_1541 ws)" "chain_image (disk_1541 ws)"
    "1 \<le> t \<Longrightarrow> t \<le> 35 \<Longrightarrow> s < 17 \<Longrightarrow> \<not> sector_is_free (disk_1541 ws) (t, s)"
proof -
  note d = disk_1541_simps [OF assms]
  show "bam_ok (disk_1541 ws)"
    using d by (simp add: bam_ok_def bam_loaded_def bam_headers_ok_def full_bam_def layout_defs block_ranges_def)
  show "chain_image (disk_1541 ws)"
    using d disk_1541_heap [OF assms] by (auto simp: chain_image_def mounted_def drive_ok_def dxx_ok_def)
  show "\<not> sector_is_free (disk_1541 ws) (t, s)" if "1 \<le> t" "t \<le> 35" "s < 17"
  proof -
    have "s div 8 < 3" using that(3) by (simp add: less_mult_imp_div_less)
    then have "full_bam ! (4 * t + 1 + s div 8) = 0" using that by (simp add: full_bam_def nth_list_update)
    then show ?thesis using that by (simp add: sector_is_free_def byte_at_def layout_defs d bam_byte_def)
  qed
qed

subsection \<open>Properties\<close>

text \<open>
  A slot that is wanted: its type byte is not zero, the type, the low three bits of this byte, is
  the one asked for (0 asks for any), and the pattern matches the name, from byte 5 on.
\<close>

definition slot_wanted :: "buffer \<Rightarrow> nat \<Rightarrow> buffer \<Rightarrow> bool" where
  "slot_wanted pattern ty slot =
    (slot ! 2 \<noteq> 0 \<and> (ty = 0 \<or> unat (slot ! 2) mod 8 = ty) \<and> pattern_matches pattern (drop 5 slot))"

lemma compare_loop_cong:
  assumes "\<And>i. i < n \<Longrightarrow> i < 16 \<Longrightarrow> p ! i = q ! i"
  shows "wildcard_compare_loop p n dirname index = wildcard_compare_loop q n dirname index"
proof (induction "16 - index" arbitrary: index)
  case 0
  then show ?case by (simp add: wildcard_compare_loop.simps)
next
  case (Suc k)
  have "wildcard_compare_loop p n dirname (Suc index) = wildcard_compare_loop q n dirname (Suc index)"
    using Suc(2) by (intro Suc(1)) simp
  then show ?case
    using assms [of index] by (simp add: wildcard_compare_loop.simps [of _ _ _ index])
qed

lemma low_three_bits: "unat ((x :: byte) AND 7) = unat x mod 8"
proof -
  have "x AND 7 = take_bit 3 x" by (simp add: take_bit_eq_mask mask_eq_exp_minus_1)
  moreover have "unat (take_bit 3 x) = take_bit 3 (unat x)" by (rule unsigned_take_bit_eq)
  ultimately show ?thesis by (simp add: take_bit_eq_mod)
qed

lemma slot_fits_wanted:
  assumes "len \<le> length name"
  shows "slot_fits name len ty = slot_wanted (take len name) ty"
proof
  fix slot
  have "wildcard_compare_loop (cbmdos_dir_slot_create name len) len d 0 = wildcard_compare_loop (take len name) len d 0" for d
    using assms by (intro compare_loop_cong) (simp add: nth_cbmdos_dir_slot_create)
  then have "cbmdos_parse_wildcard_compare (cbmdos_dir_slot_create name len) len d = of_bool (pattern_matches (take len name) d)" for d
    using wildcard_compare_loop_spec [of 0 "take len name" d] assms
    by (simp add: cbmdos_parse_wildcard_compare_def pattern_matches_def atLeast0LessThan)
  then show "slot_fits name len ty slot = slot_wanted (take len name) ty slot"
    by (auto simp: slot_fits_def slot_wanted_def vdrive_dir_name_match_def low_three_bits)
qed

text \<open>
  C27. Looking up a name. On a readable disk whose directory chain ends, the search for a name
  pattern returns, leaves the drive as it was, and gives the first slot, in the order of the
  directory, that is in use, has the wanted type and matches the pattern (\<open>slot_wanted\<close>, stated
  on the bytes of the slot); the null pointer if there is none. The directory of the witness has
  a deleted file, a sequential file and a program of the wanted name, in this order.
\<close>

theorem directory_search:
  assumes "mounted v" "image_format v \<noteq> FORMAT_NP" "Dir_Track v < 256" "Dir_Sector v < 256"
    "holds v (Header_Track v, Header_Sector v) hb" "chained v (Dir_Track v, Dir_Sector v) cs"
    "length (dbuffer d) = 256" "0 < len" "len \<le> length name"
  shows "\<exists>d'. (case vdrive_dir_find_first_slot v name (int len) ty d of (v1, d1) \<Rightarrow> vdrive_dir_find_next_slot v1 tmp d1) =
    Some (find (slot_wanted (take len name) ty) (directory_slots cs), v, d')"
proof -
  obtain d1 where d1: "vdrive_dir_find_first_slot v name (int len) ty d = (v, d1)"
    "dbuffer d1 = hb[0 := of_nat (Dir_Track v), 1 := of_nat (Dir_Sector v)]" "dslot d1 = 7"
    "find_length d1 = int len" "find_type d1 = ty" "time_low d1 = 0" "time_high d1 = 0xffffffff"
    "find_nslot d1 = cbmdos_dir_slot_create name len"
    using first_slot_context [OF assms(1,2,5,7), of name "int len" ty] assms(8) by (auto split: if_splits)
  have "link (dbuffer d1) = (Dir_Track v, Dir_Sector v)" "length (dbuffer d1) = 256"
    using assms(3-5) by (simp_all add: d1(2) holds_def unat_of_nat)
  then show ?thesis
    using search_by_name [OF assms(1), of d1 cs name len ty tmp] assms(6) d1
    by (simp add: slot_fits_wanted [OF assms(9)])
qed

text \<open>A directory with one closed program file.\<close>

definition one_slot_sector :: buffer where
  "one_slot_sector = write_at (replicate 256 0) 34 ([0x82, 17, 0, 0x41, 0x42] @ replicate 14 0xa0)"

lemma one_slot_disk: "sectors_1541 [((18, 0), replicate 256 0), ((18, 1), one_slot_sector)]"
  by (simp add: sectors_1541_def one_slot_sector_def)

text \<open>A directory with a deleted file, a sequential file and two programs; the last is looked for.\<close>

definition slot_bytes :: "byte \<Rightarrow> buffer \<Rightarrow> buffer" where
  "slot_bytes ty name = [0, 255, ty, 17, 0] @ name @ replicate (27 - length name) 0xa0"

definition four_slot_sector :: buffer where
  "four_slot_sector = slot_bytes 0 [0x41, 0x42] @ slot_bytes 0x81 [0x41, 0x42] @ slot_bytes 0x82 [0x58, 0x42] @
     slot_bytes 0x82 [0x41, 0x42] @ replicate 128 0"

lemma four_slot_disk: "sectors_1541 [((18, 0), replicate 256 0), ((18, 1), four_slot_sector)]"
  by (simp add: sectors_1541_def four_slot_sector_def slot_bytes_def)

theorem directory_search_witness:
  "\<exists>d'. (case vdrive_dir_find_first_slot (disk_1541 [((18, 0), replicate 256 0), ((18, 1), four_slot_sector)])
        [0x41, 0x2a] 2 CBMDOS_FT_PRG (dir (chan (blank_drive FORMAT_1541 (d64_image 35) 35) 0)) of
      (v1, d1) \<Rightarrow> vdrive_dir_find_next_slot v1 [] d1) =
    Some (Some (slice four_slot_sector 96 32), disk_1541 [((18, 0), replicate 256 0), ((18, 1), four_slot_sector)], d')"
proof -
  let ?ws = "[((18, 0), replicate 256 0), ((18, 1), four_slot_sector)]"
  note d = disk_1541_simps [OF four_slot_disk] and h = disk_1541_holds [OF four_slot_disk]
  have "four_slot_sector ! 0 = 0" by (simp add: four_slot_sector_def slot_bytes_def)
  then have "chained (disk_1541 ?ws) (18, 1) [((18, 1), four_slot_sector)]" using h [of "(18, 1)"] by simp
  moreover have "find (slot_wanted (take 2 [0x41, 0x2a]) CBMDOS_FT_PRG) (directory_slots [((18, 1), four_slot_sector)]) =
      Some (slice four_slot_sector 96 32)" by code_simp
  moreover have "length (dbuffer (dir (chan (blank_drive FORMAT_1541 (d64_image 35) 35) 0))) = 256"
    by (simp add: blank_drive_def)
  ultimately show ?thesis
    using directory_search [where v = "disk_1541 ?ws" and hb = "replicate 256 0" and cs = "[((18, 1), four_slot_sector)]" and
        d = "dir (chan (blank_drive FORMAT_1541 (d64_image 35) 35) 0)" and len = 2 and name = "[0x41, 0x2a]" and
        ty = CBMDOS_FT_PRG and tmp = "[]"]
      d h [of "(18, 0)"] by simp
qed

text \<open>
  A limited search always ends, whatever the links on the disk are.
\<close>

theorem limited_search_returns:
  assumes "0 < max_slots"
  shows "\<exists>r. vdrive_dir_find_next_slot_limited v tmp d max_slots = Some r"
proof -
  obtain r v' d' where "slot_search slot_matches v d max_slots = Some (r, v', d')"
    using limited_search_ends [OF assms, of slot_matches v d] by (metis prod_cases3)
  then show ?thesis
    by (cases r) (auto simp: vdrive_dir_find_next_slot_limited_def split: prod.split)
qed

theorem limited_search_returns_witness:
  "\<exists>r. vdrive_dir_find_next_slot_limited (disk_1541 [((18, 1), 18 # 1 # replicate 254 0)]) []
     (dir (chan (blank_drive FORMAT_1541 (d64_image 35) 35) 0)) 144 = Some r"
  by (rule limited_search_returns) simp

text \<open>
  C29. The unlimited search, which every command uses, does not end on a disk whose first
  directory sector is linked to itself and holds no slot that fits.
\<close>

theorem cyclic_directory_search:
  assumes "mounted v" "image_format v \<noteq> FORMAT_NP" "Dir_Track v < 256" "Dir_Sector v < 256" "Dir_Track v \<noteq> 0"
    "holds v (Header_Track v, Header_Sector v) hb" "holds v (Dir_Track v, Dir_Sector v) b"
    "link b = (Dir_Track v, Dir_Sector v)" "length (dbuffer d) = 256" "0 < len"
    "\<forall>i < 8. \<not> slot_fits name len ty (slice b (i * 32) 32)"
  shows "(case vdrive_dir_find_first_slot v name (int len) ty d of (v1, d1) \<Rightarrow> vdrive_dir_find_next_slot v1 tmp d1) = None"
proof -
  obtain d1 where d1: "vdrive_dir_find_first_slot v name (int len) ty d = (v, d1)"
    "dbuffer d1 = hb[0 := of_nat (Dir_Track v), 1 := of_nat (Dir_Sector v)]" "dslot d1 = 7"
    "find_length d1 = int len" "find_type d1 = ty" "time_low d1 = 0" "time_high d1 = 0xffffffff"
    "find_nslot d1 = cbmdos_dir_slot_create name len"
    using first_slot_context [OF assms(1,2,6,9), of name "int len" ty] assms(10) by (auto split: if_splits)
  have l: "link (dbuffer d1) = (Dir_Track v, Dir_Sector v)" "length (dbuffer d1) = 256"
    using assms(3,4,6) by (simp_all add: d1(2) holds_def unat_of_nat)
  have "\<forall>i < 8. \<not> slot_matches (d1\<lparr>dbuffer := b, dslot := i, dtrack := Dir_Track v, dsector := Dir_Sector v\<rparr>)"
    using assms(11) d1(4-8) by (simp add: slot_matches_def slot_fits_def cur_slot_def)
  then have "slot_search slot_matches v d1 (-1) = None"
    using l by (intro self_linked_search [OF assms(1,7,8,5)]) (simp_all add: d1(3))
  then show ?thesis
    by (simp add: d1(1) vdrive_dir_find_next_slot_def vdrive_dir_find_next_slot_limited_def)
qed

theorem cyclic_directory_search_witness:
  "(case vdrive_dir_find_first_slot (disk_1541 [((18, 0), replicate 256 0), ((18, 1), 18 # 1 # replicate 254 0)])
        [0x41] 1 CBMDOS_FT_DEL (dir (chan (blank_drive FORMAT_1541 (d64_image 35) 35) 0)) of
      (v1, d1) \<Rightarrow> vdrive_dir_find_next_slot v1 [] d1) = None"
proof -
  let ?b = "18 # 1 # replicate 254 0 :: buffer" and ?ws = "[((18, 0), replicate 256 0), ((18, 1), 18 # 1 # replicate 254 0)]"
  have ws: "sectors_1541 ?ws" by (simp add: sectors_1541_def)
  note d = disk_1541_simps [OF ws] and h = disk_1541_holds [OF ws]
  have "list_all (\<lambda>i. slice ?b (i * 32) 32 ! 2 = 0) [0..<8]" by code_simp
  then have "\<forall>i < 8. \<not> slot_fits [0x41] 1 CBMDOS_FT_DEL (slice ?b (i * 32) 32)"
    by (simp add: slot_fits_def vdrive_dir_name_match_def list_all_iff)
  then show ?thesis
    using cyclic_directory_search [where v = "disk_1541 ?ws" and hb = "replicate 256 0" and b = ?b and
        d = "dir (chan (blank_drive FORMAT_1541 (d64_image 35) 35) 0)" and len = 1 and name = "[0x41]" and
        ty = CBMDOS_FT_DEL and tmp = "[]"] d h [of "(18, 0)"] h [of "(18, 1)"]
    by (simp add: blank_drive_def)
qed

text \<open>
  C30. Freeing a chain on an image of type D64, D67, D71, D80 or D82 used in its own format (the
  image types of C17) always ends, even if the links form a cycle or leave the disk: every step
  frees a sector that was allocated.
\<close>

theorem free_chain_returns:
  assumes "bam_ok v" "chain_image v"
  shows "\<exists>w. vdrive_dir_free_chain v buf t s = Some w"
  by (rule free_chain_ends [OF assms])

theorem free_chain_returns_witness:
  "\<exists>w. vdrive_dir_free_chain (disk_1541 [((17, 0), 17 # 0 # replicate 254 0)]) (replicate 256 0) 17 0 = Some w"
  by (rule free_chain_returns; intro disk_1541_bam) (simp_all add: sectors_1541_def)

text \<open>
  C31. Freeing the chain of a file, whose sectors are allocated and all different, on one of the
  image types of C17, frees exactly the sectors of the file; nothing of the drive but the BAM changes.
\<close>

theorem free_chain_frees:
  assumes "bam_ok v" "mounted v" "chain_image v" "\<not> haspt v" "chained v (t, s) cs" "distinct (map fst cs)"
    "\<forall>c \<in> set cs. \<not> sector_is_free v (fst c)" "length buf = 256"
  shows "\<exists>w. vdrive_dir_free_chain v buf t s = Some w \<and> bam_ok w \<and> same_drive v w \<and>
    (\<forall>a. bam_addr v a \<longrightarrow> sector_is_free w a = (sector_is_free v a \<or> a \<in> fst ` set cs))"
  by (rule free_chain_effect [OF assms(1) same_drive_refl assms(2-8)])

theorem free_chain_frees_witness:
  "\<exists>w. vdrive_dir_free_chain (disk_1541 [((17, 0), 17 # 10 # replicate 254 0), ((17, 10), 0 # 9 # replicate 254 0)])
       (replicate 256 0) 17 0 = Some w \<and>
     sector_is_free w (17, 0) \<and> sector_is_free w (17, 10) \<and> \<not> sector_is_free w (17, 5)"
proof -
  let ?ws = "[((17, 0), 17 # 10 # replicate 254 0), ((17, 10), 0 # 9 # replicate 254 0)]"
  have ws: "sectors_1541 ?ws" by (simp add: sectors_1541_def)
  note d = disk_1541_simps [OF ws] and h = disk_1541_holds [OF ws] and b = disk_1541_bam [OF ws]
  have "chained (disk_1541 ?ws) (17, 0) ?ws" using h [of "(17, 0)"] h [of "(17, 10)"] by simp
  moreover have "bam_addr (disk_1541 ?ws) (17, s)" if "s < 17" for s
    using that by (simp add: bam_addr_def d layout_defs)
  ultimately show ?thesis
    using free_chain_frees [of "disk_1541 ?ws" 17 0 ?ws "replicate 256 0"] d b by auto
qed

end
