(* ===== verification/IecSeq.thy ===== *)
theory IecSeq
  imports DirSearch
begin

text \<open>
  Sequential files on a channel (\<^verbatim>\<open>lib/vdrive/vdrive-iec.c\<close>): the functions behind opening,
  reading, writing and closing a channel in the mode \<open>BUFFER_SEQUENTIAL\<close>. A file is a chain of
  sectors with 254 bytes of data each; the last one has track 0 in its link and, in place of
  the sector, the position of its last byte.

  \<open>junk\<close> and \<open>tmp\<close> are the contents of fresh and of local memory that switching a partition may
  use, \<open>t0\<close> the uninitialised track variable, \<open>now\<close> the time of the host's clock.
\<close>

abbreviation (input) "SERIAL_OK \<equiv> 0 :: int"
abbreviation (input) "SERIAL_ERROR \<equiv> 2 :: int"
abbreviation (input) "SERIAL_EOF \<equiv> 0x40 :: int"
abbreviation (input) "WRITE_BLOCK \<equiv> 512 :: nat"

subsection \<open>The directory entry\<close>

definition vdrive_iec_update_dirent :: "vdrive \<Rightarrow> nat \<Rightarrow> int \<times> vdrive" where
  "vdrive_iec_update_dirent v ch =
    (let d = dir (chan v ch) in
     case vdrive_read_sector v (dbuffer d) (dtrack d) (dsector d) of
       (_, v, b) \<Rightarrow>
         let b = write_at b (dslot d * 32 + 2) (slice (the (bslot (chan v ch))) 2 30);
             v = upd_chan ch (\<lambda>p. p\<lparr>dir := d\<lparr>dbuffer := b\<rparr>\<rparr>) v in
         case vdrive_write_sector v b (dtrack d) (dsector d) of
           (status, v) \<Rightarrow>
             (0, if status \<noteq> CBMDOS_IPE_OK then snd (vdrive_command_set_error v status (dtrack d) (dsector d)) else v))"

subsection \<open>Writing\<close>

definition put_slot_byte :: "nat \<Rightarrow> nat \<Rightarrow> byte \<Rightarrow> vdrive \<Rightarrow> vdrive" where
  "put_slot_byte ch i x = upd_chan ch (\<lambda>p. p\<lparr>bslot := Some ((the (bslot p))[i := x])\<rparr>)"

definition disk_full_error :: "vdrive \<Rightarrow> int \<times> vdrive" where
  "disk_full_error v = (-1, snd (vdrive_command_set_error v CBMDOS_IPE_ILLEGAL_SYSTEM_T_OR_S (num_tracks v + 1) 1))"

text \<open>The first block of a file: a sector is allocated and entered into the slot.\<close>

definition iec_first_block :: "nat \<Rightarrow> vdrive \<Rightarrow> nat \<Rightarrow> int \<times> vdrive" where
  "iec_first_block t0 v ch =
    (case vdrive_bam_alloc_first_free_sector v t0 0 of
       (retval, v, t_new, s_new) \<Rightarrow>
         if retval < 0 then disk_full_error v
         else
           let v = upd_chan ch (\<lambda>p. p\<lparr>btrack := t_new, bsector := s_new\<rparr>) v;
               (ti, si) = (if needsupdate (chan v ch) \<noteq> 0 then (SLOT_REPLACE_TRACK, SLOT_REPLACE_SECTOR)
                           else (SLOT_FIRST_TRACK, SLOT_FIRST_SECTOR));
               v = put_slot_byte ch si (of_nat s_new) (put_slot_byte ch ti (of_nat t_new) v);
               v = put_slot_byte ch (SLOT_NR_BLOCKS + 1) 0 (put_slot_byte ch SLOT_NR_BLOCKS 0 v) in
           (0, v))"

text \<open>The buffer is written with the given link in its first two bytes.\<close>

definition iec_write_block :: "vdrive \<Rightarrow> nat \<Rightarrow> byte \<Rightarrow> byte \<Rightarrow> int \<times> vdrive" where
  "iec_write_block v ch b0 b1 =
    (let v = buffer_store v ch ((chan_buf v ch)[0 := b0, 1 := b1]); p = chan v ch in
     case vdrive_write_sector v (chan_buf v ch) (btrack p) (bsector p) of
       (status, v) \<Rightarrow>
         if status \<noteq> CBMDOS_IPE_OK then (-1, snd (vdrive_command_set_error v status (btrack p) (bsector p)))
         else (0, v))"

definition count_block :: "nat \<Rightarrow> vdrive \<Rightarrow> vdrive" where
  "count_block ch v =
    (let lo = the (bslot (chan v ch)) ! SLOT_NR_BLOCKS + 1;
         v = put_slot_byte ch SLOT_NR_BLOCKS lo v in
     if lo = 0 then put_slot_byte ch (SLOT_NR_BLOCKS + 1) (the (bslot (chan v ch)) ! (SLOT_NR_BLOCKS + 1) + 1) v else v)"

definition iec_write_sequential :: "nat \<Rightarrow> vdrive \<Rightarrow> nat \<Rightarrow> nat \<Rightarrow> int \<times> vdrive" where
  "iec_write_sequential t0 v ch len =
    (case (if btrack (chan v ch) = 0 then iec_first_block t0 v ch else (0, v)) of
       (retval, v) \<Rightarrow>
         if retval < 0 then (retval, v)
         else if len = WRITE_BLOCK then
           (case vdrive_bam_alloc_next_free_sector v (btrack (chan v ch)) (bsector (chan v ch)) of
              (retval, v, t_new, s_new) \<Rightarrow>
                if retval < 0 then disk_full_error v
                else case iec_write_block v ch (of_nat t_new) (of_nat s_new) of
                  (status, v) \<Rightarrow>
                    if status \<noteq> 0 then (status, v)
                    else (0, count_block ch (upd_chan ch (\<lambda>p. p\<lparr>btrack := t_new, bsector := s_new\<rparr>) v)))
         else
           case iec_write_block v ch 0 (of_nat (len - 1)) of
             (status, v) \<Rightarrow> if status \<noteq> 0 then (status, v) else (0, count_block ch v))"

text \<open>The case \<open>BUFFER_SEQUENTIAL\<close> of \<^verbatim>\<open>vdrive_iec_write\<close>.\<close>

definition iec_write_byte ::
  "(nat \<Rightarrow> byte) \<Rightarrow> buffer \<Rightarrow> nat \<Rightarrow> vdrive \<Rightarrow> byte \<Rightarrow> nat \<Rightarrow> int \<times> vdrive" where
  "iec_write_byte junk tmp t0 v data ch =
    (if readmode (chan v ch) = CBMDOS_FAM_READ then (SERIAL_ERROR, v)
     else
       case (if bufptr (chan v ch) \<ge> 256 then
               iec_write_sequential t0 (snd (vdrive_iec_switch junk tmp (upd_chan ch (\<lambda>p. p\<lparr>bufptr := 2\<rparr>) v) ch))
                 ch WRITE_BLOCK
             else (0, v)) of
         (status, v) \<Rightarrow>
           if status < 0 then (SERIAL_ERROR, v)
           else
             let v = buffer_store v ch ((chan_buf v ch)[bufptr (chan v ch) := data]) in
             (SERIAL_OK, upd_chan ch (\<lambda>p. p\<lparr>bufptr := bufptr p + 1\<rparr>) v))"

subsection \<open>Closing\<close>

text \<open>
  The slot's memory is freed and its pointer kept; nothing uses it before the channel is opened
  again, which sets it.
\<close>

definition iec_close_sequential ::
  "(nat \<Rightarrow> byte) \<Rightarrow> buffer \<Rightarrow> buffer \<Rightarrow> nat \<Rightarrow> archdep_tm \<Rightarrow> vdrive \<Rightarrow> nat \<Rightarrow> (int \<times> vdrive) option" where
  "iec_close_sequential junk tmp buf t0 now v ch =
    (if readmode (chan v ch) AND (CBMDOS_FAM_WRITE OR CBMDOS_FAM_APPEND) \<noteq> 0 then
       if VDRIVE_IS_READONLY v then
         Some (SERIAL_ERROR, snd (vdrive_command_set_error v CBMDOS_IPE_WRITE_PROTECT_ON 0 0))
       else
         let v = snd (vdrive_iec_switch junk tmp v ch);
             v = snd (iec_write_sequential t0 v ch (bufptr (chan v ch)));
             slot = the (bslot (chan v ch));
             v = put_slot_byte ch SLOT_TYPE_OFFSET (slot ! SLOT_TYPE_OFFSET OR 0x80) v;
             (track, sector, v) =
               (if needsupdate (chan v ch) \<noteq> 0 then
                  (unat (slot ! SLOT_FIRST_TRACK), unat (slot ! SLOT_FIRST_SECTOR),
                   put_slot_byte ch SLOT_REPLACE_SECTOR 0 (put_slot_byte ch SLOT_REPLACE_TRACK 0
                     (put_slot_byte ch SLOT_FIRST_SECTOR (slot ! SLOT_REPLACE_SECTOR)
                       (put_slot_byte ch SLOT_FIRST_TRACK (slot ! SLOT_REPLACE_TRACK) v))))
                else (0, 0, v));
             v = (if haspt v then upd_chan ch (\<lambda>p. p\<lparr>bslot := Some (vdrive_dir_updatetime now (the (bslot p)))\<rparr>) v else v);
             v = snd (vdrive_iec_update_dirent v ch) in
         case (if track \<noteq> 0 then vdrive_dir_free_chain v buf track sector else Some v) of
           None \<Rightarrow> None
         | Some v \<Rightarrow> Some (SERIAL_OK, upd_chan ch vdrive_free_buffer (snd (vdrive_bam_write_bam v)))
     else Some (SERIAL_OK, upd_chan ch vdrive_free_buffer v))"

subsection \<open>Reading\<close>

definition last_byte :: "buffer \<Rightarrow> nat" where
  "last_byte b = (if b ! 0 \<noteq> 0 then 0 else unat (b ! 1))"

text \<open>If the first sector cannot be read, the channel, now in the sequential mode, is closed again.\<close>

definition iec_open_read_sequential ::
  "(nat \<Rightarrow> byte) \<Rightarrow> buffer \<Rightarrow> buffer \<Rightarrow> nat \<Rightarrow> archdep_tm \<Rightarrow> vdrive \<Rightarrow> nat \<Rightarrow> nat \<Rightarrow> nat \<Rightarrow> (int \<times> vdrive) option" where
  "iec_open_read_sequential junk tmp buf t0 now v ch t s =
    (let v = upd_chan ch (\<lambda>p. (vdrive_alloc_buffer p (-1) BUFFER_SEQUENTIAL)\<lparr>bufptr := 2, brecord := 1\<rparr>) v in
     case vdrive_read_sector v (chan_buf v ch) t s of
       (status, v, b) \<Rightarrow>
         let v = buffer_store v ch b;
             v = upd_chan ch (\<lambda>p. p\<lparr>buf_length := last_byte (chan_buf v ch)\<rparr>) v;
             v = vdrive_set_last_read v t s (chan_buf v ch) in
         if status \<noteq> 0 then
           (case iec_close_sequential junk tmp buf t0 now (snd (vdrive_command_set_error v status t s)) ch of
              None \<Rightarrow> None | Some (_, v) \<Rightarrow> Some (SERIAL_ERROR, v))
         else Some (SERIAL_OK, v))"

text \<open>The next sector of a file, or the next part of a listing.\<close>

definition iec_read_next :: "(nat \<Rightarrow> byte) \<Rightarrow> buffer \<Rightarrow> vdrive \<Rightarrow> nat \<Rightarrow> (int \<times> vdrive) option" where
  "iec_read_next junk tmp v ch =
    (case mode (chan v ch) of
       BUFFER_SEQUENTIAL \<Rightarrow>
         let t = unat (chan_buf v ch ! 0); s = unat (chan_buf v ch ! 1) in
         (case vdrive_read_sector v (chan_buf v ch) t s of
            (status, v, b) \<Rightarrow>
              let v = buffer_store v ch b in
              if status \<noteq> CBMDOS_IPE_OK then Some (SERIAL_ERROR, snd (vdrive_command_set_error v status t s))
              else
                let v = upd_chan ch (\<lambda>p. p\<lparr>buf_length := last_byte (chan_buf v ch)\<rparr>) v;
                    v = vdrive_set_last_read v t s (chan_buf v ch) in
                Some (SERIAL_OK, upd_chan ch (\<lambda>p. p\<lparr>bufptr := 2\<rparr>) v))
     | BUFFER_DIRECTORY_READ \<Rightarrow>
         (case vdrive_dir_next_directory junk tmp v ch of
            None \<Rightarrow> None
          | Some (n, v) \<Rightarrow> Some (SERIAL_OK, upd_chan ch (\<lambda>p. p\<lparr>buf_length := c_unsigned n, bufptr := 0\<rparr>) v))
     | BUFFER_PARTITION_READ \<Rightarrow>
         (case vdrive_dir_part_next_directory v ch of
            None \<Rightarrow> None
          | Some (n, v) \<Rightarrow> Some (SERIAL_OK, upd_chan ch (\<lambda>p. p\<lparr>buf_length := c_unsigned n, bufptr := 0\<rparr>) v))
     | BUFFER_DIRECTORY_MORE_READ \<Rightarrow>
         let v = upd_chan ch (\<lambda>p. p\<lparr>mode := BUFFER_DIRECTORY_READ, bpartition := c_unsigned (dir_part v)\<rparr>) v in
         (case vdrive_iec_switch junk tmp v ch of
            (st, v) \<Rightarrow>
              if st = 0 then
                (case vdrive_dir_first_directory v None ch of
                   (n, v) \<Rightarrow> Some (SERIAL_OK, upd_chan ch (\<lambda>p. p\<lparr>buf_length := c_unsigned n, bufptr := 0\<rparr>) v))
              else Some (SERIAL_EOF, upd_chan ch (\<lambda>p. p\<lparr>readmode := CBMDOS_FAM_EOF\<rparr>) v))
     | _ \<Rightarrow> Some (SERIAL_OK, v))"

definition iec_read_sequential ::
  "(nat \<Rightarrow> byte) \<Rightarrow> buffer \<Rightarrow> vdrive \<Rightarrow> nat \<Rightarrow> (int \<times> byte \<times> vdrive) option" where
  "iec_read_sequential junk tmp v ch =
    (let p = chan v ch in
     if readmode p \<noteq> CBMDOS_FAM_READ then Some (SERIAL_ERROR, 0xc7, v)
     else
       let data = chan_buf v ch ! bufptr p;
           k = (if buf_length p \<noteq> 0 \<and> bufptr p = buf_length p then 0xff else bufptr p);
           k = (k + 1) mod 256;
           v = upd_chan ch (\<lambda>p. p\<lparr>bufptr := k\<rparr>) v in
       if k \<noteq> 0 then Some (SERIAL_OK, data, v)
       else if bsmall p = 0 \<and> buf_length p \<noteq> 0 then
         Some (SERIAL_EOF, data, upd_chan ch (\<lambda>p. p\<lparr>readmode := CBMDOS_FAM_EOF\<rparr>) v)
       else case iec_read_next junk tmp (snd (vdrive_iec_switch junk tmp v ch)) ch of
         None \<Rightarrow> None | Some (status, v) \<Rightarrow> Some (status, data, v))"

end
