(* ===== verification/Rel.thy ===== *)
theory Rel
  imports IecSeq "HOL-Library.Monad_Syntax"
begin

text \<open>
  Relative files (\<^verbatim>\<open>lib/vdrive/vdrive-rel.c\<close>): files of records of one length. Side sectors, in
  groups of six, list the data blocks of the file; on some formats a super side sector lists
  the groups, on the others the code keeps an imaginary one. A channel buffers the sector of
  the current record and one more.

  Writing may grow the file, growing positions the channel, positioning fills up the current
  record, and filling writes. The functions of this cycle take the calls of it as the argument
  \<open>run\<close>, and \<open>rel_run\<close> ties the knot. \<open>None\<close> is a call that does not return: a loop that does
  not end, or a division by a record length of zero.
\<close>

abbreviation (input) "CBMDOS_IPE_TOOLARGE \<equiv> 52 :: int"
abbreviation (input) "DIRTY_SECTOR \<equiv> 1 :: nat"
abbreviation (input) "DIRTY_RECORD \<equiv> 2 :: nat"
abbreviation (input) "WRITTEN_RECORD \<equiv> 4 :: nat"
abbreviation (input) "SIDE_SUPER_MAX \<equiv> 126 :: nat"
abbreviation (input) "SIDE_SECTORS_MAX \<equiv> 6 :: nat"
abbreviation (input) "SIDE_INDEX_MAX \<equiv> 120 :: nat"
abbreviation (input) "OFFSET_NEXT_TRACK \<equiv> 0 :: nat"
abbreviation (input) "OFFSET_NEXT_SECTOR \<equiv> 1 :: nat"
abbreviation (input) "OFFSET_SECTOR_NUM \<equiv> 2 :: nat"
abbreviation (input) "OFFSET_RECORD_LEN \<equiv> 3 :: nat"
abbreviation (input) "OFFSET_SIDE_SECTOR \<equiv> 4 :: nat"
abbreviation (input) "OFFSET_POINTER \<equiv> 16 :: nat"
abbreviation (input) "OFFSET_SUPER_254 \<equiv> 2 :: nat"
abbreviation (input) "OFFSET_SUPER_POINTER \<equiv> 3 :: nat"

abbreviation (input) upd_rel :: "nat \<Rightarrow> (rel_file \<Rightarrow> rel_file) \<Rightarrow> vdrive \<Rightarrow> vdrive" where
  "upd_rel ch f \<equiv> upd_chan ch (\<lambda>p. p\<lparr>rel := f (rel p)\<rparr>)"

abbreviation (input) chan_slot :: "vdrive \<Rightarrow> nat \<Rightarrow> buffer" where
  "chan_slot v ch \<equiv> the (bslot (chan v ch))"

definition slot_block_count :: "buffer \<Rightarrow> nat" where
  "slot_block_count slot = unat (slot ! SLOT_NR_BLOCKS) + push_bit 8 (unat (slot ! (SLOT_NR_BLOCKS + 1)))"

subsection \<open>Sizes\<close>

definition vdrive_rel_blocks_max :: "vdrive \<Rightarrow> nat" where
  "vdrive_rel_blocks_max v =
    (case image_format v of
       FORMAT_2040 \<Rightarrow> 700 + 6 | FORMAT_1541 \<Rightarrow> 700 + 6 | FORMAT_1571 \<Rightarrow> 700 + 6
     | FORMAT_1581 \<Rightarrow> 3000 + 4 * 6 + 1 + 1
     | FORMAT_8050 \<Rightarrow> 720 + 6
     | FORMAT_8250 \<Rightarrow> 4090 + 5 * 6 + 5 + 1
     | FORMAT_9000 \<Rightarrow>
         let m = c_unsigned (int (isectors (cur_image v)) * int (itracks (cur_image v)) - int (bam_size v div 256) - 1 - 1) in
         c_uint (m * 720) div 726
     | FORMAT_NP \<Rightarrow> 64672 + 89 * 6 + 5 + 1
     | _ \<Rightarrow> 0)"

text \<open>
  The number of side sector groups. The loops that do not stop at \<open>SIDE_SUPER_MAX\<close> read up to
  the end of the super side sector, and behind it if all its entries are in use.
\<close>

definition side_groups :: "nat \<Rightarrow> buffer \<Rightarrow> nat" where
  "side_groups n super = length (takeWhile (\<lambda>i. super ! (OFFSET_SUPER_POINTER + 2 * i) \<noteq> 0) [0..<n])"

text \<open>The last side sector of a group, and the number of blocks it lists.\<close>

definition last_side :: "buffer \<Rightarrow> nat \<Rightarrow> nat" where
  "last_side ss side =
    length (takeWhile (\<lambda>i. ss ! (256 * (side * SIDE_SECTORS_MAX) + 256 * i) \<noteq> 0) [0..<SIDE_SECTORS_MAX])"

definition listed_blocks :: "buffer \<Rightarrow> nat \<Rightarrow> nat \<Rightarrow> nat" where
  "listed_blocks ss side i =
    (let b = int (unat (ss ! (256 * (i + side * SIDE_SECTORS_MAX) + OFFSET_NEXT_SECTOR))) + 1 - 16 in
     c_unsigned (if b < 0 then - (- b div 2) else b div 2))"

text \<open>The offset of entry \<open>j\<close> of a side sector, in the memory of all side sectors.\<close>

definition side_entry :: "nat \<Rightarrow> nat \<Rightarrow> nat \<Rightarrow> nat" where
  "side_entry side i j = c_uint (256 * (i + side * SIDE_SECTORS_MAX) + OFFSET_POINTER + 2 * j)"

subsection \<open>Buffers\<close>

definition vdrive_rel_commit :: "vdrive \<Rightarrow> nat \<Rightarrow> vdrive" where
  "vdrive_rel_commit v ch =
    (let p = chan v ch in
     if needsupdate p AND DIRTY_SECTOR \<noteq> 0 then
       let v = snd (vdrive_write_sector v (chan_buf v ch) (btrack p) (bsector p)) in
       upd_chan ch (\<lambda>p. p\<lparr>needsupdate := unset_bit 0 (needsupdate p)\<rparr>) v
     else v)"

text \<open>The two buffers are swapped; the current sector becomes the other one.\<close>

definition swap_buffers :: "nat \<Rightarrow> nat \<Rightarrow> nat \<Rightarrow> vdrive \<Rightarrow> vdrive" where
  "swap_buffers ch t s v =
    upd_chan ch (\<lambda>p. p\<lparr>buffer_ptr := BUF_HEAP (buffer_next (rel p)),
       rel := (rel p)\<lparr>buffer_next := chan_buf v ch, track_next := btrack p, sector_next := bsector p\<rparr>,
       btrack := t, bsector := s\<rparr>) v"

text \<open>The sector becomes the current one, \<open>sw\<close> is what is done before it is read from the disk.\<close>

definition rel_enter_sector :: "(vdrive \<Rightarrow> vdrive) \<Rightarrow> vdrive \<Rightarrow> nat \<Rightarrow> nat \<Rightarrow> nat \<Rightarrow> int \<times> vdrive" where
  "rel_enter_sector sw v ch t s =
    (let p = chan v ch in
     if track_next (rel p) = t \<and> sector_next (rel p) = s then (0, swap_buffers ch t s v)
     else if btrack p \<noteq> t \<or> bsector p \<noteq> s then
       (case vdrive_read_sector (sw v) (chan_buf (sw v) ch) t s of (status, v, b) \<Rightarrow> (status, buffer_store v ch b))
     else (0, v))"

text \<open>The pointers move with the data from one sector to the next.\<close>

definition rel_next_sector :: "nat \<Rightarrow> nat \<Rightarrow> nat \<Rightarrow> vdrive \<Rightarrow> vdrive" where
  "rel_next_sector ch t s =
    upd_chan ch (\<lambda>p. p\<lparr>btrack := t, bsector := s, bufptr := c_unsigned (int (bufptr p) - 254),
       buf_length := c_unsigned (int (buf_length p) - 254),
       rel := (rel p)\<lparr>record_next := c_unsigned (int (record_next (rel p)) - 254)\<rparr>\<rparr>)"

text \<open>
  The length of a record without the zeros at its end. Below position 0 the code would go on
  behind the buffer.
\<close>

fun trim_length :: "(nat \<Rightarrow> bool) \<Rightarrow> nat \<Rightarrow> nat" where
  "trim_length zero 0 = (if zero 0 then UINT32_MAX else 0)"
| "trim_length zero (Suc n) = (if zero (Suc n) then trim_length zero n else Suc n)"

text \<open>The sector behind the current one is brought into the second buffer, if there is one.\<close>

definition rel_peek_next :: "(vdrive \<Rightarrow> vdrive) \<Rightarrow> vdrive \<Rightarrow> nat \<Rightarrow> int \<times> vdrive" where
  "rel_peek_next sw v ch =
    (let b = chan_buf v ch; r = rel (chan v ch); t = unat (b ! 0); s = unat (b ! 1) in
     case (if t \<noteq> 0 then
             if t \<noteq> track_next r \<or> s \<noteq> sector_next r then
               (case vdrive_read_sector (sw v) (buffer_next r) t s of
                  (status, v, nb) \<Rightarrow> (status, upd_rel ch (\<lambda>r. r\<lparr>buffer_next := nb\<rparr>) v))
             else (0, v)
           else (1, v)) of
       (status, v) \<Rightarrow>
         (status, if status = 0 then upd_rel ch (\<lambda>r. r\<lparr>track_next := t, sector_next := s\<rparr>) v else v))"

text \<open>The length of the record at the pointer, as reading and listening find it.\<close>

definition rel_scan_length :: "(vdrive \<Rightarrow> vdrive) \<Rightarrow> vdrive \<Rightarrow> nat \<Rightarrow> vdrive" where
  "rel_scan_length sw v ch =
    (let in_buffer = (\<lambda>v n. bufptr (chan v ch) \<le> n \<and> chan_buf v ch ! n = 0) in
     if buf_length (chan v ch) < 256 then
       upd_chan ch (\<lambda>p. p\<lparr>buf_length := trim_length (in_buffer v) (buf_length p)\<rparr>) v
     else
       case rel_peek_next sw v ch of
         (status, v) \<Rightarrow>
           if status = 0 then
             let n = trim_length (\<lambda>n. 256 \<le> n \<and> buffer_next (rel (chan v ch)) ! (n - 256 + 2) = 0) (buf_length (chan v ch));
                 n = (if n < 256 then trim_length (in_buffer v) n else n) in
             upd_chan ch (\<lambda>p. p\<lparr>buf_length := n\<rparr>) v
           else v)"

text \<open>On to the next record.\<close>

definition rel_next_record :: "nat \<Rightarrow> vdrive \<Rightarrow> vdrive" where
  "rel_next_record ch v =
    (let r = rel (chan v ch); n = c_uint (record_next r + unat (side_sector r ! OFFSET_RECORD_LEN)) in
     upd_chan ch (\<lambda>p. p\<lparr>bufptr := record_next r, rel := r\<lparr>record_next := n\<rparr>, buf_length := c_unsigned (int n - 1),
       brecord := c_uint (brecord p + 1)\<rparr>) v)"

subsection \<open>Finding a record\<close>

text \<open>The sector a record begins in, and its offset behind the link of the sector.\<close>

definition vdrive_rel_track_sector :: "vdrive \<Rightarrow> nat \<Rightarrow> nat \<Rightarrow> nat \<times> nat \<times> nat" where
  "vdrive_rel_track_sector v ch record =
    (let ss = side_sector (rel (chan v ch));
         rec_len = unat (chan_slot v ch ! SLOT_RECORD_LENGTH);
         rec_long = c_uint (record * rec_len);
         rec_start = rec_long mod 254;
         offset = 254 * SIDE_INDEX_MAX * SIDE_SECTORS_MAX;
         super = rec_long div offset;
         rec_long = rec_long mod offset;
         offset = 254 * SIDE_INDEX_MAX;
         side = rec_long div offset;
         rec_long = rec_long mod offset;
         offset = rec_long div 254 * 2;
         offset = offset + (super * SIDE_SECTORS_MAX + side) * 256 + OFFSET_POINTER in
     (unat (ss ! offset), unat (ss ! (offset + 1)), rec_start))"

text \<open>
  The number of records, found from the last block of the file. A record length of 0 makes
  the code divide by zero.
\<close>

definition vdrive_rel_record_max :: "vdrive \<Rightarrow> nat \<Rightarrow> (nat \<times> vdrive) option" where
  "vdrive_rel_record_max v ch =
    (let r = rel (chan v ch); side = side_groups SIDE_SUPER_MAX (super_side_sector r) in
     if side = 0 then Some (0, v)
     else
       let side = side - 1;
           i = last_side (side_sector r) side;
           j = c_unsigned (int (listed_blocks (side_sector r) side i) - 1);
           t = unat (side_sector r ! side_entry side i j);
           s = unat (side_sector r ! (side_entry side i j + 1)) in
       case vdrive_read_sector v (chan_buf v ch) t s of
         (status, v, b) \<Rightarrow>
           let v = buffer_store v ch b in
           if status \<noteq> 0 then Some (0, snd (vdrive_command_set_error v CBMDOS_IPE_ILLEGAL_TRACK_OR_SECTOR t s))
           else
             let k = c_unsigned (((int side * 6 + int i) * 120 + int j) * 254 + int (unat (chan_buf v ch ! OFFSET_NEXT_SECTOR)) - 1);
                 len = unat (chan_slot v ch ! SLOT_RECORD_LENGTH) in
             if len = 0 then None else Some (k div len, v))"

subsection \<open>The cycle of writing, growing and positioning\<close>

datatype rel_call =
    REL_WRITE byte | REL_FILLRECORD | REL_FILL_LOOP | REL_POSITION nat nat nat | REL_ADD_SECTOR
  | REL_GROW nat | REL_GROW_LOOP nat

type_synonym rel_runner = "rel_call \<Rightarrow> vdrive \<Rightarrow> (int \<times> vdrive) option"

paragraph \<open>Filling up a record\<close>

definition rel_fill_loop :: "rel_runner \<Rightarrow> vdrive \<Rightarrow> nat \<Rightarrow> (int \<times> vdrive) option" where
  "rel_fill_loop run v ch =
    (let p = chan v ch in
     if bufptr p < record_next (rel p) then
       if bufptr p < 256 then
         let v = buffer_store v ch ((chan_buf v ch)[bufptr p := 0]) in
         run REL_FILL_LOOP (upd_chan ch (\<lambda>p. p\<lparr>bufptr := bufptr p + 1, needsupdate := needsupdate p OR DIRTY_SECTOR\<rparr>) v)
       else do { (_, v) \<leftarrow> run (REL_WRITE 0) v; run REL_FILL_LOOP v }
     else Some (0, v))"

definition vdrive_rel_fillrecord :: "rel_runner \<Rightarrow> vdrive \<Rightarrow> nat \<Rightarrow> (int \<times> vdrive) option" where
  "vdrive_rel_fillrecord run v ch = do {
     v \<leftarrow> (if needsupdate (chan v ch) AND DIRTY_RECORD \<noteq> 0 then do {
             (_, v) \<leftarrow> run REL_FILL_LOOP v;
             Some (upd_chan ch (\<lambda>p. p\<lparr>needsupdate := unset_bit 1 (needsupdate p)\<rparr>) v) }
           else Some v);
     Some (0, upd_chan ch (\<lambda>p. p\<lparr>needsupdate := unset_bit 2 (needsupdate p)\<rparr>) v) }"

paragraph \<open>Positioning\<close>

text \<open>The sector of the record becomes the current one.\<close>

definition rel_goto_sector :: "vdrive \<Rightarrow> nat \<Rightarrow> nat \<Rightarrow> nat \<Rightarrow> int \<times> vdrive" where
  "rel_goto_sector v ch t s =
    (let p = chan v ch in
     if track_next (rel p) = t \<and> sector_next (rel p) = s then (0, swap_buffers ch t s (vdrive_rel_commit v ch))
     else if btrack p \<noteq> t \<or> bsector p \<noteq> s then
       let v = vdrive_rel_commit v ch in
       (case vdrive_read_sector v (chan_buf v ch) t s of
          (status, v, b) \<Rightarrow>
            let v = buffer_store v ch b in
            if status \<noteq> 0 then (CBMDOS_IPE_ILLEGAL_TRACK_OR_SECTOR, v)
            else (0, upd_chan ch (\<lambda>p. p\<lparr>btrack := t, bsector := s\<rparr>) v))
     else (0, v))"

text \<open>The length for reading from a position in a record, with the overflow of the real drives.\<close>

definition rel_position_length :: "vdrive \<Rightarrow> nat \<Rightarrow> nat \<Rightarrow> vdrive" where
  "rel_position_length v ch position =
    (let in_buffer = (\<lambda>v n. bufptr (chan v ch) \<le> n \<and> chan_buf v ch ! n = 0);
         compensate = (\<lambda>v n. if bufptr (chan v ch) > n \<and> position > 0 then bufptr (chan v ch) + 254 - position else n) in
     if buf_length (chan v ch) < 256 then
       upd_chan ch (\<lambda>p. p\<lparr>buf_length := compensate v (trim_length (in_buffer v) (buf_length p))\<rparr>) v
     else
       case rel_peek_next id v ch of
         (status, v) \<Rightarrow>
           if status = 0 then
             let k = bufptr (chan v ch);
                 n = trim_length (\<lambda>n. 256 \<le> n \<and> k \<le> n \<and> buffer_next (rel (chan v ch)) ! (n - 256 + 2) = 0)
                   (buf_length (chan v ch));
                 n = (if n < 256 \<and> k < 256 then compensate v (trim_length (in_buffer v) n) else n) in
             upd_chan ch (\<lambda>p. p\<lparr>buf_length := n\<rparr>) v
           else v)"

definition vdrive_rel_position_internal ::
  "rel_runner \<Rightarrow> vdrive \<Rightarrow> nat \<Rightarrow> nat \<Rightarrow> nat \<Rightarrow> nat \<Rightarrow> (int \<times> vdrive) option" where
  "vdrive_rel_position_internal run v ch rec_lo rec_hi position =
    (let rec_len = unat (chan_slot v ch ! SLOT_RECORD_LENGTH);
         position = (if position = 0 then 0 else position - 1) in
     if position \<ge> rec_len then Some (CBMDOS_IPE_OVERFLOW, v)
     else
       let record = c_uint (rec_lo + push_bit 8 rec_hi);
           record = (if record = 0 then 0 else record - 1);
           v = upd_chan ch (\<lambda>p. p\<lparr>brecord := record\<rparr>) v in
       if record \<ge> record_max (rel (chan v ch)) then
         Some (if record > 0 then CBMDOS_IPE_NO_RECORD else CBMDOS_IPE_OK, v)
       else do {
         (_, v) \<leftarrow> run REL_FILLRECORD v;
         let (t, s, rec_start) = vdrive_rel_track_sector v ch record;
         let (status, v) = rel_goto_sector v ch t s;
         if status \<noteq> 0 then Some (status, v)
         else
           let k = rec_start + 2 + position;
               n = k - position + rec_len;
               v = upd_chan ch (\<lambda>p. p\<lparr>bufptr := k, rel := (rel p)\<lparr>record_next := n\<rparr>, buf_length := n - 1\<rparr>) v in
           Some (CBMDOS_IPE_OK, rel_position_length v ch position) })"

paragraph \<open>Adding a sector\<close>

text \<open>
  New records are \<open>0xff\<close> followed by zeros. The counters are the position in the current record
  and the number of records.
\<close>

definition fill_byte :: "nat \<Rightarrow> nat \<Rightarrow> nat \<times> nat \<times> buffer \<Rightarrow> nat \<times> nat \<times> buffer" where
  "fill_byte m i = (\<lambda>(k, n, b).
     let b = b[i := (if k = 0 then 0xff else 0)]; k = (k + 1) mod m in (k, if k = 0 then n + 1 else n, b))"

definition fill_records :: "nat \<Rightarrow> nat \<Rightarrow> nat \<times> nat \<times> buffer \<Rightarrow> nat \<times> nat \<times> buffer" where
  "fill_records m from = fold (fill_byte m) [from..<256]"

definition rel_disk_full :: "vdrive \<Rightarrow> int \<times> vdrive" where
  "rel_disk_full v = (1, snd (vdrive_command_set_error v CBMDOS_IPE_DISK_FULL 0 0))"

text \<open>The first block of a file: the slot and the super side sector are set up.\<close>

definition rel_first_block :: "vdrive \<Rightarrow> nat \<Rightarrow> nat \<Rightarrow> nat \<Rightarrow> nat \<Rightarrow> nat \<Rightarrow> int \<times> vdrive" where
  "rel_first_block v ch t s t_new s_new =
    (let v = put_slot_byte ch SLOT_FIRST_SECTOR (of_nat s) (put_slot_byte ch SLOT_FIRST_TRACK (of_nat t) v);
         v = upd_rel ch (\<lambda>r. r\<lparr>super_side_sector := (super_side_sector r)
               [OFFSET_NEXT_TRACK := of_nat t_new, OFFSET_NEXT_SECTOR := of_nat s_new, OFFSET_SUPER_254 := 254,
                OFFSET_SUPER_POINTER := of_nat t_new, OFFSET_SUPER_POINTER + 1 := of_nat s_new],
               super_side_sector_needsupdate := 1\<rparr>) v;
         (retval, v, t_super, s_super) =
           (if vdrive_rel_has_super v \<noteq> 0 then vdrive_bam_alloc_next_free_sector v t_new s_new else (0, v, t_new, s_new)) in
     if retval < 0 then rel_disk_full v
     else
       let v = upd_rel ch (\<lambda>r. if vdrive_rel_has_super v \<noteq> 0
                 then r\<lparr>super_side_sector_track := of_nat t_super, super_side_sector_sector := of_nat s_super\<rparr>
                 else r\<lparr>super_side_sector_track := 0, super_side_sector_sector := 0\<rparr>) v;
           v = put_slot_byte ch SLOT_SIDE_SECTOR (of_nat s_super) (put_slot_byte ch SLOT_SIDE_TRACK (of_nat t_super) v);
           v = upd_rel ch (\<lambda>r. r\<lparr>track_next := t, sector_next := s\<rparr>) v in
       (0, snd (vdrive_iec_update_dirent v ch)))"

text \<open>
  The last block of an existing file is linked to the new one, and filled up with records. The
  result is the position in the record at the end of the block.
\<close>

definition rel_link_block :: "rel_runner \<Rightarrow> vdrive \<Rightarrow> nat \<Rightarrow> nat \<Rightarrow> nat \<Rightarrow> nat \<Rightarrow> (nat \<times> vdrive) option" where
  "rel_link_block run v ch t s m = do {
     let n = record_max (rel (chan v ch));
     (_, v) \<leftarrow> run (REL_POSITION (n AND 255) (drop_bit 8 n) 1) v;
     let k = bufptr (chan v ch);
     let (from, v) =
       (if k + unat (chan_slot v ch ! SLOT_RECORD_LENGTH) > 256 then
          let v = vdrive_rel_commit v ch; r = rel (chan v ch) in
          (k + m - 254,
           upd_chan ch (\<lambda>p. p\<lparr>buffer_ptr := BUF_HEAP (buffer_next r), rel := r\<lparr>buffer_next := chan_buf v ch\<rparr>,
             btrack := track_next r, bsector := sector_next r\<rparr>) v)
        else (k + m, v));
     if m = 0 \<and> from < 256 then None
     else
       let b = (chan_buf v ch)[OFFSET_NEXT_TRACK := of_nat t, OFFSET_NEXT_SECTOR := of_nat s];
           (k, n, b) = fill_records m from (0, record_max (rel (chan v ch)), b);
           v = buffer_store v ch b in
       Some (k, upd_chan ch (\<lambda>p. p\<lparr>rel := (rel p)\<lparr>track_next := t, sector_next := s, record_max := n\<rparr>,
         needsupdate := DIRTY_SECTOR\<rparr>) v) }"

text \<open>The new block is filled with records and written.\<close>

definition rel_fill_block :: "vdrive \<Rightarrow> nat \<Rightarrow> nat \<Rightarrow> nat \<Rightarrow> vdrive" where
  "rel_fill_block v ch k m =
    (let r = rel (chan v ch);
         (k, n, b) = fill_records m 2 (k, record_max r, buffer_next r);
         b = b[OFFSET_NEXT_TRACK := 0, OFFSET_NEXT_SECTOR := of_int (255 - int k)];
         v = upd_rel ch (\<lambda>r. r\<lparr>buffer_next := b, record_max := n\<rparr>) v in
     snd (vdrive_write_sector v b (track_next r) (sector_next r)))"

text \<open>The new block is entered into the side sectors.\<close>

definition new_side_group :: "nat \<Rightarrow> nat \<Rightarrow> nat \<Rightarrow> rel_file \<Rightarrow> rel_file" where
  "new_side_group side t_new s_new r =
    (let n = side * SIDE_SECTORS_MAX; more = (\<lambda>xs :: byte list. take n xs @ replicate SIDE_SECTORS_MAX 0);
         ss = take (n * 256) (side_sector r) @ replicate (SIDE_SECTORS_MAX * 256) 0;
         o' = OFFSET_SUPER_POINTER + side * 2 in
     r\<lparr>side_sector := ss[n * 256 + OFFSET_SIDE_SECTOR := of_nat t_new, n * 256 + OFFSET_SIDE_SECTOR + 1 := of_nat s_new,
                        n * 256 + OFFSET_SECTOR_NUM := 0],
       side_sector_track := more (side_sector_track r), side_sector_sector := more (side_sector_sector r),
       side_sector_needsupdate := more (side_sector_needsupdate r),
       super_side_sector := (super_side_sector r)[o' := of_nat t_new, o' + 1 := of_nat s_new],
       super_side_sector_needsupdate := 1\<rparr>)"

definition extend_side_group :: "nat \<Rightarrow> nat \<Rightarrow> nat \<Rightarrow> nat \<Rightarrow> rel_file \<Rightarrow> rel_file" where
  "extend_side_group side i t_new s_new r =
    (let l = 256 * (side * SIDE_SECTORS_MAX);
         ss = fold (\<lambda>k ss. ss[l + 256 * k + OFFSET_SIDE_SECTOR + (i + 1) * 2 := of_nat t_new,
                              l + 256 * k + OFFSET_SIDE_SECTOR + (i + 1) * 2 + 1 := of_nat s_new]) [0..<i + 1] (side_sector r);
         at = l + 256 * (i + 1);
         ss = ss[at + OFFSET_SECTOR_NUM := of_nat (i + 1)];
         ss = write_at ss (at + OFFSET_SIDE_SECTOR) (slice ss (l + OFFSET_SIDE_SECTOR) (SIDE_SECTORS_MAX * 2));
         nu = fold (\<lambda>k nu. nu[side * SIDE_SECTORS_MAX + k := 1]) [0..<i + 1] (side_sector_needsupdate r) in
     r\<lparr>side_sector := ss, side_sector_needsupdate := nu\<rparr>)"

definition rel_list_block ::
  "nat \<Rightarrow> nat \<Rightarrow> nat \<Rightarrow> nat \<Rightarrow> nat \<Rightarrow> nat \<Rightarrow> nat \<Rightarrow> nat \<Rightarrow> rel_file \<Rightarrow> rel_file" where
  "rel_list_block side i j t s t_new s_new m r =
    (let r = (if j = 0 then
                r\<lparr>side_sector := (side_sector r)[OFFSET_NEXT_TRACK := 0, OFFSET_RECORD_LEN := of_nat m,
                    OFFSET_SIDE_SECTOR := of_nat t_new, OFFSET_SIDE_SECTOR + 1 := of_nat s_new],
                  side_sector_track := (side_sector_track r)[0 := of_nat t_new],
                  side_sector_sector := (side_sector_sector r)[0 := of_nat s_new]\<rparr>
              else r);
         n = i + side * SIDE_SECTORS_MAX in
     if j = SIDE_INDEX_MAX then
       let r = r\<lparr>side_sector_needsupdate := (side_sector_needsupdate r)[n := 1],
                 side_sector := (side_sector r)[n * 256 + OFFSET_NEXT_TRACK := of_nat t_new,
                                                n * 256 + OFFSET_NEXT_SECTOR := of_nat s_new]\<rparr>;
           (n, r) = (if i = SIDE_SECTORS_MAX - 1 then ((side + 1) * SIDE_SECTORS_MAX, new_side_group (side + 1) t_new s_new r)
                     else (i + 1 + side * SIDE_SECTORS_MAX, extend_side_group side i t_new s_new r));
           a = n * 256 in
       r\<lparr>side_sector_needsupdate := (side_sector_needsupdate r)[n := 1],
         side_sector_track := (side_sector_track r)[n := of_nat t_new],
         side_sector_sector := (side_sector_sector r)[n := of_nat s_new],
         side_sector := (side_sector r)[a + OFFSET_NEXT_TRACK := 0, a + OFFSET_NEXT_SECTOR := of_nat (OFFSET_POINTER + 1),
           a + OFFSET_RECORD_LEN := of_nat m, a + OFFSET_POINTER := of_nat t, a + OFFSET_POINTER + 1 := of_nat s]\<rparr>
     else
       r\<lparr>side_sector_needsupdate := (side_sector_needsupdate r)[n := 1],
         side_sector := (side_sector r)[n * 256 + OFFSET_NEXT_SECTOR := of_nat (OFFSET_POINTER + 2 * j + 1),
           n * 256 + OFFSET_POINTER + 2 * j := of_nat t, n * 256 + OFFSET_POINTER + 2 * j + 1 := of_nat s]\<rparr>)"

definition vdrive_rel_add_sector :: "rel_runner \<Rightarrow> vdrive \<Rightarrow> nat \<Rightarrow> (int \<times> vdrive) option" where
  "vdrive_rel_add_sector run v ch =
    (if slot_block_count (chan_slot v ch) \<ge> vdrive_rel_blocks_max v then
       Some (1, snd (vdrive_command_set_error v CBMDOS_IPE_TOOLARGE 0 0))
     else
       let r = rel (chan v ch);
           groups = side_groups SIDE_SUPER_MAX (super_side_sector r);
           side = groups - 1;
           i = (if groups = 0 then 0 else last_side (side_sector r) side);
           j = (if groups = 0 then 0 else listed_blocks (side_sector r) side i);
           e = side_entry side i (c_unsigned (int j - 1));
           (retval, v, t, s) =
             (if groups = 0 then vdrive_bam_alloc_first_free_sector v 0 0
              else vdrive_bam_alloc_next_free_sector v (unat (side_sector r ! e)) (unat (side_sector r ! (e + 1)))) in
       if retval < 0 then Some (rel_disk_full v)
       else
         let (retval, v, t_new, s_new) =
               (if j = SIDE_INDEX_MAX \<or> j = 0 then vdrive_bam_alloc_next_free_sector v t s else (0, v, 0, 0)) in
         if retval < 0 then Some (rel_disk_full v)
         else
           let m = unat (chan_slot v ch ! SLOT_RECORD_LENGTH); current = c_uint (brecord (chan v ch) + 1);
               (status, v) = (if j = 0 then rel_first_block v ch t s t_new s_new else (0, v)) in
           if status \<noteq> 0 then Some (status, v)
           else do {
             (k, v) \<leftarrow> (if j = 0 then Some (0, v) else rel_link_block run v ch t s m);
             if m = 0 then None
             else do {
               let v = rel_fill_block v ch k m;
               let v = upd_rel ch (rel_list_block side i j t s t_new s_new m) v;
               (_, v) \<leftarrow> run (REL_POSITION (current AND 255) (drop_bit 8 current) 1) v;
               Some (0, v) } })"

paragraph \<open>Growing\<close>

definition rel_grow_loop :: "rel_runner \<Rightarrow> vdrive \<Rightarrow> nat \<Rightarrow> nat \<Rightarrow> (int \<times> vdrive) option" where
  "rel_grow_loop run v ch records =
    (if records \<ge> record_max (rel (chan v ch)) then do {
       (l, v) \<leftarrow> run REL_ADD_SECTOR v;
       if l \<noteq> 0 then Some (l, v) else run (REL_GROW_LOOP records) v }
     else Some (0, v))"

definition flush_side_sector :: "nat \<Rightarrow> nat \<Rightarrow> vdrive \<Rightarrow> vdrive" where
  "flush_side_sector ch i v =
    (let r = rel (chan v ch) in
     if side_sector_needsupdate r ! i \<noteq> 0 \<and> side_sector_track r ! i \<noteq> 0 then
       upd_rel ch (\<lambda>r. r\<lparr>side_sector_needsupdate := (side_sector_needsupdate r)[i := 0]\<rparr>)
         (snd (vdrive_write_sector v (slice (side_sector r) (i * 256) 256)
                 (unat (side_sector_track r ! i)) (unat (side_sector_sector r ! i))))
     else v)"

definition vdrive_rel_flush_sidesectors :: "vdrive \<Rightarrow> nat \<Rightarrow> vdrive" where
  "vdrive_rel_flush_sidesectors v ch =
    (let r = rel (chan v ch);
         v = (if super_side_sector_needsupdate r \<noteq> 0 \<and> super_side_sector_track r \<noteq> 0 then
                upd_rel ch (\<lambda>r. r\<lparr>super_side_sector_needsupdate := 0\<rparr>)
                  (snd (vdrive_write_sector v (super_side_sector r)
                     (unat (super_side_sector_track r)) (unat (super_side_sector_sector r))))
              else v);
         groups = side_groups 127 (super_side_sector (rel (chan v ch))) in
     fold (flush_side_sector ch) [0..<groups * SIDE_SECTORS_MAX] v)"

text \<open>The number of blocks of a file with so many records.\<close>

definition rel_blocks :: "nat \<Rightarrow> nat \<Rightarrow> bool \<Rightarrow> nat" where
  "rel_blocks records rec_len super =
    (let i = c_uint (records * rec_len);
         j = i div 254 + of_bool (i mod 254 \<noteq> 0);
         i = j div SIDE_INDEX_MAX + of_bool (j mod SIDE_INDEX_MAX \<noteq> 0) + of_bool super in
     i + j)"

definition vdrive_rel_grow :: "rel_runner \<Rightarrow> vdrive \<Rightarrow> nat \<Rightarrow> nat \<Rightarrow> (int \<times> vdrive) option" where
  "vdrive_rel_grow run v ch records = do {
     (l, v) \<leftarrow> run (REL_GROW_LOOP records) v;
     let v = vdrive_rel_flush_sidesectors v ch;
     let v = snd (vdrive_bam_write_bam v);
     let r = rel (chan v ch);
     let slot = chan_slot v ch;
     let i = rel_blocks (record_max r) (unat (slot ! SLOT_RECORD_LENGTH)) (super_side_sector_track r \<noteq> 0);
     let v = (if i \<noteq> slot_block_count slot then
                snd (vdrive_iec_update_dirent (put_slot_byte ch (SLOT_NR_BLOCKS + 1) (of_nat (i div 256))
                  (put_slot_byte ch SLOT_NR_BLOCKS (of_nat (i mod 256)) v)) ch)
              else v);
     Some (l, v) }"

paragraph \<open>Writing a byte\<close>

text \<open>What \<^verbatim>\<open>vdrive_iec_write\<close> and \<^verbatim>\<open>vdrive_rel_write\<close> do first if no image is selected.\<close>

definition write_refused :: "(nat \<Rightarrow> byte) \<Rightarrow> buffer \<Rightarrow> vdrive \<Rightarrow> nat \<Rightarrow> bool \<times> vdrive" where
  "write_refused junk tmp v ch =
    (if image_ptr v = None then
       (case vdrive_iec_switch junk tmp v ch of
          (status, v) \<Rightarrow>
            let status = (if status = 0 \<and> VDRIVE_IS_READONLY v \<and> mode (chan v ch) \<noteq> BUFFER_COMMAND_CHANNEL
                          then CBMDOS_IPE_WRITE_PROTECT_ON else status) in
            if status \<noteq> 0 then (True, snd (vdrive_command_set_error v status 0 0)) else (False, v))
     else (False, v))"

text \<open>The byte is put into the current record, unless the record is full.\<close>

definition rel_put_byte :: "vdrive \<Rightarrow> nat \<Rightarrow> byte \<Rightarrow> vdrive" where
  "rel_put_byte v ch data =
    (let k = bufptr (chan v ch) in
     if k \<ge> record_next (rel (chan v ch)) then snd (vdrive_command_set_error v CBMDOS_IPE_OVERFLOW 0 0)
     else
       let v = buffer_store v ch ((chan_buf v ch)[k := data]) in
       upd_chan ch (\<lambda>p. p\<lparr>bufptr := k + 1,
         needsupdate := (let n = needsupdate p OR (DIRTY_SECTOR OR WRITTEN_RECORD) in
           if k + 1 \<noteq> record_next (rel p) then n OR DIRTY_RECORD else unset_bit 1 n)\<rparr>) v)"

definition vdrive_rel_write ::
  "rel_runner \<Rightarrow> (nat \<Rightarrow> byte) \<Rightarrow> buffer \<Rightarrow> vdrive \<Rightarrow> byte \<Rightarrow> nat \<Rightarrow> (int \<times> vdrive) option" where
  "vdrive_rel_write run junk tmp v data ch =
    (let (refused, v) = write_refused junk tmp v ch; switch = (\<lambda>v. snd (vdrive_iec_switch junk tmp v ch)) in
     if refused then Some (SERIAL_ERROR, v)
     else do {
       (l, v) \<leftarrow> (if brecord (chan v ch) \<ge> record_max (rel (chan v ch))
                  then run (REL_GROW (brecord (chan v ch))) (switch v) else Some (0, v));
       if l < 0 then Some (SERIAL_OK, v)
       else
         let b = chan_buf v ch; t = unat (b ! 0); s = unat (b ! 1) in
         if t \<noteq> 0 then
           if bufptr (chan v ch) \<ge> 256 then
             let (status, v) = rel_enter_sector id (vdrive_rel_commit (switch v) ch) ch t s in
             if status = 0 then Some (SERIAL_OK, rel_put_byte (rel_next_sector ch t s v) ch data)
             else Some (SERIAL_EOF, v)
           else Some (SERIAL_OK, rel_put_byte v ch data)
         else if bufptr (chan v ch) \<ge> s + 2 then do {
           (l, v) \<leftarrow> run (REL_GROW (brecord (chan v ch))) (switch v);
           Some (SERIAL_OK, if l < 0 then v else rel_put_byte v ch data) }
         else Some (SERIAL_OK, rel_put_byte v ch data) })"

subsection \<open>Tying the knot\<close>

lemma case_prod_mono [partial_function_mono]:
  "(\<And>a b. mono_option (\<lambda>f. g f a b)) \<Longrightarrow> mono_option (\<lambda>f. case_prod (g f) x)"
  by (cases x) simp

lemma rel_bodies_mono [partial_function_mono]:
  assumes "\<And>c v. mono_option (\<lambda>f. run f c v)"
  shows "mono_option (\<lambda>f. rel_fill_loop (run f) v ch)" "mono_option (\<lambda>f. vdrive_rel_fillrecord (run f) v ch)"
    "mono_option (\<lambda>f. vdrive_rel_position_internal (run f) v ch lo hi pos)"
    "mono_option (\<lambda>f. rel_link_block (run f) v ch t s m)"
    "mono_option (\<lambda>f. rel_grow_loop (run f) v ch n)" "mono_option (\<lambda>f. vdrive_rel_grow (run f) v ch n)"
    "mono_option (\<lambda>f. vdrive_rel_write (run f) junk tmp v data ch)"
  unfolding rel_fill_loop_def vdrive_rel_fillrecord_def vdrive_rel_position_internal_def rel_link_block_def
    rel_grow_loop_def vdrive_rel_grow_def vdrive_rel_write_def
  by (intro partial_function_mono assms)+

lemma rel_add_sector_mono [partial_function_mono]:
  assumes "\<And>c v. mono_option (\<lambda>f. run f c v)"
  shows "mono_option (\<lambda>f. vdrive_rel_add_sector (run f) v ch)"
  unfolding vdrive_rel_add_sector_def by (intro partial_function_mono rel_bodies_mono assms)

partial_function (option) rel_run ::
  "(nat \<Rightarrow> byte) \<Rightarrow> buffer \<Rightarrow> nat \<Rightarrow> rel_call \<Rightarrow> vdrive \<Rightarrow> (int \<times> vdrive) option" where [code]:
  "rel_run junk tmp ch c v =
    (case c of
       REL_WRITE data \<Rightarrow> vdrive_rel_write (rel_run junk tmp ch) junk tmp v data ch
     | REL_FILLRECORD \<Rightarrow> vdrive_rel_fillrecord (rel_run junk tmp ch) v ch
     | REL_FILL_LOOP \<Rightarrow> rel_fill_loop (rel_run junk tmp ch) v ch
     | REL_POSITION lo hi pos \<Rightarrow> vdrive_rel_position_internal (rel_run junk tmp ch) v ch lo hi pos
     | REL_ADD_SECTOR \<Rightarrow> vdrive_rel_add_sector (rel_run junk tmp ch) v ch
     | REL_GROW n \<Rightarrow> vdrive_rel_grow (rel_run junk tmp ch) v ch n
     | REL_GROW_LOOP n \<Rightarrow> rel_grow_loop (rel_run junk tmp ch) v ch n)"

subsection \<open>Opening\<close>

text \<open>
  The side sectors of a group are read one after the other. \<open>n\<close> of them, from the \<open>i\<close>-th on, are
  left of group \<open>j\<close>.
\<close>

fun read_side_sectors :: "nat \<Rightarrow> vdrive \<Rightarrow> nat \<Rightarrow> nat \<Rightarrow> nat \<Rightarrow> nat \<Rightarrow> nat \<Rightarrow> int \<times> vdrive" where
  "read_side_sectors 0 v ch j i t s = (0, v)"
| "read_side_sectors (Suc n) v ch j i t s =
    (let k = i + j * SIDE_SECTORS_MAX;
         v = upd_rel ch (\<lambda>r. r\<lparr>side_sector_track := (side_sector_track r)[k := of_nat t],
               side_sector_sector := (side_sector_sector r)[k := of_nat s]\<rparr>) v in
     case vdrive_read_sector v (slice (side_sector (rel (chan v ch))) (k * 256) 256) t s of
       (status, v, b) \<Rightarrow>
         let v = upd_rel ch (\<lambda>r. r\<lparr>side_sector := write_at (side_sector r) (k * 256) b\<rparr>) v in
         if status \<noteq> 0 then (-1, v)
         else if unat (b ! OFFSET_SECTOR_NUM) \<noteq> i then (-1, v)
         else if b ! OFFSET_NEXT_TRACK = 0 then (0, v)
         else read_side_sectors n v ch j (i + 1) (unat (b ! OFFSET_NEXT_TRACK)) (unat (b ! OFFSET_NEXT_SECTOR)))"

fun read_side_groups :: "vdrive \<Rightarrow> nat \<Rightarrow> nat list \<Rightarrow> int \<times> vdrive" where
  "read_side_groups v ch [] = (0, v)"
| "read_side_groups v ch (j # js) =
    (let super = super_side_sector (rel (chan v ch)) in
     case read_side_sectors SIDE_SECTORS_MAX v ch j 0 (unat (super ! (OFFSET_SUPER_POINTER + j * 2)))
            (unat (super ! (OFFSET_SUPER_POINTER + j * 2 + 1))) of
       (status, v) \<Rightarrow> if status \<noteq> 0 then (status, v) else read_side_groups v ch js)"

text \<open>\<open>mem\<close> is the contents of the fresh memory for the super side sector.\<close>

definition vdrive_rel_open_existing :: "buffer \<Rightarrow> vdrive \<Rightarrow> nat \<Rightarrow> int \<times> vdrive" where
  "vdrive_rel_open_existing mem v ch =
    (let slot = take 32 (chan_slot v ch);
         v = upd_chan ch (\<lambda>p. p\<lparr>bslot := Some slot\<rparr>) v;
         t = unat (slot ! SLOT_SIDE_TRACK); s = unat (slot ! SLOT_SIDE_SECTOR) in
     case vdrive_read_sector v mem t s of
       (status, v, b) \<Rightarrow>
         if status \<noteq> 0 then (-1, upd_rel ch (\<lambda>r. r\<lparr>super_side_sector := b\<rparr>) v)
         else
           let v = upd_rel ch (\<lambda>r.
                 (if b ! OFFSET_SUPER_254 \<noteq> 254 then
                    r\<lparr>super_side_sector := (replicate 256 0)[OFFSET_NEXT_TRACK := of_nat t, OFFSET_NEXT_SECTOR := of_nat s,
                        OFFSET_SUPER_254 := 254, OFFSET_SUPER_POINTER := of_nat t, OFFSET_SUPER_POINTER + 1 := of_nat s],
                      super_side_sector_track := 0, super_side_sector_sector := 0\<rparr>
                  else r\<lparr>super_side_sector := b, super_side_sector_track := of_nat t, super_side_sector_sector := of_nat s\<rparr>)
                 \<lparr>super_side_sector_needsupdate := 0\<rparr>) v;
               groups = side_groups 127 (super_side_sector (rel (chan v ch)));
               zeros = replicate (groups * SIDE_SECTORS_MAX) 0;
               v = upd_rel ch (\<lambda>r. r\<lparr>side_sector := replicate (groups * SIDE_SECTORS_MAX * 256) 0,
                     side_sector_track := zeros, side_sector_sector := zeros, side_sector_needsupdate := zeros\<rparr>) v in
           read_side_groups v ch [0..<groups])"

definition vdrive_rel_setup_ss_buffers :: "vdrive \<Rightarrow> nat \<Rightarrow> nat \<times> vdrive" where
  "vdrive_rel_setup_ss_buffers v ch =
    (vdrive_rel_has_super v,
     upd_rel ch (\<lambda>r. r\<lparr>super_side_sector := (replicate 256 0)[OFFSET_SUPER_254 := 254],
       super_side_sector_track := 0, super_side_sector_sector := 0, super_side_sector_needsupdate := 0,
       side_sector := replicate (SIDE_SECTORS_MAX * 256) 0, side_sector_track := replicate SIDE_SECTORS_MAX 0,
       side_sector_sector := replicate SIDE_SECTORS_MAX 0, side_sector_needsupdate := replicate SIDE_SECTORS_MAX 0\<rparr>) v)"

definition vdrive_rel_shutdown_ss_buffers :: "vdrive \<Rightarrow> nat \<Rightarrow> vdrive" where
  "vdrive_rel_shutdown_ss_buffers v ch =
    upd_rel ch (\<lambda>r. r\<lparr>side_sector := [], side_sector_track := [], side_sector_sector := [],
      side_sector_needsupdate := [], super_side_sector := []\<rparr>) v"

text \<open>\<open>tmp\<close> is the local buffer of the search for a slot.\<close>

definition vdrive_rel_open_new ::
  "buffer \<Rightarrow> vdrive \<Rightarrow> nat \<Rightarrow> cbmdos_cmd_parse_plus \<Rightarrow> (int \<times> vdrive) option" where
  "vdrive_rel_open_new tmp v ch cp =
    (case vdrive_dir_find_first_slot v [] (-1) 0 (dir (chan v ch)) of
       (v, d) \<Rightarrow> do {
         (found, v, d) \<leftarrow> vdrive_dir_find_next_slot v tmp d;
         let v = set_dir ch d v;
         if found = None then Some (1, snd (vdrive_command_set_error v CBMDOS_IPE_DISK_FULL 0 0))
         else
           let slot = memset (replicate 32 0) SLOT_NAME_OFFSET 0xa0 16;
               slot = write_at slot SLOT_NAME_OFFSET (take (filelength cp) (the (pfile cp)));
               slot = slot[SLOT_TYPE_OFFSET := of_nat (filetype cp OR 0x80), SLOT_RECORD_LENGTH := of_nat (recordlength cp)];
               d = d\<lparr>dbuffer := write_at (dbuffer d) (dslot d * 32 + 2) (slice slot 2 30)\<rparr>;
               v = upd_chan ch (\<lambda>p. p\<lparr>bslot := Some slot, dir := d\<rparr>) v;
               v = snd (vdrive_write_sector v (dbuffer d) (dtrack d) (dsector d)) in
           Some (0, snd (vdrive_rel_setup_ss_buffers v ch)) })"

text \<open>\<open>mem\<close>, \<open>mem1\<close> and \<open>mem2\<close> are the contents of fresh memory.\<close>

definition vdrive_rel_open ::
  "(nat \<Rightarrow> byte) \<Rightarrow> buffer \<Rightarrow> buffer \<Rightarrow> buffer \<Rightarrow> buffer \<Rightarrow> vdrive \<Rightarrow> nat \<Rightarrow> cbmdos_cmd_parse_plus \<Rightarrow> (int \<times> vdrive) option" where
  "vdrive_rel_open junk tmp mem mem1 mem2 v ch cp = do {
     let newrelfile = (bslot (chan v ch) = None);
     (status, v) \<leftarrow>
       (if bslot (chan v ch) \<noteq> None then
          (case vdrive_rel_open_existing mem v ch of (st, v) \<Rightarrow> Some (st, v))
        else if recordlength cp > 0 then
          if VDRIVE_IS_READONLY v then Some (1, snd (vdrive_command_set_error v CBMDOS_IPE_WRITE_PROTECT_ON 0 0))
          else vdrive_rel_open_new tmp v ch cp
        else Some (1, snd (vdrive_command_set_error v CBMDOS_IPE_NOT_FOUND 0 0)));
     if status \<noteq> 0 then Some (SERIAL_ERROR, v)
     else do {
       let v = upd_chan ch (\<lambda>p. p\<lparr>mode := BUFFER_RELATIVE, bufptr := 0, buffer_ptr := BUF_HEAP mem1, brecord := 0,
         btrack := 0, bsector := 0, rel := (rel p)\<lparr>buffer_next := mem2, track_next := 0, sector_next := 0\<rparr>\<rparr>) v;
       (n, v) \<leftarrow> vdrive_rel_record_max v ch;
       let v = upd_rel ch (\<lambda>r. r\<lparr>record_max := n\<rparr>) v;
       (_, v) \<leftarrow> (if newrelfile then rel_run junk tmp ch (REL_GROW 0) v else Some (0, v));
       (_, v) \<leftarrow> rel_run junk tmp ch (REL_POSITION 1 0 1) v;
       Some (SERIAL_OK, v) } }"

subsection \<open>Positioning, reading and closing\<close>

definition vdrive_rel_position ::
  "(nat \<Rightarrow> byte) \<Rightarrow> buffer \<Rightarrow> vdrive \<Rightarrow> nat \<Rightarrow> nat \<Rightarrow> nat \<Rightarrow> nat \<Rightarrow> (int \<times> vdrive) option" where
  "vdrive_rel_position junk tmp v ch rec_lo rec_hi position =
    rel_run junk tmp ch (REL_POSITION rec_lo rec_hi position) (snd (vdrive_iec_switch junk tmp v ch))"

text \<open>The byte at the pointer is delivered, and the last one of a record ends it.\<close>

definition rel_get_byte :: "(vdrive \<Rightarrow> vdrive) \<Rightarrow> vdrive \<Rightarrow> nat \<Rightarrow> int \<times> byte \<times> vdrive" where
  "rel_get_byte sw v ch =
    (let data = chan_buf v ch ! bufptr (chan v ch);
         v = upd_chan ch (\<lambda>p. p\<lparr>bufptr := bufptr p + 1\<rparr>) v in
     if bufptr (chan v ch) > buf_length (chan v ch) then
       let v = rel_next_record ch v in
       (SERIAL_EOF, data,
        if brecord (chan v ch) \<ge> record_max (rel (chan v ch)) then v else rel_scan_length sw v ch)
     else (SERIAL_OK, data, v))"

definition vdrive_rel_read :: "(nat \<Rightarrow> byte) \<Rightarrow> buffer \<Rightarrow> vdrive \<Rightarrow> nat \<Rightarrow> int \<times> byte \<times> vdrive" where
  "vdrive_rel_read junk tmp v ch =
    (let p = chan v ch; sw = (\<lambda>v. snd (vdrive_iec_switch junk tmp v ch));
         no_record = (\<lambda>v. snd (vdrive_command_set_error v CBMDOS_IPE_NO_RECORD 0 0)) in
     if brecord p \<ge> record_max (rel p) then (SERIAL_EOF, 0x0d, no_record v)
     else
       let b = chan_buf v ch; t = unat (b ! 0); s = unat (b ! 1) in
       if t \<noteq> 0 then
         if bufptr p \<ge> 256 then
           (case rel_enter_sector sw (vdrive_rel_commit v ch) ch t s of
              (status, v) \<Rightarrow>
                if status = 0 then rel_get_byte sw (rel_next_sector ch t s v) ch else (SERIAL_EOF, 0xc7, v))
         else rel_get_byte sw v ch
       else if bufptr p \<ge> s + 2 then
         if record_next (rel p) > buf_length p then (SERIAL_EOF, 0x0d, no_record v)
         else if bufptr p \<ge> 256 then rel_get_byte sw (rel_next_sector ch (btrack p) (bsector p) v) ch
         else rel_get_byte sw v ch
       else rel_get_byte sw v ch)"

definition vdrive_rel_close :: "(nat \<Rightarrow> byte) \<Rightarrow> buffer \<Rightarrow> vdrive \<Rightarrow> nat \<Rightarrow> (int \<times> vdrive) option" where
  "vdrive_rel_close junk tmp v ch = do {
     (_, v) \<leftarrow> rel_run junk tmp ch REL_FILLRECORD (snd (vdrive_iec_switch junk tmp v ch));
     let v = vdrive_rel_commit v ch;
     let v = upd_chan ch (\<lambda>p. p\<lparr>mode := BUFFER_NOT_IN_USE, buffer_ptr := BUF_NULL, rel := (rel p)\<lparr>buffer_next := []\<rparr>\<rparr>) v;
     Some (SERIAL_OK, vdrive_rel_shutdown_ss_buffers v ch) }"

definition vdrive_rel_listen :: "(nat \<Rightarrow> byte) \<Rightarrow> buffer \<Rightarrow> vdrive \<Rightarrow> nat \<Rightarrow> vdrive option" where
  "vdrive_rel_listen junk tmp v ch =
    (if needsupdate (chan v ch) AND WRITTEN_RECORD \<noteq> 0 then do {
       (_, v) \<leftarrow> rel_run junk tmp ch REL_FILLRECORD (snd (vdrive_iec_switch junk tmp v ch));
       Some (rel_scan_length id (rel_next_record ch v) ch) }
     else Some v)"

end
