(* ===== verification/IecFile.thy ===== *)
theory IecFile
  imports IecSeq
begin

text \<open>
  Sequential files read back as they were written: the bytes written to a channel form a chain
  of sectors on disk, and reading the chain gives the bytes back with an end-of-file status on
  the last one. The argument rests on the contracts of the layers below: a search for a free
  sector allocates exactly the sector it returns (\<open>BamSearch\<close>), and a logical sector reads back
  as written (\<open>Vdrive\<close>).
\<close>

subsection \<open>Allocation on a mounted disk\<close>

lemma changed_bit_mounted:
  assumes "bam_ok v" "bam_addr v (t, s)" "mounted v"
  shows "mounted (changed_bit v t s x add)"
proof -
  let ?w = "changed_bit v t s x add"
  note eff = changed_bit_effect [OF assms(1,2), of x add]
  note sd = same_drive_disk [OF eff(2)] and keep = same_drive_keeps [OF eff(2)]
  have "bam ?w \<noteq> None" "bam v \<noteq> None" using eff(1) assms(1) by (simp_all add: bam_ok_def bam_loaded_def)
  then have "dos_version_ok ?w = dos_version_ok v"
    using version_byte_kept [OF assms(1,2), of x add]
    by (simp add: dos_version_ok_def VDRIVE_IS_1541_def keep bam_byte_def)
  then show ?thesis
    using assms(3) sd by (simp add: mounted_def drive_ok_def keep partition_ok_def)
qed

lemma try_all_mounted:
  assumes "bam_ok v" "\<And>a. a \<in> set as \<Longrightarrow> bam_addr v a" "mounted v" "bam_attached v" "bam_synced v"
  shows "mounted (snd (try_all bam_alloc v as)) \<and> bam_attached (snd (try_all bam_alloc v as)) \<and>
    bam_synced (snd (try_all bam_alloc v as))"
  using assms
proof (induction as arbitrary: v)
  case (Cons a as)
  obtain t s where ts: "a = (t, s)" by (cases a)
  obtain r w where rw: "bam_alloc v a = (r, w)" by (cases "bam_alloc v a")
  have a: "bam_addr v (t, s)" using Cons.prems(2) ts by simp
  have w: "bam_ok w" "\<And>x. bam_addr w x = bam_addr v x"
    using bam.alloc_simps [OF Cons.prems(1) a] rw ts by auto
  have m: "mounted w" "bam_attached w" "bam_synced w"
    using allocate_sector_ok [OF Cons.prems(1) a] changed_bit_mounted [OF Cons.prems(1) a Cons.prems(3)]
      changed_bit_synced [OF Cons.prems(1) a Cons.prems(4,5)] Cons.prems(3-5) rw ts
    by (auto simp: bam_alloc_def split: if_splits)
  then have "mounted (snd (try_all bam_alloc w as)) \<and> bam_attached (snd (try_all bam_alloc w as)) \<and>
    bam_synced (snd (try_all bam_alloc w as))"
    using Cons.prems(2) w by (intro Cons.IH) auto
  then show ?case using rw m by simp
qed simp

text \<open>The sectors that may hold files, and how many of them are free.\<close>

definition data_sectors :: "vdrive \<Rightarrow> (nat \<times> nat) set" where
  "data_sectors v = {(t, s). 1 \<le> t \<and> t \<le> num_tracks v \<and> t \<noteq> Dir_Track v \<and> s < sectors_on v t}"

definition blocks_free :: "vdrive \<Rightarrow> nat" where
  "blocks_free v = bam.free_count v (data_sectors v)"

text \<open>
  A disk that files can be written to: it is mounted, its BAM is loaded and in step with the
  disk, its sectors exist, and the search for a first sector reaches all tracks.
\<close>

definition writable :: "vdrive \<Rightarrow> bool" where
  "writable v = (mounted v \<and> searchable v \<and> bam_attached v \<and> bam_synced v \<and> \<not> haspt v \<and> 2 \<le> Dir_Track v \<and> Dir_Track v \<le> num_tracks v \<and>
     num_tracks v \<le> Dir_Track v + c_unsigned (vdrive_calculate_disk_half v) \<and>
     Dir_Track v \<le> 1 + c_unsigned (vdrive_calculate_disk_half v) \<and>
     (\<forall>a \<in> data_sectors v. logical_valid v a))"

lemma data_sector_bounds:
  assumes "searchable v" "(t, s) \<in> data_sectors v"
  shows "bam_addr v (t, s)" "t \<noteq> 0" "t < 256" "s < 256" "s < widest (image_format v)"
proof -
  note b = sectors_on_bounds [OF searchable_simps(2) [OF assms(1)]]
  show w: "s < widest (image_format v)" using assms(2) b(2) [of t] by (auto simp: data_sectors_def)
  moreover have "entry_tracks (image_format v) < 256" "widest (image_format v) \<le> 256"
    by (simp_all add: entry_tracks_def widest_def split: image_format.split)
  ultimately show "t \<noteq> 0" "t < 256" "s < 256" "bam_addr v (t, s)"
    using assms b(3) by (auto simp: data_sectors_def bam_addr_def searchable_def)
qed

lemma finite_data_sectors: "searchable v \<Longrightarrow> finite (data_sectors v)"
  using data_sector_bounds by (intro finite_subset [of "data_sectors v" "{..<256} \<times> {..<256}"]) auto

text \<open>A drive whose BAM has changed only.\<close>

lemma same_drive_data:
  assumes "same_drive v w"
  shows "data_sectors w = data_sectors v" "vdrive_calculate_disk_half w = vdrive_calculate_disk_half v"
  using same_drive_keeps [OF assms]
  by (simp_all add: data_sectors_def sectors_on_def vdrive_calculate_disk_half_def split: image_format.split)

lemma same_drive_writable:
  assumes "writable v" "same_drive v w" "bam_ok w" "mounted w \<and> bam_attached w \<and> bam_synced w"
  shows "writable w"
  using assms same_drive_keeps [OF assms(2)] same_drive_data [OF assms(2)] same_disk_read(2) [OF same_drive_disk(1,2) [OF assms(2)]]
  by (simp add: writable_def searchable_def)

text \<open>The sectors of the BAM.\<close>

definition bam_homes :: "vdrive \<Rightarrow> (nat \<times> nat) set" where
  "bam_homes v = bam_home v ` {..<bam_blocks v}"

lemma bam_homes_same: "same_homes v w \<Longrightarrow> bam_homes w = bam_homes v"
  using same_homes_home [of v w] same_homes_blocks [of v w] by (simp add: bam_homes_def)

text \<open>What a successful search has done.\<close>

definition taken :: "vdrive \<Rightarrow> vdrive \<Rightarrow> nat \<times> nat \<Rightarrow> bool" where
  "taken v w a = (a \<in> data_sectors v \<and> sector_is_free v a \<and> same_drive v w \<and> writable w \<and>
     (\<forall>b \<in> data_sectors v. sector_is_free w b = (sector_is_free v b \<and> b \<noteq> a)))"

lemma taken_count:
  assumes "searchable v" "taken v w a"
  shows "Suc (blocks_free w) = blocks_free v"
proof -
  have "{x \<in> data_sectors v. sector_is_free w x} = {x \<in> data_sectors v. sector_is_free v x} - {a}"
    using assms(2) by (auto simp: taken_def)
  moreover have "a \<in> {x \<in> data_sectors v. sector_is_free v x}" using assms(2) by (simp add: taken_def)
  moreover have "finite {x \<in> data_sectors v. sector_is_free v x}" using finite_data_sectors [OF assms(1)] by simp
  ultimately show ?thesis
    using assms(2) card_Suc_Diff1 [of "{x \<in> data_sectors v. sector_is_free v x}" a] same_drive_data(1) [of v w]
    unfolding blocks_free_def bam.free_count_def taken_def by metis
qed

lemma found_taken:
  assumes "writable v" "set as = data_sectors v" "0 < blocks_free v"
  shows "\<exists>w t s. found (try_all bam_alloc v as) t0 s0 = (0, w, t, s) \<and> taken v w (t, s)"
proof -
  have v: "searchable v" "bam_ok v" "mounted v" "bam_attached v" "bam_synced v"
    using assms(1) by (simp_all add: writable_def searchable_def)
  have valid: "bam_addr v a" if "a \<in> set as" for a
    using data_sector_bounds(1) [OF v(1)] that assms(2) by (cases a) simp
  obtain r where r: "found (try_all bam_alloc v as) t0 s0 = r" by blast
  have "{a \<in> data_sectors v. sector_is_free v a} \<noteq> {}"
    using assms(3) unfolding blocks_free_def bam.free_count_def by (metis card.empty less_irrefl)
  then have ex: "\<exists>a \<in> set as. sector_is_free v a" using assms(2) by auto
  have sr: "search_result v (set as) (found (try_all bam_alloc v as) t0 s0) (t0, s0)"
    by (rule found_search_result [OF v(2) valid])
  obtain ret w t s where f: "found (try_all bam_alloc v as) t0 s0 = (ret, w, t, s)"
    by (cases "found (try_all bam_alloc v as) t0 s0") auto
  have w: "w = snd (try_all bam_alloc v as)"
    using f by (auto simp: found_def split: prod.splits option.splits)
  have m: "mounted w \<and> bam_attached w \<and> bam_synced w" unfolding w by (rule try_all_mounted [OF v(2) valid v(3-5)])
  have res: "ret = 0" "(t, s) \<in> data_sectors v" "sector_is_free v (t, s)" "bam_ok w" "same_drive v w"
    "\<forall>b. bam_addr v b \<longrightarrow> sector_is_free w b = (sector_is_free v b \<and> b \<noteq> (t, s))"
    using sr ex assms(2) unfolding f search_result_def by auto
  have "taken v w (t, s)"
    using res valid assms(2) same_drive_writable [OF assms(1) res(5,4) m] by (auto simp: taken_def)
  then show ?thesis using f res(1) by blast
qed

lemma alloc_first_taken:
  assumes "writable v" "0 < blocks_free v"
  obtains w t s where "vdrive_bam_alloc_first_free_sector v t0 s0 = (0, w, t, s)" "taken v w (t, s)"
proof -
  have v: "searchable v" "1 \<le> Dir_Track v" "Dir_Track v \<le> num_tracks v" using assms(1) by (simp_all add: writable_def)
  have "set (first_list v) = data_sectors v"
    unfolding set_first_list [OF v] using assms(1) by (auto simp: data_sectors_def writable_def)
  then show ?thesis
    using found_taken [OF assms(1) _ assms(2)] that unfolding alloc_first_try_all [OF v(1,3)] by blast
qed

lemma alloc_next_taken:
  assumes "writable v" "0 < blocks_free v" "(t, s) \<in> data_sectors v"
  obtains w t' s' where "vdrive_bam_alloc_next_free_sector v t s = (0, w, t', s')" "taken v w (t', s')"
proof -
  have v: "searchable v" "2 \<le> Dir_Track v" "Dir_Track v \<le> num_tracks v" using assms(1) by (simp_all add: writable_def)
  have t: "1 \<le> t" "t \<le> num_tracks v" "t \<noteq> Dir_Track v" using assms(3) by (simp_all add: data_sectors_def)
  have il: "vdrive_bam_get_interleave v \<le> 10"
    by (simp add: vdrive_bam_get_interleave_def split: image_format.split)
  have "set (next_list v t s il) = data_sectors v" for il
    unfolding set_next_list [OF v t] by (simp add: data_sectors_def)
  then show ?thesis
    using found_taken [OF assms(1) _ assms(2)] that
    unfolding vdrive_bam_alloc_next_free_sector_def
      alloc_next_try_all [OF v t data_sector_bounds(5) [OF v(1) assms(3)] il] by blast
qed

subsection \<open>Changes of channels and of the disk\<close>

lemma bam_part_cong:
  assumes "bam w = bam v" "bam_size w = bam_size v" "bam_state w = bam_state v" "image_format w = image_format v"
    "bam_tracks w = bam_tracks v"
  shows "bam_ok w = bam_ok v" "sector_is_free w = sector_is_free v" "bam_addr w = bam_addr v"
  using assms by (auto simp: bam_ok_def bam_loaded_def bam_headers_ok_def bam_byte_def sector_is_free_def bam_addr_def
      fun_eq_iff)

lemma data_sectors_cong:
  assumes "image_format w = image_format v" "num_tracks w = num_tracks v" "Dir_Track w = Dir_Track v"
    "cur_image w = cur_image v \<or> image_format v \<noteq> FORMAT_9000"
  shows "data_sectors w = data_sectors v" "vdrive_calculate_disk_half w = vdrive_calculate_disk_half v"
proof -
  have "vdrive_get_max_sectors w = vdrive_get_max_sectors v"
    using assms(1,4) by (auto simp: fun_eq_iff vdrive_get_max_sectors_def split: image_format.split)
  then show "data_sectors w = data_sectors v" using assms(2,3) by (simp add: data_sectors_def sectors_on_def)
  show "vdrive_calculate_disk_half w = vdrive_calculate_disk_half v"
    using assms(1,2) by (simp add: vdrive_calculate_disk_half_def split: image_format.split)
qed

lemma bam_sync_cong:
  assumes "same_homes v w" "bam w = bam v" "bam_state w = bam_state v" "bam_tracks w = bam_tracks v"
    "bam_sectors w = bam_sectors v" "drive_ok w = drive_ok v" "errors_known (cur_image w) = errors_known (cur_image v)"
    "logical_valid w = logical_valid v" "\<forall>a \<in> bam_homes v. logical_read w a = logical_read v a"
  shows "bam_attached w = bam_attached v" "bam_synced w = bam_synced v"
proof -
  note hm = same_homes_home [OF assms(1)] and bl = same_homes_blocks [OF assms(1)]
  have "bam_located w = bam_located v"
    using assms(1-5) unfolding bam_located_def hm bl by (simp add: same_homes_def)
  then show "bam_attached w = bam_attached v" using assms(6-8) unfolding bam_attached_def hm bl by simp
  show "bam_synced w = bam_synced v"
    using assms(2,3,9) unfolding bam_synced_def hm bl by (auto simp: bam_block_def bam_homes_def)
qed

text \<open>A drive that differs in the state of the channels and of the error channel only.\<close>

definition channels_only :: "vdrive \<Rightarrow> vdrive \<Rightarrow> bool" where
  "channels_only v w = (\<exists>bs lr lc rm dc dp. w = v\<lparr>buffers := bs, last_read := lr, last_code := lc, ram := rm,
     dir_count := dc, dir_part := dp\<rparr>)"

lemma chan_change:
  assumes "channels_only v w"
  shows "mounted w = mounted v" "holds w = holds v" "logical_valid w = logical_valid v"
    "data_sectors w = data_sectors v" "sector_is_free w = sector_is_free v" "blocks_free w = blocks_free v"
    "writable w = writable v" "chained w = chained v" "bam_homes w = bam_homes v"
proof -
  obtain bs lr lc rm dc dp where w: "w = v\<lparr>buffers := bs, last_read := lr, last_code := lc, ram := rm,
     dir_count := dc, dir_part := dp\<rparr>" using assms unfolding channels_only_def by blast
  have sd: "same_disk v w" "image_mode w = image_mode v" by (simp_all add: w same_disk_def)
  note rd = same_disk_read [OF sd]
  have "bam w = bam v" "bam_size w = bam_size v" "bam_state w = bam_state v" "image_format w = image_format v"
    "bam_tracks w = bam_tracks v" by (simp_all add: w)
  note bp = bam_part_cong [OF this]
  have dr: "drive_ok w = drive_ok v"
    unfolding drive_ok_def rd partition_ok_def dos_version_ok_def VDRIVE_IS_1541_def by (simp add: w)
  then show m: "mounted w = mounted v" unfolding mounted_def rd by (simp add: w)
  show h: "holds w = holds v" using rd by (simp add: holds_def fun_eq_iff)
  show "logical_valid w = logical_valid v" by (rule rd)
  show d: "data_sectors w = data_sectors v"
    using rd(3) by (intro data_sectors_cong) (simp_all add: w)
  show "sector_is_free w = sector_is_free v" by (rule bp)
  show "blocks_free w = blocks_free v" by (simp add: blocks_free_def bam.free_count_def d bp)
  have half: "vdrive_calculate_disk_half w = vdrive_calculate_disk_half v"
    using rd(3) by (intro data_sectors_cong) (simp_all add: w)
  have hm: "same_homes v w" by (simp add: w same_homes_def)
  then show "bam_homes w = bam_homes v" by (rule bam_homes_same)
  have syn: "bam_attached w = bam_attached v" "bam_synced w = bam_synced v"
    by (rule bam_sync_cong [OF hm]; (simp add: rd dr | simp add: w))+
  then show "writable w = writable v"
    unfolding writable_def searchable_def bp d rd m half syn by (simp add: w)
  have "chained w a cs = chained v a cs" for a cs by (induction cs arbitrary: a) (auto simp: h)
  then show "chained w = chained v" by (simp add: fun_eq_iff)
qed

lemma upd_chan_change: "channels_only v (upd_chan ch f v)"
  unfolding channels_only_def upd_chan_def
  by (intro exI [of _ "(buffers v)[ch := f (chan v ch)]"] exI [of _ "last_read v"] exI [of _ "last_code v"]
      exI [of _ "ram v"] exI [of _ "dir_count v"] exI [of _ "dir_part v"]) simp

lemmas upd_chan_keeps [simp] = chan_change [OF upd_chan_change]

lemma upd_chan_fields [simp]:
  "length (buffers (upd_chan ch f v)) = length (buffers v)"
  "haspt (upd_chan ch f v) = haspt v" "current_part (upd_chan ch f v) = current_part v"
  "image_format (upd_chan ch f v) = image_format v" "image_mode (upd_chan ch f v) = image_mode v"
  by (simp_all only: upd_chan_def) simp_all

lemma upd_chan_at [simp]:
  "ch < length (buffers v) \<Longrightarrow> chan (upd_chan ch f v) ch = f (chan v ch)"
  "ch' \<noteq> ch \<Longrightarrow> chan (upd_chan ch f v) ch' = chan v ch'"
  by (simp_all add: upd_chan_def del: upd_chan_keeps upd_chan_fields)

text \<open>A channel with allocated memory.\<close>

lemma heap_store:
  assumes "buffer_ptr (chan v ch) = BUF_HEAP b" "length x = length b"
  shows "buffer_store v ch x = upd_chan ch (\<lambda>p. p\<lparr>buffer_ptr := BUF_HEAP x\<rparr>) v"
  using assms by (simp add: buffer_store_def upd_chan_def write_at_def)

lemma heap_buf: "buffer_ptr (chan v ch) = BUF_HEAP b \<Longrightarrow> chan_buf v ch = b"
  by (simp add: chan_buf_def buffer_contents_def)

lemma write_sector_change:
  assumes "writable v" "logical_valid v a" "length b = 256" "a \<notin> bam_homes v"
  obtains h where "vdrive_write_sector v b (fst a) (snd a) = (0, v\<lparr>disk_heap := h\<rparr>)" "writable (v\<lparr>disk_heap := h\<rparr>)"
    "\<And>x y. holds (v\<lparr>disk_heap := h\<rparr>) x y = (if x = a then y = b else holds v x y)"
    "data_sectors (v\<lparr>disk_heap := h\<rparr>) = data_sectors v" "sector_is_free (v\<lparr>disk_heap := h\<rparr>) = sector_is_free v"
    "blocks_free (v\<lparr>disk_heap := h\<rparr>) = blocks_free v" "bam_homes (v\<lparr>disk_heap := h\<rparr>) = bam_homes v"
proof -
  have v: "mounted v" "searchable v" "logical_valid v (fst a, snd a)" using assms(1,2) by (simp_all add: writable_def)
  obtain h where h: "vdrive_write_sector v b (fst a) (snd a) = (0, v\<lparr>disk_heap := h\<rparr>)" "mounted (v\<lparr>disk_heap := h\<rparr>)"
    "logical_valid (v\<lparr>disk_heap := h\<rparr>) = logical_valid v"
    "\<And>x y. holds (v\<lparr>disk_heap := h\<rparr>) x y = (if x = (fst a, snd a) then y = b else holds v x y)"
    "logical_write v (fst a, snd a) b = v\<lparr>disk_heap := h\<rparr>"
    using mounted_write [OF v(1,3) assms(3)] by metis
  let ?w = "v\<lparr>disk_heap := h\<rparr>"
  have bp: "bam_ok ?w = bam_ok v" "sector_is_free ?w = sector_is_free v" by (rule bam_part_cong; simp)+
  have "image_format v \<noteq> FORMAT_9000" using v(2) by (auto simp: searchable_def cbm_format_def fixed_layout_def)
  then have d: "data_sectors ?w = data_sectors v" "vdrive_calculate_disk_half ?w = vdrive_calculate_disk_half v"
    by (intro data_sectors_cong; simp)+
  have hm: "same_homes v ?w" by (simp add: same_homes_def)
  have rd: "\<forall>x \<in> bam_homes v. logical_read ?w x = logical_read v x"
    using logical.read_write [OF _ v(3) assms(3)] v(1) assms(1,4) h(5)
    by (auto simp: mounted_def writable_def bam_attached_def bam_homes_def)
  have "drive_ok ?w = drive_ok v" "errors_known (cur_image ?w) = errors_known (cur_image v)"
    using v(1) h(2) by (simp_all add: mounted_def)
  then have "bam_attached ?w = bam_attached v" "bam_synced ?w = bam_synced v"
    using bam_sync_cong [OF hm, simplified] h(3) rd by auto
  with d have "writable ?w"
    using assms(1) h(2,3) unfolding writable_def searchable_def bp d by simp
  then show ?thesis
    using that h d bp bam_homes_same [OF hm] by (simp add: blocks_free_def bam.free_count_def)
qed

subsection \<open>A file that is being written\<close>

text \<open>Sectors linked to each other whose last link leads to \<open>e\<close>.\<close>

fun linked :: "vdrive \<Rightarrow> nat \<times> nat \<Rightarrow> ((nat \<times> nat) \<times> buffer) list \<Rightarrow> nat \<times> nat \<Rightarrow> bool" where
  "linked v a [] e = (a = e)"
| "linked v a ((a', b) # cs) e = (a' = a \<and> fst a \<noteq> 0 \<and> holds v a b \<and> linked v (link b) cs e)"

lemma linked_snoc:
  "linked v a (cs @ [(e, b)]) e' \<longleftrightarrow> linked v a cs e \<and> fst e \<noteq> 0 \<and> holds v e b \<and> link b = e'"
  by (induction v a cs e rule: linked.induct) auto

lemma linked_chained:
  "linked v a cs e \<Longrightarrow> fst e \<noteq> 0 \<Longrightarrow> holds v e b \<Longrightarrow> b ! 0 = 0 \<Longrightarrow> chained v a (cs @ [(e, b)])"
  by (induction v a cs e rule: linked.induct) auto

lemma linked_cong: "(\<And>c. c \<in> set cs \<Longrightarrow> holds w (fst c) (snd c) = holds v (fst c) (snd c)) \<Longrightarrow> linked w a cs e = linked v a cs e"
  by (induction v a cs e rule: linked.induct) auto

lemma linked_upd_chan [simp]: "linked (upd_chan ch f v) a cs e = linked v a cs e"
  by (rule linked_cong) simp

abbreviation (input) slot_link :: "buffer \<Rightarrow> nat \<times> nat" where
  "slot_link slot \<equiv> (unat (slot ! 3), unat (slot ! 4))"

text \<open>The number of blocks in a slot.\<close>

definition slot_blocks :: "buffer \<Rightarrow> nat" where
  "slot_blocks slot = unat (slot ! 30) + 256 * unat (slot ! 31)"

definition file_data :: "((nat \<times> nat) \<times> buffer) list \<Rightarrow> buffer" where
  "file_data cs = concat (map (\<lambda>c. drop 2 (snd c)) cs)"

text \<open>What of the drive's state no operation on files changes.\<close>

definition drive_setup :: "vdrive \<Rightarrow> bool \<times> int \<times> image_format \<times> nat option list \<times> nat \<times> nat \<times> nat \<times> nat \<times> nat" where
  "drive_setup v = (haspt v, current_part v, image_format v, images v, Header_Track v, Header_Sector v, Dir_Track v, Dir_Sector v,
     length (buffers v))"

lemma drive_setup_keeps [simp]:
  "drive_setup (upd_chan ch f v) = drive_setup v" "drive_setup (v\<lparr>disk_heap := h\<rparr>) = drive_setup v"
  by (simp_all only: drive_setup_def upd_chan_def) simp_all

lemma drive_setup_buffers: "drive_setup v = drive_setup w \<Longrightarrow> length (buffers v) = length (buffers w)"
  by (simp add: drive_setup_def)

lemma same_drive_setup: "same_drive v w \<Longrightarrow> drive_setup w = drive_setup v"
  unfolding same_drive_def by (drule arg_cong [of _ _ drive_setup]) (simp add: drive_setup_def)

text \<open>
  What has happened to a disk \<open>v\<^sub>0\<close> since a file was opened whose sectors are \<open>as\<close>: they
  were free and are not free any more, and all other sectors are as before.
\<close>

definition grown :: "vdrive \<Rightarrow> vdrive \<Rightarrow> (nat \<times> nat) list \<Rightarrow> bool" where
  "grown v0 v as = (writable v \<and> data_sectors v = data_sectors v0 \<and> distinct as \<and>
     (\<forall>a \<in> set as. a \<in> data_sectors v0 \<and> sector_is_free v0 a) \<and>
     (\<forall>a \<in> data_sectors v0. sector_is_free v a = (sector_is_free v0 a \<and> a \<notin> set as)) \<and>
     (\<forall>a b. a \<notin> set as \<longrightarrow> holds v a b = holds v0 a b) \<and>
     bam_homes v = bam_homes v0 \<and> (\<forall>a \<in> bam_homes v0. a \<in> data_sectors v0 \<longrightarrow> \<not> sector_is_free v0 a) \<and>
     blocks_free v + length as = blocks_free v0 \<and> drive_setup v = drive_setup v0)"

text \<open>
  The state of a channel that writes a new file: the full sectors \<open>cs\<close> are on disk, and the
  bytes behind them in the buffer \<open>b\<close>. The sector for the buffer is allocated, unless there is
  no sector yet.
\<close>

abbreviation (input) chan_sector :: "vdrive \<Rightarrow> nat \<Rightarrow> nat \<times> nat" where
  "chan_sector v ch \<equiv> (btrack (chan v ch), bsector (chan v ch))"

definition file_sectors :: "vdrive \<Rightarrow> nat \<Rightarrow> ((nat \<times> nat) \<times> buffer) list \<Rightarrow> (nat \<times> nat) list" where
  "file_sectors v ch cs = (if btrack (chan v ch) = 0 then [] else chan_sector v ch # map fst cs)"

definition slot_ok :: "vdrive \<Rightarrow> nat \<Rightarrow> ((nat \<times> nat) \<times> buffer) list \<Rightarrow> buffer \<Rightarrow> bool" where
  "slot_ok v ch cs slot = (length slot = 32 \<and>
     (if btrack (chan v ch) = 0 then cs = []
      else linked v (slot_link slot) cs (chan_sector v ch) \<and> slot_blocks slot = length cs mod 65536))"

text \<open>What stays of a slot that is being written: all but the link and the number of blocks.\<close>

definition same_entry :: "buffer \<Rightarrow> buffer \<Rightarrow> bool" where
  "same_entry slot0 slot = (\<forall>i < 30. i \<noteq> 3 \<and> i \<noteq> 4 \<longrightarrow> slot ! i = slot0 ! i)"

definition channel_ok :: "vdrive \<Rightarrow> nat \<Rightarrow> buffer \<Rightarrow> bool" where
  "channel_ok v ch b = (ch < length (buffers v) \<and> current_part v = 0 \<and> image_format v \<noteq> FORMAT_1581 \<and>
     bpartition (chan v ch) < 2 ^ 31 \<and> mode (chan v ch) = BUFFER_SEQUENTIAL \<and>
     readmode (chan v ch) = CBMDOS_FAM_WRITE \<and> needsupdate (chan v ch) = 0 \<and>
     buffer_ptr (chan v ch) = BUF_HEAP b \<and> length b = 256)"

definition file_state ::
  "vdrive \<Rightarrow> vdrive \<Rightarrow> nat \<Rightarrow> ((nat \<times> nat) \<times> buffer) list \<Rightarrow> buffer \<Rightarrow> buffer \<Rightarrow> bool" where
  "file_state v0 v ch cs b xs = (grown v0 v (file_sectors v ch cs) \<and> channel_ok v ch b \<and>
     (\<exists>slot. bslot (chan v ch) = Some slot \<and> slot_ok v ch cs slot \<and> same_entry (the (bslot (chan v0 ch))) slot) \<and>
     dir (chan v ch) = dir (chan v0 ch) \<and> (\<forall>c \<in> set cs. length (snd c) = 256) \<and>
     2 \<le> bufptr (chan v ch) \<and> bufptr (chan v ch) \<le> 256 \<and>
     xs = file_data cs @ slice b 2 (bufptr (chan v ch) - 2))"

text \<open>The drive is in the partition of the channel already.\<close>

lemma no_switch:
  assumes "\<not> haspt v" "current_part v = 0" "image_format v \<noteq> FORMAT_1581"
    "bpartition (chan v ch) < 2 ^ 31"
  shows "vdrive_iec_switch junk tmp v ch = (0, v)"
  using assms by (simp add: vdrive_iec_switch_def vdrive_switch_def vdrive_realpart_def c_int_small Let_def)

text \<open>Allocating a sector for the file, and writing one of its sectors.\<close>

lemma grown_taken:
  assumes "grown v0 v as" "taken v w a"
  shows "grown v0 w (a # as)"
proof -
  have sd: "same_drive v w" "searchable v" using assms by (simp_all add: taken_def grown_def writable_def)
  then show ?thesis
    using bam_homes_same [OF same_drive_disk(3) [OF sd(1)]] assms taken_count [OF sd(2) assms(2)] same_drive_setup [OF sd(1)] same_drive_data(1) [OF sd(1)] holds_same_drive [OF sd(1)]
    by (auto simp: grown_def taken_def)
qed

lemma grown_upd_chan [simp]: "grown v0 (upd_chan ch f v) as = grown v0 v as"
  by (simp add: grown_def)

lemma same_drive_channel:
  assumes "same_drive v w"
  shows "buffers w = buffers v" "current_part w = current_part v"
  by (simp_all add: arg_cong [OF assms [unfolded same_drive_def], of buffers, simplified]
      arg_cong [OF assms [unfolded same_drive_def], of current_part, simplified])

lemma byte_of_nat: "n < 256 \<Longrightarrow> unat (of_nat n :: byte) = n"
  by (simp add: unat_of_nat)

lemma writable_no_pt: "grown v0 v as \<Longrightarrow> \<not> haspt v"
  by (simp add: grown_def writable_def)

text \<open>A slot byte is set.\<close>

lemma put_slot_upd:
  "put_slot_byte ch i x v = upd_chan ch (\<lambda>p. p\<lparr>bslot := Some ((the (bslot p))[i := x])\<rparr>) v"
  by (simp add: put_slot_byte_def)

lemma first_block_state:
  assumes "file_state v0 v ch cs b xs" "btrack (chan v ch) = 0" "0 < blocks_free v"
  obtains v' where "iec_first_block t0 v ch = (0, v')" "file_state v0 v' ch cs b xs"
    "btrack (chan v' ch) \<noteq> 0" "bufptr (chan v' ch) = bufptr (chan v ch)"
proof -
  have g: "grown v0 v []" "cs = []" using assms(1,2) by (auto simp: file_state_def file_sectors_def slot_ok_def)
  then have wr: "writable v" by (simp add: grown_def)
  obtain w t s where al: "vdrive_bam_alloc_first_free_sector v t0 0 = (0, w, t, s)" and tk: "taken v w (t, s)"
    using alloc_first_taken [OF wr assms(3)] .
  have sd: "same_drive v w" "(t, s) \<in> data_sectors v" "searchable v" using tk wr by (auto simp: taken_def writable_def)
  note ts = data_sector_bounds [OF sd(3,2)] and ch = same_drive_channel [OF sd(1)] same_drive_keeps [OF sd(1)]
  let ?f = "\<lambda>p. p\<lparr>btrack := t, bsector := s, bslot := Some ((the (bslot p))[3 := of_nat t, 4 := of_nat s, 30 := 0, 31 := 0])\<rparr>"
  have c: "ch < length (buffers w)" "needsupdate (chan w ch) = 0"
    using assms(1) ch by (simp_all add: file_state_def channel_ok_def)
  have fb: "iec_first_block t0 v ch = (0, upd_chan ch ?f w)"
    using c by (simp add: iec_first_block_def al put_slot_byte_def upd_chan_def)
  have gw: "grown v0 (upd_chan ch ?f w) [(t, s)]" using grown_taken [OF g(1) tk] by simp
  have "file_state v0 (upd_chan ch ?f w) ch cs b xs"
    using assms(1) gw c g(2) ch ts
    by (auto simp: file_state_def file_sectors_def slot_ok_def channel_ok_def slot_blocks_def byte_of_nat
        same_entry_def)
  then show ?thesis using that fb ts(2) c ch by simp
qed

text \<open>Writing the sector of the channel.\<close>

lemma write_block_ok:
  assumes "grown v0 v as" "(t, s) \<in> set as" "ch < length (buffers v)" "chan_sector v ch = (t, s)"
    "buffer_ptr (chan v ch) = BUF_HEAP b" "length b = 256"
  obtains h where "iec_write_block v ch b0 b1 =
      (0, (upd_chan ch (\<lambda>p. p\<lparr>buffer_ptr := BUF_HEAP (b[0 := b0, 1 := b1])\<rparr>) v)\<lparr>disk_heap := h\<rparr>)"
    "grown v0 ((upd_chan ch (\<lambda>p. p\<lparr>buffer_ptr := BUF_HEAP (b[0 := b0, 1 := b1])\<rparr>) v)\<lparr>disk_heap := h\<rparr>) as"
    "\<And>a c. holds ((upd_chan ch (\<lambda>p. p\<lparr>buffer_ptr := BUF_HEAP (b[0 := b0, 1 := b1])\<rparr>) v)\<lparr>disk_heap := h\<rparr>) a c =
      (if a = (t, s) then c = b[0 := b0, 1 := b1] else holds v a c)"
proof -
  let ?b = "b[0 := b0, 1 := b1]"
  let ?v = "upd_chan ch (\<lambda>p. p\<lparr>buffer_ptr := BUF_HEAP ?b\<rparr>) v"
  have g: "grown v0 ?v as" using assms(1) by simp
  then have w: "writable ?v" "logical_valid ?v (t, s)" "(t, s) \<notin> bam_homes ?v"
    using assms(2) by (auto simp: grown_def writable_def)
  have st: "buffer_store v ch ((chan_buf v ch)[0 := b0, 1 := b1]) = ?v"
    using heap_store [OF assms(5), of ?b] heap_buf [OF assms(5)] by simp
  have lb: "length ?b = 256" using assms(6) by simp
  have cb: "chan_buf ?v ch = ?b" using assms(3) by (simp add: heap_buf)
  obtain h where h: "vdrive_write_sector ?v ?b t s = (0, ?v\<lparr>disk_heap := h\<rparr>)" "writable (?v\<lparr>disk_heap := h\<rparr>)"
    "\<And>x y. holds (?v\<lparr>disk_heap := h\<rparr>) x y = (if x = (t, s) then y = ?b else holds ?v x y)"
    "data_sectors (?v\<lparr>disk_heap := h\<rparr>) = data_sectors ?v" "sector_is_free (?v\<lparr>disk_heap := h\<rparr>) = sector_is_free ?v"
    "blocks_free (?v\<lparr>disk_heap := h\<rparr>) = blocks_free ?v" "bam_homes (?v\<lparr>disk_heap := h\<rparr>) = bam_homes ?v"
    by (rule write_sector_change [OF w(1) w(2) lb w(3), unfolded fst_conv snd_conv]) (rule that)
  have "iec_write_block v ch b0 b1 = (0, ?v\<lparr>disk_heap := h\<rparr>)"
    unfolding iec_write_block_def st Let_def cb using h(1) assms(3,4) by simp
  moreover have "grown v0 (?v\<lparr>disk_heap := h\<rparr>) as"
    using g h(2-7) assms(2) unfolding grown_def by auto
  ultimately show ?thesis using that h(3) by simp
qed

lemma count_block_ok:
  assumes "ch < length (buffers v)" "bslot (chan v ch) = Some slot" "length slot = 32"
  obtains slot' where "count_block ch v = upd_chan ch (\<lambda>p. p\<lparr>bslot := Some slot'\<rparr>) v" "length slot' = 32"
    "slot_blocks slot' = Suc (slot_blocks slot) mod 65536" "take 30 slot' = take 30 slot"
proof -
  have upd: "upd_chan ch (\<lambda>p. p\<lparr>bslot := Some (slot[30 := x, 31 := y])\<rparr>) v = put_slot_byte ch 31 y (put_slot_byte ch 30 x v)"
    "upd_chan ch (\<lambda>p. p\<lparr>bslot := Some (slot[30 := x])\<rparr>) v = put_slot_byte ch 30 x v" for x y
    using assms by (simp_all add: put_slot_byte_def upd_chan_def)
  have s: "bslot (chan (put_slot_byte ch 30 x v) ch) = Some (slot[30 := x])" for x
    using assms by (simp add: put_slot_byte_def)
  have u: "unat (slot ! 30 + 1) = Suc (unat (slot ! 30)) mod 256" "unat (slot ! 31 + 1) = Suc (unat (slot ! 31)) mod 256"
    by (simp_all add: unat_word_ariths)
  show ?thesis
  proof (cases "slot ! 30 + 1 = 0")
    case True
    then have "unat (slot ! 30) = 255" using u(1) byte_less [of "slot ! 30"] by (auto dest: dvd_imp_le)
    then show ?thesis
      using True assms(2,3) u byte_less [of "slot ! 31"] that [of "slot[30 := 0, 31 := slot ! 31 + 1]"]
        mult_mod_right [of 256 "Suc (unat (slot ! 31))" 256]
      by (simp add: count_block_def upd s slot_blocks_def Let_def)
  next
    case False
    then have "unat (slot ! 30 + 1) = Suc (unat (slot ! 30))"
      using u(1) byte_less [of "slot ! 30"] by (metis Suc_lessI mod_less mod_self unat_eq_0)
    then show ?thesis
      using False assms(2,3) byte_less [of "slot ! 31"] byte_less [of "slot ! 30 + 1"] that [of "slot[30 := slot ! 30 + 1]"]
      by (simp add: count_block_def upd s slot_blocks_def Let_def)
  qed
qed

lemma grown_rotate: "grown v0 v (a # b # as) \<Longrightarrow> grown v0 v (a # as @ [b])"
  by (auto simp: grown_def)

lemma ensure_block:
  assumes "file_state v0 v ch cs b xs" "btrack (chan v ch) = 0 \<Longrightarrow> 0 < blocks_free v0"
  obtains v' where "(if btrack (chan v ch) = 0 then iec_first_block t0 v ch else (0, v)) = (0, v')"
    "file_state v0 v' ch cs b xs" "btrack (chan v' ch) \<noteq> 0" "bufptr (chan v' ch) = bufptr (chan v ch)"
proof (cases "btrack (chan v ch) = 0")
  case True
  then have "0 < blocks_free v" using assms by (simp add: file_state_def file_sectors_def grown_def)
  then show ?thesis using first_block_state [OF assms(1) True] True that by metis
qed (use assms that in simp)

lemma heap_channel [simp]:
  "chan (v\<lparr>disk_heap := h\<rparr>) ch = chan v ch" "length (buffers (v\<lparr>disk_heap := h\<rparr>)) = length (buffers v)"
  "current_part (v\<lparr>disk_heap := h\<rparr>) = current_part v" "image_format (v\<lparr>disk_heap := h\<rparr>) = image_format v"
  by simp_all

lemma same_entry_take: "same_entry slot0 slot \<Longrightarrow> take 30 slot' = take 30 slot \<Longrightarrow> same_entry slot0 slot'"
  unfolding same_entry_def by (metis nth_take)

lemma file_state_parts:
  assumes "file_state v0 v ch cs b xs" "btrack (chan v ch) \<noteq> 0"
  obtains slot where "grown v0 v (chan_sector v ch # map fst cs)" "channel_ok v ch b" "bslot (chan v ch) = Some slot"
    "length slot = 32" "linked v (slot_link slot) cs (chan_sector v ch)" "slot_blocks slot = length cs mod 65536"
    "\<forall>c \<in> set cs. length (snd c) = 256" "searchable v" "chan_sector v ch \<in> data_sectors v"
    "chan_sector v ch \<notin> fst ` set cs"
    "same_entry (the (bslot (chan v0 ch))) slot" "dir (chan v ch) = dir (chan v0 ch)"
  using assms by (auto simp: file_state_def file_sectors_def slot_ok_def grown_def writable_def)

text \<open>The sector of the channel becomes one of the file's full sectors.\<close>

lemma write_full_block:
  assumes "file_state v0 v ch cs b xs" "bufptr (chan v ch) = 2" "length cs + 2 \<le> blocks_free v0"
  obtains v' c where "iec_write_sequential t0 v ch WRITE_BLOCK = (0, v')"
    "file_state v0 v' ch (cs @ [c]) (snd c) (file_data cs @ drop 2 b)" "bufptr (chan v' ch) = 2"
    "drop 2 (snd c) = drop 2 b"
proof -
  note [simp del] = One_nat_def
  obtain v1 where v1: "(if btrack (chan v ch) = 0 then iec_first_block t0 v ch else (0, v)) = (0, v1)"
    "file_state v0 v1 ch cs b xs" "btrack (chan v1 ch) \<noteq> 0" "bufptr (chan v1 ch) = bufptr (chan v ch)"
    by (rule ensure_block [OF assms(1)]) (use assms(3) that in simp_all)
  obtain slot where st: "grown v0 v1 (chan_sector v1 ch # map fst cs)" "channel_ok v1 ch b" "bslot (chan v1 ch) = Some slot"
    "length slot = 32" "linked v1 (slot_link slot) cs (chan_sector v1 ch)" "slot_blocks slot = length cs mod 65536"
    "\<forall>c \<in> set cs. length (snd c) = 256" "searchable v1" "chan_sector v1 ch \<in> data_sectors v1"
    "chan_sector v1 ch \<notin> fst ` set cs"
    "same_entry (the (bslot (chan v0 ch))) slot" "dir (chan v1 ch) = dir (chan v0 ch)"
    using file_state_parts [OF v1(2,3)] .
  have wr: "writable v1" "0 < blocks_free v1" using st(1) assms(3) by (simp_all add: grown_def)
  obtain w t s where al: "vdrive_bam_alloc_next_free_sector v1 (btrack (chan v1 ch)) (bsector (chan v1 ch)) = (0, w, t, s)"
    and tk: "taken v1 w (t, s)" using alloc_next_taken [OF wr st(9)] .
  have sd: "same_drive v1 w" "(t, s) \<in> data_sectors v1" using tk by (simp_all add: taken_def)
  note ts = data_sector_bounds [OF st(8) sd(2)] and ch = same_drive_channel [OF sd(1)] same_drive_keeps [OF sd(1)]
  let ?e = "chan_sector v1 ch" and ?b = "b[0 := of_nat t, 1 := of_nat s]"
  have c: "ch < length (buffers w)" "chan_sector w ch = ?e" "buffer_ptr (chan w ch) = BUF_HEAP b" "length b = 256"
    using st(2) ch by (simp_all add: channel_ok_def)
  have g: "grown v0 w ((t, s) # ?e # map fst cs)" by (rule grown_taken [OF st(1) tk])
  let ?w = "upd_chan ch (\<lambda>p. p\<lparr>buffer_ptr := BUF_HEAP ?b\<rparr>) w"
  obtain h where h: "iec_write_block w ch (of_nat t) (of_nat s) = (0, ?w\<lparr>disk_heap := h\<rparr>)"
    "grown v0 (?w\<lparr>disk_heap := h\<rparr>) ((t, s) # ?e # map fst cs)"
    "\<And>a c. holds (?w\<lparr>disk_heap := h\<rparr>) a c = (if a = ?e then c = ?b else holds w a c)"
    by (rule write_block_ok [where ?b0.0 = "of_nat t" and ?b1.0 = "of_nat s", OF g _ c]) (simp, rule that)
  let ?w2 = "upd_chan ch (\<lambda>p. p\<lparr>btrack := t, bsector := s\<rparr>) (?w\<lparr>disk_heap := h\<rparr>)"
  have w2: "ch < length (buffers ?w2)" "bslot (chan ?w2 ch) = Some slot" using c(1) st(3) ch by simp_all
  obtain slot' where s': "count_block ch ?w2 = upd_chan ch (\<lambda>p. p\<lparr>bslot := Some slot'\<rparr>) ?w2" "length slot' = 32"
    "slot_blocks slot' = Suc (slot_blocks slot) mod 65536" "take 30 slot' = take 30 slot"
    using count_block_ok [OF w2 st(4)] .
  let ?w3 = "upd_chan ch (\<lambda>p. p\<lparr>bslot := Some slot'\<rparr>) ?w2"
  have seq: "iec_write_sequential t0 v ch WRITE_BLOCK = (0, ?w3)"
    by (simp add: iec_write_sequential_def v1(1) al h(1) s'(1))
  have hs: "holds ?w3 a c = (if a = ?e then c = ?b else holds v1 a c)" for a c
    using h(3) holds_same_drive [OF sd(1)] by simp
  have "linked ?w3 (slot_link slot') (cs @ [(?e, ?b)]) (t, s)"
  proof -
    have "slot' ! 3 = slot ! 3" "slot' ! 4 = slot ! 4"
      using arg_cong [OF s'(4), of "\<lambda>x. x ! 3"] arg_cong [OF s'(4), of "\<lambda>x. x ! 4"] by simp_all
    moreover have "linked ?w3 (slot_link slot) cs ?e = linked v1 (slot_link slot) cs ?e"
      by (rule linked_cong) (use st(10) hs in \<open>auto simp: image_iff\<close>)
    ultimately show ?thesis using st(5) v1(3) c(4) ts by (simp add: linked_snoc h(3) byte_of_nat)
  qed
  moreover have "channel_ok ?w3 ch ?b" using st(2) c ch by (simp add: channel_ok_def)
  moreover have "grown v0 ?w3 ((t, s) # map fst cs @ [?e])" using grown_rotate [OF h(2)] by simp
  ultimately have "file_state v0 ?w3 ch (cs @ [(?e, ?b)]) ?b (file_data cs @ drop 2 b)"
    using st(6,7,12) same_entry_take [OF st(11) s'(4)] v1(4) c(1,4) ch ts(2) assms(2) s'(2,3)
    by (simp add: file_state_def file_sectors_def slot_ok_def file_data_def slice_def mod_Suc_eq)
  then show ?thesis using that [OF seq, of "(?e, ?b)"] c(1) ch v1(4) assms(2) by simp
qed

text \<open>The last sector of a file, with the position of its last byte.\<close>

definition last_block :: "buffer \<Rightarrow> nat \<Rightarrow> buffer" where
  "last_block b n = b[0 := 0, 1 := of_nat (n - 1)]"

lemma write_last_block:
  assumes "file_state v0 v ch cs b xs" "btrack (chan v ch) = 0 \<Longrightarrow> 0 < blocks_free v0"
  obtains v' e slot where "iec_write_sequential t0 v ch (bufptr (chan v ch)) = (0, v')"
    "chained v' (slot_link slot) (cs @ [(e, last_block b (bufptr (chan v ch)))])"
    "grown v0 v' (e # map fst cs)" "channel_ok v' ch (last_block b (bufptr (chan v ch)))"
    "bslot (chan v' ch) = Some slot" "length slot = 32" "slot_blocks slot = Suc (length cs) mod 65536"
    "same_entry (the (bslot (chan v0 ch))) slot" "dir (chan v' ch) = dir (chan v0 ch)"
proof -
  note [simp del] = One_nat_def
  let ?n = "bufptr (chan v ch)" and ?b = "last_block b (bufptr (chan v ch))"
  obtain v1 where v1: "(if btrack (chan v ch) = 0 then iec_first_block t0 v ch else (0, v)) = (0, v1)"
    "file_state v0 v1 ch cs b xs" "btrack (chan v1 ch) \<noteq> 0" "bufptr (chan v1 ch) = bufptr (chan v ch)"
    by (rule ensure_block [OF assms]) (use that in simp_all)
  obtain slot where st: "grown v0 v1 (chan_sector v1 ch # map fst cs)" "channel_ok v1 ch b" "bslot (chan v1 ch) = Some slot"
    "length slot = 32" "linked v1 (slot_link slot) cs (chan_sector v1 ch)" "slot_blocks slot = length cs mod 65536"
    "\<forall>c \<in> set cs. length (snd c) = 256" "searchable v1" "chan_sector v1 ch \<in> data_sectors v1"
    "chan_sector v1 ch \<notin> fst ` set cs"
    "same_entry (the (bslot (chan v0 ch))) slot" "dir (chan v1 ch) = dir (chan v0 ch)"
    using file_state_parts [OF v1(2,3)] .
  let ?e = "chan_sector v1 ch"
  have c: "ch < length (buffers v1)" "chan_sector v1 ch = ?e" "buffer_ptr (chan v1 ch) = BUF_HEAP b" "length b = 256"
    using st(2) by (simp_all add: channel_ok_def)
  let ?w = "upd_chan ch (\<lambda>p. p\<lparr>buffer_ptr := BUF_HEAP ?b\<rparr>) v1"
  obtain h where h: "iec_write_block v1 ch 0 (of_nat (?n - 1)) = (0, ?w\<lparr>disk_heap := h\<rparr>)"
    "grown v0 (?w\<lparr>disk_heap := h\<rparr>) (?e # map fst cs)"
    "\<And>a c. holds (?w\<lparr>disk_heap := h\<rparr>) a c = (if a = ?e then c = ?b else holds v1 a c)"
    by (rule write_block_ok [where ?b0.0 = 0 and ?b1.0 = "of_nat (?n - 1)", OF st(1) _ c, folded last_block_def])
      (simp, rule that)
  let ?w2 = "?w\<lparr>disk_heap := h\<rparr>"
  have w2: "ch < length (buffers ?w2)" "bslot (chan ?w2 ch) = Some slot" using c(1) st(3) by simp_all
  obtain slot' where s': "count_block ch ?w2 = upd_chan ch (\<lambda>p. p\<lparr>bslot := Some slot'\<rparr>) ?w2" "length slot' = 32"
    "slot_blocks slot' = Suc (slot_blocks slot) mod 65536" "take 30 slot' = take 30 slot"
    using count_block_ok [OF w2 st(4)] .
  let ?w3 = "upd_chan ch (\<lambda>p. p\<lparr>bslot := Some slot'\<rparr>) ?w2"
  have len: "?n \<noteq> WRITE_BLOCK" using assms(1) by (auto simp: file_state_def)
  have seq: "iec_write_sequential t0 v ch ?n = (0, ?w3)"
    using len by (simp add: iec_write_sequential_def v1(1) h(1) s'(1))
  have "slot' ! 3 = slot ! 3" "slot' ! 4 = slot ! 4"
    using arg_cong [OF s'(4), of "\<lambda>x. x ! 3"] arg_cong [OF s'(4), of "\<lambda>x. x ! 4"] by simp_all
  moreover have "linked ?w3 (slot_link slot) cs ?e = linked v1 (slot_link slot) cs ?e"
    by (rule linked_cong) (use st(10) h(3) in \<open>auto simp: image_iff\<close>)
  ultimately have "chained ?w3 (slot_link slot') (cs @ [(?e, ?b)])"
    using st(5) v1(3) c(4) by (intro linked_chained) (simp_all add: h(3), simp add: last_block_def)
  moreover have "channel_ok ?w3 ch ?b" using st(2) c by (simp add: channel_ok_def last_block_def)
  ultimately show ?thesis
    using that [OF seq, of slot' ?e] h(2) c(1) s'(2,3) st(6,12) same_entry_take [OF st(11) s'(4)] by (simp add: mod_Suc_eq)
qed

lemma slice_push:
  assumes "2 \<le> n" "n < length b"
  shows "slice (b[n := x]) 2 (n - Suc 0) = slice b 2 (n - 2) @ [x]"
proof -
  obtain k where "n = Suc (Suc k)" using assms(1) by (metis One_nat_def Suc_le_D numeral_2_eq_2 Suc_le_mono)
  then show ?thesis using assms(2) by (simp add: slice_def numeral_2_eq_2 take_Suc_conv_app_nth drop_update_swap)
qed

text \<open>Storing a byte in the buffer.\<close>

lemma buffer_byte_state:
  fixes x :: byte
  assumes "file_state v0 v ch cs b xs" "bufptr (chan v ch) < 256"
  defines "w \<equiv> upd_chan ch (\<lambda>p. p\<lparr>bufptr := bufptr p + 1\<rparr>)
      (buffer_store v ch ((chan_buf v ch)[bufptr (chan v ch) := x]))"
  shows "file_state v0 w ch cs (b[bufptr (chan v ch) := x]) (xs @ [x])" "bufptr (chan w ch) = Suc (bufptr (chan v ch))"
    "btrack (chan w ch) = btrack (chan v ch)"
proof -
  let ?n = "bufptr (chan v ch)"
  have c: "channel_ok v ch b" "2 \<le> ?n" "ch < length (buffers v)" "buffer_ptr (chan v ch) = BUF_HEAP b" "length b = 256"
    using assms(1) by (simp_all add: file_state_def channel_ok_def)
  have w: "w = upd_chan ch (\<lambda>p. p\<lparr>bufptr := bufptr p + 1\<rparr>)
      (upd_chan ch (\<lambda>p. p\<lparr>buffer_ptr := BUF_HEAP (b[?n := x])\<rparr>) v)"
    unfolding w_def using heap_store [OF c(4), of "b[?n := x]"] heap_buf [OF c(4)] by simp
  have sl: "slice (b[?n := x]) 2 (?n - Suc 0) = slice b 2 (?n - 2) @ [x]"
    using c(2,5) assms(2) by (intro slice_push) simp_all
  show "file_state v0 w ch cs (b[?n := x]) (xs @ [x])"
    using assms(1,2) c
    by (auto simp: w file_state_def channel_ok_def file_sectors_def slot_ok_def sl)
  show "bufptr (chan w ch) = Suc ?n" "btrack (chan w ch) = btrack (chan v ch)" using c(3) by (simp_all add: w)
qed

lemma length_file_data: "\<forall>c \<in> set cs. length (snd c) = 256 \<Longrightarrow> length (file_data cs) = 254 * length cs"
  by (induction cs) (simp_all add: file_data_def)

lemma rewound_state:
  assumes "file_state v0 v ch cs b xs"
  shows "file_state v0 (upd_chan ch (\<lambda>p. p\<lparr>bufptr := 2\<rparr>) v) ch cs b (file_data cs)"
  using assms by (auto simp: file_state_def channel_ok_def file_sectors_def slot_ok_def slice_def)

lemma file_state_switch:
  assumes "file_state v0 v ch cs b xs"
  shows "vdrive_iec_switch junk tmp v ch = (0, v)"
  using assms writable_no_pt by (intro no_switch) (auto simp: file_state_def channel_ok_def)

lemma file_state_start: "file_state v0 v ch cs b xs \<Longrightarrow> Suc 0 < bufptr (chan v ch)"
  by (simp add: file_state_def)

lemma write_byte_state:
  assumes "file_state v0 v ch cs b xs" "length xs < 254 * blocks_free v0"
  obtains v' cs' b' where "iec_write_byte junk tmp t0 v x ch = (SERIAL_OK, v')" "file_state v0 v' ch cs' b' (xs @ [x])"
    "2 < bufptr (chan v' ch)"
proof (cases "bufptr (chan v ch) < 256")
  case True
  have "readmode (chan v ch) \<noteq> CBMDOS_FAM_READ" using assms(1) by (simp add: file_state_def channel_ok_def)
  then show ?thesis
    using True that [OF _ buffer_byte_state(1) [OF assms(1) True, of x]] buffer_byte_state(2) [OF assms(1) True, of x]
      assms(1) by (simp add: iec_write_byte_def Let_def file_state_start)
next
  case False
  let ?v = "upd_chan ch (\<lambda>p. p\<lparr>bufptr := 2\<rparr>) v"
  have full: "bufptr (chan v ch) = 256" "length b = 256" "readmode (chan v ch) \<noteq> CBMDOS_FAM_READ" "ch < length (buffers v)"
    and xs: "xs = file_data cs @ drop 2 b" "length (file_data cs) = 254 * length cs"
    using False assms(1) length_file_data [of cs] by (auto simp: file_state_def channel_ok_def slice_def)
  have r: "file_state v0 ?v ch cs b (file_data cs)" by (rule rewound_state [OF assms(1)])
  have room: "length cs + 2 \<le> blocks_free v0" using assms(2) full(2) xs by simp
  have rw: "bufptr (chan ?v ch) = 2" using full(4) by simp
  obtain w c where w: "iec_write_sequential t0 ?v ch WRITE_BLOCK = (0, w)"
    "file_state v0 w ch (cs @ [c]) (snd c) (file_data cs @ drop 2 b)" "bufptr (chan w ch) = 2"
    "drop 2 (snd c) = drop 2 b"
    by (rule write_full_block [OF r rw room])
  have "bufptr (chan w ch) < 256" using w(3) by simp
  note put = buffer_byte_state [OF w(2) this, of x]
  show ?thesis
    using that [OF _ put(1) [folded xs(1)]] put(2) w(3) full w(1) file_state_switch [OF r, of junk tmp]
    by (simp add: iec_write_byte_def Let_def)
qed

text \<open>A client that sends bytes one after the other and stops at an error.\<close>

fun send_bytes ::
  "(nat \<Rightarrow> byte) \<Rightarrow> buffer \<Rightarrow> nat \<Rightarrow> nat \<Rightarrow> vdrive \<Rightarrow> byte list \<Rightarrow> int \<times> vdrive" where
  "send_bytes junk tmp t0 ch v [] = (SERIAL_OK, v)"
| "send_bytes junk tmp t0 ch v (x # xs) =
    (case iec_write_byte junk tmp t0 v x ch of
       (status, v) \<Rightarrow> if status \<noteq> SERIAL_OK then (status, v) else send_bytes junk tmp t0 ch v xs)"

lemma send_bytes_state:
  assumes "file_state v0 v ch cs b xs" "length (xs @ ys) \<le> 254 * blocks_free v0"
  shows "\<exists>v' cs' b'. send_bytes junk tmp t0 ch v ys = (SERIAL_OK, v') \<and> file_state v0 v' ch cs' b' (xs @ ys) \<and>
    (ys = [] \<and> v' = v \<or> 2 < bufptr (chan v' ch))"
  using assms
proof (induction ys arbitrary: v cs b xs)
  case (Cons y ys)
  have "length xs < 254 * blocks_free v0" using Cons.prems(2) by simp
  then obtain v' cs' b' where v': "iec_write_byte junk tmp t0 v y ch = (SERIAL_OK, v')"
    "file_state v0 v' ch cs' b' (xs @ [y])" "2 < bufptr (chan v' ch)" using write_byte_state [OF Cons.prems(1)] by metis
  then show ?case using Cons.IH [OF v'(2)] Cons.prems(2) by fastforce
qed auto

subsection \<open>A file that is being read\<close>

text \<open>
  The bytes of a file from position \<open>k\<close> of the sector \<open>b\<close> on, the sectors \<open>cs\<close> behind it. The
  last sector gives the position of its last byte, which \<open>file_end\<close> demands to exist.
\<close>

fun file_rest :: "nat \<Rightarrow> buffer \<Rightarrow> ((nat \<times> nat) \<times> buffer) list \<Rightarrow> buffer" where
  "file_rest k b [] = slice b k (Suc (unat (b ! 1)) - k)"
| "file_rest k b ((a, b') # cs) = drop k b @ file_rest 2 b' cs"

fun file_end :: "buffer \<Rightarrow> ((nat \<times> nat) \<times> buffer) list \<Rightarrow> bool" where
  "file_end b [] = (2 \<le> unat (b ! 1))"
| "file_end b ((a, b') # cs) = file_end b' cs"

definition reading :: "vdrive \<Rightarrow> nat \<Rightarrow> buffer \<Rightarrow> ((nat \<times> nat) \<times> buffer) list \<Rightarrow> bool" where
  "reading v ch b cs = (mounted v \<and> \<not> haspt v \<and> ch < length (buffers v) \<and> current_part v = 0 \<and>
     image_format v \<noteq> FORMAT_1581 \<and> bpartition (chan v ch) < 2 ^ 31 \<and> mode (chan v ch) = BUFFER_SEQUENTIAL \<and>
     readmode (chan v ch) = CBMDOS_FAM_READ \<and> bsmall (chan v ch) = 0 \<and>
     buffer_ptr (chan v ch) = BUF_HEAP b \<and> length b = 256 \<and> buf_length (chan v ch) = last_byte b \<and>
     chained v (link b) cs \<and> file_end b cs \<and>
     2 \<le> bufptr (chan v ch) \<and> bufptr (chan v ch) \<le> (if cs = [] then unat (b ! 1) else 255))"

lemma last_read_simps [simp]:
  "chan (vdrive_set_last_read v t s x) c = chan v c" "mounted (vdrive_set_last_read v t s x) = mounted v"
  "chained (vdrive_set_last_read v t s x) = chained v" "haspt (vdrive_set_last_read v t s x) = haspt v"
  "length (buffers (vdrive_set_last_read v t s x)) = length (buffers v)"
  "current_part (vdrive_set_last_read v t s x) = current_part v"
  "image_format (vdrive_set_last_read v t s x) = image_format v"
proof -
  have "channels_only v (vdrive_set_last_read v t s x)"
    unfolding channels_only_def
    by (intro exI [of _ "buffers v"] exI [of _ "(t, s, take 256 x)"] exI [of _ "last_code v"] exI [of _ "ram v"]
        exI [of _ "dir_count v"] exI [of _ "dir_part v"]) (simp add: vdrive_set_last_read_def)
  note chan_change [OF this]
  then show "mounted (vdrive_set_last_read v t s x) = mounted v" "chained (vdrive_set_last_read v t s x) = chained v"
    by simp_all
qed (simp_all add: vdrive_set_last_read_def)

lemma reading_switch: "reading v ch b cs \<Longrightarrow> vdrive_iec_switch junk tmp v ch = (0, v)"
  by (rule no_switch) (simp_all add: reading_def)

text \<open>The next sector of the chain is fetched.\<close>

lemma read_next_sector:
  assumes "reading v ch b ((a, b') # cs)"
  obtains w where "iec_read_next junk tmp (upd_chan ch (\<lambda>p. p\<lparr>bufptr := 0\<rparr>) v) ch = Some (SERIAL_OK, w)"
    "reading w ch b' cs" "bufptr (chan w ch) = 2"
proof -
  note [simp del] = One_nat_def
  let ?v = "upd_chan ch (\<lambda>p. p\<lparr>bufptr := 0\<rparr>) v"
  let ?w = "upd_chan ch (\<lambda>p. p\<lparr>buffer_ptr := BUF_HEAP b'\<rparr>) ?v"
  have r: "mounted v" "ch < length (buffers v)" "mode (chan v ch) = BUFFER_SEQUENTIAL" "buffer_ptr (chan v ch) = BUF_HEAP b"
    "length b = 256" "holds v (link b) b'" "chained v (link b') cs" "file_end b' cs"
    using assms by (auto simp: reading_def)
  have b': "length b' = 256" using r(6) by (simp add: holds_def)
  have p: "buffer_ptr (chan ?v ch) = BUF_HEAP b" using r(2,4) by simp
  have cb: "chan_buf ?v ch = b" by (rule heap_buf [OF p])
  have rd: "vdrive_read_sector ?v b (unat (b ! 0)) (unat (b ! 1)) = (0, ?v, b')"
    using r(1,5,6) by (intro holds_read) simp_all
  have st: "buffer_store ?v ch b' = ?w" using heap_store [OF p] r(5) b' by simp
  have cw: "chan_buf ?w ch = b'" "chan_buf (upd_chan ch (\<lambda>p. p\<lparr>buf_length := x\<rparr>) ?w) ch = b'" for x
    using r(2) by (auto intro!: heap_buf)
  define w where "w = upd_chan ch (\<lambda>p. p\<lparr>bufptr := 2\<rparr>) (vdrive_set_last_read
      (upd_chan ch (\<lambda>p. p\<lparr>buf_length := last_byte b'\<rparr>) ?w) (unat (b ! 0)) (unat (b ! 1)) b')"
  have "iec_read_next junk tmp ?v ch = Some (SERIAL_OK, w)"
    using r(2,3) by (simp add: iec_read_next_def Let_def cb rd st cw w_def)
  moreover have "2 \<le> (if cs = [] then unat (b' ! 1) else 255)" using r(8) by (cases cs) auto
  then have "reading w ch b' cs" "bufptr (chan w ch) = 2"
    using assms r b' by (auto simp: reading_def w_def)
  ultimately show ?thesis using that by blast
qed

lemma reading_advance:
  assumes "reading v ch b cs" "Suc (bufptr (chan v ch)) \<le> (if cs = [] then unat (b ! 1) else 255)"
  shows "reading (upd_chan ch (\<lambda>p. p\<lparr>bufptr := Suc (bufptr (chan v ch))\<rparr>) v) ch b cs"
  using assms by (auto simp: reading_def)

lemma last_byte_reading:
  assumes "reading v ch b cs"
  shows "last_byte b = (if cs = [] then unat (b ! 1) else 0)"
  using assms by (cases cs) (auto simp: reading_def last_byte_def unat_eq_0)

text \<open>Reading a byte that is not the last one of the file, and the last one.\<close>

lemma read_byte_step:
  assumes "reading v ch b cs" "file_rest (bufptr (chan v ch)) b cs = x # y # ys"
  obtains w b' cs' where "iec_read_sequential junk tmp v ch = Some (SERIAL_OK, x, w)" "reading w ch b' cs'"
    "file_rest (bufptr (chan w ch)) b' cs' = y # ys"
proof -
  let ?k = "bufptr (chan v ch)"
  have r: "ch < length (buffers v)" "readmode (chan v ch) = CBMDOS_FAM_READ" "bsmall (chan v ch) = 0" "length b = 256"
    "buf_length (chan v ch) = last_byte b" "2 \<le> ?k" "?k \<le> (if cs = [] then unat (b ! 1) else 255)" "chan_buf v ch = b"
    using assms(1) heap_buf by (auto simp: reading_def)
  note lb = last_byte_reading [OF assms(1)]
  have k: "?k < 256" using r(7) byte_less [of "b ! 1"] by (auto split: if_splits)
  have d: "drop ?k b = b ! ?k # drop (Suc ?k) b" using k r(4) by (simp add: Cons_nth_drop_Suc)
  show ?thesis
  proof (cases "Suc ?k \<le> (if cs = [] then unat (b ! 1) else 255)")
    case True
    then have "Suc ?k < 256" using byte_less [of "b ! 1"] by (auto split: if_splits)
    then have "iec_read_sequential junk tmp v ch =
        Some (SERIAL_OK, b ! ?k, upd_chan ch (\<lambda>p. p\<lparr>bufptr := Suc ?k\<rparr>) v)"
      using True r lb by (auto simp: iec_read_sequential_def Let_def split: if_splits)
    moreover have "b ! ?k = x" "file_rest (Suc ?k) b cs = y # ys"
      using assms(2) True d by (cases cs; force simp: slice_def Suc_diff_le)+
    ultimately show ?thesis using that reading_advance [OF assms(1) True] r(1) by simp
  next
    case False
    have "cs \<noteq> []"
    proof
      assume cs: "cs = []"
      then have "?k = unat (b ! 1)" using False r(7) by simp
      then show False using assms(2) cs d by (simp add: slice_def)
    qed
    then obtain a b' cs' where cs: "cs = (a, b') # cs'" by (cases cs) auto
    then have k: "?k = 255" using False r(7) by simp
    obtain w where w: "iec_read_next junk tmp (upd_chan ch (\<lambda>p. p\<lparr>bufptr := 0\<rparr>) v) ch = Some (SERIAL_OK, w)"
      "reading w ch b' cs'" "bufptr (chan w ch) = 2"
      by (rule read_next_sector [OF assms(1) [unfolded cs]])
    have sw: "vdrive_iec_switch junk tmp (upd_chan ch (\<lambda>p. p\<lparr>bufptr := 0\<rparr>) v) ch = (0, upd_chan ch (\<lambda>p. p\<lparr>bufptr := 0\<rparr>) v)"
      using assms(1) by (intro no_switch) (simp_all add: reading_def)
    have "b ! ?k = x" "file_rest 2 b' cs' = y # ys" using assms(2) d k r(4) cs by simp_all
    moreover have "iec_read_sequential junk tmp v ch = Some (SERIAL_OK, b ! ?k, w)"
      using r lb cs k sw w(1) by (simp add: iec_read_sequential_def Let_def)
    ultimately show ?thesis using that w by simp
  qed
qed

lemma read_last_byte:
  assumes "reading v ch b cs" "file_rest (bufptr (chan v ch)) b cs = [x]"
  shows "\<exists>w. iec_read_sequential junk tmp v ch = Some (SERIAL_EOF, x, w)"
proof -
  let ?k = "bufptr (chan v ch)"
  have r: "ch < length (buffers v)" "readmode (chan v ch) = CBMDOS_FAM_READ" "bsmall (chan v ch) = 0" "length b = 256"
    "buf_length (chan v ch) = last_byte b" "2 \<le> ?k" "?k \<le> (if cs = [] then unat (b ! 1) else 255)" "chan_buf v ch = b"
    using assms(1) heap_buf by (auto simp: reading_def)
  note lb = last_byte_reading [OF assms(1)]
  have rest: "file_rest 2 b' cs' \<noteq> []" if "file_end b' cs'" "chained v (link b'') ((a, b') # cs')" for a b' cs' b''
    using that by (cases cs') (auto simp: slice_def holds_def)
  have cs: "cs = []"
  proof (rule ccontr)
    assume "cs \<noteq> []"
    then obtain a b' cs' where cs: "cs = (a, b') # cs'" by (cases cs) auto
    then have "length (drop ?k b) = 1 + (255 - ?k)" using r(4,7) by simp
    moreover have "file_rest 2 b' cs' \<noteq> []"
      using assms(1) rest [of b' cs' b a] by (simp add: reading_def cs)
    ultimately show False using assms(2) cs by (cases "drop ?k b") auto
  qed
  have L: "?k = unat (b ! 1)"
  proof (rule ccontr)
    assume "?k \<noteq> unat (b ! 1)"
    then have "2 \<le> length (slice b ?k (Suc (unat (b ! 1)) - ?k))"
      using r(4,7) cs byte_less [of "b ! 1"] by simp
    then show False using assms(2) cs by simp
  qed
  then have "x = b ! ?k" using assms(2) cs r(4) byte_less [of "b ! 1"] by (simp add: slice_def take_Suc_conv_app_nth)
  then show ?thesis using r lb cs L by (simp add: iec_read_sequential_def Let_def)
qed

text \<open>A client that reads bytes with their status.\<close>

fun receive_bytes ::
  "(nat \<Rightarrow> byte) \<Rightarrow> buffer \<Rightarrow> nat \<Rightarrow> vdrive \<Rightarrow> nat \<Rightarrow> ((int \<times> byte) list \<times> vdrive) option" where
  "receive_bytes junk tmp ch v 0 = Some ([], v)"
| "receive_bytes junk tmp ch v (Suc n) =
    (case iec_read_sequential junk tmp v ch of
       None \<Rightarrow> None
     | Some (status, x, v) \<Rightarrow> map_option (apfst (Cons (status, x))) (receive_bytes junk tmp ch v n))"

text \<open>What a client receives of a file with these bytes: the last one comes with an end of file.\<close>

definition with_eof :: "byte list \<Rightarrow> (int \<times> byte) list" where
  "with_eof xs = (if xs = [] then [] else map (\<lambda>x. (SERIAL_OK, x)) (butlast xs) @ [(SERIAL_EOF, last xs)])"

lemma receive_file:
  assumes "reading v ch b cs" "file_rest (bufptr (chan v ch)) b cs = x # xs"
  shows "\<exists>w. receive_bytes junk tmp ch v (length (x # xs)) = Some (with_eof (x # xs), w)"
  using assms
proof (induction xs arbitrary: v b cs x)
  case Nil
  then show ?case using read_last_byte [OF Nil.prems, of junk tmp] by (auto simp: with_eof_def)
next
  case (Cons y ys)
  obtain w b' cs' where w: "iec_read_sequential junk tmp v ch = Some (SERIAL_OK, x, w)" "reading w ch b' cs'"
    "file_rest (bufptr (chan w ch)) b' cs' = y # ys"
    by (rule read_byte_step [OF Cons.prems])
  show ?case using Cons.IH [OF w(2,3)] w(1) by (auto simp: with_eof_def)
qed

text \<open>The bytes of a file, given its sectors.\<close>

fun file_bytes :: "((nat \<times> nat) \<times> buffer) list \<Rightarrow> buffer" where
  "file_bytes [] = []"
| "file_bytes ((a, b) # cs) = file_rest 2 b cs"

fun ends_well :: "((nat \<times> nat) \<times> buffer) list \<Rightarrow> bool" where
  "ends_well [] = False"
| "ends_well ((a, b) # cs) = file_end b cs"

lemma file_bytes_snoc:
  "file_bytes (cs @ [(e, b)]) = file_data cs @ slice b 2 (unat (b ! 1) - 1)"
  "ends_well (cs @ [(e, b)]) = (2 \<le> unat (b ! 1))"
proof -
  have "file_rest k b' (cs @ [(e, b)]) = drop k b' @ file_data cs @ slice b 2 (unat (b ! 1) - 1)"
    "file_end b' (cs @ [(e, b)]) = (2 \<le> unat (b ! 1))" for k b' cs
    by (induction k b' cs rule: file_rest.induct) (auto simp: file_data_def)
  then show "file_bytes (cs @ [(e, b)]) = file_data cs @ slice b 2 (unat (b ! 1) - 1)"
    "ends_well (cs @ [(e, b)]) = (2 \<le> unat (b ! 1))"
    by (cases cs; force simp: file_data_def)+
qed

lemma file_bytes_nonempty: "chained v a cs \<Longrightarrow> ends_well cs \<Longrightarrow> file_bytes cs \<noteq> []"
proof (cases cs)
  case (Cons c cs')
  assume "chained v a cs" "ends_well cs"
  then show ?thesis using Cons by (cases c; cases cs') (auto simp: slice_def holds_def)
qed simp

text \<open>A channel that a file may be opened on for reading.\<close>

definition reader :: "bufferinfo \<Rightarrow> bool" where
  "reader p = (readmode p = CBMDOS_FAM_READ \<and> bsmall p = 0 \<and> bpartition p < 2 ^ 31 \<and>
     (case buffer_ptr p of BUF_HEAP b \<Rightarrow> length b = 256 | _ \<Rightarrow> True))"

definition unpartitioned :: "vdrive \<Rightarrow> bool" where
  "unpartitioned v = (mounted v \<and> \<not> haspt v \<and> current_part v = 0 \<and> image_format v \<noteq> FORMAT_1581)"

lemma open_reads:
  assumes "unpartitioned v" "ch < length (buffers v)" "reader (chan v ch)" "chained v (t, s) ((a, b) # cs)" "file_end b cs"
  obtains w where "iec_open_read_sequential junk tmp buf t0 now v ch t s = Some (SERIAL_OK, w)" "reading w ch b cs"
    "bufptr (chan w ch) = 2"
proof -
  note [simp del] = One_nat_def
  define p where "p = (vdrive_alloc_buffer (chan v ch) (-1) BUFFER_SEQUENTIAL)\<lparr>bufptr := 2, brecord := 1\<rparr>"
  obtain b0 where b0: "buffer_ptr p = BUF_HEAP b0" "length b0 = 256"
    using assms(3) by (cases "buffer_ptr (chan v ch)") (auto simp: p_def vdrive_alloc_buffer_def reader_def)
  have p: "mode p = BUFFER_SEQUENTIAL" "readmode p = CBMDOS_FAM_READ" "bsmall p = 0" "bpartition p < 2 ^ 31" "bufptr p = 2"
    using assms(3) by (auto simp: p_def vdrive_alloc_buffer_def reader_def split: channel_buffer.split)
  let ?v = "upd_chan ch (\<lambda>q. (vdrive_alloc_buffer q (-1) BUFFER_SEQUENTIAL)\<lparr>bufptr := 2, brecord := 1\<rparr>) v"
  have cv: "chan ?v ch = p" using assms(2) by (simp add: p_def)
  have b: "holds v (t, s) b" "length b = 256" using assms(4) by (auto simp: holds_def)
  have cb: "chan_buf ?v ch = b0" by (rule heap_buf) (simp only: cv b0)
  have rd: "vdrive_read_sector ?v b0 t s = (0, ?v, b)"
    using assms(1) b b0 by (intro holds_read) (simp_all add: unpartitioned_def)
  let ?w = "upd_chan ch (\<lambda>p. p\<lparr>buffer_ptr := BUF_HEAP b\<rparr>) ?v"
  have st: "buffer_store ?v ch b = ?w" by (rule heap_store [of _ _ b0]) (simp_all only: cv b0 b)
  have cw: "chan_buf ?w ch = b" "chan_buf (upd_chan ch (\<lambda>p. p\<lparr>buf_length := x\<rparr>) ?w) ch = b" for x
    using assms(2) by (auto intro!: heap_buf)
  define w where "w = vdrive_set_last_read (upd_chan ch (\<lambda>p. p\<lparr>buf_length := last_byte b\<rparr>) ?w) t s b"
  have "iec_open_read_sequential junk tmp buf t0 now v ch t s = Some (SERIAL_OK, w)"
    by (simp add: iec_open_read_sequential_def Let_def cb rd st cw w_def)
  moreover have "2 \<le> (if cs = [] then unat (b ! 1) else 255)" using assms(5) by (cases cs) auto
  then have "reading w ch b cs" "bufptr (chan w ch) = 2"
    using assms p b cv by (auto simp: reading_def w_def unpartitioned_def)
  ultimately show ?thesis using that by blast
qed

lemma reads_file:
  assumes "unpartitioned v" "ch < length (buffers v)" "reader (chan v ch)" "chained v (t, s) cs" "ends_well cs"
  shows "\<exists>w u. iec_open_read_sequential junk tmp buf t0 now v ch t s = Some (SERIAL_OK, w) \<and>
    receive_bytes junk tmp ch w (length (file_bytes cs)) = Some (with_eof (file_bytes cs), u)"
proof -
  obtain a b cs' where cs: "cs = (a, b) # cs'" using assms(5) by (cases cs) auto
  have en: "file_end b cs'" using assms(5) by (simp add: cs)
  obtain w where w: "iec_open_read_sequential junk tmp buf t0 now v ch t s = Some (SERIAL_OK, w)" "reading w ch b cs'"
    "bufptr (chan w ch) = 2"
    using open_reads [OF assms(1-3) assms(4) [unfolded cs] en] .
  obtain x xs where xs: "file_bytes cs = x # xs" using file_bytes_nonempty [OF assms(4,5)] by (cases "file_bytes cs") auto
  then have "file_rest (bufptr (chan w ch)) b cs' = x # xs" by (simp add: cs w(3))
  then show ?thesis using receive_file [OF w(2)] w(1) xs by metis
qed

text \<open>A channel on which a new file has just been opened for writing.\<close>

definition new_file :: "vdrive \<Rightarrow> nat \<Rightarrow> bool" where
  "new_file v ch = (writable v \<and> (\<forall>a \<in> bam_homes v. a \<in> data_sectors v \<longrightarrow> \<not> sector_is_free v a) \<and>
     (\<exists>b. channel_ok v ch b) \<and> (\<exists>slot. bslot (chan v ch) = Some slot \<and> length slot = 32) \<and>
     btrack (chan v ch) = 0 \<and> bufptr (chan v ch) = 2)"

lemma new_file_state: "new_file v ch \<Longrightarrow> \<exists>b. file_state v v ch [] b []"
  by (auto simp: new_file_def file_state_def grown_def file_sectors_def slot_ok_def file_data_def slice_def
      same_entry_def)

definition blocks_needed :: "nat \<Rightarrow> nat" where
  "blocks_needed n = (n + 253) div 254"

text \<open>The sectors of a file after its last block is written.\<close>

lemma written_file:
  assumes "new_file v ch" "xs \<noteq> []" "length xs \<le> 254 * blocks_free v"
  obtains w1 w2 slot cs b where "send_bytes junk tmp t0 ch v xs = (SERIAL_OK, w1)"
    "iec_write_sequential t0 w1 ch (bufptr (chan w1 ch)) = (0, w2)" "channel_ok w2 ch b"
    "bslot (chan w2 ch) = Some slot" "length slot = 32" "slot_blocks slot = blocks_needed (length xs) mod 65536"
    "chained w2 (slot_link slot) cs" "ends_well cs" "file_bytes cs = xs" "length cs = blocks_needed (length xs)"
    "grown v w2 (map fst cs)" "same_entry (the (bslot (chan v ch))) slot" "dir (chan w2 ch) = dir (chan v ch)"
    "\<exists>cs b. file_state v w1 ch cs b xs"
proof -
  obtain b0 where st0: "file_state v v ch [] b0 []" using new_file_state [OF assms(1)] by blast
  have sz: "length ([] @ xs) \<le> 254 * blocks_free v" using assms(3) by simp
  obtain w1 cs b where w1: "send_bytes junk tmp t0 ch v xs = (SERIAL_OK, w1)" "file_state v w1 ch cs b xs"
    "2 < bufptr (chan w1 ch)"
    using send_bytes_state [OF st0 sz, of junk tmp t0] assms(2) by auto
  let ?n = "bufptr (chan w1 ch)"
  have n: "?n \<le> 256" "length b = 256" "xs = file_data cs @ slice b 2 (?n - 2)" "length (file_data cs) = 254 * length cs"
    using w1(2) length_file_data [of cs] by (auto simp: file_state_def channel_ok_def)
  have "0 < blocks_free v" using assms(2,3) by (cases "blocks_free v") auto
  then obtain w2 e slot where w2: "iec_write_sequential t0 w1 ch ?n = (0, w2)"
    "chained w2 (slot_link slot) (cs @ [(e, last_block b ?n)])" "grown v w2 (e # map fst cs)"
    "channel_ok w2 ch (last_block b ?n)"
    "bslot (chan w2 ch) = Some slot" "length slot = 32" "slot_blocks slot = Suc (length cs) mod 65536"
    "same_entry (the (bslot (chan v ch))) slot" "dir (chan w2 ch) = dir (chan v ch)"
    using write_last_block [OF w1(2)] by metis
  have lb: "unat (last_block b ?n ! 1) = ?n - 1" using n(1,2) by (simp add: last_block_def byte_of_nat)
  have "length xs = 254 * length cs + (?n - 2)" using n by simp
  then have len: "blocks_needed (length xs) = Suc (length cs)"
    using n(1) w1(3) by (simp add: blocks_needed_def)
  have "slice (last_block b ?n) 2 (?n - 1 - 1) = slice b 2 (?n - 2)"
    by (simp add: slice_def last_block_def numeral_2_eq_2 [symmetric])
  then have "file_bytes (cs @ [(e, last_block b ?n)]) = xs" "ends_well (cs @ [(e, last_block b ?n)])"
    using n(3) w1(3) unfolding file_bytes_snoc lb by simp_all
  moreover have "grown v w2 (map fst (cs @ [(e, last_block b ?n)]))" using w2(3) by (auto simp: grown_def)
  ultimately show ?thesis using that [OF w1(1) w2(1,4-6) _ w2(2)] w2(7-9) w1(2) len by auto
qed

subsection \<open>A drive with a free disk, for the witnesses\<close>

definition free_bam :: buffer where
  "free_bam = (replicate 256 0xff)[2 := 0x41]"

definition some_time :: archdep_tm where
  "some_time = \<lparr>tm_wday = 1, tm_year = 124, tm_mon = 0, tm_mday = 1, tm_hour = 12, tm_min = 0, tm_sec = 0\<rparr>"

definition free_1541 :: vdrive where
  "free_1541 = logical_write (dirty_1541 free_bam) (18, 1) (replicate 256 0)"

definition writer_1541 :: vdrive where
  "writer_1541 = upd_chan 2 (\<lambda>p. p\<lparr>mode := BUFFER_SEQUENTIAL, readmode := CBMDOS_FAM_WRITE,
     buffer_ptr := BUF_HEAP (replicate 256 0), bslot := Some ((replicate 32 0)[2 := 1]), bufptr := 2,
     dir := (dir p)\<lparr>dtrack := 18, dsector := 1, dslot := 0\<rparr>\<rparr>) free_1541"

lemma free_bam_nth: "i < 256 \<Longrightarrow> i \<noteq> 2 \<Longrightarrow> free_bam ! i = 0xff"
  by (simp add: free_bam_def nth_list_update)

lemma dirty_free_data:
  "data_sectors (dirty_1541 free_bam) = {(t, s). 1 \<le> t \<and> t \<le> 35 \<and> t \<noteq> 18 \<and> s < disk_image_sector_per_track D64 t}"
proof -
  have "sectors_on (dirty_1541 free_bam) t = disk_image_sector_per_track D64 t" if "1 \<le> t" "t \<le> 35" for t
    using that by (simp add: sectors_on_def vdrive_get_max_sectors_def dirty_1541_simps c_unsigned_def geom_simps)
  then show ?thesis
    by (auto simp: data_sectors_def dirty_1541_def blank_drive_def)
qed

lemma dirty_free_writable: "writable (dirty_1541 free_bam)"
proof -
  let ?v = "dirty_1541 free_bam"
  let ?d = "blank_drive FORMAT_1541 (d64_file_image (replicate 174848 0) None) 35"
  have b: "length free_bam = 256" "free_bam ! 2 = 0x41" by (simp_all add: free_bam_def)
  note at = dirty_1541_attached [OF b]
  have sd: "same_disk ?d ?v" "image_mode ?v = image_mode ?d" by (simp_all add: dirty_1541_def same_disk_def)
  have "logical_valid ?v a" if "a \<in> data_sectors ?v" for a
    unfolding same_disk_read(2) [OF sd] using blank_drive_ok(2) [of "replicate 174848 0"] that
    by (auto simp: dirty_free_data)
  moreover have "mounted ?v"
    using at unfolding mounted_def bam_attached_def by (simp add: dirty_1541_def blank_drive_def)
  moreover have "bam_ok ?v"
    using b by (simp add: bam_ok_def bam_loaded_def bam_headers_ok_def block_ranges_def layout_defs dirty_1541_simps)
  ultimately show ?thesis
    using at
    by (simp add: writable_def searchable_def cbm_format_def dirty_1541_simps vdrive_calculate_disk_half_def c_unsigned_def
        layout_defs) (simp add: dirty_1541_def blank_drive_def)
qed

lemma dirty_free_homes: "bam_homes (dirty_1541 free_bam) = {(18, 0)}"
  by (simp add: bam_homes_def dirty_1541_simps lessThan_Suc)

lemma free_1541_heap:
  obtains h where "free_1541 = (dirty_1541 free_bam)\<lparr>disk_heap := h\<rparr>" "writable free_1541"
    "holds free_1541 (18, 1) (replicate 256 0)" "data_sectors free_1541 = data_sectors (dirty_1541 free_bam)"
    "sector_is_free free_1541 = sector_is_free (dirty_1541 free_bam)" "bam_homes free_1541 = {(18, 0)}"
proof -
  let ?v = "dirty_1541 free_bam" and ?b = "replicate 256 0 :: buffer"
  let ?d = "blank_drive FORMAT_1541 (d64_file_image (replicate 174848 0) None) 35"
  have sd: "same_disk ?d ?v" "image_mode ?v = image_mode ?d" by (simp_all add: dirty_1541_def same_disk_def)
  have va: "logical_valid ?v (18, 1)"
    unfolding same_disk_read(2) [OF sd] using blank_drive_ok(2) [of "replicate 174848 0" 18 1] by (simp add: geom_simps)
  have ok: "drive_ok ?v" using dirty_free_writable by (simp add: writable_def mounted_def)
  have nh: "(18, 1) \<notin> bam_homes ?v" by (simp add: dirty_free_homes)
  obtain h where h: "vdrive_write_sector ?v ?b 18 1 = (0, ?v\<lparr>disk_heap := h\<rparr>)" "writable (?v\<lparr>disk_heap := h\<rparr>)"
    "\<And>x y. holds (?v\<lparr>disk_heap := h\<rparr>) x y = (if x = (18, 1) then y = ?b else holds ?v x y)"
    "data_sectors (?v\<lparr>disk_heap := h\<rparr>) = data_sectors ?v" "sector_is_free (?v\<lparr>disk_heap := h\<rparr>) = sector_is_free ?v"
    "blocks_free (?v\<lparr>disk_heap := h\<rparr>) = blocks_free ?v" "bam_homes (?v\<lparr>disk_heap := h\<rparr>) = bam_homes ?v"
    by (rule write_sector_change [OF dirty_free_writable va _ nh, of ?b]) (simp, simp add: that)
  have "free_1541 = ?v\<lparr>disk_heap := h\<rparr>"
    using h(1) write_sector_ok [OF ok va, of ?b] by (simp add: free_1541_def)
  then show ?thesis using that h(2-) by (simp add: dirty_free_homes)
qed

lemma writer_1541_simps:
  "new_file writer_1541 2" "0 < blocks_free writer_1541" "holds writer_1541 (18, 1) (replicate 256 0)"
  "(18, 1) \<notin> data_sectors writer_1541" "bam_homes writer_1541 = {(18, 0)}"
proof -
  obtain h where h: "free_1541 = (dirty_1541 free_bam)\<lparr>disk_heap := h\<rparr>" "writable free_1541"
    "holds free_1541 (18, 1) (replicate 256 0)" "data_sectors free_1541 = data_sectors (dirty_1541 free_bam)"
    "sector_is_free free_1541 = sector_is_free (dirty_1541 free_bam)" "bam_homes free_1541 = {(18, 0)}"
    by (rule free_1541_heap)
  have chans: "buffers free_1541 = buffers (blank_drive FORMAT_1541 (d64_file_image (replicate 174848 0) None) 35)"
    "current_part free_1541 = 0" "image_format free_1541 = FORMAT_1541"
    by (simp_all add: h(1)) (simp_all add: dirty_1541_def blank_drive_def)
  have d: "(1, 0) \<in> data_sectors free_1541" "(18, s) \<notin> data_sectors free_1541" for s
    by (simp_all add: h(4) dirty_free_data geom_simps)
  have "sector_is_free free_1541 (1, 0)"
    unfolding h(5) sector_is_free_def dirty_1541_simps
    by (simp add: byte_at_def layout_defs bam_byte_def dirty_1541_simps free_bam_nth bit_index_def)
  then have "(1, 0) \<in> {x \<in> data_sectors free_1541. sector_is_free free_1541 x}" using d(1) by simp
  moreover have "finite {x \<in> data_sectors free_1541. sector_is_free free_1541 x}"
    using finite_data_sectors h(2) by (simp add: writable_def)
  ultimately have "0 < blocks_free free_1541"
    unfolding blocks_free_def bam.free_count_def by (metis card_gt_0_iff empty_iff)
  then show "0 < blocks_free writer_1541" "holds writer_1541 (18, 1) (replicate 256 0)"
    "(18, 1) \<notin> data_sectors writer_1541" "bam_homes writer_1541 = {(18, 0)}"
    using h d by (simp_all add: writer_1541_def)
  show "new_file writer_1541 2"
    using h(2,6) d(2) chans by (simp add: writer_1541_def new_file_def channel_ok_def blank_drive_def)
qed

subsection \<open>Properties\<close>

text \<open>
  C32. Reading a file. A channel opened on a chain of sectors whose last sector gives the
  position of its last byte delivers the bytes of the chain, each with the status OK but for
  the last one, which comes with an end of file. In particular every read returns.
\<close>

theorem sequential_file_read:
  assumes "unpartitioned v" "ch < length (buffers v)" "reader (chan v ch)" "chained v (t, s) cs" "ends_well cs"
  shows "\<exists>w u. iec_open_read_sequential junk tmp buf t0 now v ch t s = Some (SERIAL_OK, w) \<and>
    receive_bytes junk tmp ch w (length (file_bytes cs)) = Some (with_eof (file_bytes cs), u)"
  by (rule reads_file [OF assms])

theorem sequential_file_read_witness:
  "\<exists>w u. iec_open_read_sequential (\<lambda>_. 0) [] [] 0 some_time
       (disk_1541 [((17, 0), 0 # 3 # 0x41 # 0x42 # replicate 252 0)]) 2 17 0 = Some (SERIAL_OK, w) \<and>
     receive_bytes (\<lambda>_. 0) [] 2 w 2 = Some ([(SERIAL_OK, 0x41), (SERIAL_EOF, 0x42)], u)"
proof -
  let ?cs = "[((17, 0), 0 # 3 # 0x41 # 0x42 # replicate 252 0)] :: ((nat \<times> nat) \<times> buffer) list"
  have ws: "sectors_1541 ?cs" by (simp add: sectors_1541_def)
  note d = disk_1541_simps [OF ws] and h = disk_1541_holds [OF ws]
  obtain hp where "disk_1541 ?cs = (dirty_1541 full_bam)\<lparr>disk_heap := hp\<rparr>" using disk_1541_heap [OF ws] by blast
  then have c: "buffers (disk_1541 ?cs) = buffers (blank_drive FORMAT_1541 (d64_file_image (replicate 174848 0) None) 35)"
    "current_part (disk_1541 ?cs) = 0"
    by (simp_all add: dirty_1541_def blank_drive_def)
  have bytes: "length (file_bytes ?cs) = 2" "with_eof (file_bytes ?cs) = [(SERIAL_OK, 0x41), (SERIAL_EOF, 0x42)]"
    by (simp_all add: slice_def with_eof_def)
  have v: "unpartitioned (disk_1541 ?cs)" "chained (disk_1541 ?cs) (17, 0) ?cs" "2 < length (buffers (disk_1541 ?cs))"
    "reader (chan (disk_1541 ?cs) 2)" "ends_well ?cs"
    using d c h [of "(17, 0)"] by (simp_all add: unpartitioned_def) (simp_all add: blank_drive_def reader_def)
  show ?thesis
    using sequential_file_read [OF v(1,3,4,2,5), of "\<lambda>_. 0" "[]" "[]" 0 some_time] unfolding bytes .
qed

text \<open>
  C33. A file reads back as written. On a disk with enough free blocks every byte sent to a
  new file is accepted; after its last block is flushed, the slot of the file leads to a chain
  that a reader receives the same bytes from, with an end of file on the last one. The slot
  counts the blocks, as many sectors are free less than before, and no sector changes but the
  ones that were free.
\<close>

theorem sequential_round_trip:
  assumes "new_file v ch" "xs \<noteq> []" "length xs \<le> 254 * blocks_free v" "reader p"
  shows "\<exists>w1 w2 slot w3 w4. send_bytes junk tmp t0 ch v xs = (SERIAL_OK, w1) \<and>
    iec_write_sequential t0 w1 ch (bufptr (chan w1 ch)) = (0, w2) \<and> bslot (chan w2 ch) = Some slot \<and>
    slot_blocks slot = blocks_needed (length xs) mod 65536 \<and>
    blocks_free w2 + blocks_needed (length xs) = blocks_free v \<and>
    (\<forall>a b. a \<in> data_sectors v \<and> sector_is_free v a \<or> holds w2 a b = holds v a b) \<and>
    iec_open_read_sequential junk tmp buf t0 now (upd_chan ch (\<lambda>_. p) w2) ch
      (unat (slot ! SLOT_FIRST_TRACK)) (unat (slot ! SLOT_FIRST_SECTOR)) = Some (SERIAL_OK, w3) \<and>
    receive_bytes junk tmp ch w3 (length xs) = Some (with_eof xs, w4)"
proof -
  obtain w1 w2 slot cs b where w: "send_bytes junk tmp t0 ch v xs = (SERIAL_OK, w1)"
    "iec_write_sequential t0 w1 ch (bufptr (chan w1 ch)) = (0, w2)" "channel_ok w2 ch b"
    "bslot (chan w2 ch) = Some slot" "length slot = 32" "slot_blocks slot = blocks_needed (length xs) mod 65536"
    "chained w2 (slot_link slot) cs" "ends_well cs" "file_bytes cs = xs" "length cs = blocks_needed (length xs)"
    "grown v w2 (map fst cs)" "same_entry (the (bslot (chan v ch))) slot" "dir (chan w2 ch) = dir (chan v ch)"
    "\<exists>cs b. file_state v w1 ch cs b xs"
    by (rule written_file [OF assms(1-3)])
  let ?w = "upd_chan ch (\<lambda>_. p) w2"
  have "unpartitioned ?w" "ch < length (buffers ?w)" "reader (chan ?w ch)"
    using w(3,11) assms(4) by (auto simp: unpartitioned_def channel_ok_def grown_def writable_def)
  moreover have "chained ?w (slot_link slot) cs" using w(7) by simp
  ultimately have "\<exists>w3 w4. iec_open_read_sequential junk tmp buf t0 now ?w ch (unat (slot ! 3)) (unat (slot ! 4)) =
      Some (SERIAL_OK, w3) \<and> receive_bytes junk tmp ch w3 (length xs) = Some (with_eof xs, w4)"
    using reads_file [of ?w ch "unat (slot ! 3)" "unat (slot ! 4)" cs] w(8,9) by simp
  moreover have "blocks_free w2 + blocks_needed (length xs) = blocks_free v"
    using w(10,11) by (simp add: grown_def)
  moreover have "\<forall>a b. a \<in> data_sectors v \<and> sector_is_free v a \<or> holds w2 a b = holds v a b"
    using w(11) unfolding grown_def by blast
  ultimately show ?thesis using w(1,2,4,6) by blast
qed

theorem sequential_round_trip_witness:
  "\<exists>w1 w2 slot w3 w4. send_bytes (\<lambda>_. 0) [] 0 2 writer_1541 [1, 2, 3] = (SERIAL_OK, w1) \<and>
    iec_write_sequential 0 w1 2 (bufptr (chan w1 2)) = (0, w2) \<and> bslot (chan w2 2) = Some slot \<and> slot_blocks slot = 1 \<and>
    iec_open_read_sequential (\<lambda>_. 0) [] [] 0 some_time (upd_chan 2 (\<lambda>_. chan free_1541 2) w2) 2
      (unat (slot ! 3)) (unat (slot ! 4)) = Some (SERIAL_OK, w3) \<and>
    receive_bytes (\<lambda>_. 0) [] 2 w3 3 = Some ([(SERIAL_OK, 1), (SERIAL_OK, 2), (SERIAL_EOF, 3)], w4)"
proof -
  obtain h where h: "free_1541 = (dirty_1541 free_bam)\<lparr>disk_heap := h\<rparr>" using free_1541_heap by blast
  have "buffers free_1541 = buffers (blank_drive FORMAT_1541 (d64_file_image (replicate 174848 0) None) 35)"
    by (simp add: h) (simp add: dirty_1541_def)
  then have r: "reader (chan free_1541 2)" by (simp add: blank_drive_def reader_def)
  have len: "length [1 :: byte, 2, 3] \<le> 254 * blocks_free writer_1541" using writer_1541_simps(2) by simp
  have n: "length [1 :: byte, 2, 3] = 3" "blocks_needed 3 mod 65536 = 1" "[1 :: byte, 2, 3] \<noteq> []"
    "with_eof [1, 2, 3] = [(SERIAL_OK, 1), (SERIAL_OK, 2), (SERIAL_EOF, 3)]"
    by (simp_all add: blocks_needed_def with_eof_def)
  show ?thesis
    using sequential_round_trip [OF writer_1541_simps(1) n(3) len r, of "\<lambda>_. 0" "[]" 0 "[]" some_time] unfolding n(1,2,4) by blast
qed

end
