(* ===== verification/RelRecords.thy ===== *)
theory RelRecords
  imports Rel IecFile
begin

text \<open>
  Where the records of a relative file are: the data blocks of the file are numbered through
  its side sectors, and a record is at its number times the record length in their data.
\<close>

subsection \<open>The blocks listed by the side sectors\<close>

definition block_entry :: "nat \<Rightarrow> nat" where
  "block_entry n = 256 * (n div SIDE_INDEX_MAX) + OFFSET_POINTER + 2 * (n mod SIDE_INDEX_MAX)"

definition rel_block :: "rel_file \<Rightarrow> nat \<Rightarrow> nat \<times> nat" where
  "rel_block r n = (unat (side_sector r ! block_entry n), unat (side_sector r ! (block_entry n + 1)))"

abbreviation last_group :: "rel_file \<Rightarrow> nat" where
  "last_group r \<equiv> side_groups SIDE_SUPER_MAX (super_side_sector r) - 1"

abbreviation last_in_group :: "rel_file \<Rightarrow> nat" where
  "last_in_group r \<equiv> last_side (side_sector r) (last_group r)"

abbreviation last_listed :: "rel_file \<Rightarrow> nat" where
  "last_listed r \<equiv> listed_blocks (side_sector r) (last_group r) (last_in_group r)"

definition blocks_listed :: "rel_file \<Rightarrow> nat" where
  "blocks_listed r = (last_group r * SIDE_SECTORS_MAX + last_in_group r) * SIDE_INDEX_MAX + last_listed r"

text \<open>The side sectors of a file that is not empty.\<close>

definition side_sectors_ok :: "rel_file \<Rightarrow> bool" where
  "side_sectors_ok r = (side_groups SIDE_SUPER_MAX (super_side_sector r) \<noteq> 0 \<and>
     length (side_sector r) = side_groups SIDE_SUPER_MAX (super_side_sector r) * SIDE_SECTORS_MAX * 256 \<and>
     last_in_group r < SIDE_SECTORS_MAX \<and> 1 \<le> last_listed r \<and> last_listed r \<le> SIDE_INDEX_MAX)"

lemma side_groups_le: "side_groups n super \<le> n"
  using length_takeWhile_le [of _ "[0..<n]"] by (simp add: side_groups_def)

lemma blocks_listed_bounds:
  assumes "side_sectors_ok r"
  shows "1 \<le> blocks_listed r" "blocks_listed r \<le> 126 * 6 * 120"
    "n < blocks_listed r \<Longrightarrow> block_entry n + 1 < length (side_sector r)"
proof -
  let ?g = "side_groups SIDE_SUPER_MAX (super_side_sector r)"
  have g: "?g \<noteq> 0" "?g \<le> 126" "last_in_group r < 6" "1 \<le> last_listed r" "last_listed r \<le> 120"
    "length (side_sector r) = ?g * 6 * 256"
    using assms side_groups_le [of 126 "super_side_sector r"] by (simp_all add: side_sectors_ok_def)
  have up: "blocks_listed r \<le> ?g * 6 * 120"
  proof -
    define q where "q = last_group r * 6 + last_in_group r"
    have "q + 1 \<le> ?g * 6" using g(1,3) by (simp add: q_def)
    then have "(q + 1) * 120 \<le> ?g * 6 * 120" by (rule mult_le_mono1)
    moreover have "blocks_listed r \<le> q * 120 + 120" using g(5) by (simp add: blocks_listed_def q_def)
    ultimately show ?thesis by simp
  qed
  show "1 \<le> blocks_listed r" using g(4) by (simp add: blocks_listed_def)
  show "blocks_listed r \<le> 126 * 6 * 120" using up g(2) by simp
  assume "n < blocks_listed r"
  then have "n div 120 < ?g * 6" using up by (simp add: div_less_iff_less_mult)
  moreover have "n mod 120 < 120" by simp
  ultimately show "block_entry n + 1 < length (side_sector r)" unfolding g(6) block_entry_def by linarith
qed

lemma last_block_entry:
  assumes "side_sectors_ok r"
  shows "side_entry (last_group r) (last_in_group r) (c_unsigned (int (last_listed r) - 1)) =
    block_entry (blocks_listed r - 1)"
proof -
  obtain j where j: "last_listed r = Suc j" "j < 120"
    using assms by (cases "last_listed r") (auto simp: side_sectors_ok_def)
  define q where "q = last_group r * 6 + last_in_group r"
  have n: "blocks_listed r - 1 = j + q * 120" using j by (simp add: blocks_listed_def q_def)
  have e: "block_entry (blocks_listed r - 1) = 256 * q + 16 + 2 * j" unfolding n block_entry_def using j(2) by simp
  have "block_entry (blocks_listed r - 1) + 1 < length (side_sector r)"
    using blocks_listed_bounds(1,3) [OF assms] by simp
  moreover have "length (side_sector r) \<le> 126 * 6 * 256"
    using assms side_groups_le [of 126 "super_side_sector r"] by (simp add: side_sectors_ok_def)
  ultimately have "256 * q + 16 + 2 * j < 2 ^ 32" using e by simp
  moreover have "c_unsigned (int (last_listed r) - 1) = j" using j by (simp add: c_unsigned_def)
  moreover have "side_entry (last_group r) (last_in_group r) j = c_uint (256 * q + 16 + 2 * j)"
    by (simp only: side_entry_def q_def add.commute)
  ultimately show ?thesis unfolding e by (simp add: c_uint_def)
qed

text \<open>The arithmetic of the search for a record.\<close>

lemma side_position:
  fixes n :: nat
  shows "n div 182880 * 6 + n mod 182880 div 30480 = n div 254 div 120" "n mod 182880 mod 30480 div 254 = n div 254 mod 120"
proof -
  have "n div 182880 = n div 30480 div 6" "n mod 182880 div 30480 = n div 30480 mod 6"
    using div_mult2_eq [of n 30480 6] mod_mult2_eq [of n 30480 6] by simp_all
  then show "n div 182880 * 6 + n mod 182880 div 30480 = n div 254 div 120"
    using div_mult2_eq [of n 254 120] by simp
  show "n mod 182880 mod 30480 div 254 = n div 254 mod 120"
    using mod_mult2_eq [of n 254 120] mod_mod_cancel [of 30480 182880 n] by simp
qed

lemma track_sector_block:
  assumes "record * unat (chan_slot v ch ! 23) < 2 ^ 32"
  shows "vdrive_rel_track_sector v ch record =
    (fst (rel_block (rel (chan v ch)) (record * unat (chan_slot v ch ! 23) div 254)),
     snd (rel_block (rel (chan v ch)) (record * unat (chan_slot v ch ! 23) div 254)),
     record * unat (chan_slot v ch ! 23) mod 254)"
proof -
  define n where "n = record * unat (chan_slot v ch ! 23)"
  have c: "c_uint n = n" using assms by (simp add: c_uint_def n_def)
  have k: "254 * SIDE_INDEX_MAX = 30480" "30480 * SIDE_SECTORS_MAX = 182880" by simp_all
  have e: "n div 254 mod 120 * 2 + n div 254 div 120 * 256 + 16 = block_entry (n div 254)" by (simp add: block_entry_def)
  show ?thesis
    unfolding vdrive_rel_track_sector_def Let_def n_def [symmetric] c k side_position e by (simp add: rel_block_def)
qed

subsection \<open>Properties\<close>

text \<open>
  C35. Records of a relative file. For a file whose side sectors list blocks, the number of
  records comes from the bytes in use of its blocks. Every record below it is found, at its
  number times the record length in the data of the blocks, and all of its bytes lie in blocks
  that the side sectors list: the entries read are inside their memory.
\<close>

theorem rel_records_listed:
  assumes "mounted v" "ch < length (buffers v)" "buffer_ptr (chan v ch) = BUF_HEAP b0" "length b0 = 256"
    "side_sectors_ok (rel (chan v ch))" "len = unat (chan_slot v ch ! SLOT_RECORD_LENGTH)" "0 < len"
    "holds v (rel_block (rel (chan v ch)) (blocks_listed (rel (chan v ch)) - 1)) b" "1 \<le> unat (b ! 1)"
  shows "\<exists>m w. vdrive_rel_record_max v ch = Some (m, w) \<and>
    m = (254 * (blocks_listed (rel (chan v ch)) - 1) + unat (b ! 1) - 1) div len \<and>
    (\<forall>k < m. (case vdrive_rel_track_sector w ch k of (t, s, start) \<Rightarrow>
       (t, s) = rel_block (rel (chan v ch)) (k * len div 254) \<and> start = k * len mod 254 \<and>
       (k * len + len - 1) div 254 < blocks_listed (rel (chan v ch)) \<and>
       block_entry ((k * len + len - 1) div 254) + 1 < length (side_sector (rel (chan v ch)))))"
proof -
  let ?r = "rel (chan v ch)"
  define n where "n = blocks_listed ?r"
  define m where "m = (254 * (n - 1) + unat (b ! 1) - 1) div len"
  note bd = blocks_listed_bounds [OF assms(5), folded n_def] and le = last_block_entry [OF assms(5), folded n_def]
  obtain j where j: "last_listed ?r = Suc j" using assms(5) by (cases "last_listed ?r") (auto simp: side_sectors_ok_def)
  have g: "side_groups SIDE_SUPER_MAX (super_side_sector ?r) \<noteq> 0" using assms(5) by (simp add: side_sectors_ok_def)
  have b: "unat (b ! 1) < 256" "length b = 256" using byte_less assms(8) by (simp_all add: holds_def)
  let ?w = "upd_chan ch (\<lambda>p. p\<lparr>buffer_ptr := BUF_HEAP b\<rparr>) v"
  have cb: "chan_buf v ch = b0" "chan_buf ?w ch = b" using assms(2,3) by (auto intro!: heap_buf)
  have rd: "vdrive_read_sector v b0 (unat (side_sector ?r ! block_entry (n - 1))) (unat (side_sector ?r ! (block_entry (n - 1) + 1))) =
      (0, v, b)"
    using holds_read [OF assms(1), of _ _ b b0] assms(4,8) by (simp add: rel_block_def n_def)
  have st: "buffer_store v ch b = ?w" by (rule heap_store [OF assms(3)]) (simp add: assms(4) b)
  have k: "c_unsigned (((int (last_group ?r) * 6 + int (last_in_group ?r)) * 120 + int j) * 254 + int (unat (b ! 1)) - 1) =
      254 * (n - 1) + unat (b ! 1) - 1"
  proof -
    have "n - 1 = (last_group ?r * 6 + last_in_group ?r) * 120 + j" using j by (simp add: n_def blocks_listed_def)
    then have "((int (last_group ?r) * 6 + int (last_in_group ?r)) * 120 + int j) * 254 + int (unat (b ! 1)) - 1 =
        int (254 * (n - 1) + unat (b ! 1) - 1)" using assms(9) by (simp add: algebra_simps)
    moreover have "254 * (n - 1) + unat (b ! 1) - 1 < 2 ^ 32" using bd(2) b(1) by simp
    ultimately show ?thesis by (simp only: c_unsigned_nat)
  qed
  have cj: "c_unsigned (int (last_listed ?r) - 1) = j" using j assms(5) by (simp add: c_unsigned_def side_sectors_ok_def)
  have max: "vdrive_rel_record_max v ch = Some (m, ?w)"
  proof -
    have "bslot (chan ?w ch) = bslot (chan v ch)" using assms(2) by simp
    then show ?thesis
      unfolding vdrive_rel_record_max_def Let_def cj le [unfolded cj] cb rd prod.case st k
      using g assms(6,7) by (simp add: m_def)
  qed
  have "vdrive_rel_track_sector ?w ch k = (fst (rel_block ?r (k * len div 254)), snd (rel_block ?r (k * len div 254)), k * len mod 254)
      \<and> (k * len + len - 1) div 254 < n" if "k < m" for k
  proof -
    have "(k + 1) * len \<le> m * len" using that by (intro mult_le_mono1) simp
    also have "m * len \<le> 254 * (n - 1) + unat (b ! 1) - 1" by (simp add: m_def)
    also have "\<dots> \<le> 254 * n" using b(1) bd(1) by simp
    finally have "k * len + len \<le> 254 * n" by simp
    moreover from this have "k * len < 2 ^ 32" using bd(2) by simp
    ultimately show ?thesis
      using track_sector_block [of k ?w ch] assms(2,6,7) by (simp add: div_less_iff_less_mult)
  qed
  then show ?thesis using max bd(3) by (auto simp: n_def [symmetric]) (simp add: m_def)
qed

text \<open>A file of one block with two records of 100 bytes.\<close>

definition one_block_rel :: rel_file where
  "one_block_rel = \<lparr>side_sector = (replicate 1536 0)[1 := 17, 3 := 100, 16 := 17], side_sector_track = replicate 6 0,
     side_sector_sector = replicate 6 0, super_side_sector = (replicate 256 0)[2 := 254, 3 := 17, 4 := 1],
     super_side_sector_track = 0, super_side_sector_sector = 0, buffer_next = replicate 256 0, track_next = 0,
     sector_next = 0, record_max = 0, record_next = 0, side_sector_needsupdate = replicate 6 0,
     super_side_sector_needsupdate = 0\<rparr>"

definition rel_1541 :: vdrive where
  "rel_1541 = upd_chan 2 (\<lambda>p. p\<lparr>buffer_ptr := BUF_HEAP (replicate 256 0), bslot := Some ((replicate 32 0)[23 := 100]),
     rel := one_block_rel\<rparr>) (disk_1541 [((17, 0), 0 # 201 # replicate 254 0)])"

lemma one_block_rel_listed:
  "side_sectors_ok one_block_rel" "blocks_listed one_block_rel = 1" "rel_block one_block_rel 0 = (17, 0)"
proof -
  have g: "side_groups 126 (super_side_sector one_block_rel) = 1"
    by (simp add: side_groups_def one_block_rel_def upt_conv_Cons)
  have l: "last_side (side_sector one_block_rel) 0 = 0"
    by (simp add: last_side_def one_block_rel_def upt_conv_Cons)
  have n: "listed_blocks (side_sector one_block_rel) 0 0 = 1"
    by (simp add: listed_blocks_def one_block_rel_def c_unsigned_def)
  show "side_sectors_ok one_block_rel" using g l n by (simp add: side_sectors_ok_def) (simp add: one_block_rel_def)
  show "blocks_listed one_block_rel = 1" using g l n by (simp add: blocks_listed_def)
  show "rel_block one_block_rel 0 = (17, 0)" by (simp add: rel_block_def block_entry_def one_block_rel_def)
qed

theorem rel_records_listed_witness:
  "\<exists>w. vdrive_rel_record_max rel_1541 2 = Some (2, w) \<and> vdrive_rel_track_sector w 2 1 = (17, 0, 100)"
proof -
  let ?b = "0 # 201 # replicate 254 0 :: buffer"
  have ws: "sectors_1541 [((17, 0), ?b)]" by (simp add: sectors_1541_def)
  obtain h where "disk_1541 [((17, 0), ?b)] = (dirty_1541 full_bam)\<lparr>disk_heap := h\<rparr>" using disk_1541_heap [OF ws] by blast
  then have "length (buffers (disk_1541 [((17, 0), ?b)])) = 16" by (simp add: dirty_1541_def blank_drive_def)
  then have c: "2 < length (buffers rel_1541)" "buffer_ptr (chan rel_1541 2) = BUF_HEAP (replicate 256 0)"
    "rel (chan rel_1541 2) = one_block_rel" "chan_slot rel_1541 2 = (replicate 32 0)[23 := 100]"
    by (simp_all add: rel_1541_def)
  have "mounted rel_1541" "holds rel_1541 (17, 0) ?b"
    using disk_1541_simps(1) [OF ws] disk_1541_holds [OF ws, of "(17, 0)"] by (simp_all add: rel_1541_def)
  then obtain m w where w: "vdrive_rel_record_max rel_1541 2 = Some (m, w)" "m = (254 * (1 - 1) + unat (?b ! 1) - 1) div 100"
    and rec: "\<forall>k < m. (case vdrive_rel_track_sector w 2 k of (t, s, start) \<Rightarrow>
       (t, s) = rel_block one_block_rel (k * 100 div 254) \<and> start = k * 100 mod 254 \<and>
       (k * 100 + 100 - 1) div 254 < (1 :: nat) \<and>
       block_entry ((k * 100 + 100 - 1) div 254) + 1 < length (side_sector one_block_rel))"
    using rel_records_listed [of rel_1541 2 "replicate 256 0" 100 ?b] unfolding c one_block_rel_listed
    by (auto simp: c one_block_rel_listed)
  have m: "m = 2" using w(2) by simp
  have "case vdrive_rel_track_sector w 2 1 of (t, s, start) \<Rightarrow> (t, s) = rel_block one_block_rel 0 \<and> start = 100"
    using rec [unfolded m, rule_format, of 1] by (auto split: prod.splits)
  then show ?thesis using w(1) m one_block_rel_listed(3) by (auto split: prod.splits)
qed

end
