(* ===== verification/CommandPath.thy ===== *)
theory CommandPath
  imports Rel
begin

text \<open>
  Names, numbers and paths of commands (\<^verbatim>\<open>lib/vdrive/vdrive-command.c\<close>): what the command
  channel and the opening of a file share. Before either looks for a name, the drive switches
  to the partition that was named with it and, on a native partition, walks the path to a
  subdirectory.

  The record \<open>ambient\<close> collects what a call finds in uninitialised memory: fresh and local
  buffers, a search context, a parsed command; and the time of the host's clock and the disk id
  that an image file of raw tracks holds in a sector's header.
\<close>

record ambient =
  u_junk :: "nat \<Rightarrow> byte"
  u_tmp :: buffer
  u_buf :: buffer
  u_t0 :: nat
  u_mem :: buffer
  u_mem1 :: buffer
  u_mem2 :: buffer
  u_dir :: vdrive_dir_context
  u_cmd :: cbmdos_cmd_parse_plus
  u_now :: archdep_tm
  u_gcr_id :: "disk_image \<Rightarrow> nat \<Rightarrow> nat \<Rightarrow> int \<times> nat"

abbreviation (input) "CBMDOS_IPE_PATH_NOT_FOUND \<equiv> 39 :: int"

definition vdrive_haswildcard :: "buffer \<Rightarrow> nat \<Rightarrow> bool" where
  "vdrive_haswildcard name len =
    (memchr name 0 (asc CHR ''*'') len \<noteq> None \<or> memchr name 0 (asc CHR ''?'') len \<noteq> None)"

text \<open>The value of the digits from position \<open>j\<close> on, in an \<open>unsigned int\<close>.\<close>

function atoi_loop :: "buffer \<Rightarrow> nat \<Rightarrow> nat \<Rightarrow> nat \<Rightarrow> nat" where
  "atoi_loop name len j i =
    (if j < len \<and> is_digit (name ! j) then atoi_loop name len (Suc j) (c_uint (i * 10 + (unat (name ! j) - 0x30)))
     else i)"
  by pat_completeness auto
termination by (relation "measure (\<lambda>(name, len, j, i). len - j)") auto

declare atoi_loop.simps [simp del]

definition vdrive_atoi :: "buffer \<Rightarrow> nat \<Rightarrow> nat" where
  "vdrive_atoi name len = atoi_loop name len 0 0"

subsection \<open>Partitions\<close>

definition vdrive_command_return :: "buffer \<Rightarrow> vdrive \<Rightarrow> int \<Rightarrow> vdrive" where
  "vdrive_command_return tmp v origpart =
    (if origpart < 0 then v
     else if origpart = current_part v then vdrive_set_disk_geometry tmp v
     else v)"

definition vdrive_command_switch :: "(nat \<Rightarrow> byte) \<Rightarrow> buffer \<Rightarrow> vdrive \<Rightarrow> int \<Rightarrow> int \<times> vdrive" where
  "vdrive_command_switch junk tmp v part =
    (if part = 255 then (CBMDOS_IPE_NOT_READY, v) else vdrive_switch junk tmp v part)"

subsection \<open>Paths\<close>

text \<open>A sector that cannot be read gives its error, or error 74 for a negative one.\<close>

definition read_status :: "int \<Rightarrow> int" where
  "read_status rc = (if rc < 0 then CBMDOS_IPE_NOT_READY else rc)"

definition is_cd :: "cbmdos_cmd_parse_plus \<Rightarrow> bool" where
  "is_cd cp = (commandlength cp = 2 \<and> the (command cp) ! 0 = asc CHR ''C'' \<and> the (command cp) ! 1 = asc CHR ''D'')"

text \<open>\<open>CD\<close> with a left arrow: the header of a subdirectory points to its parent's.\<close>

definition cd_parent :: "buffer \<Rightarrow> vdrive \<Rightarrow> int \<times> vdrive" where
  "cd_parent b v =
    (case vdrive_read_sector v b (Header_Track v) (Header_Sector v) of
       (rc, v, b) \<Rightarrow>
         if rc \<noteq> 0 then (read_status rc, v)
         else
           let v = v\<lparr>Header_Track := unat (b ! 34), Header_Sector := unat (b ! 35)\<rparr> in
           case vdrive_read_sector v b (Header_Track v) (Header_Sector v) of
             (rc, v, b) \<Rightarrow>
               if rc \<noteq> 0 then (read_status rc, v)
               else (CBMDOS_IPE_OK, v\<lparr>Dir_Track := unat (b ! 0), Dir_Sector := unat (b ! 1)\<rparr>))"

text \<open>
  The component of a path at position \<open>i\<close>: whether it has a name to search for, where the name
  begins and where it ends. Two slashes lead to the root.
\<close>

definition path_component ::
  "cbmdos_cmd_parse_plus \<Rightarrow> nat \<Rightarrow> vdrive \<Rightarrow> bool \<times> nat \<times> nat option \<times> vdrive" where
  "path_component cp i v =
    (let xs = the (path cp); n = pathlength cp; slash = asc CHR ''/'';
         to_slash = (\<lambda>i. memchr xs i slash (n - i));
         to_end = (\<lambda>i. case to_slash i of None \<Rightarrow> Some n | Some q \<Rightarrow> Some q) in
     if i = 0 \<and> is_cd cp \<and> xs ! 0 \<noteq> slash then (True, i, to_end i, v)
     else
       let root = (i + 1 < n \<and> xs ! i = slash \<and> xs ! (i + 1) = slash);
           v = (if root then v\<lparr>Header_Track := 1, Header_Sector := 1\<rparr> else v);
           i = (if root then i + 2 else if i < n \<and> xs ! i = slash then i + 1 else i) in
       (\<not> (root \<and> n = 2), i, if is_cd cp then to_end i else to_slash i, v))"

definition enter_directory :: "buffer \<Rightarrow> vdrive_dir_context \<Rightarrow> vdrive \<Rightarrow> int \<times> vdrive \<times> buffer" where
  "enter_directory b d v =
    (let t = unat (cur_slot d ! SLOT_FIRST_TRACK); s = unat (cur_slot d ! SLOT_FIRST_SECTOR) in
     case vdrive_read_sector v b t s of
       (rc, v, b) \<Rightarrow>
         if rc \<noteq> 0 then (read_status rc, v, b)
         else
           (CBMDOS_IPE_OK,
            v\<lparr>Header_Track := t, Header_Sector := s, Dir_Track := unat (b ! 0), Dir_Sector := unat (b ! 1)\<rparr>, b))"

partial_function (option) traverse ::
  "buffer \<Rightarrow> cbmdos_cmd_parse_plus \<Rightarrow> nat \<Rightarrow> vdrive_dir_context \<Rightarrow> buffer \<Rightarrow> vdrive \<Rightarrow> (int \<times> vdrive) option" where [code]:
  "traverse tmp cp i d b v =
    (if path cp = None \<or> pathlength cp = 0 then Some (CBMDOS_IPE_OK, v)
     else if i = 0 \<and> is_cd cp \<and> pathlength cp = 1 \<and> the (path cp) ! 0 = asc CHR ''_'' then Some (cd_parent b v)
     else
       case path_component cp i v of
         (named, i, stop, v) \<Rightarrow>
           if i = 0 \<and> \<not> (is_cd cp \<and> the (path cp) ! 0 \<noteq> asc CHR ''/'') \<or> stop = None then Some (CBMDOS_IPE_PATH_NOT_FOUND, v)
           else if named then
             (case vdrive_dir_find_first_slot v (drop i (the (path cp))) (int (the stop) - int i) CBMDOS_FT_DIR d of
                (v, d) \<Rightarrow>
                  (case vdrive_dir_find_next_slot v tmp d of
                     None \<Rightarrow> None
                   | Some (res, v, d) \<Rightarrow>
                       if res = None then Some (CBMDOS_IPE_PATH_NOT_FOUND, v)
                       else
                         case enter_directory b d v of
                           (rc, v, b) \<Rightarrow>
                             if rc \<noteq> 0 then Some (rc, v)
                             else if the stop < pathlength cp - 1 then traverse tmp cp (the stop) d b v
                             else Some (CBMDOS_IPE_OK, v)))
           else
             let v = v\<lparr>Dir_Track := 1, Dir_Sector := 34\<rparr> in
             if the stop < pathlength cp - 1 then traverse tmp cp (the stop) d b v else Some (CBMDOS_IPE_OK, v))"

text \<open>The name of a \<open>CD\<close> command without a path is the path.\<close>

definition name_as_path :: "cbmdos_cmd_parse_plus \<Rightarrow> cbmdos_cmd_parse_plus" where
  "name_as_path cp =
    (if is_cd cp \<and> pathlength cp = 0
     then cp\<lparr>path := pfile cp, pathlength := filelength cp, pfile := None, filelength := 0\<rparr> else cp)"

definition vdrive_command_switchtraverse ::
  "ambient \<Rightarrow> vdrive \<Rightarrow> cbmdos_cmd_parse_plus \<Rightarrow> (int \<times> vdrive \<times> cbmdos_cmd_parse_plus) option" where
  "vdrive_command_switchtraverse u v cp =
    (case vdrive_command_switch (u_junk u) (u_tmp u) v (drive cp) of
       (st, v) \<Rightarrow>
         if st \<noteq> 0 then Some (CBMDOS_IPE_NOT_READY, v, cp)
         else
           let cp = name_as_path cp in
           if image_format v = FORMAT_NP then
             (case traverse (u_tmp u) cp 0 (u_dir u) (u_buf u) v of
                None \<Rightarrow> None | Some (st, v) \<Rightarrow> Some (st, v, cp))
           else Some (CBMDOS_IPE_OK, v, cp))"

end
