(* ===== verification/Iec.thy ===== *)
theory Iec
  imports CommandPath
begin

text \<open>
  The channels of the drive (\<^verbatim>\<open>lib/vdrive/vdrive-iec.c\<close>): opening, closing, reading and writing a
  channel, whatever it stands for. Each function dispatches on the channel's mode; the
  sequential files are those of \<^verbatim>\<open>IecSeq\<close>, the relative ones those of \<^verbatim>\<open>Rel\<close>. The flush of the
  command channel is with the commands it executes.

  A call that does not return has the value \<open>None\<close>: it follows a cyclic chain of sectors, or the
  parser follows a null pointer.
\<close>

abbreviation (input) "SERIAL_NO_DEVICE \<equiv> 128 :: int"
abbreviation (input) "SERIAL_DEVICE_NOT_PRESENT \<equiv> 0x80 :: int"

subsection \<open>Closing\<close>

definition vdrive_iec_close :: "ambient \<Rightarrow> vdrive \<Rightarrow> nat \<Rightarrow> (int \<times> vdrive) option" where
  "vdrive_iec_close u v ch =
    (case mode (chan v ch) of
       BUFFER_NOT_IN_USE \<Rightarrow> Some (SERIAL_OK, v)
     | BUFFER_SEQUENTIAL \<Rightarrow> iec_close_sequential (u_junk u) (u_tmp u) (u_buf u) (u_t0 u) (u_now u) v ch
     | BUFFER_RELATIVE \<Rightarrow> vdrive_rel_close (u_junk u) (u_tmp u) v ch
     | BUFFER_COMMAND_CHANNEL \<Rightarrow> Some (SERIAL_OK, snd (vdrive_command_set_error v CBMDOS_IPE_OK 0 0))
     | _ \<Rightarrow> Some (SERIAL_OK, upd_chan ch (\<lambda>p. (vdrive_free_buffer p)\<lparr>bslot := None\<rparr>) v))"

text \<open>All channels, or those of a partition (\<^verbatim>\<open>vdrive.c\<close>).\<close>

primrec close_channels :: "ambient \<Rightarrow> (bufferinfo \<Rightarrow> bool) \<Rightarrow> nat list \<Rightarrow> vdrive \<Rightarrow> vdrive option" where
  "close_channels u fits [] v = Some v"
| "close_channels u fits (i # is') v =
    (let p = chan v i in
     if mode p \<noteq> BUFFER_NOT_IN_USE \<and> mode p \<noteq> BUFFER_COMMAND_CHANNEL \<and> fits p then
       (case vdrive_iec_close u v i of None \<Rightarrow> None | Some (_, v) \<Rightarrow> close_channels u fits is' v)
     else close_channels u fits is' v)"

definition vdrive_close_all_channels :: "ambient \<Rightarrow> vdrive \<Rightarrow> vdrive option" where
  "vdrive_close_all_channels u v = close_channels u (\<lambda>_. True) [0..<16] v"

definition vdrive_close_all_channels_partition :: "ambient \<Rightarrow> vdrive \<Rightarrow> int \<Rightarrow> vdrive option" where
  "vdrive_close_all_channels_partition u v part =
    close_channels u (\<lambda>p. bpartition p = c_unsigned part) [0..<16] v"

subsection \<open>Opening for reading\<close>

definition iec_open_read :: "ambient \<Rightarrow> vdrive \<Rightarrow> nat \<Rightarrow> (int \<times> vdrive) option" where
  "iec_open_read u v ch =
    (case bslot (chan v ch) of
       None \<Rightarrow>
         (case vdrive_iec_close u v ch of
            None \<Rightarrow> None
          | Some (_, v) \<Rightarrow> Some (SERIAL_ERROR, snd (vdrive_command_set_error v CBMDOS_IPE_NOT_FOUND 0 0)))
     | Some slot \<Rightarrow>
         let v = (if VDRIVE_IS_1541 v
                  then v\<lparr>ram := (ram v)[0x7e := slot ! SLOT_FIRST_TRACK, 0x26f := slot ! SLOT_FIRST_SECTOR]\<rparr> else v) in
         if slot ! SLOT_TYPE_OFFSET AND 0x80 \<noteq> 0 \<and> unat (slot ! SLOT_TYPE_OFFSET AND 0x07) \<noteq> CBMDOS_FT_REL then
           iec_open_read_sequential (u_junk u) (u_tmp u) (u_buf u) (u_t0 u) (u_now u) v ch
             (unat (slot ! SLOT_FIRST_TRACK)) (unat (slot ! SLOT_FIRST_SECTOR))
         else Some (SERIAL_ERROR, v))"

text \<open>Listings. The second channel other than 0 reads the header and the directory as a file.\<close>

definition open_partition_listing :: "ambient \<Rightarrow> vdrive \<Rightarrow> nat \<Rightarrow> cbmdos_cmd_parse_plus \<Rightarrow> (int \<times> vdrive) option" where
  "open_partition_listing u v ch cp =
    (case vdrive_iec_switch (u_junk u) (u_tmp u) (upd_chan ch (\<lambda>p. p\<lparr>bpartition := 255\<rparr>) v) ch of
       (st, v) \<Rightarrow>
         if st \<noteq> 0 then Some (SERIAL_ERROR, snd (vdrive_command_set_error v CBMDOS_IPE_NOT_READY 0 0))
         else
           let v = upd_chan ch (\<lambda>p. p\<lparr>mode := BUFFER_PARTITION_READ\<rparr>) v in
           case vdrive_dir_part_first_directory v (the (pfile cp)) (filelength cp) ch of
             None \<Rightarrow> None
           | Some (n, v) \<Rightarrow> Some (SERIAL_OK, upd_chan ch (\<lambda>p. p\<lparr>buf_length := c_unsigned n, bufptr := 0\<rparr>) v))"

definition iec_open_read_directory :: "ambient \<Rightarrow> vdrive \<Rightarrow> nat \<Rightarrow> cbmdos_cmd_parse_plus \<Rightarrow> (int \<times> vdrive) option" where
  "iec_open_read_directory u v ch cp =
    (if ch > 0 then
       iec_open_read_sequential (u_junk u) (u_tmp u) (u_buf u) (u_t0 u) (u_now u) v ch (Header_Track v) (Header_Sector v)
     else
       let v = upd_chan ch (\<lambda>p. (vdrive_alloc_buffer p (-1) BUFFER_DIRECTORY_READ)\<lparr>timemode := 0\<rparr>) v;
           options = (command cp \<noteq> None \<and> commandlength cp > 2 \<and> the (command cp) ! 1 = asc CHR ''='');
           kind = (if options then the (command cp) ! 2 else 0) in
       if options \<and> kind = asc CHR ''P'' \<and> haspt v then open_partition_listing u v ch cp
       else
         let v = (if options \<and> kind = asc CHR ''T'' then upd_chan ch (\<lambda>p. p\<lparr>timemode := 1\<rparr>) v else v) in
         case vdrive_dir_first_directory v (Some cp) ch of
           (n, v) \<Rightarrow> Some (SERIAL_OK, upd_chan ch (\<lambda>p. p\<lparr>buf_length := c_unsigned n, bufptr := 0\<rparr>) v))"

subsection \<open>Opening for writing\<close>

text \<open>
  Appending walks to the last sector of the file and counts its blocks; the count starts at
  65535, so that the last block is left out. An unreadable sector ends the walk with \<open>None\<close> in
  the inner option.
\<close>

partial_function (option) append_walk :: "nat \<Rightarrow> vdrive \<Rightarrow> nat \<Rightarrow> nat \<Rightarrow> (nat option \<times> vdrive) option" where [code]:
  "append_walk ch v t s =
    (if t = 0 then Some (Some s, v)
     else
       let v = upd_chan ch (\<lambda>p. p\<lparr>btrack := t, bsector := s\<rparr>) v in
       case vdrive_read_sector v (chan_buf v ch) t s of
         (status, v, b) \<Rightarrow>
           let v = buffer_store v ch b in
           if status \<noteq> 0 then
             Some (None, snd (vdrive_command_set_error (upd_chan ch vdrive_free_buffer v) CBMDOS_IPE_ILLEGAL_TRACK_OR_SECTOR t s))
           else append_walk ch (count_block ch v) (unat (chan_buf v ch ! 0)) (unat (chan_buf v ch ! 1)))"

definition open_append :: "vdrive \<Rightarrow> nat \<Rightarrow> buffer \<Rightarrow> (bool \<times> vdrive) option" where
  "open_append v ch slot =
    (let own = (take 32 slot)[SLOT_TYPE_OFFSET := slot ! SLOT_TYPE_OFFSET AND 0x7f, SLOT_NR_BLOCKS := 255, SLOT_NR_BLOCKS + 1 := 255];
         t = unat (slot ! SLOT_FIRST_TRACK); s = unat (slot ! SLOT_FIRST_SECTOR);
         v = upd_chan ch (\<lambda>p. (vdrive_alloc_buffer p (-1) BUFFER_SEQUENTIAL)\<lparr>bslot := Some own, btrack := t, bsector := s\<rparr>) v in
     case append_walk ch v t s of
       None \<Rightarrow> None
     | Some (None, v) \<Rightarrow> Some (False, v)
     | Some (Some s, v) \<Rightarrow>
         let empty_file = (btrack (chan v ch) = 0);
             v = (if empty_file then put_slot_byte ch (SLOT_NR_BLOCKS + 1) 0 (put_slot_byte ch SLOT_NR_BLOCKS 0 v) else v) in
         Some (True, upd_chan ch (\<lambda>p. p\<lparr>bufptr := (if empty_file then 1 else s) + 1\<rparr>) v))"

text \<open>Replacing leaves the entry on the disk as it is until the channel is closed.\<close>

definition open_replace :: "vdrive \<Rightarrow> nat \<Rightarrow> buffer \<Rightarrow> vdrive" where
  "open_replace v ch slot =
    upd_chan ch (\<lambda>p. (vdrive_alloc_buffer p (-1) BUFFER_SEQUENTIAL)
      \<lparr>bufptr := 2, bslot := Some (take 32 slot), needsupdate := 1, btrack := 0, bsector := 0\<rparr>) v"

text \<open>
  A new file: its slot is created, on a native partition its first sector allocated, and an
  entry found for it. The first component is the result of a failure, or 0.
\<close>

definition open_new :: "ambient \<Rightarrow> vdrive \<Rightarrow> nat \<Rightarrow> cbmdos_cmd_parse_plus \<Rightarrow> (int \<times> vdrive) option" where
  "open_new u v ch cp =
    (let v = vdrive_dir_create_slot v ch (the (pfile cp)) (filelength cp) (filetype cp);
         np = (image_format v = FORMAT_NP);
         (st, v) =
           (if np then
              (case vdrive_bam_alloc_first_free_sector v (u_t0 u) (u_t0 u) of
                 (retval, v, t, s) \<Rightarrow>
                   if retval < 0 then disk_full_error v
                   else
                     let v = upd_chan ch (\<lambda>p. p\<lparr>btrack := t, bsector := s\<rparr>) v;
                         v = put_slot_byte ch SLOT_FIRST_SECTOR (of_nat s) (put_slot_byte ch SLOT_FIRST_TRACK (of_nat t) v) in
                     (0, put_slot_byte ch (SLOT_NR_BLOCKS + 1) 0 (put_slot_byte ch SLOT_NR_BLOCKS 0 v)))
            else (0, v)) in
     if st < 0 then Some (st, v)
     else
       case vdrive_dir_find_first_slot v [] (-1) 0 (dir (chan v ch)) of
         (v, d) \<Rightarrow>
           (case vdrive_dir_find_next_slot v (u_tmp u) d of
              None \<Rightarrow> None
            | Some (res, v, d) \<Rightarrow>
                let v = set_dir ch d v in
                if res = None then
                  Some (SERIAL_ERROR, snd (vdrive_command_set_error (upd_chan ch vdrive_free_buffer v) CBMDOS_IPE_DISK_FULL 0 0))
                else Some (0, if np then v else upd_chan ch (\<lambda>p. p\<lparr>btrack := 0, bsector := 0\<rparr>) v)))"

text \<open>The entry is written as that of an open file.\<close>

definition write_open_entry :: "vdrive \<Rightarrow> nat \<Rightarrow> int \<times> vdrive" where
  "write_open_entry v ch =
    (let d = dir (chan v ch);
         d = d\<lparr>dbuffer := write_at (dbuffer d) (dslot d * 32 + 2) (slice (the (bslot (chan v ch))) 2 30)\<rparr>;
         v = set_dir ch d v in
     case vdrive_write_sector v (dbuffer d) (dtrack d) (dsector d) of
       (status, v) \<Rightarrow>
         if status \<noteq> CBMDOS_IPE_OK
         then (SERIAL_ERROR, snd (vdrive_command_set_error v status (dtrack d) (dsector d)))
         else (SERIAL_OK, v))"

definition iec_open_write :: "ambient \<Rightarrow> vdrive \<Rightarrow> nat \<Rightarrow> cbmdos_cmd_parse_plus \<Rightarrow> (int \<times> vdrive) option" where
  "iec_open_write u v ch cp =
    (if VDRIVE_IS_READONLY v then Some (SERIAL_ERROR, snd (vdrive_command_set_error v CBMDOS_IPE_WRITE_PROTECT_ON 0 0))
     else
       let v = upd_chan ch (\<lambda>p. p\<lparr>needsupdate := 0\<rparr>) v in
       case bslot (chan v ch) of
         Some slot \<Rightarrow>
           if (command cp \<noteq> None \<and> commandlength cp > 0 \<and> the (command cp) ! 0 = asc CHR ''@'') \<or>
              (slot ! SLOT_TYPE_OFFSET AND 0x80 = 0 \<and> unat (slot ! SLOT_TYPE_OFFSET AND 7) \<noteq> CBMDOS_FT_REL)
           then Some (SERIAL_OK, open_replace v ch slot)
           else if readmode (chan v ch) = CBMDOS_FAM_APPEND then
             (case open_append v ch slot of
                None \<Rightarrow> None
              | Some (ok, v) \<Rightarrow> Some (if ok then write_open_entry v ch else (SERIAL_ERROR, v)))
           else
             (case vdrive_iec_close u v ch of
                None \<Rightarrow> None
              | Some (_, v) \<Rightarrow> Some (SERIAL_ERROR, snd (vdrive_command_set_error v CBMDOS_IPE_FILE_EXISTS 0 0)))
       | None \<Rightarrow>
           (case open_new u v ch cp of
              None \<Rightarrow> None
            | Some (st, v) \<Rightarrow> Some (if st \<noteq> 0 then (st, v) else write_open_entry v ch)))"

subsection \<open>Reading and writing\<close>

text \<open>\<open>data\<close> is the caller's byte, which is left alone if the channel is not in use.\<close>

definition read_memory_buffer :: "vdrive \<Rightarrow> nat \<Rightarrow> int \<times> byte \<times> vdrive" where
  "read_memory_buffer v ch =
    (let p = chan v ch;
         data = (if mem_buf_next_byte_override v < 0 then chan_buf v ch ! bufptr p else of_int (mem_buf_next_byte_override v));
         v = (if mem_buf_next_byte_override v < 0 then v else v\<lparr>mem_buf_next_byte_override := -1\<rparr>) in
     if bufptr p + 1 \<ge> buf_length p then (SERIAL_EOF, data, upd_chan ch (\<lambda>p. p\<lparr>bufptr := 1\<rparr>) v)
     else (SERIAL_OK, data, upd_chan ch (\<lambda>p. p\<lparr>bufptr := bufptr p + 1\<rparr>) v))"

definition read_status_byte :: "vdrive \<Rightarrow> nat \<Rightarrow> int \<times> byte \<times> vdrive" where
  "read_status_byte v ch =
    (let v = (if bufptr (chan v ch) > buf_length (chan v ch) then snd (vdrive_command_set_error v CBMDOS_IPE_OK 0 0) else v);
         data = chan_buf v ch ! bufptr (chan v ch);
         v = upd_chan ch (\<lambda>p. p\<lparr>bufptr := bufptr p + 1\<rparr>) v in
     (if bufptr (chan v ch) > buf_length (chan v ch) then SERIAL_EOF else SERIAL_OK, data, v))"

definition vdrive_iec_read :: "ambient \<Rightarrow> vdrive \<Rightarrow> byte \<Rightarrow> nat \<Rightarrow> (int \<times> byte \<times> vdrive) option" where
  "vdrive_iec_read u v data ch =
    (case mode (chan v ch) of
       BUFFER_NOT_IN_USE \<Rightarrow> Some (SERIAL_ERROR OR SERIAL_EOF, data, v)
     | BUFFER_MEMORY_BUFFER \<Rightarrow> Some (read_memory_buffer v ch)
     | BUFFER_COMMAND_CHANNEL \<Rightarrow> Some (read_status_byte v ch)
     | BUFFER_RELATIVE \<Rightarrow> Some (vdrive_rel_read (u_junk u) (u_tmp u) v ch)
     | _ \<Rightarrow> iec_read_sequential (u_junk u) (u_tmp u) v ch)"

definition write_memory_buffer :: "vdrive \<Rightarrow> byte \<Rightarrow> nat \<Rightarrow> vdrive" where
  "write_memory_buffer v data ch =
    (let v = buffer_store v ch ((chan_buf v ch)[bufptr (chan v ch) := data]) in
     upd_chan ch (\<lambda>p. p\<lparr>bufptr := (if bufptr p + 1 \<ge> buf_length p then 0 else bufptr p + 1)\<rparr>) v)"

text \<open>A byte of a command. The first one ends the reading of the status.\<close>

definition write_command_byte :: "vdrive \<Rightarrow> byte \<Rightarrow> nat \<Rightarrow> int \<times> vdrive" where
  "write_command_byte v data ch =
    (let v = (if readmode (chan v ch) = CBMDOS_FAM_READ
              then upd_chan ch (\<lambda>p. p\<lparr>bufptr := 0, readmode := CBMDOS_FAM_WRITE\<rparr>) v else v) in
     if bufptr (chan v ch) \<ge> 256 then (SERIAL_ERROR, v)
     else
       let v = buffer_store v ch ((chan_buf v ch)[bufptr (chan v ch) := data]) in
       (SERIAL_OK, upd_chan ch (\<lambda>p. p\<lparr>bufptr := bufptr p + 1\<rparr>) v))"

definition vdrive_iec_write :: "ambient \<Rightarrow> vdrive \<Rightarrow> byte \<Rightarrow> nat \<Rightarrow> (int \<times> vdrive) option" where
  "vdrive_iec_write u v data ch =
    (case write_refused (u_junk u) (u_tmp u) v ch of
       (refused, v) \<Rightarrow>
         if refused then Some (SERIAL_ERROR, v)
         else case mode (chan v ch) of
           BUFFER_NOT_IN_USE \<Rightarrow> Some (SERIAL_DEVICE_NOT_PRESENT, v)
         | BUFFER_MEMORY_BUFFER \<Rightarrow> Some (SERIAL_OK, write_memory_buffer v data ch)
         | BUFFER_SEQUENTIAL \<Rightarrow> Some (iec_write_byte (u_junk u) (u_tmp u) (u_t0 u) v data ch)
         | BUFFER_COMMAND_CHANNEL \<Rightarrow> Some (write_command_byte v data ch)
         | BUFFER_RELATIVE \<Rightarrow> rel_run (u_junk u) (u_tmp u) ch (REL_WRITE data) v
         | _ \<Rightarrow> Some (SERIAL_ERROR, snd (vdrive_command_set_error v CBMDOS_IPE_NOT_WRITE 0 0)))"

definition vdrive_iec_listen :: "ambient \<Rightarrow> vdrive \<Rightarrow> nat \<Rightarrow> vdrive option" where
  "vdrive_iec_listen u v ch =
    (if mode (chan v ch) = BUFFER_RELATIVE then vdrive_rel_listen (u_junk u) (u_tmp u) v ch else Some v)"

subsection \<open>Opening\<close>

text \<open>The bytes of a name that opens the command channel are written to it.\<close>

fun write_bytes :: "ambient \<Rightarrow> nat \<Rightarrow> int \<Rightarrow> vdrive \<Rightarrow> buffer \<Rightarrow> (int \<times> vdrive) option" where
  "write_bytes u ch status v [] = Some (status, v)"
| "write_bytes u ch status v (x # xs) =
    (case vdrive_iec_write u v x ch of None \<Rightarrow> None | Some (status, v) \<Rightarrow> write_bytes u ch status v xs)"

definition open_command_channel :: "ambient \<Rightarrow> vdrive \<Rightarrow> buffer option \<Rightarrow> nat \<Rightarrow> nat \<Rightarrow> (int \<times> vdrive) option" where
  "open_command_channel u v name len ch =
    (let len = (if name = None \<or> the name ! 0 = 0 then 0 else len) in
     case write_bytes u ch SERIAL_OK v (take len (the name)) of
       None \<Rightarrow> None
     | Some (status, v) \<Rightarrow>
         Some (status, upd_chan ch (\<lambda>p. p\<lparr>readmode := (if len \<noteq> 0 then CBMDOS_FAM_WRITE else CBMDOS_FAM_READ)\<rparr>) v))"

text \<open>The C library's \<^verbatim>\<open>atoi\<close>, from position \<open>i\<close> on.\<close>

definition is_space :: "byte \<Rightarrow> bool" where
  "is_space b = (b = 0x20 \<or> b \<ge> 9 \<and> b \<le> 13)"

definition c_atoi :: "buffer \<Rightarrow> nat \<Rightarrow> int" where
  "c_atoi xs i =
    (let ys = dropWhile is_space (drop i xs);
         negative = (ys \<noteq> [] \<and> hd ys = asc CHR ''-'');
         ys = (if ys \<noteq> [] \<and> (hd ys = asc CHR ''-'' \<or> hd ys = asc CHR ''+'') then tl ys else ys);
         n = foldl (\<lambda>n b. 10 * n + (uint b - 0x30)) 0 (takeWhile is_digit ys) in
     if negative then - n else n)"

text \<open>The name, or the command a caller has already parsed in the other form, is parsed.\<close>

definition open_parse ::
  "ambient \<Rightarrow> buffer option \<Rightarrow> nat \<Rightarrow> nat \<Rightarrow> cbmdos_cmd_parse option \<Rightarrow> (int \<times> nat \<times> cbmdos_cmd_parse_plus) option" where
  "open_parse u name len ch ext =
    (let cp = (u_cmd u)\<lparr>pmode := 2, drive := -1\<rparr> in
     case ext of
       None \<Rightarrow>
         (case cbmdos_command_parse_plus (cp\<lparr>full := name, fulllength := len, secondary := ch\<rparr>) of
            None \<Rightarrow> None | Some (rc, cp) \<Rightarrow> Some (rc, ch, cp))
     | Some e \<Rightarrow>
         (case cbmdos_command_parse_plus (cp\<lparr>full := parsecmd e, fulllength := parselength e\<rparr>) of
            None \<Rightarrow> None
          | Some (rc, cp) \<Rightarrow>
              if rc \<noteq> CBMDOS_IPE_OK then Some (rc, ch, cp)
              else Some (rc, cp_secondary e,
                cp\<lparr>preadmode := cp_readmode e, filetype := cp_filetype e, recordlength := cp_recordlength e\<rparr>)))"

text \<open>
  The drive or partition a name stands for: a listing without a number is that of the current
  one of the listings, and a 1541 ignores the number.
\<close>

definition first_char :: "cbmdos_cmd_parse_plus \<Rightarrow> char \<Rightarrow> bool" where
  "first_char cp c = (command cp \<noteq> None \<and> the (command cp) ! 0 = asc c)"

definition choose_drive :: "vdrive \<Rightarrow> cbmdos_cmd_parse_plus \<Rightarrow> int \<times> vdrive" where
  "choose_drive v cp =
    (let v = v\<lparr>dir_count := 1\<rparr> in
     if first_char cp CHR ''$'' then
       if drive cp < 0 then
         if haspt v then (0, v)
         else (dir_part v, if filelength cp = 0 \<and> colon cp = 0 then v\<lparr>dir_count := 1\<rparr> else v)
       else (drive cp, v\<lparr>dir_part := drive cp\<rparr>)
     else (if drive cp < 0 then 0 else drive cp, v))"

text \<open>The search for an entry that is not deleted.\<close>

partial_function (option) search_slot ::
  "buffer \<Rightarrow> vdrive \<Rightarrow> vdrive_dir_context \<Rightarrow> (buffer option \<times> vdrive \<times> vdrive_dir_context) option" where [code]:
  "search_slot tmp v d =
    (case vdrive_dir_find_next_slot v tmp d of
       None \<Rightarrow> None
     | Some (res, v, d) \<Rightarrow>
         if res \<noteq> None \<and> unat (the res ! SLOT_TYPE_OFFSET AND 0x07) = CBMDOS_FT_DEL then search_slot tmp v d
         else Some (res, v, d))"

text \<open>
  A file: the entry is looked up, and the file opened by its type and the mode. \<open>ch\<close> is the
  channel of the call, \<open>sec\<close> that of the parsed command.
\<close>

definition open_file ::
  "ambient \<Rightarrow> vdrive \<Rightarrow> nat \<Rightarrow> nat \<Rightarrow> cbmdos_cmd_parse_plus \<Rightarrow> (int \<times> vdrive) option" where
  "open_file u v ch sec cp =
    (let cp = cp\<lparr>filelength := min (filelength cp) 16\<rparr>;
         opentype = (if preadmode cp = CBMDOS_FAM_READ \<or> preadmode cp = CBMDOS_FAM_APPEND then filetype cp else CBMDOS_FT_DEL) in
     case vdrive_dir_find_first_slot v (the (pfile cp)) (int (filelength cp)) opentype (dir (chan v ch)) of
       (v, d) \<Rightarrow>
         (case search_slot (u_tmp u) v d of
            None \<Rightarrow> None
          | Some (slot, v, d) \<Rightarrow>
              let v = upd_chan ch (\<lambda>p. p\<lparr>dir := d, readmode := preadmode cp, bslot := slot\<rparr>) v in
              if filetype cp = CBMDOS_FT_REL \<or>
                 (slot \<noteq> None \<and> unat (the slot ! SLOT_TYPE_OFFSET AND 0x07) = CBMDOS_FT_REL) then
                if slot \<noteq> None \<and> recordlength cp > 0 \<and> unat (the slot ! SLOT_RECORD_LENGTH) \<noteq> recordlength cp
                then Some (SERIAL_ERROR, snd (vdrive_command_set_error v CBMDOS_IPE_NO_RECORD 0 0))
                else
                  let cp = (if slot \<noteq> None then cp\<lparr>recordlength := unat (the slot ! SLOT_RECORD_LENGTH)\<rparr> else cp) in
                  vdrive_rel_open (u_junk u) (u_tmp u) (u_mem u) (u_mem1 u) (u_mem2 u) v sec cp
              else if preadmode cp = CBMDOS_FAM_READ then iec_open_read u v sec
              else iec_open_write u v sec cp))"

text \<open>A file, the directory, or on a 1541 the file that was loaded last, after the path is walked.\<close>

definition open_on_disk ::
  "ambient \<Rightarrow> vdrive \<Rightarrow> buffer option \<Rightarrow> nat \<Rightarrow> nat \<Rightarrow> nat \<Rightarrow> cbmdos_cmd_parse_plus \<Rightarrow> (int \<times> vdrive) option" where
  "open_on_disk u v name len ch sec cp =
    (case vdrive_command_switchtraverse u (upd_chan ch (\<lambda>p. p\<lparr>needsupdate := 0\<rparr>) v) cp of
       None \<Rightarrow> None
     | Some (status, v, cp) \<Rightarrow>
         if status \<noteq> 0 then Some (SERIAL_ERROR, v)
         else
           let v = (if image_format v = FORMAT_1581
                    then upd_chan ch (\<lambda>p. p\<lparr>partstart := Part_Start v, partend := Part_End v\<rparr>) v else v) in
           if VDRIVE_IS_1541 v \<and> preadmode cp = CBMDOS_FAM_READ \<and> len = 1 \<and> the name ! 0 = asc CHR ''*'' \<and> ram v ! 0x7e > 0 then
             iec_open_read_sequential (u_junk u) (u_tmp u) (u_buf u) (u_t0 u) (u_now u)
               (upd_chan ch (\<lambda>p. p\<lparr>readmode := CBMDOS_FAM_READ\<rparr>) v) sec (unat (ram v ! 0x7e)) (unat (ram v ! 0x26f))
           else if first_char cp CHR ''$'' then
             iec_open_read_directory u (upd_chan ch (\<lambda>p. p\<lparr>readmode := CBMDOS_FAM_READ\<rparr>) v) sec cp
           else open_file u v ch sec cp)"

definition open_parsed ::
  "ambient \<Rightarrow> vdrive \<Rightarrow> buffer option \<Rightarrow> nat \<Rightarrow> nat \<Rightarrow> nat \<Rightarrow> cbmdos_cmd_parse_plus \<Rightarrow> (int \<times> vdrive) option" where
  "open_parsed u v name len ch sec cp =
    (if haspt v \<and> command cp \<noteq> None \<and> commandlength cp > 2 \<and> the (command cp) ! 1 = asc CHR ''='' \<and>
        the (command cp) ! 2 = asc CHR ''P'' then
       iec_open_read_directory u (upd_chan ch (\<lambda>p. p\<lparr>readmode := CBMDOS_FAM_READ\<rparr>) v) sec cp
     else
       case choose_drive v cp of
         (dr, v) \<Rightarrow>
           if dr = 255 then Some (SERIAL_ERROR, v)
           else
             let cp = cp\<lparr>drive := (if dr \<noteq> 0 \<and> VDRIVE_IS_1541 v then 0 else dr)\<rparr> in
             case vdrive_ispartvalid v (u_tmp u) (drive cp) of
               (valid, v) \<Rightarrow>
                 if valid = 0 then
                   Some (SERIAL_ERROR, snd (vdrive_command_set_error v CBMDOS_IPE_NOT_READY (Header_Track v) (Header_Sector v)))
                 else
                   let v = upd_chan ch (\<lambda>p. p\<lparr>bpartition := c_unsigned (vdrive_realpart v (drive cp))\<rparr>) v in
                   if first_char cp CHR ''#'' then
                     let num = (if the (command cp) ! 1 \<noteq> 0 then c_atoi (the (command cp)) 1 else -1) in
                     Some (SERIAL_OK,
                       upd_chan ch (\<lambda>p. (vdrive_alloc_buffer p num BUFFER_MEMORY_BUFFER)\<lparr>bufptr := 1, buf_length := 256\<rparr>) v)
                   else open_on_disk u v name len ch sec cp)"

definition vdrive_iec_open ::
  "ambient \<Rightarrow> vdrive \<Rightarrow> buffer option \<Rightarrow> nat \<Rightarrow> nat \<Rightarrow> cbmdos_cmd_parse option \<Rightarrow> (int \<times> vdrive) option" where
  "vdrive_iec_open u v name len ch ext =
    (let len = (if VDRIVE_IS_1541 v \<and> len > 1 \<and> the name ! (len - 1) = 13 then len - 1 else len);
         no_name = (case ext of None \<Rightarrow> name = None | Some e \<Rightarrow> parsecmd e = None \<or> the (parsecmd e) ! 0 = 0) in
     if no_name \<and> mode (chan v ch) \<noteq> BUFFER_COMMAND_CHANNEL then Some (SERIAL_NO_DEVICE, v)
     else
       let v = upd_chan ch (\<lambda>p. p\<lparr>bsmall := 0\<rparr>) v in
       if mode (chan v ch) = BUFFER_COMMAND_CHANNEL then open_command_channel u v name len ch
       else
         let v = snd (vdrive_command_set_error v CBMDOS_IPE_OK 0 0) in
         if mode (chan v ch) \<noteq> BUFFER_NOT_IN_USE then
           Some (SERIAL_ERROR, snd (vdrive_command_set_error v CBMDOS_IPE_NO_CHANNEL 0 0))
         else
           case open_parse u name len ch ext of
             None \<Rightarrow> None
           | Some (rc, sec, cp) \<Rightarrow>
               if rc \<noteq> CBMDOS_IPE_OK then Some (SERIAL_ERROR, v)
               else if ext = None \<and> filelength cp = 0 \<and> command cp = None then
                 Some (SERIAL_ERROR, snd (vdrive_command_set_error v CBMDOS_IPE_NO_NAME 0 0))
               else open_parsed u v name len ch sec cp)"

end
