(* ===== verification/CommandBlock.thy ===== *)
theory CommandBlock
  imports Iec
begin

text \<open>
  Commands on blocks and on the drive's memory (\<^verbatim>\<open>lib/vdrive/vdrive-command.c\<close>): \<open>U1\<close>, \<open>U2\<close>, \<open>B-R\<close>,
  \<open>B-W\<close>, \<open>B-A\<close>, \<open>B-F\<close>, \<open>B-P\<close>, \<open>M-R\<close>, \<open>M-W\<close> and \<open>M-E\<close>. Channels, tracks and sectors are numbers of
  the command that the code does not check: a channel above 15 lies outside the array of
  channels.
\<close>

abbreviation (input) "CBMDOS_IPE_SEL_PARTN \<equiv> 2 :: int"
abbreviation (input) "CBMDOS_IPE_MEMORY_READ \<equiv> 4 :: int"
abbreviation (input) "CBMDOS_IPE_SYNTAX \<equiv> 30 :: int"
abbreviation (input) "CBMDOS_IPE_LONG_LINE \<equiv> 32 :: int"
abbreviation (input) "CBMDOS_IPE_DIRECTORY_ERROR \<equiv> 71 :: int"
abbreviation (input) "CBMDOS_IPE_FORMAT_ERROR \<equiv> 75 :: int"
abbreviation (input) "CBMDOS_IPE_BAD_PARTN \<equiv> 77 :: int"
abbreviation (input) "CBMDOS_IPE_MEMEXE_NOT_SUPPORTED \<equiv> 99 :: int"

subsection \<open>Parameters\<close>

text \<open>
  A C string is a list of bytes; its end, or a zero in it, is the terminator. \<open>strtol\<close> is the
  C library's, for base 10 and a \<open>long\<close> of 32 bits: it saturates, and without digits it returns
  0 and consumes nothing.
\<close>

definition c_char :: "buffer \<Rightarrow> byte" where
  "c_char xs = (if xs = [] then 0 else hd xs)"

definition strtol :: "buffer \<Rightarrow> int \<times> buffer" where
  "strtol xs =
    (let ys = dropWhile is_space xs;
         negative = (c_char ys = asc CHR ''-'');
         ys = (if negative \<or> c_char ys = asc CHR ''+'' then tl ys else ys);
         ds = takeWhile is_digit ys;
         n = foldl (\<lambda>n b. 10 * n + (uint b - 0x30)) 0 ds;
         n = (if negative then max (- n) (- (2 ^ 31)) else min n (2 ^ 31 - 1)) in
     if ds = [] then (0, xs) else (n, drop (length ds) ys))"

definition is_separator :: "byte \<Rightarrow> bool" where
  "is_separator b = (b \<in> {asc CHR '' '', asc CHR '')'', asc CHR '','', asc CHR ''#'', 0x1d})"

definition is_alnum :: "byte \<Rightarrow> bool" where
  "is_alnum b = (is_digit b \<or> b \<ge> 0x41 \<and> b \<le> 0x5a \<or> b \<ge> 0x61 \<and> b \<le> 0x7a)"

primrec block_numbers :: "nat \<Rightarrow> buffer \<Rightarrow> int list \<times> buffer" where
  "block_numbers 0 xs = ([], xs)"
| "block_numbers (Suc n) xs =
    (let xs = dropWhile is_separator xs in
     if c_char xs = 0 then ([], xs)
     else case strtol xs of (k, xs) \<Rightarrow> (case block_numbers n xs of (ks, xs) \<Rightarrow> (k # ks, xs)))"

definition vdrive_command_get_block_parameters :: "buffer \<Rightarrow> int \<times> int list" where
  "vdrive_command_get_block_parameters xs =
    (case block_numbers 4 xs of
       (ks, xs) \<Rightarrow> (if is_alnum (c_char xs) \<and> length ks = 4 then CBMDOS_IPE_SYNTAX else - int (length ks), ks))"

text \<open>The parameters that are missing stay at their default 0.\<close>

definition param :: "int list \<Rightarrow> nat \<Rightarrow> int" where
  "param ks i = (if i < length ks then ks ! i else 0)"

subsection \<open>Direct access to blocks\<close>

text \<open>
  The drive of the command must be 0 on a CMD disk, where the partition is that of the buffer.
\<close>

definition direct_drive :: "vdrive \<Rightarrow> nat \<Rightarrow> int \<Rightarrow> int option" where
  "direct_drive v ch dr = (if haspt v then if dr \<noteq> 0 then None else Some (c_int (bpartition (chan v ch))) else Some dr)"

definition u1_read :: "vdrive \<Rightarrow> nat \<Rightarrow> int \<Rightarrow> int \<Rightarrow> int \<times> int \<times> int \<times> vdrive" where
  "u1_read v ch t s =
    (case vdrive_read_sector v (chan_buf v ch) (c_unsigned t) (c_unsigned s) of
       (status, v, b) \<Rightarrow>
         let v = buffer_store v ch b in
         if status < 0 then (CBMDOS_IPE_NOT_READY, 0, 0, v)
         else
           let v = upd_chan ch (\<lambda>p. p\<lparr>buf_length := 256, readmode := CBMDOS_FAM_READ, bufptr := (if status = 0 then 0 else 1)\<rparr>) v in
           (status, t, s,
            if status = 23 then v\<lparr>mem_buf_next_byte_override := (if bufnum (chan v ch) < 0 then 2 else bufnum (chan v ch))\<rparr>
            else v))"

definition u2_write :: "vdrive \<Rightarrow> nat \<Rightarrow> int \<Rightarrow> int \<Rightarrow> int \<times> int \<times> int \<times> vdrive" where
  "u2_write v ch t s =
    (case vdrive_write_sector v (chan_buf v ch) (c_unsigned t) (c_unsigned s) of
       (status, v) \<Rightarrow> (read_status status, t, s, v))"

text \<open>The letter of the command: a 1581 also knows \<open>U-R\<close> and \<open>U-W\<close>.\<close>

definition u_letter :: "cbmdos_cmd_parse_plus \<Rightarrow> byte option" where
  "u_letter cp =
    (let ab = (if abbrvlength cp = 0 then [] else the (abbrv cp)) in
     if abbrvlength cp > 2 \<and> ab ! 0 = asc CHR ''U'' \<and> ab ! 1 = asc CHR ''-'' then
       if ab ! 2 = 0xd2 then Some (asc CHR ''1'') else if ab ! 2 = 0xd7 then Some (asc CHR ''2'') else None
     else Some (the (command cp) ! 1))"

text \<open>Status, track and sector to report, and the partition to return to.\<close>

definition direct_block ::
  "ambient \<Rightarrow> vdrive \<Rightarrow> byte \<Rightarrow> int list \<Rightarrow> int \<times> int \<times> int \<times> int \<times> vdrive" where
  "direct_block u v letter ks =
    (let ch = ix (param ks 0); t = param ks 2; s = param ks 3 in
     if mode (chan v ch) \<noteq> BUFFER_MEMORY_BUFFER then (CBMDOS_IPE_NO_CHANNEL, 0, 0, -1, v)
     else case direct_drive v ch (param ks 1) of
       None \<Rightarrow> (CBMDOS_IPE_NOT_READY, 0, 0, -1, v)
     | Some dr \<Rightarrow>
         let origpart = current_part v in
         case vdrive_command_switch (u_junk u) (u_tmp u) v dr of
           (st, v) \<Rightarrow>
             if st \<noteq> 0 then (CBMDOS_IPE_NOT_READY, 0, 0, origpart, v)
             else if letter = asc CHR ''2'' \<or> letter = asc CHR ''B'' then
               (case u2_write v ch t s of (status, t, s, v) \<Rightarrow> (status, t, s, origpart, v))
             else if letter = asc CHR ''1'' \<or> letter = asc CHR ''A'' then
               (case u1_read v ch t s of (status, t, s, v) \<Rightarrow> (status, t, s, origpart, v))
             else (CBMDOS_IPE_NOT_READY, t, s, origpart, v))"

definition vdrive_command_u1a2b :: "ambient \<Rightarrow> vdrive \<Rightarrow> cbmdos_cmd_parse_plus \<Rightarrow> int \<times> vdrive" where
  "vdrive_command_u1a2b u v cp =
    (case (case u_letter cp of
             None \<Rightarrow> (CBMDOS_IPE_SYNTAX, 0, 0, -1, v)
           | Some letter \<Rightarrow>
               if commandlength cp > 1 \<and> filelength cp > 5 then
                 (case vdrive_command_get_block_parameters (the (pfile cp)) of
                    (rc, ks) \<Rightarrow> if rc < 0 then direct_block u v letter ks else (rc, 0, 0, -1, v))
               else (CBMDOS_IPE_SYNTAX, 0, 0, -1, v)) of
       (status, t, s, origpart, v) \<Rightarrow>
         let v = (vdrive_command_return (u_tmp u) v origpart)\<lparr>last_code := CBMDOS_IPE_OK\<rparr> in
         if status = 0 then vdrive_command_set_error v status 0 0
         else vdrive_command_set_error v status (c_unsigned t) (c_unsigned s))"

text \<open>
  \<open>B-R\<close> and \<open>B-W\<close> keep the length of the data in the block's first byte. The first component of
  the results is the status, then the track and the sector to report.
\<close>

definition block_write :: "vdrive \<Rightarrow> nat \<Rightarrow> int \<Rightarrow> int \<Rightarrow> int \<times> int \<times> int \<times> vdrive" where
  "block_write v ch t s =
    (let l = c_int (c_unsigned (int (bufptr (chan v ch)) - 1));
         v = buffer_store v ch ((chan_buf v ch)[0 := if l < 1 then 1 else of_int l]) in
     case vdrive_write_sector v (chan_buf v ch) (c_unsigned t) (c_unsigned s) of
       (status, v) \<Rightarrow>
         if status \<noteq> 0 then (read_status status, 0, 0, v)
         else (0, 0, 0, upd_chan ch (\<lambda>p. p\<lparr>bufptr := 1\<rparr>) v))"

definition block_read :: "vdrive \<Rightarrow> nat \<Rightarrow> int \<Rightarrow> int \<Rightarrow> int \<times> int \<times> int \<times> vdrive" where
  "block_read v ch t s =
    (case vdrive_read_sector v (chan_buf v ch) (c_unsigned t) (c_unsigned s) of
       (status, v, b) \<Rightarrow>
         let v = buffer_store v ch b in
         if status \<noteq> 0 then (read_status status, t, s, v)
         else (0, 0, 0, upd_chan ch (\<lambda>p. p\<lparr>buf_length := unat (chan_buf v ch ! 0) + 1, bufptr := 1\<rparr>) v))"

definition block_transfer :: "ambient \<Rightarrow> vdrive \<Rightarrow> byte \<Rightarrow> int list \<Rightarrow> int \<times> int \<times> int \<times> int \<times> vdrive" where
  "block_transfer u v letter ks =
    (let ch = ix (param ks 0); t = param ks 2; s = param ks 3 in
     if mode (chan v ch) \<noteq> BUFFER_MEMORY_BUFFER then (CBMDOS_IPE_NO_CHANNEL, 0, 0, -1, v)
     else case direct_drive v ch (param ks 1) of
       None \<Rightarrow> (CBMDOS_IPE_NOT_READY, 0, 0, -1, v)
     | Some dr \<Rightarrow>
         let origpart = current_part v in
         case vdrive_command_switch (u_junk u) (u_tmp u) v dr of
           (st, v) \<Rightarrow>
             if st \<noteq> 0 then (CBMDOS_IPE_NOT_READY, 0, 0, origpart, v)
             else case (if letter = asc CHR ''W'' then block_write v ch t s else block_read v ch t s) of
               (status, t, s, v) \<Rightarrow> (status, t, s, origpart, v))"

text \<open>
  \<open>B-A\<close> and \<open>B-F\<close>. If the sector to allocate is not free, the next free one is reported. The channel
  is the fourth parameter here, 0 if it is missing.
\<close>

definition block_suggest :: "vdrive \<Rightarrow> nat \<Rightarrow> nat \<Rightarrow> nat \<times> nat \<times> vdrive" where
  "block_suggest v t s =
    (case vdrive_bam_alloc_next_free_sector v t s of
       (r, v, t, s) \<Rightarrow> if r \<ge> 0 then (t, s, snd (vdrive_bam_free_sector v t s)) else (0, 0, v))"

definition block_allocate :: "ambient \<Rightarrow> vdrive \<Rightarrow> byte \<Rightarrow> int list \<Rightarrow> int \<times> int \<times> int \<times> int \<times> vdrive" where
  "block_allocate u v letter ks =
    (let t = c_unsigned (param ks 1); s = c_unsigned (param ks 2) in
     case direct_drive v (ix (param ks 3)) (param ks 0) of
       None \<Rightarrow> (CBMDOS_IPE_NOT_READY, 0, 0, -1, v)
     | Some dr \<Rightarrow>
         let origpart = current_part v in
         case vdrive_command_switch (u_junk u) (u_tmp u) v dr of
           (st, v) \<Rightarrow>
             if st \<noteq> 0 then (CBMDOS_IPE_NOT_READY, 0, 0, origpart, v)
             else if letter = asc CHR ''A'' then
               (case vdrive_bam_allocate_sector v t s of
                  (r, v) \<Rightarrow>
                    if r = 0 then
                      (case block_suggest v t s of
                         (t, s, v) \<Rightarrow> (CBMDOS_IPE_NO_BLOCK, int t, int s, origpart, v))
                    else (CBMDOS_IPE_OK, 0, 0, origpart, snd (vdrive_bam_write_bam v)))
             else (CBMDOS_IPE_OK, 0, 0, origpart, snd (vdrive_bam_write_bam (snd (vdrive_bam_free_sector v t s)))))"

definition block_pointer :: "vdrive \<Rightarrow> int list \<Rightarrow> int \<times> vdrive" where
  "block_pointer v ks =
    (let ch = ix (param ks 0) in
     if mode (chan v ch) \<noteq> BUFFER_MEMORY_BUFFER then (CBMDOS_IPE_NO_CHANNEL, v)
     else (CBMDOS_IPE_OK, upd_chan ch (\<lambda>p. p\<lparr>bufptr := c_unsigned (param ks 1)\<rparr>) v))"

text \<open>Without parameters the code reads them through a null pointer.\<close>

definition vdrive_command_block :: "ambient \<Rightarrow> vdrive \<Rightarrow> cbmdos_cmd_parse_plus \<Rightarrow> (int \<times> vdrive) option" where
  "vdrive_command_block u v cp =
    (let letter = the (abbrv cp) ! 2;
         params = (case pfile cp of None \<Rightarrow> None | Some xs \<Rightarrow> Some (vdrive_command_get_block_parameters xs));
         finish = (\<lambda>(status, t, s, origpart, v).
           Some (vdrive_command_set_error (vdrive_command_return (u_tmp u) v origpart) status (c_unsigned t) (c_unsigned s))) in
     if letter = asc CHR ''R'' \<or> letter = asc CHR ''W'' then
       (case params of
          None \<Rightarrow> None
        | Some (l, ks) \<Rightarrow> finish (if l < 0 then block_transfer u v letter ks else (l, 0, 0, -1, v)))
     else if letter = asc CHR ''A'' \<or> letter = asc CHR ''F'' then
       if VDRIVE_IS_READONLY v then finish (CBMDOS_IPE_WRITE_PROTECT_ON, 0, 0, -1, v)
       else (case params of
          None \<Rightarrow> None
        | Some (l, ks) \<Rightarrow> finish (if l > 0 then (l, 0, 0, -1, v) else block_allocate u v letter ks))
     else if letter = asc CHR ''P'' then
       (case params of
          None \<Rightarrow> None
        | Some (l, ks) \<Rightarrow>
            finish (if l > 0 then (l, 0, 0, -1, v) else case block_pointer v ks of (st, v) \<Rightarrow> (st, 0, 0, -1, v)))
     else if letter = asc CHR ''E'' then finish (CBMDOS_IPE_MEMEXE_NOT_SUPPORTED, 0, 0, -1, v)
     else finish (CBMDOS_IPE_INVAL, 0, 0, -1, v))"

subsection \<open>Memory\<close>

text \<open>
  The first bytes of the job queue, of the tracks and sectors of the jobs, and the number of
  jobs, by the type of the image.
\<close>

definition job_queue :: "disk_image_type \<Rightarrow> nat \<times> nat \<times> nat" where
  "job_queue ty =
    (if ty \<in> {P64, G64, D64, D71, G71} then (0, 6, 5)
     else if ty = D81 then (2, 0xb, 9)
     else if ty \<in> {D1M, D2M, D4M} then (0x28, 0x2800, 32)
     else if ty = DHD then (0x20, 0x2800, 32)
     else (0, 0, 0))"

text \<open>The disk id in the header of a sector (\<^verbatim>\<open>fsimage.c\<close>, \<^verbatim>\<open>diskimage.c\<close>); a D64 has it in the BAM only.\<close>

definition fsimage_read_sector_id ::
  "(disk_image \<Rightarrow> nat \<Rightarrow> nat \<Rightarrow> int \<times> nat) \<Rightarrow> buffer \<Rightarrow> disk_image \<Rightarrow> byte \<times> byte \<Rightarrow> disk_addr \<Rightarrow> int \<times> byte \<times> byte" where
  "fsimage_read_sector_id gcr_id b img i dadr =
    (if media img = None \<or> fd (the (media img)) = None then (CBMDOS_IPE_NOT_READY, i)
     else if itype img = D64 then
       (case fsimage_dxx_read_sector img b \<lparr>da_track = 18, da_sector = 0\<rparr> of (res, b) \<Rightarrow> (res, b ! 162, b ! 163))
     else if itype img \<in> {G64, G71} then
       (case gcr_id img (da_track dadr) (da_sector dadr) of (res, k) \<Rightarrow> (res, of_nat (k mod 256), of_nat (k div 256)))
     else (CBMDOS_IPE_NOT_READY, i))"

definition disk_image_read_sector_id ::
  "(disk_image \<Rightarrow> nat \<Rightarrow> nat \<Rightarrow> int \<times> nat) \<Rightarrow> buffer \<Rightarrow> disk_image \<Rightarrow> byte \<times> byte \<Rightarrow> disk_addr \<Rightarrow> int \<times> byte \<times> byte" where
  "disk_image_read_sector_id gcr_id b img i dadr =
    (case device img of DEVICE_FS \<Rightarrow> fsimage_read_sector_id gcr_id b img i dadr | _ \<Rightarrow> (-1, i))"

text \<open>
  One job of the queue: reading or writing a sector between the disk and its page of memory,
  or reading a sector's header. \<open>ts\<close> is where its track and sector are.
\<close>

definition run_job :: "ambient \<Rightarrow> nat \<Rightarrow> nat \<Rightarrow> nat \<Rightarrow> vdrive \<Rightarrow> vdrive" where
  "run_job u q ts page v =
    (let job = ram v ! q; at = (\<lambda>v i. unat (ram v ! i));
         finish = (\<lambda>res v. v\<lparr>ram := (ram v)[q := of_nat (cbmdos_error_to_fdc_error res)]\<rparr>);
         enter = (\<lambda>v. snd (vdrive_switch (u_junk u) (u_tmp u) v (selected_part v))) in
     if job = 0x80 then
       (let v = enter v in
        case vdrive_read_sector v (slice (ram v) page 256) (at v ts) (at v (ts + 1)) of
          (res, v, b) \<Rightarrow> finish res (v\<lparr>ram := write_at (ram v) page b\<rparr>))
     else if job = 0x90 then
       if VDRIVE_IS_READONLY v then v\<lparr>ram := (ram v)[q := 8]\<rparr>
       else
         (let v = enter v in
          case vdrive_write_sector v (slice (ram v) page 256) (at v ts) (at v (ts + 1)) of (res, v) \<Rightarrow> finish res v)
     else if job = 0xb0 then
       (case disk_image_read_sector_id (u_gcr_id u) (u_buf u) (cur_image v) (0, 0) \<lparr>da_track = at v ts, da_sector = at v (ts + 1)\<rparr> of
          (res, i0, i1) \<Rightarrow>
            let v = finish res v in
            if res = CBMDOS_IPE_OK then v\<lparr>ram := (ram v)[0x16 := i0, 0x12 := i0, 0x17 := i1, 0x13 := i1]\<rparr> else v)
     else if job \<in> {0xa0, 0xb8, 0x82, 0x86, 0x88, 0x8a, 0x8c} then v\<lparr>ram := (ram v)[q := 0]\<rparr>
     else if job = 0x84 then v\<lparr>ram := (ram v)[q := 1]\<rparr>
     else v)"

fun run_jobs :: "ambient \<Rightarrow> nat \<Rightarrow> nat \<Rightarrow> nat list \<Rightarrow> vdrive \<Rightarrow> vdrive" where
  "run_jobs u jobs ts [] v = v"
| "run_jobs u jobs ts (i # is') v =
    run_jobs u jobs ts is'
      (if ram v ! (jobs + i) \<ge> 0x80 then run_job u (jobs + i) (ts + 2 * i) (0x300 + 256 * i) v else v)"

text \<open>
  \<open>b\<close> are the bytes of the command behind the address. They are stored below the end of the
  memory; then the jobs of a write near the job queue run.
\<close>

definition vdrive_command_memory_write :: "ambient \<Rightarrow> vdrive \<Rightarrow> buffer \<Rightarrow> nat \<Rightarrow> nat \<Rightarrow> int \<times> vdrive" where
  "vdrive_command_memory_write u v b addr length' =
    (let len = unat (b ! 0); ok = (\<lambda>v. vdrive_command_set_error v CBMDOS_IPE_OK 0 0) in
     if len + 1 > length' - 5 then vdrive_command_set_error v CBMDOS_IPE_SYNTAX 0 0
     else if addr \<ge> 0x8000 then ok v
     else
       let n = min len (DRIVE_RAMSIZE - addr);
           v = (if n > 0 then v\<lparr>ram := write_at (ram v) addr (slice b 1 n)\<rparr> else v) in
       if \<not> VDRIVE_IS_FD v \<and> \<not> VDRIVE_IS_1541 v then ok v
       else
         case job_queue (itype (cur_image v)) of
           (jobs, ts, maxjobs) \<Rightarrow>
             let near = (\<lambda>a. a \<ge> jobs \<and> a < jobs + maxjobs) in
             if near addr \<or> near (addr + len) then ok (run_jobs u jobs ts [0..<maxjobs] v) else ok v)"

definition vdrive_command_memory_exec :: "vdrive \<Rightarrow> nat \<Rightarrow> int \<times> vdrive" where
  "vdrive_command_memory_exec v length' =
    (if length' < 5 then vdrive_command_set_error v CBMDOS_IPE_SYNTAX 0 0
     else vdrive_command_set_error v CBMDOS_IPE_MEMEXE_NOT_SUPPORTED 0 0)"

text \<open>What a 1541 has at an address: its memory, or the parts of its ROM that identify it.\<close>

definition rom_1541 :: "nat \<Rightarrow> byte" where
  "rom_1541 a =
    (if a \<ge> 0xe5b7 \<and> a < 0xe5c8 then (0xc3 # map of_char ''BM DOS V2.6 154'' @ [0xb1]) ! (a - 0xe5b7)
     else if a = 0xfea0 then 0x0d else if a = 0xfffd then 0xea else if a = 0xfffe then 0x67
     else if a = 0xffff then 0xfe else 0xff)"

definition memory_1541 :: "vdrive \<Rightarrow> nat \<Rightarrow> byte" where
  "memory_1541 v a = (if a mod 65536 < DRIVE_RAMSIZE then ram v ! (a mod 65536) else rom_1541 (a mod 65536))"

definition count_free_blocks :: "nat \<Rightarrow> nat \<Rightarrow> vdrive \<Rightarrow> vdrive" where
  "count_free_blocks addr len v =
    (if addr \<le> 0x2fa \<and> addr + len \<ge> 0x2fa \<or> addr \<le> 0x2fb \<and> addr + len \<ge> 0x2fb then
       (case vdrive_bam_free_block_count v of
          (blocks, v) \<Rightarrow> v\<lparr>ram := (ram v)[0x2fa := of_nat blocks, 0x2fc := of_nat (blocks div 256)]\<rparr>)
     else v)"

text \<open>The bytes are left in the buffer of the command channel, with a carriage return if there is room.\<close>

definition answer :: "vdrive \<Rightarrow> buffer \<Rightarrow> vdrive" where
  "answer v bytes =
    upd_chan 15 (\<lambda>p. p\<lparr>buf_length := length bytes - 1, bufptr := 0, readmode := CBMDOS_FAM_READ\<rparr>) (buffer_store v 15 bytes)"

definition vdrive_command_memory_read :: "vdrive \<Rightarrow> buffer \<Rightarrow> nat \<Rightarrow> nat \<Rightarrow> int \<times> vdrive" where
  "vdrive_command_memory_read v b addr length' =
    (let len = (if length' < 6 then 1 else unat (b ! 0)) in
     if length' < 5 then vdrive_command_set_error v CBMDOS_IPE_SYNTAX 0 0
     else if VDRIVE_IS_FD v \<and> addr = 0xfea0 \<and> len = 6 then (CBMDOS_IPE_MEMORY_READ, answer v (map of_char ''CMD FD''))
     else if VDRIVE_IS_FD v \<and> addr = 0xfef0 \<and> len = 1 then
       (CBMDOS_IPE_MEMORY_READ, answer v [if itype (cur_image v) \<in> {D1M, D2M} then asc CHR ''2'' else asc CHR ''4''])
     else
       let len = (if len = 0 then 256 else len);
           v = (if VDRIVE_IS_1541 v then count_free_blocks addr len v else v);
           bytes = (if VDRIVE_IS_1541 v then map (memory_1541 v) [addr..<addr + len]
                    else map (\<lambda>a. if a < DRIVE_RAMSIZE then ram v ! a else 0xff) [addr..<addr + len]) in
       (CBMDOS_IPE_MEMORY_READ, answer v (if len < 256 then bytes @ [13] else bytes)))"

definition vdrive_command_memory :: "ambient \<Rightarrow> vdrive \<Rightarrow> buffer \<Rightarrow> nat \<Rightarrow> int \<times> vdrive" where
  "vdrive_command_memory u v b length' =
    (if length' < 5 then vdrive_command_set_error v CBMDOS_IPE_SYNTAX 0 0
     else
       let addr = unat (b ! 3) + 256 * unat (b ! 4); letter = b ! 2 in
       if letter = asc CHR ''W'' then vdrive_command_memory_write u v (drop 5 b) addr length'
       else if letter = asc CHR ''R'' then vdrive_command_memory_read v (drop 5 b) addr length'
       else if letter = asc CHR ''E'' then vdrive_command_memory_exec v length'
       else vdrive_command_set_error v CBMDOS_IPE_INVAL 0 0)"

end
