(* ===== verification/CommandFile.thy ===== *)
theory CommandFile
  imports CommandBlock
begin

text \<open>
  Commands on directory entries (\<^verbatim>\<open>lib/vdrive/vdrive-command.c\<close>): renaming a file and the disk,
  locking, and scratching. Each switches to the partition of its name, walks the path, and
  returns to the partition it came from.
\<close>

abbreviation (input) "CBMDOS_FT_LOCKED \<equiv> 0x40 :: byte"
abbreviation (input) "CBMDOS_FT_CLOSED \<equiv> 0x80 :: byte"
abbreviation (input) "SLOT_GEOS_ITRACK \<equiv> 21 :: nat"
abbreviation (input) "SLOT_GEOS_ISECTOR \<equiv> 22 :: nat"
abbreviation (input) "SLOT_GEOS_STRUCT \<equiv> 23 :: nat"
abbreviation (input) "SLOT_GEOS_TYPE \<equiv> 24 :: nat"

text \<open>The first entry of a name, in a fresh search context.\<close>

definition find_entry ::
  "ambient \<Rightarrow> vdrive \<Rightarrow> buffer \<Rightarrow> nat \<Rightarrow> nat \<Rightarrow> (buffer option \<times> vdrive \<times> vdrive_dir_context) option" where
  "find_entry u v name len ty =
    (case vdrive_dir_find_first_slot v name (int len) ty (u_dir u) of (v, d) \<Rightarrow> vdrive_dir_find_next_slot v (u_tmp u) d)"

text \<open>A command that changes the disk: refused on a write-protected one, then on its path.\<close>

definition on_path ::
  "ambient \<Rightarrow> vdrive \<Rightarrow> cbmdos_cmd_parse_plus \<Rightarrow>
    (vdrive \<Rightarrow> cbmdos_cmd_parse_plus \<Rightarrow> (int \<times> vdrive) option) \<Rightarrow> (int \<times> vdrive) option" where
  "on_path u v cp body =
    (let origpart = current_part v;
         out = (\<lambda>r. case r of None \<Rightarrow> None | Some (st, v) \<Rightarrow> Some (st, vdrive_command_return (u_tmp u) v origpart)) in
     if VDRIVE_IS_READONLY v then out (Some (CBMDOS_IPE_WRITE_PROTECT_ON, v))
     else case vdrive_command_switchtraverse u v cp of
       None \<Rightarrow> None
     | Some (status, v, cp) \<Rightarrow> out (if status \<noteq> 0 then Some (status, v) else body v cp))"

text \<open>The sector of the directory is written back; only a negative status counts as an error.\<close>

definition write_entry :: "vdrive \<Rightarrow> vdrive_dir_context \<Rightarrow> int \<times> vdrive" where
  "write_entry v d =
    (case vdrive_write_sector v (dbuffer d) (dtrack d) (dsector d) of
       (st, v) \<Rightarrow> (if st < 0 then CBMDOS_IPE_WRITE_ERROR_VER else CBMDOS_IPE_OK, v))"

subsection \<open>Renaming\<close>

text \<open>The part of a command behind the equal sign is parsed as a command of its own.\<close>

definition parse_more :: "cbmdos_cmd_parse_plus \<Rightarrow> (int \<times> cbmdos_cmd_parse_plus) option" where
  "parse_more cp = cbmdos_command_parse_plus (cp\<lparr>full := pmore cp, fulllength := morelength cp\<rparr>)"

text \<open>The new name replaces the old one in the entry, with all its characters.\<close>

definition put_entry_name :: "vdrive_dir_context \<Rightarrow> buffer \<Rightarrow> vdrive_dir_context" where
  "put_entry_name d name =
    (let k = dslot d * 32 + SLOT_NAME_OFFSET in
     d\<lparr>dbuffer := write_at (memset (dbuffer d) k 0xa0 16) k name\<rparr>)"

definition new_name_syntax :: "cbmdos_cmd_parse_plus \<Rightarrow> bool" where
  "new_name_syntax cp =
    (morelength cp \<noteq> 0 \<and> the (pmore cp) ! 0 = asc CHR ''='' \<and>
     \<not> vdrive_haswildcard (the (pfile cp)) (filelength cp) \<and> \<not> vdrive_haswildcard (the (pmore cp)) (morelength cp))"

definition rename_entry :: "ambient \<Rightarrow> vdrive \<Rightarrow> cbmdos_cmd_parse_plus \<Rightarrow> (int \<times> vdrive) option" where
  "rename_entry u v cp =
    (if \<not> new_name_syntax cp then Some (CBMDOS_IPE_SYNTAX, v)
     else case find_entry u v (the (pfile cp)) (filelength cp) 0 of
       None \<Rightarrow> None
     | Some (res, v, d) \<Rightarrow>
         if res \<noteq> None then Some (CBMDOS_IPE_FILE_EXISTS, v)
         else
           let dest = (if filelength cp \<noteq> 0 then take (filelength cp) (the (pfile cp)) else [asc CHR ''='']) in
           (case parse_more cp of
              None \<Rightarrow> None
            | Some (rc, cp) \<Rightarrow>
                if rc \<noteq> 0 then Some (CBMDOS_IPE_SYNTAX, v)
                else
                  (case vdrive_dir_find_first_slot v (the (pfile cp)) (int (filelength cp)) 0 d of
                     (v, d) \<Rightarrow>
                       (case vdrive_dir_find_next_slot v (u_tmp u) d of
                          None \<Rightarrow> None
                        | Some (res, v, d) \<Rightarrow>
                            if res = None then Some (CBMDOS_IPE_NOT_FOUND, v)
                            else Some (write_entry v (put_entry_name d dest))))))"

definition vdrive_command_rename :: "ambient \<Rightarrow> vdrive \<Rightarrow> cbmdos_cmd_parse_plus \<Rightarrow> (int \<times> vdrive) option" where
  "vdrive_command_rename u v cp = on_path u v cp (rename_entry u)"

definition rename_header :: "ambient \<Rightarrow> vdrive \<Rightarrow> cbmdos_cmd_parse_plus \<Rightarrow> (int \<times> vdrive) option" where
  "rename_header u v cp =
    (if vdrive_haswildcard (the (pfile cp)) (filelength cp) then Some (CBMDOS_IPE_SYNTAX, v)
     else
       let v = snd (vdrive_bam_write_bam v) in
       case vdrive_read_sector v (u_buf u) (Header_Track v) (Header_Sector v) of
         (rc, v, b) \<Rightarrow>
           if rc \<noteq> 0 then Some (read_status rc, v)
           else
             let b = write_at (memset b (bam_name v) 0xa0 16) (bam_name v) (take (min 16 (filelength cp)) (the (pfile cp))) in
             case vdrive_write_sector v b (Header_Track v) (Header_Sector v) of
               (rc, v) \<Rightarrow>
                 if rc \<noteq> 0 then Some (read_status rc, v)
                 else Some (CBMDOS_IPE_OK, vdrive_bam_setup_bam (u_junk u) v))"

definition vdrive_command_renameheader :: "ambient \<Rightarrow> vdrive \<Rightarrow> cbmdos_cmd_parse_plus \<Rightarrow> (int \<times> vdrive) option" where
  "vdrive_command_renameheader u v cp = on_path u v cp (rename_header u)"

subsection \<open>Locking\<close>

definition toggle_lock :: "vdrive_dir_context \<Rightarrow> vdrive_dir_context" where
  "toggle_lock d =
    (let k = dslot d * 32 + SLOT_TYPE_OFFSET in
     d\<lparr>dbuffer := (dbuffer d)[k := dbuffer d ! k XOR CBMDOS_FT_LOCKED]\<rparr>)"

definition lock_entry :: "ambient \<Rightarrow> vdrive \<Rightarrow> cbmdos_cmd_parse_plus \<Rightarrow> (int \<times> vdrive) option" where
  "lock_entry u v cp =
    (if vdrive_haswildcard (the (pfile cp)) (filelength cp) then Some (CBMDOS_IPE_SYNTAX, v)
     else case find_entry u v (the (pfile cp)) (filelength cp) 0 of
       None \<Rightarrow> None
     | Some (res, v, d) \<Rightarrow>
         if res = None then Some (CBMDOS_IPE_NOT_FOUND, v) else Some (write_entry v (toggle_lock d)))"

definition vdrive_command_lockunlock :: "ambient \<Rightarrow> vdrive \<Rightarrow> cbmdos_cmd_parse_plus \<Rightarrow> (int \<times> vdrive) option" where
  "vdrive_command_lockunlock u v cp = on_path u v cp (lock_entry u)"

subsection \<open>Scratching\<close>

text \<open>
  The records of a GEOS file: pairs of track and sector from position 2 of the record block on.
  \<open>(0, 255)\<close> is an empty record and \<open>(0, 0)\<close> the end.
\<close>

fun geos_records :: "buffer \<Rightarrow> nat list \<Rightarrow> (nat \<times> nat) list" where
  "geos_records tmp [] = []"
| "geos_records tmp (l # ls) =
    (let t = unat (tmp ! (2 + l * 2)); s = unat (tmp ! (2 + l * 2 + 1)) in
     if t = 0 \<and> s = 255 then geos_records tmp ls
     else if t = 0 \<and> s = 0 then []
     else (t, s) # geos_records tmp ls)"

primrec free_chains :: "vdrive \<Rightarrow> buffer \<Rightarrow> (nat \<times> nat) list \<Rightarrow> vdrive option" where
  "free_chains v buf [] = Some v"
| "free_chains v buf (r # rs) =
    (case vdrive_dir_free_chain v buf (fst r) (snd r) of None \<Rightarrow> None | Some v \<Rightarrow> free_chains v buf rs)"

definition scratch_geos :: "ambient \<Rightarrow> vdrive \<Rightarrow> buffer \<Rightarrow> vdrive option" where
  "scratch_geos u v slot =
    (case vdrive_dir_free_chain v (u_buf u) (unat (slot ! SLOT_GEOS_ITRACK)) (unat (slot ! SLOT_GEOS_ISECTOR)) of
       None \<Rightarrow> None
     | Some v \<Rightarrow>
         if slot ! SLOT_GEOS_STRUCT = 1 then
           (case vdrive_read_sector v (u_tmp u) (unat (slot ! SLOT_FIRST_TRACK)) (unat (slot ! SLOT_FIRST_SECTOR)) of
              (_, v, tmp) \<Rightarrow> free_chains v (u_buf u) (geos_records tmp [0..<127]))
         else Some v)"

text \<open>The sectors of a 1581 partition, of which track 40 is left out.\<close>

fun free_range :: "vdrive \<Rightarrow> nat \<Rightarrow> nat \<Rightarrow> nat \<Rightarrow> vdrive" where
  "free_range v t s 0 = v"
| "free_range v t s (Suc l) =
    (if t > 80 then v
     else
       let v = (if t \<noteq> 40 then snd (vdrive_bam_free_sector v t s) else v) in
       if s + 1 > 39 then free_range v (t + 1) 0 l else free_range v t (s + 1) l)"

definition entry_blocks :: "buffer \<Rightarrow> nat" where
  "entry_blocks slot = unat (slot ! SLOT_NR_BLOCKS) OR push_bit 8 (unat (slot ! (SLOT_NR_BLOCKS + 1)))"

definition clear_entry_bytes :: "nat list \<Rightarrow> vdrive_dir_context \<Rightarrow> vdrive_dir_context" where
  "clear_entry_bytes ks d = d\<lparr>dbuffer := foldl (\<lambda>b k. b[dslot d * 32 + k := 0]) (dbuffer d) ks\<rparr>"

text \<open>One entry; directories and locked files stay.\<close>

definition scratch_entry ::
  "ambient \<Rightarrow> bool \<Rightarrow> vdrive \<Rightarrow> buffer \<Rightarrow> vdrive_dir_context \<Rightarrow> (vdrive \<times> vdrive_dir_context) option" where
  "scratch_entry u geos v slot d =
    (case (if slot ! SLOT_GEOS_TYPE \<noteq> 0 \<and> geos then
             (case scratch_geos u v slot of
                None \<Rightarrow> None
              | Some v \<Rightarrow> Some (v, clear_entry_bytes [SLOT_GEOS_TYPE, SLOT_GEOS_STRUCT, SLOT_GEOS_ITRACK, SLOT_GEOS_ISECTOR] d))
           else Some (v, d)) of
       None \<Rightarrow> None
     | Some (v, d) \<Rightarrow>
         let (v, d) =
           (if unat (slot ! SLOT_TYPE_OFFSET AND 7) = CBMDOS_FT_CBM then
              (free_range v (unat (slot ! SLOT_FIRST_TRACK)) (unat (slot ! SLOT_FIRST_SECTOR)) (entry_blocks slot),
               clear_entry_bytes [SLOT_FIRST_TRACK, SLOT_FIRST_SECTOR, SLOT_SIDE_TRACK, SLOT_SIDE_SECTOR,
                 SLOT_NR_BLOCKS, SLOT_NR_BLOCKS + 1] d)
            else (v, d)) in
         vdrive_dir_remove_slot v (u_buf u) (u_tmp u) d)"

definition scratchable :: "buffer \<Rightarrow> bool" where
  "scratchable slot =
    (unat (slot ! SLOT_TYPE_OFFSET AND 7) \<noteq> CBMDOS_FT_DIR \<and> slot ! SLOT_TYPE_OFFSET AND CBMDOS_FT_LOCKED = 0)"

partial_function (option) scratch_loop ::
  "ambient \<Rightarrow> bool \<Rightarrow> vdrive \<Rightarrow> vdrive_dir_context \<Rightarrow> nat \<Rightarrow> (nat \<times> vdrive \<times> vdrive_dir_context) option" where [code]:
  "scratch_loop u geos v d n =
    (case vdrive_dir_find_next_slot v (u_tmp u) d of
       None \<Rightarrow> None
     | Some (res, v, d) \<Rightarrow>
         (case res of
            None \<Rightarrow> Some (n, v, d)
          | Some slot \<Rightarrow>
              if \<not> scratchable slot then scratch_loop u geos v d n
              else case scratch_entry u geos v slot d of
                None \<Rightarrow> None | Some (v, d) \<Rightarrow> scratch_loop u geos v d (n + 1)))"

text \<open>A file type behind an equal sign is taken from the rest of the command.\<close>

definition take_filetype :: "cbmdos_cmd_parse_plus \<Rightarrow> nat \<Rightarrow> nat \<times> cbmdos_cmd_parse_plus" where
  "take_filetype cp ty =
    (let rest = (case pmore cp of None \<Rightarrow> [] | Some xs \<Rightarrow> xs); n = morelength cp in
     if n \<noteq> 0 \<and> rest ! 0 = asc CHR ''='' then
       (if n > 1 then vdrive_dir_filetype rest 2 else ty,
        case memchr rest 0 (asc CHR '','') n of
          None \<Rightarrow> cp\<lparr>pmore := None, morelength := 0\<rparr>
        | Some q \<Rightarrow> cp\<lparr>pmore := Some (slice rest q (n - q) @ [0]), morelength := n - q\<rparr>)
     else (ty, cp))"

text \<open>
  The names of the command, one after the other. The results are the status and the number
  of files removed so far.
\<close>

partial_function (option) scratch_names ::
  "ambient \<Rightarrow> vdrive \<Rightarrow> cbmdos_cmd_parse_plus \<Rightarrow> nat \<Rightarrow> nat \<Rightarrow> vdrive_dir_context \<Rightarrow> (int \<times> nat \<times> vdrive) option" where [code]:
  "scratch_names u v cp ty n d =
    (case vdrive_command_switchtraverse u v cp of
       None \<Rightarrow> None
     | Some (status, v, cp) \<Rightarrow>
         if status \<noteq> 0 then Some (status, n, v)
         else
           (case take_filetype cp ty of
              (ty, cp) \<Rightarrow>
                (case vdrive_dir_find_first_slot v (the (pfile cp)) (int (filelength cp)) ty d of
                   (v', d) \<Rightarrow>
                     (case scratch_loop u (vdrive_bam_isgeos v \<noteq> 0) v' d n of
                        None \<Rightarrow> None
                      | Some (n, v, d) \<Rightarrow>
                          if morelength cp = 0 then Some (CBMDOS_IPE_DELETED, n, v)
                          else
                            (case parse_more cp of
                               None \<Rightarrow> None
                             | Some (rc, cp) \<Rightarrow>
                                 if rc \<noteq> 0 \<or> \<not> (commandlength cp = 1 \<and> the (command cp) ! 0 = asc CHR '','') \<or> filelength cp = 0
                                 then Some (CBMDOS_IPE_DELETED, n, v)
                                 else scratch_names u v cp ty n d)))))"

definition vdrive_command_scratch :: "ambient \<Rightarrow> vdrive \<Rightarrow> cbmdos_cmd_parse_plus \<Rightarrow> (int \<times> vdrive) option" where
  "vdrive_command_scratch u v cp =
    (let origpart = current_part v in
     case (if VDRIVE_IS_READONLY v then Some (CBMDOS_IPE_WRITE_PROTECT_ON, 0, v)
           else scratch_names u v cp CBMDOS_FT_DEL 0 (u_dir u)) of
       None \<Rightarrow> None
     | Some (status, n, v) \<Rightarrow>
         Some (status, vdrive_command_return (u_tmp u) (snd (vdrive_command_set_error v status n 0)) origpart))"

end
