(* ===== verification/CommandDisk.thy ===== *)
theory CommandDisk
  imports CommandFile
begin

text \<open>
  Commands on a whole disk or partition (\<^verbatim>\<open>lib/vdrive/vdrive-command.c\<close>): \<open>INITIALIZE\<close>, \<open>VALIDATE\<close>, which
  rebuilds the BAM from the directory, and the formatting of a partition, which ends with it.

  The address that \<^verbatim>\<open>vdrive_command_validate_worker\<close> passes back is not used by its callers and is
  left out.
\<close>

subsection \<open>Initialising\<close>

definition vdrive_command_initialize ::
  "ambient \<Rightarrow> vdrive \<Rightarrow> cbmdos_cmd_parse_plus option \<Rightarrow> (int \<times> vdrive) option" where
  "vdrive_command_initialize u v cmd_opt =
    (let origpart = current_part v;
         out = (\<lambda>st v. (st, if cmd_opt \<noteq> None then vdrive_command_return (u_tmp u) v origpart else v)) in
     case (case cmd_opt of None \<Rightarrow> (0, v) | Some cp \<Rightarrow> vdrive_command_switch (u_junk u) (u_tmp u) v (drive cp)) of
       (st, v) \<Rightarrow>
         if st \<noteq> 0 then Some (out CBMDOS_IPE_NOT_READY v)
         else do {
           v \<leftarrow> vdrive_close_all_channels_partition u v (current_part v);
           let v = (if image_format v = FORMAT_1581 then
                      let v = snd (vdrive_bam_write_bam v);
                          v = v\<lparr>cheadertrack := (cheadertrack v)[ix (current_part v) := 0]\<rparr> in
                      vdrive_bam_setup_bam (u_junk u) (vdrive_set_disk_geometry (u_tmp u) v)
                    else v);
           let v = (if image_ptr v \<noteq> None then vdrive_bam_setup_bam (u_junk u) v else v);
           Some (out CBMDOS_IPE_OK v) })"

subsection \<open>Allocating chains\<close>

text \<open>The sectors of a chain are allocated and counted, up to one that is not free.\<close>

partial_function (option) vdrive_command_allocate_chain ::
  "vdrive \<Rightarrow> buffer \<Rightarrow> nat \<Rightarrow> nat \<Rightarrow> nat \<Rightarrow> (int \<times> nat \<times> vdrive) option" where [code]:
  "vdrive_command_allocate_chain v tmp t s c =
    (if t = 0 then Some (CBMDOS_IPE_OK, c, v)
     else if disk_image_check_sector (cur_image v) t s < 0 then
       Some (CBMDOS_IPE_ILLEGAL_TRACK_OR_SECTOR, c, snd (vdrive_command_set_error v CBMDOS_IPE_ILLEGAL_TRACK_OR_SECTOR t s))
     else case vdrive_bam_allocate_sector v t s of
       (r, v) \<Rightarrow>
         if r = 0 then Some (CBMDOS_IPE_NO_BLOCK, c, snd (vdrive_command_set_error v CBMDOS_IPE_NO_BLOCK t s))
         else case vdrive_read_sector v tmp t s of
           (rc, v, tmp) \<Rightarrow>
             if rc > 0 then Some (rc, c, snd (vdrive_command_set_error v rc t s))
             else if rc < 0 then Some (CBMDOS_IPE_NOT_READY, c, v)
             else vdrive_command_allocate_chain v tmp (unat (tmp ! 0)) (unat (tmp ! 1)) (c + 1))"

fun allocate_chains :: "vdrive \<Rightarrow> buffer \<Rightarrow> (nat \<times> nat) list \<Rightarrow> nat \<Rightarrow> (int \<times> nat \<times> vdrive) option" where
  "allocate_chains v tmp [] c = Some (CBMDOS_IPE_OK, c, v)"
| "allocate_chains v tmp ((t, s) # rs) c = do {
     (status, c, v) \<leftarrow> vdrive_command_allocate_chain v tmp t s c;
     if status \<noteq> CBMDOS_IPE_OK then Some (status, c, v) else allocate_chains v tmp rs c }"

text \<open>The sectors of a 1581 partition; 0 if all of them could be allocated.\<close>

fun allocate_range :: "vdrive \<Rightarrow> nat \<Rightarrow> nat \<Rightarrow> nat \<Rightarrow> int \<times> vdrive" where
  "allocate_range v t s 0 = (CBMDOS_IPE_OK, v)"
| "allocate_range v t s (Suc l) =
    (if t = 40 \<or> disk_image_check_sector (cur_image v) t s < 0 then (CBMDOS_IPE_ILLEGAL_TRACK_OR_SECTOR, v)
     else case vdrive_bam_allocate_sector v t s of
       (r, v) \<Rightarrow>
         if r = 0 then (CBMDOS_IPE_NO_BLOCK, v)
         else if s + 1 > 39 then allocate_range v (t + 1) 0 l else allocate_range v t (s + 1) l)"

subsection \<open>Validating\<close>

text \<open>
  The blocks of a file. \<open>Inr\<close> is their number; \<open>Inl\<close> leaves the directory with a status, which
  is 0 where the code does not set one.
\<close>

definition one_block :: "vdrive \<Rightarrow> nat \<Rightarrow> nat \<Rightarrow> bool \<times> vdrive" where
  "one_block v t s =
    (case vdrive_bam_allocate_sector v t s of
       (r, v) \<Rightarrow> if r = 0 then (False, snd (vdrive_command_set_error v CBMDOS_IPE_NO_BLOCK t s)) else (True, v))"

definition chains_counted :: "vdrive \<Rightarrow> buffer \<Rightarrow> (nat \<times> nat) list \<Rightarrow> nat \<Rightarrow> ((int + nat) \<times> vdrive) option" where
  "chains_counted v tmp rs l = do {
     (status, l, v) \<leftarrow> allocate_chains v tmp rs l;
     Some (if status \<noteq> CBMDOS_IPE_OK then Inl status else Inr l, v) }"

definition validate_geos :: "ambient \<Rightarrow> vdrive \<Rightarrow> buffer \<Rightarrow> ((int + nat) \<times> vdrive) option" where
  "validate_geos u v b =
    (let at = (\<lambda>i. unat (b ! i)); info = (at SLOT_GEOS_ITRACK, at SLOT_GEOS_ISECTOR); first = (at SLOT_FIRST_TRACK, at SLOT_FIRST_SECTOR) in
     case (if fst info \<noteq> 0 then one_block v (fst info) (snd info) else (True, v)) of
       (ok, v) \<Rightarrow>
         if \<not> ok then Some (Inl CBMDOS_IPE_OK, v)
         else if at SLOT_GEOS_STRUCT = 0 then chains_counted v (u_buf u) [first] 1
         else if at SLOT_GEOS_STRUCT = 1 then
           (case vdrive_read_sector v (u_tmp u) (fst first) (snd first) of
              (status, v, tmp) \<Rightarrow>
                if status \<noteq> 0 then Some (Inl (read_status status), v)
                else case one_block v (fst first) (snd first) of
                  (ok, v) \<Rightarrow>
                    if \<not> ok then Some (Inl CBMDOS_IPE_OK, v)
                    else chains_counted v (u_buf u) (geos_records tmp [0..<127]) 2)
         else Some (Inl CBMDOS_IPE_DIRECTORY_ERROR, v))"

definition validate_file :: "ambient \<Rightarrow> bool \<Rightarrow> vdrive \<Rightarrow> buffer \<Rightarrow> ((int + nat) \<times> vdrive) option" where
  "validate_file u geos v b =
    (let at = (\<lambda>i. unat (b ! i)); rel_type = (at SLOT_TYPE_OFFSET AND 7 = CBMDOS_FT_REL) in
     if b ! SLOT_GEOS_TYPE \<noteq> 0 \<and> geos \<and> \<not> rel_type then validate_geos u v b
     else
       chains_counted v (u_buf u)
         ((at SLOT_FIRST_TRACK, at SLOT_FIRST_SECTOR) #
          (if rel_type then [(at SLOT_SIDE_TRACK, at SLOT_SIDE_SECTOR)] else [])) 0)"

text \<open>The number of blocks in the entry is corrected, and an open file deleted.\<close>

definition fix_block_count :: "nat \<Rightarrow> nat \<Rightarrow> vdrive_dir_context \<Rightarrow> vdrive \<Rightarrow> int \<times> vdrive \<times> vdrive_dir_context" where
  "fix_block_count sz l d v =
    (if sz \<noteq> l then
       let k = dslot d * 32 + SLOT_NR_BLOCKS;
           d = d\<lparr>dbuffer := (dbuffer d)[k := of_nat (l AND 255), k + 1 := of_nat (drop_bit 8 l)]\<rparr> in
       case write_entry v d of (st, v) \<Rightarrow> (st, v, d)
     else (CBMDOS_IPE_OK, v, d))"

definition delete_open_file :: "vdrive_dir_context \<Rightarrow> vdrive \<Rightarrow> int \<times> vdrive \<times> vdrive_dir_context" where
  "delete_open_file d v =
    (let d = d\<lparr>dbuffer := (dbuffer d)[dslot d * 32 + SLOT_TYPE_OFFSET := 0]\<rparr> in
     case write_entry v d of (st, v) \<Rightarrow> (st, v, d))"

text \<open>The header of a subdirectory is entered, and the search for all of its entries begins.\<close>

definition enter_header :: "ambient \<Rightarrow> nat \<Rightarrow> nat \<Rightarrow> vdrive \<Rightarrow> vdrive \<times> vdrive_dir_context" where
  "enter_header u t s v =
    vdrive_dir_find_first_slot (v\<lparr>Header_Track := t, Header_Sector := s\<rparr>) [asc CHR ''*'', 0] 1 0 (u_dir u)"

abbreviation (input) restore_header :: "vdrive \<Rightarrow> vdrive \<Rightarrow> vdrive" where
  "restore_header v0 v \<equiv> v\<lparr>Header_Track := Header_Track v0, Header_Sector := Header_Sector v0\<rparr>"

text \<open>
  What an entry leads to: the directory is left with a status, the next entry follows, or a
  subdirectory with its header and the number of blocks of its chain comes first.
\<close>

datatype validate_step =
    VALIDATE_STOP int vdrive
  | VALIDATE_NEXT vdrive vdrive_dir_context
  | VALIDATE_SUBDIR nat nat nat vdrive vdrive_dir_context

definition next_entry :: "int \<times> vdrive \<times> vdrive_dir_context \<Rightarrow> validate_step" where
  "next_entry r = (case r of (st, v, d) \<Rightarrow> if st \<noteq> CBMDOS_IPE_OK then VALIDATE_STOP st v else VALIDATE_NEXT v d)"

definition validate_entry ::
  "ambient \<Rightarrow> bool \<Rightarrow> vdrive \<Rightarrow> vdrive_dir_context \<Rightarrow> buffer \<Rightarrow> validate_step option" where
  "validate_entry u geos v d b =
    (let ty = unat (b ! SLOT_TYPE_OFFSET AND 7);
         t = unat (b ! SLOT_FIRST_TRACK); s = unat (b ! SLOT_FIRST_SECTOR) in
     if b ! SLOT_TYPE_OFFSET AND CBMDOS_FT_CLOSED = 0 then Some (next_entry (delete_open_file d v))
     else if ty = CBMDOS_FT_CBM then
       Some (if image_format v \<noteq> FORMAT_1581 then VALIDATE_STOP CBMDOS_IPE_DIRECTORY_ERROR v
             else next_entry (case allocate_range v t s (entry_blocks b) of (st, v) \<Rightarrow> (st, v, d)))
     else if ty = CBMDOS_FT_DIR then
       if image_format v \<noteq> FORMAT_NP then Some (VALIDATE_STOP CBMDOS_IPE_DIRECTORY_ERROR v)
       else do {
         (st, l, v) \<leftarrow> vdrive_command_allocate_chain v (u_buf u) t s 0;
         Some (if st \<noteq> CBMDOS_IPE_OK then VALIDATE_STOP st v else VALIDATE_SUBDIR t s l v d) }
     else if ty \<ge> CBMDOS_FT_SEQ \<and> ty \<le> CBMDOS_FT_REL then do {
       (r, v) \<leftarrow> validate_file u geos v b;
       Some (case r of Inl st \<Rightarrow> VALIDATE_STOP st v | Inr l \<Rightarrow> next_entry (fix_block_count (entry_blocks b) l d v)) }
     else Some (VALIDATE_NEXT v d))"

partial_function (option) validate_entries ::
  "ambient \<Rightarrow> bool \<Rightarrow> vdrive \<Rightarrow> vdrive_dir_context \<Rightarrow> (int \<times> vdrive) option" where [code]:
  "validate_entries u geos v d = do {
     (res, v, d) \<leftarrow> vdrive_dir_find_next_slot v (u_tmp u) d;
     if res = None then Some (CBMDOS_IPE_OK, v)
     else do {
       r \<leftarrow> validate_entry u geos v d (the res);
       case r of
         VALIDATE_STOP st v \<Rightarrow> Some (st, v)
       | VALIDATE_NEXT v d \<Rightarrow> validate_entries u geos v d
       | VALIDATE_SUBDIR t s l v d \<Rightarrow> do {
           (st, w) \<leftarrow> validate_entries u geos (fst (enter_header u t s v)) (snd (enter_header u t s v));
           if st \<noteq> CBMDOS_IPE_OK then Some (st, restore_header v w)
           else case fix_block_count (entry_blocks (the res)) l d (restore_header v w) of
             (st, v, d) \<Rightarrow> if st \<noteq> CBMDOS_IPE_OK then Some (st, v) else validate_entries u geos v d } } }"

definition vdrive_command_validate_worker :: "ambient \<Rightarrow> vdrive \<Rightarrow> bool \<Rightarrow> nat \<Rightarrow> nat \<Rightarrow> (int \<times> vdrive) option" where
  "vdrive_command_validate_worker u v geos t s =
    (case enter_header u t s v of
       (w, d) \<Rightarrow> do { (st, w) \<leftarrow> validate_entries u geos w d; Some (st, restore_header v w) })"

text \<open>All sectors of the partition are marked as free, then those of the system as used.\<close>

definition partition_sectors :: "vdrive \<Rightarrow> (nat \<times> nat) list" where
  "partition_sectors v =
    concat (map (\<lambda>t. map (Pair t) [0..<c_unsigned (vdrive_get_max_sectors v t)]) [Part_Start v..<Suc (Part_End v)])"

definition free_sectors :: "vdrive \<Rightarrow> (nat \<times> nat) list \<Rightarrow> vdrive" where
  "free_sectors = foldl (\<lambda>v (t, s). snd (vdrive_bam_free_sector v t s))"

definition allocate_sectors :: "vdrive \<Rightarrow> (nat \<times> nat) list \<Rightarrow> vdrive" where
  "allocate_sectors = foldl (\<lambda>v (t, s). snd (vdrive_bam_allocate_sector v t s))"

definition allocate_system :: "ambient \<Rightarrow> vdrive \<Rightarrow> vdrive option" where
  "allocate_system u v =
    (case image_format v of
       FORMAT_1571 \<Rightarrow> Some (allocate_sectors v (map (Pair 53) [0..<c_unsigned (vdrive_get_max_sectors v 53)]))
     | FORMAT_1581 \<Rightarrow> Some (allocate_sectors v [(Bam_Track v, Bam_Sector v + 1), (Bam_Track v, Bam_Sector v + 2)])
     | FORMAT_8050 \<Rightarrow> Some (allocate_sectors v [(Header_Track v, Header_Sector v)])
     | FORMAT_8250 \<Rightarrow> Some (allocate_sectors v [(Header_Track v, Header_Sector v)])
     | FORMAT_NP \<Rightarrow> Some (allocate_sectors v (map (Pair 1) (0 # [2..<34])))
     | FORMAT_9000 \<Rightarrow> do {
         (_, v) \<leftarrow> vdrive_bam_allocate_chain_255 v (u_buf u) (Bam_Track v) (Bam_Sector v);
         (_, v) \<leftarrow> vdrive_bam_allocate_chain v (u_buf u) (Header_Track v) (Header_Sector v);
         Some (allocate_sectors v [(0, 0), (0, 1)]) }
     | _ \<Rightarrow> Some v)"

text \<open>
  After an error the BAM is restored. Its states are an array of \<open>int\<close>, but only as many bytes
  are saved as it has members: the first eight, and the low byte of the next one.
\<close>

definition restore_states :: "int list \<Rightarrow> int list \<Rightarrow> int list" where
  "restore_states old new = take 8 old @ [new ! 8 div 256 * 256 + old ! 8 mod 256] @ drop 9 new"

definition restore_bam :: "vdrive \<Rightarrow> vdrive \<Rightarrow> vdrive" where
  "restore_bam v0 v = v\<lparr>bam := bam v0, bam_state := restore_states (bam_state v0) (bam_state v)\<rparr>"

definition rebuild_bam :: "ambient \<Rightarrow> vdrive \<Rightarrow> (int \<times> vdrive) option" where
  "rebuild_bam u v0 =
    (let v = vdrive_bam_clear_all v0;
         v = free_sectors v (partition_sectors v) in do {
     (status, _, v) \<leftarrow>
       (if image_format v \<noteq> FORMAT_9000 then vdrive_command_allocate_chain v (u_buf u) (Bam_Track v) (Bam_Sector v) 0
        else Some (CBMDOS_IPE_OK, 0, v));
     if status \<noteq> CBMDOS_IPE_OK then Some (status, restore_bam v0 v)
     else do {
       v \<leftarrow> allocate_system u v;
       let geos = (vdrive_bam_isgeos v \<noteq> 0);
       let t = unat (bam_byte v 0xab);
       let s = unat (bam_byte v 0xac);
       let (ok, v) = (if geos \<and> t \<noteq> 0 then one_block v t s else (True, v));
       if \<not> ok then Some (CBMDOS_IPE_OK, v)
       else do {
         let (t, s) = (if image_format v = FORMAT_NP then (1, 1) else (Header_Track v, Header_Sector v));
         (status, v) \<leftarrow> vdrive_command_validate_worker u v geos t s;
         Some (if status = CBMDOS_IPE_OK then (status, snd (vdrive_bam_write_bam v)) else (status, restore_bam v0 v)) } } })"

definition vdrive_command_validate :: "ambient \<Rightarrow> vdrive \<Rightarrow> (int \<times> vdrive) option" where
  "vdrive_command_validate u v =
    (let v = snd (vdrive_command_set_error v CBMDOS_IPE_OK 0 0) in
     if VDRIVE_IS_READONLY v then Some (CBMDOS_IPE_WRITE_PROTECT_ON, v)
     else case vdrive_bam_read_bam v of
       (status, v) \<Rightarrow>
         if status \<noteq> 0 then Some (CBMDOS_IPE_NOT_READY, v)
         else do { v \<leftarrow> vdrive_close_all_channels_partition u v (current_part v); rebuild_bam u v })"

definition vdrive_command_validate_internal :: "ambient \<Rightarrow> vdrive \<Rightarrow> cbmdos_cmd_parse_plus \<Rightarrow> (int \<times> vdrive) option" where
  "vdrive_command_validate_internal u v cp =
    (let origpart = current_part v in
     if VDRIVE_IS_READONLY v then Some (CBMDOS_IPE_WRITE_PROTECT_ON, v)
     else case vdrive_command_switch (u_junk u) (u_tmp u) v (drive cp) of
       (st, v) \<Rightarrow> do {
         (status, v) \<leftarrow> (if st \<noteq> 0 then Some (CBMDOS_IPE_NOT_READY, v) else vdrive_command_validate u v);
         Some (status, vdrive_command_return (u_tmp u) v origpart) })"

subsection \<open>Formatting\<close>

text \<open>Every sector of the partition is cleared, up to a write that fails.\<close>

fun erase_sectors :: "buffer \<Rightarrow> vdrive \<Rightarrow> (nat \<times> nat) list \<Rightarrow> bool \<times> vdrive" where
  "erase_sectors tmp v [] = (True, v)"
| "erase_sectors tmp v ((t, s) # ps) =
    (case vdrive_write_sector v tmp t s of (st, v) \<Rightarrow> if st < 0 then (False, v) else erase_sectors tmp v ps)"

text \<open>Without an id the old one is kept, and the sectors are not cleared.\<close>

definition format_id :: "vdrive \<Rightarrow> buffer option \<Rightarrow> int \<times> vdrive \<times> buffer" where
  "format_id v disk_id =
    (case disk_id of
       None \<Rightarrow>
         (case vdrive_bam_int_get_disk_id v of
            (i, v) \<Rightarrow>
              (if image_format v = FORMAT_1581 \<and> bam_byte v 2 \<noteq> 68 then CBMDOS_IPE_DOS_VERSION else CBMDOS_IPE_OK, v, i))
     | Some i \<Rightarrow>
         (case erase_sectors (replicate 256 0) v (partition_sectors v) of
            (ok, v) \<Rightarrow> (if ok then CBMDOS_IPE_OK else CBMDOS_IPE_WRITE_ERROR_VER, v, i)))"

definition vdrive_command_format_worker ::
  "ambient \<Rightarrow> vdrive \<Rightarrow> buffer \<Rightarrow> buffer option \<Rightarrow> (int \<times> vdrive) option" where
  "vdrive_command_format_worker u v disk_name disk_id = do {
     v \<leftarrow> vdrive_close_all_channels_partition u v (current_part v);
     case format_id v disk_id of
       (st, v, i) \<Rightarrow>
         if st \<noteq> CBMDOS_IPE_OK then Some (st, v)
         else
           let v = (if image_format v = FORMAT_NP
                    then vdrive_set_disk_geometry (u_tmp u) (v\<lparr>cheadertrack := (cheadertrack v)[ix (current_part v) := 0]\<rparr>)
                    else v) in
           case vdrive_write_sector v ((replicate 256 0)[1 := 255]) (Dir_Track v) (Dir_Sector v) of
             (st, v) \<Rightarrow>
               if st < 0 then Some (CBMDOS_IPE_WRITE_ERROR_VER, v)
               else
                 vdrive_command_validate u
                   (snd (vdrive_bam_write_bam (vdrive_bam_create_empty_bam (u_junk u) v disk_name i))) }"

text \<open>The id of a \<open>NEW\<close> command, and what follows it.\<close>

definition new_id :: "cbmdos_cmd_parse_plus \<Rightarrow> buffer option \<times> buffer option" where
  "new_id cp =
    (let rest = (case pmore cp of None \<Rightarrow> [] | Some xs \<Rightarrow> xs); n = morelength cp;
         id_of = (\<lambda>k. [if k > 0 then rest ! 1 else asc CHR '' '', if k > 1 then rest ! 2 else asc CHR '' '', 0]) in
     if n \<noteq> 0 \<and> pmore cp \<noteq> None \<and> rest ! 0 = asc CHR '','' then
       (case memchr rest 1 (asc CHR '','') (n - 1) of
          None \<Rightarrow> (Some (id_of (n - 1)), None)
        | Some q \<Rightarrow> (Some (id_of (q - 1)), Some (slice rest (q + 1) (n - (q + 1)))))
     else (None, None))"

text \<open>Type and number of the partitions of a CMD floppy disk, by the letters behind the id.\<close>

definition fd_layout :: "disk_image_type \<Rightarrow> buffer \<Rightarrow> (nat \<times> nat) option" where
  "fd_layout ty more' =
    (let parts_81 = (if ty = D1M then Some 1 else if ty = D2M then Some 2 else if ty = D4M then Some 4 else None);
         kind = (\<lambda>c parts. if c = asc CHR ''8'' then (case parts of None \<Rightarrow> None | Some n \<Rightarrow> Some (4, n))
                           else if c = asc CHR ''N'' then Some (1, 1) else None) in
     if length more' = 3 \<and> more' ! 1 = asc CHR ''D'' then
       kind (more' ! 2)
         (if more' ! 0 = asc CHR ''D'' \<and> ty = D1M \<or> more' ! 0 = asc CHR ''H'' \<and> ty = D2M \<or>
             more' ! 0 = asc CHR ''E'' \<and> ty = D4M then parts_81 else None)
     else if length more' = 2 \<and> more' ! 0 = asc CHR ''S'' then kind (more' ! 1) parts_81
     else None)"

definition fd_size :: "disk_image_type \<Rightarrow> nat \<times> nat" where
  "fd_size ty = (if ty = D1M then (0x640, 32) else if ty = D2M then (0xc80, 72) else (0x1900, 152))"

text \<open>The sectors of the system partition of a CMD floppy disk, in the order they are written.\<close>

definition fd_table :: "nat \<Rightarrow> nat \<Rightarrow> nat \<Rightarrow> buffer" where
  "fd_table psize' ptype' parts =
    (let b = write_at (memset ((replicate 256 0)[0 := 1, 1 := 1, 2 := 0xff]) 5 0xa0 16) 5 (map of_char ''SYSTEM'');
         sz = psize' div parts in
     foldl (\<lambda>b i.
         let k = 0x20 * (i + 1);
             b = write_at (memset (b[k + 2 := of_nat ptype']) (k + 5) 0xa0 16) (k + 5) (map of_char ''PARTITION '') in
         b[k + 0xf := of_nat (0x31 + i), k + 0x16 := of_nat (i * sz div 256), k + 0x17 := of_nat (i * sz),
           k + 0x1e := of_nat (sz div 256), k + 0x1f := of_nat sz]) b [0..<parts])"

definition fd_system :: "nat \<Rightarrow> buffer" where
  "fd_system psize' =
    write_at ((memset (replicate 256 0) 0 255 224)
        [0 := 0, 0x38 := 0, 0x39 := 0, 0x70 := of_nat psize', 0x71 := of_nat (psize' div 256), 0xa8 := 0, 0xa9 := 0,
         0xe2 := 1, 0xe3 := 1])
      0xf0 (map of_char ''CMD FD SERIES   '')"

definition fd_sectors :: "nat \<Rightarrow> nat \<Rightarrow> nat \<Rightarrow> nat \<Rightarrow> (buffer \<times> nat \<times> nat) list" where
  "fd_sectors psize' ssize ptype' parts =
    (let zero = replicate 256 0 in
     map (\<lambda>i. (zero, 0, i)) [0, 1, 2, 3, 4, 6, 7] @ map (\<lambda>i. (zero, 1, i)) [4..<ssize] @
     [(zero[1 := 0xff], 1, 3), (zero[0 := 1, 1 := 2], 1, 1), (zero[0 := 1, 1 := 3], 1, 2),
      (fd_table psize' ptype' parts, 1, 0), (fd_system psize', 0, 5)])"

fun write_all :: "vdrive \<Rightarrow> (buffer \<times> nat \<times> nat) list \<Rightarrow> bool \<times> vdrive" where
  "write_all v [] = (True, v)"
| "write_all v ((b, t, s) # rs) =
    (case vdrive_write_sector v b t s of (st, v) \<Rightarrow> if st \<noteq> 0 then (False, v) else write_all v rs)"

text \<open>Each of the new partitions is formatted; from the second on, the name ends with the number.\<close>

definition long_name :: "buffer \<Rightarrow> nat \<Rightarrow> buffer" where
  "long_name name i =
    (let nm = takeWhile (\<lambda>c. c \<noteq> 0) name in
     (write_at (replicate 16 0x20 @ [0]) 0 nm)[14 := 0x20, 16 := 0, 15 := of_nat (0x31 + i)])"

fun format_parts :: "ambient \<Rightarrow> buffer \<Rightarrow> buffer option \<Rightarrow> nat list \<Rightarrow> vdrive \<Rightarrow> (int \<times> vdrive) option" where
  "format_parts u name i [] v = Some (CBMDOS_IPE_OK, v)"
| "format_parts u name i (k # ks) v =
    (case vdrive_command_switch (u_junk u) (u_tmp u) (v\<lparr>cheadertrack := (cheadertrack v)[k + 1 := 0]\<rparr>) (int k + 1) of
       (st, v) \<Rightarrow>
         if st \<noteq> 0 then Some (if k = 0 then CBMDOS_IPE_FORMAT_ERROR else CBMDOS_IPE_OK, v)
         else do {
           (status, v) \<leftarrow> vdrive_command_format_worker u v (if k = 0 then name else long_name name k) i;
           if status \<noteq> 0 then Some (status, v) else format_parts u name i ks v })"

definition format_fd ::
  "ambient \<Rightarrow> vdrive \<Rightarrow> buffer \<Rightarrow> buffer option \<Rightarrow> nat \<Rightarrow> nat \<Rightarrow> (int \<times> vdrive) option" where
  "format_fd u v name i ptype' parts = do {
     let (psize', ssize) = fd_size (itype (cur_image v));
     v \<leftarrow> vdrive_close_all_channels u v;
     let v = (vdrive_reset_last_track_sector v)
       \<lparr>sys_offset := psize', current_offset := psize', image_format := FORMAT_SYS, current_part := 255\<rparr>;
     let (ok, v) = write_all v (fd_sectors psize' ssize ptype' parts);
     if \<not> ok then Some (CBMDOS_IPE_FORMAT_ERROR, v)
     else
       let (st, v) = vdrive_read_partition_table (v\<lparr>sys_offset := UINT32_MAX, current_offset := UINT32_MAX\<rparr>) (u_buf u) in
       if st \<noteq> 0 then Some (CBMDOS_IPE_FORMAT_ERROR, v)
       else do {
         let origpart = default_part v;
         (status, v) \<leftarrow> format_parts u name i [0..<parts] v;
         Some (status, vdrive_command_return (u_tmp u) v origpart) } }"

definition vdrive_command_format_internal :: "ambient \<Rightarrow> vdrive \<Rightarrow> cbmdos_cmd_parse_plus \<Rightarrow> (int \<times> vdrive) option" where
  "vdrive_command_format_internal u v cp =
    (let origpart = current_part v in
     if VDRIVE_IS_READONLY v then Some (CBMDOS_IPE_WRITE_PROTECT_ON, v)
     else if pfile cp = None \<or> filelength cp = 0 then Some (CBMDOS_IPE_SYNTAX, v)
     else
       let name = take (filelength cp) (the (pfile cp)) @ [0]; (i, more') = new_id cp in
       if VDRIVE_IS_FD v \<and> more' \<noteq> None then
         (case fd_layout (itype (cur_image v)) (the more') of
            None \<Rightarrow> Some (CBMDOS_IPE_FORMAT_ERROR, v)
          | Some (ptype', parts) \<Rightarrow> format_fd u v name i ptype' parts)
       else
         case vdrive_command_switch (u_junk u) (u_tmp u) v (drive cp) of
           (st, v) \<Rightarrow> do {
             (status, v) \<leftarrow> (if st \<noteq> 0 then Some (CBMDOS_IPE_NOT_READY, v) else vdrive_command_format_worker u v name i);
             Some (status, vdrive_command_return (u_tmp u) v origpart) })"

text \<open>The form the image creation uses: a name without an id gets one of two spaces.\<close>

definition new_command :: "buffer \<Rightarrow> buffer" where
  "new_command disk_name =
    asc CHR ''N'' # (if asc CHR '':'' \<notin> set disk_name then [asc CHR '':''] else []) @
    (if disk_name = [] \<or> hd disk_name = asc CHR '','' then [asc CHR '' ''] else []) @ disk_name"

definition vdrive_command_format :: "ambient \<Rightarrow> vdrive \<Rightarrow> buffer option \<Rightarrow> (int \<times> vdrive) option" where
  "vdrive_command_format u v disk_name =
    (if disk_name = None then Some (CBMDOS_IPE_SYNTAX, v)
     else if VDRIVE_IS_READONLY v then Some (CBMDOS_IPE_WRITE_PROTECT_ON, v)
     else if device (cur_image v) = DEVICE_FS \<and> fd (the (media (cur_image v))) = None then Some (CBMDOS_IPE_NOT_READY, v)
     else do {
       let xs = new_command (takeWhile (\<lambda>c. c \<noteq> 0) (the disk_name));
       (status, cp) \<leftarrow> cbmdos_command_parse_plus
         ((u_cmd u)\<lparr>full := Some (xs @ [0]), fulllength := length xs, secondary := 0, pmode := 1\<rparr>);
       if status \<noteq> CBMDOS_IPE_OK then Some (status, v)
       else
         let cp = (if pmore cp = None then cp\<lparr>pmore := Some (map of_char '',  '' @ [0]), morelength := 3\<rparr> else cp) in
         vdrive_command_format_internal u v cp })"

end
