(* ===== verification/ValidateChain.thy ===== *)
theory ValidateChain
  imports CommandDisk DirSearch
begin

text \<open>
  Validation rebuilds the BAM: it frees every sector and allocates the chains of the files it
  finds (\<^verbatim>\<open>vdrive_command_allocate_chain\<close> in \<^verbatim>\<open>lib/vdrive/vdrive-command.c\<close>). The sectors of a chain that
  ends are all different, and the function marks and counts them up to the first one that
  another file already has.
\<close>

lemma chained_addr:
  assumes "chain_image v" "\<not> haspt v" "chained v p cs" "c \<in> set cs"
  shows "bam_addr v (fst c)"
proof -
  have "\<exists>b. holds v (fst c) b" using assms(3,4) by (induction v p cs rule: chained.induct) auto
  then show ?thesis
    using checked_sector_addr [OF assms(1) valid_checked [OF assms(1,2)]] by (cases "fst c") (auto simp: holds_def)
qed

lemma set_error_keeps [simp]:
  "bam (snd (vdrive_command_set_error v st t s)) = bam v"
  "image_format (snd (vdrive_command_set_error v st t s)) = image_format v"
  "disk_heap (snd (vdrive_command_set_error v st t s)) = disk_heap v"
  by (simp_all add: vdrive_command_set_error_def buffer_store_def Let_def split: channel_buffer.split)

lemma set_error_free [simp]:
  "sector_is_free (snd (vdrive_command_set_error v st t s)) = sector_is_free v"
  by (intro ext) (simp add: sector_is_free_def bam_byte_def)

text \<open>Allocating a sector, as the validation does.\<close>

lemma take_sector:
  assumes "bam_ok v" "bam_addr v (t, s)" "sector_is_free v (t, s)"
  obtains w where "vdrive_bam_allocate_sector v t s = (1, w)" "bam_ok w" "same_drive v w"
    "\<And>a. bam_addr v a \<Longrightarrow> sector_is_free w a = (sector_is_free v a \<and> a \<noteq> (t, s))"
proof -
  define w where "w = snd (vdrive_bam_allocate_sector v t s)"
  have w: "w = snd (bam_alloc v (t, s))" by (simp add: w_def bam_alloc_def)
  have "vdrive_bam_allocate_sector v t s = (1, w)"
    using bam.alloc_result [OF assms(1,2)] assms(3) by (simp add: w_def bam_alloc_def prod_eq_iff)
  moreover have "bam_ok w" "same_drive v w"
    unfolding w using bam.alloc_invar [OF assms(1,2)] bam_alloc_same [OF assms(1,2)] by auto
  moreover have "sector_is_free w a = (sector_is_free v a \<and> a \<noteq> (t, s))" if "bam_addr v a" for a
    unfolding w by (rule bam.alloc_free [OF assms(1,2) that])
  ultimately show ?thesis using that by blast
qed

lemma mounted_same_drive: "mounted v \<Longrightarrow> same_drive v u \<Longrightarrow> update_image_mode u = u"
  using same_drive_disk [of v u] by (cases u) (auto simp: mounted_def update_image_mode_def
      drive_ok_def dxx_ok_def same_disk_def cur_image_def)

lemma allocate_chain_effect:
  assumes "bam_ok w" "same_drive v w" "mounted v" "chain_image v" "\<not> haspt v"
    "chained v (t, s) cs" "length buf = 256"
  defines "own \<equiv> takeWhile (\<lambda>c. sector_is_free w (fst c)) cs"
  shows "\<exists>u. vdrive_command_allocate_chain w buf t s n =
      Some (if own = cs then CBMDOS_IPE_OK else CBMDOS_IPE_NO_BLOCK, n + length own, u) \<and>
    (\<forall>a. bam_addr v a \<longrightarrow> sector_is_free u a = (sector_is_free w a \<and> a \<notin> fst ` set own)) \<and>
    disk_heap u = disk_heap v \<and> (own = cs \<longrightarrow> bam_ok u \<and> same_drive v u)"
  using assms(1,2,6,7) unfolding own_def
proof (induction cs arbitrary: w t s n buf)
  case Nil
  then show ?case
    using same_drive_keeps(6) [OF Nil.prems(2)] by (subst vdrive_command_allocate_chain.simps) simp
next
  case (Cons c cs)
  obtain b where c: "c = ((t, s), b)" "t \<noteq> 0" "holds v (t, s) b" "chained v (link b) cs"
    using Cons.prems(3) by (cases c) auto
  note keep = same_drive_keeps [OF Cons.prems(2)]
  have chk: "\<not> disk_image_check_sector (cur_image w) t s < 0"
    using valid_checked [OF assms(4,5)] c(3) keep by (simp add: holds_def)
  then have a: "bam_addr w (t, s)"
    using checked_sector_addr [OF assms(4)] keep bam_addr_same [OF Cons.prems(2)] by simp
  show ?case
  proof (cases "sector_is_free w (t, s)")
    case False
    then have "vdrive_bam_allocate_sector w t s = (0, w)" using allocate_sector_ok [OF Cons.prems(1) a] by simp
    then show ?thesis
      using False c(1,2) chk keep(6) by (subst vdrive_command_allocate_chain.simps) simp
  next
    case True
    obtain u where u: "vdrive_bam_allocate_sector w t s = (1, u)" "bam_ok u" "same_drive w u"
      "\<And>a. bam_addr w a \<Longrightarrow> sector_is_free u a = (sector_is_free w a \<and> a \<noteq> (t, s))"
      using take_sector [OF Cons.prems(1) a True] by blast
    have su: "same_drive v u" using same_drive_trans [OF Cons.prems(2) u(3)] .
    have rd: "vdrive_read_sector u buf t s = (0, u, b)"
      using read_any_buffer [of v t s b u buf] same_drive_disk(1) [OF su] assms(3) Cons.prems(4) c(3)
        mounted_same_drive [OF assms(3) su] by (simp add: mounted_def holds_def)
    have new: "(t, s) \<notin> fst ` set cs" using chained_distinct [OF Cons.prems(3)] c(1) by simp
    have "sector_is_free u (fst x) = sector_is_free w (fst x)" if "x \<in> set cs" for x
    proof -
      have "fst x \<noteq> (t, s)" using new that by (metis image_eqI)
      then show ?thesis
        using u(4) chained_addr [OF assms(4,5) c(4) that] bam_addr_same [OF Cons.prems(2)] by simp
    qed
    then have own: "takeWhile (\<lambda>c. sector_is_free u (fst c)) cs = takeWhile (\<lambda>c. sector_is_free w (fst c)) cs"
      by (intro takeWhile_cong) simp_all
    note ih = Cons.IH [OF u(2) su c(4), of b "n + 1", unfolded own]
    have "length b = 256" using c(3) by (simp add: holds_def)
    then show ?thesis
      using ih c(1,2) chk u(1,4) rd True new bam_addr_same [OF Cons.prems(2)]
      by (subst vdrive_command_allocate_chain.simps) auto
  qed
qed

text \<open>
  C36. Validating the chain of a file (on the image types of C17); the drive is that of the disk with
  the BAM as far as it is rebuilt. The sectors of the chain are
  allocated and counted up to the first one that is not free; the status is OK if there is none
  such, and otherwise 65, NO BLOCK. Exactly the counted sectors become allocated, and nothing is
  written to the disk. So the sectors of two files that share a sector are detected, and the
  block count of a file is the length of its chain.
\<close>

theorem validated_chain:
  assumes "mounted v" "chain_image v" "\<not> haspt v" "chained v (t, s) cs"
    and "same_drive v w" "bam_ok w" "length tmp = 256"
  defines "own \<equiv> takeWhile (\<lambda>c. sector_is_free w (fst c)) cs"
  shows "\<exists>u. vdrive_command_allocate_chain w tmp t s n =
      Some (if own = cs then CBMDOS_IPE_OK else CBMDOS_IPE_NO_BLOCK, n + length own, u) \<and>
    (\<forall>a. bam_addr v a \<longrightarrow> sector_is_free u a = (sector_is_free w a \<and> a \<notin> fst ` set own)) \<and>
    disk_heap u = disk_heap v"
  using allocate_chain_effect [OF assms(6,5,1-4,7), of n] unfolding own_def by blast

text \<open>A file of two sectors that are freed first; a second file is linked to its last sector.\<close>

theorem validated_chain_witness:
  "\<exists>v w u. vdrive_dir_free_chain
       (disk_1541 [((17, 0), 17 # 10 # replicate 254 0), ((17, 10), 0 # 9 # replicate 254 0), ((17, 1), 17 # 10 # replicate 254 0)])
       (replicate 256 0) 17 0 = Some v \<and>
     vdrive_command_allocate_chain v (replicate 256 0) 17 0 0 = Some (CBMDOS_IPE_OK, 2, w) \<and>
     \<not> sector_is_free w (17, 0) \<and> \<not> sector_is_free w (17, 10) \<and>
     vdrive_command_allocate_chain v (replicate 256 0) 17 1 0 = Some (CBMDOS_IPE_NO_BLOCK, 0, u)"
proof -
  note [simp del] = One_nat_def
  let ?ws = "[((17, 0), 17 # 10 # replicate 254 0), ((17, 10), 0 # 9 # replicate 254 0), ((17, 1), 17 # 10 # replicate 254 0)] :: ((nat \<times> nat) \<times> buffer) list"
  let ?d = "disk_1541 ?ws" and ?z = "replicate 256 0 :: buffer"
  let ?cs = "take 2 ?ws" and ?ds = "[?ws ! 2, ?ws ! 1]"
  have ws: "sectors_1541 ?ws" by (simp add: sectors_1541_def)
  note d = disk_1541_simps [OF ws] and h = disk_1541_holds [OF ws] and b = disk_1541_bam [OF ws]
  have ch: "chained ?d (17, 0) ?cs" "chained ?d (17, 1) ?ds"
    using h [of "(17, 0)"] h [of "(17, 10)"] h [of "(17, 1)"] by simp_all
  have ad: "bam_addr ?d (17, s)" if "s < 17" for s using that by (simp add: bam_addr_def d layout_defs)
  have "\<exists>v. vdrive_dir_free_chain ?d ?z 17 0 = Some v \<and> bam_ok v \<and> same_drive ?d v \<and>
    (\<forall>a. bam_addr ?d a \<longrightarrow> sector_is_free v a = (sector_is_free ?d a \<or> a \<in> fst ` set ?cs))"
    by (rule free_chain_effect) (use b d ch in auto)
  then obtain v where v: "vdrive_dir_free_chain ?d ?z 17 0 = Some v" "bam_ok v" "same_drive ?d v"
    "\<And>s. s < 17 \<Longrightarrow> sector_is_free v (17, s) = (s = 0 \<or> s = 10)" using ad b(3) [of 17] by auto
  obtain w where "vdrive_command_allocate_chain v ?z 17 0 0 = Some (CBMDOS_IPE_OK, 2, w)"
    "\<not> sector_is_free w (17, 0)" "\<not> sector_is_free w (17, 10)"
    using validated_chain [OF d(1) b(2) d(7) ch(1) v(3,2), of ?z 0] v(4) ad by auto
  moreover obtain u where "vdrive_command_allocate_chain v ?z 17 1 0 = Some (CBMDOS_IPE_NO_BLOCK, 0, u)"
    using validated_chain [OF d(1) b(2) d(7) ch(2) v(3,2), of ?z 0] v(4) by auto
  ultimately show ?thesis using v(1) by blast
qed

end
