(* ===== verification/IecClose.thy ===== *)
theory IecClose
  imports IecFile
begin

text \<open>
  Closing a file that was written: what is then on the disk. The directory entry, the sectors
  of the file and the BAM are all there, so that they survive the drive.
\<close>

subsection \<open>The directory entry\<close>

definition entry_address :: "vdrive \<Rightarrow> nat \<Rightarrow> nat \<times> nat" where
  "entry_address v ch = (dtrack (dir (chan v ch)), dsector (dir (chan v ch)))"

text \<open>The channel knows where the entry of its file is, in a sector of the directory.\<close>

definition entry_ok :: "vdrive \<Rightarrow> nat \<Rightarrow> buffer \<Rightarrow> bool" where
  "entry_ok v ch sec = (holds v (entry_address v ch) sec \<and> entry_address v ch \<notin> data_sectors v \<and>
     entry_address v ch \<notin> bam_homes v \<and> length (dbuffer (dir (chan v ch))) = 256 \<and> dslot (dir (chan v ch)) < 8)"

text \<open>A directory sector after its slot was replaced; the first two bytes of a slot stay.\<close>

definition with_entry :: "buffer \<Rightarrow> nat \<Rightarrow> buffer \<Rightarrow> buffer" where
  "with_entry sec n slot = write_at sec (n * 32 + 2) (slice slot 2 30)"

lemma with_entry_nth:
  assumes "length sec = 256" "length slot = 32" "n < 8" "i < 256"
  shows "with_entry sec n slot ! i = (if i div 32 = n \<and> 2 \<le> i mod 32 then slot ! (i mod 32) else sec ! i)"
proof -
  have l: "length (slice slot 2 30) = 30" using assms(2) by simp
  have i: "i = 32 * (i div 32) + i mod 32" "i mod 32 < 32" by simp_all
  consider "i div 32 = n" | "i div 32 < n" | "n < i div 32" by linarith
  then show ?thesis
  proof cases
    case 1
    then obtain j where j: "i = n * 32 + j" "j < 32" "i mod 32 = j" using i by (metis mult.commute)
    have "i - (n * 32 + 2) = j - 2" "2 \<le> j \<Longrightarrow> 2 + (j - 2) = j" using j(1) by simp_all
    then show ?thesis
      unfolding j(3) with_entry_def using assms j(1,2) l 1
      by (cases "2 \<le> j") (simp_all add: nth_write_at nth_slice del: add_2_eq_Suc)
  next
    case 2
    then have "i < n * 32 + 2" using i by linarith
    then show ?thesis using assms l 2 by (simp add: with_entry_def nth_write_at)
  next
    case 3
    then have "n * 32 + 32 \<le> i" using i by linarith
    then show ?thesis using assms l 3 by (simp add: with_entry_def nth_write_at)
  qed
qed

lemma update_dirent_ok:
  assumes "writable v" "ch < length (buffers v)" "bslot (chan v ch) = Some slot" "length slot = 32"
    "entry_ok v ch sec"
  defines "sec' \<equiv> with_entry sec (dslot (dir (chan v ch))) slot"
  obtains w where "vdrive_iec_update_dirent v ch = (0, w)" "writable w"
    "\<And>x y. holds w x y = (if x = entry_address v ch then y = sec' else holds v x y)"
    "sector_is_free w = sector_is_free v" "bam_homes w = bam_homes v" "drive_setup w = drive_setup v"
    "chan w ch = (chan v ch)\<lparr>dir := (dir (chan v ch))\<lparr>dbuffer := sec'\<rparr>\<rparr>"
proof -
  let ?d = "dir (chan v ch)" and ?a = "entry_address v ch"
  let ?w = "upd_chan ch (\<lambda>p. p\<lparr>dir := ?d\<lparr>dbuffer := sec'\<rparr>\<rparr>) v"
  have h: "holds v (dtrack ?d, dsector ?d) sec" "length sec = 256" "dslot ?d < 8" "logical_valid v ?a" "?a \<notin> bam_homes v"
    "length (dbuffer ?d) = 256"
    using assms(5) by (auto simp: entry_ok_def entry_address_def holds_def)
  have m: "mounted v" using assms(1) by (simp add: writable_def)
  have rd: "vdrive_read_sector v (dbuffer ?d) (dtrack ?d) (dsector ?d) = (0, v, sec)"
    using m h by (intro holds_read)
  have len: "length sec' = 256" using h(2,3) assms(4) by (simp add: sec'_def with_entry_def)
  have w: "writable ?w" "logical_valid ?w ?a" "?a \<notin> bam_homes ?w" using assms(1) h(4,5) by simp_all
  obtain hp where hp: "vdrive_write_sector ?w sec' (fst ?a) (snd ?a) = (0, ?w\<lparr>disk_heap := hp\<rparr>)"
    "writable (?w\<lparr>disk_heap := hp\<rparr>)"
    "\<And>x y. holds (?w\<lparr>disk_heap := hp\<rparr>) x y = (if x = ?a then y = sec' else holds ?w x y)"
    "data_sectors (?w\<lparr>disk_heap := hp\<rparr>) = data_sectors ?w" "sector_is_free (?w\<lparr>disk_heap := hp\<rparr>) = sector_is_free ?w"
    "blocks_free (?w\<lparr>disk_heap := hp\<rparr>) = blocks_free ?w" "bam_homes (?w\<lparr>disk_heap := hp\<rparr>) = bam_homes ?w"
    by (rule write_sector_change [OF w(1,2) len w(3)]) (rule that)
  have "vdrive_iec_update_dirent v ch = (0, ?w\<lparr>disk_heap := hp\<rparr>)"
    using hp(1) assms(3)
    by (simp add: vdrive_iec_update_dirent_def Let_def rd sec'_def with_entry_def entry_address_def)
  then show ?thesis using that hp(2-) assms(2) by simp
qed

subsection \<open>Flushing the BAM\<close>

lemma write_sector_success:
  assumes "vdrive_write_sector v b t s = (0, w)"
  shows "image_mode w = 0" "drive_setup w = drive_setup v" "buffers w = buffers v"
  using assms unfolding vdrive_write_sector_def Let_def
  by (auto simp: drive_setup_def set_cur_image_def update_image_mode_def split: if_splits option.splits prod.splits)

lemma write_bam_success:
  assumes "vdrive_bam_write_bam v = (0, w)" "image_mode v = 0"
  shows "image_mode w = 0" "drive_setup w = drive_setup v" "buffers w = buffers v"
proof -
  have loop: "image_mode w = 0 \<and> drive_setup w = drive_setup v \<and> buffers w = buffers v"
    if "write_bam_loop v i n 0 = (0, w)" "image_mode v = 0" for v w i n
    using that
  proof (induction n arbitrary: v i)
    case (Suc n)
    show ?case
    proof (cases "bam_state v ! i > 0")
      case True
      then obtain v' where v': "vdrive_write_sector v (slice (the (bam v)) (i * 256) 256)
          (c_unsigned (bam_tracks v ! i)) (c_unsigned (bam_sectors v ! i)) = (0, v')"
        "write_bam_loop (bam_mark i 0 v') (Suc i) n 0 = (0, w)"
        using Suc.prems(1) by (auto split: prod.splits if_splits)
      have "image_mode (bam_mark i 0 v') = 0" using write_sector_success(1) [OF v'(1)] by (simp add: bam_mark_def)
      then show ?thesis
        using Suc.IH [OF v'(2)] write_sector_success(2,3) [OF v'(1)] by (simp add: bam_mark_def drive_setup_def)
    next
      case False
      then show ?thesis using Suc by simp
    qed
  qed simp
  have "image_mode (place_1581 v) = image_mode v" "drive_setup (place_1581 v) = drive_setup v" "buffers (place_1581 v) = buffers v"
    by (simp_all add: place_1581_def drive_setup_def upt_conv_Cons)
  then show "image_mode w = 0" "drive_setup w = drive_setup v" "buffers w = buffers v"
    using assms loop unfolding vdrive_bam_write_bam_def Let_def by (auto split: if_splits)
qed

lemma flush_ok:
  assumes "writable v"
  obtains w where "vdrive_bam_write_bam v = (0, w)" "bam_synced w" "\<forall>j < bam_blocks w. bam_state w ! j = 0"
    "\<And>a b. a \<notin> bam_homes v \<Longrightarrow> holds w a b = holds v a b" "sector_is_free w = sector_is_free v" "bam_homes w = bam_homes v"
    "mounted w" "drive_setup w = drive_setup v" "buffers w = buffers v" "\<And>a. a \<in> bam_homes v \<Longrightarrow> logical_valid w a"
proof -
  have v: "bam_attached v" "bam_synced v" "bam_loaded v"
    using assms by (simp_all add: writable_def searchable_def bam_ok_def)
  then have "\<forall>j < bam_blocks v. 0 \<le> bam_state v ! j" by (simp add: bam_loaded_def bam_blocks_def)
  then obtain w where w: "vdrive_bam_write_bam v = (0, w)" "flushed 0 v w" using write_bam_flushes [OF v(1,2)] by blast
  then have f: "same_homes v w" "bam w = bam v" "bam_synced w" "\<forall>j < bam_blocks w. bam_state w ! j = 0"
    "logical_valid w = logical_valid v"
    "\<forall>a. logical_valid v a \<longrightarrow> a \<notin> bam_homes v \<longrightarrow> logical_read w a = logical_read v a"
    using same_homes_blocks [of v w] by (simp_all add: flushed_def bam_homes_def)
  have fr: "sector_is_free w = sector_is_free v"
    using f(1,2) by (simp add: fun_eq_iff sector_is_free_def bam_byte_def same_homes_def)
  have oth: "holds w a b = holds v a b" if "a \<notin> bam_homes v" for a b
    using f(5,6) that by (cases a) (auto simp: holds_def)
  have "image_mode v = 0" using assms by (simp add: writable_def mounted_def)
  note keep = write_bam_success [OF w(1) this]
  have "bam_attached w" using w(2) by (simp add: flushed_def)
  then have "mounted w" using keep(1) by (simp add: mounted_def bam_attached_def)
  moreover have "logical_valid w a" if "a \<in> bam_homes v" for a
    using that v(1) f(5) by (auto simp: bam_attached_def bam_homes_def)
  ultimately show ?thesis using that w(1) f(3,4) fr oth keep(2,3) bam_homes_same [OF f(1)] by blast
qed

text \<open>Every block of the BAM is on disk.\<close>

definition bam_saved :: "vdrive \<Rightarrow> bool" where
  "bam_saved v = (\<forall>j < bam_blocks v. logical_read v (bam_home v j) = (CBMDOS_IPE_OK, bam_block v j))"

lemma bam_saved_chan: "bam_saved v \<Longrightarrow> bam_saved (upd_chan ch f v)"
proof -
  let ?w = "upd_chan ch f v"
  have "same_disk v ?w" "image_mode ?w = image_mode v" "same_homes v ?w" "bam ?w = bam v"
    by (simp_all add: upd_chan_def same_disk_def same_homes_def)
  then show "bam_saved v \<Longrightarrow> bam_saved ?w"
    using same_disk_read(1) [of v ?w] same_homes_home [of v ?w] same_homes_blocks [of v ?w]
    by (simp add: bam_saved_def bam_block_def)
qed

lemma chained_cong: "(\<And>c. c \<in> set cs \<Longrightarrow> holds w (fst c) (snd c) = holds v (fst c) (snd c)) \<Longrightarrow> chained w a cs = chained v a cs"
  by (induction v a cs rule: chained.induct) auto

lemma chained_addresses: "chained v a cs \<Longrightarrow> c \<in> set cs \<Longrightarrow> holds v (fst c) (snd c)"
  by (induction v a cs rule: chained.induct) auto

lemma closes_written_file:
  assumes "new_file v ch" "entry_ok v ch sec" "bslot (chan v ch) = Some slot0" "xs \<noteq> []" "length xs \<le> 254 * blocks_free v"
  shows "\<exists>w1 w slot cs. send_bytes junk tmp t0 ch v xs = (SERIAL_OK, w1) \<and>
    iec_close_sequential junk tmp buf t0 now w1 ch = Some (SERIAL_OK, w) \<and>
    holds w (entry_address v ch) (with_entry sec (dslot (dir (chan v ch))) slot) \<and>
    length slot = 32 \<and> slot ! SLOT_TYPE_OFFSET = slot0 ! SLOT_TYPE_OFFSET OR 0x80 \<and>
    list_all (\<lambda>i. slot ! i = slot0 ! i) [SLOT_NAME_OFFSET..<SLOT_NR_BLOCKS] \<and>
    chained w (unat (slot ! SLOT_FIRST_TRACK), unat (slot ! SLOT_FIRST_SECTOR)) cs \<and>
    ends_well cs \<and> file_bytes cs = xs \<and> slot_blocks slot = length cs mod 65536 \<and> bam_saved w \<and>
    (\<forall>a \<in> data_sectors v. sector_is_free w a = (sector_is_free v a \<and> a \<notin> set (map fst cs))) \<and>
    (\<forall>a b. a \<in> data_sectors v \<and> sector_is_free v a \<or> a \<in> bam_homes v \<or> a = entry_address v ch \<or>
       holds w a b = holds v a b) \<and>
    mounted w \<and> drive_setup w = drive_setup v \<and> bam_homes w = bam_homes v \<and> (\<forall>a \<in> bam_homes v. logical_valid w a) \<and>
    mode (chan w ch) = BUFFER_NOT_IN_USE \<and> length (dbuffer (dir (chan w ch))) = 256 \<and>
    (\<exists>b. buffer_ptr (chan w ch) = BUF_HEAP b \<and> length b = 256)"
proof -
  obtain w1 w2 slot cs b where w: "send_bytes junk tmp t0 ch v xs = (SERIAL_OK, w1)"
    "iec_write_sequential t0 w1 ch (bufptr (chan w1 ch)) = (0, w2)" "channel_ok w2 ch b"
    "bslot (chan w2 ch) = Some slot" "length slot = 32" "slot_blocks slot = blocks_needed (length xs) mod 65536"
    "chained w2 (slot_link slot) cs" "ends_well cs" "file_bytes cs = xs" "length cs = blocks_needed (length xs)"
    "grown v w2 (map fst cs)" "same_entry (the (bslot (chan v ch))) slot" "dir (chan w2 ch) = dir (chan v ch)"
    "\<exists>cs b. file_state v w1 ch cs b xs"
    by (rule written_file [OF assms(1,4,5)])
  obtain b1 cs1 where st1: "file_state v w1 ch cs1 b1 xs" using w(14) by blast
  define slot' where "slot' = slot[2 := slot ! 2 OR 0x80]"
  define w3 where "w3 = put_slot_byte ch 2 (slot ! 2 OR 0x80) w2"
  have w3: "ch < length (buffers w3)" "bslot (chan w3 ch) = Some slot'" "length slot' = 32" "dir (chan w3 ch) = dir (chan v ch)"
    "needsupdate (chan w3 ch) = 0" "writable w3" "holds w3 = holds w2" "sector_is_free w3 = sector_is_free w2"
    "bam_homes w3 = bam_homes v" "\<not> haspt w3" "data_sectors w3 = data_sectors v"
    using w(3-5,11,13) writable_no_pt [OF w(11)]
    by (simp_all add: w3_def put_slot_byte_def slot'_def channel_ok_def grown_def)
  let ?a = "entry_address v ch" and ?sec = "with_entry sec (dslot (dir (chan v ch))) slot'"
  have a: "entry_address w3 ch = ?a" by (simp add: entry_address_def w3(4))
  have own: "\<forall>x \<in> set (map fst cs). x \<in> data_sectors v \<and> sector_is_free v x \<and> x \<notin> bam_homes v"
    using w(11) by (auto simp: grown_def)
  have same: "holds w2 x y = holds v x y" if "x \<notin> set (map fst cs)" for x y using w(11) that unfolding grown_def by blast
  have "?a \<notin> set (map fst cs)" using assms(2) own by (auto simp: entry_ok_def)
  then have en: "entry_ok w3 ch sec" using assms(2) same a w3 by (simp add: entry_ok_def)
  obtain w4 where w4: "vdrive_iec_update_dirent w3 ch = (0, w4)" "writable w4"
    "\<And>x y. holds w4 x y = (if x = ?a then y = ?sec else holds w2 x y)"
    "sector_is_free w4 = sector_is_free w2" "bam_homes w4 = bam_homes v" "drive_setup w4 = drive_setup w3"
    "chan w4 ch = (chan w3 ch)\<lparr>dir := (dir (chan v ch))\<lparr>dbuffer := ?sec\<rparr>\<rparr>"
    by (rule update_dirent_ok [OF w3(6,1,2,3) en, unfolded a w3]) (rule that)
  obtain w5 where w5: "vdrive_bam_write_bam w4 = (0, w5)" "bam_synced w5" "\<forall>j < bam_blocks w5. bam_state w5 ! j = 0"
    "\<And>a b. a \<notin> bam_homes w4 \<Longrightarrow> holds w5 a b = holds w4 a b" "sector_is_free w5 = sector_is_free w4"
    "bam_homes w5 = bam_homes w4" "mounted w5" "drive_setup w5 = drive_setup w4" "buffers w5 = buffers w4"
    "\<And>a. a \<in> bam_homes w4 \<Longrightarrow> logical_valid w5 a"
    by (rule flush_ok [OF w4(2)]) (rule that)
  let ?w = "upd_chan ch vdrive_free_buffer w5"
  have "\<not> VDRIVE_IS_READONLY w1" "readmode (chan w1 ch) = CBMDOS_FAM_WRITE"
    using st1 by (auto simp: file_state_def grown_def writable_def mounted_def VDRIVE_IS_READONLY_def channel_ok_def)
  then have close: "iec_close_sequential junk tmp buf t0 now w1 ch = Some (SERIAL_OK, ?w)"
    using w3(5,10) by (simp add: iec_close_sequential_def file_state_switch [OF st1] w(2,4) w3_def [symmetric] w4(1) w5(1))
  have "bam_saved w5" using w5(2,3) by (simp add: bam_saved_def bam_synced_def)
  then have saved: "bam_saved ?w" by (rule bam_saved_chan)
  have hold: "holds ?w x y = (if x = ?a then y = ?sec else holds w2 x y)" if "x \<notin> bam_homes v" for x y
    using w5(4) w4(3,5) that by simp
  have entry: "holds ?w ?a ?sec" using hold assms(2) by (simp add: entry_ok_def)
  have chain: "chained ?w (slot_link slot') cs"
  proof -
    have "chained ?w (slot_link slot') cs = chained w2 (slot_link slot') cs"
    proof (rule chained_cong)
      fix c assume "c \<in> set cs"
      then have "fst c \<notin> bam_homes v" "fst c \<noteq> ?a" using own \<open>?a \<notin> set (map fst cs)\<close> by (auto simp: image_iff)
      then show "holds ?w (fst c) (snd c) = holds w2 (fst c) (snd c)" using hold [of "fst c" "snd c"] by simp
    qed
    then show ?thesis using w(7) by (simp add: slot'_def)
  qed
  have slot0: "slot' ! 2 = slot0 ! 2 OR 0x80" "list_all (\<lambda>i. slot' ! i = slot0 ! i) [5..<30]"
    using w(5,12) assms(3) by (auto simp: slot'_def same_entry_def list_all_iff)
  have "slot_blocks slot' = length cs mod 65536" using w(6,10) by (simp add: slot'_def slot_blocks_def)
  moreover have "\<forall>a \<in> data_sectors v. sector_is_free ?w a = (sector_is_free v a \<and> a \<notin> set (map fst cs))"
    using w(11) by (simp add: w5(5) w4(4) grown_def)
  moreover have "\<forall>a b. a \<in> data_sectors v \<and> sector_is_free v a \<or> a \<in> bam_homes v \<or> a = ?a \<or> holds ?w a b = holds v a b"
    using own same hold by metis
  moreover have "drive_setup w3 = drive_setup v" using w(11) by (simp add: w3_def put_slot_byte_def grown_def)
  then have "drive_setup ?w = drive_setup v" "ch < length (buffers w5)"
    using w5(8) w4(6) w3(1) drive_setup_buffers [of w5 w3] by simp_all
  moreover have "length ?sec = 256" using entry by (simp add: holds_def)
  then have "mode (chan ?w ch) = BUFFER_NOT_IN_USE" "length (dbuffer (dir (chan ?w ch))) = 256"
    "buffer_ptr (chan ?w ch) = BUF_HEAP b" "length b = 256"
    using calculation(5) w5(9) w4(7) w(3) by (simp_all add: vdrive_free_buffer_def w3_def put_slot_byte_def channel_ok_def)
  moreover have "mounted ?w" "bam_homes ?w = bam_homes v" "\<forall>a \<in> bam_homes v. logical_valid ?w a"
    using w5(6,7,10) w4(5) by simp_all
  ultimately show ?thesis using w(1,8,9) close entry chain slot0 saved w3(3) by blast
qed

subsection \<open>Properties\<close>

text \<open>
  C34. Closing a written file. Closing succeeds and leaves on the disk: the directory entry,
  with the type, name and other data it was opened with and marked as closed, in its slot of
  the directory sector, the rest of which is as before; the bytes of the file in the chain the
  entry leads to, and their number of blocks in the entry; and the BAM, in which exactly the
  sectors of the chain are not free any more. Every other sector that was not free is as
  before.
\<close>

theorem sequential_file_closed:
  assumes "new_file v ch" "entry_ok v ch sec" "bslot (chan v ch) = Some slot0" "xs \<noteq> []" "length xs \<le> 254 * blocks_free v"
  shows "\<exists>w1 w slot cs. send_bytes junk tmp t0 ch v xs = (SERIAL_OK, w1) \<and>
    iec_close_sequential junk tmp buf t0 now w1 ch = Some (SERIAL_OK, w) \<and>
    holds w (entry_address v ch) (with_entry sec (dslot (dir (chan v ch))) slot) \<and>
    slot ! SLOT_TYPE_OFFSET = slot0 ! SLOT_TYPE_OFFSET OR 0x80 \<and>
    list_all (\<lambda>i. slot ! i = slot0 ! i) [SLOT_NAME_OFFSET..<SLOT_NR_BLOCKS] \<and>
    chained w (unat (slot ! SLOT_FIRST_TRACK), unat (slot ! SLOT_FIRST_SECTOR)) cs \<and>
    ends_well cs \<and> file_bytes cs = xs \<and> slot_blocks slot = length cs mod 65536 \<and> bam_saved w \<and>
    (\<forall>a \<in> data_sectors v. sector_is_free w a = (sector_is_free v a \<and> a \<notin> set (map fst cs))) \<and>
    (\<forall>a b. a \<in> data_sectors v \<and> sector_is_free v a \<or> a \<in> bam_homes v \<or> a = entry_address v ch \<or>
       holds w a b = holds v a b)"
  using closes_written_file [OF assms] by blast

theorem sequential_file_closed_witness:
  "\<exists>w1 w slot cs. send_bytes (\<lambda>_. 0) [] 0 2 writer_1541 [1, 2, 3] = (SERIAL_OK, w1) \<and>
    iec_close_sequential (\<lambda>_. 0) [] [] 0 some_time w1 2 = Some (SERIAL_OK, w) \<and>
    holds w (18, 1) (with_entry (replicate 256 0) 0 slot) \<and> slot ! SLOT_TYPE_OFFSET = 0x81 \<and>
    chained w (unat (slot ! SLOT_FIRST_TRACK), unat (slot ! SLOT_FIRST_SECTOR)) cs \<and> file_bytes cs = [1, 2, 3]"
proof -
  obtain h where h: "free_1541 = (dirty_1541 free_bam)\<lparr>disk_heap := h\<rparr>" using free_1541_heap by blast
  have "buffers free_1541 = buffers (blank_drive FORMAT_1541 (d64_file_image (replicate 174848 0) None) 35)"
    by (simp add: h) (simp add: dirty_1541_def)
  then have d: "dtrack (dir (chan writer_1541 2)) = 18" "dsector (dir (chan writer_1541 2)) = 1"
    "dslot (dir (chan writer_1541 2)) = 0" "length (dbuffer (dir (chan writer_1541 2))) = 256"
    "bslot (chan writer_1541 2) = Some ((replicate 32 0)[2 := 1])"
    by (simp_all add: writer_1541_def blank_drive_def)
  then have a: "entry_address writer_1541 2 = (18, 1)" by (simp add: entry_address_def)
  have e: "entry_ok writer_1541 2 (replicate 256 0)"
    using writer_1541_simps(3-5) d by (simp add: entry_ok_def a)
  have len: "[1 :: byte, 2, 3] \<noteq> []" "length [1 :: byte, 2, 3] \<le> 254 * blocks_free writer_1541"
    using writer_1541_simps(2) by simp_all
  have t: "(replicate 32 0)[2 := 1] ! 2 OR 0x80 = (0x81 :: byte)" by simp
  show ?thesis
    using sequential_file_closed [OF writer_1541_simps(1) e d(5) len, of "\<lambda>_. 0" "[]" 0 "[]" some_time]
    unfolding a d(3) t by blast
qed

end
