(* ===== verification/FileOpen.thy ===== *)
theory FileOpen
  imports Iec IecClose
begin

text \<open>
  Files opened by name through the serial interface (\<^verbatim>\<open>vdrive_iec_open\<close> in \<^verbatim>\<open>lib/vdrive/vdrive-iec.c\<close>):
  from the name a host sends to the entry on the disk and the channel ready for the bytes.
\<close>

subsection \<open>The error channel\<close>

lemma channels_only_eq:
  "channels_only v w \<longleftrightarrow> w = v\<lparr>buffers := buffers w, last_read := last_read w, last_code := last_code w, ram := ram w,
     dir_count := dir_count w, dir_part := dir_part w\<rparr>" (is "?l \<longleftrightarrow> w = ?r")
proof
  assume ?l
  then show "w = ?r" unfolding channels_only_def by (elim exE) simp
next
  assume "w = ?r"
  then show ?l unfolding channels_only_def by blast
qed

lemma set_error_change: "channels_only v (snd (vdrive_command_set_error v st t s))"
  unfolding channels_only_eq
  by (cases v; cases "buffer_ptr (chan v 15)")
    (simp_all add: vdrive_command_set_error_def buffer_store_def Let_def)

lemma set_error_chan [simp]:
  "ch \<noteq> 15 \<Longrightarrow> chan (snd (vdrive_command_set_error v st t s)) ch = chan v ch"
  "length (buffers (snd (vdrive_command_set_error v st t s))) = length (buffers v)"
  by (simp_all add: vdrive_command_set_error_def buffer_store_def Let_def split: channel_buffer.split)

lemma channels_only_fields:
  assumes "channels_only v w"
  shows "haspt w = haspt v" "current_part w = current_part v" "image_format w = image_format v" "images w = images v"
    "Header_Track w = Header_Track v" "Header_Sector w = Header_Sector v" "Dir_Track w = Dir_Track v"
    "Dir_Sector w = Dir_Sector v" "image_mode w = image_mode v" "image_ptr w = image_ptr v" "cur_image w = cur_image v"
    "unit_no w = unit_no v" "num_tracks w = num_tracks v" "bam w = bam v"
  using assms by (auto simp: channels_only_def cur_image_def)

lemma channels_only_trans:
  assumes "channels_only u v" "channels_only v w"
  shows "channels_only u w"
proof -
  have "v = u\<lparr>buffers := buffers v, last_read := last_read v, last_code := last_code v, ram := ram v,
     dir_count := dir_count v, dir_part := dir_part v\<rparr>" using assms(1) by (simp only: channels_only_eq)
  moreover have "w = v\<lparr>buffers := buffers w, last_read := last_read w, last_code := last_code w, ram := ram w,
     dir_count := dir_count w, dir_part := dir_part w\<rparr>" using assms(2) by (simp only: channels_only_eq)
  ultimately show ?thesis unfolding channels_only_eq by (cases u; cases v; cases w) simp
qed

lemma channels_only_refl: "channels_only v v"
  using upd_chan_change [of v 0 "\<lambda>p. p"] by (simp add: upd_chan_def)

lemma channels_only_setup: "channels_only v w \<Longrightarrow> length (buffers w) = length (buffers v) \<Longrightarrow> drive_setup w = drive_setup v"
  by (simp add: drive_setup_def channels_only_fields)

subsection \<open>Looking up a name\<close>

text \<open>A disk with a directory: its sectors form a chain that ends.\<close>

definition directory :: "vdrive \<Rightarrow> ((nat \<times> nat) \<times> buffer) list \<Rightarrow> bool" where
  "directory v cs = (mounted v \<and> image_format v \<noteq> FORMAT_NP \<and> Dir_Track v < 256 \<and> Dir_Sector v < 256 \<and>
     (\<exists>hb. holds v (Header_Track v, Header_Sector v) hb) \<and> chained v (Dir_Track v, Dir_Sector v) cs)"

lemma directory_change: "channels_only v w \<Longrightarrow> directory w = directory v"
  by (intro ext) (simp add: directory_def chan_change channels_only_fields)

lemma visits_place:
  assumes "d' \<in> set (visits d cs)" "dslot d = 7"
  shows "\<exists>c \<in> set cs. dbuffer d' = snd c \<and> dslot d' < 8 \<and> (dtrack d', dsector d') = fst c"
proof -
  obtain c where c: "c \<in> set cs" "d' \<in> set (slots_of d c)" using assms by (auto simp: visits_def)
  then show ?thesis by (intro bexI [of _ c]) (auto simp: slots_of_def)
qed

lemma chained_holds: "chained v a cs \<Longrightarrow> c \<in> set cs \<Longrightarrow> holds v (fst c) (snd c)"
  by (induction v a cs rule: chained.induct) auto

lemma lookup:
  assumes "directory v cs" "length (dbuffer d) = 256"
  obtains d1 where "vdrive_dir_find_first_slot v name len ty d = (v, d1)" "dslot d1 = 7"
    "find_nslot d1 = (if len > 0 then cbmdos_dir_slot_create name (nat len) else find_nslot d)"
    "\<And>d'. d' \<in> set (visits d1 cs) \<Longrightarrow> slot_matches d' = (vdrive_dir_name_match (cur_slot d') (find_nslot d1) len ty \<noteq> 0)"
    "\<And>tmp d'. find slot_matches (visits d1 cs) = Some d' \<Longrightarrow>
      vdrive_dir_find_next_slot v tmp d1 = Some (Some (cur_slot d'), v, d')"
    "\<And>tmp. find slot_matches (visits d1 cs) = None \<Longrightarrow> 0 \<le> len \<Longrightarrow>
      vdrive_dir_find_next_slot v tmp d1 = Some (None, v, at_end d1 cs)"
    "length (dbuffer (at_end d1 cs)) = 256"
proof -
  obtain hb where v: "mounted v" "image_format v \<noteq> FORMAT_NP" "Dir_Track v < 256" "Dir_Sector v < 256"
    "holds v (Header_Track v, Header_Sector v) hb" "chained v (Dir_Track v, Dir_Sector v) cs"
    using assms(1) by (auto simp: directory_def)
  obtain d1 where d1: "vdrive_dir_find_first_slot v name len ty d = (v, d1)"
    "dbuffer d1 = hb[0 := of_nat (Dir_Track v), 1 := of_nat (Dir_Sector v)]" "dslot d1 = 7"
    "find_length d1 = len" "find_type d1 = ty" "time_low d1 = 0" "time_high d1 = 0xffffffff"
    "find_nslot d1 = (if len > 0 then cbmdos_dir_slot_create name (nat len) else find_nslot d)"
    by (rule first_slot_context [OF v(1,2,5) assms(2)])
  have l: "link (dbuffer d1) = (Dir_Track v, Dir_Sector v)" "length (dbuffer d1) = 256"
    using v(3-5) by (simp_all add: d1(2) holds_def unat_of_nat)
  have ch: "chained v (link (dbuffer d1)) cs" using v(6) l(1) by simp
  note srch = slot_search_visits [OF v(1) l(2) ch, of "-1" slot_matches]
  have "slot_matches d' = (vdrive_dir_name_match (cur_slot d') (find_nslot d1) len ty \<noteq> 0)"
    if "d' \<in> set (visits d1 cs)" for d'
    using visits_keep [OF that] d1(4-7) slot_date_bound by (simp add: slot_matches_def)
  moreover have "vdrive_dir_find_next_slot v tmp d1 = Some (Some (cur_slot d'), v, d')"
    if "find slot_matches (visits d1 cs) = Some d'" for tmp d'
    using srch that by (simp add: vdrive_dir_find_next_slot_def vdrive_dir_find_next_slot_limited_def)
  moreover have "vdrive_dir_find_next_slot v tmp d1 = Some (None, v, at_end d1 cs)"
    if "find slot_matches (visits d1 cs) = None" "0 \<le> len" for tmp
    using srch that d1(4) by (simp add: vdrive_dir_find_next_slot_def vdrive_dir_find_next_slot_limited_def at_end_def)
  moreover have "length (dbuffer (at_end d1 cs)) = 256"
  proof -
    have "\<forall>c \<in> set cs. length (snd c) = 256" using chained_holds [OF ch] by (simp add: holds_def)
    then show ?thesis using l(2) by (simp add: at_end_def)
  qed
  ultimately show ?thesis using that d1(1,3,8) by blast
qed

subsection \<open>Opening a new file\<close>

text \<open>The slot of a new file.\<close>

definition new_slot :: "buffer \<Rightarrow> nat \<Rightarrow> nat \<Rightarrow> buffer" where
  "new_slot name len ty = (write_at (memset (replicate 32 0) 5 0xa0 16) 5 (take len name))[2 := of_nat ty]"

lemma length_new_slot [simp]: "len \<le> 16 \<Longrightarrow> length (new_slot name len ty) = 32"
  by (simp add: new_slot_def)

text \<open>A channel that is not in use.\<close>

definition idle :: "bufferinfo \<Rightarrow> bool" where
  "idle p = (mode p = BUFFER_NOT_IN_USE \<and> length (dbuffer (dir p)) = 256 \<and>
     (case buffer_ptr p of BUF_HEAP b \<Rightarrow> length b = 256 | _ \<Rightarrow> True))"

lemma alloc_heap:
  assumes "case buffer_ptr p of BUF_HEAP b \<Rightarrow> length b = 256 | _ \<Rightarrow> True"
  obtains b where "length b = 256" "vdrive_alloc_buffer p (-1) md = p\<lparr>buffer_ptr := BUF_HEAP b, mode := md, bufnum := -1\<rparr>"
proof (cases "buffer_ptr p")
  case (BUF_HEAP b)
  then show ?thesis using assms that [of b] by (cases p) (simp add: vdrive_alloc_buffer_def)
qed (rule that [of "replicate 256 0"]; simp add: vdrive_alloc_buffer_def)+

text \<open>
  The directory of a disk that can be written to lies outside of the sectors of files and of the BAM,
  the header outside of the sectors of files.
\<close>

definition open_disk :: "vdrive \<Rightarrow> ((nat \<times> nat) \<times> buffer) list \<Rightarrow> bool" where
  "open_disk v cs = (writable v \<and> directory v cs \<and> current_part v = 0 \<and> image_format v \<noteq> FORMAT_1581 \<and>
     images v ! 0 \<noteq> None \<and> (\<forall>a \<in> bam_homes v. a \<in> data_sectors v \<longrightarrow> \<not> sector_is_free v a) \<and>
     (Header_Track v, Header_Sector v) \<notin> data_sectors v \<and> (\<forall>c \<in> set cs. fst c \<notin> data_sectors v \<and> fst c \<notin> bam_homes v))"

lemma open_disk_change: "channels_only v w \<Longrightarrow> open_disk w = open_disk v"
  by (intro ext) (simp add: open_disk_def chan_change channels_only_fields directory_change)

lemma opens_new_file:
  assumes "open_disk v cs" "ch < length (buffers v)" "ch \<noteq> 15"
    "length (dbuffer (dir (chan v ch))) = 256" "bslot (chan v ch) = None" "readmode (chan v ch) = CBMDOS_FAM_WRITE"
    "bpartition (chan v ch) < 2 ^ 31" "case buffer_ptr (chan v ch) of BUF_HEAP b \<Rightarrow> length b = 256 | _ \<Rightarrow> True"
    "filelength cp \<le> 16" "\<exists>slot \<in> set (directory_slots cs). slot ! SLOT_TYPE_OFFSET = 0"
  obtains w c where "iec_open_write u v ch cp = Some (SERIAL_OK, w)" "new_file w ch"
    "c \<in> set cs" "entry_address w ch = fst c"
    "entry_ok w ch (with_entry (snd c) (dslot (dir (chan w ch))) (new_slot (the (pfile cp)) (filelength cp) (filetype cp)))"
    "snd c ! (dslot (dir (chan w ch)) * 32 + 2) = 0"
    "bslot (chan w ch) = Some (new_slot (the (pfile cp)) (filelength cp) (filetype cp))"
    "data_sectors w = data_sectors v" "sector_is_free w = sector_is_free v" "bam_homes w = bam_homes v"
    "blocks_free w = blocks_free v"
    "\<And>a b. a \<noteq> fst c \<Longrightarrow> holds w a b = holds v a b" "drive_setup w = drive_setup v"
proof -
  let ?slot = "new_slot (the (pfile cp)) (filelength cp) (filetype cp)"
  have v: "writable v" "directory v cs" "current_part v = 0" "image_format v \<noteq> FORMAT_1581"
    "\<forall>a \<in> bam_homes v. a \<in> data_sectors v \<longrightarrow> \<not> sector_is_free v a"
    "\<forall>c \<in> set cs. fst c \<notin> data_sectors v \<and> fst c \<notin> bam_homes v"
    using assms(1) by (simp_all add: open_disk_def)
  have np: "image_format v \<noteq> FORMAT_NP" and ro: "\<not> VDRIVE_IS_READONLY v"
    using v(1,2) by (auto simp: directory_def writable_def mounted_def VDRIVE_IS_READONLY_def)
  define v1 where "v1 = upd_chan ch (\<lambda>p. p\<lparr>needsupdate := 0\<rparr>) v"
  define v2 where "v2 = vdrive_dir_create_slot v1 ch (the (pfile cp)) (filelength cp) (filetype cp)"
  define q where "q = (chan v ch)\<lparr>needsupdate := 0, bslot := Some ?slot\<rparr>"
  have "case buffer_ptr q of BUF_HEAP b \<Rightarrow> length b = 256 | _ \<Rightarrow> True" using assms(8) by (simp add: q_def)
  then obtain b where b: "length b = 256"
    "vdrive_alloc_buffer q (-1) BUFFER_SEQUENTIAL = q\<lparr>buffer_ptr := BUF_HEAP b, mode := BUFFER_SEQUENTIAL, bufnum := -1\<rparr>"
    by (rule alloc_heap)
  have v2: "v2 = upd_chan ch (\<lambda>p. (vdrive_alloc_buffer (p\<lparr>bslot := Some ?slot\<rparr>) (-1) BUFFER_SEQUENTIAL)\<lparr>bufptr := 2\<rparr>) v1"
    by (simp add: v2_def vdrive_dir_create_slot_def new_slot_def)
  have q2: "chan v2 ch = q\<lparr>buffer_ptr := BUF_HEAP b, mode := BUFFER_SEQUENTIAL, bufnum := -1, bufptr := 2\<rparr>"
    using assms(2) b(2) by (simp add: v2 v1_def q_def)
  have c2: "channels_only v v2"
    unfolding v2 v1_def by (rule channels_only_trans [OF upd_chan_change upd_chan_change])
  have l2: "length (buffers v2) = length (buffers v)" by (simp add: v2 v1_def)
  have dir2: "directory v2 cs" using v(2) directory_change [OF c2] by simp
  have "length (dbuffer (dir (chan v2 ch))) = 256" using assms(4) by (simp add: q2 q_def)
  then obtain d1 where d1: "vdrive_dir_find_first_slot v2 [] (-1) 0 (dir (chan v2 ch)) = (v2, d1)" "dslot d1 = 7"
    "\<And>d'. d' \<in> set (visits d1 cs) \<Longrightarrow> slot_matches d' = (vdrive_dir_name_match (cur_slot d') (find_nslot d1) (-1) 0 \<noteq> 0)"
    "\<And>tmp d'. find slot_matches (visits d1 cs) = Some d' \<Longrightarrow>
      vdrive_dir_find_next_slot v2 tmp d1 = Some (Some (cur_slot d'), v2, d')"
    using lookup [OF dir2, of "dir (chan v2 ch)" "[]" "-1" 0] by metis
  have free: "slot_matches d' = (cur_slot d' ! 2 = 0)" if "d' \<in> set (visits d1 cs)" for d'
    using d1(3) [OF that] by (simp add: vdrive_dir_name_match_def)
  have "\<exists>d' \<in> set (visits d1 cs). cur_slot d' ! 2 = 0"
    using assms(10) visits_slots [OF d1(2), of cs] by (metis imageE list.set_map)
  then have "find slot_matches (visits d1 cs) \<noteq> None" using free by (auto simp: find_None_iff)
  then obtain d' where d': "find slot_matches (visits d1 cs) = Some d'" by blast
  then have "d' \<in> set (visits d1 cs)" "slot_matches d'" by (auto simp: find_Some_iff)
  then obtain c where c: "c \<in> set cs" "dbuffer d' = snd c" "dslot d' < 8" "(dtrack d', dsector d') = fst c" "cur_slot d' ! 2 = 0"
    using visits_place [OF _ d1(2)] free by blast
  have "chained v (Dir_Track v, Dir_Sector v) cs" using v(2) by (simp add: directory_def)
  then have hc: "holds v (fst c) (snd c)" using chained_holds c(1) by blast
  then have lc: "length (snd c) = 256" "logical_valid v (fst c)" by (simp_all add: holds_def)
  let ?sec = "with_entry (snd c) (dslot d') ?slot"
  define v4 where "v4 = upd_chan ch (\<lambda>p. p\<lparr>btrack := 0, bsector := 0\<rparr>) (set_dir ch d' v2)"
  define v5 where "v5 = set_dir ch (d'\<lparr>dbuffer := ?sec\<rparr>) v4"
  have c5: "channels_only v v5"
    unfolding v5_def v4_def
    by (rule channels_only_trans [OF channels_only_trans [OF channels_only_trans [OF c2]]]) (rule upd_chan_change)+
  have q5: "chan v5 ch = q\<lparr>buffer_ptr := BUF_HEAP b, mode := BUFFER_SEQUENTIAL, bufnum := -1, bufptr := 2,
      dir := d'\<lparr>dbuffer := ?sec\<rparr>, btrack := 0, bsector := 0\<rparr>"
    using assms(2) by (simp add: v5_def v4_def q2 l2)
  have "image_format v2 \<noteq> FORMAT_NP" using np channels_only_fields [OF c2] by simp
  then have new: "open_new u v1 ch cp = Some (0, v4)"
    using d1(1) d1(4) [OF d'] by (simp add: open_new_def v2_def [symmetric] v4_def Let_def)
  have l: "length ?slot = 32" "length ?sec = 256" using assms(9) lc(1) c(3) by (simp_all add: with_entry_def)
  have w5: "writable v5" "logical_valid v5 (fst c)" "fst c \<notin> bam_homes v5"
    using v(1,6) lc(2) c(1) chan_change [OF c5] by simp_all
  have at: "fst (fst c) = dtrack d'" "snd (fst c) = dsector d'" using c(4) [symmetric] by simp_all
  obtain h where h: "vdrive_write_sector v5 ?sec (dtrack d') (dsector d') = (0, v5\<lparr>disk_heap := h\<rparr>)"
    "writable (v5\<lparr>disk_heap := h\<rparr>)" "\<And>x y. holds (v5\<lparr>disk_heap := h\<rparr>) x y = (if x = fst c then y = ?sec else holds v5 x y)"
    "data_sectors (v5\<lparr>disk_heap := h\<rparr>) = data_sectors v5" "sector_is_free (v5\<lparr>disk_heap := h\<rparr>) = sector_is_free v5"
    "blocks_free (v5\<lparr>disk_heap := h\<rparr>) = blocks_free v5" "bam_homes (v5\<lparr>disk_heap := h\<rparr>) = bam_homes v5"
    by (rule write_sector_change [OF w5(1,2) l(2) w5(3), unfolded at]) (rule that)
  define w where "w = v5\<lparr>disk_heap := h\<rparr>"
  have qw: "chan w ch = chan v5 ch" "length (buffers w) = length (buffers v)" "current_part w = 0"
    "image_format w \<noteq> FORMAT_1581"
    using v(3,4) channels_only_fields [OF c5] l2 by (simp_all add: w_def) (simp add: v5_def v4_def)
  have q4: "dir (chan v4 ch) = d'" "bslot (chan v4 ch) = Some ?slot" using assms(2) l2 by (simp_all add: v4_def q2 q_def)
  have "write_open_entry v4 ch = (SERIAL_OK, w)"
    using h(1) by (simp add: write_open_entry_def q4 Let_def c(2) with_entry_def v5_def w_def)
  moreover have "bslot (chan v1 ch) = None" "\<not> VDRIVE_IS_READONLY v" using assms(2,5) ro by (simp_all add: v1_def)
  ultimately have op: "iec_open_write u v ch cp = Some (SERIAL_OK, w)"
    using new by (simp add: iec_open_write_def v1_def [symmetric] Let_def)
  have kw: "writable w" "data_sectors w = data_sectors v" "sector_is_free w = sector_is_free v"
    "blocks_free w = blocks_free v" "bam_homes w = bam_homes v"
    "\<And>x y. holds w x y = (if x = fst c then y = ?sec else holds v x y)"
    using h(2-7) chan_change [OF c5] by (simp_all add: w_def)
  have "channel_ok w ch b"
    using assms(2,6,7) qw b(1) by (simp add: channel_ok_def q5 q_def)
  then have "new_file w ch"
    using kw v(5) l(1) by (auto simp: new_file_def qw q5 q_def)
  moreover have "entry_ok w ch ?sec" "entry_address w ch = fst c"
    using kw v(6) c(1,3,4) l(2) by (simp_all add: entry_ok_def entry_address_def qw q5)
  moreover have "snd c ! (dslot d' * 32 + 2) = 0"
    using c(2,3,5) lc(1) by (simp add: cur_slot_def nth_slice)
  moreover have "dslot (dir (chan w ch)) = dslot d'" "bslot (chan w ch) = Some ?slot" by (simp_all add: qw q5 q_def)
  moreover have "drive_setup w = drive_setup v"
    using channels_only_setup [OF c5] qw(2) by (simp add: w_def)
  ultimately show ?thesis using that [of w c] op c(1) kw by simp
qed

subsection \<open>From the name to the file\<close>

text \<open>The name of a file as a host sends it: \<open>0:name,type,mode\<close>.\<close>

definition sent_name :: "buffer \<Rightarrow> byte \<Rightarrow> byte \<Rightarrow> buffer" where
  "sent_name name ty md = [0x30] @ [asc CHR '':''] @ name @ [asc CHR '','', ty, asc CHR '','', md, 0]"

lemma opens_by_name:
  assumes "\<not> haspt v" "current_part v = 0" "image_format v \<noteq> FORMAT_1581" "image_format v \<noteq> FORMAT_NP" "images v ! 0 \<noteq> None"
    and "2 \<le> ch" "ch \<noteq> 15" "ch < length (buffers v)" "mode (chan v ch) = BUFFER_NOT_IN_USE"
    and "name \<noteq> []" "asc CHR '','' \<notin> set name" "type_of_letter ty = Some t" "mode_of_letter md = Some m"
  shows "\<exists>w cp. vdrive_iec_open u v (Some (sent_name name ty md)) (length name + 6) ch None = open_file u w ch ch cp \<and>
    channels_only v w \<and> length (buffers w) = length (buffers v) \<and>
    chan w ch = (chan v ch)\<lparr>bsmall := 0, bpartition := 0, needsupdate := 0\<rparr> \<and>
    pfile cp = Some (name @ [0]) \<and> filelength cp = length name \<and> filetype cp = t \<and> preadmode cp = m \<and>
    command cp = None \<and> recordlength cp = 0"
proof -
  let ?n = "sent_name name ty md" and ?l = "length name + 6"
  define c where "c = (u_cmd u)\<lparr>pmode := 2, drive := -1, full := Some ?n, fulllength := ?l, secondary := ch\<rparr>"
  have "\<exists>cp. cbmdos_command_parse_plus c = Some (CBMDOS_IPE_OK, cp) \<and> drive cp = digits_value 0 [0x30] \<and>
    pfile cp = Some (name @ [0]) \<and> filelength cp = length name \<and> filetype cp = t \<and> preadmode cp = m \<and>
    command cp = None \<and> path cp = None \<and> commandlength cp = 0 \<and> recordlength cp = 0"
    using assms(6,11-13)
    by (intro parse_file_name_result) (simp_all add: c_def sent_name_def is_digit_def digits_value_def)
  then obtain cp where cp: "cbmdos_command_parse_plus c = Some (CBMDOS_IPE_OK, cp)" "drive cp = 0" "pfile cp = Some (name @ [0])"
    "filelength cp = length name" "filetype cp = t" "preadmode cp = m" "command cp = None" "commandlength cp = 0" "recordlength cp = 0"
    by (auto simp: digits_value_def)
  have "?n ! (?l - 1) = md" by (simp add: sent_name_def nth_append)
  moreover have "md \<noteq> 13" using assms(13) by (auto simp: mode_of_letter_def split: if_splits)
  ultimately have cr: "?n ! (?l - 1) \<noteq> 13" by simp
  define v1 where "v1 = upd_chan ch (\<lambda>p. p\<lparr>bsmall := 0\<rparr>) v"
  define v2 where "v2 = snd (vdrive_command_set_error v1 CBMDOS_IPE_OK 0 0)"
  define v3 where "v3 = v2\<lparr>dir_count := 1\<rparr>"
  define v4 where "v4 = upd_chan ch (\<lambda>p. p\<lparr>bpartition := 0\<rparr>) v3"
  define w where "w = upd_chan ch (\<lambda>p. p\<lparr>needsupdate := 0\<rparr>) v4"
  have c1: "channels_only v v1" "channels_only v1 v2" "channels_only v3 v4" "channels_only v4 w"
    by (simp_all add: v1_def v2_def v4_def w_def upd_chan_change set_error_change)
  have c3: "channels_only v2 v3" unfolding channels_only_eq v3_def by (cases v2) simp
  note cs = channels_only_trans [OF channels_only_trans [OF channels_only_trans [OF c1(1,2)] c3] c1(3)]
  have cw: "channels_only v w" by (rule channels_only_trans [OF cs c1(4)])
  note k3 = channels_only_fields [OF channels_only_trans [OF channels_only_trans [OF c1(1,2)] c3]]
    and kw = channels_only_fields [OF cw]
  have p1: "mode (chan v1 ch) = BUFFER_NOT_IN_USE" "mode (chan v2 ch) = BUFFER_NOT_IN_USE"
    using assms(7-9) by (simp_all add: v1_def v2_def)
  have sw: "vdrive_command_switch (u_junk u) (u_tmp u) w 0 = (0, w)"
    using assms(1-3) kw by (simp add: vdrive_command_switch_def vdrive_switch_def vdrive_realpart_def Let_def)
  have st: "vdrive_command_switchtraverse u w cp = Some (CBMDOS_IPE_OK, w, cp)"
    using assms(4) kw(3) cp(2,8) by (simp add: vdrive_command_switchtraverse_def sw name_as_path_def is_cd_def)
  have o1: "open_on_disk u v4 (Some ?n) ?l ch ch cp = open_file u w ch ch cp"
    using assms(3) kw(3) cp(7) by (simp add: open_on_disk_def w_def [symmetric] st first_char_def)
  have same: "cp\<lparr>drive := 0\<rparr> = cp" using cp(2) by (cases cp) simp
  have o2: "open_parsed u v2 (Some ?n) ?l ch ch cp = open_on_disk u v4 (Some ?n) ?l ch ch cp"
    using assms(1,5) k3 cp(2,7) channels_only_fields [OF c3]
    by (simp add: open_parsed_def choose_drive_def first_char_def v3_def [symmetric] Let_def vdrive_ispartvalid_def
        vdrive_realpart_def c_unsigned_def v4_def [symmetric] same)
  have pr: "open_parse u (Some ?n) ?l ch None = Some (CBMDOS_IPE_OK, ch, cp)"
    using cp(1) by (simp add: open_parse_def c_def)
  have "vdrive_iec_open u v (Some ?n) ?l ch None = open_parsed u v2 (Some ?n) ?l ch ch cp"
    using cr p1 pr cp(4,7) assms(10) by (simp add: vdrive_iec_open_def v1_def [symmetric] v2_def [symmetric] Let_def)
  moreover have "chan w ch = (chan v ch)\<lparr>bsmall := 0, bpartition := 0, needsupdate := 0\<rparr>" "length (buffers w) = length (buffers v)"
    using assms(7,8) by (simp_all add: w_def v4_def v3_def v2_def v1_def)
  ultimately show ?thesis using o1 o2 cw cp(3-7,9) by auto
qed

subsection \<open>Saving\<close>

lemma slot_create_terminated [simp]: "cbmdos_dir_slot_create (name @ [0]) (length name) = cbmdos_dir_slot_create name (length name)"
  by (simp add: cbmdos_dir_slot_create_def)

lemma new_slot_terminated [simp]: "new_slot (name @ [0]) (length name) ty = new_slot name (length name) ty"
  by (simp add: new_slot_def)

lemma name_lookup:
  assumes "directory v cs" "length (dbuffer d) = 256" "name \<noteq> []"
  obtains d1 d2 where "vdrive_dir_find_first_slot v (name @ [0]) (int (length name)) ty d = (v, d1)"
    "vdrive_dir_find_next_slot v tmp d1 = Some (find (slot_fits name (length name) ty) (directory_slots cs), v, d2)"
    "length (dbuffer d2) = 256"
proof -
  let ?n = "int (length name)" and ?P = "slot_fits name (length name) ty"
  obtain d1 where d1: "vdrive_dir_find_first_slot v (name @ [0]) ?n ty d = (v, d1)" "dslot d1 = 7"
    "find_nslot d1 = (if ?n > 0 then cbmdos_dir_slot_create (name @ [0]) (nat ?n) else find_nslot d)"
    "\<And>d'. d' \<in> set (visits d1 cs) \<Longrightarrow> slot_matches d' = (vdrive_dir_name_match (cur_slot d') (find_nslot d1) ?n ty \<noteq> 0)"
    "\<And>tmp d'. find slot_matches (visits d1 cs) = Some d' \<Longrightarrow>
      vdrive_dir_find_next_slot v tmp d1 = Some (Some (cur_slot d'), v, d')"
    "\<And>tmp. find slot_matches (visits d1 cs) = None \<Longrightarrow> 0 \<le> ?n \<Longrightarrow>
      vdrive_dir_find_next_slot v tmp d1 = Some (None, v, at_end d1 cs)"
    "length (dbuffer (at_end d1 cs)) = 256"
    by (rule lookup [OF assms(1,2), of "name @ [0]" ?n ty]) (rule that)
  have m: "slot_matches d' = ?P (cur_slot d')" if "d' \<in> set (visits d1 cs)" for d'
    using d1(3,4) that assms(3) by (simp add: slot_fits_def)
  have s: "find ?P (directory_slots cs) = map_option cur_slot (find slot_matches (visits d1 cs))"
    unfolding visits_slots [OF d1(2), symmetric] find_map by (intro arg_cong [of _ _ "map_option cur_slot"] find_cong) (simp_all add: m)
  show ?thesis
  proof (cases "find slot_matches (visits d1 cs)")
    case None
    then show ?thesis using that [OF d1(1)] d1(6,7) s by simp
  next
    case (Some d')
    then have "d' \<in> set (visits d1 cs)" by (auto simp: find_Some_iff)
    then obtain c where "c \<in> set cs" "dbuffer d' = snd c" using visits_place [OF _ d1(2)] by blast
    then have "length (dbuffer d') = 256"
      using assms(1) chained_holds [of v "(Dir_Track v, Dir_Sector v)" cs c] by (simp add: directory_def holds_def)
    then show ?thesis using that [OF d1(1)] d1(5) [OF Some] Some s by simp
  qed
qed

lemma creates_file:
  assumes "open_disk v cs" "ch \<noteq> 15" "ch < length (buffers v)" "idle (chan v ch)" "bpartition (chan v ch) = 0"
    "name \<noteq> []" "length name \<le> 16" "\<not> (\<exists>slot \<in> set (directory_slots cs). slot_fits name (length name) 0 slot)"
    "\<exists>slot \<in> set (directory_slots cs). slot ! SLOT_TYPE_OFFSET = 0"
    "pfile cp = Some (name @ [0])" "filelength cp = length name" "filetype cp \<noteq> CBMDOS_FT_REL" "preadmode cp = CBMDOS_FAM_WRITE"
  defines "slot \<equiv> new_slot name (length name) (filetype cp)"
  obtains w c where "open_file u v ch ch cp = Some (SERIAL_OK, w)" "new_file w ch"
    "c \<in> set cs" "entry_address w ch = fst c" "entry_ok w ch (with_entry (snd c) (dslot (dir (chan w ch))) slot)"
    "snd c ! (dslot (dir (chan w ch)) * 32 + 2) = 0" "bslot (chan w ch) = Some slot"
    "data_sectors w = data_sectors v" "sector_is_free w = sector_is_free v" "bam_homes w = bam_homes v"
    "blocks_free w = blocks_free v" "\<And>a b. a \<noteq> fst c \<Longrightarrow> holds w a b = holds v a b" "drive_setup w = drive_setup v"
proof -
  let ?cp = "cp\<lparr>filelength := length name\<rparr>"
  have dr: "directory v cs" using assms(1) by (simp add: open_disk_def)
  have lb: "length (dbuffer (dir (chan v ch))) = 256" using assms(4) by (simp add: idle_def)
  obtain d1 d2 where d: "vdrive_dir_find_first_slot v (name @ [0]) (int (length name)) 0 (dir (chan v ch)) = (v, d1)"
    "vdrive_dir_find_next_slot v (u_tmp u) d1 = Some (find (slot_fits name (length name) 0) (directory_slots cs), v, d2)"
    "length (dbuffer d2) = 256"
    by (rule name_lookup [OF dr lb assms(6)])
  have "find (slot_fits name (length name) 0) (directory_slots cs) = None" using assms(8) by (auto simp: find_None_iff)
  then have ss: "search_slot (u_tmp u) v d1 = Some (None, v, d2)"
    using d(2) by (subst search_slot.simps) simp
  define v1 where "v1 = upd_chan ch (\<lambda>p. p\<lparr>dir := d2, readmode := CBMDOS_FAM_WRITE, bslot := None\<rparr>) v"
  have v1: "open_disk v1 cs" "ch < length (buffers v1)"
    "chan v1 ch = (chan v ch)\<lparr>dir := d2, readmode := CBMDOS_FAM_WRITE, bslot := None\<rparr>"
    "data_sectors v1 = data_sectors v" "sector_is_free v1 = sector_is_free v" "bam_homes v1 = bam_homes v"
    "blocks_free v1 = blocks_free v" "holds v1 = holds v" "drive_setup v1 = drive_setup v"
    using assms(1,3) by (simp_all add: v1_def open_disk_change [OF upd_chan_change])
  have op: "open_file u v ch ch cp = iec_open_write u v1 ch ?cp"
    using assms(7,10-13) d(1) ss by (simp add: open_file_def min_absorb1 v1_def Let_def)
  have "length (dbuffer (dir (chan v1 ch))) = 256" "bslot (chan v1 ch) = None" "readmode (chan v1 ch) = CBMDOS_FAM_WRITE"
    "bpartition (chan v1 ch) < 2 ^ 31" "case buffer_ptr (chan v1 ch) of BUF_HEAP b \<Rightarrow> length b = 256 | _ \<Rightarrow> True"
    "filelength ?cp \<le> 16"
    using assms(4,5,7) d(3) v1(3) by (simp_all add: idle_def)
  note on = opens_new_file [OF v1(1,2) assms(2) this assms(9), of u]
  have sl: "new_slot (the (pfile ?cp)) (filelength ?cp) (filetype ?cp) = slot"
    using assms(10) by (simp add: slot_def)
  show ?thesis
    by (rule on [unfolded op [symmetric] sl v1(4-9)]) (rule that)
qed

text \<open>The bytes a host sends to a file that is open for writing.\<close>

lemma write_sends:
  assumes "file_state v0 v ch cs b xs" "length (xs @ ys) \<le> 254 * blocks_free v0" "ys \<noteq> []"
  shows "write_bytes u ch st v ys = Some (send_bytes (u_junk u) (u_tmp u) (u_t0 u) ch v ys)"
  using assms
proof (induction ys arbitrary: v cs b xs st)
  case (Cons y ys)
  have "length xs < 254 * blocks_free v0" using Cons.prems(2) by simp
  then obtain v' cs' b' where v': "iec_write_byte (u_junk u) (u_tmp u) (u_t0 u) v y ch = (SERIAL_OK, v')"
    "file_state v0 v' ch cs' b' (xs @ [y])" using write_byte_state [OF Cons.prems(1)] by metis
  have "mode (chan v ch) = BUFFER_SEQUENTIAL" "image_ptr v \<noteq> None"
    using Cons.prems(1) by (auto simp: file_state_def channel_ok_def grown_def writable_def mounted_def drive_ok_def)
  then have "vdrive_iec_write u v y ch = Some (SERIAL_OK, v')"
    using v'(1) by (auto simp: vdrive_iec_write_def write_refused_def)
  then show ?case
    using Cons.IH [OF v'(2), of SERIAL_OK] Cons.prems(2) v'(1) by (cases "ys = []") simp_all
qed simp

lemma with_entry_again:
  assumes "length sec = 256" "length slot = 32" "length slot' = 32" "n < 8"
  shows "with_entry (with_entry sec n slot) n slot' = with_entry sec n slot'"
proof (rule nth_equalityI)
  have l: "length (with_entry sec n slot) = 256" "length (with_entry sec n slot') = 256"
    "length (with_entry (with_entry sec n slot) n slot') = 256"
    using assms by (simp_all add: with_entry_def)
  then show "length (with_entry (with_entry sec n slot) n slot') = length (with_entry sec n slot')" by simp
  fix i assume "i < length (with_entry (with_entry sec n slot) n slot')"
  then have "i < 256" using l by simp
  then show "with_entry (with_entry sec n slot) n slot' ! i = with_entry sec n slot' ! i"
    using with_entry_nth [OF l(1) assms(3,4)] with_entry_nth [OF assms(1,3,4)] with_entry_nth [OF assms(1,2,4)] by simp
qed

lemma new_slot_name:
  assumes "length name \<le> 16"
  shows "slice (new_slot name (length name) ty) 5 16 = cbmdos_dir_slot_create name (length name)"
    "new_slot name (length name) ty ! 2 = of_nat ty"
proof -
  let ?s = "memset (replicate 32 0) 5 0xa0 16 :: buffer"
  have "write_at ?s 5 (take (length name) name) ! (5 + i) = cbmdos_dir_slot_create name (length name) ! i" if "i < 16" for i
    using assms that by (simp add: cbmdos_dir_slot_create_def nth_write_at memset_def)
  then show "slice (new_slot name (length name) ty) 5 16 = cbmdos_dir_slot_create name (length name)"
    using assms by (intro nth_equalityI) (simp_all add: new_slot_def nth_slice cbmdos_dir_slot_create_def)
  show "new_slot name (length name) ty ! 2 = of_nat ty" using assms by (simp add: new_slot_def)
qed

lemma slice_cong: "length xs = length ys \<Longrightarrow> list_all (\<lambda>i. xs ! i = ys ! i) [k..<k + n] \<Longrightarrow> slice xs k n = slice ys k n"
  by (rule nth_equalityI) (auto simp: slice_def list_all_iff)

subsection \<open>A disk for the witnesses\<close>

lemma error_free_holds:
  assumes "mounted v" "image_errors (cur_image v) = None" "logical_valid v (t, s)"
  obtains b where "holds v (t, s) b"
proof -
  obtain a where a: "vdrive_log_to_phy v t s = Some a" "in_image (cur_image v) (addr_pair a)"
    using assms(3) by (auto simp: logical_valid_def split: option.splits)
  have ok: "drive_ok v" "dxx_ok (cur_image v)" using assms(1) by (simp_all add: mounted_def drive_ok_def)
  let ?b = "slice (image_file (cur_image v)) (block_index (cur_image v) (addr_pair a) * 256) 256"
  have "length ?b = 256" using a(2) by (simp add: in_image_def Let_def block_index_def)
  then have "holds v (t, s) ?b"
    using assms(2,3) logical_read_eq [OF ok(1) a(1)] image_read_value [OF ok(2) a(2)] by (simp add: holds_def)
  then show ?thesis using that by blast
qed

text \<open>A host's surroundings, with every uninitialised memory zero.\<close>

definition quiet :: ambient where
  "quiet = \<lparr>u_junk = (\<lambda>_. 0), u_tmp = replicate 256 0, u_buf = replicate 256 0, u_t0 = 0, u_mem = [], u_mem1 = [], u_mem2 = [],
     u_dir = dir (chan free_1541 0), u_cmd = \<lparr>full = None, fulllength = 0, secondary = 0, pmode = 0, drive = 0, command = None,
       commandlength = 0, abbrv = None, abbrvlength = 0, path = None, pathlength = 0, pfile = None, filelength = 0, pmore = None,
       morelength = 0, preadmode = 0, filetype = 0, recordlength = 0, colon = 0\<rparr>,
     u_now = some_time, u_gcr_id = (\<lambda>_ _ _. (0, 0))\<rparr>"

abbreviation (input) "empty_dir \<equiv> [((18, 1), replicate 256 0)] :: ((nat \<times> nat) \<times> buffer) list"

lemma free_1541_open:
  "open_disk free_1541 empty_dir" "length (buffers free_1541) = 16" "ch < 16 \<Longrightarrow> idle (chan free_1541 ch)"
  "0 < blocks_free free_1541"
proof -
  let ?v = "dirty_1541 free_bam" and ?d = "blank_drive FORMAT_1541 (d64_file_image (replicate 174848 0) None) 35"
  obtain h where h: "free_1541 = ?v\<lparr>disk_heap := h\<rparr>" "writable free_1541"
    "holds free_1541 (18, 1) (replicate 256 0)" "data_sectors free_1541 = data_sectors ?v"
    "sector_is_free free_1541 = sector_is_free ?v" "bam_homes free_1541 = {(18, 0)}"
    by (rule free_1541_heap)
  have sd: "same_disk ?d ?v" "image_mode ?v = image_mode ?d" by (simp_all add: dirty_1541_def same_disk_def)
  have va: "logical_valid ?v (18, 0)" "logical_valid ?v (18, 1)"
    unfolding same_disk_read(2) [OF sd] using blank_drive_ok(2) [of "replicate 174848 0" 18] by (simp_all add: geom_simps)
  have "cur_image ?v = d64_file_image (replicate 174848 0) None"
    unfolding same_disk_read(3) [OF sd] by (simp add: cur_image_def blank_drive_def)
  then have "image_errors (cur_image ?v) = None" by (simp add: image_errors_def d64_file_image_def)
  moreover have "mounted ?v" using dirty_free_writable by (simp add: writable_def)
  ultimately obtain b where b: "holds ?v (18, 0) b" "drive_ok ?v"
    using error_free_holds va(1) by (metis mounted_def)
  have "holds free_1541 (18, 0) b"
    using b va logical.read_write [OF b(2) va(2), of "replicate 256 0" "(18, 0)"]
      logical.write_valid [OF b(2) va(2), of "replicate 256 0" "(18, 0)"] by (simp add: holds_def free_1541_def)
  moreover have f: "Header_Track free_1541 = 18" "Header_Sector free_1541 = 0" "Dir_Track free_1541 = 18" "Dir_Sector free_1541 = 1"
    "image_format free_1541 = FORMAT_1541" "current_part free_1541 = 0" "images free_1541 ! 0 \<noteq> None" "buffers free_1541 = buffers ?d"
    by (simp_all add: h(1)) (simp_all add: dirty_1541_def blank_drive_def)
  moreover have "mounted free_1541" using h(2) by (simp add: writable_def)
  moreover have "(18, s) \<notin> data_sectors free_1541" for s by (simp add: h(4) dirty_free_data)
  ultimately show "open_disk free_1541 empty_dir"
    using h(2,3,6) by (auto simp: open_disk_def directory_def)
  show "length (buffers free_1541) = 16" "ch < 16 \<Longrightarrow> idle (chan free_1541 ch)"
    by (simp_all add: f(8)) (simp_all add: blank_drive_def idle_def)
  show "0 < blocks_free free_1541" using writer_1541_simps(2) by (simp add: writer_1541_def)
qed

lemma empty_directory: "set (directory_slots empty_dir) = {replicate 32 0}"
  by (auto simp: directory_slots_def slice_def upt_conv_Cons)

lemma saves_file:
  assumes "open_disk v cs" "2 \<le> ch" "ch < 15" "length (buffers v) = 16" "idle (chan v ch)"
    and "name \<noteq> []" "length name \<le> 16" "asc CHR '','' \<notin> set name" "type_of_letter ty = Some t"
    and "\<not> (\<exists>slot \<in> set (directory_slots cs). slot_fits name (length name) 0 slot)"
    and "\<exists>slot \<in> set (directory_slots cs). slot ! SLOT_TYPE_OFFSET = 0"
    and "xs \<noteq> []" "length xs \<le> 254 * blocks_free v"
  shows "\<exists>w0 w1 w c i slot fs.
    vdrive_iec_open u v (Some (sent_name name ty (asc CHR ''W''))) (length name + 6) ch None = Some (SERIAL_OK, w0) \<and>
    write_bytes u ch SERIAL_OK w0 xs = Some (SERIAL_OK, w1) \<and> vdrive_iec_close u w1 ch = Some (SERIAL_OK, w) \<and>
    c \<in> set cs \<and> i < 8 \<and> snd c ! (i * 32 + SLOT_TYPE_OFFSET) = 0 \<and> holds w (fst c) (with_entry (snd c) i slot) \<and>
    slot ! SLOT_TYPE_OFFSET = of_nat t OR 0x80 \<and> slice slot SLOT_NAME_OFFSET 16 = cbmdos_dir_slot_create name (length name) \<and>
    chained w (unat (slot ! SLOT_FIRST_TRACK), unat (slot ! SLOT_FIRST_SECTOR)) fs \<and>
    ends_well fs \<and> file_bytes fs = xs \<and> slot_blocks slot = length fs mod 65536 \<and> bam_saved w \<and>
    (\<forall>a \<in> data_sectors v. sector_is_free w a = (sector_is_free v a \<and> a \<notin> set (map fst fs))) \<and>
    (\<forall>a b. a \<in> data_sectors v \<and> sector_is_free v a \<or> a \<in> bam_homes v \<or> a = fst c \<or> holds w a b = holds v a b) \<and>
    length slot = 32 \<and> mounted w \<and> drive_setup w = drive_setup v \<and> bam_homes w = bam_homes v \<and> (\<forall>a \<in> bam_homes v. logical_valid w a) \<and>
    idle (chan w ch)"
proof -
  let ?slot = "new_slot name (length name) t"
  have v: "\<not> haspt v" "current_part v = 0" "image_format v \<noteq> FORMAT_1581" "image_format v \<noteq> FORMAT_NP" "images v ! 0 \<noteq> None"
    using assms(1) by (simp_all add: open_disk_def directory_def writable_def)
  have ch: "ch \<noteq> 15" "ch < length (buffers v)" "mode (chan v ch) = BUFFER_NOT_IN_USE" using assms(3-5) by (simp_all add: idle_def)
  have md: "mode_of_letter (asc CHR ''W'') = Some CBMDOS_FAM_WRITE" by (simp add: mode_of_letter_def)
  obtain v1 cp where o: "vdrive_iec_open u v (Some (sent_name name ty (asc CHR ''W''))) (length name + 6) ch None = open_file u v1 ch ch cp"
    "channels_only v v1" "length (buffers v1) = length (buffers v)"
    "chan v1 ch = (chan v ch)\<lparr>bsmall := 0, bpartition := 0, needsupdate := 0\<rparr>"
    "pfile cp = Some (name @ [0])" "filelength cp = length name" "filetype cp = t" "preadmode cp = CBMDOS_FAM_WRITE"
    using opens_by_name [OF v assms(2) ch assms(6,8,9) md, of u] by blast
  note k1 = chan_change [OF o(2)]
  have t: "t \<noteq> CBMDOS_FT_REL" using assms(9) by (auto simp: type_of_letter_def split: if_splits)
  have "open_disk v1 cs" "ch < length (buffers v1)" "idle (chan v1 ch)" "bpartition (chan v1 ch) = 0"
    using assms(1,3-5) o(2-4) by (simp_all add: open_disk_change [OF o(2)] idle_def)
  note cf = creates_file [OF this(1) ch(1) this(2-4) assms(6,7,10,11) o(5,6) _ o(8), of u, unfolded o(7)]
  obtain w0 c where w0: "open_file u v1 ch ch cp = Some (SERIAL_OK, w0)" "new_file w0 ch"
    "c \<in> set cs" "entry_address w0 ch = fst c" "entry_ok w0 ch (with_entry (snd c) (dslot (dir (chan w0 ch))) ?slot)"
    "snd c ! (dslot (dir (chan w0 ch)) * 32 + 2) = 0" "bslot (chan w0 ch) = Some ?slot"
    "data_sectors w0 = data_sectors v" "sector_is_free w0 = sector_is_free v" "bam_homes w0 = bam_homes v"
    "blocks_free w0 = blocks_free v" "\<And>a b. a \<noteq> fst c \<Longrightarrow> holds w0 a b = holds v a b" "drive_setup w0 = drive_setup v1"
    by (rule cf [OF t, unfolded k1]) (rule that)
  let ?i = "dslot (dir (chan w0 ch))"
  have i: "?i < 8" "length (snd c) = 256"
    using w0(3,5) assms(1) chained_holds [of v "(Dir_Track v, Dir_Sector v)" cs c]
    by (simp_all add: entry_ok_def open_disk_def directory_def holds_def)
  have len: "length xs \<le> 254 * blocks_free w0" using assms(13) w0(11) by simp
  obtain w1 w slot fs where w: "send_bytes (u_junk u) (u_tmp u) (u_t0 u) ch w0 xs = (SERIAL_OK, w1)"
    "iec_close_sequential (u_junk u) (u_tmp u) (u_buf u) (u_t0 u) (u_now u) w1 ch = Some (SERIAL_OK, w)"
    "holds w (fst c) (with_entry (with_entry (snd c) ?i ?slot) ?i slot)" "length slot = 32"
    "slot ! 2 = ?slot ! 2 OR 0x80" "list_all (\<lambda>i. slot ! i = ?slot ! i) [5..<30]"
    "chained w (unat (slot ! 3), unat (slot ! 4)) fs" "ends_well fs" "file_bytes fs = xs" "slot_blocks slot = length fs mod 65536"
    "bam_saved w" "\<forall>a \<in> data_sectors v. sector_is_free w a = (sector_is_free v a \<and> a \<notin> set (map fst fs))"
    "\<forall>a b. a \<in> data_sectors v \<and> sector_is_free v a \<or> a \<in> bam_homes v \<or> a = fst c \<or> holds w a b = holds w0 a b"
    "mounted w" "drive_setup w = drive_setup w0" "bam_homes w = bam_homes v" "\<forall>a \<in> bam_homes v. logical_valid w a"
    "mode (chan w ch) = BUFFER_NOT_IN_USE" "length (dbuffer (dir (chan w ch))) = 256" "\<exists>b. buffer_ptr (chan w ch) = BUF_HEAP b \<and> length b = 256"
    using closes_written_file [OF w0(2,5,7) assms(12) len, of "u_junk u" "u_tmp u" "u_t0 u" "u_buf u" "u_now u"]
    unfolding w0(4,8-10) by blast
  obtain b where fs0: "file_state w0 w0 ch [] b []" using new_file_state [OF w0(2)] by blast
  then obtain cs1 b1 where fs1: "file_state w0 w1 ch cs1 b1 xs"
    using send_bytes_state [OF fs0, of xs "u_junk u" "u_tmp u" "u_t0 u"] len w(1) by auto
  have "write_bytes u ch SERIAL_OK w0 xs = Some (SERIAL_OK, w1)"
    using write_sends [OF fs0, of xs u SERIAL_OK] len assms(12) w(1) by simp
  moreover have "vdrive_iec_close u w1 ch = Some (SERIAL_OK, w)"
    using fs1 w(2) by (simp add: vdrive_iec_close_def file_state_def channel_ok_def)
  moreover have "holds w (fst c) (with_entry (snd c) ?i slot)"
    using w(3,4) i assms(7) by (simp add: with_entry_again)
  moreover have "slice slot 5 16 = cbmdos_dir_slot_create name (length name)"
    using new_slot_name(1) [OF assms(7)] slice_cong [of slot ?slot 5 16] w(4,6) assms(7) by (simp add: list_all_iff)
  moreover have "\<forall>a b. a \<in> data_sectors v \<and> sector_is_free v a \<or> a \<in> bam_homes v \<or> a = fst c \<or> holds w a b = holds v a b"
    using w(13) w0(12) by metis
  moreover have "drive_setup w = drive_setup v" using w(15) w0(13) channels_only_setup [OF o(2,3)] by simp
  moreover have "idle (chan w ch)" using w(18-20) by (auto simp: idle_def)
  moreover have "slot ! SLOT_TYPE_OFFSET = of_nat t OR 0x80" using w(5) new_slot_name(2) [OF assms(7)] by simp
  ultimately show ?thesis
    using o(1) w0(1,3,6) i(1) w(4,7-12,14,16,17)
    by (intro exI [of _ w0] exI [of _ w1] exI [of _ w] exI [of _ c] exI [of _ ?i] exI [of _ slot] exI [of _ fs]) simp
qed

subsection \<open>Properties\<close>

text \<open>
  C37. Saving a file. On a disk with room in the directory and for the data, and on which the name
  is not in use, a host opens \<open>0:name,type,W\<close> on a free channel, sends the bytes and closes the
  channel; every call succeeds. Afterwards a slot of the directory that was free holds an entry with
  the name, padded as the drive does, and the type with the mark of a closed file; the chain the
  entry leads to has exactly the bytes sent, and the entry their number of blocks; the BAM on the
  disk has exactly the sectors of the chain allocated in addition. No other sector that was in use
  changes; the contents of free sectors are not spoken of.
\<close>

theorem save_file:
  assumes "open_disk v cs" "2 \<le> ch" "ch < 15" "length (buffers v) = 16" "idle (chan v ch)"
    and "name \<noteq> []" "length name \<le> 16" "asc CHR '','' \<notin> set name" "type_of_letter ty = Some t"
    and "\<not> (\<exists>slot \<in> set (directory_slots cs). slot_fits name (length name) 0 slot)"
    and "\<exists>slot \<in> set (directory_slots cs). slot ! SLOT_TYPE_OFFSET = 0"
    and "xs \<noteq> []" "length xs \<le> 254 * blocks_free v"
  shows "\<exists>w0 w1 w c i slot fs.
    vdrive_iec_open u v (Some (sent_name name ty (asc CHR ''W''))) (length name + 6) ch None = Some (SERIAL_OK, w0) \<and>
    write_bytes u ch SERIAL_OK w0 xs = Some (SERIAL_OK, w1) \<and> vdrive_iec_close u w1 ch = Some (SERIAL_OK, w) \<and>
    c \<in> set cs \<and> i < 8 \<and> snd c ! (i * 32 + SLOT_TYPE_OFFSET) = 0 \<and> holds w (fst c) (with_entry (snd c) i slot) \<and>
    slot ! SLOT_TYPE_OFFSET = of_nat t OR 0x80 \<and> slice slot SLOT_NAME_OFFSET 16 = cbmdos_dir_slot_create name (length name) \<and>
    chained w (unat (slot ! SLOT_FIRST_TRACK), unat (slot ! SLOT_FIRST_SECTOR)) fs \<and>
    ends_well fs \<and> file_bytes fs = xs \<and> slot_blocks slot = length fs mod 65536 \<and> bam_saved w \<and>
    (\<forall>a \<in> data_sectors v. sector_is_free w a = (sector_is_free v a \<and> a \<notin> set (map fst fs))) \<and>
    (\<forall>a b. a \<in> data_sectors v \<and> sector_is_free v a \<or> a \<in> bam_homes v \<or> a = fst c \<or> holds w a b = holds v a b)"
  using saves_file [OF assms, of u] by blast

theorem save_file_witness:
  "\<exists>w0 w1 w i slot fs.
    vdrive_iec_open quiet free_1541 (Some (map of_char ''0:TEST,S,W'' @ [0])) 10 2 None = Some (SERIAL_OK, w0) \<and>
    write_bytes quiet 2 SERIAL_OK w0 [1, 2, 3] = Some (SERIAL_OK, w1) \<and> vdrive_iec_close quiet w1 2 = Some (SERIAL_OK, w) \<and>
    holds w (18, 1) (with_entry (replicate 256 0) i slot) \<and> slot ! SLOT_TYPE_OFFSET = 0x81 \<and>
    slice slot SLOT_NAME_OFFSET 16 = map of_char ''TEST'' @ replicate 12 0xa0 \<and>
    chained w (unat (slot ! SLOT_FIRST_TRACK), unat (slot ! SLOT_FIRST_SECTOR)) fs \<and> file_bytes fs = [1, 2, 3]"
proof -
  let ?n = "map of_char ''TEST'' :: buffer"
  have n: "?n \<noteq> []" "length ?n \<le> 16" "asc CHR '','' \<notin> set ?n" "length ?n + 6 = 10"
    "sent_name ?n (asc CHR ''S'') (asc CHR ''W'') = map of_char ''0:TEST,S,W'' @ [0]"
    "cbmdos_dir_slot_create ?n (length ?n) = ?n @ replicate 12 0xa0"
    by (simp_all add: sent_name_def cbmdos_dir_slot_create_def write_at_def)
  have ty: "type_of_letter (asc CHR ''S'') = Some CBMDOS_FT_SEQ" by (simp add: type_of_letter_def)
  have sl: "\<not> (\<exists>slot \<in> set (directory_slots empty_dir). slot_fits ?n (length ?n) 0 slot)"
    "\<exists>slot \<in> set (directory_slots empty_dir). slot ! SLOT_TYPE_OFFSET = 0"
    unfolding empty_directory by (simp_all add: slot_fits_def vdrive_dir_name_match_def)
  have xs: "[1 :: byte, 2, 3] \<noteq> []" "length [1 :: byte, 2, 3] \<le> 254 * blocks_free free_1541"
    using free_1541_open(4) by simp_all
  have ch: "2 \<le> (2 :: nat)" "(2 :: nat) < 15" "idle (chan free_1541 2)" using free_1541_open(3) by simp_all
  obtain w0 w1 w c i slot fs where w:
    "vdrive_iec_open quiet free_1541 (Some (map of_char ''0:TEST,S,W'' @ [0])) 10 2 None = Some (SERIAL_OK, w0)"
    "write_bytes quiet 2 SERIAL_OK w0 [1, 2, 3] = Some (SERIAL_OK, w1)" "vdrive_iec_close quiet w1 2 = Some (SERIAL_OK, w)"
    "c \<in> set empty_dir" "holds w (fst c) (with_entry (snd c) i slot)" "slot ! 2 = of_nat CBMDOS_FT_SEQ OR 0x80"
    "slice slot 5 16 = ?n @ replicate 12 0xa0" "chained w (unat (slot ! 3), unat (slot ! 4)) fs" "file_bytes fs = [1, 2, 3]"
    using save_file [OF free_1541_open(1) ch(1,2) free_1541_open(2) ch(3) n(1-3) ty sl xs, of quiet]
    unfolding n(4-6) by blast
  have "holds w (18, 1) (with_entry (replicate 256 0) i slot)" "slot ! 2 = 0x81" using w(4-6) by simp_all
  then show ?thesis using w(1-3,7-9) by blast
qed

end
