(* ===== verification/FileLoad.thy ===== *)
theory FileLoad
  imports FileOpen
begin

text \<open>
  Loading a file by name: the name is looked up in the directory, the channel opened on the chain of
  the entry, and the host receives the bytes of the chain (\<^verbatim>\<open>vdrive_iec_open\<close> and \<^verbatim>\<open>vdrive_iec_read\<close> in
  \<^verbatim>\<open>lib/vdrive/vdrive-iec.c\<close>). The entry a save leaves is the one a load of the same name finds.
\<close>

subsection \<open>Receiving\<close>

text \<open>A host that reads \<open>n\<close> bytes; \<open>x\<close> is its byte before.\<close>

fun fetch_bytes :: "ambient \<Rightarrow> nat \<Rightarrow> byte \<Rightarrow> vdrive \<Rightarrow> nat \<Rightarrow> ((int \<times> byte) list \<times> vdrive) option" where
  "fetch_bytes u ch x v 0 = Some ([], v)"
| "fetch_bytes u ch x v (Suc n) =
    (case vdrive_iec_read u v x ch of
       None \<Rightarrow> None
     | Some (status, x, v) \<Rightarrow> map_option (apfst (Cons (status, x))) (fetch_bytes u ch x v n))"

lemma read_dispatch:
  "reading v ch b cs \<Longrightarrow> vdrive_iec_read u v x ch = iec_read_sequential (u_junk u) (u_tmp u) v ch"
  by (simp add: vdrive_iec_read_def reading_def)

lemma fetch_file:
  assumes "reading v ch b cs" "file_rest (bufptr (chan v ch)) b cs = x # xs"
  shows "\<exists>w. fetch_bytes u ch y v (length (x # xs)) = Some (with_eof (x # xs), w)"
  using assms
proof (induction xs arbitrary: v b cs x y)
  case Nil
  then show ?case
    using read_last_byte [OF Nil.prems, of "u_junk u" "u_tmp u"] by (auto simp: with_eof_def read_dispatch)
next
  case (Cons x' xs)
  obtain w b' cs' where w: "iec_read_sequential (u_junk u) (u_tmp u) v ch = Some (SERIAL_OK, x, w)" "reading w ch b' cs'"
    "file_rest (bufptr (chan w ch)) b' cs' = x' # xs"
    by (rule read_byte_step [OF Cons.prems])
  show ?case using Cons.IH [OF w(2,3), of x] w(1) by (auto simp: with_eof_def read_dispatch [OF Cons.prems(1)])
qed

subsection \<open>Opening\<close>

lemma opens_for_reading:
  assumes "directory v cs" "\<not> haspt v" "current_part v = 0" "image_format v \<noteq> FORMAT_1581"
    and "ch < length (buffers v)" "idle (chan v ch)" "bsmall (chan v ch) = 0" "bpartition (chan v ch) = 0"
    and "name \<noteq> []" "length name \<le> 16" "t \<noteq> CBMDOS_FT_DEL" "t \<noteq> CBMDOS_FT_REL"
    and "find (slot_fits name (length name) t) (directory_slots cs) = Some slot" "slot ! SLOT_TYPE_OFFSET AND 0x80 \<noteq> 0"
    and "chained v (unat (slot ! SLOT_FIRST_TRACK), unat (slot ! SLOT_FIRST_SECTOR)) ((a, b) # fs)" "file_end b fs"
    and "pfile cp = Some (name @ [0])" "filelength cp = length name" "filetype cp = t" "preadmode cp = CBMDOS_FAM_READ"
  obtains w where "open_file u v ch ch cp = Some (SERIAL_OK, w)" "reading w ch b fs" "bufptr (chan w ch) = 2"
proof -
  have lb: "length (dbuffer (dir (chan v ch))) = 256" using assms(6) by (simp add: idle_def)
  obtain d1 d2 where d: "vdrive_dir_find_first_slot v (name @ [0]) (int (length name)) t (dir (chan v ch)) = (v, d1)"
    "vdrive_dir_find_next_slot v (u_tmp u) d1 = Some (find (slot_fits name (length name) t) (directory_slots cs), v, d2)"
    by (rule name_lookup [OF assms(1) lb assms(9)])
  have ty: "unat (slot ! 2 AND 7) = t"
    using assms(11,13) by (auto simp: find_Some_iff slot_fits_def vdrive_dir_name_match_def split: if_splits)
  have ss: "search_slot (u_tmp u) v d1 = Some (Some slot, v, d2)"
    using d(2) assms(11,13) ty by (subst search_slot.simps) simp
  define v1 where "v1 = upd_chan ch (\<lambda>p. p\<lparr>dir := d2, readmode := CBMDOS_FAM_READ, bslot := Some slot\<rparr>) v"
  define v2 where "v2 = (if VDRIVE_IS_1541 v1 then v1\<lparr>ram := (ram v1)[0x7e := slot ! 3, 0x26f := slot ! 4]\<rparr> else v1)"
  have "channels_only v1 v2" unfolding channels_only_eq v2_def by (cases v1) simp
  then have c2: "channels_only v v2"
    using channels_only_trans [OF upd_chan_change [of v ch]] unfolding v1_def by blast
  note k = chan_change [OF c2] and f = channels_only_fields [OF c2]
  have q: "chan v2 ch = (chan v ch)\<lparr>dir := d2, readmode := CBMDOS_FAM_READ, bslot := Some slot\<rparr>"
    "length (buffers v2) = length (buffers v)"
    using assms(5) by (simp_all add: v2_def v1_def)
  have op: "open_file u v ch ch cp = iec_open_read_sequential (u_junk u) (u_tmp u) (u_buf u) (u_t0 u) (u_now u) v2 ch
      (unat (slot ! 3)) (unat (slot ! 4))"
    using assms(5,10-12,14,17-20) d(1) ss ty
    by (simp add: open_file_def min_absorb1 Let_def v1_def [symmetric] iec_open_read_def v2_def)
  have "unpartitioned v2" "ch < length (buffers v2)" "reader (chan v2 ch)"
    "chained v2 (unat (slot ! 3), unat (slot ! 4)) ((a, b) # fs)"
    using assms(1-8,15) k f q by (auto simp: unpartitioned_def directory_def reader_def idle_def)
  then show ?thesis
    using open_reads [of v2 ch _ _ a b fs] assms(16) op that by metis
qed

lemma loads_file:
  assumes "directory v cs" "\<not> haspt v" "current_part v = 0" "image_format v \<noteq> FORMAT_1581" "images v ! 0 \<noteq> None"
    and "2 \<le> ch" "ch < 15" "length (buffers v) = 16" "idle (chan v ch)"
    and "name \<noteq> []" "length name \<le> 16" "asc CHR '','' \<notin> set name" "type_of_letter ty = Some t"
    and "find (slot_fits name (length name) t) (directory_slots cs) = Some slot" "slot ! SLOT_TYPE_OFFSET AND 0x80 \<noteq> 0"
    and "chained v (unat (slot ! SLOT_FIRST_TRACK), unat (slot ! SLOT_FIRST_SECTOR)) fs" "ends_well fs"
  shows "\<exists>w0 w. vdrive_iec_open u v (Some (sent_name name ty (asc CHR ''R''))) (length name + 6) ch None = Some (SERIAL_OK, w0) \<and>
    fetch_bytes u ch x w0 (length (file_bytes fs)) = Some (with_eof (file_bytes fs), w)"
proof -
  have np: "image_format v \<noteq> FORMAT_NP" using assms(1) by (simp add: directory_def)
  have ch: "ch \<noteq> 15" "ch < length (buffers v)" "mode (chan v ch) = BUFFER_NOT_IN_USE" using assms(7-9) by (simp_all add: idle_def)
  have md: "mode_of_letter (asc CHR ''R'') = Some CBMDOS_FAM_READ" by (simp add: mode_of_letter_def)
  obtain v1 cp where o: "vdrive_iec_open u v (Some (sent_name name ty (asc CHR ''R''))) (length name + 6) ch None = open_file u v1 ch ch cp"
    "channels_only v v1" "length (buffers v1) = length (buffers v)"
    "chan v1 ch = (chan v ch)\<lparr>bsmall := 0, bpartition := 0, needsupdate := 0\<rparr>"
    "pfile cp = Some (name @ [0])" "filelength cp = length name" "filetype cp = t" "preadmode cp = CBMDOS_FAM_READ"
    using opens_by_name [OF assms(2-4) np assms(5,6) ch assms(10,12,13) md, of u] by blast
  have t: "t \<noteq> CBMDOS_FT_DEL" "t \<noteq> CBMDOS_FT_REL" using assms(13) by (auto simp: type_of_letter_def split: if_splits)
  obtain a b fs' where fs: "fs = (a, b) # fs'" using assms(17) by (cases fs) auto
  have v1: "directory v1 cs" "\<not> haspt v1" "current_part v1 = 0" "image_format v1 \<noteq> FORMAT_1581" "ch < length (buffers v1)"
    "idle (chan v1 ch)" "bsmall (chan v1 ch) = 0" "bpartition (chan v1 ch) = 0"
    "chained v1 (unat (slot ! SLOT_FIRST_TRACK), unat (slot ! SLOT_FIRST_SECTOR)) ((a, b) # fs')" "file_end b fs'"
    using assms(1-4,9,16,17) ch(2) o(3,4) fs chan_change [OF o(2)]
    by (simp_all add: directory_change [OF o(2)] channels_only_fields [OF o(2)] idle_def)
  obtain w0 where w0: "open_file u v1 ch ch cp = Some (SERIAL_OK, w0)" "reading w0 ch b fs'" "bufptr (chan w0 ch) = 2"
    by (rule opens_for_reading [OF v1(1-8) assms(10,11) t assms(14,15) v1(9,10) o(5-8)])
  obtain z zs where z: "file_bytes fs = z # zs" using file_bytes_nonempty [OF assms(16,17)] by (cases "file_bytes fs") auto
  then have "file_rest (bufptr (chan w0 ch)) b fs' = z # zs" by (simp add: fs w0(3))
  then show ?thesis using fetch_file [OF w0(2), of z zs u x] o(1) w0(1) z by auto
qed

subsection \<open>Properties\<close>

text \<open>
  C38. Loading a file. On a readable disk a host opens \<open>0:name,type,R\<close> on a free channel. If the
  first slot of the directory that has the type and a name that matches is the entry of a closed
  file, the call succeeds, and the host then receives exactly the bytes of the chain the entry
  leads to, each with status OK but the last, which comes with the mark of the end of the file.
\<close>

theorem load_file:
  assumes "directory v cs" "\<not> haspt v" "current_part v = 0" "image_format v \<noteq> FORMAT_1581" "images v ! 0 \<noteq> None"
    and "2 \<le> ch" "ch < 15" "length (buffers v) = 16" "idle (chan v ch)"
    and "name \<noteq> []" "length name \<le> 16" "asc CHR '','' \<notin> set name" "type_of_letter ty = Some t"
    and "find (slot_fits name (length name) t) (directory_slots cs) = Some slot" "slot ! SLOT_TYPE_OFFSET AND 0x80 \<noteq> 0"
    and "chained v (unat (slot ! SLOT_FIRST_TRACK), unat (slot ! SLOT_FIRST_SECTOR)) fs" "ends_well fs"
  shows "\<exists>w0 w. vdrive_iec_open u v (Some (sent_name name ty (asc CHR ''R''))) (length name + 6) ch None = Some (SERIAL_OK, w0) \<and>
    fetch_bytes u ch x w0 (length (file_bytes fs)) = Some (with_eof (file_bytes fs), w)"
  using assms by (rule loads_file)

text \<open>A disk with the program \<open>AB\<close> of two bytes, loaded by the pattern \<open>A*\<close>.\<close>

definition short_file :: buffer where
  "short_file = 0 # 3 # 7 # 9 # replicate 252 0"

abbreviation (input) "program_disk \<equiv> disk_1541 [((18, 0), replicate 256 0), ((18, 1), one_slot_sector), ((17, 0), short_file)]"

lemma program_disk_sectors: "sectors_1541 [((18, 0), replicate 256 0), ((18, 1), one_slot_sector), ((17, 0), short_file)]"
  by (simp add: sectors_1541_def one_slot_sector_def short_file_def)

theorem load_file_witness:
  "\<exists>w0 w. vdrive_iec_open quiet program_disk (Some (map of_char ''0:A*,P,R'' @ [0])) 8 2 None = Some (SERIAL_OK, w0) \<and>
    fetch_bytes quiet 2 0 w0 2 = Some ([(SERIAL_OK, 7), (SERIAL_EOF, 9)], w)"
proof -
  let ?n = "map of_char ''A*'' :: buffer" and ?v = program_disk
  note d = disk_1541_simps [OF program_disk_sectors] and h = disk_1541_holds [OF program_disk_sectors]
  have n: "?n \<noteq> []" "length ?n \<le> 16" "asc CHR '','' \<notin> set ?n" "length ?n + 6 = 8"
    "sent_name ?n (asc CHR ''P'') (asc CHR ''R'') = map of_char ''0:A*,P,R'' @ [0]"
    by (simp_all add: sent_name_def)
  have ty: "type_of_letter (asc CHR ''P'') = Some CBMDOS_FT_PRG" by (simp add: type_of_letter_def)
  have f: "current_part ?v = 0" "images ?v ! 0 \<noteq> None" "length (buffers ?v) = 16" "idle (chan ?v 2)"
    using disk_1541_heap [OF program_disk_sectors] by (auto simp: dirty_1541_def blank_drive_def idle_def)
  have "one_slot_sector ! 0 = 0" by (simp add: one_slot_sector_def nth_write_at)
  then have dr: "directory ?v [((18, 1), one_slot_sector)]"
    using d h [of "(18, 1)"] h [of "(18, 0)"] by (auto simp: directory_def)
  have fi: "find (slot_fits ?n (length ?n) CBMDOS_FT_PRG) (directory_slots [((18, 1), one_slot_sector)]) =
      Some (slice one_slot_sector 32 32)" "slice one_slot_sector 32 32 ! 2 AND 0x80 \<noteq> 0"
    "unat (slice one_slot_sector 32 32 ! 3) = 17" "unat (slice one_slot_sector 32 32 ! 4) = 0"
    by code_simp+
  have sf: "link short_file = (0, 3)" "ends_well [((17, 0), short_file)]" "file_bytes [((17, 0), short_file)] = [7, 9]"
    by (simp_all add: short_file_def slice_def)
  then have "chained ?v (17, 0) [((17, 0), short_file)]" using h [of "(17, 0)" short_file] by simp
  then have fs: "chained ?v (unat (slice one_slot_sector 32 32 ! 3), unat (slice one_slot_sector 32 32 ! 4)) [((17, 0), short_file)]"
    by (simp only: fi(3,4))
  have "\<exists>w0 w. vdrive_iec_open quiet ?v (Some (map of_char ''0:A*,P,R'' @ [0])) 8 2 None = Some (SERIAL_OK, w0) \<and>
    fetch_bytes quiet 2 0 w0 (length [7 :: byte, 9]) = Some (with_eof [7, 9], w)"
    using load_file [OF dr d(7) f(1) _ f(2) _ _ f(3,4) n(1-3) ty fi(1,2) fs sf(2), of quiet 0] d(2)
    unfolding n(4,5) sf(3) by simp
  moreover have "length [7 :: byte, 9] = 2" "with_eof [7, 9] = [(SERIAL_OK, 7), (SERIAL_EOF, 9)]" by (simp_all add: with_eof_def)
  ultimately show ?thesis by (simp only:)
qed

end
