(* ===== verification/FileRoundTrip.thy ===== *)
theory FileRoundTrip
  imports FileLoad
begin

text \<open>
  A saved file is the one a load of the same name finds: the entry a save leaves is, in the
  directory as it then is, the first one that fits the name.
\<close>

subsection \<open>A name fits its own entry\<close>

lemma self_match_loop:
  assumes "\<And>i. i < 16 \<Longrightarrow> dirname ! i = pattern ! i" "\<And>i. n \<le> i \<Longrightarrow> i < 16 \<Longrightarrow> pattern ! i = 0xA0" "index \<le> 16"
  shows "wildcard_compare_loop pattern n dirname index = 1"
  using assms(3)
proof (induction rule: inc_induct)
  case base
  then show ?case by (subst wildcard_compare_loop.simps) simp
next
  case (step i)
  then show ?case using assms(1,2) [of i] by (subst wildcard_compare_loop.simps) simp
qed

lemma self_match:
  assumes "length name \<le> 16" "length s = 32" "slice s 5 16 = cbmdos_dir_slot_create name (length name)"
  shows "cbmdos_parse_wildcard_compare (cbmdos_dir_slot_create name (length name)) (length name) (drop 5 s) = 1"
  unfolding cbmdos_parse_wildcard_compare_def
proof (rule self_match_loop)
  fix i :: nat assume "i < 16"
  then have "drop 5 s ! i = slice s 5 16 ! i" using assms(2) by (simp add: slice_def)
  then show "drop 5 s ! i = cbmdos_dir_slot_create name (length name) ! i" by (simp add: assms(3))
next
  fix i assume "length name \<le> i" "i < 16"
  then show "cbmdos_dir_slot_create name (length name) ! i = 0xA0"
    using assms(1) by (simp add: nth_cbmdos_dir_slot_create)
qed simp

lemma own_entry_fits:
  assumes "length name \<le> 16" "length s = 32" "slice s 5 16 = cbmdos_dir_slot_create name (length name)"
    and "s ! 2 = of_nat t OR 0x80" "type_of_letter ty = Some t"
  shows "slot_fits name (length name) t s" "s ! 2 AND 0x80 \<noteq> 0"
proof -
  have "s ! 2 \<noteq> 0" "unat (s ! 2 AND 7) = t" "s ! 2 AND 0x80 \<noteq> 0"
    using assms(4,5) by (auto simp: type_of_letter_def split: if_splits)
  then show "slot_fits name (length name) t s" "s ! 2 AND 0x80 \<noteq> 0"
    using self_match [OF assms(1-3)] by (simp_all add: slot_fits_def vdrive_dir_name_match_def)
qed

lemma fits_any_type: "slot_fits name n t s \<Longrightarrow> slot_fits name n CBMDOS_FT_DEL s"
  by (auto simp: slot_fits_def vdrive_dir_name_match_def split: if_splits)

lemma find_unique: "x \<in> set xs \<Longrightarrow> P x \<Longrightarrow> (\<And>y. y \<in> set xs \<Longrightarrow> P y \<Longrightarrow> y = x) \<Longrightarrow> find P xs = Some x"
proof (induction xs)
  case (Cons y xs)
  show ?case
  proof (cases "P y")
    case True
    then show ?thesis using Cons.prems(3) [of y] by simp
  next
    case False
    then have "x \<in> set xs" using Cons.prems(1,2) by auto
    then have "find P xs = Some x" by (rule Cons.IH [OF _ Cons.prems(2)]) (rule Cons.prems(3); simp)
    then show ?thesis using False by simp
  qed
qed simp

subsection \<open>The directory with a sector replaced\<close>

definition replaced :: "((nat \<times> nat) \<times> buffer) list \<Rightarrow> nat \<times> nat \<Rightarrow> buffer \<Rightarrow> ((nat \<times> nat) \<times> buffer) list" where
  "replaced cs a b = map (\<lambda>c. if fst c = a then (a, b) else c) cs"

lemma chained_replaced:
  assumes "chained v x cs" "holds v a b" "link b' = link b" "holds w a b'"
    and "\<And>c. c \<in> set cs \<Longrightarrow> fst c \<noteq> a \<Longrightarrow> holds w (fst c) (snd c)"
  shows "chained w x (replaced cs a b')"
  using assms
proof (induction v x cs rule: chained.induct)
  case (2 v x y b0 cs)
  then have "b0 = b" if "x = a" using that by (auto simp: holds_def)
  moreover have "holds w x b0" if "x \<noteq> a" using 2(2) 2(6) [of "(y, b0)"] that by simp
  ultimately show ?case using 2 by (auto simp: replaced_def)
qed (simp add: replaced_def)

lemma slot_of_entry:
  assumes "length sec = 256" "length slot = 32" "i < 8" "j < 8"
  shows "j \<noteq> i \<Longrightarrow> slice (with_entry sec i slot) (j * 32) 32 = slice sec (j * 32) 32"
    "k < 32 \<Longrightarrow> 2 \<le> k \<Longrightarrow> slice (with_entry sec i slot) (i * 32) 32 ! k = slot ! k"
proof -
  have l: "length (with_entry sec i slot) = 256" using assms(1-3) by (simp add: with_entry_def)
  have n: "slice (with_entry sec i slot) (m * 32) 32 ! k =
      (if m = i \<and> 2 \<le> k then slot ! k else sec ! (m * 32 + k))" if "m < 8" "k < 32" for m k
    using that with_entry_nth [OF assms(1,2,3), of "m * 32 + k"] l by (simp add: nth_slice)
  show "slice (with_entry sec i slot) (j * 32) 32 = slice sec (j * 32) 32" if "j \<noteq> i"
    using that n [of j] assms(1,4) l by (intro nth_equalityI) (simp_all add: nth_slice)
  show "slice (with_entry sec i slot) (i * 32) 32 ! k = slot ! k" if "k < 32" "2 \<le> k" using n [of i k] assms(3) that by simp
qed

lemma in_directory_slots: "s \<in> set (directory_slots cs) \<longleftrightarrow> (\<exists>c \<in> set cs. \<exists>j < 8. s = slice (snd c) (j * 32) 32)"
  by (auto simp: directory_slots_def) (metis snd_conv, force)

lemma finds_own_entry:
  assumes "c \<in> set cs" "length (snd c) = 256" "\<And>c'. c' \<in> set cs \<Longrightarrow> fst c' = fst c \<Longrightarrow> snd c' = snd c"
    and "length slot = 32" "i < 8" "slot_fits name n t s" "\<not> (\<exists>s \<in> set (directory_slots cs). slot_fits name n CBMDOS_FT_DEL s)"
    and s_def: "s = slice (with_entry (snd c) i slot) (i * 32) 32"
  shows "find (slot_fits name n t) (directory_slots (replaced cs (fst c) (with_entry (snd c) i slot))) = Some s"
proof (rule find_unique)
  let ?b = "with_entry (snd c) i slot"
  have "(fst c, ?b) \<in> set (replaced cs (fst c) ?b)" using assms(1) by (force simp: replaced_def)
  then show "s \<in> set (directory_slots (replaced cs (fst c) ?b))"
    using assms(5) unfolding in_directory_slots by (intro bexI [of _ "(fst c, ?b)"] exI [of _ i]) (auto simp: s_def)
  show "slot_fits name n t s" by fact
  fix y assume y: "y \<in> set (directory_slots (replaced cs (fst c) ?b))" "slot_fits name n t y"
  obtain c' j where j: "c' \<in> set (replaced cs (fst c) ?b)" "j < 8" "y = slice (snd c') (j * 32) 32"
    using y(1) unfolding in_directory_slots by blast
  have old: "y \<notin> set (directory_slots cs)" using assms(7) y(2) fits_any_type by blast
  show "y = s"
  proof (cases "c' \<in> set cs \<and> fst c' \<noteq> fst c")
    case True
    then have "y \<in> set (directory_slots cs)" using j unfolding in_directory_slots by blast
    then show ?thesis using old by simp
  next
    case False
    then have c': "snd c' = ?b" using j(1) by (auto simp: replaced_def split: if_splits)
    have "j = i"
    proof (rule ccontr)
      assume "j \<noteq> i"
      then have "y = slice (snd c) (j * 32) 32" using slot_of_entry(1) [OF assms(2,4,5) j(2)] j(3) c' by simp
      then show False using old j(2) assms(1) unfolding in_directory_slots by blast
    qed
    then show ?thesis using j(3) c' by (simp add: s_def)
  qed
qed

subsection \<open>The disk after a save\<close>

lemma logical_read_length:
  assumes "mounted v" "logical_valid v (t, s)" "logical_read v (t, s) = (r, b)"
  shows "length b = 256"
proof -
  obtain a where a: "vdrive_log_to_phy v t s = Some a" "in_image (cur_image v) (addr_pair a)"
    using assms(2) by (auto simp: logical_valid_def split: option.splits)
  have ok: "drive_ok v" "dxx_ok (cur_image v)" using assms(1) by (simp_all add: mounted_def drive_ok_def)
  have "length (slice (image_file (cur_image v)) (block_index (cur_image v) (addr_pair a) * 256) 256) = 256"
    using a(2) by (simp add: in_image_def Let_def block_index_def)
  then show ?thesis
    using assms(3) logical_read_eq [OF ok(1) a(1)] image_read_value [OF ok(2) a(2)] by (auto split: option.splits if_splits)
qed

lemma saved_home_holds:
  assumes "mounted v" "bam_saved v" "a \<in> bam_homes v" "logical_valid v a"
  obtains b where "holds v a b"
proof -
  obtain j where j: "j < bam_blocks v" "a = bam_home v j" using assms(3) by (auto simp: bam_homes_def)
  then have "logical_read v a = (0, bam_block v j)" using assms(2) by (simp add: bam_saved_def)
  then show ?thesis using that assms(1,4) logical_read_length [of v "fst a" "snd a"] by (simp add: holds_def)
qed

lemma saved_directory:
  assumes "open_disk v cs" "mounted w" "drive_setup w = drive_setup v" "bam_saved w" "bam_homes w = bam_homes v"
    and "\<forall>a \<in> bam_homes v. logical_valid w a" "c \<in> set cs" "length slot = 32" "i < 8" "holds w (fst c) (with_entry (snd c) i slot)"
    and "\<forall>a b. a \<in> data_sectors v \<and> sector_is_free v a \<or> a \<in> bam_homes v \<or> a = fst c \<or> holds w a b = holds v a b"
  shows "directory w (replaced cs (fst c) (with_entry (snd c) i slot))"
proof -
  have v: "Dir_Track w = Dir_Track v" "Dir_Sector w = Dir_Sector v" "Header_Track w = Header_Track v" "Header_Sector w = Header_Sector v"
    "image_format w = image_format v" using assms(3) by (simp_all add: drive_setup_def)
  let ?h = "(Header_Track v, Header_Sector v)"
  have d: "chained v (Dir_Track v, Dir_Sector v) cs" "image_format v \<noteq> FORMAT_NP" "Dir_Track v < 256" "Dir_Sector v < 256"
    "\<exists>hb. holds v ?h hb" "?h \<notin> data_sectors v" "\<forall>c \<in> set cs. fst c \<notin> data_sectors v \<and> fst c \<notin> bam_homes v"
    using assms(1) by (simp_all add: open_disk_def directory_def)
  note hc = chained_holds [OF d(1)]
  have l: "length (snd c) = 256" using hc [OF assms(7)] by (simp add: holds_def)
  have "\<exists>hb. holds w ?h hb"
  proof (cases "?h \<in> bam_homes v")
    case True
    then show ?thesis using saved_home_holds [OF assms(2,4)] assms(5,6) by metis
  next
    case False
    then show ?thesis using assms(10,11) d(5,6) by metis
  qed
  moreover have "link (with_entry (snd c) i slot) = link (snd c)"
    using with_entry_nth [OF l assms(8,9)] by simp
  then have "chained w (Dir_Track v, Dir_Sector v) (replaced cs (fst c) (with_entry (snd c) i slot))"
    using assms(10,11) d(7) hc by (intro chained_replaced [OF d(1) hc [OF assms(7)]]) blast+
  ultimately show ?thesis using assms(2) d(2-4) v by (simp add: directory_def)
qed

subsection \<open>Properties\<close>

text \<open>
  C40. A saved file loads. Under the conditions of C37 a host opens \<open>0:name,type,W\<close>, sends the bytes
  and closes the channel, then opens \<open>0:name,type,R\<close> on the same channel and receives exactly the
  bytes it has sent, the last one with the mark of the end of the file. This composes the parsing
  of the name, the search of the directory, the allocation of sectors, the sector store with its
  error map, the closing of the file and the flush of the BAM.
\<close>

theorem save_then_load:
  assumes "open_disk v cs" "2 \<le> ch" "ch < 15" "length (buffers v) = 16" "idle (chan v ch)"
    and "name \<noteq> []" "length name \<le> 16" "asc CHR '','' \<notin> set name" "type_of_letter ty = Some t"
    and "\<not> (\<exists>slot \<in> set (directory_slots cs). slot_fits name (length name) 0 slot)"
    and "\<exists>slot \<in> set (directory_slots cs). slot ! SLOT_TYPE_OFFSET = 0"
    and "xs \<noteq> []" "length xs \<le> 254 * blocks_free v"
  shows "\<exists>w0 w1 w w2 w3.
    vdrive_iec_open u v (Some (sent_name name ty (asc CHR ''W''))) (length name + 6) ch None = Some (SERIAL_OK, w0) \<and>
    write_bytes u ch SERIAL_OK w0 xs = Some (SERIAL_OK, w1) \<and> vdrive_iec_close u w1 ch = Some (SERIAL_OK, w) \<and>
    vdrive_iec_open u w (Some (sent_name name ty (asc CHR ''R''))) (length name + 6) ch None = Some (SERIAL_OK, w2) \<and>
    fetch_bytes u ch x w2 (length xs) = Some (with_eof xs, w3)"
proof -
  obtain w0 w1 w c i slot fs where w:
    "vdrive_iec_open u v (Some (sent_name name ty (asc CHR ''W''))) (length name + 6) ch None = Some (SERIAL_OK, w0)"
    "write_bytes u ch SERIAL_OK w0 xs = Some (SERIAL_OK, w1)" "vdrive_iec_close u w1 ch = Some (SERIAL_OK, w)"
    "c \<in> set cs" "i < 8" "holds w (fst c) (with_entry (snd c) i slot)" "slot ! 2 = of_nat t OR 0x80"
    "slice slot 5 16 = cbmdos_dir_slot_create name (length name)" "chained w (unat (slot ! 3), unat (slot ! 4)) fs"
    "ends_well fs" "file_bytes fs = xs" "bam_saved w"
    "\<forall>a b. a \<in> data_sectors v \<and> sector_is_free v a \<or> a \<in> bam_homes v \<or> a = fst c \<or> holds w a b = holds v a b"
    "length slot = 32" "mounted w" "drive_setup w = drive_setup v" "bam_homes w = bam_homes v" "\<forall>a \<in> bam_homes v. logical_valid w a"
    "idle (chan w ch)"
    using saves_file [OF assms, of u] by blast
  let ?cs = "replaced cs (fst c) (with_entry (snd c) i slot)" and ?s = "slice (with_entry (snd c) i slot) (i * 32) 32"
  have dw: "directory w ?cs" by (rule saved_directory [OF assms(1) w(15,16,12,17,18,4,14,5,6,13)])
  have dv: "chained v (Dir_Track v, Dir_Sector v) cs" using assms(1) by (simp add: open_disk_def directory_def)
  note hc = chained_holds [OF dv]
  have sec: "length (snd c) = 256" using hc [OF w(4)] by (simp add: holds_def)
  have one: "snd c' = snd c" if "c' \<in> set cs" "fst c' = fst c" for c'
    using hc [OF that(1)] hc [OF w(4)] that(2) by (simp add: holds_def)
  have s: "?s ! k = slot ! k" if "2 \<le> k" "k < 32" for k by (rule slot_of_entry(2) [OF sec w(14,5,5) that(2,1)])
  have ls: "length ?s = 32" using sec w(5,14) by (simp add: with_entry_def)
  have "slice ?s 5 16 = cbmdos_dir_slot_create name (length name)"
    using slice_cong [of ?s slot 5 16] ls w(8,14) s by (simp add: list_all_iff)
  moreover have "?s ! 2 = of_nat t OR 0x80" using s [of 2] w(7) by simp
  ultimately have fit: "slot_fits name (length name) t ?s" "?s ! 2 AND 0x80 \<noteq> 0"
    using own_entry_fits [OF assms(7) ls _ _ assms(9)] by blast+
  have fi: "find (slot_fits name (length name) t) (directory_slots ?cs) = Some ?s"
    by (rule finds_own_entry [OF w(4) sec one w(14,5) fit(1) assms(10) refl])
  have ch: "chained w (unat (?s ! 3), unat (?s ! 4)) fs" using w(9) s [of 3] s [of 4] by simp
  have v: "\<not> haspt v" "current_part v = 0" "image_format v \<noteq> FORMAT_1581" "images v ! 0 \<noteq> None"
    using assms(1) by (simp_all add: open_disk_def writable_def)
  have k: "\<not> haspt w" "current_part w = 0" "image_format w \<noteq> FORMAT_1581" "images w ! 0 \<noteq> None" "length (buffers w) = 16"
    using v assms(4) w(16) by (simp_all add: drive_setup_def)
  obtain w2 w3 where "vdrive_iec_open u w (Some (sent_name name ty (asc CHR ''R''))) (length name + 6) ch None = Some (SERIAL_OK, w2)"
    "fetch_bytes u ch x w2 (length xs) = Some (with_eof xs, w3)"
    using loads_file [OF dw k(1-4) assms(2,3) k(5) w(19) assms(6-9) fi fit(2) ch w(10), of u x] unfolding w(11) by blast
  then show ?thesis using w(1-3) by blast
qed

theorem save_then_load_witness:
  "\<exists>w0 w1 w w2 w3.
    vdrive_iec_open quiet free_1541 (Some (map of_char ''0:TEST,S,W'' @ [0])) 10 2 None = Some (SERIAL_OK, w0) \<and>
    write_bytes quiet 2 SERIAL_OK w0 [1, 2, 3] = Some (SERIAL_OK, w1) \<and> vdrive_iec_close quiet w1 2 = Some (SERIAL_OK, w) \<and>
    vdrive_iec_open quiet w (Some (map of_char ''0:TEST,S,R'' @ [0])) 10 2 None = Some (SERIAL_OK, w2) \<and>
    fetch_bytes quiet 2 0 w2 3 = Some ([(SERIAL_OK, 1), (SERIAL_OK, 2), (SERIAL_EOF, 3)], w3)"
proof -
  let ?n = "map of_char ''TEST'' :: buffer"
  have n: "?n \<noteq> []" "length ?n \<le> 16" "asc CHR '','' \<notin> set ?n" "length ?n + 6 = 10"
    "sent_name ?n (asc CHR ''S'') (asc CHR ''W'') = map of_char ''0:TEST,S,W'' @ [0]"
    "sent_name ?n (asc CHR ''S'') (asc CHR ''R'') = map of_char ''0:TEST,S,R'' @ [0]"
    by (simp_all add: sent_name_def)
  have ty: "type_of_letter (asc CHR ''S'') = Some CBMDOS_FT_SEQ" by (simp add: type_of_letter_def)
  have sl: "\<not> (\<exists>slot \<in> set (directory_slots empty_dir). slot_fits ?n (length ?n) 0 slot)"
    "\<exists>slot \<in> set (directory_slots empty_dir). slot ! SLOT_TYPE_OFFSET = 0"
    unfolding empty_directory by (simp_all add: slot_fits_def vdrive_dir_name_match_def)
  have xs: "[1 :: byte, 2, 3] \<noteq> []" "length [1 :: byte, 2, 3] \<le> 254 * blocks_free free_1541"
    using free_1541_open(4) by simp_all
  have ch: "2 \<le> (2 :: nat)" "(2 :: nat) < 15" "idle (chan free_1541 2)" using free_1541_open(3) by simp_all
  have e: "length [1 :: byte, 2, 3] = 3" "with_eof [1, 2, 3] = [(SERIAL_OK, 1), (SERIAL_OK, 2), (SERIAL_EOF, 3)]"
    by (simp_all add: with_eof_def)
  show ?thesis
    using save_then_load [OF free_1541_open(1) ch(1,2) free_1541_open(2) ch(3) n(1-3) ty sl xs, of quiet 0]
    unfolding n(4-6) e by blast
qed

end
