(* ===== verification/CommandPart.thy ===== *)
theory CommandPart
  imports CommandDisk
begin

text \<open>
  Commands on partitions and subdirectories, positioning and the clock
  (\<^verbatim>\<open>lib/vdrive/vdrive-command.c\<close>, \<^verbatim>\<open>vdrive.c\<close>): \<open>CP\<close>, \<open>CD\<close>, \<open>/\<close>, \<open>MD\<close>, \<open>RD\<close>, \<open>R-P\<close>, \<open>G-P\<close>, \<open>D-P\<close>, \<open>P\<close> and \<open>T-R\<close>.
\<close>

subsection \<open>Partitions of CMD disks\<close>

text \<open>The number a \<open>CP\<close> command asks for, or the error it gives with the number it reports.\<close>

definition chosen_partition :: "vdrive \<Rightarrow> cbmdos_cmd_parse_plus \<Rightarrow> (int \<times> int) + int" where
  "chosen_partition v cp =
    (let c = the (command cp);
         too_big = (\<lambda>np. np \<ge> 224 \<and> VDRIVE_IS_FD v \<or> np > 254 \<and> VDRIVE_IS_HD v) in
     if c ! 1 = asc CHR ''P'' then
       if commandlength cp = 2 then
         if filelength cp = 0 then Inl (CBMDOS_IPE_SEL_PARTN, selected_part v)
         else
           let np = c_int (vdrive_atoi (the (pfile cp)) (filelength cp)) in
           if np < 1 \<or> too_big np then Inl (CBMDOS_IPE_BAD_PARTN, np) else Inr np
       else Inr 0
     else if commandlength cp = 3 \<and> c ! 1 = asc CHR ''P'' OR 0x80 then
       let np = uint (c ! 2) in
       if np = 0 \<and> VDRIVE_IS_FD v then Inr 255
       else if too_big np then Inl (CBMDOS_IPE_BAD_PARTN, np) else Inr np
     else Inl (CBMDOS_IPE_BAD_PARTN, 0))"

definition vdrive_command_chcmdpart :: "ambient \<Rightarrow> vdrive \<Rightarrow> cbmdos_cmd_parse_plus \<Rightarrow> int \<times> vdrive" where
  "vdrive_command_chcmdpart u v cp =
    (if \<not> haspt v \<or> \<not> (commandlength cp > 1 \<and> the (command cp) ! 1 AND 0x7f = asc CHR ''P'')
     then vdrive_command_set_error v CBMDOS_IPE_INVAL 0 0
     else case vdrive_ispartvalid v (u_tmp u) 255 of
       (valid, v) \<Rightarrow>
         if valid = 0 then vdrive_command_set_error v CBMDOS_IPE_NOT_READY 0 0
         else case chosen_partition v cp of
           Inl (st, k) \<Rightarrow> vdrive_command_set_error v st (c_unsigned k) 0
         | Inr np \<Rightarrow>
             (case vdrive_switch (u_junk u) (u_tmp u) v np of
                (st, v) \<Rightarrow>
                  if st = 0 then vdrive_command_set_error (v\<lparr>selected_part := np\<rparr>) CBMDOS_IPE_SEL_PARTN (c_unsigned np) 0
                  else vdrive_command_set_error v CBMDOS_IPE_BAD_PARTN (c_unsigned np) 0))"

definition rename_partition :: "ambient \<Rightarrow> vdrive \<Rightarrow> cbmdos_cmd_parse_plus \<Rightarrow> (int \<times> vdrive) option" where
  "rename_partition u v cp =
    (if \<not> new_name_syntax cp then Some (CBMDOS_IPE_SYNTAX, v)
     else do {
       let d = vdrive_dir_part_find_first_slot (the (pfile cp)) (int (filelength cp)) 0 (u_dir u);
       (res, v, d) \<leftarrow> vdrive_dir_part_find_next_slot v d;
       if res \<noteq> None then Some (CBMDOS_IPE_FILE_EXISTS, v)
       else if filelength cp = 0 then Some (CBMDOS_IPE_SYNTAX, v)
       else do {
         let dest = take (filelength cp) (the (pfile cp));
         (rc, cp) \<leftarrow> parse_more cp;
         if rc \<noteq> 0 then Some (CBMDOS_IPE_SYNTAX, v)
         else do {
           let d = vdrive_dir_part_find_first_slot (the (pfile cp)) (int (filelength cp)) 0 d;
           (res, v, d) \<leftarrow> vdrive_dir_part_find_next_slot v d;
           Some (if res = None then (CBMDOS_IPE_NOT_FOUND, v) else write_entry v (put_entry_name d dest)) } } })"

definition vdrive_command_renamepart :: "ambient \<Rightarrow> vdrive \<Rightarrow> cbmdos_cmd_parse_plus \<Rightarrow> (int \<times> vdrive) option" where
  "vdrive_command_renamepart u v cp =
    (let origpart = current_part v in
     if \<not> haspt v then Some (CBMDOS_IPE_INVAL, v)
     else if VDRIVE_IS_READONLY v then Some (CBMDOS_IPE_WRITE_PROTECT_ON, vdrive_command_return (u_tmp u) v origpart)
     else case vdrive_switch (u_junk u) (u_tmp u) v 255 of
       (st, v) \<Rightarrow>
         if st \<noteq> 0 then Some (CBMDOS_IPE_INVAL, v)
         else do {
           (st, v) \<leftarrow> rename_partition u v cp;
           Some (st, vdrive_command_return (u_tmp u) v origpart) })"

text \<open>The 30 bytes that describe a partition; \<open>b\<close> is the sector of the table with its entry.\<close>

definition partition_info :: "vdrive \<Rightarrow> int \<Rightarrow> int \<Rightarrow> buffer \<Rightarrow> buffer" where
  "partition_info v part ret b =
    (let j = nat (part * 32 mod 256); zero = replicate 30 0; blocks = itracks (cur_image v) * 128;
         info =
           (if ret \<ge> 0 then
              if part \<le> (if VDRIVE_IS_HD v then 254 else 31) then
                (write_at (zero[2 := of_int part, 0 := b ! (j + 2)]) 3 (slice b (j + 5) 16))
                  [19 := b ! (j + 0x15), 20 := b ! (j + 0x16), 21 := b ! (j + 0x17),
                   27 := b ! (j + 0x1d), 28 := b ! (j + 0x1e), 29 := b ! (j + 0x1f)]
              else zero[2 := of_int part]
            else if part = 1 then
              (write_at zero 3 (map of_char ''NO PARTITIONS''))
                [2 := 1, 0 := 1, 27 := of_nat (blocks div 65536), 28 := of_nat (blocks div 256), 29 := of_nat blocks]
            else zero) in
     (if VDRIVE_IS_FD v then
        info[1 := 0xe0 OR (if itype (cur_image v) = D1M then 1 else if itype (cur_image v) = D2M then 2 else 4)]
      else info))"

definition asked_partition :: "vdrive \<Rightarrow> buffer \<Rightarrow> nat \<Rightarrow> int option" where
  "asked_partition v c len =
    (if \<not> haspt v \<or> len < 4 \<or> len > 5 \<or> c ! 0 \<noteq> asc CHR ''G'' \<or> c ! 1 \<noteq> asc CHR ''-'' \<or> c ! 2 \<noteq> asc CHR ''P'' then None
     else
       case (if len = 4 \<and> c ! 3 = 13 then Some (current_part v)
             else if len = 5 \<and> c ! 4 = 13 then Some (uint (c ! 3)) else None) of
         None \<Rightarrow> None | Some part \<Rightarrow> Some (if part = 255 then selected_part v else part))"

definition vdrive_command_getpartinfo :: "ambient \<Rightarrow> vdrive \<Rightarrow> buffer \<Rightarrow> nat \<Rightarrow> int \<times> vdrive" where
  "vdrive_command_getpartinfo u v c len =
    (case asked_partition v c len of
       None \<Rightarrow> vdrive_command_set_error v CBMDOS_IPE_INVAL 0 0
     | Some part \<Rightarrow>
         (case vdrive_switch (u_junk u) (u_tmp u) v 255 of
            (st, v) \<Rightarrow>
              if st \<noteq> 0 then vdrive_command_set_error v CBMDOS_IPE_INVAL 0 0
              else case vdrive_read_sector v (u_buf u) 1 (c_unsigned (part * 32 div 256)) of
                (ret, v, b) \<Rightarrow> (CBMDOS_IPE_OK, answer v (partition_info v part ret b @ [13]))))"

subsection \<open>Packing partitions\<close>

text \<open>
  A partition whose place \<open>start\<close> would cover an end of a foreign one cannot move there. The
  scan takes the first partition behind \<open>start\<close>, or stops at a blocked one.
\<close>

definition blocks_move :: "vdrive \<Rightarrow> nat \<Rightarrow> nat \<Rightarrow> nat \<Rightarrow> bool" where
  "blocks_move v start i j =
    (let inside = (\<lambda>x. x \<ge> start \<and> x < start + psize v ! i) in
     ptype v ! j = 7 \<and> (inside (poffset v ! j) \<or> inside (poffset v ! j + psize v ! j)))"

fun pick_part :: "vdrive \<Rightarrow> nat \<Rightarrow> nat \<Rightarrow> nat list \<Rightarrow> nat option \<Rightarrow> nat option \<times> nat option" where
  "pick_part v start maxpart [] best = (best, None)"
| "pick_part v start maxpart (i # is') best =
    (if ptype v ! i > 0 \<and> ptype v ! i < 7 \<and> poffset v ! i \<ge> start \<and>
        poffset v ! i < (case best of None \<Rightarrow> 2 ^ 31 - 1 | Some k \<Rightarrow> poffset v ! k) then
       (case find (blocks_move v start i) [1..<Suc maxpart] of
          Some j \<Rightarrow> (best, Some j)
        | None \<Rightarrow> pick_part v start maxpart is' (Some i))
     else pick_part v start maxpart is' best)"

text \<open>Reading an area of \<open>j\<close> blocks of 512 bytes. The status is that of the last chunk of 32.\<close>

fun read_chunk :: "vdrive \<Rightarrow> buffer \<Rightarrow> nat list \<Rightarrow> int \<times> vdrive \<times> buffer list" where
  "read_chunk v b [] = (CBMDOS_IPE_OK, v, [])"
| "read_chunk v b (i # is') =
    (case vdrive_read_sector v b 1 i of
       (ret, v, x) \<Rightarrow>
         if ret \<noteq> 0 then (ret, v, [x])
         else case read_chunk v b is' of (ret, v, xs) \<Rightarrow> (ret, v, x # xs))"

function check_area :: "vdrive \<Rightarrow> buffer \<Rightarrow> nat \<Rightarrow> int \<Rightarrow> int \<times> vdrive" where
  "check_area v b j ret =
    (if j = 0 then (ret, v)
     else
       let k = min j 32; (ret, v, _) = read_chunk v b [0..<2 * k] in
       check_area (v\<lparr>current_offset := c_uint (current_offset v + k)\<rparr>) b (j - k) ret)"
  by pat_completeness auto
termination by (relation "measure (\<lambda>(v, b, j, ret). j)") (auto split: prod.splits)

declare check_area.simps [simp del]

function copy_area :: "vdrive \<Rightarrow> buffer \<Rightarrow> nat \<Rightarrow> nat \<Rightarrow> nat \<Rightarrow> vdrive" where
  "copy_area v b src dest j =
    (if j = 0 then v
     else
       let k = min j 32;
           (v, xs) = foldl (\<lambda>(v, xs) i. case vdrive_read_sector v b 1 i of (_, v, x) \<Rightarrow> (v, xs @ [x]))
             (v\<lparr>current_offset := src\<rparr>, []) [0..<2 * k];
           v = foldl (\<lambda>v i. snd (vdrive_write_sector v (xs ! i) 1 i)) (v\<lparr>current_offset := dest\<rparr>) [0..<2 * k] in
       copy_area v b (src + k) (dest + k) (j - k))"
  by pat_completeness auto
termination by (relation "measure (\<lambda>(v, b, src, dest, j). j)") (auto split: prod.splits)

declare copy_area.simps [simp del]

text \<open>
  The number of blocks to copy is the counter that the check of the destination has left at 0,
  so that nothing is copied.
\<close>

definition move_part :: "vdrive \<Rightarrow> buffer \<Rightarrow> nat \<Rightarrow> nat \<Rightarrow> int \<times> vdrive" where
  "move_part v b best start =
    (let src = poffset v ! best in
     case check_area (v\<lparr>image_format := FORMAT_NP, current_offset := src\<rparr>) b (psize v ! best) CBMDOS_IPE_OK of
       (ret, v) \<Rightarrow>
         if ret \<noteq> 0 then (ret, v)
         else case check_area (v\<lparr>current_offset := start\<rparr>) b (psize v ! best) ret of
           (ret, v) \<Rightarrow>
             if ret \<noteq> 0 then (ret, v)
             else
               let v = copy_area v b src start 0 in
               (CBMDOS_IPE_OK, v\<lparr>poffset := (poffset v)[best := start]\<rparr>))"

partial_function (option) pack_loop :: "vdrive \<Rightarrow> buffer \<Rightarrow> nat \<Rightarrow> nat \<Rightarrow> vdrive option" where [code]:
  "pack_loop v b maxpart start =
    (case pick_part v start maxpart [1..<Suc maxpart] None of
       (None, None) \<Rightarrow> Some v
     | (None, Some k) \<Rightarrow> pack_loop v b maxpart (poffset v ! k + psize v ! k)
     | (Some best, _) \<Rightarrow>
         if poffset v ! best = start then pack_loop v b maxpart (start + psize v ! best)
         else case move_part v b best start of
           (ret, v) \<Rightarrow> if ret \<noteq> 0 then Some v else pack_loop v b maxpart (start + psize v ! best))"

definition vdrive_pack_parts :: "vdrive \<Rightarrow> buffer \<Rightarrow> (int \<times> vdrive) option" where
  "vdrive_pack_parts v b = do {
     w \<leftarrow> pack_loop v b (if VDRIVE_IS_HD v then 254 else 31) 0;
     case vdrive_write_partition_table w b of
       (ret, w) \<Rightarrow> Some (ret, w\<lparr>current_offset := current_offset v, image_format := image_format v\<rparr>) }"

definition vdrive_command_deletepart :: "ambient \<Rightarrow> vdrive \<Rightarrow> buffer \<Rightarrow> nat \<Rightarrow> (int \<times> vdrive) option" where
  "vdrive_command_deletepart u v c len =
    (let bad = (\<lambda>v. Some (vdrive_command_set_error v CBMDOS_IPE_INVAL 0 0));
         n = unat (c ! 3); parts = map unat (slice c 4 n); maxpart = (if VDRIVE_IS_HD v then 254 else 31) in
     if \<not> VDRIVE_IS_FD v then bad v
     else if len < 7 \<or> c ! 0 \<noteq> asc CHR ''D'' \<or> c ! 1 \<noteq> asc CHR ''-'' \<or> c ! 2 \<noteq> asc CHR ''P'' then bad v
     else if n + 6 \<noteq> len then bad v
     else if list_ex (\<lambda>k. k = 0 \<or> k = 255 \<or> k > maxpart) parts then bad v
     else do {
       (st, v) \<leftarrow> vdrive_pack_parts (v\<lparr>ptype := foldl (\<lambda>pt k. pt[k := 0]) (ptype v) parts\<rparr>) (u_buf u);
       if st \<noteq> 0 then bad v else Some (vdrive_command_set_error v CBMDOS_IPE_OK 0 0) })"

subsection \<open>Subdirectories of native partitions\<close>

definition vdrive_command_chdir :: "ambient \<Rightarrow> vdrive \<Rightarrow> cbmdos_cmd_parse_plus \<Rightarrow> (int \<times> vdrive) option" where
  "vdrive_command_chdir u v cp =
    (let origpart = current_part v in do {
     (status, v, cp) \<leftarrow> vdrive_command_switchtraverse u v cp;
     let p = ix (vdrive_realpart v (drive cp));
     let v = (if status \<noteq> 0 then v
              else v\<lparr>cheadertrack := (cheadertrack v)[p := Header_Track v], cheadersector := (cheadersector v)[p := Header_Sector v],
                     cdirtrack := (cdirtrack v)[p := Dir_Track v], cdirsector := (cdirsector v)[p := Dir_Sector v]\<rparr>);
     Some (status, vdrive_command_return (u_tmp u) v origpart) })"

text \<open>The sectors of a new subdirectory: its header, and its first directory sector behind it.\<close>

definition allocate_subdir :: "vdrive \<Rightarrow> (nat \<times> nat \<times> nat \<times> nat) option \<times> vdrive" where
  "allocate_subdir v =
    (let hs = (if Dir_Track v = 1 \<and> Dir_Sector v < 63 then 63 else Dir_Sector v) in
     case vdrive_bam_alloc_next_free_sector v (Dir_Track v) hs of
       (r, v, ht, hs) \<Rightarrow>
         if r < 0 then (None, v)
         else case vdrive_bam_alloc_next_free_sector v ht hs of
           (r, v, dt, ds) \<Rightarrow>
             if r < 0 then (None, snd (vdrive_bam_free_sector v ht hs)) else (Some (ht, hs, dt, ds), v))"

definition subdir_header :: "vdrive \<Rightarrow> vdrive_dir_context \<Rightarrow> nat \<times> nat \<times> nat \<times> nat \<Rightarrow> buffer" where
  "subdir_header v d at =
    (case at of (ht, hs, dt, ds) \<Rightarrow>
       let b = (replicate 256 0)[0 := of_nat dt, 1 := of_nat ds];
           b = write_at (memset b (bam_name v) 0xa0 25) (bam_name v) (take 16 (find_nslot d)) in
       b[bam_id v := bam_byte v (bam_id v), bam_id v + 1 := bam_byte v (bam_id v + 1), 2 := 72, 25 := 49, 26 := 72,
         0x20 := of_nat ht, 0x21 := of_nat hs, 0x22 := of_nat (Header_Track v), 0x23 := of_nat (Header_Sector v),
         0x24 := of_nat (dtrack d), 0x25 := of_nat (dsector d), 0x26 := of_nat (dslot d * 32 + 2)])"

text \<open>A new entry, with the name the search before it left in the context.\<close>

definition put_new_entry :: "(nat \<times> byte) list \<Rightarrow> vdrive_dir_context \<Rightarrow> vdrive_dir_context" where
  "put_new_entry xs d =
    (let k = dslot d * 32;
         b = write_at (memset (dbuffer d) (k + 2) 0 30) (k + SLOT_NAME_OFFSET) (take 16 (find_nslot d)) in
     d\<lparr>dbuffer := foldl (\<lambda>b (i, x). b[k + i := x]) b xs\<rparr>)"

definition stamp_entry :: "archdep_tm \<Rightarrow> vdrive_dir_context \<Rightarrow> vdrive_dir_context" where
  "stamp_entry now d = d\<lparr>dbuffer := write_at (dbuffer d) (dslot d * 32) (vdrive_dir_updatetime now (cur_slot d))\<rparr>"

definition make_subdir :: "ambient \<Rightarrow> vdrive \<Rightarrow> vdrive_dir_context \<Rightarrow> nat \<times> nat \<times> nat \<times> nat \<Rightarrow> int \<times> vdrive" where
  "make_subdir u v d at =
    (case at of (ht, hs, dt, ds) \<Rightarrow>
       let undo = (\<lambda>v. snd (vdrive_bam_free_sector (snd (vdrive_bam_free_sector v ht hs)) dt ds)) in
       case vdrive_write_sector v (subdir_header v d at) ht hs of
         (st, v) \<Rightarrow>
           if st < 0 then (CBMDOS_IPE_WRITE_ERROR_VER, undo v)
           else case vdrive_write_sector v ((replicate 256 0)[1 := 0xff]) dt ds of
             (st, v) \<Rightarrow>
               if st < 0 then (CBMDOS_IPE_WRITE_ERROR_VER, undo v)
               else
                 let d = stamp_entry (u_now u) (put_new_entry
                       [(SLOT_FIRST_TRACK, of_nat ht), (SLOT_FIRST_SECTOR, of_nat hs), (SLOT_NR_BLOCKS, 2),
                        (SLOT_NR_BLOCKS + 1, 0), (SLOT_TYPE_OFFSET, CBMDOS_FT_CLOSED OR of_nat CBMDOS_FT_DIR)] d);
                     v = snd (vdrive_write_sector v (dbuffer d) (dtrack d) (dsector d)) in
                 (CBMDOS_IPE_OK, snd (vdrive_bam_write_bam v)))"

definition mkdir_here :: "ambient \<Rightarrow> vdrive \<Rightarrow> cbmdos_cmd_parse_plus \<Rightarrow> (int \<times> vdrive) option" where
  "mkdir_here u v cp = do {
     (res, v, d) \<leftarrow> find_entry u v (the (pfile cp)) (filelength cp) CBMDOS_FT_DIR;
     if res \<noteq> None then Some (CBMDOS_IPE_FILE_EXISTS, v)
     else
       let (blocks, v) = vdrive_bam_free_block_count v in
       if blocks < 4 then Some (CBMDOS_IPE_DISK_FULL, v)
       else case allocate_subdir v of
         (None, v) \<Rightarrow> Some (CBMDOS_IPE_DISK_FULL, v)
       | (Some at, v) \<Rightarrow> do {
           let (v, d) = vdrive_dir_find_first_slot v (the (pfile cp)) (-1) CBMDOS_FT_DEL d;
           (res, v, d) \<leftarrow> vdrive_dir_find_next_slot v (u_tmp u) d;
           Some (if res = None then (CBMDOS_IPE_DISK_FULL, v) else make_subdir u v d at) } }"

definition vdrive_command_mkdir :: "ambient \<Rightarrow> vdrive \<Rightarrow> cbmdos_cmd_parse_plus \<Rightarrow> (int \<times> vdrive) option" where
  "vdrive_command_mkdir u v cp =
    (if \<not> VDRIVE_IS_READONLY v \<and> vdrive_haswildcard (the (pfile cp)) (filelength cp)
     then Some (CBMDOS_IPE_SYNTAX, vdrive_command_return (u_tmp u) v (current_part v))
     else on_path u v cp (mkdir_here u))"

text \<open>A subdirectory is removed if it has no entry. The code enters it as \<open>CD\<close> does.\<close>

partial_function (option) find_used_entry ::
  "buffer \<Rightarrow> vdrive \<Rightarrow> vdrive_dir_context \<Rightarrow> (bool \<times> vdrive \<times> vdrive_dir_context) option" where [code]:
  "find_used_entry tmp v d = do {
     (res, v, d) \<leftarrow> vdrive_dir_find_next_slot v tmp d;
     (case res of
        None \<Rightarrow> Some (False, v, d)
      | Some slot \<Rightarrow> if slot ! SLOT_TYPE_OFFSET \<noteq> 0 then Some (True, v, d) else find_used_entry tmp v d) }"

definition remove_subdir :: "ambient \<Rightarrow> vdrive \<Rightarrow> cbmdos_cmd_parse_plus \<Rightarrow> (int \<times> nat \<times> vdrive) option" where
  "remove_subdir u v cp = do {
     _ \<leftarrow> pfile cp;
     (st, v, _) \<leftarrow> vdrive_command_switchtraverse u v
       (cp\<lparr>path := None, pathlength := (if path cp = None then pathlength cp else 0),
           command := Some (map of_char ''CD'' @ [0]), commandlength := 2\<rparr>);
     if st \<noteq> 0 then Some (CBMDOS_IPE_NOT_FOUND, 0, v)
     else do {
       let (v, d) = vdrive_dir_find_first_slot v [asc CHR ''*'', 0] 1 0 (u_dir u);
       (used, v, d) \<leftarrow> find_used_entry (u_tmp u) v d;
       if used then Some (CBMDOS_IPE_DELETED, 0, v)
       else do {
         let v = vdrive_set_disk_geometry (u_tmp u) v;
         let (v, d) = vdrive_dir_find_first_slot v (the (pfile cp)) (int (filelength cp)) CBMDOS_FT_DIR d;
         (res, v, d) \<leftarrow> vdrive_dir_find_next_slot v (u_tmp u) d;
         if res = None then Some (CBMDOS_IPE_DELETED, 0, v)
         else do { (v, _) \<leftarrow> vdrive_dir_remove_slot v (u_buf u) (u_tmp u) d; Some (CBMDOS_IPE_DELETED, 1, v) } } } }"

definition vdrive_command_rmdir :: "ambient \<Rightarrow> vdrive \<Rightarrow> cbmdos_cmd_parse_plus \<Rightarrow> (int \<times> vdrive) option" where
  "vdrive_command_rmdir u v cp =
    (let origpart = current_part v in do {
     (status, n, v) \<leftarrow>
       (if VDRIVE_IS_READONLY v then Some (CBMDOS_IPE_WRITE_PROTECT_ON, 0, v)
        else if vdrive_haswildcard (the (pfile cp)) (filelength cp) then Some (CBMDOS_IPE_SYNTAX, 0, v)
        else remove_subdir u v cp);
     Some (vdrive_command_set_error (vdrive_command_return (u_tmp u) v origpart) status n 0) })"

subsection \<open>Partitions of a 1581 disk\<close>

text \<open>
  A new partition covers sectors that are all free and not on track 40. The check stops at the
  first sector that is not; 0 sectors are left if there is none.
\<close>

fun check_range :: "vdrive \<Rightarrow> nat \<Rightarrow> nat \<Rightarrow> nat \<Rightarrow> nat \<times> nat \<times> nat \<times> vdrive" where
  "check_range v ts ss 0 = (0, ts, ss, v)"
| "check_range v ts ss (Suc l) =
    (if ts = 40 \<or> ts > 80 then (Suc l, ts, ss, v)
     else case vdrive_bam_is_sector_allocated v ts ss of
       (r, v) \<Rightarrow>
         if r \<noteq> 0 then (Suc l, ts, ss, v)
         else if ss + 1 > 39 then check_range v (ts + 1) 0 l else check_range v ts (ss + 1) l)"

fun range_sectors :: "nat \<Rightarrow> nat \<Rightarrow> nat \<Rightarrow> (nat \<times> nat) list" where
  "range_sectors ts ss 0 = []"
| "range_sectors ts ss (Suc l) =
    (ts, ss) # (if ss + 1 > 39 then range_sectors (ts + 1) 0 l else range_sectors ts (ss + 1) l)"

text \<open>The results are the status and the two numbers it is reported with.\<close>

definition create_cbm_part ::
  "ambient \<Rightarrow> vdrive \<Rightarrow> cbmdos_cmd_parse_plus \<Rightarrow> bool \<Rightarrow> vdrive_dir_context \<Rightarrow> (int \<times> nat \<times> nat \<times> vdrive) option" where
  "create_cbm_part u v cp exists d =
    (let rest = the (pmore cp); ts = unat (rest ! 1); ss = unat (rest ! 2); len = unat (rest ! 3) OR push_bit 8 (unat (rest ! 4)) in
     if VDRIVE_IS_READONLY v then Some (CBMDOS_IPE_WRITE_PROTECT_ON, 0, 0, v)
     else if exists then Some (CBMDOS_IPE_FILE_EXISTS, 0, 0, v)
     else if len = 0 then Some (CBMDOS_IPE_BAD_PARTN, ts, 0, v)
     else case check_range v ts ss len of
       (left, t, s, v) \<Rightarrow>
         if left \<noteq> 0 then
           Some (if t > 80 then CBMDOS_IPE_ILLEGAL_TRACK_OR_SECTOR else CBMDOS_IPE_ILLEGAL_SYSTEM_T_OR_S, t, s, v)
         else do {
           let (v, d) = vdrive_dir_find_first_slot v (the (pfile cp)) (-1) CBMDOS_FT_DEL d;
           (res, v, d) \<leftarrow> vdrive_dir_find_next_slot v (u_tmp u) d;
           if res = None then Some (CBMDOS_IPE_DISK_FULL, 0, 0, v)
           else
             let d = put_new_entry [(SLOT_FIRST_TRACK, rest ! 1), (SLOT_FIRST_SECTOR, rest ! 2), (SLOT_NR_BLOCKS, rest ! 3),
                   (SLOT_NR_BLOCKS + 1, rest ! 4), (SLOT_TYPE_OFFSET, CBMDOS_FT_CLOSED OR of_nat CBMDOS_FT_CBM)] d;
                 v = snd (vdrive_write_sector v (dbuffer d) (dtrack d) (dsector d));
                 v = allocate_sectors v (range_sectors ts ss len) in
             Some (CBMDOS_IPE_OK, 0, 0, snd (vdrive_bam_write_bam v)) })"

definition enter_cbm_part :: "ambient \<Rightarrow> vdrive \<Rightarrow> buffer \<Rightarrow> int \<times> nat \<times> nat \<times> vdrive" where
  "enter_cbm_part u v slot =
    (let ts = unat (slot ! SLOT_FIRST_TRACK); len = entry_blocks slot; p = ix (current_part v) in
     if slot ! SLOT_FIRST_SECTOR = 0 \<and> len mod 40 = 0 \<and> len \<ge> 120 \<and> ts \<noteq> 40 then
       let e = ts * 40 + len; b = ts * 40 in
       if b \<le> 1600 \<and> e > 1600 \<or> int b < c_int (Part_Start v) * 40 \<or> int e > (c_int (Part_End v) + 1) * 40
       then (CBMDOS_IPE_BAD_PARTN, 0, 0, v)
       else
         let te = ts + len div 40 - 1;
             v = v\<lparr>Header_Track := ts, Header_Sector := 0, Bam_Track := ts, Bam_Sector := 0, Dir_Track := ts, Dir_Sector := 3,
                   Part_Start := ts, Part_End := te,
                   cheadertrack := (cheadertrack v)[p := ts], cheadersector := (cheadersector v)[p := 0],
                   cdirtrack := (cdirtrack v)[p := ts], cdirsector := (cdirsector v)[p := 3],
                   cpartstart := (cpartstart v)[p := ts], cpartend := (cpartend v)[p := te]\<rparr> in
         (CBMDOS_IPE_SEL_PARTN, ts, te, vdrive_bam_setup_bam (u_junk u) v)
     else (CBMDOS_IPE_BAD_PARTN, 0, 0, v))"

definition change_cbm_part :: "ambient \<Rightarrow> vdrive \<Rightarrow> cbmdos_cmd_parse_plus \<Rightarrow> (int \<times> nat \<times> nat \<times> vdrive) option" where
  "change_cbm_part u v cp =
    (if filelength cp = 0 then
       let v = snd (vdrive_bam_write_bam v);
           v = v\<lparr>cheadertrack := (cheadertrack v)[ix (current_part v) := 0]\<rparr>;
           v = vdrive_bam_setup_bam (u_junk u) (vdrive_set_disk_geometry (u_tmp u) v) in
       Some (CBMDOS_IPE_SEL_PARTN, 1, 80, v)
     else do {
       (res, v, d) \<leftarrow> find_entry u v (the (pfile cp)) (filelength cp) CBMDOS_FT_CBM;
       let rest = (case pmore cp of None \<Rightarrow> [] | Some xs \<Rightarrow> xs);
       if morelength cp \<ge> 7 \<and> rest ! 0 = asc CHR '','' \<and> rest ! 5 = asc CHR '','' \<and> rest ! 6 = asc CHR ''C''
       then create_cbm_part u v cp (res \<noteq> None) d
       else Some (if res = None then (CBMDOS_IPE_NOT_FOUND, 0, 0, v) else enter_cbm_part u v (cur_slot d)) })"

definition vdrive_command_chpart :: "ambient \<Rightarrow> vdrive \<Rightarrow> cbmdos_cmd_parse_plus \<Rightarrow> (int \<times> vdrive) option" where
  "vdrive_command_chpart u v cp =
    (let origpart = current_part v in
     case vdrive_command_switch (u_junk u) (u_tmp u) v (drive cp) of
       (st, v) \<Rightarrow> do {
         (status, ts, te, v) \<leftarrow> (if st \<noteq> 0 then Some (CBMDOS_IPE_NOT_READY, 0, 0, v) else change_cbm_part u v cp);
         Some (vdrive_command_set_error (vdrive_command_return (u_tmp u) v origpart) status ts te) })"

subsection \<open>Positioning and the clock\<close>

definition vdrive_command_position :: "ambient \<Rightarrow> vdrive \<Rightarrow> buffer \<Rightarrow> nat \<Rightarrow> (int \<times> vdrive) option" where
  "vdrive_command_position u v b len =
    (let at = (\<lambda>i def. if len > i then unat (b ! i) else def); ch = unat (b ! 1 AND 0x0f) in
     if len < 2 then Some (CBMDOS_IPE_NO_CHANNEL, v)
     else if mode (chan v ch) \<noteq> BUFFER_RELATIVE then Some (CBMDOS_IPE_NO_CHANNEL, v)
     else vdrive_rel_position (u_junk u) (u_tmp u) v ch (at 2 1) (at 3 0) (at 4 1))"

definition int_to_bcd :: "int \<Rightarrow> int" where
  "int_to_bcd dec = dec div 10 * 16 + dec mod 10"

definition days :: "string list" where
  "days = [''SUN.'', ''MON.'', ''TUES'', ''WED.'', ''THUR'', ''FRI.'', ''SAT.'']"

definition twelve_hours :: "int \<Rightarrow> int \<times> bool" where
  "twelve_hours h = (if h = 0 then (12, False) else if h = 12 then (h, True) else if h > 12 then (h - 12, True) else (h, False))"

definition time_text :: "archdep_tm \<Rightarrow> string" where
  "time_text ts =
    (let (h, pm) = twelve_hours (tm_hour ts); two = (\<lambda>i. two_digits (nat i)) in
     days ! nat (tm_wday ts) @ '' '' @ two (tm_mon ts + 1) @ ''/'' @ two (tm_mday ts) @ ''/'' @ two (tm_year ts) @ '' '' @
     two h @ '':'' @ two (tm_min ts) @ '':'' @ two (tm_sec ts) @ '' '' @ (if pm then ''P'' else ''A'') @ ''M'' @ [CHR 0x0D])"

definition time_bytes :: "(int \<Rightarrow> int) \<Rightarrow> archdep_tm \<Rightarrow> buffer" where
  "time_bytes code ts =
    (let (h, pm) = twelve_hours (tm_hour ts) in
     [of_int (tm_wday ts), of_int (code (tm_year ts)), of_int (code (tm_mon ts + 1)), of_int (code (tm_mday ts)),
      of_int (code h), of_int (code (tm_min ts)), of_int (code (tm_sec ts)), if pm then 1 else 0, 13])"

text \<open>
  Setting the clock is always refused: the code asks for a letter that differs from one of
  three, which every letter does.
\<close>

definition vdrive_command_time :: "ambient \<Rightarrow> vdrive \<Rightarrow> buffer \<Rightarrow> nat \<Rightarrow> int \<times> vdrive" where
  "vdrive_command_time u v c len =
    (let bad = vdrive_command_set_error v CBMDOS_IPE_INVAL 0 0; k = c ! 3;
         text = map of_char (time_text (u_now u)) @ [0] in
     if len < 4 \<or> c ! 0 \<noteq> asc CHR ''T'' \<or> c ! 1 \<noteq> asc CHR ''-'' then bad
     else if c ! 2 = asc CHR ''R'' then
       if k = asc CHR ''A'' then
         (CBMDOS_IPE_OK, upd_chan 15 (\<lambda>p. p\<lparr>buf_length := length text - 2, bufptr := 0, readmode := CBMDOS_FAM_READ\<rparr>)
            (buffer_store v 15 text))
       else if k = asc CHR ''D'' then (CBMDOS_IPE_OK, answer v (time_bytes id (u_now u)))
       else if k = asc CHR ''B'' then (CBMDOS_IPE_OK, answer v (time_bytes int_to_bcd (u_now u)))
       else bad
     else if c ! 2 = asc CHR ''W'' then
       if k \<noteq> asc CHR ''A'' \<or> k \<noteq> asc CHR ''D'' \<or> k \<noteq> asc CHR ''B'' then bad
       else vdrive_command_set_error v CBMDOS_IPE_OK 0 0
     else bad)"

end
