(* ===== verification/CommandCopy.thy ===== *)
theory CommandCopy
  imports CommandPart
begin

text \<open>
  The \<open>COPY\<close> command (\<^verbatim>\<open>lib/vdrive/vdrive-command.c\<close>): up to six files, of any partitions, are
  concatenated into a new one. Relative files of one record length may be copied too; their
  side sectors are built in the memory of channel 15, one group at a time.

  The record \<open>copy_state\<close> holds the variables of the function that the copying changes: the buffer
  of the block being written, its address and fill, the number of blocks, and the place in
  the side sectors. A step that leaves the function returns its status.
\<close>

abbreviation (input) "COPYMAX \<equiv> 6 :: nat"
abbreviation (input) "COPYBUFFER \<equiv> 32 :: nat"

record copy_state =
  cs_drive :: vdrive
  wb :: buffer
  wt :: nat
  ws :: nat
  wp :: nat
  cs_blocks :: nat
  ssn :: int
  super :: nat
  cs_dir :: vdrive_dir_context

type_synonym copy_result = "int option \<times> copy_state"

subsection \<open>The side sectors of the copy\<close>

abbreviation (input) rel15 :: "copy_state \<Rightarrow> rel_file" where
  "rel15 c \<equiv> rel (chan (cs_drive c) 15)"

definition upd_side :: "(rel_file \<Rightarrow> rel_file) \<Rightarrow> copy_state \<Rightarrow> copy_state" where
  "upd_side f c = c\<lparr>cs_drive := upd_rel 15 f (cs_drive c)\<rparr>"

definition put_side :: "nat \<Rightarrow> byte \<Rightarrow> copy_state \<Rightarrow> copy_state" where
  "put_side k x = upd_side (\<lambda>r. r\<lparr>side_sector := (side_sector r)[k := x]\<rparr>)"

text \<open>A sector of the side sectors is allocated next to the given one, and counted.\<close>

definition alloc_block :: "nat \<Rightarrow> nat \<Rightarrow> copy_state \<Rightarrow> bool \<times> nat \<times> nat \<times> copy_state" where
  "alloc_block t s c =
    (case vdrive_bam_alloc_next_free_sector (cs_drive c) t s of
       (r, v, t, s) \<Rightarrow>
         if r < 0 then (False, t, s, c\<lparr>cs_drive := v\<rparr>)
         else (True, t, s, c\<lparr>cs_drive := v, cs_blocks := cs_blocks c + 1\<rparr>))"

text \<open>The side sectors of the group that have an address are written; a full group is then cleared.\<close>

fun write_side_sectors :: "bool \<Rightarrow> nat list \<Rightarrow> copy_state \<Rightarrow> copy_result" where
  "write_side_sectors clear [] c = (None, c)"
| "write_side_sectors clear (x # xs) c =
    (let r = rel15 c;
         (st, v) = (if side_sector_track r ! x \<noteq> 0
                    then vdrive_write_sector (cs_drive c) (slice (side_sector r) (x * 256) 256)
                           (unat (side_sector_track r ! x)) (unat (side_sector_sector r ! x))
                    else (0, cs_drive c));
         c = c\<lparr>cs_drive := v\<rparr> in
     if st < 0 then (Some CBMDOS_IPE_DISK_FULL, c)
     else write_side_sectors clear xs
       (if clear then upd_side (\<lambda>r. r\<lparr>side_sector := memset (side_sector r) (x * 256 + 4) 0 252,
                        side_sector_track := (side_sector_track r)[x := 0], side_sector_sector := (side_sector_sector r)[x := 0]\<rparr>) c
        else c))"

text \<open>Side sector number \<open>k\<close> gets its address, which all side sectors of the group list.\<close>

definition enter_side_sector :: "nat \<Rightarrow> nat \<Rightarrow> nat \<Rightarrow> copy_state \<Rightarrow> copy_state" where
  "enter_side_sector k t s c =
    (let c = upd_side (\<lambda>r. r\<lparr>side_sector_track := (side_sector_track r)[k := of_nat t],
               side_sector_sector := (side_sector_sector r)[k := of_nat s]\<rparr>) c;
         c = foldl (\<lambda>c x. put_side (x * 256 + 5 + 2 * k) (of_nat s) (put_side (x * 256 + 4 + 2 * k) (of_nat t) c)) c
               [0..<SIDE_SECTORS_MAX] in
     put_side (k * 256 + 1) 15 (put_side (k * 256) 0 c))"

definition new_side_sector :: "copy_state \<Rightarrow> copy_result" where
  "new_side_sector c =
    (case (if ssn c = 5 then
             (case write_side_sectors True [0..<SIDE_SECTORS_MAX] c of (st, c) \<Rightarrow> (st, if st = None then c\<lparr>ssn := -1\<rparr> else c))
           else (None, c)) of
       (st, c) \<Rightarrow>
         if st \<noteq> None then (st, c)
         else case alloc_block (wt c) (ws c) c of
           (ok, t, s, c) \<Rightarrow>
             if \<not> ok then (Some CBMDOS_IPE_DISK_FULL, c)
             else
               let c = (if ssn c \<ge> 0 then
                          put_side (nat (ssn c) * 256 + 1) (of_nat s) (put_side (nat (ssn c) * 256) (of_nat t) c)
                        else if super c \<noteq> 0 then
                          upd_side (\<lambda>r. r\<lparr>super_side_sector := (super_side_sector r)[super c + 4 := of_nat t, super c + 5 := of_nat s]\<rparr>)
                            (c\<lparr>super := super c + 2\<rparr>)
                        else c);
                   c = c\<lparr>ssn := ssn c + 1\<rparr> in
               (None, enter_side_sector (nat (ssn c)) t s c))"

text \<open>The block that was just begun is listed in the current side sector.\<close>

definition list_block :: "copy_state \<Rightarrow> copy_result" where
  "list_block c =
    (case (if side_sector (rel15 c) ! (nat (ssn c) * 256 + 1) = 0xff then new_side_sector c else (None, c)) of
       (st, c) \<Rightarrow>
         if st \<noteq> None then (st, c)
         else
           let k = nat (ssn c) * 256; n = side_sector (rel15 c) ! (k + 1) in
           (None,
            put_side (k + 1) (n + 2)
              (put_side (k + unat n + 2) (of_nat (ws c)) (put_side (k + unat n + 1) (of_nat (wt c)) c))))"

text \<open>The first side sector, and the super side sector where the format has one.\<close>

definition put_dir_byte :: "nat \<Rightarrow> nat \<Rightarrow> copy_state \<Rightarrow> copy_state" where
  "put_dir_byte i x c =
    (let d = cs_dir c in c\<lparr>cs_dir := d\<lparr>dbuffer := (dbuffer d)[dslot d * 32 + i := of_nat x]\<rparr>\<rparr>)"

definition first_side_sector :: "copy_state \<Rightarrow> copy_result" where
  "first_side_sector c =
    (case alloc_block (wt c) (ws c) c of
       (ok, t, s, c) \<Rightarrow>
         if \<not> ok then (Some CBMDOS_IPE_DISK_FULL, c)
         else
           let k = nat (ssn c) * 256;
               c = enter_side_sector (nat (ssn c)) t s c;
               c = put_side (k + 1) 17 (put_side (k + 0x11) (of_nat (ws c)) (put_side (k + 0x10) (of_nat (wt c)) c));
               c = put_dir_byte SLOT_SIDE_SECTOR s (put_dir_byte SLOT_SIDE_TRACK t c) in
           if super c = 0 then (None, c)
           else case alloc_block t s c of
             (ok, t', s', c) \<Rightarrow>
               if \<not> ok then (Some CBMDOS_IPE_DISK_FULL, c)
               else
                 let c = upd_side (\<lambda>r. r\<lparr>super_side_sector_track := of_nat t', super_side_sector_sector := of_nat s',
                       super_side_sector := (super_side_sector r)[0 := of_nat t, 1 := of_nat s, 2 := 0xfe, 3 := of_nat t, 4 := of_nat s]\<rparr>) c in
                 (None, put_dir_byte SLOT_SIDE_SECTOR s' (put_dir_byte SLOT_SIDE_TRACK t' c)))"

subsection \<open>Writing the copy\<close>

text \<open>
  A full block is written when another byte follows. A failed write frees the block.
\<close>

definition write_block :: "copy_state \<Rightarrow> copy_result" where
  "write_block c =
    (case vdrive_write_sector (cs_drive c) (wb c) (wt c) (ws c) of
       (st, v) \<Rightarrow>
         if st < 0 then (Some CBMDOS_IPE_WRITE_ERROR_VER, c\<lparr>cs_drive := snd (vdrive_bam_free_sector v (wt c) (ws c))\<rparr>)
         else (None, c\<lparr>cs_drive := v\<rparr>))"

definition next_block :: "bool \<Rightarrow> copy_state \<Rightarrow> copy_result" where
  "next_block rel_type c =
    (case vdrive_bam_alloc_next_free_sector (cs_drive c) (wt c) (ws c) of
       (r, v, nt, ns) \<Rightarrow>
         let c = c\<lparr>cs_drive := v\<rparr> in
         if r < 0 then (Some CBMDOS_IPE_DISK_FULL, c)
         else case write_block (c\<lparr>wb := (wb c)[0 := of_nat nt, 1 := of_nat ns]\<rparr>) of
           (st, c) \<Rightarrow>
             if st \<noteq> None then (st, c)
             else
               let c = c\<lparr>wt := nt, ws := ns, wb := (wb c)[0 := 0], wp := 2, cs_blocks := cs_blocks c + 1\<rparr> in
               if rel_type then list_block c else (None, c))"

definition first_block :: "bool \<Rightarrow> copy_state \<Rightarrow> copy_result" where
  "first_block rel_type c =
    (case vdrive_bam_alloc_first_free_sector (cs_drive c) (wt c) (ws c) of
       (r, v, t, s) \<Rightarrow>
         let c = c\<lparr>cs_drive := v, wt := t, ws := s\<rparr> in
         if r < 0 then (Some CBMDOS_IPE_DISK_FULL, c)
         else
           let c = put_dir_byte SLOT_FIRST_SECTOR s (put_dir_byte SLOT_FIRST_TRACK t c);
               c = c\<lparr>wb := (wb c)[0 := 0], cs_blocks := cs_blocks c + 1\<rparr> in
           if rel_type then first_side_sector c else (None, c))"

definition copy_byte :: "bool \<Rightarrow> byte \<Rightarrow> copy_state \<Rightarrow> copy_result" where
  "copy_byte rel_type x c =
    (case (if bit (wp c) 8 then next_block rel_type c else (None, c)) of
       (st, c) \<Rightarrow>
         if st \<noteq> None then (st, c)
         else
           let c = c\<lparr>wb := (wb c)[wp c := x, 1 := of_nat (wp c)], wp := wp c + 1\<rparr> in
           if wt c = 0 then first_block rel_type c else (None, c))"

fun copy_bytes :: "bool \<Rightarrow> buffer \<Rightarrow> copy_state \<Rightarrow> copy_result" where
  "copy_bytes rel_type [] c = (None, c)"
| "copy_bytes rel_type (x # xs) c =
    (case copy_byte rel_type x c of (st, c) \<Rightarrow> if st \<noteq> None then (st, c) else copy_bytes rel_type xs c)"

text \<open>The bytes of a block: up to the end, or up to the last one of the last block.\<close>

definition block_bytes :: "buffer \<Rightarrow> buffer" where
  "block_bytes b = drop 2 (take (if b ! 0 \<noteq> 0 then 256 else unat (b ! 1) + 1) b)"

fun copy_blocks :: "bool \<Rightarrow> buffer list \<Rightarrow> copy_state \<Rightarrow> copy_result" where
  "copy_blocks rel_type [] c = (None, c)"
| "copy_blocks rel_type (b # bs) c =
    (case copy_bytes rel_type (block_bytes b) c of (st, c) \<Rightarrow> if st \<noteq> None then (st, c) else copy_blocks rel_type bs c)"

text \<open>
  Up to 32 blocks of a source are read, then written to the destination. Only a positive status
  of reading is an error; \<open>rb\<close> is what the memory for the blocks holds.
\<close>

fun read_ahead :: "nat \<Rightarrow> buffer \<Rightarrow> nat \<Rightarrow> nat \<Rightarrow> vdrive \<Rightarrow> int \<times> buffer list \<times> nat \<times> nat \<times> vdrive" where
  "read_ahead 0 rb rt rs v = (0, [], rt, rs, v)"
| "read_ahead (Suc n) rb rt rs v =
    (if rt = 0 then (0, [], rt, rs, v)
     else case vdrive_read_sector v rb rt rs of
       (rc, v, b) \<Rightarrow>
         if rc > 0 then (rc, [], rt, rs, v)
         else case read_ahead n rb (unat (b ! 0)) (unat (b ! 1)) v of
           (rc, bs, rt, rs, v) \<Rightarrow> (rc, b # bs, rt, rs, v))"

partial_function (option) copy_file ::
  "ambient \<Rightarrow> bool \<Rightarrow> int \<Rightarrow> int \<Rightarrow> nat \<Rightarrow> nat \<Rightarrow> copy_state \<Rightarrow> copy_result option" where [code]:
  "copy_file u rel_type src dest rt rs c =
    (case read_ahead COPYBUFFER (u_buf u) rt rs (snd (vdrive_command_switch (u_junk u) (u_tmp u) (cs_drive c) src)) of
       (rc, bs, rt, rs, v) \<Rightarrow>
         if rc > 0 then Some (Some rc, c\<lparr>cs_drive := v\<rparr>)
         else case copy_blocks rel_type bs (c\<lparr>cs_drive := snd (vdrive_command_switch (u_junk u) (u_tmp u) v dest)\<rparr>) of
           (st, c) \<Rightarrow>
             if st \<noteq> None then Some (st, c)
             else if rt \<noteq> 0 then copy_file u rel_type src dest rt rs c
             else Some (None, c))"

fun copy_files :: "ambient \<Rightarrow> bool \<Rightarrow> int \<Rightarrow> (int \<times> nat \<times> nat) list \<Rightarrow> copy_state \<Rightarrow> copy_result option" where
  "copy_files u rel_type dest [] c = Some (None, c)"
| "copy_files u rel_type dest ((src, t, s) # fs) c = do {
     (st, c) \<leftarrow> copy_file u rel_type src dest t s c;
     if st \<noteq> None then Some (st, c) else copy_files u rel_type dest fs c }"

text \<open>The last block, the side sectors, the entry and the BAM are written.\<close>

definition finish_side_sectors :: "copy_state \<Rightarrow> copy_result" where
  "finish_side_sectors c =
    (let r = rel15 c;
         (st, v) = (if super_side_sector_track r \<noteq> 0
                    then vdrive_write_sector (cs_drive c) (super_side_sector r)
                           (unat (super_side_sector_track r)) (unat (super_side_sector_sector r))
                    else (0, cs_drive c));
         c = c\<lparr>cs_drive := v\<rparr> in
     if st < 0 then (Some CBMDOS_IPE_DISK_FULL, c) else write_side_sectors False [0..<SIDE_SECTORS_MAX] c)"

definition finish_copy :: "ambient \<Rightarrow> bool \<Rightarrow> int \<Rightarrow> copy_state \<Rightarrow> int \<times> vdrive" where
  "finish_copy u rel_type dest c =
    (let c = c\<lparr>cs_drive := snd (vdrive_command_switch (u_junk u) (u_tmp u) (cs_drive c) dest)\<rparr> in
     case (if wt c \<noteq> 0 then write_block c else (None, c)) of
       (st, c) \<Rightarrow>
         if st \<noteq> None then (the st, cs_drive c)
         else case (if rel_type then finish_side_sectors c else (None, c)) of
           (st, c) \<Rightarrow>
             if st \<noteq> None then (the st, cs_drive c)
             else
               let n = cs_blocks c;
                   c = put_dir_byte (SLOT_NR_BLOCKS + 1) (n div 256) (put_dir_byte SLOT_NR_BLOCKS (n mod 256) c);
                   d = (if haspt (cs_drive c) then stamp_entry (u_now u) (cs_dir c) else cs_dir c);
                   v = snd (vdrive_write_sector (cs_drive c) (dbuffer d) (dtrack d) (dsector d)) in
               (CBMDOS_IPE_OK, snd (vdrive_bam_write_bam v)))"

subsection \<open>The command\<close>

text \<open>A name of the command with its path and partition; the other members are not set.\<close>

definition copy_name :: "ambient \<Rightarrow> vdrive \<Rightarrow> cbmdos_cmd_parse_plus \<Rightarrow> cbmdos_cmd_parse_plus" where
  "copy_name u v cp =
    (u_cmd u)\<lparr>pfile := pfile cp, filelength := filelength cp, path := path cp, pathlength := pathlength cp,
              drive := vdrive_realpart v (drive cp)\<rparr>"

text \<open>The sources of the command with the delimiters before them, or \<open>Some None\<close> for a parsing error.\<close>

fun copy_sources ::
  "ambient \<Rightarrow> vdrive \<Rightarrow> nat \<Rightarrow> cbmdos_cmd_parse_plus \<Rightarrow> (byte \<times> cbmdos_cmd_parse_plus) list option option" where
  "copy_sources u v 0 cp = Some (Some [])"
| "copy_sources u v (Suc n) cp =
    (let delim = (if morelength cp = 0 \<or> pmore cp = None then 0 else the (pmore cp) ! 0) in
     if morelength cp \<noteq> 0 \<and> pmore cp \<noteq> None \<and> (delim = asc CHR ''='' \<or> delim = asc CHR '','') then do {
       (rc, cp) \<leftarrow> parse_more cp;
       if rc \<noteq> 0 then Some None
       else do {
         rest \<leftarrow> copy_sources u v n cp;
         Some (case rest of None \<Rightarrow> None | Some xs \<Rightarrow> Some ((delim, copy_name u v cp) # xs)) } }
     else Some (Some []))"

text \<open>
  What the search for the sources finds: type and record length of the new file, the number of
  blocks, and partition and first sector of each file. \<open>Inl\<close> is a status to leave with: that of
  the last switch to a path, where the code sets no other.
\<close>

record copy_plan =
  newtype :: byte
  newlength :: nat
  plan_blocks :: nat
  plan_files :: "(int \<times> nat \<times> nat) list"

definition copyable :: "byte \<Rightarrow> bool" where
  "copyable ty = (ty \<in> {0x81, 0x82, 0x83, 0x84})"

definition plan_file :: "int \<Rightarrow> buffer \<Rightarrow> copy_plan \<Rightarrow> copy_plan option" where
  "plan_file part slot pl =
    (let ty = slot ! SLOT_TYPE_OFFSET; n = unat (slot ! SLOT_RECORD_LENGTH);
         pl = (if plan_files pl = [] then pl\<lparr>newtype := ty, newlength := (if ty = 0x84 then n else 0)\<rparr> else pl) in
     if \<not> copyable ty \<or> newlength pl \<noteq> 0 \<and> newlength pl \<noteq> n then None
     else Some (pl\<lparr>plan_blocks := plan_blocks pl + entry_blocks slot,
       plan_files := plan_files pl @ [(part, unat (slot ! SLOT_FIRST_TRACK), unat (slot ! SLOT_FIRST_SECTOR))]\<rparr>))"

fun find_sources ::
  "ambient \<Rightarrow> int \<Rightarrow> (byte \<times> cbmdos_cmd_parse_plus) list \<Rightarrow> copy_plan \<Rightarrow> vdrive_dir_context \<Rightarrow> vdrive \<Rightarrow>
    ((int + copy_plan) \<times> nat \<times> vdrive_dir_context \<times> vdrive) option" where
  "find_sources u status [] pl d v = Some (Inr pl, newlength pl, d, v)"
| "find_sources u status ((delim, cp) # xs) pl d v =
    (if vdrive_haswildcard (the (pfile cp)) (filelength cp) \<or>
        delim \<noteq> (if plan_files pl = [] then asc CHR ''='' else asc CHR '','') then Some (Inl status, newlength pl, d, v)
     else do {
       (status, v, cp) \<leftarrow> vdrive_command_switchtraverse u v cp;
       if status \<noteq> 0 then Some (Inl status, newlength pl, d, v)
       else do {
         let (v, d) = vdrive_dir_find_first_slot v (the (pfile cp)) (int (filelength cp)) CBMDOS_FT_DEL d;
         (res, v, d) \<leftarrow> vdrive_dir_find_next_slot v (u_tmp u) d;
         (case res of
            None \<Rightarrow> Some (Inl CBMDOS_IPE_NOT_FOUND, newlength pl, d, v)
          | Some slot \<Rightarrow>
              (case plan_file (drive cp) slot pl of
                 None \<Rightarrow> Some (Inl status, newlength pl, d, v)
               | Some pl \<Rightarrow> find_sources u status xs pl d v)) } })"

text \<open>The side sectors of the new file before the first block.\<close>

definition start_side_sectors :: "copy_plan \<Rightarrow> copy_state \<Rightarrow> copy_state" where
  "start_side_sectors pl c =
    (case vdrive_rel_setup_ss_buffers (cs_drive c) 15 of
       (has_super, v) \<Rightarrow>
         foldl (\<lambda>c i. put_side (i * 256 + 3) (of_nat (newlength pl)) (put_side (i * 256 + 2) (of_nat i) c))
           (c\<lparr>cs_drive := v, super := has_super, ssn := 0\<rparr>) [0..<SIDE_SECTORS_MAX])"

text \<open>The new file is made, with \<open>mem\<close> in the fresh buffer of its blocks.\<close>

definition make_copy ::
  "ambient \<Rightarrow> copy_plan \<Rightarrow> int \<Rightarrow> vdrive_dir_context \<Rightarrow> vdrive \<Rightarrow> (int \<times> vdrive) option" where
  "make_copy u pl dest d v =
    (let d = put_new_entry [(SLOT_TYPE_OFFSET, newtype pl), (SLOT_RECORD_LENGTH, of_nat (newlength pl))] d;
         c = \<lparr>cs_drive = v, wb = u_mem u, wt = 0, ws = 0, wp = 2, cs_blocks = 0, ssn = 0, super = 0, cs_dir = d\<rparr>;
         rel_type = (newlength pl \<noteq> 0);
         c = (if rel_type then start_side_sectors pl c else c) in do {
     (st, c) \<leftarrow> copy_files u rel_type dest (plan_files pl) c;
     Some (case st of None \<Rightarrow> finish_copy u rel_type dest c | Some st \<Rightarrow> (st, cs_drive c)) })"

definition copy_to ::
  "ambient \<Rightarrow> copy_plan \<Rightarrow> cbmdos_cmd_parse_plus \<Rightarrow> vdrive_dir_context \<Rightarrow> vdrive \<Rightarrow> (int \<times> vdrive) option" where
  "copy_to u pl dest d v = do {
     (status, v, dest) \<leftarrow> vdrive_command_switchtraverse u v dest;
     if status \<noteq> 0 then Some (status, v)
     else
       let (blocks, v) = vdrive_bam_free_block_count v in
       if blocks < c_unsigned (int (plan_blocks pl) - int (length (plan_files pl)) + 1) then Some (CBMDOS_IPE_DISK_FULL, v)
       else do {
         let (v, d) = vdrive_dir_find_first_slot v (the (pfile dest)) (int (filelength dest)) CBMDOS_FT_DEL d;
         (res, v, d) \<leftarrow> vdrive_dir_find_next_slot v (u_tmp u) d;
         if res \<noteq> None then Some (CBMDOS_IPE_FILE_EXISTS, v)
         else do {
           let v = upd_rel 15 (\<lambda>r. r\<lparr>side_sector := []\<rparr>) v;
           let (v, d) = vdrive_dir_find_first_slot v (the (pfile dest)) (-1) CBMDOS_FT_DEL d;
           (res, v, d) \<leftarrow> vdrive_dir_find_next_slot v (u_tmp u) d;
           if res = None then Some (CBMDOS_IPE_DISK_FULL, v) else make_copy u pl (drive dest) d v } } }"

definition no_plan :: copy_plan where
  "no_plan = \<lparr>newtype = 0, newlength = 0, plan_blocks = 0, plan_files = []\<rparr>"

definition vdrive_command_copy :: "ambient \<Rightarrow> vdrive \<Rightarrow> cbmdos_cmd_parse_plus \<Rightarrow> (int \<times> vdrive) option" where
  "vdrive_command_copy u v cp =
    (let origpart = current_part v; dest = copy_name u v cp;
         out = (\<lambda>st len v.
           let v = (if len \<noteq> 0 \<and> side_sector (rel (chan v 15)) \<noteq> [] then vdrive_rel_shutdown_ss_buffers v 15 else v) in
           Some (st, vdrive_command_return (u_tmp u) v origpart)) in
     if VDRIVE_IS_READONLY v then out CBMDOS_IPE_WRITE_PROTECT_ON 0 v
     else if vdrive_haswildcard (the (pfile cp)) (filelength cp) then out CBMDOS_IPE_SYNTAX 0 v
     else do {
       sources \<leftarrow> copy_sources u v COPYMAX cp;
       (case sources of
          None \<Rightarrow> out CBMDOS_IPE_SYNTAX 0 v
        | Some xs \<Rightarrow>
            if xs = [] then out CBMDOS_IPE_SYNTAX 0 v
            else do {
              (r, len, d, v) \<leftarrow> find_sources u CBMDOS_IPE_SYNTAX xs no_plan (u_dir u) v;
              (case r of
                 Inl st \<Rightarrow> out st len v
               | Inr pl \<Rightarrow> do {
                   (st, v) \<leftarrow> copy_to u pl dest d v;
                   out st len v }) }) })"

end
