(* ===== verification/Command.thy ===== *)
theory Command
  imports CommandCopy
begin

text \<open>
  The command channel (\<^verbatim>\<open>lib/vdrive/vdrive-command.c\<close>, \<^verbatim>\<open>vdrive-iec.c\<close>): a command is looked up by its
  letters and executed, and its status goes to the error channel. The functions whose status
  is not reported here report it themselves.
\<close>

abbreviation (input) "IP_MAX_COMMAND_LEN \<equiv> 128 :: nat"

text \<open>The status is put on the error channel.\<close>

definition report :: "(int \<times> vdrive) option \<Rightarrow> (int \<times> vdrive) option" where
  "report r = (case r of None \<Rightarrow> None | Some (st, v) \<Rightarrow> Some (vdrive_command_set_error v st 0 0))"

subsection \<open>User commands\<close>

text \<open>A reset: \<open>UJ\<close> closes all channels, and \<open>UJP\<close> reads the partition table of a CMD disk again.\<close>

definition reload_partitions :: "ambient \<Rightarrow> vdrive \<Rightarrow> int \<times> vdrive" where
  "reload_partitions u v =
    (case vdrive_read_partition_table (v\<lparr>sys_offset := UINT32_MAX, current_offset := UINT32_MAX\<rparr>) (u_buf u) of
       (st, v) \<Rightarrow>
         if st \<noteq> 0 then (CBMDOS_IPE_NOT_READY, v)
         else case vdrive_command_switch (u_junk u) (u_tmp u) v (default_part v) of
           (st, v) \<Rightarrow> (CBMDOS_IPE_DOS_VERSION, if st \<noteq> 0 then v\<lparr>selected_part := default_part v\<rparr> else v))"

definition user_reset :: "ambient \<Rightarrow> vdrive \<Rightarrow> cbmdos_cmd_parse_plus \<Rightarrow> (int \<times> vdrive) option" where
  "user_reset u v cp = do {
     v \<leftarrow> vdrive_close_all_channels u v;
     let v = vdrive_reset_last_track_sector v;
     Some (if commandlength cp > 2 \<and> the (command cp) ! 2 = asc CHR ''P'' \<and> haspt v then reload_partitions u v
           else (CBMDOS_IPE_DOS_VERSION, v)) }"

definition user_initialize :: "ambient \<Rightarrow> vdrive \<Rightarrow> cbmdos_cmd_parse_plus \<Rightarrow> (int \<times> vdrive) option" where
  "user_initialize u v cp =
    (let c = (if commandlength cp > 2 then the (command cp) ! 2 else 0) in
     if commandlength cp = 3 \<and> (c = asc CHR ''-'' \<or> c = asc CHR ''+'') then Some (CBMDOS_IPE_OK, v)
     else do {
       (st, v) \<leftarrow> vdrive_command_initialize u v None;
       if st \<noteq> 0 then Some (CBMDOS_IPE_OK, v)
       else do { v \<leftarrow> vdrive_close_all_channels u v; Some (CBMDOS_IPE_DOS_VERSION, v) } })"

definition user_command :: "ambient \<Rightarrow> vdrive \<Rightarrow> cbmdos_cmd_parse_plus \<Rightarrow> (int \<times> vdrive) option" where
  "user_command u v cp =
    (let c = (if commandlength cp > 1 then the (command cp) ! 1 else 0); one_of = (\<lambda>s. c \<in> set (map of_char s)) in
     if commandlength cp \<le> 1 then report (Some (CBMDOS_IPE_OK, v))
     else if one_of ''A1B2'' then Some (vdrive_command_u1a2b u v cp)
     else if one_of ''C3D4E5F6G7H8'' then
       report (Some (if commandlength cp = 2 then CBMDOS_IPE_MEMEXE_NOT_SUPPORTED else CBMDOS_IPE_OK, v))
     else if one_of ''I9;'' then report (user_initialize u v cp)
     else if one_of ''J'' then report (user_reset u v cp)
     else if one_of '':'' then
       report (do { v \<leftarrow> vdrive_close_all_channels u v; Some (CBMDOS_IPE_DOS_VERSION, v) })
     else if one_of ''0'' \<and> commandlength cp = 2 then report (Some (CBMDOS_IPE_OK, v))
     else report (Some (CBMDOS_IPE_NOT_READY, v)))"

subsection \<open>Executing a command\<close>

definition abbreviated_command :: "ambient \<Rightarrow> vdrive \<Rightarrow> cbmdos_cmd_parse_plus \<Rightarrow> (int \<times> vdrive) option" where
  "abbreviated_command u v cp =
    (let ab = (if abbrvlength cp = 0 then [0] else the (abbrv cp)); c = ab ! 0; is_c = (\<lambda>x. c = of_char x);
         option = (\<lambda>x. abbrvlength cp > 2 \<and> ab ! 1 = asc CHR ''-'' \<and> ab ! 2 = of_char x) in
     if abbrvlength cp = 0 then report (Some (CBMDOS_IPE_INVAL, v))
     else if is_c CHR ''C'' then report (vdrive_command_copy u v cp)
     else if is_c CHR ''/'' then
       if image_format v \<in> {FORMAT_1581, FORMAT_NP} then vdrive_command_chpart u v cp
       else report (Some (CBMDOS_IPE_OK, v))
     else if is_c CHR ''R'' then
       report (if option CHR ''H'' then vdrive_command_renameheader u v cp
               else if option CHR ''P'' then vdrive_command_renamepart u v cp
               else vdrive_command_rename u v cp)
     else if is_c CHR ''L'' then report (vdrive_command_lockunlock u v cp)
     else if is_c CHR ''S'' then vdrive_command_scratch u v cp
     else if is_c CHR ''I'' then report (vdrive_command_initialize u v (Some cp))
     else if is_c CHR ''N'' then report (vdrive_command_format_internal u v cp)
     else if is_c CHR ''V'' then vdrive_command_validate_internal u v cp
     else if is_c CHR ''B'' then vdrive_command_block u v cp
     else report (Some (CBMDOS_IPE_INVAL, v)))"

definition run_command :: "ambient \<Rightarrow> vdrive \<Rightarrow> cbmdos_cmd_parse_plus \<Rightarrow> (int \<times> vdrive) option" where
  "run_command u v cp =
    (let c = the (command cp); second = (\<lambda>x. commandlength cp > 1 \<and> c ! 1 = of_char x); np = (image_format v = FORMAT_NP) in
     if c ! 0 = asc CHR ''C'' \<and> second CHR ''D'' \<and> np then report (vdrive_command_chdir u v cp)
     else if c ! 0 = asc CHR ''C'' \<and> commandlength cp > 1 \<and> c ! 1 AND 0x7f = asc CHR ''P'' then Some (vdrive_command_chcmdpart u v cp)
     else if c ! 0 = asc CHR ''U'' then user_command u v cp
     else if c ! 0 = asc CHR ''M'' \<and> second CHR ''D'' \<and> np then report (vdrive_command_mkdir u v cp)
     else if c ! 0 = asc CHR ''R'' \<and> second CHR ''D'' \<and> np then vdrive_command_rmdir u v cp
     else abbreviated_command u v cp)"

text \<open>
  \<open>b\<close> is the memory the command is in, \<open>len\<close> its length. Some commands are recognised by their
  first letter before the others are parsed, and a carriage return at the end is dropped.
\<close>

definition parsed_command :: "ambient \<Rightarrow> vdrive \<Rightarrow> buffer \<Rightarrow> nat \<Rightarrow> (int \<times> vdrive) option" where
  "parsed_command u v b len =
    (let len = (if b ! (len - 1) = 0x0d then len - 1 else len); p = take len b @ [0] in
     if p ! 0 = asc CHR ''P'' then do {
       (status, v) \<leftarrow> vdrive_command_position u v p len;
       Some (vdrive_command_set_error v status 0 0) }
     else if p ! 0 = asc CHR ''T'' then Some (vdrive_command_time u v p len)
     else do {
       (status, cp) \<leftarrow> cbmdos_command_parse_plus
         ((u_cmd u)\<lparr>full := Some p, fulllength := len, secondary := 0, pmode := 1\<rparr>);
       if commandlength cp = 0 \<or> status \<noteq> CBMDOS_IPE_OK then report (Some (status, v)) else run_command u v cp })"

definition vdrive_command_execute :: "ambient \<Rightarrow> vdrive \<Rightarrow> buffer \<Rightarrow> nat \<Rightarrow> (int \<times> vdrive) option" where
  "vdrive_command_execute u v b len =
    (if len = 0 then Some (CBMDOS_IPE_OK, v)
     else if len > IP_MAX_COMMAND_LEN then Some (vdrive_command_set_error v CBMDOS_IPE_LONG_LINE 0 0)
     else if b ! 0 = asc CHR ''G'' then Some (vdrive_command_getpartinfo u v b len)
     else if b ! 0 = asc CHR ''D'' then vdrive_command_deletepart u v b len
     else if b ! 0 = asc CHR ''M'' \<and> len > 2 \<and> b ! 1 = asc CHR ''-'' then Some (vdrive_command_memory u v b len)
     else parsed_command u v b len)"

text \<open>The end of a transmission executes what was written to the command channel.\<close>

definition vdrive_iec_flush :: "ambient \<Rightarrow> vdrive \<Rightarrow> nat \<Rightarrow> vdrive option" where
  "vdrive_iec_flush u v ch =
    (let p = chan v ch in
     if mode p \<noteq> BUFFER_COMMAND_CHANNEL \<or> readmode p = CBMDOS_FAM_READ \<or> buf_length p = 0 then Some v
     else do {
       (_, v) \<leftarrow> vdrive_command_execute u v (chan_buf v ch) (bufptr p);
       Some (upd_chan ch (\<lambda>p. p\<lparr>bufptr := 0\<rparr>) v) })"

end
