(* ===== verification/FsProbe.thy ===== *)
theory FsProbe
  imports FsGcr
begin

text \<open>
  Recognising the type of an image file by its size, its name and its first bytes
  (\<^verbatim>\<open>lib/vdrive/fsimage-probe.c\<close>), and opening and closing an image (\<^verbatim>\<open>fsimage_open\<close>,
  \<^verbatim>\<open>fsimage_close\<close> of \<^verbatim>\<open>fsimage.c\<close>, \<^verbatim>\<open>disk_image_open\<close>, \<^verbatim>\<open>disk_image_close\<close> of \<^verbatim>\<open>diskimage.c\<close>).

  A check returns 1 or 0 and the image with what it has set, also where it fails. Reading and
  writing a P64 file as a whole and the host's file system are parameters. The size of a file
  is taken to fit into \<^verbatim>\<open>off_t\<close>.
\<close>

subsection \<open>Sizes\<close>

abbreviation (input) "D64_FILE_SIZE_35 \<equiv> 174848 :: nat"
abbreviation (input) "D67_FILE_SIZE \<equiv> 176640 :: nat"
abbreviation (input) "D71_FILE_SIZE \<equiv> 349696 :: nat"
abbreviation (input) "D71_FILE_SIZE_E \<equiv> 351062 :: nat"
abbreviation (input) "D81_FILE_SIZE \<equiv> 819200 :: nat"
abbreviation (input) "D80_FILE_SIZE \<equiv> 533248 :: nat"
abbreviation (input) "D82_FILE_SIZE \<equiv> 1066496 :: nat"
abbreviation (input) "D1M_FILE_SIZE \<equiv> 829440 :: nat"
abbreviation (input) "D2M_FILE_SIZE \<equiv> 1658880 :: nat"
abbreviation (input) "D4M_FILE_SIZE \<equiv> 3317760 :: nat"
abbreviation (input) "D9090_FILE_SIZE \<equiv> 7520256 :: nat"
abbreviation (input) "D9060_FILE_SIZE \<equiv> 5013504 :: nat"

definition IS_D67_LEN :: "nat \<Rightarrow> bool" where
  "IS_D67_LEN x = (x = D67_FILE_SIZE)"

definition IS_D71_LEN :: "nat \<Rightarrow> bool" where
  "IS_D71_LEN x = (x = D71_FILE_SIZE \<or> x = D71_FILE_SIZE_E)"

definition IS_D81_LEN :: "nat \<Rightarrow> bool" where
  "IS_D81_LEN x = (x \<in> {D81_FILE_SIZE, 822400, 829440, 832680, 839680, 842960, 849920, 853240})"

definition IS_D80_LEN :: "nat \<Rightarrow> bool" where
  "IS_D80_LEN x = (x = D80_FILE_SIZE)"

definition IS_D82_LEN :: "nat \<Rightarrow> bool" where
  "IS_D82_LEN x = (x = D82_FILE_SIZE)"

definition IS_D1M_LEN :: "nat \<Rightarrow> bool" where
  "IS_D1M_LEN x = (x = D1M_FILE_SIZE \<or> x = 832680)"

definition IS_D2M_LEN :: "nat \<Rightarrow> bool" where
  "IS_D2M_LEN x = (x = D2M_FILE_SIZE \<or> x = 1665360)"

definition IS_D4M_LEN :: "nat \<Rightarrow> bool" where
  "IS_D4M_LEN x = (x = D4M_FILE_SIZE \<or> x = 3330720)"

definition disk_image_check_min_block :: "nat \<Rightarrow> nat \<Rightarrow> int" where
  "disk_image_check_min_block blk n = (if blk < n then -1 else 0)"

definition disk_image_get_size_blocks :: "byte list \<Rightarrow> nat \<Rightarrow> nat" where
  "disk_image_get_size_blocks f max_blocks =
    (let blk = length f div 256 in if blk > max_blocks then max_blocks + 1 else blk)"

definition util_get_extension :: "string \<Rightarrow> string option" where
  "util_get_extension filename =
    (if CHR ''.'' \<in> set filename then Some (rev (takeWhile (\<lambda>c. c \<noteq> CHR ''.'') (rev filename))) else None)"

text \<open>The error bytes behind \<open>blocks\<close> blocks.\<close>

definition read_error_map :: "disk_image \<Rightarrow> nat \<Rightarrow> int \<times> disk_image" where
  "read_error_map img blocks =
    (case util_fpread (image_file img) (replicate blocks 0) blocks (256 * blocks) of
       (r, m) \<Rightarrow> (if r < 0 then 0 else 1,
         img\<lparr>media := Some ((the (media img))\<lparr>error_map := Some m, error_len := blocks\<rparr>)\<rparr>))"

subsection \<open>The flat types\<close>

text \<open>The loop over the number of tracks; the result is the tracks, the blocks and whether there are error bytes.\<close>

function d64_search :: "nat \<Rightarrow> nat \<Rightarrow> nat \<Rightarrow> (nat \<times> nat \<times> bool) option" where
  "d64_search realsize tracks blocks =
    (if realsize = blocks * 256 then Some (tracks, blocks, False)
     else if realsize = blocks * 256 + blocks then Some (tracks, blocks, True)
     else if Suc tracks > 42 then None
     else d64_search realsize (Suc tracks) (blocks + 17))"
  by pat_completeness auto
termination by (relation "measure (\<lambda>(_, tracks, _). 43 - tracks)") auto

declare d64_search.simps [simp del]

definition disk_image_check_for_d64 :: "disk_image \<Rightarrow> int \<times> disk_image" where
  "disk_image_check_for_d64 img =
    (case d64_search (length (image_file img)) 35 (D64_FILE_SIZE_35 div 256) of
       None \<Rightarrow> (0, img)
     | Some (tracks, blocks, errorinfo) \<Rightarrow>
         let img = img\<lparr>itype := D64, itracks := tracks, max_half_tracks := 42 * 2\<rparr> in
         if errorinfo then read_error_map img blocks else (1, img))"

definition disk_image_check_for_d67 :: "disk_image \<Rightarrow> int \<times> disk_image" where
  "disk_image_check_for_d67 img =
    (if \<not> IS_D67_LEN (length (image_file img)) then (0, img)
     else
       let img = img\<lparr>itype := D67, itracks := 35, max_half_tracks := 35 * 2\<rparr>;
           blk = disk_image_get_size_blocks (image_file img) 690 in
       if disk_image_check_min_block blk 690 < 0 then (0, img)
       else if blk = 690 then (1, img\<lparr>itracks := 35, max_half_tracks := 35 * 2\<rparr>)
       else (0, img))"

definition disk_image_check_for_d71 :: "disk_image \<Rightarrow> int \<times> disk_image" where
  "disk_image_check_for_d71 img =
    (let realsize = length (image_file img) in
     if \<not> IS_D71_LEN realsize then (0, img)
     else
       let errorinfo = (realsize = D71_FILE_SIZE_E);
           img = img\<lparr>itype := D71, itracks := 70, max_half_tracks := 70 * 2\<rparr>;
           blk = disk_image_get_size_blocks (image_file img) 1366 in
       if disk_image_check_min_block blk 1366 < 0 then (0, img)
       else if errorinfo then read_error_map img blk else (1, img))"

text \<open>The first \<^verbatim>\<open>switch\<close> of \<^verbatim>\<open>disk_image_check_for_d81\<close>.\<close>

definition d81_tracks :: "nat \<Rightarrow> nat option" where
  "d81_tracks blk =
    (if blk \<in> {3200, 3200 + 12} then Some 80
     else if blk \<in> {3200 + 40, 3200 + 40 + 12} then Some 81
     else if blk \<in> {3200 + 80, 3200 + 80 + 12} then Some 82
     else if blk \<in> {3200 + 120, 3200 + 120 + 12} then Some 83
     else None)"

definition disk_image_check_for_d81 :: "disk_image \<Rightarrow> int \<times> disk_image" where
  "disk_image_check_for_d81 img =
    (if \<not> IS_D81_LEN (length (image_file img)) then (0, img)
     else if (case util_get_extension (fs_name (the (media img))) of
         None \<Rightarrow> False | Some ext \<Rightarrow> length ext \<ge> 3 \<and> ext ! 1 = CHR ''1'') then (0, img)
     else
       let blk = disk_image_get_size_blocks (image_file img) (3320 + 13) in
       if disk_image_check_min_block blk 3200 < 0 then (0, img)
       else case d81_tracks blk of
         None \<Rightarrow> (0, img)
       | Some tracks \<Rightarrow>
           let img = img\<lparr>itracks := tracks, itype := D81, max_half_tracks := 83 * 2\<rparr> in
           if blk \<in> {3200 + 12, 3200 + 40 + 12, 3200 + 80 + 12, 3200 + 120 + 12}
           then read_error_map img (itracks img * 40) else (1, img))"

definition disk_image_check_for_d80 :: "disk_image \<Rightarrow> int \<times> disk_image" where
  "disk_image_check_for_d80 img =
    (if \<not> IS_D80_LEN (length (image_file img)) then (0, img)
     else
       let img = img\<lparr>itype := D80, itracks := 77, max_half_tracks := 77 * 2\<rparr>;
           blk = disk_image_get_size_blocks (image_file img) (2083 + 6) in
       if disk_image_check_min_block blk 2083 < 0 then (0, img)
       else if blk = 2083 then (1, img\<lparr>itracks := 77, max_half_tracks := 77 * 2\<rparr>)
       else (0, img))"

definition disk_image_check_for_d82 :: "disk_image \<Rightarrow> int \<times> disk_image" where
  "disk_image_check_for_d82 img =
    (if \<not> IS_D82_LEN (length (image_file img)) then (0, img)
     else
       let img = img\<lparr>itype := D82, itracks := 154, max_half_tracks := 154 * 2\<rparr>;
           blk = disk_image_get_size_blocks (image_file img) (4166 + 6) in
       if disk_image_check_min_block blk 4166 < 0 then (0, img)
       else if blk = 4166 then (1, img\<lparr>itracks := 154, max_half_tracks := 154 * 2\<rparr>)
       else (0, img))"

subsection \<open>Raw tracks and pulses\<close>

definition disk_image_check_for_gcr ::
  "byte list \<Rightarrow> nat \<Rightarrow> disk_image \<Rightarrow> gcr_static \<Rightarrow> (int \<times> disk_image \<times> gcr_static) option" where
  "disk_image_check_for_gcr h0 id0 img st =
    (case util_fpread (image_file img) (replicate 32 0) 32 0 of
       (r, header) \<Rightarrow>
         if r < 0 then Some (0, img, st)
         else if header ! 8 \<noteq> 0 then Some (0, img, st)
         else if unat (header ! 9) < 1 then Some (0, img, st)
         else if take 8 header \<noteq> map of_char ''GCR-1541'' \<and> take 8 header \<noteq> map of_char ''GCR-1571'' then Some (0, img, st)
         else
           let ty = (if take 8 header = map of_char ''GCR-1541'' then G64 else G71);
               img = img\<lparr>itype := ty, itracks := unat (header ! 9) div 2, max_half_tracks := unat (header ! 9)\<rparr> in
           case fsimage_gcr_read_disk_id h0 img st 18 0 id0 of
             None \<Rightarrow> None
           | Some (res, pid, st) \<Rightarrow> Some (1, if res = CBMDOS_IPE_OK then img\<lparr>image_id := pid\<rparr> else img, st))"

text \<open>\<open>p64\<close> is \<open>None\<close> where the image has no memory for pulses, and reading the pulses of a file otherwise.\<close>

definition disk_image_check_for_p64 :: "(byte list \<Rightarrow> int) option \<Rightarrow> disk_image \<Rightarrow> int \<times> disk_image" where
  "disk_image_check_for_p64 p64 img =
    (case util_fpread (image_file img) (replicate 8 0) 8 0 of
       (r, header) \<Rightarrow>
         if r < 0 then (0, img)
         else if header \<noteq> map of_char ''P64-1541'' then (0, img)
         else
           let img = img\<lparr>itype := P64, itracks := 42, max_half_tracks := 42 * 2\<rparr> in
           case p64 of
             None \<Rightarrow> (1, img)
           | Some fsimage_read_p64_image \<Rightarrow> if fsimage_read_p64_image (image_file img) < 0 then (0, img) else (1, img))"

subsection \<open>CMD and CBM hard disks\<close>

definition disk_image_check_for_d1m :: "disk_image \<Rightarrow> int \<times> disk_image" where
  "disk_image_check_for_d1m img =
    (if \<not> IS_D1M_LEN (length (image_file img)) then (0, img)
     else if (case util_get_extension (fs_name (the (media img))) of
         None \<Rightarrow> False | Some ext \<Rightarrow> length ext \<ge> 3 \<and> ext ! 1 = CHR ''8'' \<and> ext ! 2 = CHR ''1'') then (0, img)
     else
       let img = img\<lparr>itype := D1M, itracks := 13, max_half_tracks := 13 * 2\<rparr>;
           blk = disk_image_get_size_blocks (image_file img) (3240 + 13) in
       if disk_image_check_min_block blk 3240 < 0 then (0, img)
       else if blk \<in> {3240, 3240 + 12} then (1, img\<lparr>itracks := 13, max_half_tracks := 13 * 2\<rparr>)
       else (0, img))"

definition disk_image_check_for_d2m :: "disk_image \<Rightarrow> int \<times> disk_image" where
  "disk_image_check_for_d2m img =
    (if \<not> IS_D2M_LEN (length (image_file img)) then (0, img)
     else
       let img = img\<lparr>itype := D2M, itracks := 26, max_half_tracks := 26 * 2\<rparr>;
           blk = disk_image_get_size_blocks (image_file img) (6480 + 26) in
       if disk_image_check_min_block blk 6480 < 0 then (0, img)
       else if blk \<in> {6480, 6480 + 25} then (1, img\<lparr>itracks := 26, max_half_tracks := 26 * 2\<rparr>)
       else (0, img))"

definition disk_image_check_for_d4m :: "disk_image \<Rightarrow> int \<times> disk_image" where
  "disk_image_check_for_d4m img =
    (let img = img\<lparr>itracks := 26\<rparr> in
     if \<not> IS_D4M_LEN (length (image_file img)) then (0, img)
     else
       let img = img\<lparr>itype := D4M, itracks := 51, max_half_tracks := 51 * 2\<rparr>;
           blk = disk_image_get_size_blocks (image_file img) (12960 + 51) in
       if disk_image_check_min_block blk 12960 < 0 then (0, img)
       else if blk \<in> {12960, 12960 + 50} then (1, img\<lparr>itracks := 51, max_half_tracks := 51 * 2\<rparr>)
       else (0, img))"

definition dhd_magic :: buffer where
  "dhd_magic = [0x43, 0x4d, 0x44, 0x20, 0x48, 0x44, 0x20, 0x20, 0x8d, 0x03, 0x88, 0x8e, 0x02, 0x88, 0xea, 0x60]"

text \<open>The search for the configuration block of a CMD hard disk.\<close>

function dhd_search :: "byte list \<Rightarrow> nat \<Rightarrow> bool" where
  "dhd_search f pos =
    (if \<not> pos < length f then False
     else if length (slice f pos 512) < 512 then False
     else if slice (slice f pos 512) 0x1f0 16 = dhd_magic then True
     else dhd_search f (pos + 65536))"
  by pat_completeness auto
termination by (relation "measure (\<lambda>(f, pos). length f - pos)") auto

declare dhd_search.simps [simp del]

definition disk_image_check_for_dhd :: "disk_image \<Rightarrow> int \<times> disk_image" where
  "disk_image_check_for_dhd img =
    (let img = img\<lparr>itracks := 65535\<rparr>; blk = length (image_file img) in
     if blk = 0 then (0, img)
     else if blk mod 256 \<noteq> 0 \<or> blk < 73728 then (0, img)
     else if dhd_search (image_file img) 1024 then (1, img\<lparr>itype := DHD, max_half_tracks := 0\<rparr>)
     else (0, img))"

definition disk_image_check_for_d90 :: "disk_image \<Rightarrow> int \<times> disk_image" where
  "disk_image_check_for_d90 img =
    (let blk = length (image_file img) in
     if blk = D9060_FILE_SIZE then (1, img\<lparr>isectors := 4 * 32, itracks := 152, itype := D90, max_half_tracks := 0\<rparr>)
     else if blk = D9090_FILE_SIZE then (1, img\<lparr>isectors := 6 * 32, itracks := 152, itype := D90, max_half_tracks := 0\<rparr>)
     else (0, img))"

subsection \<open>All types\<close>

text \<open>The checks before and after the one for raw tracks, each on what the checks before have left.\<close>

fun first_check :: "(disk_image \<Rightarrow> int \<times> disk_image) list \<Rightarrow> disk_image \<Rightarrow> int \<times> disk_image" where
  "first_check [] img = (-1, img)"
| "first_check (check # checks) img =
    (case check img of (r, img) \<Rightarrow> if r \<noteq> 0 then (0, img) else first_check checks img)"

definition fsimage_probe ::
  "(byte list \<Rightarrow> int) option \<Rightarrow> byte list \<Rightarrow> nat \<Rightarrow> disk_image \<Rightarrow> gcr_static \<Rightarrow> (int \<times> disk_image \<times> gcr_static) option" where
  "fsimage_probe p64 h0 id0 img st =
    (case first_check [disk_image_check_for_d64, disk_image_check_for_d67, disk_image_check_for_d71,
         disk_image_check_for_d81, disk_image_check_for_d80, disk_image_check_for_d82, disk_image_check_for_p64 p64] img of
       (r, img) \<Rightarrow>
         if r = 0 then Some (0, img, st)
         else case disk_image_check_for_gcr h0 id0 img st of
           None \<Rightarrow> None
         | Some (r, img, st) \<Rightarrow>
             if r \<noteq> 0 then Some (0, img, st)
             else case first_check [disk_image_check_for_d1m, disk_image_check_for_d2m, disk_image_check_for_d4m,
                 disk_image_check_for_d90, disk_image_check_for_dhd] img of
               (r, img) \<Rightarrow> Some (r, img, st))"

subsection \<open>Opening and closing\<close>

text \<open>
  The host's files: whether a name is a directory (\<open>None\<close> if there is nothing of that name), and
  the contents of a file opened for reading and writing (\<open>True\<close>) or for reading only, \<open>None\<close> if
  that fails.
\<close>

record host_files =
  archdep_stat :: "string \<Rightarrow> bool option"
  zfile_fopen :: "string \<Rightarrow> bool \<Rightarrow> byte list option"

definition upd_media :: "(fsimage \<Rightarrow> fsimage) \<Rightarrow> disk_image \<Rightarrow> disk_image" where
  "upd_media g img = img\<lparr>media := map_option g (media img)\<rparr>"

text \<open>\<open>write_p64\<close> is the write back of a P64 file.\<close>

definition fsimage_close :: "(disk_image \<Rightarrow> byte list) \<Rightarrow> disk_image \<Rightarrow> int \<times> byte list option \<times> disk_image" where
  "fsimage_close write_p64 img =
    (case fd (the (media img)) of
       None \<Rightarrow> (-1, None, img)
     | Some f \<Rightarrow>
         let f = (if itype img = P64 then write_p64 img else f) in
         (0, Some f, upd_media (\<lambda>m. m\<lparr>error_map := None, fd := None\<rparr>) img))"

definition open_file_of :: "host_files \<Rightarrow> disk_image \<Rightarrow> disk_image" where
  "open_file_of host img =
    (let name = fs_name (the (media img)) in
     if read_only img \<noteq> 0 then upd_media (\<lambda>m. m\<lparr>fd := zfile_fopen host name False\<rparr>) img
     else case zfile_fopen host name True of
       Some f \<Rightarrow> upd_media (\<lambda>m. m\<lparr>fd := Some f\<rparr>) img
     | None \<Rightarrow> upd_media (\<lambda>m. m\<lparr>fd := zfile_fopen host name False\<rparr>) (img\<lparr>read_only := 1\<rparr>))"

definition fsimage_open ::
  "host_files \<Rightarrow> (disk_image \<Rightarrow> byte list) \<Rightarrow> (byte list \<Rightarrow> int) option \<Rightarrow> byte list \<Rightarrow> nat \<Rightarrow> disk_image \<Rightarrow> gcr_static \<Rightarrow>
   (int \<times> disk_image \<times> gcr_static) option" where
  "fsimage_open host write_p64 p64 h0 id0 img st =
    (let img = upd_media (\<lambda>m. m\<lparr>error_map := None\<rparr>) img in
     case archdep_stat host (fs_name (the (media img))) of
       None \<Rightarrow> Some (-1, img, st)
     | Some isdir \<Rightarrow>
         if isdir then Some (-1, img, st)
         else
           let img = open_file_of host img in
           if fd (the (media img)) = None then Some (-1, img, st)
           else case fsimage_probe p64 h0 id0 img st of
             None \<Rightarrow> None
           | Some (r, img, st) \<Rightarrow>
               if r = 0 then Some (0, img, st) else Some (-1, snd (snd (fsimage_close write_p64 img)), st))"

definition disk_image_open ::
  "host_files \<Rightarrow> (disk_image \<Rightarrow> byte list) \<Rightarrow> (byte list \<Rightarrow> int) option \<Rightarrow> byte list \<Rightarrow> nat \<Rightarrow> disk_image \<Rightarrow> gcr_static \<Rightarrow>
   (int \<times> disk_image \<times> gcr_static) option" where
  "disk_image_open host write_p64 p64 h0 id0 img st =
    (case device img of
       DEVICE_FS \<Rightarrow> fsimage_open host write_p64 p64 h0 id0 img st
     | _ \<Rightarrow> Some (-1, img, st))"

definition disk_image_close ::
  "(disk_image \<Rightarrow> byte list) \<Rightarrow> disk_image option \<Rightarrow> int \<times> byte list option \<times> disk_image option" where
  "disk_image_close write_p64 imgp =
    (case imgp of
       None \<Rightarrow> (0, None, None)
     | Some img \<Rightarrow>
         (case device img of
            DEVICE_FS \<Rightarrow> (case fsimage_close write_p64 img of (r, f, img) \<Rightarrow> (r, f, Some img))
          | _ \<Rightarrow> (-1, None, Some img)))"

subsection \<open>Complete images\<close>

text \<open>
  The blocks of the tracks an image has by its own account, and a flat image whose file has all
  of them, with an error byte for each where there are error bytes. The bound on their number,
  1 GB of blocks, keeps every offset within an \<^verbatim>\<open>int\<close>.
\<close>

definition image_blocks :: "disk_image \<Rightarrow> nat" where
  "image_blocks img = sum_from (track_sectors img) (Suc (Suc (itracks img)) - first_track img) 0"

definition complete_image :: "disk_image \<Rightarrow> bool" where
  "complete_image img = (flat_type (itype img) \<and> geometry_ok img \<and> itracks img \<le> track_limit img \<and>
     image_blocks img < 2 ^ 22 \<and> image_blocks img * 256 \<le> length (image_file img) \<and>
     (case image_errors img of None \<Rightarrow> True
      | Some m \<Rightarrow> length m = image_blocks img \<and> error_len (the (media img)) = image_blocks img \<and>
          image_blocks img * 257 \<le> length (image_file img)))"

lemma complete_in_image:
  assumes "complete_image img" "first_track img \<le> t" "t \<le> itracks img" "s < track_sectors img t"
  shows "in_image img (t, s)"
proof -
  have k: "block_of img t s < image_blocks img" using block_of_below_limit [OF assms(2-4)] by (simp add: image_blocks_def)
  have img: "known_type img" "geometry_ok img" "itracks img \<le> track_limit img" "image_blocks img < 2 ^ 22"
    "image_blocks img * 256 \<le> length (image_file img)"
    using assms(1) by (simp_all add: complete_image_def flat_known)
  have "fsimage_check_sector img t s = int (block_of img t s)"
    using fsimage_check_sector_spec [OF img(1,2), of t s] assms(2-4) img(3,4) k by (simp add: c_int_small)
  moreover have "Suc (block_of img t s) * 256 \<le> image_blocks img * 256" using k by (intro mult_le_mono1) simp
  moreover have "Suc (block_of img t s) * 256 \<le> 2 ^ 31" using k img(4) by simp
  ultimately show ?thesis
    using assms(1) k img(5) by (auto simp: in_image_def complete_image_def split: option.splits)
qed

lemma complete_dxx_ok:
  assumes "complete_image img" "device img = DEVICE_FS" "read_only img = 0" "media img \<noteq> None" "fd (the (media img)) \<noteq> None"
  shows "dxx_ok img"
  using assms by (auto simp: dxx_ok_def complete_image_def split: option.splits)

text \<open>The number of blocks by type.\<close>

lemma image_blocks_values:
  "itype img = D64 \<Longrightarrow> image_blocks img = sectors_below D64 (Suc (itracks img)) 0"
  "itype img = D67 \<Longrightarrow> itracks img = 35 \<Longrightarrow> image_blocks img = 690"
  "itype img = D71 \<Longrightarrow> itracks img = 70 \<Longrightarrow> image_blocks img = 1366"
  "itype img = D81 \<Longrightarrow> image_blocks img = itracks img * 40"
  "itype img = D80 \<Longrightarrow> itracks img = 77 \<Longrightarrow> image_blocks img = 2083"
  "itype img = D82 \<Longrightarrow> itracks img = 154 \<Longrightarrow> image_blocks img = 4166"
  "itype img = D1M \<Longrightarrow> itracks img = 13 \<Longrightarrow> image_blocks img = 3240"
  "itype img = D2M \<Longrightarrow> itracks img = 26 \<Longrightarrow> image_blocks img = 6480"
  "itype img = D4M \<Longrightarrow> itracks img = 51 \<Longrightarrow> image_blocks img = 12960"
  "itype img = D90 \<Longrightarrow> image_blocks img = Suc (itracks img) * isectors img"
  using sectors_below_d71 [of 71] sectors_below_d82 [of 155] sum_from_last [of 13 168 256]
    sum_from_last [of 26 80 256] sum_from_last [of 51 160 256]
  by (simp_all add: image_blocks_def track_sectors_def first_track_def sum_from_const sectors_below_def [symmetric] geom_simps)

subsection \<open>What a check leaves\<close>

text \<open>
  An image of the file \<open>f\<close> before a check: the failed check for a D71 file with error bytes, of 351062
  bytes, is the only one that leaves an error map behind.
\<close>

definition unprobed :: "disk_image \<Rightarrow> byte list \<Rightarrow> disk_image \<Rightarrow> bool" where
  "unprobed img0 f img = (image_file img = f \<and> device img = device img0 \<and> read_only img = read_only img0 \<and> media img \<noteq> None \<and>
     fd (the (media img)) \<noteq> None \<and> (length f \<noteq> D71_FILE_SIZE_E \<longrightarrow> image_errors img = None))"

definition probed :: "disk_image \<Rightarrow> byte list \<Rightarrow> disk_image \<Rightarrow> bool" where
  "probed img0 f img = (image_file img = f \<and> device img = device img0 \<and> read_only img = read_only img0 \<and> media img \<noteq> None \<and>
     fd (the (media img)) \<noteq> None \<and> (complete_image img \<or> itype img \<in> {G64, G71, P64, DHD}))"

definition check_ok :: "disk_image \<Rightarrow> byte list \<Rightarrow> (disk_image \<Rightarrow> int \<times> disk_image) \<Rightarrow> bool" where
  "check_ok img0 f check = (\<forall>img. unprobed img0 f img \<longrightarrow>
     (case check img of (r, img') \<Rightarrow> if r = 0 then unprobed img0 f img' else probed img0 f img'))"

lemma first_check_rule:
  assumes "list_all (check_ok img0 f) checks" "unprobed img0 f img"
  shows "case first_check checks img of (r, img') \<Rightarrow> if r = 0 then probed img0 f img' else unprobed img0 f img'"
  using assms
proof (induction checks arbitrary: img)
  case (Cons check checks)
  obtain r img' where c: "check img = (r, img')" by (cases "check img")
  then have "if r = 0 then unprobed img0 f img' else probed img0 f img'"
    using Cons.prems unfolding check_ok_def by fastforce
  then show ?case using c Cons by (auto split: if_splits)
qed simp

lemma read_error_map_eq:
  assumes "length (image_file img) = blocks * 257"
  shows "read_error_map img blocks =
    (1, img\<lparr>media := Some ((the (media img))\<lparr>error_map := Some (slice (image_file img) (256 * blocks) blocks), error_len := blocks\<rparr>)\<rparr>)"
  using assms by (simp add: read_error_map_def util_fpread_in)

lemma d64_search_found:
  assumes "d64_search n t b = Some (t', b', e)" "b = sectors_below D64 (Suc t) 0" "35 \<le> t" "t \<le> 42"
  shows "b' = sectors_below D64 (Suc t') 0 \<and> 35 \<le> t' \<and> t' \<le> 42 \<and> n = b' * (if e then 257 else 256)"
  using assms
proof (induction n t b rule: d64_search.induct)
  case (1 n t b)
  have "sectors_below D64 (Suc (Suc t)) 0 = sectors_below D64 (Suc t) 0 + 17" using \<open>35 \<le> t\<close> by (simp add: geom_simps)
  then show ?case
    using 1 by (subst (asm) (2) d64_search.simps) (auto split: if_splits)
qed

text \<open>A flat image without error bytes whose file has the right size is complete.\<close>

lemma image_fields [simp]:
  "image_file (img\<lparr>itype := ty\<rparr>) = image_file img" "image_file (img\<lparr>itracks := n\<rparr>) = image_file img"
  "image_file (img\<lparr>max_half_tracks := n\<rparr>) = image_file img" "image_file (img\<lparr>isectors := n\<rparr>) = image_file img"
  "image_errors (img\<lparr>itype := ty\<rparr>) = image_errors img" "image_errors (img\<lparr>itracks := n\<rparr>) = image_errors img"
  "image_errors (img\<lparr>max_half_tracks := n\<rparr>) = image_errors img" "image_errors (img\<lparr>isectors := n\<rparr>) = image_errors img"
  "image_file (img\<lparr>image_id := n\<rparr>) = image_file img" "image_errors (img\<lparr>image_id := n\<rparr>) = image_errors img"
  by (simp_all add: image_file_def image_errors_def)

lemma complete_plain:
  assumes "flat_type (itype img)" "geometry_ok img" "itracks img \<le> track_limit img" "image_blocks img = n" "n < 2 ^ 22"
    "n * 256 \<le> length (image_file img)" "image_errors img = None"
  shows "complete_image img"
  using assms by (simp add: complete_image_def)

lemma media_only [simp]:
  "track_sectors (img\<lparr>media := m\<rparr>) = track_sectors img" "track_limit (img\<lparr>media := m\<rparr>) = track_limit img"
  "first_track (img\<lparr>media := m\<rparr>) = first_track img" "geometry_ok (img\<lparr>media := m\<rparr>) = geometry_ok img"
  by (cases "itype img"; simp add: track_sectors_def track_limit_def first_track_def geometry_ok_def)+

lemma image_blocks_media [simp]: "image_blocks (img\<lparr>media := m\<rparr>) = image_blocks img"
  by (simp add: image_blocks_def)

text \<open>An image with its error bytes read: the file has a byte more for every block.\<close>

lemma probed_mapped:
  assumes "unprobed img0 f img" "flat_type ty" "geometry_ok img'" "itracks img' \<le> track_limit img'" "image_blocks img' = n" "n < 2 ^ 22"
    "length f = n * 257" "img' = img\<lparr>itype := ty, itracks := t, max_half_tracks := k\<rparr>"
  shows "\<exists>i. read_error_map img' n = (1, i) \<and> probed img0 f i"
proof -
  have f: "image_file img' = f" "media img' \<noteq> None" "fd (the (media img')) \<noteq> None" "device img' = device img0" "read_only img' = read_only img0"
    using assms(1,8) by (simp_all add: unprobed_def)
  let ?i = "img'\<lparr>media := Some ((the (media img'))\<lparr>error_map := Some (slice f (256 * n) n), error_len := n\<rparr>)\<rparr>"
  have "image_file ?i = f" "image_errors ?i = Some (slice f (256 * n) n)" "error_len (the (media ?i)) = n"
    using f(1) by (simp_all add: image_file_def image_errors_def)
  moreover have "itype ?i = ty" using assms(8) by simp
  ultimately have "probed img0 f ?i"
    using assms(2-7) f by (simp add: probed_def complete_image_def)
  then show ?thesis using read_error_map_eq [of img' n] f(1) assms(7) by auto
qed

text \<open>An image without error bytes, whose file has the right size.\<close>

lemma probed_plain:
  assumes "unprobed img0 f img" "length f \<noteq> D71_FILE_SIZE_E" "flat_type ty" "geometry_ok img'" "itracks img' \<le> track_limit img'"
    "image_blocks img' = n" "n < 2 ^ 22" "n * 256 \<le> length f"
    "img' = img\<lparr>itype := ty, itracks := t, max_half_tracks := k, isectors := m\<rparr>"
  shows "probed img0 f img'"
proof -
  have "image_file img' = f" "image_errors img' = None" "itype img' = ty" using assms(1,2,9) by (simp_all add: unprobed_def)
  then show ?thesis using assms by (simp add: probed_def unprobed_def complete_image_def)
qed

lemmas probe_defs = disk_image_get_size_blocks_def disk_image_check_min_block_def Let_def
  flat_type_def geometry_ok_def track_limit_def image_blocks_values

lemma check_okI:
  assumes "\<And>img r img'. unprobed img0 f img \<Longrightarrow> image_file img = f \<Longrightarrow> check img = (r, img') \<Longrightarrow>
    if r = 0 then unprobed img0 f img' else probed img0 f img'"
  shows "check_ok img0 f check"
proof -
  have "image_file img = f" if "unprobed img0 f img" for img using that by (simp add: unprobed_def)
  then show ?thesis using assms unfolding check_ok_def by (auto split: prod.split simp del: if_split_asm)
qed

lemma check_d64: "check_ok img0 f disk_image_check_for_d64"
proof (rule check_okI)
  fix img r img' assume u: "unprobed img0 f img" "image_file img = f" and c: "disk_image_check_for_d64 img = (r, img')"
  show "if r = 0 then unprobed img0 f img' else probed img0 f img'"
  proof (cases "d64_search (length f) 35 683")
    case None
    then show ?thesis using u c by (simp add: disk_image_check_for_d64_def)
  next
    case (Some x)
    obtain t b e where x: "x = (t, b, e)" by (cases x)
    have z: "683 = sectors_below D64 (Suc 35) 0" "(35 :: nat) \<le> 35" "(35 :: nat) \<le> 42" by (simp_all add: geom_simps)
    have d: "b = sectors_below D64 (Suc t) 0" "35 \<le> t" "t \<le> 42" "length f = b * (if e then 257 else 256)"
      using d64_search_found [OF Some [unfolded x] z] by blast+
    have b: "683 \<le> b" "b \<le> 802" using d(1-3) by (auto simp: geom_simps)
    let ?i = "img\<lparr>itype := D64, itracks := t, max_half_tracks := 84\<rparr>"
    have i: "geometry_ok ?i" "itracks ?i \<le> track_limit ?i" "image_blocks ?i = b" "flat_type D64" "b < 2 ^ 22"
      using d b(2) by (simp_all add: probe_defs)
    have c': "(r, img') = (if e then read_error_map ?i b else (1, ?i))"
      using Some x u c by (simp add: disk_image_check_for_d64_def Let_def)
    have len: "length f \<noteq> D71_FILE_SIZE_E" using d(4) b(2) by (simp split: if_splits)
    show ?thesis
    proof (cases e)
      case True
      then have "length f = b * 257" using d(4) by simp
      from probed_mapped [OF u(1) i(4,1,2,3,5) this refl] show ?thesis using c' True by auto
    next
      case False
      then show ?thesis
        using probed_plain [OF u(1) len i(4), where img' = ?i and n = b and m = "isectors img"] i d(4) c' by simp
    qed
  qed
qed

lemma check_d67: "check_ok img0 f disk_image_check_for_d67"
proof (rule check_okI)
  fix img r img' assume u: "unprobed img0 f img" "image_file img = f" and c: "disk_image_check_for_d67 img = (r, img')"
  let ?i = "img\<lparr>itype := D67, itracks := 35, max_half_tracks := 70\<rparr>"
  have "probed img0 f ?i" if "length f = D67_FILE_SIZE"
    using that by (intro probed_plain [OF u(1), where n = 690 and m = "isectors img"]) (simp_all add: probe_defs)
  then show "if r = 0 then unprobed img0 f img' else probed img0 f img'"
    using u c by (auto simp: disk_image_check_for_d67_def IS_D67_LEN_def probe_defs split: if_splits)
qed

lemma check_d80: "check_ok img0 f disk_image_check_for_d80"
proof (rule check_okI)
  fix img r img' assume u: "unprobed img0 f img" "image_file img = f" and c: "disk_image_check_for_d80 img = (r, img')"
  let ?i = "img\<lparr>itype := D80, itracks := 77, max_half_tracks := 154\<rparr>"
  have "probed img0 f ?i" if "length f = D80_FILE_SIZE"
    using that by (intro probed_plain [OF u(1), where n = 2083 and m = "isectors img"]) (simp_all add: probe_defs)
  then show "if r = 0 then unprobed img0 f img' else probed img0 f img'"
    using u c by (auto simp: disk_image_check_for_d80_def IS_D80_LEN_def probe_defs split: if_splits)
qed

lemma check_d82: "check_ok img0 f disk_image_check_for_d82"
proof (rule check_okI)
  fix img r img' assume u: "unprobed img0 f img" "image_file img = f" and c: "disk_image_check_for_d82 img = (r, img')"
  let ?i = "img\<lparr>itype := D82, itracks := 154, max_half_tracks := 308\<rparr>"
  have "probed img0 f ?i" if "length f = D82_FILE_SIZE"
    using that by (intro probed_plain [OF u(1), where n = 4166 and m = "isectors img"]) (simp_all add: probe_defs)
  then show "if r = 0 then unprobed img0 f img' else probed img0 f img'"
    using u c by (auto simp: disk_image_check_for_d82_def IS_D82_LEN_def probe_defs split: if_splits)
qed

lemma check_d1m: "check_ok img0 f disk_image_check_for_d1m"
proof (rule check_okI)
  fix img r img' assume u: "unprobed img0 f img" "image_file img = f" and c: "disk_image_check_for_d1m img = (r, img')"
  let ?i = "img\<lparr>itype := D1M, itracks := 13, max_half_tracks := 26\<rparr>"
  have "probed img0 f ?i" if "length f \<in> {829440, 832680}"
    using that by (intro probed_plain [OF u(1), where n = 3240 and m = "isectors img"]) (auto simp: probe_defs)
  then show "if r = 0 then unprobed img0 f img' else probed img0 f img'"
    using u c by (auto simp: disk_image_check_for_d1m_def IS_D1M_LEN_def probe_defs split: if_splits)
qed

lemma check_d2m: "check_ok img0 f disk_image_check_for_d2m"
proof (rule check_okI)
  fix img r img' assume u: "unprobed img0 f img" "image_file img = f" and c: "disk_image_check_for_d2m img = (r, img')"
  let ?i = "img\<lparr>itype := D2M, itracks := 26, max_half_tracks := 52\<rparr>"
  have "probed img0 f ?i" if "length f \<in> {1658880, 1665360}"
    using that by (intro probed_plain [OF u(1), where n = 6480 and m = "isectors img"]) (auto simp: probe_defs)
  then show "if r = 0 then unprobed img0 f img' else probed img0 f img'"
    using u c by (auto simp: disk_image_check_for_d2m_def IS_D2M_LEN_def probe_defs split: if_splits)
qed

lemma unprobed_tracks: "unprobed img0 f img \<Longrightarrow> unprobed img0 f (img\<lparr>itracks := n\<rparr>)"
  by (simp add: unprobed_def)

lemma check_d4m: "check_ok img0 f disk_image_check_for_d4m"
proof (rule check_okI)
  fix img r img' assume u: "unprobed img0 f img" "image_file img = f" and c: "disk_image_check_for_d4m img = (r, img')"
  let ?i = "img\<lparr>itype := D4M, itracks := 51, max_half_tracks := 102\<rparr>"
  have "probed img0 f ?i" if "length f \<in> {3317760, 3330720}"
    using that by (intro probed_plain [OF u(1), where n = 12960 and m = "isectors img"]) (auto simp: probe_defs)
  then show "if r = 0 then unprobed img0 f img' else probed img0 f img'"
    using u unprobed_tracks [OF u(1), of 26] c
    by (auto simp: disk_image_check_for_d4m_def IS_D4M_LEN_def probe_defs split: if_splits)
qed

lemma check_d90: "check_ok img0 f disk_image_check_for_d90"
proof (rule check_okI)
  fix img r img' assume u: "unprobed img0 f img" "image_file img = f" and c: "disk_image_check_for_d90 img = (r, img')"
  let ?i = "\<lambda>n. img\<lparr>isectors := n, itracks := 152, itype := D90, max_half_tracks := 0\<rparr>"
  have i: "?i n = img\<lparr>itype := D90, itracks := 152, max_half_tracks := 0, isectors := n\<rparr>" for n by simp
  have "probed img0 f (?i 128)" if "length f = D9060_FILE_SIZE"
    using that by (intro probed_plain [OF u(1) _ _ _ _ _ _ _ i, where n = 19584]) (simp_all add: probe_defs)
  moreover have "probed img0 f (?i 192)" if "length f = D9090_FILE_SIZE"
    using that by (intro probed_plain [OF u(1) _ _ _ _ _ _ _ i, where n = 29376]) (simp_all add: probe_defs)
  ultimately show "if r = 0 then unprobed img0 f img' else probed img0 f img'"
    using u c by (auto simp: disk_image_check_for_d90_def Let_def split: if_splits)
qed

lemma check_d71: "check_ok img0 f disk_image_check_for_d71"
proof (rule check_okI)
  fix img r img' assume u: "unprobed img0 f img" "image_file img = f" and c: "disk_image_check_for_d71 img = (r, img')"
  let ?i = "img\<lparr>itype := D71, itracks := 70, max_half_tracks := 140\<rparr>"
  have p: "probed img0 f ?i" if "length f = D71_FILE_SIZE"
    using that by (intro probed_plain [OF u(1), where n = 1366 and m = "isectors img"]) (simp_all add: probe_defs)
  show "if r = 0 then unprobed img0 f img' else probed img0 f img'"
  proof (cases "length f = D71_FILE_SIZE_E")
    case True
    have "fst (util_fpread f (replicate 1367 0) 1367 (256 * 1367)) < 0" using True by (simp add: util_fpread_def Let_def slice_def)
    then have "r = 0 \<and> (\<exists>m. img' = ?i\<lparr>media := Some ((the (media img))\<lparr>error_map := Some m, error_len := 1367\<rparr>)\<rparr>)"
      using c u True
      by (auto simp: disk_image_check_for_d71_def IS_D71_LEN_def read_error_map_def disk_image_get_size_blocks_def
          disk_image_check_min_block_def Let_def split: prod.splits)
    then show ?thesis using u True by (auto simp: unprobed_def image_file_def)
  next
    case False
    then show ?thesis
      using u c p by (auto simp: disk_image_check_for_d71_def IS_D71_LEN_def probe_defs split: if_splits)
  qed
qed

lemma d81_sizes:
  assumes "IS_D81_LEN (length f)" "disk_image_get_size_blocks f 3333 = blk" "d81_tracks blk = Some t"
  shows "80 \<le> t \<and> t \<le> 83 \<and> length f = t * 40 * (if blk \<in> {3212, 3252, 3292, 3332} then 257 else 256)"
  using assms by (auto simp: IS_D81_LEN_def disk_image_get_size_blocks_def d81_tracks_def Let_def split: if_splits)

lemma check_d81: "check_ok img0 f disk_image_check_for_d81"
proof (rule check_okI)
  fix img r img' assume u: "unprobed img0 f img" "image_file img = f" and c: "disk_image_check_for_d81 img = (r, img')"
  let ?blk = "disk_image_get_size_blocks f 3333"
  show "if r = 0 then unprobed img0 f img' else probed img0 f img'"
  proof (cases "(r, img') = (0, img)")
    case True
    then show ?thesis using u by simp
  next
    case False
    then obtain t where l: "IS_D81_LEN (length f)" and t: "d81_tracks ?blk = Some t"
      using c u(2) by (auto simp: disk_image_check_for_d81_def Let_def split: if_splits option.splits)
    let ?i = "img\<lparr>itype := D81, itracks := t, max_half_tracks := 166\<rparr>"
    have i: "img\<lparr>itracks := t, itype := D81, max_half_tracks := 166\<rparr> = ?i" by simp
    note d = d81_sizes [OF l refl t]
    have g: "geometry_ok ?i" "itracks ?i \<le> track_limit ?i" "image_blocks ?i = t * 40" "flat_type D81" "t * 40 < 2 ^ 22"
      using d by (simp_all add: probe_defs)
    have c': "(r, img') = (if ?blk \<in> {3212, 3252, 3292, 3332} then read_error_map ?i (t * 40) else (1, ?i))"
      using c False u(2) t by (auto simp: disk_image_check_for_d81_def Let_def i split: if_splits)
    show ?thesis
    proof (cases "?blk \<in> {3212, 3252, 3292, 3332}")
      case True
      then have "length f = t * 40 * 257" using d by simp
      from probed_mapped [OF u(1) g(4,1,2,3,5) this refl] show ?thesis using c' True by auto
    next
      case b: False
      then have "length f = t * 40 * 256" using d by simp
      then show ?thesis
        using probed_plain [OF u(1) _ g(4), where img' = ?i and n = "t * 40" and m = "isectors img"] g d b c' by simp
    qed
  qed
qed

lemma check_p64: "check_ok img0 f (disk_image_check_for_p64 p64)"
  by (rule check_okI)
    (auto simp: disk_image_check_for_p64_def Let_def unprobed_def probed_def split: prod.splits if_splits option.splits)

lemma check_dhd: "check_ok img0 f disk_image_check_for_dhd"
  by (rule check_okI) (auto simp: disk_image_check_for_dhd_def Let_def unprobed_def probed_def split: if_splits)

lemma check_gcr_image:
  assumes "unprobed img0 f img" "disk_image_check_for_gcr h0 id0 img st = Some (r, img', st')"
  shows "if r = 0 then unprobed img0 f img' else probed img0 f img'"
  using assms
  by (auto simp: disk_image_check_for_gcr_def Let_def unprobed_def probed_def split: prod.splits if_splits option.splits)

lemma probe_result:
  assumes "unprobed img0 f img" "fsimage_probe p64 h0 id0 img st = Some (0, img', st')"
  shows "probed img0 f img'"
proof -
  let ?first = "[disk_image_check_for_d64, disk_image_check_for_d67, disk_image_check_for_d71,
      disk_image_check_for_d81, disk_image_check_for_d80, disk_image_check_for_d82, disk_image_check_for_p64 p64]"
  let ?last = "[disk_image_check_for_d1m, disk_image_check_for_d2m, disk_image_check_for_d4m, disk_image_check_for_d90, disk_image_check_for_dhd]"
  have l: "list_all (check_ok img0 f) ?first" "list_all (check_ok img0 f) ?last"
    by (simp_all add: check_d64 check_d67 check_d71 check_d81 check_d80 check_d82 check_p64 check_d1m check_d2m check_d4m check_d90 check_dhd)
  obtain r1 i1 where 1: "first_check ?first img = (r1, i1)" by (cases "first_check ?first img")
  note r1 = first_check_rule [OF l(1) assms(1), unfolded 1 prod.case]
  show ?thesis
  proof (cases "r1 = 0")
    case True
    then show ?thesis using r1 1 assms(2) by (simp add: fsimage_probe_def del: first_check.simps)
  next
    case False
    then have "case disk_image_check_for_gcr h0 id0 i1 st of None \<Rightarrow> False | Some (r, i, st) \<Rightarrow>
        if r \<noteq> 0 then i = img' else first_check ?last i = (0, img')"
      using 1 assms(2) by (auto simp: fsimage_probe_def simp del: first_check.simps split: option.splits prod.splits if_splits)
    then obtain r2 i2 st2 where 2: "disk_image_check_for_gcr h0 id0 i1 st = Some (r2, i2, st2)"
      "if r2 \<noteq> 0 then i2 = img' else first_check ?last i2 = (0, img')"
      by (auto simp del: first_check.simps split: option.splits)
    have i2: "if r2 = 0 then unprobed img0 f i2 else probed img0 f i2"
      using check_gcr_image [OF _ 2(1)] r1 False by simp
    show ?thesis
    proof (cases "r2 = 0")
      case True
      then show ?thesis using first_check_rule [OF l(2), of i2] i2 2(2) by (simp del: first_check.simps)
    next
      case False
      then show ?thesis using i2 2(2) by simp
    qed
  qed
qed

lemma opens_probed:
  assumes "disk_image_open host write_p64 p64 h0 id0 img st = Some (0, img', st')" "media img \<noteq> None"
  shows "\<exists>img1. read_only img' = read_only img1 \<and> device img = DEVICE_FS \<and> probed img1 (image_file img') img' \<and> device img1 = DEVICE_FS \<and>
    zfile_fopen host (fs_name (the (media img))) (read_only img' = 0) = Some (image_file img')"
proof -
  define i0 where "i0 = upd_media (\<lambda>m. m\<lparr>error_map := None\<rparr>) img"
  define i1 where "i1 = open_file_of host i0"
  have o: "device img = DEVICE_FS" "fd (the (media i1)) \<noteq> None" "fsimage_probe p64 h0 id0 i1 st = Some (0, img', st')"
    using assms(1)
    by (auto simp: disk_image_open_def fsimage_open_def i0_def [symmetric] i1_def [symmetric] Let_def
        split: disk_image_device.splits option.splits if_splits)
  obtain m where m: "media img = Some m" using assms(2) by blast
  have i1: "media i1 \<noteq> None" "image_errors i1 = None" "device i1 = DEVICE_FS"
    "fd (the (media i1)) = zfile_fopen host (fs_name m) (read_only i1 = 0)"
    using m o(1) by (auto simp: i1_def i0_def open_file_of_def upd_media_def image_errors_def Let_def split: option.splits)
  have "unprobed i1 (image_file i1) i1" using i1 o(2) by (simp add: unprobed_def)
  from probe_result [OF this o(3)] have p: "probed i1 (image_file i1) img'" .
  then have "image_file img' = image_file i1" "read_only img' = read_only i1" by (simp_all add: probed_def)
  then show ?thesis using p o(1,2) i1 m by (auto simp: image_file_def)
qed

subsection \<open>Properties\<close>

text \<open>
  C39. Opening an image. If opening a file succeeds and finds one of the flat types but the hard
  disks of CMD, the image is well formed: the file and, if there are error bytes, the error map
  have the block of every sector of every track the image says it has. An image that may be
  written then fulfils what sector access relies on (C5).
\<close>

theorem opened_image:
  assumes "disk_image_open host write_p64 p64 h0 id0 img st = Some (0, img', st')" "media img \<noteq> None"
    and "itype img' \<notin> {G64, G71, P64, DHD}"
  shows "zfile_fopen host (fs_name (the (media img))) (read_only img' = 0) = Some (image_file img') \<and> flat_type (itype img') \<and>
    (\<forall>t s. first_track img' \<le> t \<and> t \<le> itracks img' \<and> s < track_sectors img' t \<longrightarrow> in_image img' (t, s)) \<and>
    (read_only img' = 0 \<longrightarrow> dxx_ok img')"
proof -
  obtain img1 where i: "device img1 = DEVICE_FS" "probed img1 (image_file img') img'"
    "zfile_fopen host (fs_name (the (media img))) (read_only img' = 0) = Some (image_file img')"
    using opens_probed [OF assms(1,2)] by blast
  then have c: "complete_image img'" "media img' \<noteq> None" "fd (the (media img')) \<noteq> None" "device img' = DEVICE_FS"
    using assms(3) by (auto simp: probed_def)
  then show ?thesis using i(3) complete_in_image complete_dxx_ok by (auto simp: complete_image_def)
qed

text \<open>An image file of zero bytes of the size of a D64 with error bytes.\<close>

definition new_image :: "string \<Rightarrow> disk_image" where
  "new_image name = (d64_image 0)\<lparr>media := Some \<lparr>fd = None, fs_name = name, error_map = None, error_dirty = False, error_len = 0\<rparr>\<rparr>"

abbreviation (input) "one_file n \<equiv>
  \<lparr>archdep_stat = (\<lambda>_. Some False), zfile_fopen = (\<lambda>_ _. Some (replicate n (0 :: byte)))\<rparr>"

theorem opened_image_witness:
  "\<exists>img'. disk_image_open (one_file 175531) image_file None [] 0 (new_image ''x.d64'') \<lparr>header_pos = 0, current_half_track = -1\<rparr> =
      Some (0, img', \<lparr>header_pos = 0, current_half_track = -1\<rparr>) \<and>
    itype img' = D64 \<and> image_errors img' = Some (replicate 683 0) \<and> in_image img' (35, 16) \<and> dxx_ok img'"
proof -
  let ?st = "\<lparr>header_pos = 0, current_half_track = -1\<rparr>" and ?f = "replicate 175531 0 :: byte list"
  define i0 where "i0 = (new_image ''x.d64'')\<lparr>media := Some \<lparr>fd = Some ?f, fs_name = ''x.d64'', error_map = None, error_dirty = False, error_len = 0\<rparr>\<rparr>"
  define i1 where "i1 = i0\<lparr>itype := D64, itracks := 35, max_half_tracks := 84\<rparr>"
  define i2 where "i2 = i1\<lparr>media := Some ((the (media i1))\<lparr>error_map := Some (replicate 683 0), error_len := 683\<rparr>)\<rparr>"
  have f: "image_file i0 = ?f" "image_file i1 = ?f" by (simp_all add: i1_def) (simp_all add: i0_def image_file_def)
  have "slice ?f (256 * 683) 683 = replicate 683 0" by (simp add: slice_def)
  then have "read_error_map i1 683 = (1, i2)" using read_error_map_eq [of i1 683] f(2) by (simp add: i2_def)
  moreover have "d64_search 175531 35 683 = Some (35, 683, True)" by (simp add: d64_search.simps)
  ultimately have "disk_image_check_for_d64 i0 = (1, i2)"
    using f(1) by (simp add: disk_image_check_for_d64_def i1_def [symmetric])
  then have pr: "fsimage_probe None [] 0 i0 ?st = Some (0, i2, ?st)" by (simp add: fsimage_probe_def)
  have "open_file_of (one_file 175531) (upd_media (\<lambda>m. m\<lparr>error_map := None\<rparr>) (new_image ''x.d64'')) = i0"
    by (simp add: open_file_of_def upd_media_def new_image_def i0_def d64_image_def)
  moreover have "device (new_image ''x.d64'') = DEVICE_FS" "media (new_image ''x.d64'') \<noteq> None" "fd (the (media i0)) \<noteq> None"
    by (simp_all add: new_image_def i0_def d64_image_def)
  ultimately have op: "disk_image_open (one_file 175531) image_file None [] 0 (new_image ''x.d64'') ?st = Some (0, i2, ?st)"
    "media (new_image ''x.d64'') \<noteq> None"
    using pr by (simp_all add: disk_image_open_def fsimage_open_def Let_def)
  have t: "itype i2 = D64" "itracks i2 = 35" "read_only i2 = 0" "image_errors i2 = Some (replicate 683 0)"
    by (simp_all add: i2_def i1_def i0_def new_image_def d64_image_def image_errors_def)
  have "\<forall>t s. first_track i2 \<le> t \<and> t \<le> itracks i2 \<and> s < track_sectors i2 t \<longrightarrow> in_image i2 (t, s)" "read_only i2 = 0 \<longrightarrow> dxx_ok i2"
    using opened_image [OF op] t(1) by simp_all
  moreover have "first_track i2 \<le> 35" "16 < track_sectors i2 35" using t(1) by (simp_all add: first_track_def track_sectors_def geom_simps)
  ultimately show ?thesis using op(1) t by auto
qed

text \<open>
  A D71 file with error bytes, of 351062 bytes, is never recognised: the number of blocks is limited
  to one more than the disk has before it serves as the number of error bytes, and reading that
  many error bytes behind that many blocks fails.
\<close>

lemma d71_error_bytes_refused:
  assumes "length (image_file img) = D71_FILE_SIZE_E"
  shows "fst (disk_image_check_for_d71 img) = 0"
proof -
  have "fst (util_fpread (image_file img) (replicate 1367 0) 1367 (256 * 1367)) < 0"
    using assms by (simp add: util_fpread_def Let_def slice_def)
  then show ?thesis
    using assms by (auto simp: disk_image_check_for_d71_def IS_D71_LEN_def read_error_map_def disk_image_get_size_blocks_def
        disk_image_check_min_block_def Let_def split: prod.splits)
qed

end
