(* ===== verification/FsCreate.thy ===== *)
theory FsCreate
  imports FsProbe
begin

text \<open>
  Creating image files (\<^verbatim>\<open>lib/vdrive/fsimage-create.c\<close>). A function returns its result and the
  contents of the file it has written, \<open>None\<close> if the host could not create it (\<open>can_create\<close>). As in
  \<^verbatim>\<open>FsImage\<close>, the host does not fail a write.
\<close>

subsection \<open>Flat images\<close>

definition dxx_size :: "disk_image_type \<Rightarrow> nat option" where
  "dxx_size ty =
    (case ty of
       D64 \<Rightarrow> Some D64_FILE_SIZE_35 | D67 \<Rightarrow> Some D67_FILE_SIZE | D71 \<Rightarrow> Some D71_FILE_SIZE | D81 \<Rightarrow> Some D81_FILE_SIZE
     | D80 \<Rightarrow> Some D80_FILE_SIZE | D82 \<Rightarrow> Some D82_FILE_SIZE | D90 \<Rightarrow> Some D9090_FILE_SIZE
     | G64 \<Rightarrow> Some 0 | G71 \<Rightarrow> Some 0 | P64 \<Rightarrow> Some 0
     | _ \<Rightarrow> None)"

definition fsimage_create_dxx :: "disk_image_type \<Rightarrow> int \<times> byte list" where
  "fsimage_create_dxx ty =
    (case dxx_size ty of
       None \<Rightarrow> (-1, [])
     | Some n \<Rightarrow> (0, concat (replicate (n div 256) (replicate 256 0))))"

subsection \<open>Images of the CMD FD drives\<close>

text \<open>The name and the id of the disk from \<^verbatim>\<open>name,id\<close>.\<close>

definition dxm_name :: "buffer \<Rightarrow> buffer \<times> byte \<times> byte" where
  "dxm_name diskname =
    (let comma = 0x2c; blank = 0x20;
         dname = takeWhile (\<lambda>c. c \<noteq> comma) diskname;
         rest = drop (length dname) diskname in
     if rest = [] then (diskname, blank, blank)
     else
       (if dname = [] then [blank] else dname,
        if length rest > 1 then rest ! 1 else blank,
        if length rest > 2 then rest ! 2 else blank))"

definition set_bytes :: "(nat \<times> byte) list \<Rightarrow> buffer \<Rightarrow> buffer" where
  "set_bytes ws block = fold (\<lambda>(k, x) b. b[k := x]) ws block"

text \<open>The first table entries differ by type: the three values of the last argument are for D1M, D2M and D4M.\<close>

definition by_type :: "disk_image_type \<Rightarrow> 'a \<Rightarrow> 'a \<Rightarrow> 'a \<Rightarrow> 'a" where
  "by_type ty x y z = (if ty = D1M then x else if ty = D2M then y else z)"

text \<open>
  The blocks of the header, of the BAM, of the directory, of the system partition and of the
  partition table; every other block is zero. A name of more than 252 bytes would be written behind
  the block.
\<close>

definition dxm_header_block :: "buffer \<Rightarrow> byte \<Rightarrow> byte \<Rightarrow> buffer" where
  "dxm_header_block dname id0 id1 =
    (let block = set_bytes [(0, 0x01), (1, 0x22), (2, 0x48)] (replicate 256 0);
         block = write_at block 4 dname;
         block = (if length dname < 18 then memset block (4 + length dname) 0xa0 (18 - length dname) else block) in
     set_bytes [(0x16, id0), (0x17, id1), (0x18, 0xa0), (0x19, 0x31), (0x1a, 0x48), (0x1b, 0xa0), (0x1c, 0xa0),
       (0x20, 0x01), (0x21, 0x01)] block)"

definition dxm_bam_block :: "disk_image_type \<Rightarrow> byte \<Rightarrow> byte \<Rightarrow> buffer" where
  "dxm_bam_block ty id0 id1 =
    memset (set_bytes [(2, 0x48), (3, 0xb7), (4, id0), (5, id1), (6, 0xc0), (8, by_type ty 0x0c 0x19 0x32), (0x24, 0x1f)]
      (replicate 256 0)) 0x25 0xff (256 - 0x25)"

definition dxm_system_block :: "disk_image_type \<Rightarrow> buffer" where
  "dxm_system_block ty =
    write_at (set_bytes [(0x00, 0x00), (0x38, 0x00), (0x39, 0x00), (0x70, 0x00), (0x71, by_type ty 0x06 0x0c 0x19),
        (0xa9, by_type ty 0x40 0x80 0x00), (0xa8, 0x00), (0xe2, 0x01), (0xe3, 0x01)]
      (memset (replicate 256 0) 0 0xff 224)) 0xf0
      [0x43, 0x4d, 0x44, 0x20, 0x46, 0x44, 0x20, 0x53, 0x45, 0x52, 0x49, 0x45, 0x53, 0x20, 0x20, 0x20]"

definition dxm_table_block :: "disk_image_type \<Rightarrow> buffer" where
  "dxm_table_block ty =
    (let block = set_bytes [(0x00, 0x01), (0x01, 0x01), (0x02, 0xff)] (replicate 256 0);
         block = write_at block 0x05 [0x53, 0x59, 0x53, 0x54, 0x45, 0x4d];
         block = memset block 0x0b 0xa0 10;
         block = block[0x22 := 0x01];
         block = write_at block 0x25 [0x50, 0x41, 0x52, 0x54, 0x49, 0x54, 0x49, 0x4f, 0x4e, 0x20, 0x31];
         block = memset block 0x30 0xa0 5 in
     set_bytes [(0x3e, by_type ty 0x06 0x0c 0x19), (0x3f, by_type ty 0x00 0x80 0x00)] block)"

definition dxm_block :: "disk_image_type \<Rightarrow> nat \<Rightarrow> buffer \<Rightarrow> byte \<Rightarrow> byte \<Rightarrow> nat \<Rightarrow> buffer" where
  "dxm_block ty partblock dname id0 id1 i =
    (let zero = replicate 256 0 in
     if i = 1 then dxm_header_block dname id0 id1
     else if i = 2 then dxm_bam_block ty id0 id1
     else if i \<ge> 3 \<and> i < 0x22 then replicate 256 0xff
     else if i = 0x22 then zero[1 := 0xff]
     else if i = partblock then dxm_system_block ty
     else if i = partblock + 3 then dxm_table_block ty
     else if i = partblock + 4 then set_bytes [(0, 0x01), (1, 0x02)] zero
     else if i = partblock + 5 then set_bytes [(0, 0x01), (1, 0x03)] zero
     else if i = partblock + 6 then zero[1 := 0xff]
     else zero)"

definition fsimage_create_dxm :: "bool \<Rightarrow> buffer \<Rightarrow> disk_image_type \<Rightarrow> int \<times> byte list option" where
  "fsimage_create_dxm can_create diskname ty =
    (if \<not> can_create then (-1, None)
     else if ty \<notin> {D1M, D2M, D4M} then (-1, Some [])
     else
       let size = by_type ty D1M_FILE_SIZE D2M_FILE_SIZE D4M_FILE_SIZE; partblock = by_type ty 0x0c85 0x1905 0x3205 in
       case dxm_name diskname of
         (dname, id0, id1) \<Rightarrow>
           (0, Some (concat (map (dxm_block ty partblock dname id0 id1) [0..<size div 256]))))"

definition fsimage_create_dhd :: "bool \<Rightarrow> disk_image_type \<Rightarrow> int \<times> byte list option" where
  "fsimage_create_dhd can_create ty =
    (if \<not> can_create then (-1, None) else if ty = DHD then (0, Some []) else (-1, Some []))"

subsection \<open>Images of raw tracks\<close>

abbreviation (input) "NUM_MAX_BYTES_TRACK \<equiv> 7928 :: nat"
abbreviation (input) "SECTOR_GCR_SIZE_WITH_HEADER \<equiv> 335 :: nat"

text \<open>The sectors of a track one after the other, from \<open>pos\<close> on.\<close>

fun encode_sectors :: "disk_image_type \<Rightarrow> nat \<Rightarrow> gcr_header \<Rightarrow> buffer \<Rightarrow> nat list \<Rightarrow> nat \<Rightarrow> byte list \<Rightarrow> byte list" where
  "encode_sectors ty track header rawdata [] pos gcr = gcr"
| "encode_sectors ty track header rawdata (sector # sectors) pos gcr =
    (let gap = disk_image_gap_size ty track; headergap = disk_image_header_gap_size ty track; synclen = disk_image_sync_size ty track;
         old = slice gcr (pos + 15) headergap;
         bytes = gcr_convert_sector_to_GCR rawdata (header\<lparr>gh_sector := of_nat sector\<rparr>) old synclen CBMDOS_FDC_ERR_OK in
     encode_sectors ty track header rawdata sectors (pos + SECTOR_GCR_SIZE_WITH_HEADER + headergap + gap + synclen * 2)
       (write_at gcr pos bytes))"

text \<open>The track number in the headers of a track.\<close>

definition gcr_header_track :: "disk_image_type \<Rightarrow> nat \<Rightarrow> nat" where
  "gcr_header_track ty track =
    (if ty = G71 then
       if track > 77 then track else if track > 42 then track - 7 else if track > 35 then track + 35 else track
     else track)"

definition create_gcr_track :: "disk_image_type \<Rightarrow> nat \<Rightarrow> byte list" where
  "create_gcr_track ty track =
    (let gcr = util_word_to_le_buf (disk_image_raw_track_size ty track mod 65536) @ replicate NUM_MAX_BYTES_TRACK 0x55;
         header = \<lparr>gh_sector = 0, gh_track = of_nat (gcr_header_track ty track), gh_id2 = 0xa0, gh_id1 = 0xa0\<rparr> in
     encode_sectors ty track header (replicate 256 0) [0..<disk_image_sector_per_track ty track] 2 gcr)"

definition fsimage_create_gcr :: "disk_image_type \<Rightarrow> int \<times> byte list" where
  "fsimage_create_gcr ty =
    (if ty \<notin> {G64, G71} then (-1, [])
     else
       let (num_tracks, max_tracks) = (if ty = G64 then (35, 42) else (84, 84));
           header = map of_char (if ty = G64 then ''GCR-1541'' else ''GCR-1571'') @ [0, of_nat (max_tracks * 2)]
             @ util_word_to_le_buf NUM_MAX_BYTES_TRACK;
           zero = replicate (max_tracks * 2 * 4) 0;
           track_p = fold (\<lambda>track p. write_at p (track * 4 * 2)
             (util_dword_to_le_buf (12 + max_tracks * 16 + track * (NUM_MAX_BYTES_TRACK + 2)))) [0..<num_tracks] zero;
           speed_p = fold (\<lambda>track p. write_at p (track * 4 * 2)
             (util_dword_to_le_buf (disk_image_speed_map ty (track + 1)))) [0..<num_tracks] zero in
       (0, header @ track_p @ speed_p @ concat (map (create_gcr_track ty) [1..<Suc num_tracks])))"

text \<open>
  The tracks of a P64 image, whose conversion to pulses is the parameter \<open>write_p64\<close>. The sectors
  are encoded from a buffer that is not initialised, \<open>rawdata\<close>, and the tracks begin with the two
  bytes of a length.
\<close>

definition create_p64_track :: "buffer \<Rightarrow> nat \<Rightarrow> byte list" where
  "create_p64_track rawdata track =
    (let gcr = util_word_to_le_buf (disk_image_raw_track_size P64 track mod 65536) @ replicate (NUM_MAX_BYTES_TRACK - 2) 0x55;
         header = \<lparr>gh_sector = 0, gh_track = of_nat track, gh_id2 = 0xa0, gh_id1 = 0xa0\<rparr> in
     encode_sectors P64 track header rawdata [0..<disk_image_sector_per_track P64 track] 2 gcr)"

definition fsimage_create_p64 :: "((nat \<times> byte list) list \<Rightarrow> byte list option) \<Rightarrow> buffer \<Rightarrow> int \<times> byte list" where
  "fsimage_create_p64 write_p64 rawdata =
    (case write_p64 (map (\<lambda>track. (disk_image_raw_track_size P64 track * 8, create_p64_track rawdata track)) [1..<36]) of
       None \<Rightarrow> (-1, [])
     | Some f \<Rightarrow> (if f = [] then -1 else 0, f))"

subsection \<open>All types\<close>

definition fsimage_create ::
  "((nat \<times> byte list) list \<Rightarrow> byte list option) \<Rightarrow> buffer \<Rightarrow> bool \<Rightarrow> disk_image_type \<Rightarrow> int \<times> byte list option" where
  "fsimage_create write_p64 rawdata can_create ty =
    (if \<not> can_create then (-1, None)
     else
       let (rc, f) =
         (if ty \<in> {D64, D67, D71, D81, D80, D82, D1M, D2M, D4M, D90} then fsimage_create_dxx ty
          else if ty \<in> {G64, G71} then fsimage_create_gcr ty
          else if ty = P64 then fsimage_create_p64 write_p64 rawdata
          else (-1, [])) in
       (rc, Some f))"

subsection \<open>Recognising what was created\<close>

text \<open>
  The extension of a name: \<^verbatim>\<open>.d1m\<close> and the like keep a file from being taken for a D81, which may have
  the size of a D1M.
\<close>

definition d1m_name :: "string \<Rightarrow> bool" where
  "d1m_name name = (case util_get_extension name of None \<Rightarrow> False | Some ext \<Rightarrow> length ext \<ge> 3 \<and> ext ! 1 = CHR ''1'')"

lemma blank_header:
  assumes "take 32 (image_file img) = replicate 32 0"
  shows "disk_image_check_for_p64 p64 img = (0, img)" "disk_image_check_for_gcr h0 id0 img st = Some (0, img, st)"
proof -
  have l: "32 \<le> length (image_file img)" using arg_cong [OF assms, of length] by simp
  have "slice (image_file img) 0 8 = take 8 (take 32 (image_file img))" by (simp add: slice_def)
  then have "slice (image_file img) 0 8 = replicate 8 0" by (simp add: assms)
  moreover have "slice (image_file img) 0 32 = replicate 32 0" using assms by (simp add: slice_def)
  moreover have "hd (replicate 8 (0 :: byte)) \<noteq> hd (map of_char ''P64-1541'')" by simp
  then have "replicate 8 (0 :: byte) \<noteq> map of_char ''P64-1541''" by metis
  ultimately show "disk_image_check_for_p64 p64 img = (0, img)" "disk_image_check_for_gcr h0 id0 img st = Some (0, img, st)"
    using l by (simp_all add: disk_image_check_for_p64_def disk_image_check_for_gcr_def util_fpread_in)
qed

text \<open>The sizes the checks recognise, each only by its own.\<close>

lemma not_d64: "n \<in> {176640, 349696, 819200, 533248, 1066496, 829440, 1658880, 3317760, 7520256} \<Longrightarrow> d64_search n 35 683 = None"
  by (auto simp: d64_search.simps)

lemmas size_checks = disk_image_check_for_d64_def disk_image_check_for_d67_def disk_image_check_for_d71_def
  disk_image_check_for_d81_def disk_image_check_for_d80_def disk_image_check_for_d82_def disk_image_check_for_d1m_def
  disk_image_check_for_d2m_def disk_image_check_for_d4m_def disk_image_check_for_d90_def IS_D67_LEN_def IS_D71_LEN_def
  IS_D81_LEN_def IS_D80_LEN_def IS_D82_LEN_def IS_D1M_LEN_def IS_D2M_LEN_def IS_D4M_LEN_def
  disk_image_get_size_blocks_def disk_image_check_min_block_def d81_tracks_def Let_def

definition standard_size :: "disk_image_type \<Rightarrow> nat" where
  "standard_size ty =
    (case ty of D1M \<Rightarrow> D1M_FILE_SIZE | D2M \<Rightarrow> D2M_FILE_SIZE | D4M \<Rightarrow> D4M_FILE_SIZE | _ \<Rightarrow> the (dxx_size ty))"

lemma probe_standard_size:
  assumes "ty \<in> {D64, D67, D71, D81, D80, D82, D1M, D2M, D4M, D90}" "length (image_file img) = standard_size ty"
    "take 32 (image_file img) = replicate 32 0" "d1m_name (fs_name (the (media img))) = (ty = D1M)"
  shows "\<exists>img'. fsimage_probe p64 h0 id0 img st = Some (0, img', st) \<and> itype img' = ty \<and> media img' = media img"
proof -
  note b = blank_header [OF assms(3)]
  have x: "(case util_get_extension (fs_name (the (media img))) of None \<Rightarrow> False | Some ext \<Rightarrow> 3 \<le> length ext \<and> ext ! 1 = CHR ''1'') = (ty = D1M)"
    using assms(4) by (simp add: d1m_name_def)
  have y: "\<not> (case util_get_extension (fs_name (the (media img))) of None \<Rightarrow> False
      | Some ext \<Rightarrow> 3 \<le> length ext \<and> ext ! 1 = CHR ''8'' \<and> ext ! 2 = CHR ''1'')" if "ty = D1M"
    using x that by (auto split: option.splits)
  have z: "d64_search 174848 35 683 = Some (35, 683, False)" by (simp add: d64_search.simps)
  show ?thesis
    using assms(1,2) y
    by (auto simp: fsimage_probe_def standard_size_def dxx_size_def size_checks x b not_d64 z)
qed

lemma length_blocks: "(\<And>i. i < n \<Longrightarrow> length (g i) = 256) \<Longrightarrow> length (concat (map g [0..<n])) = n * 256"
  by (induction n) auto

lemma length_set_bytes [simp]: "length (set_bytes ws b) = length b"
  by (induction ws arbitrary: b) (auto simp: set_bytes_def)

lemma length_dxm_block:
  assumes "length dname \<le> 252"
  shows "length (dxm_block ty partblock dname id0 id1 i) = 256"
  using assms
  by (simp add: dxm_block_def dxm_header_block_def dxm_bam_block_def dxm_system_block_def dxm_table_block_def Let_def)

lemma created_file:
  assumes "fsimage_create write_p64 rawdata True ty = (0, Some f) \<and> ty \<notin> {G64, G71, P64} \<or>
    fsimage_create_dxm True diskname ty = (0, Some f) \<and> length diskname \<le> 252"
  shows "ty \<in> {D64, D67, D71, D81, D80, D82, D1M, D2M, D4M, D90} \<and> length f = standard_size ty \<and> take 32 f = replicate 32 0"
  using assms
proof
  assume a: "fsimage_create write_p64 rawdata True ty = (0, Some f) \<and> ty \<notin> {G64, G71, P64}"
  then obtain n where ty: "ty \<in> {D64, D67, D71, D81, D80, D82, D90}" "dxx_size ty = Some n" and f: "f = concat (replicate (n div 256) (replicate 256 0))"
    by (auto simp: fsimage_create_def fsimage_create_dxx_def dxx_size_def split: if_splits option.splits disk_image_type.splits)
  have "n div 256 * 256 = n" "0 < n div 256" using ty by (auto simp: dxx_size_def)
  then have l: "length f = n" "n div 256 = Suc (n div 256 - 1)" using f by (simp_all add: length_concat sum_list_replicate)
  have "take 32 f = replicate 32 0" unfolding f by (subst l(2)) simp
  then show ?thesis using ty l(1) by (auto simp: standard_size_def)
next
  assume a: "fsimage_create_dxm True diskname ty = (0, Some f) \<and> length diskname \<le> 252"
  obtain dname id0 id1 where d: "dxm_name diskname = (dname, id0, id1)" by (cases "dxm_name diskname")
  have "length (takeWhile P diskname) \<le> length diskname" for P by (rule length_takeWhile_le)
  then have "length dname \<le> 252" using a d by (auto simp: dxm_name_def Let_def split: if_splits intro: order_trans)
  note b = length_dxm_block [OF this]
  have ty: "ty \<in> {D1M, D2M, D4M}" using a by (auto simp: fsimage_create_dxm_def split: if_splits)
  let ?n = "standard_size ty" and ?p = "by_type ty 0x0c85 0x1905 0x3205 :: nat"
  have "by_type ty D1M_FILE_SIZE D2M_FILE_SIZE D4M_FILE_SIZE = ?n" "?n div 256 * 256 = ?n" "?n div 256 = Suc (?n div 256 - 1)"
    using ty by (auto simp: by_type_def standard_size_def)
  moreover from this have f: "f = concat (map (dxm_block ty ?p dname id0 id1) [0..<?n div 256])"
    using a d ty by (auto simp: fsimage_create_dxm_def Let_def)
  ultimately have l: "length f = ?n" "?n div 256 = Suc (?n div 256 - 1)" using length_blocks [OF b] by simp_all
  have "?p \<noteq> 0" using ty by (auto simp: by_type_def)
  then have z: "dxm_block ty ?p dname id0 id1 0 = replicate 256 0" by (simp add: dxm_block_def)
  have "take 32 f = replicate 32 0"
    unfolding f by (subst l(2), subst upt_conv_Cons) (simp_all add: z)
  then show ?thesis using ty l(1) by auto
qed

lemma opens_standard_size:
  assumes "ty \<in> {D64, D67, D71, D81, D80, D82, D1M, D2M, D4M, D90}" "length f = standard_size ty" "take 32 f = replicate 32 0"
    and "archdep_stat host name = Some False" "zfile_fopen host name True = Some f" "d1m_name name = (ty = D1M)"
    and "device img = DEVICE_FS" "read_only img = 0" "media img = Some m" "fs_name m = name"
  obtains img' where "disk_image_open host write_p64 p64 h0 id0 img st = Some (0, img', st)" "itype img' = ty" "image_file img' = f"
    "read_only img' = 0" "complete_image img'" "dxx_ok img'" "image_errors img' = None"
proof -
  define i1 where "i1 = upd_media (\<lambda>m. m\<lparr>fd := Some f\<rparr>) (upd_media (\<lambda>m. m\<lparr>error_map := None\<rparr>) img)"
  have i1: "image_file i1 = f" "fs_name (the (media i1)) = name" "unprobed i1 f i1" "read_only i1 = 0" "device i1 = DEVICE_FS"
    using assms(7-10) by (simp_all add: i1_def upd_media_def image_file_def image_errors_def unprobed_def)
  obtain img' where p: "fsimage_probe p64 h0 id0 i1 st = Some (0, img', st)" "itype img' = ty" "media img' = media i1"
    using probe_standard_size [of ty i1 p64 h0 id0 st] assms(1-3,6) i1 by auto
  have "open_file_of host (upd_media (\<lambda>m. m\<lparr>error_map := None\<rparr>) img) = i1"
    using assms(5,8-10) by (simp add: open_file_of_def upd_media_def i1_def)
  moreover have "fd (the (media i1)) \<noteq> None" using i1(3) by (simp add: unprobed_def)
  ultimately have op: "disk_image_open host write_p64 p64 h0 id0 img st = Some (0, img', st)"
    using assms(4,7,9,10) p(1) by (simp add: disk_image_open_def fsimage_open_def Let_def upd_media_def)
  have pr: "probed i1 f img'" by (rule probe_result [OF i1(3) p(1)])
  then have c: "complete_image img'" "image_file img' = f" "read_only img' = 0"
    using p(2) assms(1) i1(4) by (auto simp: probed_def)
  have "dxx_ok img'" using pr c(1,3) i1(5) by (intro complete_dxx_ok) (simp_all add: probed_def)
  moreover have "image_errors img' = None" using p(3) assms(9) by (simp add: image_errors_def i1_def upd_media_def)
  ultimately show ?thesis using that [OF op p(2) c(2,3,1)] by simp
qed

subsection \<open>Properties\<close>

text \<open>
  C28. Creating and opening. A flat image file that was created, by either function, opens with the
  type it was created for, if the name has an extension like \<^verbatim>\<open>.d1m\<close> exactly for that type. The image
  can be read and written, and every sector of its tracks reads with status OK as the block of the
  created file at its place.
\<close>

theorem created_image_opens:
  assumes "fsimage_create create_p64 rawdata True ty = (0, Some f) \<and> ty \<notin> {G64, G71, P64} \<or>
    fsimage_create_dxm True diskname ty = (0, Some f) \<and> length diskname \<le> 252"
    and "archdep_stat host name = Some False" "zfile_fopen host name True = Some f" "d1m_name name = (ty = D1M)"
    and "device img = DEVICE_FS" "read_only img = 0" "media img = Some m" "fs_name m = name"
  shows "\<exists>img'. disk_image_open host write_p64 p64 h0 id0 img st = Some (0, img', st) \<and> itype img' = ty \<and> dxx_ok img' \<and>
    (\<forall>t s. first_track img' \<le> t \<and> t \<le> itracks img' \<and> s < track_sectors img' t \<longrightarrow>
      image_read img' (t, s) = (CBMDOS_IPE_OK, slice f (block_of img' t s * 256) 256))"
proof -
  note c = created_file [OF assms(1)]
  obtain img' where o: "disk_image_open host write_p64 p64 h0 id0 img st = Some (0, img', st)" "itype img' = ty" "image_file img' = f"
    "complete_image img'" "dxx_ok img'" "image_errors img' = None"
    using opens_standard_size [OF _ _ _ assms(2-8)] c by metis
  have "image_read img' (t, s) = (CBMDOS_IPE_OK, slice f (block_of img' t s * 256) 256)"
    if "first_track img' \<le> t" "t \<le> itracks img'" "s < track_sectors img' t" for t s
  proof -
    have i: "in_image img' (t, s)" by (rule complete_in_image [OF o(4) that])
    then have "0 \<le> fsimage_check_sector img' t s" by (simp add: in_image_def Let_def)
    then have "block_index img' (t, s) = block_of img' t s"
      using check_sector_value [of img' t s] o(5) by (simp add: block_index_def dxx_ok_def flat_known)
    then show ?thesis using image_read_eq [OF o(5) i, of "replicate 256 0"] o(3,6) by (simp add: image_read_def)
  qed
  then show ?thesis using o by blast
qed

text \<open>A D81 image and an FD image of type D1M.\<close>

theorem created_image_opens_witness:
  "(\<exists>f img'. fsimage_create (\<lambda>_. None) [] True D81 = (0, Some f) \<and>
     disk_image_open \<lparr>archdep_stat = (\<lambda>_. Some False), zfile_fopen = (\<lambda>_ _. Some f)\<rparr> image_file None [] 0 (new_image ''x.d81'')
       \<lparr>header_pos = 0, current_half_track = -1\<rparr> = Some (0, img', \<lparr>header_pos = 0, current_half_track = -1\<rparr>) \<and> itype img' = D81 \<and> dxx_ok img') \<and>
   (\<exists>f img'. fsimage_create_dxm True (map of_char ''disk,id'') D1M = (0, Some f) \<and>
     disk_image_open \<lparr>archdep_stat = (\<lambda>_. Some False), zfile_fopen = (\<lambda>_ _. Some f)\<rparr> image_file None [] 0 (new_image ''x.d1m'')
       \<lparr>header_pos = 0, current_half_track = -1\<rparr> = Some (0, img', \<lparr>header_pos = 0, current_half_track = -1\<rparr>) \<and> itype img' = D1M \<and> dxx_ok img')"
proof -
  let ?st = "\<lparr>header_pos = 0, current_half_track = -1\<rparr>" and ?host = "\<lambda>f. \<lparr>archdep_stat = (\<lambda>_. Some False), zfile_fopen = (\<lambda>_ _. Some f)\<rparr>"
  obtain f where f: "fsimage_create (\<lambda>_. None) [] True D81 = (0, Some f)"
    by (simp add: fsimage_create_def fsimage_create_dxx_def dxx_size_def)
  have "\<exists>g. fsimage_create_dxm True (map of_char ''disk,id'') D1M = (0, Some g)"
    by (cases "dxm_name (map of_char ''disk,id'')") (simp add: fsimage_create_dxm_def Let_def)
  then obtain g where g: "fsimage_create_dxm True (map of_char ''disk,id'') D1M = (0, Some g)" by blast
  have n: "\<not> d1m_name ''x.d81''" "d1m_name ''x.d1m''" by (simp_all add: d1m_name_def util_get_extension_def)
  have i: "device (new_image name) = DEVICE_FS" "read_only (new_image name) = 0"
    "media (new_image name) = Some \<lparr>fd = None, fs_name = name, error_map = None, error_dirty = False, error_len = 0\<rparr>" for name
    by (simp_all add: new_image_def d64_image_def)
  have "\<exists>f img'. fsimage_create (\<lambda>_. None) [] True D81 = (0, Some f) \<and>
     disk_image_open (?host f) image_file None [] 0 (new_image ''x.d81'') ?st = Some (0, img', ?st) \<and> itype img' = D81 \<and> dxx_ok img'"
    using created_image_opens [OF _ _ _ _ i, of "\<lambda>_. None" "[]" D81 f "[]" "?host f" "''x.d81''" "''x.d81''" image_file None "[]" 0 ?st] f n
    by auto
  moreover have "\<exists>f img'. fsimage_create_dxm True (map of_char ''disk,id'') D1M = (0, Some f) \<and>
     disk_image_open (?host f) image_file None [] 0 (new_image ''x.d1m'') ?st = Some (0, img', ?st) \<and> itype img' = D1M \<and> dxx_ok img'"
    using created_image_opens [OF _ _ _ _ i, of "\<lambda>_. None" "[]" D1M g "map of_char ''disk,id''" "?host g" "''x.d1m''" "''x.d1m''" image_file None "[]" 0 ?st] g n
    by auto
  ultimately show ?thesis by blast
qed

end
