(* ===== verification/Charset.thy ===== *)
theory Charset
  imports Prelude
begin

text \<open>
  Character sets (\<^verbatim>\<open>lib/vdrive/charset.c\<close>): file names and commands of the host are ASCII, those of
  the drive PETSCII, listings for the host may be UTF-8. A string is a buffer with a zero byte
  that ends it. The conversions between ASCII and PETSCII work in place; the one to UTF-8 makes
  its string longer and guesses how long.

  The characters \<^verbatim>\<open>isprint\<close> accepts are those of the locale "C", in which the program runs, a
  \<^verbatim>\<open>size_t\<close> has 32 bits.
\<close>

subsection \<open>Characters\<close>

definition petcii_fix_dupes :: "byte \<Rightarrow> byte" where
  "petcii_fix_dupes c =
    (if c \<ge> 0x60 \<and> c \<le> 0x7f then c - 0x60 + 0xc0
     else if c \<ge> 0xe0 then c - 0xe0 + 0xa0
     else c)"

definition isprint :: "byte \<Rightarrow> bool" where
  "isprint c = (0x20 \<le> c \<and> c \<le> 0x7e)"

abbreviation (input) "ASCII_UNMAPPED \<equiv> 0x2e :: byte"
abbreviation (input) "PETSCII_UNMAPPED \<equiv> 0x3f :: byte"

definition charset_p_toascii :: "byte \<Rightarrow> bool \<Rightarrow> byte" where
  "charset_p_toascii c mode =
    (let c = (if mode \<and> c \<le> 0x1f then c + 0x40 else c);
         c = petcii_fix_dupes c in
     if c = 0x0d then 0x0a
     else if c = 0x0a then 0x0d
     else if c \<le> 0x1f then ASCII_UNMAPPED
     else if c = 0xa0 then 0x20
     else if c \<ge> 0xc1 \<and> c \<le> 0xda then c - 0xc1 + 0x41
     else if c \<ge> 0x41 \<and> c \<le> 0x5a then c - 0x41 + 0x61
     else if isprint c then c else ASCII_UNMAPPED)"

definition charset_p_topetscii :: "byte \<Rightarrow> byte" where
  "charset_p_topetscii c =
    (if c = 0x0a then 0x0d
     else if c = 0x0d then 0x0a
     else if c \<le> 0x1f then PETSCII_UNMAPPED
     else if c = 0x60 then 0x27
     else if c \<ge> 0x61 \<and> c \<le> 0x7a then c - 0x61 + 0x41
     else if c \<ge> 0x41 \<and> c \<le> 0x5a then c - 0x41 + 0xc1
     else if c \<ge> 0x7b then PETSCII_UNMAPPED
     else petcii_fix_dupes c)"

definition charset_screencode_to_petscii :: "byte \<Rightarrow> byte" where
  "charset_screencode_to_petscii code =
    (let code = code AND 0x7f in
     if code \<le> 0x1f then code + 0x40
     else if code \<ge> 0x40 \<and> code \<le> 0x5f then code + 0x20
     else code)"

definition charset_petscii_to_screencode :: "byte \<Rightarrow> nat \<Rightarrow> byte" where
  "charset_petscii_to_screencode code reverse_mode =
    (let rev = (if reverse_mode \<noteq> 0 then 0x80 else 0x00) in
     if code \<ge> 0x40 \<and> code \<le> 0x5f then (code - 0x40) OR rev
     else if code \<ge> 0x60 \<and> code \<le> 0x7f then (code - 0x20) OR rev
     else if code \<ge> 0xa0 \<and> code \<le> 0xbf then (code - 0x40) OR rev
     else if code \<ge> 0xc0 \<and> code \<le> 0xfe then (code - 0x80) OR rev
     else if code = 0xff then 0x5e OR rev
     else code OR rev)"

text \<open>The text of a string is what stands before the zero byte.\<close>

definition text_of :: "buffer \<Rightarrow> byte list" where
  "text_of c = takeWhile (\<lambda>b. b \<noteq> 0) c"

definition charset_petscii_to_screencode_line :: "buffer \<Rightarrow> buffer \<times> nat" where
  "charset_petscii_to_screencode_line line =
    (map (\<lambda>c. charset_petscii_to_screencode c 0) (text_of line), length (text_of line))"

subsection \<open>Strings, in place\<close>

definition test_lineend :: "buffer \<Rightarrow> nat \<Rightarrow> nat" where
  "test_lineend c s =
    (if c ! s = 0x0d \<and> c ! (s + 1) = 0x0a then 2
     else if c ! s = 0x0a then 1
     else if c ! s = 0x0d then 1
     else 0)"

datatype charset_mode = CONVERT_TO_PETSCII | CONVERT_TO_ASCII | CONVERT_TO_ASCII_WITH_CTRLCODES | CONVERT_TO_UTF8

text \<open>\<open>s\<close> is the place that is read, \<open>d\<close> the one that is written.\<close>

function topetscii_loop :: "buffer \<Rightarrow> nat \<Rightarrow> nat \<Rightarrow> buffer \<times> nat" where
  "topetscii_loop c s d =
    (if s < length c \<and> c ! s \<noteq> 0 then
       let ch = test_lineend c s in
       if ch \<noteq> 0 then topetscii_loop (c[d := 0x0d]) (s + ch) (d + 1)
       else topetscii_loop (c[d := charset_p_topetscii (c ! s)]) (s + 1) (d + 1)
     else (c, d))"
  by pat_completeness auto
termination by (relation "measure (\<lambda>(c, s, d). length c - s)") auto

function toascii_loop :: "bool \<Rightarrow> buffer \<Rightarrow> nat \<Rightarrow> nat \<Rightarrow> buffer \<times> nat" where
  "toascii_loop mode c s d =
    (if s < length c \<and> c ! s \<noteq> 0 then toascii_loop mode (c[d := charset_p_toascii (c ! s) mode]) (s + 1) (d + 1)
     else (c, d))"
  by pat_completeness auto
termination by (relation "measure (\<lambda>(mode, c, s, d). length c - s)") auto

declare topetscii_loop.simps [simp del] toascii_loop.simps [simp del]

definition charset_petconvstring :: "buffer \<Rightarrow> charset_mode \<Rightarrow> buffer" where
  "charset_petconvstring c mode =
    (case
       (case mode of
          CONVERT_TO_PETSCII \<Rightarrow> topetscii_loop c 0 0
        | CONVERT_TO_ASCII \<Rightarrow> toascii_loop False c 0 0
        | CONVERT_TO_ASCII_WITH_CTRLCODES \<Rightarrow> toascii_loop True c 0 0
        | CONVERT_TO_UTF8 \<Rightarrow> (c, 0)) of
       (c, d) \<Rightarrow> c[d := 0])"

subsection \<open>UTF-8\<close>

definition charset_petscii_to_ucs :: "byte \<Rightarrow> nat" where
  "charset_petscii_to_ucs c =
    (if c = 0x5c then 0xa3
     else if c = 0x5e then 0x2191
     else if c = 0x5f then 0x2190
     else if c = 0xa0 \<or> c = 0xe0 then 0xa0
     else if c = 0xc0 then 0x2500
     else if c = 0xde \<or> c = 0xff then 0x3c0
     else unat (charset_p_toascii c False))"

text \<open>The bytes of a code point, as the code computes them; none beyond the last code point.\<close>

definition utf8_bytes :: "nat \<Rightarrow> byte list" where
  "utf8_bytes code =
    (if code \<le> 0x7f then [of_nat code]
     else if code \<le> 0x7ff then
       [0xc0 OR of_nat (drop_bit 6 code), 0x80 OR of_nat (code AND 0x3f)]
     else if code \<le> 0xffff then
       [0xe0 OR of_nat (drop_bit 12 code), 0x80 OR of_nat (drop_bit 6 code AND 0x3f), 0x80 OR of_nat (code AND 0x3f)]
     else if code \<le> 0x10ffff then
       [0xe0 OR of_nat (drop_bit 18 code), 0x80 OR of_nat (drop_bit 12 code AND 0x3f),
        0x80 OR of_nat (drop_bit 6 code AND 0x3f), 0x80 OR of_nat (code AND 0x3f)]
     else [])"

text \<open>What is written, and the result. A code point that does not fit is only counted.\<close>

definition charset_ucs_to_utf8 :: "nat \<Rightarrow> nat \<Rightarrow> byte list \<times> nat" where
  "charset_ucs_to_utf8 code len =
    (let n = length (utf8_bytes code) in (if len \<ge> n then utf8_bytes code else [], n))"

text \<open>
  Memory of the heap. \<open>junk\<close> is what fresh memory contains. A write that is not inside the
  block overwrites other memory; \<open>None\<close> stands for that.
\<close>

definition lib_malloc :: "(nat \<Rightarrow> byte) \<Rightarrow> nat \<Rightarrow> buffer" where
  "lib_malloc junk n = map junk [0..<n]"

definition lib_realloc :: "(nat \<Rightarrow> byte) \<Rightarrow> buffer \<Rightarrow> nat \<Rightarrow> buffer" where
  "lib_realloc junk buf n = take n buf @ map junk [length buf..<n]"

definition heap_put :: "buffer \<Rightarrow> nat \<Rightarrow> byte list \<Rightarrow> buffer option" where
  "heap_put buf d bs = (if bs = [] then Some buf else if d + length bs \<le> length buf then Some (write_at buf d bs) else None)"

text \<open>One pass of the conversion; the difference of the sizes is unsigned.\<close>

fun utf8_pass :: "byte list \<Rightarrow> nat \<Rightarrow> buffer \<Rightarrow> nat \<Rightarrow> (buffer \<times> nat) option" where
  "utf8_pass [] len buf d = Some (buf, d)"
| "utf8_pass (c # s) len buf d =
    (case charset_ucs_to_utf8 (charset_petscii_to_ucs c) (c_unsigned (int len - int d)) of
       (bs, n) \<Rightarrow> (case heap_put buf d bs of None \<Rightarrow> None | Some buf \<Rightarrow> utf8_pass s len buf (d + n)))"

text \<open>Passes until the string fits.\<close>

partial_function (option) utf8_loop ::
  "(nat \<Rightarrow> byte) \<Rightarrow> byte list \<Rightarrow> nat \<Rightarrow> buffer \<Rightarrow> (buffer \<times> nat) option option" where [code]:
  "utf8_loop junk s len buf =
    (case utf8_pass s len buf 0 of
       None \<Rightarrow> Some None
     | Some (buf, d) \<Rightarrow>
         if d > len then utf8_loop junk s d (lib_realloc junk buf (d + 1)) else Some (Some (buf, d)))"

fun topetscii :: "byte list \<Rightarrow> byte list" where
  "topetscii [] = []"
| "topetscii (c # s) =
    (if c = 0x0d \<and> s \<noteq> [] \<and> hd s = 0x0a then 0x0d # topetscii (tl s)
     else if c = 0x0a \<or> c = 0x0d then 0x0d # topetscii s
     else charset_p_topetscii c # topetscii s)"

text \<open>
  The conversion into a new block. The two other conversions write one character for each or
  less that they read, into a block of the length of the text and one.
\<close>

definition charset_petconv_stralloc :: "(nat \<Rightarrow> byte) \<Rightarrow> buffer \<Rightarrow> charset_mode \<Rightarrow> buffer option option" where
  "charset_petconv_stralloc junk c mode =
    (let s = text_of c; len = length s; buf = lib_malloc junk (len + 1) in
     case mode of
       CONVERT_TO_PETSCII \<Rightarrow> Some (Some (write_at buf 0 (topetscii s @ [0])))
     | CONVERT_TO_ASCII \<Rightarrow> Some (Some (write_at buf 0 (map (\<lambda>c. charset_p_toascii c False) s @ [0])))
     | CONVERT_TO_UTF8 \<Rightarrow>
         (case utf8_loop junk s len buf of
            None \<Rightarrow> None
          | Some None \<Rightarrow> Some None
          | Some (Some (buf, d)) \<Rightarrow> Some (heap_put buf d [0]))
     | CONVERT_TO_ASCII_WITH_CTRLCODES \<Rightarrow> Some (Some (write_at buf 0 [0])))"

subsection \<open>Hexadecimal codes\<close>

definition util_toupper :: "byte \<Rightarrow> byte" where
  "util_toupper c = (if 0x61 \<le> c \<and> c \<le> 0x7a then c - 0x20 else c)"

text \<open>The digits behind the dollar sign: the value, their number and the text behind them.\<close>

fun hex_digits :: "nat \<Rightarrow> byte \<Rightarrow> byte list \<Rightarrow> byte \<times> nat \<times> byte list" where
  "hex_digits digit val [] = (val, digit, [])"
| "hex_digits digit val (x # s) =
    (if digit < 2 then
       let val = push_bit 4 val; c = util_toupper x in
       if c \<ge> 0x41 \<and> c \<le> 0x46 then hex_digits (digit + 1) (val + (c - 0x41)) s
       else if c \<ge> 0x30 \<and> c \<le> 0x39 then hex_digits (digit + 1) (val + (c - 0x30)) s
       else (val, digit + 1, s)
     else (val, digit + 1, x # s))"

definition charset_hexstring_to_byte :: "byte list \<Rightarrow> byte \<times> byte list" where
  "charset_hexstring_to_byte source =
    (case hex_digits 0 0 (tl source) of
       (val, digit, rest) \<Rightarrow> if digit < 2 then (hd source, tl source) else (val, rest))"

lemma hex_digits_length: "hex_digits digit val s = (v, n, rest) \<Longrightarrow> length rest \<le> length s"
proof (induction s arbitrary: digit val)
  case (Cons x s)
  from Cons.prems show ?case by (auto simp: Let_def split: if_splits dest!: Cons.IH)
qed simp

function replace_hexcodes :: "byte list \<Rightarrow> byte list" where
  "replace_hexcodes [] = []"
| "replace_hexcodes (c # s) =
    (if c = 0x24 then (case charset_hexstring_to_byte (c # s) of (b, rest) \<Rightarrow> b # replace_hexcodes rest)
     else c # replace_hexcodes s)"
  by pat_completeness auto
termination
proof (relation "measure length")
  fix c :: byte and s b rest assume "(b, rest) = charset_hexstring_to_byte (c # s)"
  then have "length rest \<le> length s"
    by (auto simp: charset_hexstring_to_byte_def split: prod.splits if_splits dest: hex_digits_length)
  then show "(rest, c # s) \<in> measure length" by simp
qed auto

text \<open>The string ends at the first zero byte the replacement writes, for one who reads it.\<close>

definition charset_replace_hexcodes :: "buffer option \<Rightarrow> byte list" where
  "charset_replace_hexcodes source = replace_hexcodes (case source of None \<Rightarrow> [] | Some c \<Rightarrow> text_of c)"

subsection \<open>Conversions of characters\<close>

text \<open>The conversions on the numbers of the characters.\<close>

lemma unat_shift:
  assumes "unat a \<le> unat (c :: byte)" "unat c - unat a + unat k < 256"
  shows "unat (c - a + k) = unat c - unat a + unat k"
proof -
  have "unat (c - a) = unat c - unat a" using assms(1) by (intro unat_sub) (simp add: word_le_nat_alt)
  then show ?thesis using assms(2) unat_add_lem [of "c - a" k] by simp
qed

lemma byte_eq_numeral: "(c :: byte) = numeral w \<longleftrightarrow> unat c = unat (numeral w :: byte)"
  by (rule word_eq_iff_unsigned)

lemma unat_fix_dupes:
  "unat (petcii_fix_dupes c) = (let n = unat c in
     if 0x60 \<le> n \<and> n \<le> 0x7f then n - 0x60 + 0xc0 else if 0xe0 \<le> n then n - 0xe0 + 0xa0 else n)"
  using byte_less [of c] unat_shift [of "0x60" c "0xc0"] unat_shift [of "0xe0" c "0xa0"]
  by (auto simp: petcii_fix_dupes_def Let_def word_le_nat_alt)

lemma unat_topetscii:
  "unat (charset_p_topetscii c) = (let n = unat c in
     if n = 0x0a then 0x0d else if n = 0x0d then 0x0a else if n \<le> 0x1f then 0x3f else if n = 0x60 then 0x27
     else if 0x61 \<le> n \<and> n \<le> 0x7a then n - 0x61 + 0x41 else if 0x41 \<le> n \<and> n \<le> 0x5a then n - 0x41 + 0xc1
     else if 0x7b \<le> n then 0x3f else n)"
  using byte_less [of c] unat_shift [of "0x61" c "0x41"] unat_shift [of "0x41" c "0xc1"]
  by (auto simp: charset_p_topetscii_def Let_def word_le_nat_alt unat_fix_dupes byte_eq_numeral)

text \<open>Without control codes.\<close>

lemma unat_toascii:
  "unat (charset_p_toascii c False) = (let n = unat (petcii_fix_dupes c) in
     if n = 0x0d then 0x0a else if n = 0x0a then 0x0d else if n \<le> 0x1f then 0x2e else if n = 0xa0 then 0x20
     else if 0xc1 \<le> n \<and> n \<le> 0xda then n - 0xc1 + 0x41 else if 0x41 \<le> n \<and> n \<le> 0x5a then n - 0x41 + 0x61
     else if n \<le> 0x7e then n else 0x2e)"
  using byte_less [of "petcii_fix_dupes c"] unat_shift [of "0xc1" "petcii_fix_dupes c" "0x41"]
    unat_shift [of "0x41" "petcii_fix_dupes c" "0x61"]
  by (auto simp: charset_p_toascii_def Let_def word_le_nat_alt isprint_def byte_eq_numeral)

lemma topetscii_nonzero: "c \<noteq> 0 \<Longrightarrow> charset_p_topetscii c \<noteq> 0"
proof -
  assume "c \<noteq> 0"
  then have "unat c \<noteq> 0" by (simp add: unat_eq_0)
  then have "unat (charset_p_topetscii c) \<noteq> 0" by (auto simp: unat_topetscii Let_def)
  then show ?thesis by auto
qed

lemma toascii_nonzero: "charset_p_toascii c False \<noteq> 0"
proof -
  have "unat (charset_p_toascii c False) \<noteq> 0" by (auto simp: unat_toascii Let_def)
  then show ?thesis by auto
qed

lemma toascii_topetscii:
  assumes "0x20 \<le> c" "c \<le> 0x7a" "c \<noteq> 0x60"
  shows "charset_p_toascii (charset_p_topetscii c) False = c"
proof -
  have "unat (charset_p_toascii (charset_p_topetscii c) False) = unat c"
    using assms unfolding word_le_nat_alt byte_eq_numeral
    by (auto simp: unat_toascii unat_fix_dupes unat_topetscii Let_def)
  then show ?thesis by (rule iffD2 [OF word_eq_iff_unsigned])
qed

lemma topetscii_toascii:
  assumes "0x20 \<le> c \<and> c \<le> 0x5f \<or> 0xc1 \<le> c \<and> c \<le> 0xda"
  shows "charset_p_topetscii (charset_p_toascii c False) = c"
proof -
  have n: "32 \<le> unat c \<and> unat c \<le> 95 \<or> 193 \<le> unat c \<and> unat c \<le> 218" using assms by (simp add: word_le_nat_alt)
  then have "unat (petcii_fix_dupes c) = unat c" by (auto simp: unat_fix_dupes Let_def)
  then have a: "unat (charset_p_toascii c False) =
      (if 193 \<le> unat c then unat c - 128 else if 65 \<le> unat c \<and> unat c \<le> 90 then unat c + 32 else unat c)"
    using n by (auto simp: unat_toascii Let_def)
  have "unat (charset_p_topetscii (charset_p_toascii c False)) = unat c"
  proof (cases "193 \<le> unat c")
    case True
    then have "65 \<le> unat c - 128 \<and> unat c - 128 \<le> 90" using n by linarith
    then show ?thesis using True a unfolding unat_topetscii Let_def by simp
  next
    case False
    then show ?thesis using n a unfolding unat_topetscii Let_def by (cases "65 \<le> unat c \<and> unat c \<le> 90") simp_all
  qed
  then show ?thesis by (rule iffD2 [OF word_eq_iff_unsigned])
qed

subsection \<open>Conversions in place\<close>

lemma list_update_write_at: "d < length c \<Longrightarrow> c[d := x] = write_at c d [x]"
  by (simp add: write_at_def upd_conv_take_nth_drop)

lemma text_of_Cons: "s < length c \<Longrightarrow> text_of (drop s c) = (if c ! s = 0 then [] else c ! s # text_of (drop (Suc s) c))"
  by (simp add: text_of_def Cons_nth_drop_Suc [symmetric])

lemma text_of_short: "0 \<in> set c \<Longrightarrow> length (text_of c) < length c"
  unfolding text_of_def by (induction c) auto

lemma topetscii_length: "length (topetscii s) \<le> length s"
  by (induction s rule: topetscii.induct) (auto simp: neq_Nil_conv)

lemma zero_behind:
  assumes "0 \<in> set (drop s c)" "c ! s \<noteq> 0"
  shows "0 \<in> set (drop (Suc s) c)" "Suc s < length c"
proof -
  have "s < length c" using assms(1) by (cases "s < length c") simp_all
  then show "0 \<in> set (drop (Suc s) c)" using assms by (simp add: Cons_nth_drop_Suc [symmetric])
  then show "Suc s < length c" by (cases "Suc s < length c") simp_all
qed

text \<open>
  What is written never gets ahead of what is read: a step of a loop writes \<open>x\<close> and goes on
  behind \<open>s\<close>, with a conversion \<open>f\<close> that does not make the text longer.
\<close>

lemma convert_step:
  assumes "r = (write_at (c[d := x]) (d + 1) (f (text_of (drop s' (c[d := x])))), d + 1 + length (f (text_of (drop s' (c[d := x])))))"
    "\<And>t. length (f t) \<le> length t" "d \<le> s" "s < s'" "0 \<in> set (drop s' c)"
  shows "r = (write_at c d (x # f (text_of (drop s' c))), d + Suc (length (f (text_of (drop s' c)))))"
proof -
  let ?t = "f (text_of (drop s' c))"
  have dr: "drop s' (c[d := x]) = drop s' c" using assms(3,4) by simp
  have len: "length ?t < length c - s'" using assms(2) [of "text_of (drop s' c)"] text_of_short [OF assms(5)] by simp
  then have "write_at (write_at c d [x]) (d + length [x]) ?t = write_at c d ([x] @ ?t)"
    using assms(3,4) by (intro write_at_append) simp
  then show ?thesis using assms(1,3,4) len unfolding dr by (simp add: list_update_write_at)
qed

lemma topetscii_loop_text:
  assumes "d \<le> s" "0 \<in> set (drop s c)"
  shows "topetscii_loop c s d =
    (write_at c d (topetscii (text_of (drop s c))), d + length (topetscii (text_of (drop s c))))"
  using assms
proof (induction c s d rule: topetscii_loop.induct)
  case (1 c s d)
  have len: "s < length c" using "1.prems"(2) by (cases "s < length c") simp_all
  show ?case
  proof (cases "c ! s = 0")
    case True
    then show ?thesis using len by (subst topetscii_loop.simps) (simp add: text_of_Cons write_at_def)
  next
    case False
    note Z = zero_behind [OF "1.prems"(2) False]
    have line: "topetscii_loop (c[d := 0x0d]) (s + k) (d + 1) =
        (write_at c d (0x0d # topetscii (text_of (drop (s + k) c))), d + Suc (length (topetscii (text_of (drop (s + k) c)))))"
      if k: "test_lineend c s = k" "k \<noteq> 0" "0 \<in> set (drop (s + k) c)" for k
      using k len False "1.prems"(1) by (intro convert_step [where s = s] "1.IH"(1) topetscii_length) simp_all
    have char: "topetscii_loop (c[d := charset_p_topetscii (c ! s)]) (s + 1) (d + 1) =
        (write_at c d (charset_p_topetscii (c ! s) # topetscii (text_of (drop (s + 1) c))),
         d + Suc (length (topetscii (text_of (drop (s + 1) c)))))" if "test_lineend c s = 0"
      using that len False Z "1.prems"(1) by (intro convert_step [where s = s] "1.IH"(2) topetscii_length) simp_all
    have cons: "text_of (drop s c) = c ! s # text_of (drop (Suc s) c)" using len False by (simp add: text_of_Cons)
    have nxt: "text_of (drop (Suc s) c) \<noteq> [] \<and> hd (text_of (drop (Suc s) c)) = 0x0a \<longleftrightarrow> c ! Suc s = 0x0a"
      using Z(2) by (simp add: text_of_Cons)
    consider (crlf) "c ! s = 0x0d" "c ! Suc s = 0x0a" | (nl) "c ! s = 0x0a \<or> c ! s = 0x0d \<and> c ! Suc s \<noteq> 0x0a"
      | (plain) "c ! s \<noteq> 0x0a" "c ! s \<noteq> 0x0d" by blast
    then show ?thesis
    proof cases
      case crlf
      have z: "0 \<in> set (drop (Suc (Suc s)) c)" using zero_behind(1) [OF Z(1)] crlf by simp
      have t: "tl (text_of (drop (Suc s) c)) = text_of (drop (Suc (Suc s)) c)" using Z(2) crlf by (simp add: text_of_Cons)
      have te: "test_lineend c s = 2" using crlf by (simp add: test_lineend_def)
      have "topetscii (text_of (drop s c)) = 0x0d # topetscii (text_of (drop (Suc (Suc s)) c))"
        unfolding cons using crlf nxt t by simp
      then show ?thesis
        using line [OF te] len False te z by (subst topetscii_loop.simps) (simp add: Let_def)
    next
      case nl
      then have te: "test_lineend c s = 1" by (auto simp: test_lineend_def)
      have "topetscii (text_of (drop s c)) = 0x0d # topetscii (text_of (drop (Suc s) c))"
        unfolding cons using nl nxt by auto
      then show ?thesis
        using line [OF te] len False te Z by (subst topetscii_loop.simps) (simp add: Let_def)
    next
      case plain
      then have te: "test_lineend c s = 0" by (simp add: test_lineend_def)
      have "topetscii (text_of (drop s c)) = charset_p_topetscii (c ! s) # topetscii (text_of (drop (Suc s) c))"
        unfolding cons using plain by simp
      then show ?thesis
        using char [OF te] len False te Z by (subst topetscii_loop.simps) (simp add: Let_def)
    qed
  qed
qed

lemma toascii_loop_text:
  assumes "d \<le> s" "0 \<in> set (drop s c)"
  shows "toascii_loop mode c s d =
    (write_at c d (map (\<lambda>b. charset_p_toascii b mode) (text_of (drop s c))), d + length (text_of (drop s c)))"
  using assms
proof (induction mode c s d rule: toascii_loop.induct)
  case (1 mode c s d)
  have len: "s < length c" using "1.prems"(2) by (cases "s < length c") simp_all
  show ?case
  proof (cases "c ! s = 0")
    case True
    then show ?thesis using len by (subst toascii_loop.simps) (simp add: text_of_Cons write_at_def)
  next
    case False
    note Z = zero_behind [OF "1.prems"(2) False]
    let ?f = "map (\<lambda>b. charset_p_toascii b mode)"
    have "toascii_loop mode (c[d := charset_p_toascii (c ! s) mode]) (s + 1) (d + 1) =
        (write_at c d (charset_p_toascii (c ! s) mode # ?f (text_of (drop (s + 1) c))),
         d + Suc (length (?f (text_of (drop (s + 1) c)))))"
      using len False Z "1.prems"(1) "1.IH" by (intro convert_step [where f = ?f and s = s]) simp_all
    then show ?thesis using len False by (subst toascii_loop.simps) (simp add: text_of_Cons)
  qed
qed

lemma petconvstring_text:
  assumes "0 \<in> set c"
  shows "charset_petconvstring c CONVERT_TO_PETSCII = write_at c 0 (topetscii (text_of c) @ [0])"
    "charset_petconvstring c CONVERT_TO_ASCII = write_at c 0 (map (\<lambda>b. charset_p_toascii b False) (text_of c) @ [0])"
proof -
  have z: "(write_at c 0 t)[length t := 0] = write_at c 0 (t @ [0])" if "length t < length c" for t
    using that by (simp add: list_update_write_at write_at_append [of 0, simplified])
  note l = text_of_short [OF assms]
  show "charset_petconvstring c CONVERT_TO_PETSCII = write_at c 0 (topetscii (text_of c) @ [0])"
    using z topetscii_loop_text [of 0 0 c] assms l topetscii_length [of "text_of c"] by (simp add: charset_petconvstring_def)
  show "charset_petconvstring c CONVERT_TO_ASCII = write_at c 0 (map (\<lambda>b. charset_p_toascii b False) (text_of c) @ [0])"
    using z [of "map (\<lambda>b. charset_p_toascii b False) (text_of c)"] toascii_loop_text [of 0 0 c False] assms l
    by (simp add: charset_petconvstring_def)
qed

lemma text_of_written: "0 \<notin> set t \<Longrightarrow> text_of (write_at c 0 (t @ [0])) = t"
  unfolding text_of_def write_at_def by (simp, subst takeWhile_append2) auto

lemma topetscii_plain: "0x0a \<notin> set t \<Longrightarrow> 0x0d \<notin> set t \<Longrightarrow> topetscii t = map charset_p_topetscii t"
  by (induction t) auto

text \<open>
  A file name of the drive, converted to one of the host and back. A name is made of the
  characters that are printed unshifted and the shifted letters.
\<close>

theorem name_to_host_and_back:
  assumes "0 \<in> set c" "\<forall>b \<in> set (text_of c). 0x20 \<le> b \<and> b \<le> 0x5f \<or> 0xc1 \<le> b \<and> b \<le> 0xda"
  shows "text_of (charset_petconvstring (charset_petconvstring c CONVERT_TO_ASCII) CONVERT_TO_PETSCII) = text_of c"
proof -
  let ?a = "map (\<lambda>b. charset_p_toascii b False) (text_of c)"
  let ?c = "write_at c 0 (?a @ [0])"
  have z: "0 \<notin> set ?a" using toascii_nonzero by auto
  have c: "0 \<in> set ?c" by (simp add: write_at_def)
  have inv: "charset_p_topetscii (charset_p_toascii b False) = b" "charset_p_toascii b False \<notin> {0x0a, 0x0d}"
    if "b \<in> set (text_of c)" for b
  proof -
    show "charset_p_topetscii (charset_p_toascii b False) = b" using assms(2) that by (intro topetscii_toascii) blast
    moreover have "b \<noteq> 0x0d" "b \<noteq> 0x0a" using assms(2) that by auto
    ultimately show "charset_p_toascii b False \<notin> {0x0a, 0x0d}" by (auto simp: charset_p_topetscii_def)
  qed
  then have "topetscii ?a = map charset_p_topetscii ?a" by (intro topetscii_plain) force+
  also have "\<dots> = text_of c" using inv(1) by (simp add: map_idI)
  finally have "topetscii ?a = text_of c" .
  moreover have "0 \<notin> set (text_of c)" by (auto simp: text_of_def dest: set_takeWhileD)
  ultimately show ?thesis
    using petconvstring_text(2) [OF assms(1)] petconvstring_text(1) [OF c] z by (simp add: text_of_written)
qed

subsection \<open>The conversion to UTF-8\<close>

definition utf8_of :: "byte list \<Rightarrow> byte list" where
  "utf8_of t = concat (map (\<lambda>c. utf8_bytes (charset_petscii_to_ucs c)) t)"

lemma utf8_of_simps [simp]:
  "utf8_of [] = []" "utf8_of (c # t) = utf8_bytes (charset_petscii_to_ucs c) @ utf8_of t"
  by (simp_all add: utf8_of_def)

lemma ucs_bound: "charset_petscii_to_ucs c \<le> 0xffff"
  using byte_less [of "charset_p_toascii c False"] by (auto simp: charset_petscii_to_ucs_def)

lemma utf8_size: "1 \<le> length (utf8_bytes (charset_petscii_to_ucs c))" "length (utf8_bytes (charset_petscii_to_ucs c)) \<le> 3"
  using ucs_bound [of c] by (auto simp: utf8_bytes_def)

text \<open>A character that the block has room for, or that is only counted.\<close>

lemma pass_step:
  assumes "d \<le> len" "len < length buf" "len < 2 ^ 32"
  shows "utf8_pass (c # t) len buf d =
    (let u = utf8_bytes (charset_petscii_to_ucs c) in
     utf8_pass t len (if d + length u \<le> len then write_at buf d u else buf) (d + length u))"
proof -
  have "int len - int d = int (len - d)" using assms(1) by simp
  then have "c_unsigned (int len - int d) = len - d" using assms(3) by (simp only: c_unsigned_nat)
  then show ?thesis
    using assms(1,2) utf8_size(1) [of c] by (auto simp: charset_ucs_to_utf8_def heap_put_def Let_def)
qed

text \<open>The end of the block is passed with characters left: the difference wraps around.\<close>

lemma pass_overrun:
  assumes "len < d" "length buf = len + 1" "d + 3 \<le> 2 ^ 32"
  shows "utf8_pass (c # t) len buf d = None"
proof -
  let ?u = "utf8_bytes (charset_petscii_to_ucs c)"
  have "(int len - int d) mod 2 ^ 32 = (int len - int d + 2 ^ 32) mod 2 ^ 32" by simp
  also have "\<dots> = int len - int d + 2 ^ 32" using assms(1,3) by (intro mod_pos_pos_trivial) simp_all
  finally have "c_unsigned (int len - int d) = len + 2 ^ 32 - d" using assms(1,3) by (simp add: c_unsigned_def)
  moreover have le: "length ?u \<le> len + 2 ^ 32 - d" using utf8_size(2) [of c] assms(3) by linarith
  ultimately have "charset_ucs_to_utf8 (charset_petscii_to_ucs c) (c_unsigned (int len - int d)) = (?u, length ?u)"
    using le by (simp add: charset_ucs_to_utf8_def Let_def)
  moreover have "heap_put buf d ?u = None" using assms(1,2) utf8_size(1) [of c] by (auto simp: heap_put_def)
  ultimately show ?thesis by simp
qed

lemma pass_fits:
  assumes "d + length (utf8_of t) \<le> len" "len < length buf" "len < 2 ^ 32"
  shows "utf8_pass t len buf d = Some (write_at buf d (utf8_of t), d + length (utf8_of t))"
  using assms
proof (induction t arbitrary: buf d)
  case Nil
  then show ?case by (simp add: write_at_def)
next
  case (Cons c t)
  let ?u = "utf8_bytes (charset_petscii_to_ucs c)"
  have "utf8_pass (c # t) len buf d = utf8_pass t len (write_at buf d ?u) (d + length ?u)"
    using Cons.prems by (subst pass_step) (simp_all add: Let_def)
  also have "\<dots> = Some (write_at (write_at buf d ?u) (d + length ?u) (utf8_of t), d + length ?u + length (utf8_of t))"
    using Cons.prems by (intro Cons.IH) simp_all
  finally show ?case using Cons.prems by (simp add: write_at_append)
qed

lemma pass_last:
  assumes "d + length (utf8_of (butlast t)) \<le> len" "len < length buf" "len < 2 ^ 32"
  shows "\<exists>buf'. length buf' = length buf \<and> utf8_pass t len buf d = Some (buf', d + length (utf8_of t))"
  using assms
proof (induction t arbitrary: buf d)
  case (Cons c t)
  let ?u = "utf8_bytes (charset_petscii_to_ucs c)"
  let ?buf = "if d + length ?u \<le> len then write_at buf d ?u else buf"
  have b: "length ?buf = length buf" using Cons.prems(2) by auto
  have s: "utf8_pass (c # t) len buf d = utf8_pass t len ?buf (d + length ?u)"
    using Cons.prems by (subst pass_step) (simp_all add: Let_def)
  show ?case
  proof (cases "t = []")
    case False
    then show ?thesis using s b Cons.prems Cons.IH [of "d + length ?u" ?buf] by (simp add: add.assoc)
  qed (use s b in simp)
qed simp

lemma pass_fails:
  assumes "len < d + length (utf8_of (butlast t))" "t \<noteq> []" "length buf = len + 1" "d + length (utf8_of t) + 3 \<le> 2 ^ 32" "len < 2 ^ 32"
  shows "utf8_pass t len buf d = None"
  using assms
proof (induction t arbitrary: buf d)
  case (Cons c t)
  let ?u = "utf8_bytes (charset_petscii_to_ucs c)"
  show ?case
  proof (cases "len < d")
    case True
    then show ?thesis using Cons.prems by (intro pass_overrun) simp_all
  next
    case False
    let ?buf = "if d + length ?u \<le> len then write_at buf d ?u else buf"
    have b: "length ?buf = len + 1" using Cons.prems(3) by auto
    have t: "t \<noteq> []" using Cons.prems(1) False by auto
    have "utf8_pass t len ?buf (d + length ?u) = None"
      using Cons.prems t b by (intro Cons.IH) (simp_all add: add.assoc)
    then show ?thesis using False Cons.prems by (subst pass_step) (simp_all add: Let_def)
  qed
qed simp

lemma utf8_of_length: "length (utf8_of t) \<le> 3 * length t"
proof (induction t)
  case (Cons c t)
  then show ?case using utf8_size(2) [of c] by simp
qed simp

lemma utf8_of_butlast: "length (utf8_of (butlast t)) \<le> length (utf8_of t)"
  by (induction t) auto

lemma malloc_length [simp]: "length (lib_malloc junk n) = n" "length buf \<le> n \<Longrightarrow> length (lib_realloc junk buf n) = n"
  by (simp_all add: lib_malloc_def lib_realloc_def)

text \<open>A pass over a block with room for all.\<close>

lemma loop_fits:
  assumes "length (utf8_of t) \<le> len" "length buf = len + 1" "len < 2 ^ 32"
  shows "utf8_loop junk t len buf = Some (Some (write_at buf 0 (utf8_of t), length (utf8_of t)))"
  using pass_fits [of 0 t len buf] assms by (subst utf8_loop.simps) simp

lemma heap_put_end:
  assumes "length t < length buf"
  shows "heap_put (write_at buf 0 t) (length t) [0] = Some (t @ 0 # drop (Suc (length t)) buf)"
  using assms by (simp add: heap_put_def write_at_def)

text \<open>
  C23. Converting PETSCII text to UTF-8. If the UTF-8 form without its last character is not
  longer than the text, the result is the UTF-8 form; otherwise the conversion writes behind
  its block of memory, as it does for three pound signs. In either case it ends.
\<close>

theorem petscii_to_utf8:
  assumes "length (text_of c) < 2 ^ 30"
  shows "if length (utf8_of (butlast (text_of c))) \<le> length (text_of c)
    then \<exists>rest. charset_petconv_stralloc junk c CONVERT_TO_UTF8 = Some (Some (utf8_of (text_of c) @ 0 # rest))
    else charset_petconv_stralloc junk c CONVERT_TO_UTF8 = Some None"
proof -
  let ?t = "text_of c" let ?n = "length (text_of c)" let ?m = "length (utf8_of (text_of c))"
  let ?buf = "lib_malloc junk (?n + 1)"
  have m: "?m < 2 ^ 32 - 4" "?n < 2 ^ 32" using utf8_of_length [of ?t] assms by simp_all
  consider (fits) "?m \<le> ?n" | (again) "?n < ?m" "length (utf8_of (butlast ?t)) \<le> ?n" | (fails) "?n < length (utf8_of (butlast ?t))"
    by linarith
  then show ?thesis
  proof cases
    case fits
    then have "charset_petconv_stralloc junk c CONVERT_TO_UTF8 = Some (Some (utf8_of ?t @ 0 # drop (Suc ?m) ?buf))"
      using loop_fits [OF fits, of ?buf junk] m heap_put_end [of "utf8_of ?t" ?buf]
      by (simp add: charset_petconv_stralloc_def Let_def)
    then show ?thesis using fits utf8_of_butlast [of ?t] by simp
  next
    case again
    obtain buf' where b: "length buf' = ?n + 1" "utf8_pass ?t ?n ?buf 0 = Some (buf', ?m)"
      using pass_last [of 0 ?t ?n ?buf] again m by auto
    let ?buf2 = "lib_realloc junk buf' (?m + 1)"
    have l: "length ?buf2 = ?m + 1" using b(1) again(1) by simp
    have "utf8_loop junk ?t ?n ?buf = utf8_loop junk ?t ?m ?buf2"
      using b again(1) by (subst utf8_loop.simps) simp
    then have "charset_petconv_stralloc junk c CONVERT_TO_UTF8 = Some (Some (utf8_of ?t @ 0 # drop (Suc ?m) ?buf2))"
      using loop_fits [of ?t ?m ?buf2 junk] l m heap_put_end [of "utf8_of ?t" ?buf2]
      by (simp add: charset_petconv_stralloc_def Let_def)
    then show ?thesis using again(2) by simp
  next
    case fails
    then have "?t \<noteq> []" by auto
    then have "utf8_pass ?t ?n ?buf 0 = None" using pass_fails [of ?n 0 ?t ?buf] fails m by simp
    then have "utf8_loop junk ?t ?n ?buf = Some None" by (subst utf8_loop.simps) simp
    then show ?thesis using fails by (simp add: charset_petconv_stralloc_def Let_def)
  qed
qed

theorem petscii_to_utf8_witness:
  "charset_petconv_stralloc (\<lambda>i. 0) [0x5c, 0x5c, 0x5c, 0] CONVERT_TO_UTF8 = Some None \<and>
   (\<exists>rest. charset_petconv_stralloc (\<lambda>i. 0) [0xc1, 0x5c, 0] CONVERT_TO_UTF8 = Some (Some ([0x41, 0xc2, 0xa3, 0x00] @ rest)))"
proof -
  have u: "utf8_bytes (charset_petscii_to_ucs 0x5c) = [0xc2, 0xa3]" "utf8_bytes (charset_petscii_to_ucs 0xc1) = [0x41]"
    by code_simp+
  show ?thesis
    using petscii_to_utf8 [of "[0x5c, 0x5c, 0x5c, 0]" "\<lambda>i. 0"] petscii_to_utf8 [of "[0xc1, 0x5c, 0]" "\<lambda>i. 0"]
    by (simp add: text_of_def u)
qed

end
