(* ===== verification/ImageContents.thy ===== *)
theory ImageContents
  imports DirSearch Charset
begin

text \<open>
  The directory of an image as the host lists it (\<^verbatim>\<open>lib/vdrive/diskcontents-block.c\<close>,
  \<^verbatim>\<open>imagecontents.c\<close>): reading it from the drive, with a check for links that form a cycle, and the
  lines of the listing. The doubly linked list of the entries is a list here; the list of the
  sectors that were read, a static variable, is empty when reading begins and freed when it ends.
\<close>

subsection \<open>The contents of an image\<close>

record image_contents_file_list =
  file_name :: buffer
  file_type :: buffer
  file_size :: nat

record image_contents =
  contents_name :: buffer
  contents_id :: buffer
  blocks_free :: int
  contents_partition :: int
  file_list :: "image_contents_file_list list"

abbreviation (input) "IMAGE_CONTENTS_NAME_LEN \<equiv> 16 :: nat"
abbreviation (input) "IMAGE_CONTENTS_ID_LEN \<equiv> 5 :: nat"
abbreviation (input) "IMAGE_CONTENTS_FILE_NAME_LEN \<equiv> 16 :: nat"

definition image_contents_new :: image_contents where
  "image_contents_new = \<lparr>contents_name = replicate 25 0, contents_id = replicate 6 0, blocks_free = -1,
     contents_partition = 0, file_list = []\<rparr>"

text \<open>Whether a sector is in the list already, and the list with it.\<close>

definition circular_check :: "(nat \<times> nat) list \<Rightarrow> nat \<Rightarrow> nat \<Rightarrow> nat \<times> (nat \<times> nat) list" where
  "circular_check block_list t s =
    (if (t, s) \<in> set block_list then (1, block_list) else (0, block_list @ [(t, s)]))"

definition contents_file :: "buffer \<Rightarrow> image_contents_file_list" where
  "contents_file p =
    \<lparr>file_name = slice p SLOT_NAME_OFFSET IMAGE_CONTENTS_FILE_NAME_LEN @ [0],
     file_type =
       [asc (if p ! SLOT_TYPE_OFFSET AND 0x80 \<noteq> 0 then CHR '' '' else CHR ''*'')] @
       map of_char (cbmdos_filetype_get (unat (p ! SLOT_TYPE_OFFSET AND 0x07))) @
       [asc (if p ! SLOT_TYPE_OFFSET AND 0x40 \<noteq> 0 then CHR ''<'' else CHR '' ''), 0],
     file_size = unat (p ! SLOT_NR_BLOCKS) + 256 * unat (p ! (SLOT_NR_BLOCKS + 1))\<rparr>"

definition sector_files :: "buffer \<Rightarrow> image_contents_file_list list" where
  "sector_files buf =
    map contents_file (filter (\<lambda>p. p ! SLOT_TYPE_OFFSET \<noteq> 0) (map (\<lambda>j. slice buf (j * 32) 32) [0..<8]))"

partial_function (option) contents_loop ::
  "vdrive \<Rightarrow> buffer \<Rightarrow> nat \<Rightarrow> nat \<Rightarrow> (nat \<times> nat) list \<Rightarrow> image_contents_file_list list \<Rightarrow>
   (vdrive \<times> image_contents_file_list list) option" where [code]:
  "contents_loop v buf t s block_list files =
    (case vdrive_read_sector v buf t s of
       (retval, v, buf) \<Rightarrow>
         if retval \<noteq> 0 then Some (v, files)
         else case circular_check block_list t s of
           (r, block_list) \<Rightarrow>
             if r \<noteq> 0 then Some (v, files)
             else
               let files = files @ sector_files buf in
               if buf ! 0 = 0 then Some (v, files)
               else contents_loop v buf (unat (buf ! 0)) (unat (buf ! 1)) block_list files)"

text \<open>\<open>buf\<close> is the uninitialised buffer. The number of a partition is not used.\<close>

definition diskcontents_block_read ::
  "buffer \<Rightarrow> vdrive option \<Rightarrow> int \<Rightarrow> (image_contents option \<times> vdrive option) option" where
  "diskcontents_block_read buf vp part =
    (case vp of
       None \<Rightarrow> Some (None, None)
     | Some v \<Rightarrow>
         (case vdrive_bam_read_bam v of
            (retval, v) \<Rightarrow>
              if retval \<noteq> 0 \<or> bam_size v = 0 then Some (None, Some v)
              else
                let contents = image_contents_new;
                    b = the (bam v);
                    contents = contents\<lparr>
                      contents_name := (write_at (contents_name contents) 0 (slice b (bam_name v) IMAGE_CONTENTS_NAME_LEN))
                        [IMAGE_CONTENTS_NAME_LEN := 0],
                      contents_id := (write_at (contents_id contents) 0 (slice b (bam_id v) IMAGE_CONTENTS_ID_LEN))
                        [IMAGE_CONTENTS_ID_LEN := 0]\<rparr> in
                case vdrive_bam_free_block_count v of
                  (n, v) \<Rightarrow>
                    let contents = contents\<lparr>blocks_free := c_int n, contents_partition := selected_part v\<rparr> in
                    map_option (\<lambda>(v, files). (Some (contents\<lparr>file_list := files\<rparr>), Some v))
                      (contents_loop v buf (Dir_Track v) (Dir_Sector v) [] [])))"

subsection \<open>Lines of the listing\<close>

text \<open>
  The name in quotes. The array is static and has 19 bytes, of which the last stays zero; \<open>a\<close>
  counts the shifted spaces.
\<close>

fun print_name_loop :: "buffer \<Rightarrow> nat list \<Rightarrow> nat \<Rightarrow> buffer \<Rightarrow> buffer \<times> nat" where
  "print_name_loop name [] a out = (out, a)"
| "print_name_loop name (i # is') a out =
    (if name ! i = 0 then print_name_loop name is' a (out[i + 1 := 0x3f])
     else if name ! i = 0xa0 then print_name_loop name is' (a + 1) (out[i + 1 := (if a + 1 = 1 then 0x22 else 0x20)])
     else print_name_loop name is' a (out[i + 1 := name ! i]))"

definition image_contents_get_filename :: "image_contents_file_list \<Rightarrow> buffer" where
  "image_contents_get_filename p =
    (case print_name_loop (file_name p) [0..<IMAGE_CONTENTS_FILE_NAME_LEN] 0 ((replicate 18 0x20 @ [0])[0 := 0x22]) of
       (out, a) \<Rightarrow> if a = 0 then out[IMAGE_CONTENTS_FILE_NAME_LEN + 1 := 0x22] else out)"

text \<open>A string in the character set of the listing; the value \<open>Some None\<close> is a write behind the block.\<close>

definition out_string :: "(nat \<Rightarrow> byte) \<Rightarrow> byte list \<Rightarrow> charset_mode \<Rightarrow> buffer option option" where
  "out_string junk str out_charset =
    (if out_charset = CONVERT_TO_PETSCII then Some (Some (str @ [0]))
     else charset_petconv_stralloc junk (str @ [0]) out_charset)"

definition signed_decimal :: "int \<Rightarrow> string" where
  "signed_decimal i = (if i < 0 then ''-'' @ decimal (nat (- i)) else decimal (nat i))"

definition image_contents_to_string :: "(nat \<Rightarrow> byte) \<Rightarrow> image_contents \<Rightarrow> charset_mode \<Rightarrow> buffer option option" where
  "image_contents_to_string junk contents out_charset =
    out_string junk (map of_char (signed_decimal (contents_partition contents)) @ [0x20, 0x22] @
      text_of (contents_name contents) @ [0x22, 0x20] @ text_of (contents_id contents)) out_charset"

definition image_contents_filename_to_string ::
  "(nat \<Rightarrow> byte) \<Rightarrow> image_contents_file_list \<Rightarrow> charset_mode \<Rightarrow> buffer option option" where
  "image_contents_filename_to_string junk p out_charset = out_string junk (text_of (image_contents_get_filename p)) out_charset"

definition image_contents_filetype_to_string ::
  "(nat \<Rightarrow> byte) \<Rightarrow> image_contents_file_list \<Rightarrow> charset_mode \<Rightarrow> buffer option option" where
  "image_contents_filetype_to_string junk p out_charset = out_string junk (text_of (file_type p)) out_charset"

definition left_decimal :: "nat \<Rightarrow> nat \<Rightarrow> byte list" where
  "left_decimal width n = (let d = map of_char (decimal n) in d @ replicate (width - length d) 0x20)"

definition image_contents_file_to_string ::
  "(nat \<Rightarrow> byte) \<Rightarrow> image_contents_file_list \<Rightarrow> charset_mode \<Rightarrow> buffer option option" where
  "image_contents_file_to_string junk p out_charset =
    out_string junk (left_decimal 4 (file_size p) @ [0x20] @ text_of (image_contents_get_filename p) @ text_of (file_type p))
      out_charset"

definition image_contents_filename_by_number :: "image_contents option \<Rightarrow> nat \<Rightarrow> buffer option" where
  "image_contents_filename_by_number contents file_index =
    (case contents of
       None \<Rightarrow> None
     | Some c \<Rightarrow>
         if file_index \<noteq> 0 \<and> file_index - 1 < length (file_list c)
         then Some (text_of (file_name (file_list c ! (file_index - 1))) @ [0]) else None)"

subsection \<open>The listing ends\<close>

text \<open>Links are bytes, so at most 65536 sectors follow the first.\<close>

definition unread :: "(nat \<times> nat) list \<Rightarrow> (nat \<times> nat) set" where
  "unread block_list = {..<256} \<times> {..<256} - set block_list"

lemma contents_loop_ends:
  assumes "t < 256" "s < 256"
  shows "\<exists>r. contents_loop v buf t s block_list files = Some r"
  using assms
proof (induction "card (unread block_list)" arbitrary: v buf t s block_list files rule: less_induct)
  case less
  obtain retval w b where rd: "vdrive_read_sector v buf t s = (retval, w, b)" by (metis prod_cases3)
  show ?case
  proof (cases "(t, s) \<in> set block_list")
    case True
    then show ?thesis using rd by (subst contents_loop.simps) (simp add: circular_check_def)
  next
    case False
    have u: "unread (block_list @ [(t, s)]) = unread block_list - {(t, s)}" by (auto simp: unread_def)
    have "(t, s) \<in> unread block_list" "finite (unread block_list)" using less.prems False by (auto simp: unread_def)
    then have "card (unread (block_list @ [(t, s)])) < card (unread block_list)" unfolding u by (intro card_Diff1_less)
    then have "\<exists>r. contents_loop w b (unat (b ! 0)) (unat (b ! 1)) (block_list @ [(t, s)]) (files @ sector_files b) = Some r"
      by (rule less.hyps) (simp_all add: byte_less)
    then show ?thesis using rd False by (subst contents_loop.simps) (simp add: circular_check_def Let_def)
  qed
qed

lemma contents_read_ends: "\<exists>r. contents_loop v buf t s block_list files = Some r"
proof -
  obtain retval w b where rd: "vdrive_read_sector v buf t s = (retval, w, b)" by (metis prod_cases3)
  have "\<exists>r. contents_loop w b (unat (b ! 0)) (unat (b ! 1)) bl fs = Some r" for bl fs
    by (rule contents_loop_ends) (simp_all add: byte_less)
  then show ?thesis using rd by (subst contents_loop.simps) (auto simp: circular_check_def Let_def)
qed

subsection \<open>What is listed\<close>


subsection \<open>The number of free blocks\<close>









subsection \<open>Properties\<close>

text \<open>
  C2. Listing a disk for the host always ends, whatever the drive, the BAM and the links of the
  directory are: a directory whose links form a cycle stops the listing, as it does not stop the
  search of the drive.
\<close>

theorem host_listing_returns: "\<exists>r. diskcontents_block_read buf vp part = Some r"
proof -
  have "\<exists>a b. contents_loop v buf t s [] [] = Some (a, b)" for v t s
    using contents_read_ends [of v buf t s "[]" "[]"] by auto
  then show ?thesis
    by (auto simp: diskcontents_block_read_def Let_def split: option.split prod.split)
qed










end
