(* ===== verification/VdriveInternal.thy ===== *)
theory VdriveInternal
  imports Command FsCreate ImageContents
begin

text \<open>
  A drive of the library's own (\<^verbatim>\<open>lib/vdrive/vdrive-internal.c\<close>, detaching and shutting down in
  \<^verbatim>\<open>vdrive.c\<close>, \<^verbatim>\<open>diskcontents.c\<close>, \<^verbatim>\<open>cbmimage.c\<close>): it opens an image file of the host, lists or formats it,
  and closes it. Such a drive has unit 100 and one image, the object 0 of its heap.

  The record \<open>internals\<close> collects the host's files, what a P64 file is read and written with, what
  uninitialised memory holds, and the static variables of the raw track files.
\<close>

subsection \<open>Detaching an image\<close>

definition without_image :: "vdrive \<Rightarrow> vdrive" where
  "without_image v = v\<lparr>bam := None, image_ptr := None, image_mode := -1, current_part := -1, selected_part := -1\<rparr>"

definition vdrive_detach_image :: "ambient \<Rightarrow> nat option \<Rightarrow> nat \<Rightarrow> vdrive \<Rightarrow> vdrive option" where
  "vdrive_detach_image u img nr v =
    (if img = None then Some v
     else if nr \<ge> 1 then Some v
     else map_option (\<lambda>v. v\<lparr>images := (images v)[nr := None]\<rparr>)
       (if haspt v then map_option without_image (vdrive_close_all_channels u v)
        else map_option (\<lambda>v. if current_part v = int nr then without_image v else v)
          (vdrive_close_all_channels_partition u v (int nr))))"

text \<open>Afterwards no sector can be read or written, as if no disk had been inserted.\<close>

lemma detached_refuses:
  assumes "vdrive_detach_image u (Some i) 0 v = Some w" "haspt v"
  shows "vdrive_read_sector w buf t s = (CBMDOS_IPE_NOT_READY, w, buf)"
    "vdrive_write_sector w buf t s = (CBMDOS_IPE_NOT_READY, w)"
proof -
  obtain x where w: "w = (without_image x)\<lparr>images := (images x)[0 := None]\<rparr>"
    using assms by (auto simp: vdrive_detach_image_def without_image_def)
  show "vdrive_read_sector w buf t s = (CBMDOS_IPE_NOT_READY, w, buf)"
    "vdrive_write_sector w buf t s = (CBMDOS_IPE_NOT_READY, w)"
    by (simp_all add: w without_image_def vdrive_read_sector_def vdrive_write_sector_def update_image_mode_def)
qed

definition vdrive_get_image :: "vdrive option \<Rightarrow> nat \<Rightarrow> nat option" where
  "vdrive_get_image vp nr = (case vp of None \<Rightarrow> None | Some v \<Rightarrow> images v ! nr)"

definition vdrive_device_shutdown :: "vdrive \<Rightarrow> vdrive" where
  "vdrive_device_shutdown v = v\<lparr>buffers := map (\<lambda>p. (vdrive_free_buffer p)\<lparr>buffer_ptr := BUF_NULL\<rparr>) (buffers v)\<rparr>"

subsection \<open>Opening and closing\<close>

record internals =
  i_host :: host_files
  i_write_p64 :: "disk_image \<Rightarrow> byte list"
  i_read_p64 :: "(byte list \<Rightarrow> int) option"
  i_header :: "byte list"
  i_id :: nat
  i_static :: gcr_static
  i_image :: disk_image
  i_ambient :: ambient

text \<open>The image as it is handed to \<^verbatim>\<open>disk_image_open\<close>; the memory for the media is cleared.\<close>

definition internal_image :: "internals \<Rightarrow> string \<Rightarrow> nat \<Rightarrow> disk_image" where
  "internal_image e name ro = (i_image e)\<lparr>read_only := ro, device := DEVICE_FS,
     media := Some \<lparr>fd = None, fs_name = name, error_map = None, error_dirty = False, error_len = 0\<rparr>\<rparr>"

text \<open>A drive in cleared memory; the first format has number 0.\<close>

definition cleared_drive :: "disk_image \<Rightarrow> vdrive" where
  "cleared_drive img =
    \<lparr>unit_no = 0, disk_heap = [img], images = [None, None], image_ptr = None, image_mode = 0, image_format = FORMAT_1541,
     Bam_Track = 0, Bam_Sector = 0, bam_name = 0, bam_id = 0, bam_state = replicate 33 0, bam_tracks = replicate 33 0,
     bam_sectors = replicate 33 0, Header_Track = 0, Header_Sector = 0, Dir_Track = 0, Dir_Sector = 0, num_tracks = 0,
     Part_Start = 0, Part_End = 0, current_offset = 0, sys_offset = 0, current_part = 0, selected_part = 0, default_part = 0,
     ptype = replicate 256 0, poffset = replicate 256 0, psize = replicate 256 0, cheadertrack = replicate 256 0,
     cheadersector = replicate 256 0, cdirtrack = replicate 256 0, cdirsector = replicate 256 0, cpartstart = replicate 256 0,
     cpartend = replicate 256 0, d90toggle = 0, haspt = False, dir_part = 0, dir_count = 0, last_code = 0,
     mem_buf_next_byte_override = 0, bam_size = 0, bam = None,
     buffers = replicate 16 \<lparr>mode = BUFFER_NOT_IN_USE, readmode = 0, buffer_ptr = BUF_NULL, bslot = None, bufnum = 0,
       bufptr = 0, btrack = 0, bsector = 0, buf_length = 0, brecord = 0, bpartition = 0, partstart = 0, partend = 0, bsmall = 0,
       timemode = 0, dir = \<lparr>dbuffer = replicate 256 0, find_length = 0, find_nslot = replicate 16 0, find_type = 0, dslot = 0,
         dtrack = 0, dsector = 0, time_low = 0, time_high = 0\<rparr>,
       rel = \<lparr>side_sector = [], side_sector_track = [], side_sector_sector = [], super_side_sector = [],
         super_side_sector_track = 0, super_side_sector_sector = 0, buffer_next = [], track_next = 0, sector_next = 0,
         record_max = 0, record_next = 0, side_sector_needsupdate = [], super_side_sector_needsupdate = 0\<rparr>,
       needsupdate = 0\<rparr>,
     ram = replicate 2048 0, last_read = (0, 0, replicate 256 0)\<rparr>"

definition vdrive_internal_open_fsimage :: "internals \<Rightarrow> string \<Rightarrow> nat \<Rightarrow> (vdrive option \<times> gcr_static) option" where
  "vdrive_internal_open_fsimage e name ro =
    (case disk_image_open (i_host e) (i_write_p64 e) (i_read_p64 e) (i_header e) (i_id e) (internal_image e name ro) (i_static e) of
       None \<Rightarrow> None
     | Some (r, img, st) \<Rightarrow>
         if r < 0 then Some (None, st)
         else
           let v = (vdrive_device_setup (cleared_drive img) 100)\<lparr>image_ptr := Some 0\<rparr>;
               (ret, v) = vdrive_attach_image (u_junk (i_ambient e)) (u_tmp (i_ambient e)) (Some 0) 100 0 v in
           Some (if ret \<noteq> 0 \<and> ro \<noteq> 0 then None else Some v, st))"

text \<open>
  The result, and what the host's file contains then (\<open>None\<close> if it was not open). The drives of a
  computer, units 8 to 11, are left alone.
\<close>

definition vdrive_internal_close_disk_image :: "internals \<Rightarrow> vdrive \<Rightarrow> (int \<times> byte list option) option" where
  "vdrive_internal_close_disk_image e v =
    (let img = image_ptr v in
     if unit_no v \<noteq> 8 \<and> unit_no v \<noteq> 9 \<and> unit_no v \<noteq> 10 \<and> unit_no v \<noteq> 11 then
       (case vdrive_detach_image (i_ambient e) img 0 v of
          None \<Rightarrow> None
        | Some v \<Rightarrow>
            (case disk_image_close (i_write_p64 e) (map_option (\<lambda>i. disk_heap v ! i) img) of
               (r, f, _) \<Rightarrow> Some (if r < 0 then -1 else 0, f)))
     else Some (0, None))"

subsection \<open>Formatting a new image\<close>

definition vdrive_internal_format_disk_image ::
  "internals \<Rightarrow> string \<Rightarrow> buffer option \<Rightarrow> (int \<times> byte list option) option" where
  "vdrive_internal_format_disk_image e filename disk_name =
    (let format_name = (case disk_name of None \<Rightarrow> [0x20, 0] | Some d \<Rightarrow> d) in
     case vdrive_internal_open_fsimage e filename 0 of
       None \<Rightarrow> None
     | Some (None, st) \<Rightarrow> Some (-1, None)
     | Some (Some v, st) \<Rightarrow>
         (case vdrive_command_format (i_ambient e) v (Some format_name) of
            None \<Rightarrow> None
          | Some (r, v) \<Rightarrow>
              let status = (if r \<noteq> CBMDOS_IPE_OK then -1 else 0) in
              (case vdrive_internal_close_disk_image (e\<lparr>i_static := st\<rparr>) v of
                 None \<Rightarrow> None
               | Some (r, f) \<Rightarrow> Some (if r < 0 then -1 else status, f))))"

text \<open>The host with a file of these contents, which can be read and written.\<close>

definition with_file :: "string \<Rightarrow> byte list option \<Rightarrow> host_files \<Rightarrow> host_files" where
  "with_file name f host =
    (case f of None \<Rightarrow> host
     | Some f \<Rightarrow> host\<lparr>archdep_stat := (archdep_stat host)(name := Some False),
         zfile_fopen := (zfile_fopen host)(name := (\<lambda>_. Some f))\<rparr>)"

text \<open>
  \<open>write_p64\<close> and \<open>rawdata\<close> belong to the creation of P64 files, \<open>can_create\<close> tells whether the
  host lets the file be created. The result is that of the function and the contents of the file.
\<close>

definition vdrive_internal_create_format_disk_image ::
  "((nat \<times> byte list) list \<Rightarrow> byte list option) \<Rightarrow> buffer \<Rightarrow> bool \<Rightarrow> internals \<Rightarrow> string \<Rightarrow> buffer option \<Rightarrow> disk_image_type \<Rightarrow>
   (int \<times> byte list option) option" where
  "vdrive_internal_create_format_disk_image write_p64 rawdata can_create e filename diskname ty =
    (if ty \<in> {D1M, D2M, D4M} then Some (fsimage_create_dxm can_create (the diskname) ty)
     else if ty = DHD then Some (fsimage_create_dhd can_create ty)
     else case fsimage_create write_p64 rawdata can_create ty of
       (r, f) \<Rightarrow>
         if r < 0 then Some (-1, f)
         else case vdrive_internal_format_disk_image (e\<lparr>i_host := with_file filename f (i_host e)\<rparr>) filename diskname of
           None \<Rightarrow> None
         | Some (r, g) \<Rightarrow> Some (if r < 0 then -1 else 0, case g of None \<Rightarrow> f | Some g \<Rightarrow> Some g))"

definition cbmimage_create_image ::
  "((nat \<times> byte list) list \<Rightarrow> byte list option) \<Rightarrow> buffer \<Rightarrow> bool \<Rightarrow> disk_image_type \<Rightarrow> int \<times> byte list option" where
  "cbmimage_create_image write_p64 rawdata can_create ty = fsimage_create write_p64 rawdata can_create ty"

definition cbmimage_create_dxm_image :: "bool \<Rightarrow> buffer \<Rightarrow> disk_image_type \<Rightarrow> int \<times> byte list option" where
  "cbmimage_create_dxm_image can_create dname ty = fsimage_create_dxm can_create dname ty"

definition cbmimage_create_dhd_image :: "bool \<Rightarrow> disk_image_type \<Rightarrow> int \<times> byte list option" where
  "cbmimage_create_dhd_image can_create ty = fsimage_create_dhd can_create ty"

subsection \<open>Listing an image file\<close>

definition diskcontents_filesystem_read :: "internals \<Rightarrow> string \<Rightarrow> image_contents option option" where
  "diskcontents_filesystem_read e filename =
    (case vdrive_internal_open_fsimage e filename 1 of
       None \<Rightarrow> None
     | Some (None, st) \<Rightarrow> Some None
     | Some (Some v, st) \<Rightarrow>
         (case diskcontents_block_read (u_buf (i_ambient e)) (Some v) 0 of
            None \<Rightarrow> None
          | Some (c, vp) \<Rightarrow>
              (case vdrive_internal_close_disk_image (e\<lparr>i_static := st\<rparr>) (the vp) of
                 None \<Rightarrow> None
               | Some _ \<Rightarrow> Some c)))"

end
