(* ===== verification/Spec2Isabelle.thy ===== *)
theory Spec2Isabelle
  imports FsGcrSector RelRecords ValidateChain FileRoundTrip VdriveInternal
begin

text \<open>
  \<^bold>\<open>The virtual drive of Meatloaf\<close>

  Meatloaf emulates Commodore storage devices. Its virtual drive (\<^verbatim>\<open>lib/vdrive\<close>, C code that
  descends from the VICE emulator) serves the commands of a CBM DOS disk drive from a disk
  image file: a host opens \<^verbatim>\<open>0:NAME,S,W\<close> on a channel, the drive finds or creates the
  directory slot, allocates sectors in the block availability map (BAM) and reads and writes
  them through several layers of addresses. This development models that code and proves what
  the layers promise to each other.

  \<^bold>\<open>The parts and where they are modelled\<close> (sources under \<^verbatim>\<open>lib/vdrive\<close>)

  \<^item> \<^verbatim>\<open>Prelude\<close>: C integer conversions, buffers (\<^verbatim>\<open>memset\<close>, \<^verbatim>\<open>memcpy\<close>), prefix sums.
  \<^item> \<^verbatim>\<open>DiskImage\<close> (\<^verbatim>\<open>diskimage.c\<close>, \<^verbatim>\<open>fsimage-check.c\<close>): geometry of the image types, and the map
    from track and sector to the block of the file. C1: the map is injective and in track
    order.
  \<^item> \<^verbatim>\<open>Cbmdos\<close>, \<^verbatim>\<open>CbmdosParse\<close> (\<^verbatim>\<open>cbmdos.c\<close>): error texts and codes, name patterns, the two
    parsers of names and commands. C3, C4: the wildcard comparison decides the declarative
    match. C25: what a file name parses to. C26: for which input the parser follows a null
    pointer.
  \<^item> \<^verbatim>\<open>SectorStore\<close> (locale \<^verbatim>\<open>sector_store\<close>) is the contract of everything that stores sectors.
    \<^verbatim>\<open>FsImage\<close> (\<^verbatim>\<open>fsimage-dxx.c\<close>, \<^verbatim>\<open>fsimage.c\<close>, parts of \<^verbatim>\<open>diskimage.c\<close> and \<^verbatim>\<open>util.c\<close>) interprets
    it for image files with their error map (C5, with the error exits in C6 and what happens
    beyond 2 GB in C7), and \<^verbatim>\<open>Vdrive\<close> for logical sectors of a
    drive (C10), so that the facts of the locale serve both.
  \<^item> \<^verbatim>\<open>FsProbe\<close> (\<^verbatim>\<open>fsimage-probe.c\<close>, opening and closing in \<^verbatim>\<open>fsimage.c\<close> and \<^verbatim>\<open>diskimage.c\<close>): the type of an
    image file from its size, name and first bytes; an opened image fulfils what sector access
    relies on (C39). \<^verbatim>\<open>FsCreate\<close> (\<^verbatim>\<open>fsimage-create.c\<close>): new image files, and that they open as what
    they were created for (C28). \<^verbatim>\<open>FsGcr\<close> (\<^verbatim>\<open>fsimage-gcr.c\<close>): files of raw tracks,
    whose sectors read back as written (C22, \<^verbatim>\<open>FsGcrSector\<close>).
  \<^item> \<^verbatim>\<open>Vdrive\<close> (\<^verbatim>\<open>vdrive.c\<close>, \<^verbatim>\<open>vdrive.h\<close>): the drive's state, the translation of logical sectors of a
    CMD partition to physical ones (C9), sector access with its refusals (C10, C11), disk
    geometry, buffers, and the error channel of \<^verbatim>\<open>vdrive-command.c\<close>.
  \<^item> \<^verbatim>\<open>Bam\<close> (\<^verbatim>\<open>vdrive-bam.c\<close>): every operation on the BAM. \<^verbatim>\<open>AllocationMap\<close> (locale
    \<^verbatim>\<open>allocation_map\<close>) is the contract of a set of allocated sectors; \<^verbatim>\<open>BamMap\<close> interprets it for
    the BAM of every format but the D9090 (C12 to C14); \<^verbatim>\<open>BamSearch\<close> proves the searches for a
    file's first and next sector to be searches through a list of candidates, by the
    locale's lemmas (C15, C16), and that following links ends (C17); \<^verbatim>\<open>BamStore\<close> relates the BAM in memory to its
    sectors on disk (C20, C21).
  \<^item> \<^verbatim>\<open>Partition\<close> (\<^verbatim>\<open>vdrive.c\<close>): the partition table of CMD disks, switching partitions and
    attaching an image (C18, C19).
  \<^item> \<^verbatim>\<open>Dir\<close> (\<^verbatim>\<open>vdrive-dir.c\<close>): search, extension, scratching, listings; \<^verbatim>\<open>DirSearch\<close>: chains of
    sectors on a disk, what a search finds (C27), when it ends (C29), and that freeing
    a file frees its sectors (C30, C31).
  \<^item> \<^verbatim>\<open>IecSeq\<close> (\<^verbatim>\<open>vdrive-iec.c\<close>): sequential files on a channel. \<^verbatim>\<open>IecFile\<close>: reading a chain of
    sectors (C32) and the round trip of a written file (C33), by the invariant \<open>file_state\<close> of a
    channel that writes a file; \<^verbatim>\<open>IecClose\<close>: what closing it leaves on the disk (C34). They rest
    on the contracts of the sector store, of the allocation map and of the BAM's flush.
  \<^item> \<^verbatim>\<open>Rel\<close> (\<^verbatim>\<open>vdrive-rel.c\<close>): relative files. Writing, growing, positioning and filling call each
    other in a cycle; each is a definition over the calls of the cycle, and \<open>rel_run\<close> ties them.
    \<^verbatim>\<open>RelRecords\<close>: where the records are (C35).
  \<^item> \<^verbatim>\<open>Iec\<close> (\<^verbatim>\<open>vdrive-iec.c\<close>): opening a channel of every kind (command channel, direct access,
    directory, program and data files) and the dispatch of reading, writing and closing on the
    mode of the channel. \<^verbatim>\<open>FileOpen\<close> and \<^verbatim>\<open>FileLoad\<close> compose the parser, the directory, the BAM and
    the sequential files: saving a file by name (C37) and loading one (C38); \<^verbatim>\<open>FileRoundTrip\<close>: a saved file loads again (C40).
  \<^item> The command channel (\<^verbatim>\<open>vdrive-command.c\<close>): \<^verbatim>\<open>CommandPath\<close> changes partitions and
    directories along a path, \<^verbatim>\<open>CommandBlock\<close> has direct block and memory access, \<^verbatim>\<open>CommandFile\<close> renaming,
    locking and scratching, \<^verbatim>\<open>CommandDisk\<close> initialising, validating and formatting, \<^verbatim>\<open>CommandPart\<close>
    partitions, subdirectories and the clock, \<^verbatim>\<open>CommandCopy\<close> copying. \<^verbatim>\<open>ValidateChain\<close>: what
    validating the chain of a file allocates and detects (C36). \<^verbatim>\<open>Command\<close> is the dispatch
    \<open>vdrive_command_execute\<close> and \<open>vdrive_iec_flush\<close>, which hands it the bytes a host sent.
  \<^item> \<^verbatim>\<open>Gcr\<close> (\<^verbatim>\<open>gcr.c\<close>): group coded recording of raw tracks; \<^verbatim>\<open>GcrBits\<close>: the codec as a map on
    bit strings; \<^verbatim>\<open>GcrTrack\<close>: a track as a ring of bits, the sync search and the data block at
    any bit position; \<^verbatim>\<open>GcrSector\<close>: a sector reads back as written (C24).
  \<^item> \<^verbatim>\<open>Charset\<close> (\<^verbatim>\<open>charset.c\<close>): ASCII, PETSCII and UTF-8; names convert to the host's characters and back,
    and when the conversion to UTF-8 is right (C23). \<^verbatim>\<open>ImageContents\<close> (\<^verbatim>\<open>diskcontents-block.c\<close>,
    \<^verbatim>\<open>imagecontents.c\<close>): the listing of a disk for the host, which always ends (C2) and shows what is
    on the disk (C8). \<^verbatim>\<open>VdriveInternal\<close> (\<^verbatim>\<open>vdrive-internal.c\<close>, \<^verbatim>\<open>diskcontents.c\<close>, \<^verbatim>\<open>cbmimage.c\<close>): drives the
    library makes for itself, to list and to format image files; detaching an image.

  \<^bold>\<open>How C is modelled\<close>

  Structs are records, enumerations datatypes, \<^verbatim>\<open>uint8_t\<close> an 8-bit word, \<^verbatim>\<open>unsigned\<close> a natural
  number with the wrap-around written out where it can occur, return codes integers. \<^verbatim>\<open>int\<close> and
  \<^verbatim>\<open>long\<close> have 32 bits: the place of a block in an image file overflows from 2 GB on, and what is
  said of sectors (C5, C10, C20 and the properties built on them) is said of the first 2 GB of a
  file, which only the image of a CMD hard disk can exceed. Functions
  take and return the state they change. Images live in a heap that the drive's pointers
  index. Uninitialised local buffers and fresh memory are arguments of the functions, so that
  every theorem holds for any contents. Reads outside a buffer are unspecified; where the
  code makes them, a property or a finding says so. Loops over links read from the disk are
  partial functions whose value \<open>None\<close> is a loop that does not end, and the theorems say that
  they end, or that they do not; all other loops are total functions, so no fuel is needed.
  In the drive, image files of raw tracks are read and written through the parameter \<open>raw_codec\<close>;
  the time of the host's clock is an argument.

  \<^bold>\<open>Not modelled\<close>

  The pulse streams of P64 files (\<^verbatim>\<open>p64.c\<close>) are parameters of the functions that use them, and so
  is the sector access to raw track files in the drive (the record \<open>sector_codec\<close>): \<^verbatim>\<open>fsimage-gcr.c\<close>
  keeps static variables, which \<^verbatim>\<open>FsGcr\<close> has as arguments. Functions that encode a flat image into raw
  tracks serve a drive emulation this program does not have. Logging, memory management and the
  host's file system are I/O. The C++ classes around the drive, the network services and the
  vendored libraries are outside it.
\<close>

end
